(* ===== verification/Prelude.thy ===== *)
theory Prelude
  imports Main "HOL-Library.Word"
begin

text \<open>
  Shared vocabulary of the development: the machine types of the C code, the constants of
  \<^verbatim>\<open>main.h\<close> that several components use, kernel time, big-endian byte access, and the generic
  lemmas on words, lists and counting on which the component theories rest.

  Conventions. An unsigned \<open>w\<close>-bit C integer is a \<open>w word\<close>. A signed quantity (\<open>s32\<close>, \<open>int\<close>)
  is an \<open>int\<close>; where the C code forms it from unsigned operands the model takes \<open>sint\<close> of the
  word result, which is where the conversion of the C code happens. Reference counts, RCU
  read sections, spin locks, debug output and traffic counters are not modelled: each
  operation is one atomic step on the state. An allocation that can fail is a Boolean
  argument of the operation, so that the error path is a branch of the model.
\<close>

unbundle bit_operations_syntax

type_synonym u8 = "8 word"
type_synonym u16 = "16 word"
type_synonym u32 = "32 word"
type_synonym mac = "48 word"
type_synonym jiffies = "64 word"
type_synonym seqbits = "64 word"

named_theorems bounds \<open>upper bounds of computed machine values\<close>
named_theorems frame \<open>fields an operation leaves unchanged\<close>

section \<open>Constants of main.h\<close>

abbreviation (input) BATADV_TQ_MAX_VALUE :: nat where "BATADV_TQ_MAX_VALUE \<equiv> 255"
abbreviation (input) BATADV_TQ_LOCAL_WINDOW_SIZE :: nat where "BATADV_TQ_LOCAL_WINDOW_SIZE \<equiv> 64"
abbreviation (input) BATADV_TQ_GLOBAL_WINDOW_SIZE :: nat where "BATADV_TQ_GLOBAL_WINDOW_SIZE \<equiv> 5"
abbreviation (input) BATADV_EXPECTED_SEQNO_RANGE :: int where "BATADV_EXPECTED_SEQNO_RANGE \<equiv> 65536"
abbreviation (input) BATADV_RESET_PROTECTION_MS :: nat where "BATADV_RESET_PROTECTION_MS \<equiv> 30000"
abbreviation (input) BATADV_BCAST_MAX_AGE :: int where "BATADV_BCAST_MAX_AGE \<equiv> 64"
abbreviation (input) ETH_HLEN :: nat where "ETH_HLEN \<equiv> 14"
abbreviation (input) BATADV_TTL :: nat where "BATADV_TTL \<equiv> 50"
abbreviation (input) BATADV_COMPAT_VERSION :: u8 where "BATADV_COMPAT_VERSION \<equiv> 15"

section \<open>Kernel time\<close>

text \<open>
  \<open>m2j\<close> is the kernel's \<^verbatim>\<open>msecs_to_jiffies\<close>, whose value depends on the configured tick rate;
  it is an argument of every definition that uses time. The comparison is the kernel's
  wrap-around comparison of \<open>unsigned long\<close> time stamps.
\<close>

definition time_before :: "jiffies \<Rightarrow> jiffies \<Rightarrow> bool" where
  "time_before a b \<longleftrightarrow> sint (a - b) < 0"

definition time_after_eq :: "jiffies \<Rightarrow> jiffies \<Rightarrow> bool" where
  "time_after_eq a b \<longleftrightarrow> 0 \<le> sint (a - b)"

definition batadv_has_timed_out :: "(nat \<Rightarrow> jiffies) \<Rightarrow> jiffies \<Rightarrow> jiffies \<Rightarrow> nat \<Rightarrow> bool" where
  "batadv_has_timed_out m2j now timestamp timeout \<longleftrightarrow> time_before (timestamp + m2j timeout) now"

lemma time_before_irrefl [simp]: "\<not> time_before a a"
  by (simp add: time_before_def)

lemma time_after_eq_refl [simp]: "time_after_eq a a"
  by (simp add: time_after_eq_def)

lemma time_after_eq_iff: "time_after_eq a b \<longleftrightarrow> \<not> time_before a b"
  by (auto simp: time_before_def time_after_eq_def)

section \<open>Serial sequence numbers\<close>

text \<open>
  \<^verbatim>\<open>batadv_seq_before\<close>: the difference of two unsigned values of the same width compared with
  the smallest signed value of that width.
\<close>

definition batadv_seq_before :: "'a::len word \<Rightarrow> 'a word \<Rightarrow> bool" where
  "batadv_seq_before x y \<longleftrightarrow> unat (x - y) > 2 ^ (LENGTH('a) - 1)"

definition batadv_seq_after :: "'a::len word \<Rightarrow> 'a word \<Rightarrow> bool" where
  "batadv_seq_after x y \<longleftrightarrow> batadv_seq_before y x"

lemma unat_neg: "unat (- d :: 'a::len word) = (if d = 0 then 0 else 2 ^ LENGTH('a) - unat d)"
  using unat_sub_if' [of 0 d] by (auto simp: unat_0_iff split: if_splits)

lemma double_half: "2 ^ LENGTH('a::len) = 2 * (2::nat) ^ (LENGTH('a) - 1)"
  by (metis len_gt_0 power_eq_if less_numeral_extra(3))

lemma batadv_seq_before_irrefl [simp]: "\<not> batadv_seq_before x x"
  by (simp add: batadv_seq_before_def)

lemma batadv_seq_before_asym: "batadv_seq_before x y \<Longrightarrow> \<not> batadv_seq_before y (x :: 'a::len word)"
  using unat_neg [of "x - y"] double_half [where 'a = 'a]
  by (auto simp: batadv_seq_before_def split: if_splits)

lemma batadv_seq_trichotomy:
  "batadv_seq_before x y \<or> batadv_seq_before y (x :: 'a::len word) \<or> x = y
    \<or> unat (x - y) = 2 ^ (LENGTH('a) - 1)"
  using unat_neg [of "x - y"] double_half [where 'a = 'a]
  by (auto simp: batadv_seq_before_def split: if_splits)

lemma batadv_seq_after_add:
  assumes "0 < n" "n < 2 ^ (LENGTH('a) - 1)"
  shows "batadv_seq_after (x + of_nat n) (x :: 'a::len word)"
proof -
  have lt: "n < 2 ^ LENGTH('a)"
    using assms double_half [where 'a = 'a] by linarith
  then have "unat (of_nat n :: 'a word) = n"
    by (simp add: unat_of_nat take_bit_nat_eq_self)
  then show ?thesis
    using assms unat_neg [of "of_nat n :: 'a word"] double_half [where 'a = 'a]
    by (auto simp: batadv_seq_before_def batadv_seq_after_def split: if_splits)
qed

section \<open>Signed readings of word differences\<close>

lemma sint_cases:
  "sint (w :: 'a::len word) =
    (if unat w < 2 ^ (LENGTH('a) - 1) then int (unat w) else int (unat w) - 2 ^ LENGTH('a))"
proof -
  define h :: int where "h = 2 ^ (LENGTH('a) - 1)"
  have half: "(2::int) ^ LENGTH('a) = 2 * h"
    unfolding h_def using double_half [where 'a = 'a] by (metis of_nat_mult of_nat_numeral of_nat_power)
  have u: "0 \<le> uint w" "uint w < 2 * h"
    using half uint_lt2p [of w] by simp_all
  have s: "sint w = (uint w + h) mod (2 * h) - h"
    using int_word_sint [of "uint w", where 'a = 'a] half by (simp add: h_def)
  have i: "int (unat w) = uint w"
    by simp
  have hn: "h = int (2 ^ (LENGTH('a) - 1))"
    by (simp add: h_def)
  have lt: "unat w < 2 ^ (LENGTH('a) - 1) \<longleftrightarrow> uint w < h"
    unfolding hn i [symmetric] of_nat_less_iff ..
  show ?thesis
  proof (cases "uint w < h")
    case True
    then show ?thesis using s u lt i by (simp add: mod_pos_pos_trivial)
  next
    case False
    then have "(uint w + h) mod (2 * h) = uint w + h - 2 * h"
      using u by (subst minus_mod_self2 [symmetric]) (simp add: mod_pos_pos_trivial)
    then show ?thesis using False s u lt i half by simp
  qed
qed
lemma unat_less_uint: "unat w < k \<longleftrightarrow> uint w < int k"
  by (metis of_nat_less_iff of_nat_unat)

lemma sint_window_iff:
  fixes w :: u32
  assumes "k \<le> 2 ^ 31"
  shows "0 \<le> sint w \<and> sint w < int k \<longleftrightarrow> unat w < k"
  using assms uint_lt2p [of w] by (auto simp: sint_cases unat_less_uint)

lemma nat_sint_unat: "0 \<le> sint w \<Longrightarrow> nat (sint (w :: 'a::len word)) = unat w"
proof -
  assume "0 \<le> sint w"
  then have "sint w = uint w"
    using sint_cases [of w] uint_lt2p [of w] by (auto split: if_splits dest: leD)
  then show ?thesis by simp
qed

lemma sint_uminus_u32:
  "- (2 ^ 31) < sint (d :: u32) \<Longrightarrow> sint (- d) = - sint d"
  using sint_lt [of d] by (simp add: sint_word_minus signed_take_bit_int_eq_self)

lemma unat_minus_diff:
  "unat ((a :: 'a::len word) - b) =
    (if unat b \<le> unat a then unat a - unat b else unat a + 2 ^ LENGTH('a) - unat b)"
  by (simp add: unat_sub_if')

section \<open>Counting bits\<close>

definition bitmap_weight :: "seqbits \<Rightarrow> nat" where
  "bitmap_weight b = length (filter (bit b) [0..<64])"

lemma bitmap_weight_le [bounds]: "bitmap_weight b \<le> 64"
  unfolding bitmap_weight_def using length_filter_le [of "bit b" "[0..<64]"] by simp

lemma bitmap_weight_0 [simp]: "bitmap_weight 0 = 0"
  by (simp add: bitmap_weight_def)

section \<open>Lists\<close>

lemma find_SomeD: "List.find P xs = Some x \<Longrightarrow> x \<in> set xs \<and> P x"
  by (induction xs) (auto split: if_splits)

lemma list_update_same_length [simp]: "length (xs[i := v]) = length xs"
  by simp

end
