(* ===== verification/Interfaces.thy ===== *)
theory Interfaces
  imports Prelude
begin

text \<open>
  The contracts between components, as locales. A component that provides an interface
  interprets the locale on its own definitions; the lemmas of a client are proved once
  here, from the laws alone.
\<close>

section \<open>Duplicate filters\<close>

text \<open>
  A filter looks at a packet, says whether it is to be processed, and changes its memory.
  \<open>seen c s p\<close> is what the filter would hold against \<open>p\<close> at time \<open>c\<close>.
\<close>

locale duplicate_filter =
  fixes check :: "'c \<Rightarrow> 's \<Rightarrow> 'p \<Rightarrow> 's \<times> bool"
    and seen :: "'c \<Rightarrow> 's \<Rightarrow> 'p \<Rightarrow> bool"
  assumes seen_rejected: "seen c s p \<Longrightarrow> \<not> snd (check c s p)"
    and accepted_seen: "snd (check c s p) \<Longrightarrow> seen c (fst (check c s p)) p"
begin

lemma accepted_fresh: "snd (check c s p) \<Longrightarrow> \<not> seen c s p"
  using seen_rejected by blast

lemma repeat_rejected: "snd (check c s p) \<Longrightarrow> \<not> snd (check c (fst (check c s p)) p)"
  by (intro seen_rejected accepted_seen)

end

section \<open>Keyed tables\<close>

text \<open>
  A table of elements with a key: \<open>find\<close> looks an element up, \<open>add\<close> refuses an element whose
  key is taken, \<open>del\<close> takes the element with a key out. \<open>ok\<close> is the invariant. The laws say
  that the table is a partial map from keys to elements; the client view of a run of
  operations is the same run on maps.
\<close>

datatype ('k, 'a) table_op = Op_Add 'a | Op_Del 'k

fun table_step :: "('s \<Rightarrow> 'a \<Rightarrow> 's \<times> bool) \<Rightarrow> ('s \<Rightarrow> 'k \<Rightarrow> 's \<times> 'a option) \<Rightarrow> 's \<Rightarrow> ('k, 'a) table_op \<Rightarrow> 's" where
  "table_step add del s (Op_Add a) = fst (add s a)"
| "table_step add del s (Op_Del k) = fst (del s k)"

fun map_step :: "('a \<Rightarrow> 'k) \<Rightarrow> ('k \<Rightarrow> 'a option) \<Rightarrow> ('k, 'a) table_op \<Rightarrow> ('k \<Rightarrow> 'a option)" where
  "map_step key m (Op_Add a) = (if m (key a) = None then m(key a \<mapsto> a) else m)"
| "map_step key m (Op_Del k) = m(k := None)"

locale keyed_table =
  fixes key :: "'a \<Rightarrow> 'k"
    and ok :: "'s \<Rightarrow> bool"
    and find :: "'s \<Rightarrow> 'k \<Rightarrow> 'a option"
    and add :: "'s \<Rightarrow> 'a \<Rightarrow> 's \<times> bool"
    and del :: "'s \<Rightarrow> 'k \<Rightarrow> 's \<times> 'a option"
  assumes find_key: "ok s \<Longrightarrow> find s k = Some a \<Longrightarrow> key a = k"
    and add_ok: "ok s \<Longrightarrow> ok (fst (add s a))"
    and add_fresh: "ok s \<Longrightarrow> find s (key a) = None \<Longrightarrow>
      snd (add s a) \<and> find (fst (add s a)) = (find s)(key a \<mapsto> a)"
    and add_taken: "ok s \<Longrightarrow> find s (key a) \<noteq> None \<Longrightarrow>
      \<not> snd (add s a) \<and> find (fst (add s a)) = find s"
    and del_ok: "ok s \<Longrightarrow> ok (fst (del s k))"
    and del_find: "ok s \<Longrightarrow> snd (del s k) = find s k \<and> find (fst (del s k)) = (find s)(k := None)"
begin

abbreviation step :: "'s \<Rightarrow> ('k, 'a) table_op \<Rightarrow> 's" where
  "step \<equiv> table_step add del"

lemma step_ok: "ok s \<Longrightarrow> ok (step s p)"
  by (cases p) (simp_all add: add_ok del_ok)

lemma step_refines: "ok s \<Longrightarrow> find (step s p) = map_step key (find s) p"
  using add_fresh add_taken del_find by (cases p) auto

lemma run_refines:
  "ok s \<Longrightarrow> ok (foldl step s ps) \<and> find (foldl step s ps) = foldl (map_step key) (find s) ps"
  by (induction ps arbitrary: s) (simp_all add: step_ok step_refines)

lemma add_iff: "ok s \<Longrightarrow> snd (add s a) \<longleftrightarrow> find s (key a) = None"
  using add_fresh add_taken by blast

end

section \<open>State machines\<close>

text \<open>
  A component whose handlers run one at a time: an invariant of the initial states that every
  step preserves holds in every state that is ever reached.
\<close>

locale transition_system =
  fixes initial :: "'s \<Rightarrow> bool"
    and step :: "'s \<Rightarrow> 's \<Rightarrow> bool"
    and invariant :: "'s \<Rightarrow> bool"
  assumes initial_invariant: "initial s \<Longrightarrow> invariant s"
    and step_invariant: "step s s' \<Longrightarrow> invariant s \<Longrightarrow> invariant s'"
begin

lemma run_invariant: "step\<^sup>*\<^sup>* s s' \<Longrightarrow> invariant s \<Longrightarrow> invariant s'"
  by (induction rule: rtranclp_induct) (auto intro: step_invariant)

lemma reachable_invariant: "initial s \<Longrightarrow> step\<^sup>*\<^sup>* s s' \<Longrightarrow> invariant s'"
  by (rule run_invariant [OF _ initial_invariant])

end

end
