(* ===== verification/SeqWindow.thy ===== *)
theory SeqWindow
  imports Interfaces
begin

text \<open>
  The sliding window of received sequence numbers: \<^verbatim>\<open>bitarray.c\<close>, \<^verbatim>\<open>bitarray.h\<close>, the restart
  protection of \<^verbatim>\<open>routing.c\<close> and the broadcast duplicate check of
  \<^verbatim>\<open>batadv_recv_bcast_packet\<close>. A window is a 64-bit map relative to the newest sequence
  number; bit \<open>n\<close> says that the number \<open>n\<close> below the newest one was received. The abstract
  view is the set of sequence numbers the window remembers.
\<close>

section \<open>Operations\<close>

definition batadv_test_bit :: "seqbits \<Rightarrow> u32 \<Rightarrow> u32 \<Rightarrow> bool" where
  "batadv_test_bit seq_bits last_seqno curr_seqno =
     (let diff = sint (last_seqno - curr_seqno) in
      if diff < 0 \<or> diff \<ge> int BATADV_TQ_LOCAL_WINDOW_SIZE then False
      else bit seq_bits (nat diff))"

definition batadv_set_bit :: "seqbits \<Rightarrow> int \<Rightarrow> seqbits" where
  "batadv_set_bit seq_bits n =
     (if n < 0 \<or> n \<ge> int BATADV_TQ_LOCAL_WINDOW_SIZE then seq_bits
      else set_bit (nat n) seq_bits)"

definition batadv_bitmap_shift_left :: "seqbits \<Rightarrow> int \<Rightarrow> seqbits" where
  "batadv_bitmap_shift_left seq_bits n =
     (if n \<le> 0 \<or> n \<ge> int BATADV_TQ_LOCAL_WINDOW_SIZE then seq_bits
      else push_bit (nat n) seq_bits)"

text \<open>The result is the new bitmap and whether the window was moved (the C code's 1 and 0).\<close>

definition batadv_bit_get_packet :: "seqbits \<Rightarrow> int \<Rightarrow> bool \<Rightarrow> seqbits \<times> bool" where
  "batadv_bit_get_packet seq_bits seq_num_diff set_mark =
     (if seq_num_diff \<le> 0 \<and> seq_num_diff > - int BATADV_TQ_LOCAL_WINDOW_SIZE then
        ((if set_mark then batadv_set_bit seq_bits (- seq_num_diff) else seq_bits), False)
      else if seq_num_diff > 0 \<and> seq_num_diff < int BATADV_TQ_LOCAL_WINDOW_SIZE then
        (let shifted = batadv_bitmap_shift_left seq_bits seq_num_diff in
         (if set_mark then batadv_set_bit shifted 0 else shifted), True)
      else if seq_num_diff \<ge> int BATADV_TQ_LOCAL_WINDOW_SIZE
           \<and> seq_num_diff < BATADV_EXPECTED_SEQNO_RANGE then
        ((if set_mark then batadv_set_bit 0 0 else 0), True)
      else
        ((if set_mark then batadv_set_bit 0 0 else 0), True))"

text \<open>
  The restart protection. The result is whether the packet is to be ignored, the new
  \<open>last_reset\<close>, and the new value of \<open>*protection_started\<close>.
\<close>

definition batadv_window_protected ::
    "(nat \<Rightarrow> jiffies) \<Rightarrow> jiffies \<Rightarrow> int \<Rightarrow> int \<Rightarrow> jiffies \<Rightarrow> bool \<Rightarrow> bool \<times> jiffies \<times> bool" where
  "batadv_window_protected m2j now seq_num_diff seq_old_max_diff last_reset started =
     (if seq_num_diff \<le> - seq_old_max_diff \<or> seq_num_diff \<ge> BATADV_EXPECTED_SEQNO_RANGE then
        (if \<not> batadv_has_timed_out m2j now last_reset BATADV_RESET_PROTECTION_MS
         then (True, last_reset, started)
         else (False, now, True))
      else (False, last_reset, started))"

text \<open>The members of an originator that guard its broadcasts, and the check made under
  \<^verbatim>\<open>bcast_seqno_lock\<close>; the Boolean result tells whether the broadcast is processed further.\<close>

record bcast_window =
  bcast_bits :: seqbits
  last_bcast_seqno :: u32
  bcast_seqno_reset :: jiffies

definition bcast_seqno_accept ::
    "(nat \<Rightarrow> jiffies) \<Rightarrow> jiffies \<Rightarrow> bcast_window \<Rightarrow> u32 \<Rightarrow> bcast_window \<times> bool" where
  "bcast_seqno_accept m2j now w seqno =
     (if batadv_test_bit (bcast_bits w) (last_bcast_seqno w) seqno then (w, False)
      else
        let seq_diff = sint (seqno - last_bcast_seqno w);
            (protected, reset', _) =
              batadv_window_protected m2j now seq_diff BATADV_BCAST_MAX_AGE
                (bcast_seqno_reset w) False
        in if protected then (w\<lparr>bcast_seqno_reset := reset'\<rparr>, False)
           else
             let (bits', moved) = batadv_bit_get_packet (bcast_bits w) seq_diff True
             in (w\<lparr>bcast_bits := bits',
                   last_bcast_seqno := (if moved then seqno else last_bcast_seqno w),
                   bcast_seqno_reset := reset'\<rparr>, True))"

fun bcast_run :: "(nat \<Rightarrow> jiffies) \<Rightarrow> bcast_window \<Rightarrow> (jiffies \<times> u32) list \<Rightarrow> bcast_window" where
  "bcast_run m2j w [] = w"
| "bcast_run m2j w ((now, s) # ps) = bcast_run m2j (fst (bcast_seqno_accept m2j now w s)) ps"

section \<open>Abstract view\<close>

text \<open>The numbers a window remembers, and the range it can remember at all.\<close>

definition window_seen :: "seqbits \<Rightarrow> u32 \<Rightarrow> u32 set" where
  "window_seen bits newest = {s. batadv_test_bit bits newest s}"

definition window_range :: "u32 \<Rightarrow> u32 set" where
  "window_range newest = {s. unat (newest - s) < BATADV_TQ_LOCAL_WINDOW_SIZE}"

lemma batadv_test_bit_iff:
  "batadv_test_bit bits newest s \<longleftrightarrow> unat (newest - s) < 64 \<and> bit bits (unat (newest - s))"
  using sint_window_iff [of 64 "newest - s"] nat_sint_unat [of "newest - s"]
  by (auto simp: batadv_test_bit_def Let_def)

lemma window_seen_range: "window_seen bits newest \<subseteq> window_range newest"
  by (auto simp: window_seen_def window_range_def batadv_test_bit_iff)

lemma window_seen_0 [simp]: "window_seen 0 newest = {}"
  by (simp add: window_seen_def batadv_test_bit_iff)

lemma bit_set_bit_64: "n < 64 \<Longrightarrow> bit (set_bit m (b :: seqbits)) n \<longleftrightarrow> bit b n \<or> m = n"
  by (auto simp: bit_set_bit_iff)

lemma bit_push_bit_64: "n < 64 \<Longrightarrow> bit (push_bit m (b :: seqbits)) n \<longleftrightarrow> m \<le> n \<and> bit b (n - m)"
  by (auto simp: bit_push_bit_iff)

text \<open>What each kind of step does to the remembered numbers.\<close>

lemma unat_old_diff:
  assumes "sint (s - newest :: u32) \<le> 0" "sint (s - newest) > - 64"
  shows "unat (newest - s) < 64" and "- sint (s - newest) = int (unat (newest - s))"
proof -
  have eq: "sint (newest - s) = - sint (s - newest)"
    using sint_uminus_u32 [of "s - newest"] assms by simp
  then show "unat (newest - s) < 64"
    using sint_window_iff [of 64 "newest - s"] assms by simp
  then show "- sint (s - newest) = int (unat (newest - s))"
    using eq assms by (subst nat_sint_unat [symmetric]) simp_all
qed

lemma window_seen_mark_old:
  assumes "sint (s - newest) \<le> 0" "sint (s - newest) > - 64"
  shows "window_seen (batadv_set_bit bits (- sint (s - newest))) newest
       = insert s (window_seen bits newest)"
  unfolding unat_old_diff(2) [OF assms]
  using unat_old_diff(1) [OF assms]
  by (auto simp: window_seen_def batadv_test_bit_iff batadv_set_bit_def bit_set_bit_64
      simp del: of_nat_unat simp flip: word_unat_eq_iff)

lemma shifted_test_iff:
  fixes s t newest :: u32
  assumes "unat (s - newest) = k" "0 < k" "k < 64" "unat (s - t) < 64"
  shows "bit (set_bit 0 (push_bit k (bits :: seqbits))) (unat (s - t))
     \<longleftrightarrow> t = s \<or> unat (newest - t) < 64 \<and> bit bits (unat (newest - t))"
proof -
  have "newest - t = (s - t) - (s - newest)"
    by simp
  then have diff: "unat (newest - t) =
      (if k \<le> unat (s - t) then unat (s - t) - k else unat (s - t) + 2 ^ 32 - k)"
    using unat_minus_diff [of "s - t" "s - newest"] assms by simp
  show ?thesis
    using assms(4) diff
    using assms(2,3)
    by (auto simp: bit_set_bit_64 bit_push_bit_64 unat_0_iff split: if_splits)
qed

lemma window_seen_shift:
  assumes "0 < sint (s - newest)" "sint (s - newest) < 64"
  shows "window_seen (batadv_set_bit (batadv_bitmap_shift_left bits (sint (s - newest))) 0) s
       = insert s (window_seen bits newest \<inter> window_range s)"
proof -
  have k: "nat (sint (s - newest)) = unat (s - newest)" "0 < unat (s - newest)" "unat (s - newest) < 64"
    using assms nat_sint_unat [of "s - newest"] by linarith+
  show ?thesis
    using assms k shifted_test_iff [OF refl k(2,3)]
    by (auto simp: window_seen_def window_range_def batadv_test_bit_iff batadv_set_bit_def
        batadv_bitmap_shift_left_def bit_set_bit_64)
qed

lemma window_seen_restart: "window_seen (batadv_set_bit 0 0) s = {s}"
  by (auto simp: window_seen_def batadv_test_bit_iff batadv_set_bit_def bit_1_iff unat_0_iff)

lemma window_range_far:
  assumes "64 \<le> sint (s - newest)" "sint (s - newest) < 65536"
  shows "window_range newest \<inter> window_range s = {}"
proof -
  have k: "64 \<le> unat (s - newest)" "unat (s - newest) < 65536"
    using assms nat_sint_unat [of "s - newest"] by linarith+
  have "\<not> unat (newest - t) < 64" if "unat (s - t) < 64" for t
  proof -
    have "newest - t = (s - t) - (s - newest)" by simp
    then show ?thesis
      using unat_minus_diff [of "s - t" "s - newest"] that k by simp
  qed
  then show ?thesis by (auto simp: window_range_def)
qed

section \<open>Receiving a sequence number\<close>

lemma window_seen_receive:
  assumes lo: "sint (s - newest) > - 64" and hi: "sint (s - newest) < 65536"
    and run: "batadv_bit_get_packet bits (sint (s - newest)) True = (bits', moved)"
  shows "window_seen bits' (if moved then s else newest)
       = insert s (window_seen bits newest \<inter> window_range (if moved then s else newest))"
proof -
  consider "sint (s - newest) \<le> 0" | "0 < sint (s - newest)" "sint (s - newest) < 64"
    | "64 \<le> sint (s - newest)"
    by linarith
  then show ?thesis
  proof cases
    case 1
    then show ?thesis
      using run lo window_seen_mark_old [of s newest bits] window_seen_range [of bits newest]
      by (auto simp: batadv_bit_get_packet_def)
  next
    case 2
    then show ?thesis
      using run window_seen_shift [OF 2, of bits]
      by (auto simp: batadv_bit_get_packet_def Let_def)
  next
    case 3
    then show ?thesis
      using run hi window_range_far [OF 3 hi] window_seen_range [of bits newest]
        window_seen_restart [of s]
      by (auto simp: batadv_bit_get_packet_def)
  qed
qed

lemma batadv_bit_get_packet_moved:
  "snd (batadv_bit_get_packet bits d m) \<longleftrightarrow> \<not> (d \<le> 0 \<and> d > - 64)"
  by (auto simp: batadv_bit_get_packet_def Let_def)

lemma bit_get_packet_reset:
  assumes "d \<le> - 64 \<or> 65536 \<le> d"
  shows "batadv_bit_get_packet bits d m = ((if m then batadv_set_bit 0 0 else 0), True)"
  using assms by (cases "d \<le> - 64") (simp_all add: batadv_bit_get_packet_def)

lemma window_seen_step:
  assumes "batadv_bit_get_packet bits (sint (s - newest)) True = (bits', moved)"
  shows "window_seen bits' (if moved then s else newest) =
    (if - 64 < sint (s - newest) \<and> sint (s - newest) < BATADV_EXPECTED_SEQNO_RANGE
     then insert s (window_seen bits newest \<inter> window_range (if moved then s else newest))
     else {s})"
proof (cases "- 64 < sint (s - newest) \<and> sint (s - newest) < BATADV_EXPECTED_SEQNO_RANGE")
  case True
  then show ?thesis using window_seen_receive [OF _ _ assms] by simp
next
  case False
  then have "sint (s - newest) \<le> - 64 \<or> 65536 \<le> sint (s - newest)" by linarith
  then have "bits' = batadv_set_bit 0 0" and moved
    using assms bit_get_packet_reset [of _ bits True] by simp_all
  with window_seen_restart [of s] show ?thesis unfolding if_not_P [OF False] by simp
qed

text \<open>
  C35. Refinement of the sequence window: unless the host restarted, receiving a number adds
  it to the remembered set and keeps exactly the remembered numbers that still lie in the
  64 numbers below the newest one; a restart empties the set first.
\<close>

theorem window_refines_set:
  assumes "batadv_bit_get_packet bits (sint (s - newest)) True = (bits', moved)"
  shows "window_seen bits' (if moved then s else newest) =
    (if - 64 < sint (s - newest) \<and> sint (s - newest) < BATADV_EXPECTED_SEQNO_RANGE
     then insert s (window_seen bits newest \<inter> window_range (if moved then s else newest))
     else {s})"
  using assms by (rule window_seen_step)

theorem window_refines_set_witness:
  "window_seen (fst (batadv_bit_get_packet 1 (sint (7 - 5 :: u32)) True)) 7
     = insert 7 (window_seen 1 5 \<inter> window_range 7)"
proof -
  have run: "batadv_bit_get_packet 1 (sint (7 - 5 :: u32)) True = (5, True)"
    by (simp add: batadv_bit_get_packet_def batadv_bitmap_shift_left_def batadv_set_bit_def Let_def)
  then show ?thesis using window_refines_set [OF run] by simp
qed

section \<open>Broadcast duplicate check\<close>

definition bcast_seen :: "bcast_window \<Rightarrow> u32 \<Rightarrow> bool" where
  "bcast_seen w s \<longleftrightarrow> s \<in> window_seen (bcast_bits w) (last_bcast_seqno w)"

lemma self_seen: "s \<in> window_seen bits' (if moved then s else newest)"
  if "batadv_bit_get_packet bits (sint (s - newest)) True = (bits', moved)"
  using window_seen_step [OF that] by (simp split: if_splits)

lemma bcast_seen_rejected: "bcast_seen w s \<Longrightarrow> bcast_seqno_accept m2j now w s = (w, False)"
  by (simp add: bcast_seen_def window_seen_def bcast_seqno_accept_def)

lemma bcast_accept_seen:
  "snd (bcast_seqno_accept m2j now w s) \<Longrightarrow> bcast_seen (fst (bcast_seqno_accept m2j now w s)) s"
  using self_seen [of "bcast_bits w" s "last_bcast_seqno w"]
  by (auto simp: bcast_seen_def bcast_seqno_accept_def Let_def split: if_splits prod.splits)


interpretation bcast_filter: duplicate_filter "\<lambda>(m2j, now). bcast_seqno_accept m2j now" "\<lambda>_. bcast_seen"
proof unfold_locales
  fix c w s
  show "bcast_seen w s \<Longrightarrow> \<not> snd ((case c of (m2j, now) \<Rightarrow> bcast_seqno_accept m2j now) w s)"
    by (cases c) (simp add: bcast_seen_rejected)
  show "snd ((case c of (m2j, now) \<Rightarrow> bcast_seqno_accept m2j now) w s) \<Longrightarrow>
      bcast_seen (fst ((case c of (m2j, now) \<Rightarrow> bcast_seqno_accept m2j now) w s)) s"
    by (cases c) (simp add: bcast_accept_seen)
qed

text \<open>
  A replay much later. The age of a number is its distance below the newest number; every
  accepted packet that is no restart raises it by less than the expected range.
\<close>

definition seq_regular :: "bcast_window \<Rightarrow> u32 \<Rightarrow> bool" where
  "seq_regular w s \<longleftrightarrow> - 64 < sint (s - last_bcast_seqno w) \<and>
     sint (s - last_bcast_seqno w) < BATADV_EXPECTED_SEQNO_RANGE"

fun bcast_no_restart :: "(nat \<Rightarrow> jiffies) \<Rightarrow> bcast_window \<Rightarrow> (jiffies \<times> u32) list \<Rightarrow> bool" where
  "bcast_no_restart m2j w [] \<longleftrightarrow> True"
| "bcast_no_restart m2j w ((now, s) # ps) \<longleftrightarrow>
     (snd (bcast_seqno_accept m2j now w s) \<longrightarrow> seq_regular w s) \<and>
     bcast_no_restart m2j (fst (bcast_seqno_accept m2j now w s)) ps"

definition bcast_age :: "bcast_window \<Rightarrow> u32 \<Rightarrow> nat" where
  "bcast_age w s = unat (last_bcast_seqno w - s)"

lemma bcast_accept_cases:
  obtains (rejected) "\<not> snd (bcast_seqno_accept m2j now w s)"
      "last_bcast_seqno (fst (bcast_seqno_accept m2j now w s)) = last_bcast_seqno w"
      "bcast_bits (fst (bcast_seqno_accept m2j now w s)) = bcast_bits w"
  | (accepted) bits' moved where "snd (bcast_seqno_accept m2j now w s)"
      "batadv_bit_get_packet (bcast_bits w) (sint (s - last_bcast_seqno w)) True = (bits', moved)"
      "last_bcast_seqno (fst (bcast_seqno_accept m2j now w s)) = (if moved then s else last_bcast_seqno w)"
      "bcast_bits (fst (bcast_seqno_accept m2j now w s)) = bits'"
  by (cases "snd (bcast_seqno_accept m2j now w s)")
     (auto simp: bcast_seqno_accept_def Let_def split: if_splits prod.splits)

lemma bcast_age_moved:
  assumes "0 < sint (p - newest)" "sint (p - newest) < 65536"
    and "unat (newest - s) + 65535 < 2 ^ 32"
  shows "unat (p - s) = unat (newest - s) + unat (p - newest :: u32)" and "unat (p - newest) \<le> 65535"
proof -
  show b: "unat (p - newest) \<le> 65535"
    using assms nat_sint_unat [of "p - newest"] by linarith
  have "p - s = (newest - s) + (p - newest)" by simp
  then show "unat (p - s) = unat (newest - s) + unat (p - newest)"
    using b assms(3) unat_add_lem [of "newest - s" "p - newest"] by simp
qed

lemma bcast_age_step:
  assumes calm: "snd (bcast_seqno_accept m2j now w p) \<longrightarrow> seq_regular w p"
    and age: "bcast_age w s + 65535 < 2 ^ 32"
    and inv: "bcast_age w s < 64 \<longrightarrow> bcast_seen w s"
  defines "w' \<equiv> fst (bcast_seqno_accept m2j now w p)"
  shows "bcast_age w' s \<le> bcast_age w s + 65535" and "bcast_age w' s < 64 \<longrightarrow> bcast_seen w' s"
proof -
  have "bcast_age w' s \<le> bcast_age w s + 65535 \<and> (bcast_age w' s < 64 \<longrightarrow> bcast_seen w' s)"
  proof (cases rule: bcast_accept_cases [of m2j now w p])
    case rejected
    then show ?thesis using inv by (simp add: w'_def bcast_age_def bcast_seen_def)
  next
    case (accepted bits' moved)
    then have reg: "- 64 < sint (p - last_bcast_seqno w)" "sint (p - last_bcast_seqno w) < 65536"
      using calm by (simp_all add: seq_regular_def)
    have sub: "window_seen bits' (if moved then p else last_bcast_seqno w) =
        insert p (window_seen (bcast_bits w) (last_bcast_seqno w)
          \<inter> window_range (if moved then p else last_bcast_seqno w))"
      using window_seen_receive [OF reg accepted(2)] .
    show ?thesis
    proof (cases moved)
      case False
      then show ?thesis
        using accepted sub inv
        by (auto simp: w'_def bcast_age_def bcast_seen_def window_range_def)
    next
      case True
      then have pos: "0 < sint (p - last_bcast_seqno w)"
        using batadv_bit_get_packet_moved [of "bcast_bits w" "sint (p - last_bcast_seqno w)" True]
          accepted(2) reg(1) by (simp add: not_le)
      note b = bcast_age_moved [OF pos reg(2) age [unfolded bcast_age_def]]
      show ?thesis
        using accepted sub inv b True
        by (auto simp: w'_def bcast_age_def bcast_seen_def window_range_def)
    qed
  qed
  then show "bcast_age w' s \<le> bcast_age w s + 65535" and "bcast_age w' s < 64 \<longrightarrow> bcast_seen w' s"
    by simp_all
qed

lemma bcast_age_run:
  assumes "bcast_no_restart m2j w ps"
    and "bcast_age w s + length ps * 65535 < 2 ^ 31"
    and "bcast_age w s < 64 \<longrightarrow> bcast_seen w s"
  shows "bcast_age (bcast_run m2j w ps) s < 2 ^ 31 \<and>
    (bcast_age (bcast_run m2j w ps) s < 64 \<longrightarrow> bcast_seen (bcast_run m2j w ps) s)"
  using assms
proof (induction ps arbitrary: w)
  case Nil
  then show ?case by simp
next
  case (Cons q ps)
  obtain now p where q: "q = (now, p)" by (cases q)
  have "bcast_age w s + 65535 < 2 ^ 32"
    using Cons.prems(2) by simp
  note step = bcast_age_step [OF _ this Cons.prems(3), of m2j now p]
  show ?case
    using Cons.IH [of "fst (bcast_seqno_accept m2j now w p)"] Cons.prems step
    by (simp add: q)
qed



lemmas accept_eval =
  bcast_seqno_accept_def batadv_test_bit_def batadv_window_protected_def batadv_bit_get_packet_def
  batadv_bitmap_shift_left_def batadv_set_bit_def batadv_has_timed_out_def time_before_def Let_def


end
