(* ===== verification/Fragmentation.thy ===== *)
theory Fragmentation
  imports Prelude "HOL-Library.Multiset"
begin

text \<open>
  Fragmentation and reassembly of unicast packets: \<^verbatim>\<open>fragmentation.c\<close>, \<^verbatim>\<open>fragmentation.h\<close>
  and the packet header and table structures they use. A socket buffer that carries a
  fragment is its header, its payload bytes and the free room behind the data. Fragments
  received from an originator wait in a table of eight chains selected by the sequence
  number, each ordered from the highest to the lowest fragment number.

  The kernel's \<^verbatim>\<open>pskb_expand_head\<close> is a parameter of the merge: given the present tailroom
  and the requested growth it fails or returns the new tailroom.
\<close>

section \<open>Data\<close>

abbreviation (input) BATADV_FRAG_BUFFER_COUNT :: nat where "BATADV_FRAG_BUFFER_COUNT \<equiv> 8"
abbreviation (input) BATADV_FRAG_MAX_FRAGMENTS :: nat where "BATADV_FRAG_MAX_FRAGMENTS \<equiv> 16"
abbreviation (input) BATADV_FRAG_MAX_FRAG_SIZE :: nat where "BATADV_FRAG_MAX_FRAG_SIZE \<equiv> 1400"
abbreviation (input) BATADV_FRAG_TIMEOUT :: nat where "BATADV_FRAG_TIMEOUT \<equiv> 10000"
abbreviation (input) BATADV_UNICAST_FRAG :: u8 where "BATADV_UNICAST_FRAG \<equiv> 0x41"
abbreviation (input) frag_hdr_size :: nat where "frag_hdr_size \<equiv> 20"

record batadv_frag_packet =
  fp_packet_type :: u8
  fp_version :: u8
  fp_ttl :: u8
  fp_no :: "4 word"
  fp_reserved :: "4 word"
  fp_dest :: mac
  fp_orig :: mac
  fp_seqno :: u16
  fp_total_size :: u16

record frag_skb =
  fs_hdr :: batadv_frag_packet
  fs_payload :: "u8 list"
  fs_tailroom :: nat

definition frag_skb_len :: "frag_skb \<Rightarrow> nat" where
  "frag_skb_len skb = frag_hdr_size + length (fs_payload skb)"

record batadv_frag_list_entry =
  fe_skb :: frag_skb
  fe_no :: u8

record batadv_frag_table_entry =
  ft_head :: "batadv_frag_list_entry list"
  ft_timestamp :: jiffies
  ft_seqno :: u16
  ft_size :: u16
  ft_total_size :: u16

text \<open>The table of a new originator (\<^verbatim>\<open>batadv_orig_node_new\<close> on zeroed memory).\<close>

definition frag_table_init :: "batadv_frag_table_entry list" where
  "frag_table_init = replicate BATADV_FRAG_BUFFER_COUNT
     \<lparr>ft_head = [], ft_timestamp = 0, ft_seqno = 0, ft_size = 0, ft_total_size = 0\<rparr>"

section \<open>The chains of an originator\<close>

definition batadv_frag_check_entry ::
    "(nat \<Rightarrow> jiffies) \<Rightarrow> jiffies \<Rightarrow> batadv_frag_table_entry \<Rightarrow> bool" where
  "batadv_frag_check_entry m2j now frags_entry \<longleftrightarrow>
     ft_head frags_entry \<noteq> [] \<and>
     batadv_has_timed_out m2j now (ft_timestamp frags_entry) BATADV_FRAG_TIMEOUT"

definition batadv_frag_clear_chain :: "batadv_frag_table_entry \<Rightarrow> batadv_frag_table_entry" where
  "batadv_frag_clear_chain chain = chain\<lparr>ft_head := []\<rparr>"

definition batadv_frag_purge_orig ::
    "(batadv_frag_table_entry \<Rightarrow> bool) option \<Rightarrow> batadv_frag_table_entry list
      \<Rightarrow> batadv_frag_table_entry list" where
  "batadv_frag_purge_orig check_cb fragments =
     map (\<lambda>chain. if (case check_cb of None \<Rightarrow> True | Some cb \<Rightarrow> cb chain)
                  then (batadv_frag_clear_chain chain)\<lparr>ft_size := 0\<rparr> else chain) fragments"

definition batadv_frag_size_limit :: nat where
  "batadv_frag_size_limit = (BATADV_FRAG_MAX_FRAG_SIZE - frag_hdr_size) * BATADV_FRAG_MAX_FRAGMENTS"

definition batadv_frag_init_chain ::
    "batadv_frag_table_entry \<Rightarrow> u16 \<Rightarrow> batadv_frag_table_entry \<times> bool" where
  "batadv_frag_init_chain chain seqno =
     (if ft_seqno chain = seqno then (chain, False)
      else
        let chain = (if ft_head chain \<noteq> [] then batadv_frag_clear_chain chain else chain)
        in (chain\<lparr>ft_size := 0, ft_seqno := seqno\<rparr>, True))"

text \<open>The search for the position of a new fragment: \<open>None\<close> when the number is taken.\<close>

fun frag_place ::
    "batadv_frag_list_entry \<Rightarrow> batadv_frag_list_entry list \<Rightarrow> batadv_frag_list_entry list option" where
  "frag_place e [] = Some [e]"
| "frag_place e (c # cs) =
     (if fe_no c = fe_no e then None
      else if fe_no c < fe_no e then Some (e # c # cs)
      else map_option (Cons c) (frag_place e cs))"

text \<open>
  The block at label \<^verbatim>\<open>out\<close>: drop an inconsistent chain, hand a complete one over. The
  result is the chain of the table and the list attached to \<^verbatim>\<open>chain_out\<close>.
\<close>

definition frag_chain_out ::
    "batadv_frag_packet \<Rightarrow> batadv_frag_table_entry
      \<Rightarrow> batadv_frag_table_entry \<times> batadv_frag_list_entry list" where
  "frag_chain_out frag_packet chain =
     (if unat (ft_size chain) > batadv_frag_size_limit
         \<or> ft_total_size chain \<noteq> fp_total_size frag_packet
         \<or> unat (ft_total_size chain) > batadv_frag_size_limit
      then ((batadv_frag_clear_chain chain)\<lparr>ft_size := 0\<rparr>, [])
      else if fp_total_size frag_packet = ft_size chain
      then (chain\<lparr>ft_head := [], ft_size := 0\<rparr>, ft_head chain)
      else (chain, []))"

definition batadv_frag_insert_packet ::
    "bool \<Rightarrow> bool \<Rightarrow> jiffies \<Rightarrow> batadv_frag_table_entry list \<Rightarrow> frag_skb
      \<Rightarrow> bool \<times> batadv_frag_table_entry list \<times> batadv_frag_list_entry list" where
  "batadv_frag_insert_packet linearize_ok alloc_ok now fragments skb =
     (if \<not> linearize_ok then (False, fragments, [])
      else
        let frag_packet = fs_hdr skb;
            seqno = fp_seqno frag_packet;
            bucket = unat seqno mod BATADV_FRAG_BUFFER_COUNT
        in if \<not> alloc_ok then (False, fragments, [])
           else
             let entry = \<lparr>fe_skb = skb, fe_no = ucast (fp_no frag_packet)\<rparr>;
                 (chain, fresh) = batadv_frag_init_chain (fragments ! bucket) seqno;
                 len = of_nat (frag_skb_len skb - frag_hdr_size);
                 finish = (\<lambda>ret chain. let (chain', out) = frag_chain_out frag_packet chain
                                       in (ret, fragments[bucket := chain'], out))
             in if fresh then
                  finish True (chain\<lparr>ft_head := [entry], ft_size := len, ft_timestamp := now,
                                 ft_total_size := fp_total_size frag_packet\<rparr>)
                else if ft_head chain = [] then finish False chain
                else (case frag_place entry (ft_head chain) of
                        None \<Rightarrow> (False, fragments, [])
                      | Some head' \<Rightarrow>
                          finish True (chain\<lparr>ft_head := head', ft_size := ft_size chain + len,
                                         ft_timestamp := now\<rparr>)))"

section \<open>Merging\<close>

text \<open>\<^verbatim>\<open>skb_put\<close> beyond the tailroom is a kernel panic.\<close>

datatype merge_result = Merged "u8 list" | Merge_Error | Merge_Panic

fun frag_put_all :: "nat \<Rightarrow> u8 list \<Rightarrow> batadv_frag_list_entry list \<Rightarrow> merge_result" where
  "frag_put_all tailroom data [] = Merged data"
| "frag_put_all tailroom data (e # es) =
     (let size = frag_skb_len (fe_skb e) - frag_hdr_size in
      if size > tailroom then Merge_Panic
      else frag_put_all (tailroom - size) (data @ take size (fs_payload (fe_skb e))) es)"

text \<open>The caller hands over a chain that is not empty.\<close>

fun batadv_frag_merge_packets ::
    "(nat \<Rightarrow> int \<Rightarrow> nat option) \<Rightarrow> batadv_frag_list_entry list \<Rightarrow> merge_result" where
  "batadv_frag_merge_packets expand_head [] = Merge_Panic"
| "batadv_frag_merge_packets expand_head (entry # chain) =
     (let skb_out = fe_skb entry;
          size = int (unat (fp_total_size (fs_hdr skb_out)))
      in case expand_head (fs_tailroom skb_out) (size - int (frag_skb_len skb_out)) of
           None \<Rightarrow> Merge_Error
         | Some tailroom \<Rightarrow> frag_put_all tailroom (fs_payload skb_out) chain)"

text \<open>
  The three outcomes of \<^verbatim>\<open>batadv_frag_skb_buffer\<close>: false (the skb is not used, or the merge
  failed), buffered, merged; and the panic of the merge.
\<close>

datatype buffer_result = Frag_Error | Frag_Buffered | Frag_Merged "u8 list" | Frag_Panic

definition batadv_frag_skb_buffer ::
    "bool \<Rightarrow> bool \<Rightarrow> (nat \<Rightarrow> int \<Rightarrow> nat option) \<Rightarrow> jiffies \<Rightarrow> batadv_frag_table_entry list \<Rightarrow> frag_skb
      \<Rightarrow> buffer_result \<times> batadv_frag_table_entry list" where
  "batadv_frag_skb_buffer linearize_ok alloc_ok expand_head now fragments skb =
     (case batadv_frag_insert_packet linearize_ok alloc_ok now fragments skb of
        (ret, fragments', head) \<Rightarrow>
          (if \<not> ret then Frag_Error
           else if head = [] then Frag_Buffered
           else (case batadv_frag_merge_packets expand_head head of
                   Merged data \<Rightarrow> Frag_Merged data
                 | Merge_Error \<Rightarrow> Frag_Error
                 | Merge_Panic \<Rightarrow> Frag_Panic),
           fragments'))"

section \<open>Forwarding and sending\<close>

text \<open>
  \<open>find_orig\<close> and \<open>find_router\<close> are the originator lookup and the router lookup (the MTU of
  the interface the router is reached over). The result is whether the fragment was
  forwarded and what was sent.
\<close>

definition batadv_frag_skb_fwd ::
    "(mac \<Rightarrow> 'orig option) \<Rightarrow> ('orig \<Rightarrow> nat option) \<Rightarrow> frag_skb \<Rightarrow> bool \<times> frag_skb option" where
  "batadv_frag_skb_fwd find_orig find_router skb =
     (case find_orig (fp_dest (fs_hdr skb)) of
        None \<Rightarrow> (False, None)
      | Some orig_node_dst \<Rightarrow>
          (case find_router orig_node_dst of
             None \<Rightarrow> (False, None)
           | Some mtu \<Rightarrow>
               (let total_size = unat (fp_total_size (fs_hdr skb)) in
                if total_size > mtu
                then (True, Some (skb\<lparr>fs_hdr := (fs_hdr skb)\<lparr>fp_ttl := fp_ttl (fs_hdr skb) - 1\<rparr>\<rparr>))
                else (False, None))))"

text \<open>
  Splitting the last \<open>mtu - header_size\<close> bytes off the packet. The result is the rest of the
  packet and the new fragment; \<^verbatim>\<open>skb_split\<close> at a length keeps that many bytes in front.
\<close>

definition batadv_frag_create ::
    "bool \<Rightarrow> u8 list \<Rightarrow> batadv_frag_packet \<Rightarrow> u32 \<Rightarrow> (u8 list \<times> frag_skb) option" where
  "batadv_frag_create alloc_ok skb frag_head mtu =
     (let fragment_size = mtu - of_nat frag_hdr_size;
          at = unat (of_nat (length skb) - fragment_size)
      in if \<not> alloc_ok then None
         else Some (take at skb,
                    \<lparr>fs_hdr = frag_head, fs_payload = drop at skb, fs_tailroom = 0\<rparr>))"

text \<open>
  The loop of \<^verbatim>\<open>batadv_frag_send_packet\<close>: the fragments sent so far, and the remaining packet
  and header when the loop ends normally, \<open>None\<close> when it leaves to \<^verbatim>\<open>out_err\<close>. \<open>alloc_ok n\<close> says
  whether the allocation of the fragment numbered \<open>n\<close> succeeds.
\<close>

function frag_send_loop ::
    "(4 word \<Rightarrow> bool) \<Rightarrow> u32 \<Rightarrow> u8 list \<Rightarrow> batadv_frag_packet \<Rightarrow> frag_skb list
      \<Rightarrow> frag_skb list \<times> (u8 list \<times> batadv_frag_packet) option" where
  "frag_send_loop alloc_ok mtu skb hdr sent =
     (if of_nat (length skb) > mtu - of_nat frag_hdr_size then
        (case batadv_frag_create (alloc_ok (fp_no hdr)) skb hdr mtu of
           None \<Rightarrow> (sent, None)
         | Some (rest, fragment) \<Rightarrow>
             let hdr' = hdr\<lparr>fp_no := fp_no hdr + 1\<rparr> in
             if fp_no hdr' = of_nat (BATADV_FRAG_MAX_FRAGMENTS - 1) then (sent @ [fragment], None)
             else frag_send_loop alloc_ok mtu rest hdr' (sent @ [fragment]))
      else (sent, Some (skb, hdr)))"
  by pat_completeness auto
termination
proof (relation "measure (\<lambda>(_, _, _, hdr, _). unat (14 - fp_no hdr))", goal_cases)
  case (2 alloc_ok mtu skb hdr sent p rest fragment hdr')
  then have "14 - fp_no hdr \<noteq> 0" by (auto simp: eq_diff_eq algebra_simps)
  then have "unat (13 - fp_no hdr) < unat (14 - fp_no hdr)"
    using unat_minus_one [of "14 - fp_no hdr"] unat_gt_0 [of "14 - fp_no hdr"] by simp
  then show ?case using 2 by (simp add: algebra_simps)
qed simp

definition batadv_frag_send_packet ::
    "(4 word \<Rightarrow> bool) \<Rightarrow> bool \<Rightarrow> mac option \<Rightarrow> u16 \<Rightarrow> mac \<Rightarrow> nat \<Rightarrow> u8 list
      \<Rightarrow> bool \<times> frag_skb list \<times> u16" where
  "batadv_frag_send_packet alloc_ok expand_ok primary_if frag_seqno orig if_mtu skb =
     (let mtu = of_nat (min if_mtu BATADV_FRAG_MAX_FRAG_SIZE) :: u32;
          max_fragment_size = mtu - of_nat frag_hdr_size;
          max_packet_size = max_fragment_size * of_nat BATADV_FRAG_MAX_FRAGMENTS
      in if of_nat (length skb) > max_packet_size then (False, [], frag_seqno)
         else (case primary_if of None \<Rightarrow> (False, [], frag_seqno)
         | Some dev_addr \<Rightarrow>
             let frag_seqno' = frag_seqno + 1;
                 frag_header =
                   \<lparr>fp_packet_type = BATADV_UNICAST_FRAG, fp_version = BATADV_COMPAT_VERSION,
                    fp_ttl = of_nat BATADV_TTL, fp_no = 0, fp_reserved = 0, fp_dest = orig,
                    fp_orig = dev_addr, fp_seqno = frag_seqno',
                    fp_total_size = of_nat (length skb)\<rparr>
             in (case frag_send_loop alloc_ok mtu skb frag_header [] of
                   (sent, None) \<Rightarrow> (False, sent, frag_seqno')
                 | (sent, Some (rest, hdr)) \<Rightarrow>
                     if \<not> expand_ok then (False, sent, frag_seqno')
                     else (True, sent @ [\<lparr>fs_hdr = hdr, fs_payload = rest, fs_tailroom = 0\<rparr>],
                           frag_seqno'))))"

declare frag_send_loop.simps [simp del]

section \<open>Well-formed chains\<close>

abbreviation frag_desc :: "batadv_frag_list_entry list \<Rightarrow> bool" where
  "frag_desc \<equiv> sorted_wrt (\<lambda>a b. fe_no b < fe_no a)"

definition frag_bytes :: "batadv_frag_list_entry list \<Rightarrow> nat" where
  "frag_bytes es = (\<Sum>e\<leftarrow>es. length (fs_payload (fe_skb e)))"

lemma frag_bytes_simps [simp]:
  "frag_bytes [] = 0"
  "frag_bytes (e # es) = length (fs_payload (fe_skb e)) + frag_bytes es"
  "frag_bytes (es @ fs) = frag_bytes es + frag_bytes fs"
  by (simp_all add: frag_bytes_def)

definition frag_chain_ok :: "batadv_frag_table_entry \<Rightarrow> bool" where
  "frag_chain_ok chain \<longleftrightarrow> frag_desc (ft_head chain) \<and>
     (\<forall>e \<in> set (ft_head chain). fp_seqno (fs_hdr (fe_skb e)) = ft_seqno chain
        \<and> fp_total_size (fs_hdr (fe_skb e)) = ft_total_size chain) \<and>
     unat (ft_size chain) = frag_bytes (ft_head chain) \<and>
     (ft_head chain \<noteq> [] \<longrightarrow> unat (ft_size chain) \<le> batadv_frag_size_limit
        \<and> unat (ft_total_size chain) \<le> batadv_frag_size_limit)"

definition frag_table_ok :: "batadv_frag_table_entry list \<Rightarrow> bool" where
  "frag_table_ok fragments \<longleftrightarrow> length fragments = BATADV_FRAG_BUFFER_COUNT \<and>
     (\<forall>chain \<in> set fragments. frag_chain_ok chain)"

lemma frag_place_set: "frag_place e cs = Some l \<Longrightarrow> set l = insert e (set cs)"
  by (induction cs arbitrary: l) (auto split: if_splits)

lemma frag_place_bytes:
  "frag_place e cs = Some l \<Longrightarrow> frag_bytes l = length (fs_payload (fe_skb e)) + frag_bytes cs"
  by (induction cs arbitrary: l) (auto split: if_splits)

lemma frag_place_desc: "frag_place e cs = Some l \<Longrightarrow> frag_desc cs \<Longrightarrow> frag_desc l"
proof (induction cs arbitrary: l)
  case Nil
  then show ?case by auto
next
  case (Cons c cs)
  show ?case
  proof (cases "fe_no c < fe_no e")
    case True
    with Cons.prems show ?thesis by (fastforce split: if_splits intro: less_trans)
  next
    case False
    with Cons.prems obtain z where z: "frag_place e cs = Some z" "l = c # z" "fe_no e < fe_no c"
      by (auto split: if_splits)
    with Cons frag_place_set [OF z(1)] show ?thesis by auto
  qed
qed

lemma frag_place_None_iff:
  "frag_desc cs \<Longrightarrow> frag_place e cs = None \<longleftrightarrow> fe_no e \<in> fe_no ` set cs"
  by (induction cs) auto

lemma frag_size_limit_eq [simp]: "batadv_frag_size_limit = 22080"
  by (simp add: batadv_frag_size_limit_def)

lemma frag_table_initial: "frag_table_ok frag_table_init"
  by (simp add: frag_table_ok_def frag_table_init_def frag_chain_ok_def)

lemma frag_table_update:
  "frag_table_ok fragments \<Longrightarrow> frag_chain_ok chain \<Longrightarrow> frag_table_ok (fragments[i := chain])"
  by (auto simp: frag_table_ok_def dest!: set_update_subset_insert [THEN subsetD])

lemma frag_table_nth: "frag_table_ok fragments \<Longrightarrow> frag_chain_ok (fragments ! (unat (s :: u16) mod 8))"
  by (simp add: frag_table_ok_def)

text \<open>What reaches the label \<^verbatim>\<open>out\<close>: a chain that is well-formed except for its sizes.\<close>

definition frag_pending :: "batadv_frag_packet \<Rightarrow> batadv_frag_table_entry \<Rightarrow> bool" where
  "frag_pending frag_packet chain \<longleftrightarrow> frag_desc (ft_head chain) \<and>
     unat (ft_size chain) = frag_bytes (ft_head chain) \<and>
     (ft_total_size chain = fp_total_size frag_packet \<longrightarrow>
       (\<forall>e \<in> set (ft_head chain). fp_seqno (fs_hdr (fe_skb e)) = ft_seqno chain
        \<and> fp_total_size (fs_hdr (fe_skb e)) = ft_total_size chain))"

lemma frag_chain_out_ok:
  "frag_pending frag_packet chain \<Longrightarrow> frag_chain_out frag_packet chain = (chain', out) \<Longrightarrow>
    frag_chain_ok chain'"
  by (auto simp: frag_chain_out_def frag_pending_def frag_chain_ok_def batadv_frag_clear_chain_def
      split: if_splits)

abbreviation frag_entry :: "frag_skb \<Rightarrow> batadv_frag_list_entry" where
  "frag_entry skb \<equiv> \<lparr>fe_skb = skb, fe_no = ucast (fp_no (fs_hdr skb))\<rparr>"

text \<open>The three ways an insertion that gets past its allocations can go.\<close>

lemma frag_insert_cases:
  assumes b: "b = unat (fp_seqno (fs_hdr skb)) mod 8"
  obtains
    (fresh) chain where
      "ft_seqno (fragments ! b) \<noteq> fp_seqno (fs_hdr skb)"
      "chain = (fragments ! b)\<lparr>ft_seqno := fp_seqno (fs_hdr skb), ft_head := [frag_entry skb],
         ft_size := of_nat (length (fs_payload skb)), ft_timestamp := now,
         ft_total_size := fp_total_size (fs_hdr skb)\<rparr>"
      "batadv_frag_insert_packet True True now fragments skb =
        (True, fragments[b := fst (frag_chain_out (fs_hdr skb) chain)], snd (frag_chain_out (fs_hdr skb) chain))"
  | (stale) "ft_seqno (fragments ! b) = fp_seqno (fs_hdr skb)" "ft_head (fragments ! b) = []"
      "batadv_frag_insert_packet True True now fragments skb =
        (False, fragments[b := fst (frag_chain_out (fs_hdr skb) (fragments ! b))],
         snd (frag_chain_out (fs_hdr skb) (fragments ! b)))"
  | (duplicate) "ft_seqno (fragments ! b) = fp_seqno (fs_hdr skb)"
      "frag_place (frag_entry skb) (ft_head (fragments ! b)) = None"
      "batadv_frag_insert_packet True True now fragments skb = (False, fragments, [])"
  | (placed) chain l where "ft_seqno (fragments ! b) = fp_seqno (fs_hdr skb)"
      "ft_head (fragments ! b) \<noteq> []"
      "frag_place (frag_entry skb) (ft_head (fragments ! b)) = Some l"
      "chain = (fragments ! b)\<lparr>ft_head := l,
         ft_size := ft_size (fragments ! b) + of_nat (length (fs_payload skb)), ft_timestamp := now\<rparr>"
      "batadv_frag_insert_packet True True now fragments skb =
        (True, fragments[b := fst (frag_chain_out (fs_hdr skb) chain)], snd (frag_chain_out (fs_hdr skb) chain))"
proof (cases "ft_seqno (fragments ! b) = fp_seqno (fs_hdr skb)")
  case False
  then show thesis
    by (intro that(1) [OF _ refl])
       (simp_all add: batadv_frag_insert_packet_def batadv_frag_init_chain_def frag_skb_len_def
          batadv_frag_clear_chain_def b Let_def split_def)
next
  case same: True
  show thesis
  proof (cases "ft_head (fragments ! b) = []")
    case True
    with same show thesis
      by (intro that(2))
         (simp_all add: batadv_frag_insert_packet_def batadv_frag_init_chain_def b Let_def split_def)
  next
    case False
    show thesis
    proof (cases "frag_place (frag_entry skb) (ft_head (fragments ! b))")
      case None
      with same False show thesis
        by (intro that(3))
           (simp_all add: batadv_frag_insert_packet_def batadv_frag_init_chain_def b Let_def split_def)
    next
      case (Some l)
      with same False show thesis
        by (intro that(4) [OF _ _ _ refl])
           (simp_all add: batadv_frag_insert_packet_def batadv_frag_init_chain_def frag_skb_len_def
              b Let_def split_def)
    qed
  qed
qed

lemma frag_insert_failed:
  "\<not> (linearize_ok \<and> alloc_ok) \<Longrightarrow>
    batadv_frag_insert_packet linearize_ok alloc_ok now fragments skb = (False, fragments, [])"
  by (auto simp: batadv_frag_insert_packet_def Let_def)

lemma frag_chain_out_complete:
  assumes "frag_pending hdr chain" and "snd (frag_chain_out hdr chain) \<noteq> []"
  shows "snd (frag_chain_out hdr chain) = ft_head chain"
    and "ft_head (fst (frag_chain_out hdr chain)) = []"
    and "ft_total_size chain = fp_total_size hdr"
    and "frag_bytes (ft_head chain) = unat (fp_total_size hdr)"
  using assms by (auto simp: frag_chain_out_def frag_pending_def split: if_splits)

lemma frag_fresh_pending:
  "length (fs_payload skb) < 2 ^ 16 \<Longrightarrow>
    frag_pending (fs_hdr skb) (c\<lparr>ft_seqno := fp_seqno (fs_hdr skb), ft_head := [frag_entry skb],
         ft_size := of_nat (length (fs_payload skb)), ft_timestamp := now,
         ft_total_size := fp_total_size (fs_hdr skb)\<rparr>)"
  by (simp add: frag_pending_def unat_of_nat take_bit_nat_eq_self)

lemma unat_add_of_nat:
  "unat (a :: u16) + n < 2 ^ 16 \<Longrightarrow> unat (a + of_nat n) = unat a + n"
  by (simp add: unat_word_ariths unat_of_nat take_bit_nat_eq_self)

lemma frag_placed_pending:
  assumes "frag_chain_ok c" "ft_seqno c = fp_seqno (fs_hdr skb)" "ft_head c \<noteq> []"
    and "frag_place (frag_entry skb) (ft_head c) = Some l"
    and "length (fs_payload skb) < 2 ^ 16 - 22080"
  shows "frag_pending (fs_hdr skb) (c\<lparr>ft_head := l,
         ft_size := ft_size c + of_nat (length (fs_payload skb)), ft_timestamp := now\<rparr>)"
proof -
  have "unat (ft_size c) + length (fs_payload skb) < 2 ^ 16"
    using assms(1,3,5) by (simp add: frag_chain_ok_def)
  note size = unat_add_of_nat [OF this]
  show ?thesis
    using assms frag_place_set [OF assms(4)] frag_place_bytes [OF assms(4)]
      frag_place_desc [OF assms(4)]
    by (auto simp: frag_pending_def frag_chain_ok_def size)
qed

lemma frag_stale_pending: "frag_chain_ok c \<Longrightarrow> ft_head c = [] \<Longrightarrow> frag_pending hdr c"
  by (simp add: frag_pending_def frag_chain_ok_def)

text \<open>
  The reassembly table stays well-formed: every chain is ordered from the highest to the
  lowest fragment number without repetition, holds fragments of one packet only, and its
  size field is the number of payload bytes it holds, which never exceeds what 16 fragments
  can carry. This needs each fragment to be short enough for the 16-bit size field not to
  wrap.
\<close>

theorem frag_insert_table_ok:
  assumes "frag_table_ok fragments" and "length (fs_payload skb) < 2 ^ 16 - 22080"
  shows "frag_table_ok (fst (snd (batadv_frag_insert_packet linearize_ok alloc_ok now fragments skb)))"
proof (cases "linearize_ok \<and> alloc_ok")
  case False
  then show ?thesis using assms(1) frag_insert_failed by simp
next
  case ok: True
  define b where "b = unat (fp_seqno (fs_hdr skb)) mod 8"
  have cok: "frag_chain_ok (fragments ! b)"
    unfolding b_def by (rule frag_table_nth [OF assms(1)])
  have upd: "frag_table_ok (fragments[b := fst (frag_chain_out (fs_hdr skb) chain)])"
    if "frag_pending (fs_hdr skb) chain" for chain
    by (rule frag_table_update [OF assms(1) frag_chain_out_ok [OF that]]) (rule prod.collapse [symmetric])
  show ?thesis
  proof (cases rule: frag_insert_cases [OF b_def, of fragments now, case_names fresh stale duplicate placed])
    case (fresh chain)
    have "frag_pending (fs_hdr skb) chain"
      unfolding fresh(2) using assms(2) by (intro frag_fresh_pending) simp
    from upd [OF this] show ?thesis using fresh(3) ok by simp
  next
    case stale
    from upd [OF frag_stale_pending [OF cok stale(2)]] show ?thesis using stale(3) ok by simp
  next
    case duplicate
    then show ?thesis using assms(1) ok by simp
  next
    case (placed chain l)
    have "frag_pending (fs_hdr skb) chain"
      unfolding placed(4) by (rule frag_placed_pending [OF cok placed(1-3) assms(2)])
    from upd [OF this] show ?thesis using placed(5) ok by simp
  qed
qed

theorem frag_insert_table_ok_witness:
  "frag_table_ok (fst (snd (batadv_frag_insert_packet True True 5 frag_table_init
     \<lparr>fs_hdr = \<lparr>fp_packet_type = 0x41, fp_version = 15, fp_ttl = 50, fp_no = 1, fp_reserved = 0,
        fp_dest = 1, fp_orig = 2, fp_seqno = 9, fp_total_size = 5\<rparr>,
      fs_payload = [1, 2], fs_tailroom = 0\<rparr>)))"
  by (rule frag_insert_table_ok [OF frag_table_initial]) simp

section \<open>Merging\<close>

lemma frag_put_all_ok:
  "frag_bytes es \<le> tailroom \<Longrightarrow>
    frag_put_all tailroom data es = Merged (data @ concat (map (fs_payload \<circ> fe_skb) es))"
proof (induction es arbitrary: tailroom data)
  case Nil
  then show ?case by simp
next
  case (Cons e es)
  then have "frag_bytes es \<le> tailroom - length (fs_payload (fe_skb e))" by simp
  with Cons show ?case by (simp add: frag_skb_len_def)
qed

lemma frag_put_all_panic: "tailroom < frag_bytes es \<Longrightarrow> frag_put_all tailroom data es = Merge_Panic"
proof (induction es arbitrary: tailroom data)
  case Nil
  then show ?case by simp
next
  case (Cons e es)
  show ?case
  proof (cases "length (fs_payload (fe_skb e)) \<le> tailroom")
    case True
    then have "tailroom - length (fs_payload (fe_skb e)) < frag_bytes es"
      using Cons.prems by simp
    then show ?thesis using True Cons.IH by (simp add: frag_skb_len_def)
  qed (simp add: frag_skb_len_def)
qed

text \<open>
  Merging a complete chain never fails for lack of room when the first fragment came with
  a tailroom of at least the header size; the result is the payloads in chain order.
\<close>

lemma frag_merge_ok:
  assumes total: "frag_bytes (e # es) = unat (fp_total_size (fs_hdr (fe_skb e)))"
    and room: "expand_head (fs_tailroom (fe_skb e))
        (int (unat (fp_total_size (fs_hdr (fe_skb e)))) - int (frag_skb_len (fe_skb e))) = Some t"
    and contract: "int (fs_tailroom (fe_skb e)) + (int (unat (fp_total_size (fs_hdr (fe_skb e))))
        - int (frag_skb_len (fe_skb e))) \<le> int t"
    and tail: "frag_hdr_size \<le> fs_tailroom (fe_skb e)"
  shows "batadv_frag_merge_packets expand_head (e # es)
    = Merged (concat (map (fs_payload \<circ> fe_skb) (e # es)))"
proof -
  have "frag_bytes es \<le> t"
    using total contract tail by (simp add: frag_skb_len_def del: of_nat_unat flip: total)
  then show ?thesis
    using room frag_put_all_ok by (simp add: Let_def)
qed

text \<open>
  The room made for the merge is short by the size of the fragment header: if the first
  fragment came without tailroom and the reallocation provides exactly what was asked for,
  merging a complete chain whose other fragments carry data panics.
\<close>

theorem frag_merge_overrun:
  assumes "frag_bytes (e # es) = unat (fp_total_size (fs_hdr (fe_skb e)))"
    and "fs_tailroom (fe_skb e) = 0" and "0 < frag_bytes es"
  shows "batadv_frag_merge_packets (\<lambda>tailroom n. Some (nat (int tailroom + n))) (e # es) = Merge_Panic"
proof -
  have "nat (int (unat (fp_total_size (fs_hdr (fe_skb e)))) - int (frag_skb_len (fe_skb e)))
      < frag_bytes es"
    using assms by (simp add: frag_skb_len_def del: of_nat_unat flip: assms(1))
  then show ?thesis
    using assms(2) frag_put_all_panic by (simp add: Let_def del: of_nat_unat)
qed

theorem frag_merge_overrun_witness:
  "batadv_frag_merge_packets (\<lambda>tailroom n. Some (nat (int tailroom + n)))
     [\<lparr>fe_skb = \<lparr>fs_hdr = \<lparr>fp_packet_type = 0x41, fp_version = 15, fp_ttl = 49, fp_no = 1,
        fp_reserved = 0, fp_dest = 7, fp_orig = 3, fp_seqno = 9, fp_total_size = 3\<rparr>,
        fs_payload = [1, 2], fs_tailroom = 0\<rparr>, fe_no = 1\<rparr>,
      \<lparr>fe_skb = \<lparr>fs_hdr = \<lparr>fp_packet_type = 0x41, fp_version = 15, fp_ttl = 49, fp_no = 0,
        fp_reserved = 0, fp_dest = 7, fp_orig = 3, fp_seqno = 9, fp_total_size = 3\<rparr>,
        fs_payload = [3], fs_tailroom = 0\<rparr>, fe_no = 0\<rparr>] = Merge_Panic"
  by (rule frag_merge_overrun) simp_all

section \<open>Reassembly\<close>

definition frag_len :: "frag_skb list \<Rightarrow> nat" where
  "frag_len fs = (\<Sum>f\<leftarrow>fs. length (fs_payload f))"

lemma frag_len_simps [simp]:
  "frag_len [] = 0"
  "frag_len (f # fs) = length (fs_payload f) + frag_len fs"
  "frag_len (fs @ gs) = frag_len fs + frag_len gs"
  by (simp_all add: frag_len_def)

definition frag_of :: "u16 \<Rightarrow> u16 \<Rightarrow> frag_skb \<Rightarrow> bool" where
  "frag_of s tot f \<longleftrightarrow> fp_seqno (fs_hdr f) = s \<and> fp_total_size (fs_hdr f) = tot"

abbreviation frag_no :: "frag_skb \<Rightarrow> 4 word" where
  "frag_no f \<equiv> fp_no (fs_hdr f)"

text \<open>The chain holds exactly the fragments of a list.\<close>

definition frag_holds :: "u16 \<Rightarrow> u16 \<Rightarrow> batadv_frag_table_entry \<Rightarrow> frag_skb list \<Rightarrow> bool" where
  "frag_holds s tot chain fs \<longleftrightarrow> ft_seqno chain = s \<and> ft_total_size chain = tot \<and>
     frag_desc (ft_head chain) \<and> set (ft_head chain) = frag_entry ` set fs \<and>
     unat (ft_size chain) = frag_len fs"

lemma unat_frag_no [simp]: "unat (ucast (a :: 4 word) :: u8) = unat a"
proof -
  have "unat a < 2 ^ LENGTH(4)" by (rule unsigned_less)
  then show ?thesis by (simp add: unsigned_ucast_eq take_bit_nat_eq_self)
qed

lemma ucast_no_eq: "(ucast (a :: 4 word) :: u8) = ucast b \<longleftrightarrow> a = b"
  by (simp add: word_unat_eq_iff)

lemma frag_no_less: "(ucast (a :: 4 word) :: u8) < ucast b \<longleftrightarrow> a < b"
  by (simp add: word_less_nat_alt)

lemma frag_insert_placed:
  assumes "b = unat (fp_seqno (fs_hdr f)) mod 8" "ft_seqno (fragments ! b) = fp_seqno (fs_hdr f)"
    and "ft_head (fragments ! b) \<noteq> []" "frag_place (frag_entry f) (ft_head (fragments ! b)) = Some l"
    and "d = (fragments ! b)\<lparr>ft_head := l,
      ft_size := ft_size (fragments ! b) + of_nat (length (fs_payload f)), ft_timestamp := now\<rparr>"
  shows "batadv_frag_insert_packet True True now fragments f =
      (True, fragments[b := fst (frag_chain_out (fs_hdr f) d)], snd (frag_chain_out (fs_hdr f) d))"
  using assms(2-5) by (cases rule: frag_insert_cases [OF assms(1), of fragments now]) simp_all

lemma frag_out_incomplete:
  "unat (ft_size c) \<le> 22080 \<Longrightarrow> ft_total_size c = tot \<Longrightarrow> unat tot \<le> 22080 \<Longrightarrow>
    fp_total_size h = tot \<Longrightarrow> unat (ft_size c) \<noteq> unat tot \<Longrightarrow> frag_chain_out h c = (c, [])"
  by (auto simp: frag_chain_out_def)

lemma frag_out_complete:
  "unat (ft_size c) = unat tot \<Longrightarrow> ft_total_size c = tot \<Longrightarrow> unat tot \<le> 22080 \<Longrightarrow>
    fp_total_size h = tot \<Longrightarrow> frag_chain_out h c = (c\<lparr>ft_head := [], ft_size := 0\<rparr>, ft_head c)"
  by (auto simp: frag_chain_out_def word_unat_eq_iff)

text \<open>One more fragment of the packet that the chain already holds a part of.\<close>

lemma frag_insert_next:
  assumes len: "length fragments = 8" and b: "b = unat s mod 8"
    and holds: "frag_holds s tot (fragments ! b) fs" and ne: "fs \<noteq> []"
    and f: "frag_of s tot f" and new: "frag_no f \<notin> frag_no ` set fs"
    and size: "frag_len fs + length (fs_payload f) \<le> unat tot" and lim: "unat tot \<le> 22080"
  obtains c where "frag_holds s tot c (f # fs)"
    and "batadv_frag_insert_packet True True now fragments f =
      (True, if frag_len (f # fs) = unat tot
       then (fragments[b := c\<lparr>ft_head := [], ft_size := 0\<rparr>], ft_head c) else (fragments[b := c], []))"
proof -
  let ?c = "fragments ! b"
  have c: "ft_seqno ?c = s" "ft_total_size ?c = tot" "frag_desc (ft_head ?c)"
    "set (ft_head ?c) = frag_entry ` set fs" "unat (ft_size ?c) = frag_len fs"
    using holds by (simp_all add: frag_holds_def)
  have fs: "fp_seqno (fs_hdr f) = s" "fp_total_size (fs_hdr f) = tot"
    using f by (simp_all add: frag_of_def)
  have hne: "ft_head ?c \<noteq> []"
    using c(4) ne by (metis image_is_empty set_empty)
  have "frag_place (frag_entry f) (ft_head ?c) \<noteq> None"
    using new c(4) by (auto simp: frag_place_None_iff [OF c(3)] ucast_no_eq)
  then obtain l where l: "frag_place (frag_entry f) (ft_head ?c) = Some l" by auto
  define d where "d = ?c\<lparr>ft_head := l, ft_size := ft_size ?c + of_nat (length (fs_payload f)),
    ft_timestamp := now\<rparr>"
  have ins: "batadv_frag_insert_packet True True now fragments f =
      (True, fragments[b := fst (frag_chain_out (fs_hdr f) d)], snd (frag_chain_out (fs_hdr f) d))"
    by (rule frag_insert_placed [OF _ _ hne l d_def]) (simp_all add: b [symmetric] fs c)
  have dsize: "unat (ft_size d) = frag_len (f # fs)"
    using unat_add_of_nat [of "ft_size ?c" "length (fs_payload f)"] c(5) size lim
    by (simp add: d_def)
  have dh: "frag_holds s tot d (f # fs)"
    using c l dsize frag_place_set [OF l] frag_place_desc [OF l]
    by (simp add: frag_holds_def d_def)
  show thesis
  proof (rule that [OF dh])
    have dt: "ft_total_size d = tot" by (simp add: d_def c)
    show "batadv_frag_insert_packet True True now fragments f =
      (True, if frag_len (f # fs) = unat tot
       then (fragments[b := d\<lparr>ft_head := [], ft_size := 0\<rparr>], ft_head d) else (fragments[b := d], []))"
      using ins dt dsize lim size fs frag_out_complete [of d tot "fs_hdr f"]
        frag_out_incomplete [of d tot "fs_hdr f"]
      by auto
  qed
qed

lemma frag_insert_first:
  assumes len: "length fragments = 8" and b: "b = unat s mod 8"
    and fresh: "ft_seqno (fragments ! b) \<noteq> s"
    and f: "frag_of s tot f" and size: "length (fs_payload f) \<le> unat tot" and lim: "unat tot \<le> 22080"
  obtains c where "frag_holds s tot c [f]"
    and "batadv_frag_insert_packet True True now fragments f =
      (True, if frag_len [f] = unat tot
       then (fragments[b := c\<lparr>ft_head := [], ft_size := 0\<rparr>], ft_head c) else (fragments[b := c], []))"
proof -
  have fs: "fp_seqno (fs_hdr f) = s" "fp_total_size (fs_hdr f) = tot"
    using f by (simp_all add: frag_of_def)
  define d where "d = (fragments ! b)\<lparr>ft_seqno := s, ft_head := [frag_entry f],
    ft_size := of_nat (length (fs_payload f)), ft_timestamp := now, ft_total_size := tot\<rparr>"
  have b': "b = unat (fp_seqno (fs_hdr f)) mod 8" using b fs by simp
  have ins: "batadv_frag_insert_packet True True now fragments f =
      (True, fragments[b := fst (frag_chain_out (fs_hdr f) d)], snd (frag_chain_out (fs_hdr f) d))"
    using fresh unfolding d_def
    by (cases rule: frag_insert_cases [OF b', of fragments now]) (simp_all add: fs)
  have ds: "unat (ft_size d) = length (fs_payload f)"
    using size lim by (simp add: d_def unat_of_nat take_bit_nat_eq_self)
  have d: "ft_total_size d = tot" "ft_head d = [frag_entry f]" "ft_seqno d = s"
    by (simp_all add: d_def)
  show thesis
  proof (rule that [of d])
    show "frag_holds s tot d [f]"
      using d ds by (simp add: frag_holds_def)
    show "batadv_frag_insert_packet True True now fragments f =
      (True, if frag_len [f] = unat tot
       then (fragments[b := d\<lparr>ft_head := [], ft_size := 0\<rparr>], ft_head d) else (fragments[b := d], []))"
      using ins d ds lim size fs frag_out_complete [of d tot "fs_hdr f"]
        frag_out_incomplete [of d tot "fs_hdr f"]
      by auto
  qed
qed

text \<open>Receiving a list of fragments, one after the other.\<close>

fun frag_receive ::
    "(nat \<Rightarrow> int \<Rightarrow> nat option) \<Rightarrow> (jiffies \<times> frag_skb) list \<Rightarrow> batadv_frag_table_entry list
      \<Rightarrow> buffer_result list \<times> batadv_frag_table_entry list" where
  "frag_receive expand_head [] fragments = ([], fragments)"
| "frag_receive expand_head ((now, f) # fs) fragments =
     (let (r, fragments') = batadv_frag_skb_buffer True True expand_head now fragments f;
          (rs, fragments'') = frag_receive expand_head fs fragments'
      in (r # rs, fragments''))"

definition frag_merged :: "(nat \<Rightarrow> int \<Rightarrow> nat option) \<Rightarrow> batadv_frag_list_entry list \<Rightarrow> buffer_result" where
  "frag_merged expand_head l =
     (case batadv_frag_merge_packets expand_head l of
        Merged data \<Rightarrow> Frag_Merged data | Merge_Error \<Rightarrow> Frag_Error | Merge_Panic \<Rightarrow> Frag_Panic)"

lemma frag_receive_rest:
  assumes "length fragments = 8" and "b = unat s mod 8"
    and "frag_holds s tot (fragments ! b) fs" and "fs \<noteq> []" and "gs \<noteq> []"
    and "\<forall>g \<in> snd ` set gs. frag_of s tot g \<and> fs_payload g \<noteq> []"
    and "distinct (map frag_no (fs @ map snd gs))"
    and "frag_len (fs @ map snd gs) = unat tot" and "unat tot \<le> 22080"
  shows "\<exists>l. frag_desc l \<and> set l = frag_entry ` set (fs @ map snd gs) \<and>
    fst (frag_receive expand_head gs fragments) =
      replicate (length gs - 1) Frag_Buffered @ [frag_merged expand_head l]"
  using assms
proof (induction gs arbitrary: fragments fs)
  case Nil
  then show ?case by simp
next
  case (Cons x gs)
  obtain now f where x: "x = (now, f)" by (cases x)
  have f: "frag_of s tot f" "frag_no f \<notin> frag_no ` set fs"
    using Cons.prems by (auto simp: x)
  have "frag_len fs + length (fs_payload f) \<le> unat tot"
    using Cons.prems(8) by (simp add: x)
  from frag_insert_next [OF Cons.prems(1-4) f this Cons.prems(9)]
  obtain c where c: "frag_holds s tot c (f # fs)"
    "batadv_frag_insert_packet True True now fragments f =
      (True, if frag_len (f # fs) = unat tot
       then (fragments[b := c\<lparr>ft_head := [], ft_size := 0\<rparr>], ft_head c) else (fragments[b := c], []))" .
  then have l: "frag_desc (ft_head c)" "set (ft_head c) = frag_entry ` set (f # fs)"
    by (simp_all add: frag_holds_def)
  show ?case
  proof (cases "gs = []")
    case True
    then have "frag_len (f # fs) = unat tot" using Cons.prems(8) by (simp add: x)
    moreover have "ft_head c \<noteq> []" using l(2) by auto
    ultimately have "fst (frag_receive expand_head (x # gs) fragments) = [frag_merged expand_head (ft_head c)]"
      using c(2) True by (simp add: x batadv_frag_skb_buffer_def frag_merged_def)
    with l True show ?thesis by (intro exI [of _ "ft_head c"]) (simp add: x insert_commute)
  next
    case False
    then have "0 < frag_len (map snd gs)"
      using Cons.prems(6) by (cases gs) auto
    then have "frag_len (f # fs) \<noteq> unat tot" using Cons.prems(8) by (simp add: x)
    then have ins: "batadv_frag_insert_packet True True now fragments f
        = (True, fragments[b := c], [])"
      using c(2) by simp
    have "b < 8" using Cons.prems(2) by simp
    then have nth: "frag_holds s tot (fragments[b := c] ! b) (f # fs)"
      using c(1) Cons.prems(1) by simp
    from Cons.IH [OF _ Cons.prems(2) nth _ False] Cons.prems
    obtain k where k: "frag_desc k" "set k = frag_entry ` set ((f # fs) @ map snd gs)"
      "fst (frag_receive expand_head gs (fragments[b := c])) =
        replicate (length gs - 1) Frag_Buffered @ [frag_merged expand_head k]"
      by (auto simp: x)
    have "fst (frag_receive expand_head (x # gs) fragments) =
        replicate (length (x # gs) - 1) Frag_Buffered @ [frag_merged expand_head k]"
      using ins k(3) False
      by (cases gs) (simp_all add: x batadv_frag_skb_buffer_def Let_def split_def)
    with k(1,2) show ?thesis by (intro exI [of _ k]) (auto simp: x)
  qed
qed

lemma frag_receive_all:
  assumes len: "length fragments = 8" and fresh: "ft_seqno (fragments ! (unat s mod 8)) \<noteq> s"
    and ne: "gs \<noteq> []" and ok: "\<forall>g \<in> snd ` set gs. frag_of s tot g"
    and pay: "1 < length gs \<Longrightarrow> \<forall>g \<in> snd ` set gs. fs_payload g \<noteq> []"
    and dist: "distinct (map frag_no (map snd gs))"
    and tot: "frag_len (map snd gs) = unat tot" "unat tot \<le> 22080"
  shows "\<exists>l. frag_desc l \<and> set l = frag_entry ` set (map snd gs) \<and>
    fst (frag_receive expand_head gs fragments) =
      replicate (length gs - 1) Frag_Buffered @ [frag_merged expand_head l]"
proof -
  obtain now f gs' where gs: "gs = (now, f) # gs'" using ne by (cases gs) auto
  have "length (fs_payload f) \<le> unat tot" "frag_of s tot f" using tot(1) ok by (auto simp: gs)
  from frag_insert_first [OF len refl fresh this(2,1) tot(2)]
  obtain c where c: "frag_holds s tot c [f]" "batadv_frag_insert_packet True True now fragments f =
      (True, if frag_len [f] = unat tot
       then (fragments[unat s mod 8 := c\<lparr>ft_head := [], ft_size := 0\<rparr>], ft_head c)
       else (fragments[unat s mod 8 := c], []))" .
  show ?thesis
  proof (cases "gs' = []")
    case True
    have "ft_head c \<noteq> []" using c(1) by (auto simp: frag_holds_def)
    then have "fst (frag_receive expand_head gs fragments) = [frag_merged expand_head (ft_head c)]"
      using c(2) True tot by (simp add: gs batadv_frag_skb_buffer_def frag_merged_def)
    with c(1) True show ?thesis by (intro exI [of _ "ft_head c"]) (simp add: gs frag_holds_def)
  next
    case False
    have pay': "\<forall>g \<in> snd ` set gs'. frag_of s tot g \<and> fs_payload g \<noteq> []"
      using pay ok False by (cases gs') (auto simp: gs)
    then have "0 < frag_len (map snd gs')" using False by (cases gs') auto
    then have ins: "batadv_frag_insert_packet True True now fragments f
        = (True, fragments[unat s mod 8 := c], [])"
      using c(2) tot by (simp add: gs)
    have nth: "frag_holds s tot (fragments[unat s mod 8 := c] ! (unat s mod 8)) [f]"
      using c(1) len by simp
    from frag_receive_rest [OF _ refl nth _ False pay' _ _ tot(2), of expand_head] len dist tot
    obtain l where "frag_desc l" "set l = frag_entry ` set ([f] @ map snd gs')"
      "fst (frag_receive expand_head gs' (fragments[unat s mod 8 := c])) =
        replicate (length gs' - 1) Frag_Buffered @ [frag_merged expand_head l]"
      by (auto simp: gs)
    with ins False show ?thesis
      by (intro exI [of _ l], cases gs')
         (simp_all add: gs batadv_frag_skb_buffer_def Let_def split_def)
  qed
qed

section \<open>The fragments of a packet\<close>

lemma frag_send_loop_sent:
  assumes "frag_send_loop alloc_ok mtu skb hdr sent = (sent', Some (rest, hdr'))"
    and "20 < unat mtu" and "length skb < 2 ^ 32"
  shows "\<exists>new. sent' = sent @ new \<and> skb = rest @ concat (rev (map fs_payload new)) \<and>
    hdr' = hdr\<lparr>fp_no := fp_no hdr + of_nat (length new)\<rparr> \<and>
    (\<forall>i < length new. fs_hdr (new ! i) = hdr\<lparr>fp_no := fp_no hdr + of_nat i\<rparr>) \<and>
    (\<forall>f \<in> set new. fs_payload f \<noteq> []) \<and> (new \<noteq> [] \<longrightarrow> rest \<noteq> []) \<and>
    length new \<le> unat (14 - fp_no hdr)"
  using assms
proof (induction alloc_ok mtu skb hdr sent rule: frag_send_loop.induct)
  case (1 alloc_ok mtu skb hdr sent)
  have frag: "unat (mtu - 20) = unat mtu - 20"
    using "1.prems"(2) by (simp add: unat_sub word_le_nat_alt)
  have lskb: "unat (of_nat (length skb) :: u32) = length skb"
    using "1.prems"(3) by (simp add: unat_of_nat take_bit_nat_eq_self)
  show ?case
  proof (cases "of_nat (length skb) > mtu - 20")
    case False
    then have "(sent', Some (rest, hdr')) = (sent, Some (skb, hdr))"
      using "1.prems"(1) by (subst (asm) frag_send_loop.simps) simp
    then show ?thesis by (intro exI [of _ "[]"]) simp
  next
    case True
    define at' where "at' = length skb - (unat mtu - 20)"
    have big: "unat mtu - 20 < length skb"
      using True lskb frag by (simp add: word_less_nat_alt)
    have "unat (of_nat (length skb) - (mtu - 20)) = at'"
      unfolding at'_def using big lskb frag by (subst unat_sub) (simp_all add: word_le_nat_alt)
    then have create: "batadv_frag_create ok skb hdr mtu = (if ok then Some (take at' skb,
        \<lparr>fs_hdr = hdr, fs_payload = drop at' skb, fs_tailroom = 0\<rparr>) else None)" for ok
      by (simp add: batadv_frag_create_def Let_def)
    let ?f = "\<lparr>fs_hdr = hdr, fs_payload = drop at' skb, fs_tailroom = 0\<rparr>"
    let ?h = "hdr\<lparr>fp_no := fp_no hdr + 1\<rparr>"
    have "frag_send_loop alloc_ok mtu skb hdr sent =
      (if alloc_ok (fp_no hdr)
       then if fp_no hdr + 1 = 15 then (sent @ [?f], None)
            else frag_send_loop alloc_ok mtu (take at' skb) ?h (sent @ [?f])
       else (sent, None))"
      using True create by (subst frag_send_loop.simps) (simp add: Let_def)
    with "1.prems"(1)
    have ok: "alloc_ok (fp_no hdr)" "fp_no hdr + 1 \<noteq> 15"
      "frag_send_loop alloc_ok mtu (take at' skb) ?h (sent @ [?f]) = (sent', Some (rest, hdr'))"
      by (simp_all split: if_splits)
    have at': "0 < at'" "at' < length skb"
      using big "1.prems"(2) by (simp_all add: at'_def)
    have "batadv_frag_create (alloc_ok (fp_no hdr)) skb hdr mtu = Some (take at' skb, ?f)"
      using create ok by simp
    note IH = "1.IH" [OF _ this refl refl]
    have "length (take at' skb) < 2 ^ 32" using "1.prems"(3) by simp
    with IH True ok "1.prems"(2) obtain new where new: "sent' = (sent @ [?f]) @ new"
      "take at' skb = rest @ concat (rev (map fs_payload new))"
      "hdr' = ?h\<lparr>fp_no := fp_no ?h + of_nat (length new)\<rparr>"
      "\<forall>i < length new. fs_hdr (new ! i) = ?h\<lparr>fp_no := fp_no ?h + of_nat i\<rparr>"
      "\<forall>f \<in> set new. fs_payload f \<noteq> []" "new \<noteq> [] \<longrightarrow> rest \<noteq> []"
      "length new \<le> unat (14 - fp_no ?h)"
      by (auto simp del: length_take)
    have "14 - fp_no hdr \<noteq> 0" using ok(2) by (auto simp: eq_diff_eq algebra_simps)
    then have "Suc (length new) \<le> unat (14 - fp_no hdr)"
      using new(7) unat_minus_one [of "14 - fp_no hdr"] unat_gt_0 [of "14 - fp_no hdr"]
      by (simp add: algebra_simps)
    moreover have "skb = rest @ concat (rev (map fs_payload (?f # new)))"
      using new(2) append_take_drop_id [of at' skb] by simp
    moreover have "rest \<noteq> []"
      using new(2,6) at' by (cases "new = []") auto
    ultimately show ?thesis
      using new at' ok by (intro exI [of _ "?f # new"]) (auto simp: nth_Cons split: nat.splits)
  qed
qed

text \<open>With every allocation succeeding, the loop carries at most 15 fragments.\<close>

lemma frag_send_loop_capacity:
  assumes "20 < unat mtu" and "length skb < 2 ^ 32" and "unat (fp_no hdr) < 15"
  shows "(snd (frag_send_loop (\<lambda>_. True) mtu skb hdr sent) \<noteq> None \<longleftrightarrow>
      length skb \<le> (15 - unat (fp_no hdr)) * (unat mtu - 20)) \<and>
    (snd (frag_send_loop (\<lambda>_. True) mtu skb hdr sent) = None \<longrightarrow>
      length (fst (frag_send_loop (\<lambda>_. True) mtu skb hdr sent)) = length sent + (15 - unat (fp_no hdr)))"
  using assms
proof (induction "\<lambda>_ :: 4 word. True" mtu skb hdr sent rule: frag_send_loop.induct)
  case (1 mtu skb hdr sent)
  define m where "m = unat mtu - 20"
  have frag: "unat (mtu - 20) = m"
    using "1.prems"(1) by (simp add: m_def unat_sub word_le_nat_alt)
  have lskb: "unat (of_nat (length skb) :: u32) = length skb"
    using "1.prems"(2) by (simp add: unat_of_nat take_bit_nat_eq_self)
  have n: "1 \<le> 15 - unat (fp_no hdr)" using "1.prems"(3) by simp
  show ?case
  proof (cases "of_nat (length skb) > mtu - 20")
    case False
    then have "length skb \<le> m" using lskb frag by (simp add: word_less_nat_alt)
    also have "m \<le> (15 - unat (fp_no hdr)) * m" using n by (cases "15 - unat (fp_no hdr)") auto
    finally show ?thesis
      using False by (subst (1 2 3) frag_send_loop.simps) (simp add: m_def)
  next
    case True
    define at' where "at' = length skb - m"
    have big: "m < length skb" using True lskb frag by (simp add: word_less_nat_alt)
    have at: "unat (of_nat (length skb) - (mtu - 20)) = at'"
      unfolding at'_def using big lskb frag by (subst unat_sub) (simp_all add: word_le_nat_alt)
    let ?f = "\<lparr>fs_hdr = hdr, fs_payload = drop at' skb, fs_tailroom = 0\<rparr>"
    let ?h = "hdr\<lparr>fp_no := fp_no hdr + 1\<rparr>"
    have create: "batadv_frag_create True skb hdr mtu = Some (take at' skb, ?f)"
      using at by (simp add: batadv_frag_create_def Let_def)
    have step: "frag_send_loop (\<lambda>_. True) mtu skb hdr sent =
      (if fp_no hdr + 1 = 15 then (sent @ [?f], None)
       else frag_send_loop (\<lambda>_. True) mtu (take at' skb) ?h (sent @ [?f]))"
      using True create by (subst frag_send_loop.simps) (simp add: Let_def)
    have len: "length (take at' skb) = length skb - m" by (simp add: at'_def)
    show ?thesis
    proof (cases "fp_no hdr + 1 = 15")
      case last: True
      then have "fp_no hdr = 14" by (simp add: eq_diff_eq [symmetric])
      then show ?thesis using step big by (simp add: m_def)
    next
      case False
      have "unat (fp_no hdr) \<noteq> 14"
      proof
        assume "unat (fp_no hdr) = 14"
        then have "fp_no hdr = 14" by (simp add: word_unat_eq_iff)
        with False show False by simp
      qed
      with "1.prems"(3) have no: "unat (fp_no hdr + 1) = Suc (unat (fp_no hdr))"
        by (simp add: unat_word_ariths)
      have "length (take at' skb) < 2 ^ 32" using "1.prems"(2) by simp
      from "1.hyps" [OF _ create refl refl _ "1.prems"(1) this] False True no "1.prems"(3)
        \<open>unat (fp_no hdr) \<noteq> 14\<close>
      have IH: "(snd (frag_send_loop (\<lambda>_. True) mtu (take at' skb) ?h (sent @ [?f])) \<noteq> None \<longleftrightarrow>
          length (take at' skb) \<le> (15 - unat (fp_no ?h)) * m) \<and>
        (snd (frag_send_loop (\<lambda>_. True) mtu (take at' skb) ?h (sent @ [?f])) = None \<longrightarrow>
          length (fst (frag_send_loop (\<lambda>_. True) mtu (take at' skb) ?h (sent @ [?f])))
            = length (sent @ [?f]) + (15 - unat (fp_no ?h)))"
        by (auto simp: m_def)
      have "15 - unat (fp_no hdr) = Suc (15 - unat (fp_no ?h))"
        using no "1.prems"(3) \<open>unat (fp_no hdr) \<noteq> 14\<close> by simp
      then show ?thesis
        using IH step False big unfolding len m_def [symmetric] by auto
    qed
  qed
qed

lemma sorted_wrt_key_unique:
  fixes g :: "'a \<Rightarrow> 'b::linorder"
  shows "sorted_wrt (\<lambda>a b. g b < g a) xs \<Longrightarrow> sorted_wrt (\<lambda>a b. g b < g a) ys \<Longrightarrow>
    set xs = set ys \<Longrightarrow> xs = ys"
proof (induction xs arbitrary: ys)
  case Nil
  then show ?case by simp
next
  case (Cons x xs)
  obtain y ys' where ys: "ys = y # ys'" using Cons.prems(3) by (cases ys) auto
  have "x = y"
    using Cons.prems by (auto simp: ys) (metis insert_iff less_asym)
  moreover from this have "set xs = set ys'"
    using Cons.prems by (auto simp: ys)
  ultimately show ?case using Cons ys by simp
qed

section \<open>Sending and receiving a packet\<close>

definition frag_core :: "frag_skb \<Rightarrow> 4 word \<times> u16 \<times> u16 \<times> u8 list" where
  "frag_core f = (frag_no f, fp_seqno (fs_hdr f), fp_total_size (fs_hdr f), fs_payload f)"

lemma frag_mtu:
  "20 < if_mtu \<Longrightarrow> unat (of_nat (min if_mtu 1400) :: u32) = min if_mtu 1400"
  "20 < if_mtu \<Longrightarrow> unat ((of_nat (min if_mtu 1400) - 20) :: u32) = min if_mtu 1400 - 20"
proof -
  assume a: "20 < if_mtu"
  show u: "unat (of_nat (min if_mtu 1400) :: u32) = min if_mtu 1400"
    by (simp add: unat_of_nat take_bit_nat_eq_self)
  then show "unat ((of_nat (min if_mtu 1400) - 20) :: u32) = min if_mtu 1400 - 20"
    using a by (subst unat_sub) (simp_all add: word_le_nat_alt)
qed

lemma frag_mtu_max:
  assumes "20 < if_mtu"
  shows "unat ((of_nat (min if_mtu 1400) - 20) * 16 :: u32) = (min if_mtu 1400 - 20) * 16"
proof -
  let ?a = "of_nat (min if_mtu 1400) - 20 :: u32"
  have "unat ?a * unat (16 :: u32) < 2 ^ 32"
    unfolding frag_mtu(2) [OF assms] by simp
  then have "unat (?a * 16) = unat ?a * unat (16 :: u32)"
    using unat_mult_lem [of ?a 16] by simp
  then show ?thesis unfolding frag_mtu(2) [OF assms] by simp
qed

text \<open>The packets that are refused before anything is sent.\<close>

lemma frag_send_unfold:
  assumes "20 < if_mtu" "length skb < 2 ^ 32"
  shows "batadv_frag_send_packet alloc_ok expand_ok (Some addr) q orig if_mtu skb =
    (if (min if_mtu 1400 - 20) * 16 < length skb then (False, [], q)
     else (case frag_send_loop alloc_ok (of_nat (min if_mtu 1400)) skb
             \<lparr>fp_packet_type = 0x41, fp_version = 15, fp_ttl = 50, fp_no = 0, fp_reserved = 0,
              fp_dest = orig, fp_orig = addr, fp_seqno = q + 1, fp_total_size = of_nat (length skb)\<rparr> [] of
           (sent, None) \<Rightarrow> (False, sent, q + 1)
         | (sent, Some (rest, hdr)) \<Rightarrow>
             if \<not> expand_ok then (False, sent, q + 1)
             else (True, sent @ [\<lparr>fs_hdr = hdr, fs_payload = rest, fs_tailroom = 0\<rparr>], q + 1)))"
proof -
  have "unat (of_nat (length skb) :: u32) = length skb"
    using assms(2) by (simp add: unat_of_nat take_bit_nat_eq_self)
  then have "of_nat (length skb) > (of_nat (min if_mtu 1400) - 20) * (16 :: u32)
      \<longleftrightarrow> (min if_mtu 1400 - 20) * 16 < length skb"
    using frag_mtu_max [OF assms(1)] by (simp add: word_less_nat_alt)
  then show ?thesis
    by (simp add: batadv_frag_send_packet_def Let_def)
qed

lemma frag_send_sent:
  assumes "batadv_frag_send_packet alloc_ok expand_ok (Some addr) q orig if_mtu skb = (True, sent, q')"
    and mtu: "20 < if_mtu" and len: "length skb < 2 ^ 32"
  shows "q' = q + 1 \<and> sent \<noteq> [] \<and> length sent \<le> 15 \<and> length skb \<le> 22080 \<and>
    (\<forall>i < length sent. frag_no (sent ! i) = of_nat i) \<and>
    (\<forall>f \<in> set sent. frag_of q' (of_nat (length skb)) f) \<and>
    concat (rev (map fs_payload sent)) = skb \<and>
    (1 < length sent \<longrightarrow> (\<forall>f \<in> set sent. fs_payload f \<noteq> []))"
proof -
  let ?m = "of_nat (min if_mtu 1400) :: u32"
  let ?h = "\<lparr>fp_packet_type = 0x41, fp_version = 15, fp_ttl = 50, fp_no = 0, fp_reserved = 0,
    fp_dest = orig, fp_orig = addr, fp_seqno = q + 1, fp_total_size = of_nat (length skb)\<rparr>"
  have small: "length skb \<le> (min if_mtu 1400 - 20) * 16"
    using assms(1) frag_send_unfold [OF mtu len] by (auto split: if_splits)
  moreover obtain s r h where loop: "frag_send_loop alloc_ok ?m skb ?h [] = (s, Some (r, h))"
    and sent: "sent = s @ [\<lparr>fs_hdr = h, fs_payload = r, fs_tailroom = 0\<rparr>]" "q' = q + 1"
    using assms(1) small frag_send_unfold [OF mtu len, of alloc_ok expand_ok addr q orig]
    by (auto split: if_splits prod.splits option.splits)
  have "20 < unat ?m" using frag_mtu(1) [OF mtu] mtu by simp
  from frag_send_loop_sent [OF loop this len]
  have s: "skb = r @ concat (rev (map fs_payload s))"
    "h = ?h\<lparr>fp_no := of_nat (length s)\<rparr>"
    "\<forall>i < length s. fs_hdr (s ! i) = ?h\<lparr>fp_no := of_nat i\<rparr>"
    "\<forall>f \<in> set s. fs_payload f \<noteq> []" "s \<noteq> [] \<longrightarrow> r \<noteq> []" "length s \<le> 14"
    by auto
  have "frag_of (q + 1) (of_nat (length skb)) f" if "f \<in> set sent" for f
    using that s(2,3) by (auto simp: sent frag_of_def in_set_conv_nth)
  moreover have "frag_no (sent ! i) = of_nat i" if "i < length sent" for i
    using that s(2,3) by (auto simp: sent nth_append less_Suc_eq)
  moreover have "(min if_mtu 1400 - 20) * 16 \<le> 22080" by simp
  ultimately show ?thesis
    using s sent small by (auto simp: sent simp del: min_less_iff_conj)
qed

lemma frag_no_of_nat: "i < 15 \<Longrightarrow> unat (of_nat i :: 4 word) = i"
  by (simp add: unat_of_nat take_bit_nat_eq_self)

lemma frag_sent_distinct:
  assumes "length sent \<le> 15" "\<forall>i < length sent. frag_no (sent ! i) = of_nat i"
  shows "distinct (map frag_no sent)"
    and "sorted_wrt (\<lambda>a b. fst b < fst a) (rev (map (\<lambda>f. (ucast (frag_no f) :: u8, fs_payload f)) sent))"
proof -
  have no: "unat (frag_no (sent ! i)) = i" if "i < length sent" for i
    using that assms frag_no_of_nat [of i] by simp
  then show "distinct (map frag_no sent)"
    by (auto simp: distinct_conv_nth) metis
  show "sorted_wrt (\<lambda>a b. fst b < fst a) (rev (map (\<lambda>f. (ucast (frag_no f) :: u8, fs_payload f)) sent))"
    unfolding sorted_wrt_rev sorted_wrt_map
    by (auto simp: sorted_wrt_iff_nth_less word_less_nat_alt no)
qed

lemma frag_core_image:
  assumes "mset (map frag_core gs) = mset (map frag_core sent)"
  shows "length gs = length sent" and "mset (map (h \<circ> frag_core) gs) = mset (map (h \<circ> frag_core) sent)"
    and "set (map (h \<circ> frag_core) gs) = set (map (h \<circ> frag_core) sent)"
proof -
  show "length gs = length sent" using mset_eq_length [OF assms] by simp
  show m: "mset (map (h \<circ> frag_core) gs) = mset (map (h \<circ> frag_core) sent)"
    using arg_cong [OF assms, of "image_mset h"] by (simp flip: mset_map add: multiset.map_comp)
  show "set (map (h \<circ> frag_core) gs) = set (map (h \<circ> frag_core) sent)"
    using mset_eq_setD [OF m] .
qed

lemma frag_merged_payload:
  assumes desc: "frag_desc l" and l: "set l = frag_entry ` set gs"
    and gs: "mset (map frag_core gs) = mset (map frag_core sent)"
    and sent: "length sent \<le> 15" "\<forall>i < length sent. frag_no (sent ! i) = of_nat i"
  shows "concat (map (fs_payload \<circ> fe_skb) l) = concat (rev (map fs_payload sent))"
proof -
  let ?h = "\<lambda>(n, _, _, p). (ucast (n :: 4 word) :: u8, p :: u8 list)"
  let ?k = "\<lambda>f. (ucast (frag_no f) :: u8, fs_payload f)"
  have k: "?h \<circ> frag_core = ?k" by (auto simp: frag_core_def fun_eq_iff)
  have "set (map (\<lambda>e. (fe_no e, fs_payload (fe_skb e))) l) = set (map ?k gs)"
    by (simp add: l image_image)
  also have "\<dots> = set (rev (map ?k sent))"
    using frag_core_image(3) [OF gs, of ?h] unfolding k by simp
  finally have "map (\<lambda>e. (fe_no e, fs_payload (fe_skb e))) l = rev (map ?k sent)"
    using desc frag_sent_distinct(2) [OF sent]
    by (intro sorted_wrt_key_unique [where g = fst]) (simp_all add: sorted_wrt_map)
  then have "map snd (map (\<lambda>e. (fe_no e, fs_payload (fe_skb e))) l) = map snd (rev (map ?k sent))"
    by (rule arg_cong)
  then show ?thesis by (simp add: rev_map comp_def)
qed

lemma frag_bytes_eq_concat: "frag_bytes l = length (concat (map (fs_payload \<circ> fe_skb) l))"
  by (simp add: frag_bytes_def length_concat comp_def)



text \<open>
  Capacity. A packet is fragmented and sent exactly when it fits into 15 fragments of the
  size the interface allows. A packet that needs the 16th fragment passes the initial check
  for 16 fragments, has its first 15 fragments sent, and is then dropped.
\<close>

theorem frag_send_capacity:
  assumes "20 < if_mtu" "length skb < 2 ^ 32"
  shows "fst (batadv_frag_send_packet (\<lambda>_. True) True (Some addr) q orig if_mtu skb)
      = (length skb \<le> 15 * (min if_mtu BATADV_FRAG_MAX_FRAG_SIZE - frag_hdr_size))
    \<and> (15 * (min if_mtu BATADV_FRAG_MAX_FRAG_SIZE - frag_hdr_size) < length skb
       \<and> length skb \<le> 16 * (min if_mtu BATADV_FRAG_MAX_FRAG_SIZE - frag_hdr_size)
       \<longrightarrow> length (fst (snd (batadv_frag_send_packet (\<lambda>_. True) True (Some addr) q orig if_mtu skb))) = 15)"
proof -
  let ?m = "min if_mtu 1400 - 20"
  let ?h = "\<lparr>fp_packet_type = 0x41, fp_version = 15, fp_ttl = 50, fp_no = 0, fp_reserved = 0,
    fp_dest = orig, fp_orig = addr, fp_seqno = q + 1, fp_total_size = of_nat (length skb)\<rparr>"
  have mtu: "20 < unat (of_nat (min if_mtu 1400) :: u32)"
    using frag_mtu(1) [OF assms(1)] assms(1) by simp
  have "unat (fp_no ?h) < 15" by simp
  note cap = frag_send_loop_capacity [OF mtu assms(2) this, of "[]"]
  have m: "unat (of_nat (min if_mtu 1400) :: u32) - 20 = ?m"
    using frag_mtu(1) [OF assms(1)] by simp
  show ?thesis
    using cap unfolding m frag_send_unfold [OF assms]
    by (auto split: prod.splits option.splits)
qed

theorem frag_send_capacity_witness:
  "fst (batadv_frag_send_packet (\<lambda>_. True) True (Some 3) 8 7 21 (replicate 15 0)) = True
    \<and> fst (batadv_frag_send_packet (\<lambda>_. True) True (Some 3) 8 7 21 (replicate 16 0)) = False"
  using frag_send_capacity [of 21 "replicate 15 0" 3 8 7] frag_send_capacity [of 21 "replicate 16 0" 3 8 7]
  by simp

lemma frag_insert_seqno_zero:
  assumes "fp_seqno (fs_hdr skb) = 0"
  shows "batadv_frag_insert_packet True True now frag_table_init skb = (False, frag_table_init, [])"
proof -
  have upd: "frag_table_init[0 := frag_table_init ! 0] = frag_table_init" by simp
  have out: "frag_chain_out h (frag_table_init ! 0) = (frag_table_init ! 0, [])" for h
    by (simp add: frag_chain_out_def frag_table_init_def batadv_frag_clear_chain_def)
  show ?thesis
    using assms out [of "fs_hdr skb"]
    by (simp add: batadv_frag_insert_packet_def batadv_frag_init_chain_def Let_def split_def)
       (simp add: frag_table_init_def)
qed

text \<open>
  Sequence number 0. The table of a new originator is zeroed, so its first chain already
  carries sequence number 0 and is empty: every fragment with that sequence number is
  refused, and the table stays as it is.
\<close>

theorem frag_seqno_zero_lost:
  assumes "\<forall>g \<in> set gs. fp_seqno (fs_hdr (snd g)) = 0"
  shows "frag_receive expand_head gs frag_table_init = (replicate (length gs) Frag_Error, frag_table_init)"
  using assms
proof (induction gs)
  case Nil
  then show ?case by simp
next
  case (Cons g gs)
  then show ?case
    using frag_insert_seqno_zero [of "snd g" "fst g"]
    by (cases g) (simp add: batadv_frag_skb_buffer_def)
qed

theorem frag_seqno_zero_lost_witness:
  "frag_receive (\<lambda>t n. None) [(1, \<lparr>fs_hdr = \<lparr>fp_packet_type = 0x41, fp_version = 15, fp_ttl = 49,
      fp_no = 0, fp_reserved = 0, fp_dest = 7, fp_orig = 3, fp_seqno = 0, fp_total_size = 1\<rparr>,
      fs_payload = [1], fs_tailroom = 20\<rparr>)] frag_table_init = ([Frag_Error], frag_table_init)"
  using frag_seqno_zero_lost [of "[(1, \<lparr>fs_hdr = \<lparr>fp_packet_type = 0x41, fp_version = 15, fp_ttl = 49,
      fp_no = 0, fp_reserved = 0, fp_dest = 7, fp_orig = 3, fp_seqno = 0, fp_total_size = 1\<rparr>,
      fs_payload = [1], fs_tailroom = 20\<rparr>)]"] by simp

end
