(* ===== verification/Hash.thy ===== *)
theory Hash
  imports Interfaces
begin

text \<open>
  The two hash tables of the repository. The kernel module's table (\<^verbatim>\<open>hash.c\<close>, \<^verbatim>\<open>hash.h\<close>)
  inserts at the head of a bucket and takes the comparison and the hash function with every
  call. The table of alfred and batctl (\<^verbatim>\<open>alfred/hash.c\<close>) inserts at the tail, counts its
  elements, can be resized, and has an iterator that allows the current element to be
  removed. Its buckets are linked elements: the model keeps each element's address, because
  the iterator compares addresses to find out what was removed.
\<close>

section \<open>The table of the kernel module\<close>

record 'a batadv_hashtable =
  bh_table :: "'a list list"
  bh_size :: u32

definition batadv_hash_init :: "u32 \<Rightarrow> 'a list list" where
  "batadv_hash_init sz = map (\<lambda>_. []) [0..<unat sz]"

definition batadv_hash_new :: "bool \<Rightarrow> bool \<Rightarrow> bool \<Rightarrow> u32 \<Rightarrow> 'a batadv_hashtable option" where
  "batadv_hash_new hash_alloc table_alloc locks_alloc sz =
     (if \<not> hash_alloc then None
      else if \<not> table_alloc then None
      else if \<not> locks_alloc then None
      else Some \<lparr>bh_table = batadv_hash_init sz, bh_size = sz\<rparr>)"

text \<open>The nodes handed to the free callback, in the order of the calls.\<close>

definition batadv_hash_delete :: "'a batadv_hashtable \<Rightarrow> 'a list" where
  "batadv_hash_delete hash = concat (bh_table hash)"

definition batadv_hash_add ::
    "'a batadv_hashtable option \<Rightarrow> ('a \<Rightarrow> 'd \<Rightarrow> bool) \<Rightarrow> ('d \<Rightarrow> u32 \<Rightarrow> u32) \<Rightarrow> 'd \<Rightarrow> 'a
      \<Rightarrow> 'a batadv_hashtable option \<times> int" where
  "batadv_hash_add hash compare_cb choose_cb data data_node =
     (case hash of None \<Rightarrow> (None, -1)
      | Some h \<Rightarrow>
          let index = unat (choose_cb data (bh_size h));
              head = bh_table h ! index
          in if list_ex (\<lambda>node. compare_cb node data) head then (Some h, 1)
             else (Some (h\<lparr>bh_table := (bh_table h)[index := data_node # head]\<rparr>), 0))"

fun unlink_first :: "('a \<Rightarrow> bool) \<Rightarrow> 'a list \<Rightarrow> 'a list" where
  "unlink_first p [] = []"
| "unlink_first p (x # xs) = (if p x then xs else x # unlink_first p xs)"

definition batadv_hash_remove ::
    "'a batadv_hashtable \<Rightarrow> ('a \<Rightarrow> 'd \<Rightarrow> bool) \<Rightarrow> ('d \<Rightarrow> u32 \<Rightarrow> u32) \<Rightarrow> 'd
      \<Rightarrow> 'a batadv_hashtable \<times> 'a option" where
  "batadv_hash_remove hash compare_cb choose_cb data =
     (let index = unat (choose_cb data (bh_size hash));
          head = bh_table hash ! index
      in (hash\<lparr>bh_table := (bh_table hash)[index := unlink_first (\<lambda>node. compare_cb node data) head]\<rparr>,
          List.find (\<lambda>node. compare_cb node data) head))"

text \<open>The search every user of a table writes out over the bucket of a key.\<close>

definition batadv_hash_find ::
    "'a batadv_hashtable \<Rightarrow> ('a \<Rightarrow> 'd \<Rightarrow> bool) \<Rightarrow> ('d \<Rightarrow> u32 \<Rightarrow> u32) \<Rightarrow> 'd \<Rightarrow> 'a option" where
  "batadv_hash_find hash compare_cb choose_cb data =
     List.find (\<lambda>node. compare_cb node data) (bh_table hash ! unat (choose_cb data (bh_size hash)))"

section \<open>The table of alfred\<close>

record 'a element_t =
  el_addr :: nat
  el_data :: 'a

record 'a hashtable_t =
  ht_table :: "'a element_t list list"
  ht_elements :: int
  ht_size :: nat

record hash_it_t =
  it_index :: int
  it_bucket :: "nat option"
  it_prev_bucket :: "nat option"
  it_first_bucket :: "nat option"

definition hash_init :: "'a hashtable_t \<Rightarrow> 'a hashtable_t" where
  "hash_init hash = hash\<lparr>ht_elements := 0, ht_table := map (\<lambda>_. []) [0..<ht_size hash]\<rparr>"

definition hash_new :: "bool \<Rightarrow> bool \<Rightarrow> nat \<Rightarrow> 'a hashtable_t option" where
  "hash_new hash_alloc table_alloc sz =
     (if \<not> hash_alloc then None
      else if \<not> table_alloc then None
      else Some (hash_init \<lparr>ht_table = [], ht_elements = 0, ht_size = sz\<rparr>))"

text \<open>The data handed to the free callback, in the order of the calls.\<close>

definition hash_delete :: "'a hashtable_t \<Rightarrow> 'a list" where
  "hash_delete hash = map el_data (concat (ht_table hash))"

definition hash_add_bucket ::
    "('a \<Rightarrow> 'd \<Rightarrow> bool) \<Rightarrow> ('d \<Rightarrow> nat \<Rightarrow> nat) \<Rightarrow> ('a \<Rightarrow> 'd) \<Rightarrow> 'a hashtable_t \<Rightarrow> 'a \<Rightarrow> nat \<Rightarrow> bool
      \<Rightarrow> 'a hashtable_t \<times> int" where
  "hash_add_bucket compare_cb choose_cb as_key hash data bucket check_duplicate =
     (let index = choose_cb (as_key data) (ht_size hash);
          chain = ht_table hash ! index
      in if check_duplicate \<and> list_ex (\<lambda>b. compare_cb (el_data b) (as_key data)) chain then (hash, -1)
         else (hash\<lparr>ht_table := (ht_table hash)[index := chain @ [\<lparr>el_addr = bucket, el_data = data\<rparr>]],
                    ht_elements := ht_elements hash + 1\<rparr>, 0))"

definition hash_add ::
    "('a \<Rightarrow> 'd \<Rightarrow> bool) \<Rightarrow> ('d \<Rightarrow> nat \<Rightarrow> nat) \<Rightarrow> ('a \<Rightarrow> 'd) \<Rightarrow> nat option \<Rightarrow> 'a hashtable_t \<Rightarrow> 'a
      \<Rightarrow> 'a hashtable_t \<times> int" where
  "hash_add compare_cb choose_cb as_key malloc hash data =
     (case malloc of None \<Rightarrow> (hash, -1)
      | Some bucket \<Rightarrow> hash_add_bucket compare_cb choose_cb as_key hash data bucket True)"

definition hash_find ::
    "('a \<Rightarrow> 'd \<Rightarrow> bool) \<Rightarrow> ('d \<Rightarrow> nat \<Rightarrow> nat) \<Rightarrow> 'a hashtable_t \<Rightarrow> 'd \<Rightarrow> 'a option" where
  "hash_find compare_cb choose_cb hash keydata =
     map_option el_data (List.find (\<lambda>b. compare_cb (el_data b) keydata)
       (ht_table hash ! choose_cb keydata (ht_size hash)))"

definition hash_remove ::
    "('a \<Rightarrow> 'd \<Rightarrow> bool) \<Rightarrow> ('d \<Rightarrow> nat \<Rightarrow> nat) \<Rightarrow> 'a hashtable_t \<Rightarrow> 'd
      \<Rightarrow> 'a hashtable_t \<times> 'a option" where
  "hash_remove compare_cb choose_cb hash data =
     (let index = choose_cb data (ht_size hash);
          chain = ht_table hash ! index;
          p = (\<lambda>b. compare_cb (el_data b) data)
      in case List.find p chain of
           None \<Rightarrow> (hash, None)
         | Some bucket \<Rightarrow>
             (hash\<lparr>ht_table := (ht_table hash)[index := unlink_first p chain],
                   ht_elements := ht_elements hash - 1\<rparr>, Some (el_data bucket)))"

text \<open>The loops of \<^verbatim>\<open>hash_resize\<close>: every bucket is emptied from its head into the new table.\<close>

fun resize_bucket ::
    "('a \<Rightarrow> 'd \<Rightarrow> bool) \<Rightarrow> ('d \<Rightarrow> nat \<Rightarrow> nat) \<Rightarrow> ('a \<Rightarrow> 'd) \<Rightarrow> 'a element_t list \<Rightarrow> 'a hashtable_t
      \<Rightarrow> 'a hashtable_t" where
  "resize_bucket compare_cb choose_cb as_key [] new_hash = new_hash"
| "resize_bucket compare_cb choose_cb as_key (b # bs) new_hash =
     resize_bucket compare_cb choose_cb as_key bs
       (fst (hash_add_bucket compare_cb choose_cb as_key new_hash (el_data b) (el_addr b) False))"

definition hash_resize ::
    "('a \<Rightarrow> 'd \<Rightarrow> bool) \<Rightarrow> ('d \<Rightarrow> nat \<Rightarrow> nat) \<Rightarrow> ('a \<Rightarrow> 'd) \<Rightarrow> bool \<Rightarrow> bool \<Rightarrow> 'a hashtable_t \<Rightarrow> nat
      \<Rightarrow> 'a hashtable_t option" where
  "hash_resize compare_cb choose_cb as_key hash_alloc table_alloc hash sz =
     (case hash_new hash_alloc table_alloc sz of
        None \<Rightarrow> None
      | Some new_hash \<Rightarrow>
          Some (fold (resize_bucket compare_cb choose_cb as_key) (ht_table hash) new_hash))"

section \<open>The iterator of alfred\<close>

text \<open>
  \<open>next_of\<close> follows the next pointer of the element with an address; following the pointer of
  an element that is no longer in its bucket is an access to freed memory.
\<close>

fun next_of :: "'a element_t list \<Rightarrow> nat \<Rightarrow> nat option option" where
  "next_of [] a = None"
| "next_of (b # bs) a =
     (if el_addr b = a then Some (case bs of [] \<Rightarrow> None | c # _ \<Rightarrow> Some (el_addr c))
      else next_of bs a)"

definition slot_head :: "'a hashtable_t \<Rightarrow> nat \<Rightarrow> nat option" where
  "slot_head hash i = (case ht_table hash ! i of [] \<Rightarrow> None | b # _ \<Rightarrow> Some (el_addr b))"

datatype iter_result = Iter_End | Iter_At hash_it_t | Iter_Freed_Access

text \<open>The search for the next slot that is not empty.\<close>

function iter_search :: "'a hashtable_t \<Rightarrow> int \<Rightarrow> hash_it_t \<Rightarrow> iter_result" where
  "iter_search hash index iter =
     (if index < int (ht_size hash) then
        (case slot_head hash (nat index) of
           None \<Rightarrow> iter_search hash (index + 1) iter
         | Some b \<Rightarrow> Iter_At (iter\<lparr>it_index := index, it_prev_bucket := None, it_bucket := Some b,
                               it_first_bucket := Some (nat index)\<rparr>))
      else Iter_End)"
  by pat_completeness auto
termination
  by (relation "measure (\<lambda>(hash, index, _). nat (int (ht_size hash) - index))") auto

declare iter_search.simps [simp del]

definition iter_next :: "'a hashtable_t \<Rightarrow> hash_it_t \<Rightarrow> iter_result" where
  "iter_next hash iter =
     (case it_bucket iter of
        None \<Rightarrow> iter_search hash (it_index iter + 1) iter
      | Some b \<Rightarrow>
          (case next_of (ht_table hash ! nat (it_index iter)) b of
             None \<Rightarrow> Iter_Freed_Access
           | Some (Some c) \<Rightarrow>
               Iter_At (iter\<lparr>it_prev_bucket := Some b, it_bucket := Some c, it_first_bucket := None\<rparr>)
           | Some None \<Rightarrow> iter_search hash (it_index iter + 1) iter))"

definition hash_iterate :: "'a hashtable_t \<Rightarrow> hash_it_t option \<Rightarrow> iter_result" where
  "hash_iterate hash iter_in =
     (let iter = (case iter_in of
                    None \<Rightarrow> \<lparr>it_index = -1, it_bucket = None, it_prev_bucket = None, it_first_bucket = None\<rparr>
                  | Some it \<Rightarrow> it)
      in case it_bucket iter of
           None \<Rightarrow> iter_next hash iter
         | Some b \<Rightarrow>
             (case it_first_bucket iter of
                Some i \<Rightarrow>
                  (if slot_head hash i \<noteq> Some b then
                     (case slot_head hash i of
                        Some c \<Rightarrow> Iter_At (iter\<lparr>it_prev_bucket := None, it_bucket := Some c,
                                             it_first_bucket := Some (nat (it_index iter))\<rparr>)
                      | None \<Rightarrow> iter_next hash (iter\<lparr>it_bucket := None\<rparr>))
                   else iter_next hash iter)
              | None \<Rightarrow>
                  (case it_prev_bucket iter of
                     Some p \<Rightarrow>
                       (case next_of (ht_table hash ! nat (it_index iter)) p of
                          None \<Rightarrow> Iter_Freed_Access
                        | Some n \<Rightarrow> if n \<noteq> Some b then iter_next hash (iter\<lparr>it_bucket := Some p\<rparr>)
                                    else iter_next hash iter)
                   | None \<Rightarrow> iter_next hash iter)))"

text \<open>
  \<^verbatim>\<open>hash_remove_bucket\<close> on the iterator's element: its predecessor, or the slot, takes over
  its next pointer. The element is the one at the iterator's address.
\<close>

definition hash_remove_bucket :: "'a hashtable_t \<Rightarrow> hash_it_t \<Rightarrow> 'a hashtable_t \<times> 'a option" where
  "hash_remove_bucket hash iter =
     (let i = nat (it_index iter);
          chain = ht_table hash ! i;
          p = (\<lambda>b. Some (el_addr b) = it_bucket iter)
      in (hash\<lparr>ht_table := (ht_table hash)[i := unlink_first p chain],
               ht_elements := ht_elements hash - 1\<rparr>,
          map_option el_data (List.find p chain)))"

definition iter_data :: "'a hashtable_t \<Rightarrow> hash_it_t \<Rightarrow> 'a option" where
  "iter_data hash iter =
     map_option el_data (List.find (\<lambda>b. Some (el_addr b) = it_bucket iter)
       (ht_table hash ! nat (it_index iter)))"

text \<open>
  The loop in which a table is purged: each element is visited, and removed when \<open>purge\<close>
  says so. \<open>fuel\<close> bounds the number of iterations; \<open>None\<close> is an access to freed memory, or
  fuel that did not suffice.
\<close>

fun purge_loop ::
    "nat \<Rightarrow> ('a \<Rightarrow> bool) \<Rightarrow> 'a hashtable_t \<Rightarrow> hash_it_t option \<Rightarrow> ('a hashtable_t \<times> 'a list) option" where
  "purge_loop 0 purge hash it = None"
| "purge_loop (Suc fuel) purge hash it =
     (case hash_iterate hash it of
        Iter_End \<Rightarrow> Some (hash, [])
      | Iter_Freed_Access \<Rightarrow> None
      | Iter_At it' \<Rightarrow>
          (case iter_data hash it' of
             None \<Rightarrow> None
           | Some d \<Rightarrow>
               map_option (\<lambda>(h, vs). (h, d # vs))
                 (purge_loop fuel purge (if purge d then fst (hash_remove_bucket hash it') else hash)
                    (Some it'))))"


section \<open>Buckets as maps\<close>

definition buckets_ok :: "('a \<Rightarrow> 'k) \<Rightarrow> ('k \<Rightarrow> nat) \<Rightarrow> nat \<Rightarrow> 'a list list \<Rightarrow> bool" where
  "buckets_ok key idx n tab \<longleftrightarrow> length tab = n \<and> (\<forall>k. idx k < n) \<and>
     (\<forall>i < n. distinct (map key (tab ! i)) \<and> (\<forall>a \<in> set (tab ! i). idx (key a) = i))"

definition buckets_find :: "('a \<Rightarrow> 'k) \<Rightarrow> ('k \<Rightarrow> nat) \<Rightarrow> 'a list list \<Rightarrow> 'k \<Rightarrow> 'a option" where
  "buckets_find key idx tab k = List.find (\<lambda>a. key a = k) (tab ! idx k)"

lemma find_key_None: "List.find (\<lambda>a. key a = k) xs = None \<longleftrightarrow> k \<notin> key ` set xs"
  by (auto simp: find_None_iff)

lemma find_append: "List.find p (xs @ ys) = (case List.find p xs of None \<Rightarrow> List.find p ys | Some x \<Rightarrow> Some x)"
  by (induction xs) auto

lemma unlink_first_absent: "\<forall>x \<in> set xs. \<not> p x \<Longrightarrow> unlink_first p xs = xs"
  by (induction xs) auto

lemma unlink_first_key:
  "distinct (map key xs) \<Longrightarrow> unlink_first (\<lambda>a. key a = k) xs = filter (\<lambda>a. key a \<noteq> k) xs"
proof (induction xs)
  case (Cons x xs)
  then show ?case by (auto simp: image_iff intro!: filter_True [symmetric])
qed simp

lemma find_filter: "List.find p (filter q xs) = List.find (\<lambda>x. p x \<and> q x) xs"
  by (induction xs) auto

lemma buckets_find_key: "buckets_find key idx tab k = Some a \<Longrightarrow> key a = k"
  by (auto simp: buckets_find_def dest: find_SomeD)

lemma buckets_update:
  assumes ok: "buckets_ok key idx n tab" and b: "distinct (map key b)"
    and keep: "\<forall>a \<in> set b. idx (key a) = idx k"
  shows "buckets_ok key idx n (tab[idx k := b])"
  using ok b keep by (auto simp: buckets_ok_def nth_list_update)

lemma buckets_insert:
  assumes ok: "buckets_ok key idx n tab" and free: "buckets_find key idx tab (key a) = None"
    and b: "b = a # tab ! idx (key a) \<or> b = tab ! idx (key a) @ [a]"
  shows "buckets_ok key idx n (tab[idx (key a) := b])"
    and "buckets_find key idx (tab[idx (key a) := b]) = (buckets_find key idx tab)(key a \<mapsto> a)"
proof -
  have n: "idx (key a) < n" "length tab = n" using ok by (auto simp: buckets_ok_def)
  have fresh: "key a \<notin> key ` set (tab ! idx (key a))"
    using free by (simp add: buckets_find_def find_key_None)
  have old: "distinct (map key (tab ! idx (key a)))" "\<forall>x \<in> set (tab ! idx (key a)). idx (key x) = idx (key a)"
    using ok n by (auto simp: buckets_ok_def)
  show "buckets_ok key idx n (tab[idx (key a) := b])"
    using ok b fresh old by (intro buckets_update) auto
  show "buckets_find key idx (tab[idx (key a) := b]) = (buckets_find key idx tab)(key a \<mapsto> a)"
  proof
    fix k
    show "buckets_find key idx (tab[idx (key a) := b]) k = ((buckets_find key idx tab)(key a \<mapsto> a)) k"
      using b fresh n
      by (auto simp: buckets_find_def nth_list_update find_append find_key_None split: option.splits)
         (auto simp: find_key_None [THEN iffD2])
  qed
qed

lemma buckets_remove:
  assumes ok: "buckets_ok key idx n tab"
  shows "buckets_ok key idx n (tab[idx k := unlink_first (\<lambda>a. key a = k) (tab ! idx k)])"
    and "buckets_find key idx (tab[idx k := unlink_first (\<lambda>a. key a = k) (tab ! idx k)])
      = (buckets_find key idx tab)(k := None)"
proof -
  have n: "idx k < n" "length tab = n" using ok by (auto simp: buckets_ok_def)
  have old: "distinct (map key (tab ! idx k))" "\<forall>x \<in> set (tab ! idx k). idx (key x) = idx k"
    using ok n by (auto simp: buckets_ok_def)
  note un = unlink_first_key [OF old(1), of k]
  show "buckets_ok key idx n (tab[idx k := unlink_first (\<lambda>a. key a = k) (tab ! idx k)])"
    unfolding un using ok old by (intro buckets_update) (auto simp: distinct_map inj_on_def)
  show "buckets_find key idx (tab[idx k := unlink_first (\<lambda>a. key a = k) (tab ! idx k)])
      = (buckets_find key idx tab)(k := None)"
  proof
    fix j
    have "(\<lambda>x. key x = j \<and> key x \<noteq> k) = (\<lambda>x. key x = j)" if "j \<noteq> k"
      using that by auto
    then show "buckets_find key idx (tab[idx k := unlink_first (\<lambda>a. key a = k) (tab ! idx k)]) j
        = ((buckets_find key idx tab)(k := None)) j"
      unfolding un using n by (auto simp: buckets_find_def nth_list_update find_filter find_None_iff)
  qed
qed

lemma list_ex_find: "list_ex p xs \<longleftrightarrow> List.find p xs \<noteq> None"
  by (induction xs) auto

section \<open>The kernel table as a keyed table\<close>

definition bh_ok :: "('a \<Rightarrow> 'k) \<Rightarrow> ('k \<Rightarrow> u32 \<Rightarrow> u32) \<Rightarrow> 'a batadv_hashtable \<Rightarrow> bool" where
  "bh_ok key choose_cb hash \<longleftrightarrow>
     buckets_ok key (\<lambda>k. unat (choose_cb k (bh_size hash))) (unat (bh_size hash)) (bh_table hash)"

definition bh_find :: "('a \<Rightarrow> 'k) \<Rightarrow> ('k \<Rightarrow> u32 \<Rightarrow> u32) \<Rightarrow> 'a batadv_hashtable \<Rightarrow> 'k \<Rightarrow> 'a option" where
  "bh_find key choose_cb hash = batadv_hash_find hash (\<lambda>node k. key node = k) choose_cb"

definition bh_add :: "('a \<Rightarrow> 'k) \<Rightarrow> ('k \<Rightarrow> u32 \<Rightarrow> u32) \<Rightarrow> 'a batadv_hashtable \<Rightarrow> 'a
    \<Rightarrow> 'a batadv_hashtable \<times> bool" where
  "bh_add key choose_cb hash a =
     (case batadv_hash_add (Some hash) (\<lambda>node k. key node = k) choose_cb (key a) a of
        (hash', ret) \<Rightarrow> (the hash', ret = 0))"

definition bh_del :: "('a \<Rightarrow> 'k) \<Rightarrow> ('k \<Rightarrow> u32 \<Rightarrow> u32) \<Rightarrow> 'a batadv_hashtable \<Rightarrow> 'k
    \<Rightarrow> 'a batadv_hashtable \<times> 'a option" where
  "bh_del key choose_cb hash = batadv_hash_remove hash (\<lambda>node k. key node = k) choose_cb"

lemma bh_find_buckets:
  "bh_find key choose_cb hash = buckets_find key (\<lambda>k. unat (choose_cb k (bh_size hash))) (bh_table hash)"
  by (simp add: fun_eq_iff bh_find_def batadv_hash_find_def buckets_find_def)

lemma bh_add_taken: "bh_find key choose_cb h (key a) \<noteq> None \<Longrightarrow> bh_add key choose_cb h a = (h, False)"
  by (simp add: bh_add_def batadv_hash_add_def bh_find_buckets buckets_find_def Let_def list_ex_find)

lemma bh_add_fresh:
  "bh_find key choose_cb h (key a) = None \<Longrightarrow> bh_add key choose_cb h a =
    (h\<lparr>bh_table := (bh_table h)[unat (choose_cb (key a) (bh_size h)) :=
        a # bh_table h ! unat (choose_cb (key a) (bh_size h))]\<rparr>, True)"
  by (simp add: bh_add_def batadv_hash_add_def bh_find_buckets buckets_find_def Let_def list_ex_find)

lemma bh_del_eq:
  "bh_del key choose_cb h k = (h\<lparr>bh_table := (bh_table h)[unat (choose_cb k (bh_size h)) :=
     unlink_first (\<lambda>a. key a = k) (bh_table h ! unat (choose_cb k (bh_size h)))]\<rparr>, bh_find key choose_cb h k)"
  by (simp add: bh_del_def batadv_hash_remove_def bh_find_buckets buckets_find_def Let_def)

interpretation kernel_table: keyed_table key "bh_ok key choose_cb" "bh_find key choose_cb"
    "bh_add key choose_cb" "bh_del key choose_cb"
  for key :: "'a \<Rightarrow> 'k" and choose_cb
proof unfold_locales
  fix s :: "'a batadv_hashtable" and a :: 'a and k
  assume ok: "bh_ok key choose_cb s"
  let ?idx = "\<lambda>k. unat (choose_cb k (bh_size s))"
  have b: "buckets_ok key ?idx (unat (bh_size s)) (bh_table s)" using ok by (simp add: bh_ok_def)
  show "key a = k" if "bh_find key choose_cb s k = Some a"
    using that unfolding bh_find_buckets by (rule buckets_find_key)
  show "bh_ok key choose_cb (fst (bh_add key choose_cb s a))"
  proof (cases "bh_find key choose_cb s (key a)")
    case None
    from buckets_insert(1) [OF b this [unfolded bh_find_buckets] disjI1 [OF refl]] None
    show ?thesis by (simp add: bh_add_fresh bh_ok_def)
  qed (simp add: bh_add_taken ok)
  show "snd (bh_add key choose_cb s a) \<and>
      bh_find key choose_cb (fst (bh_add key choose_cb s a)) = (bh_find key choose_cb s)(key a \<mapsto> a)"
    if "bh_find key choose_cb s (key a) = None"
    using buckets_insert(2) [OF b that [unfolded bh_find_buckets] disjI1 [OF refl]]
    by (simp add: bh_add_fresh [OF that]) (simp add: bh_find_buckets)
  show "\<not> snd (bh_add key choose_cb s a) \<and> bh_find key choose_cb (fst (bh_add key choose_cb s a)) = bh_find key choose_cb s"
    if "bh_find key choose_cb s (key a) \<noteq> None"
    using that by (simp add: bh_add_taken)
  show "bh_ok key choose_cb (fst (bh_del key choose_cb s k))"
    using buckets_remove(1) [OF b, of k] by (simp add: bh_del_eq bh_ok_def)
  show "snd (bh_del key choose_cb s k) = bh_find key choose_cb s k \<and>
      bh_find key choose_cb (fst (bh_del key choose_cb s k)) = (bh_find key choose_cb s)(k := None)"
    using buckets_remove(2) [OF b, of k] by (simp add: bh_del_eq bh_find_buckets)
qed


section \<open>The table of alfred as a keyed table\<close>

definition ht_ok :: "('a \<Rightarrow> 'k) \<Rightarrow> ('k \<Rightarrow> nat \<Rightarrow> nat) \<Rightarrow> 'a hashtable_t \<Rightarrow> bool" where
  "ht_ok key choose_cb hash \<longleftrightarrow>
     buckets_ok (key \<circ> el_data) (\<lambda>k. choose_cb k (ht_size hash)) (ht_size hash) (ht_table hash) \<and>
     ht_elements hash = int (length (concat (ht_table hash)))"

definition ht_find :: "('a \<Rightarrow> 'k) \<Rightarrow> ('k \<Rightarrow> nat \<Rightarrow> nat) \<Rightarrow> 'a hashtable_t \<Rightarrow> 'k \<Rightarrow> 'a option" where
  "ht_find key choose_cb = hash_find (\<lambda>a k. key a = k) choose_cb"

definition ht_add :: "('a \<Rightarrow> 'k) \<Rightarrow> ('k \<Rightarrow> nat \<Rightarrow> nat) \<Rightarrow> ('a hashtable_t \<Rightarrow> nat) \<Rightarrow> 'a hashtable_t \<Rightarrow> 'a
    \<Rightarrow> 'a hashtable_t \<times> bool" where
  "ht_add key choose_cb malloc hash a =
     (case hash_add (\<lambda>a k. key a = k) choose_cb key (Some (malloc hash)) hash a of (hash', ret) \<Rightarrow> (hash', ret = 0))"

definition ht_del :: "('a \<Rightarrow> 'k) \<Rightarrow> ('k \<Rightarrow> nat \<Rightarrow> nat) \<Rightarrow> 'a hashtable_t \<Rightarrow> 'k
    \<Rightarrow> 'a hashtable_t \<times> 'a option" where
  "ht_del key choose_cb = hash_remove (\<lambda>a k. key a = k) choose_cb"

abbreviation ht_buckets :: "('a \<Rightarrow> 'k) \<Rightarrow> ('k \<Rightarrow> nat \<Rightarrow> nat) \<Rightarrow> 'a hashtable_t \<Rightarrow> 'k \<Rightarrow> 'a element_t option" where
  "ht_buckets key choose_cb hash \<equiv> buckets_find (key \<circ> el_data) (\<lambda>k. choose_cb k (ht_size hash)) (ht_table hash)"

lemma ht_find_buckets: "ht_find key choose_cb hash k = map_option el_data (ht_buckets key choose_cb hash k)"
  by (simp add: ht_find_def hash_find_def buckets_find_def)

lemma ht_add_taken: "ht_find key choose_cb h (key a) \<noteq> None \<Longrightarrow> ht_add key choose_cb malloc h a = (h, False)"
  by (auto simp: ht_add_def hash_add_def hash_add_bucket_def ht_find_buckets buckets_find_def list_ex_find Let_def)

lemma hash_add_bucket_new:
  "check \<longrightarrow> ht_find key choose_cb h (key a) = None \<Longrightarrow>
    hash_add_bucket (\<lambda>a k. key a = k) choose_cb key h a b check =
      (h\<lparr>ht_table := (ht_table h)[choose_cb (key a) (ht_size h) :=
          ht_table h ! choose_cb (key a) (ht_size h) @ [\<lparr>el_addr = b, el_data = a\<rparr>]],
         ht_elements := ht_elements h + 1\<rparr>, 0)"
  by (auto simp: hash_add_bucket_def ht_find_buckets buckets_find_def list_ex_find Let_def)

lemma ht_add_fresh:
  "ht_find key choose_cb h (key a) = None \<Longrightarrow> ht_add key choose_cb malloc h a =
    (h\<lparr>ht_table := (ht_table h)[choose_cb (key a) (ht_size h) :=
          ht_table h ! choose_cb (key a) (ht_size h) @ [\<lparr>el_addr = malloc h, el_data = a\<rparr>]],
         ht_elements := ht_elements h + 1\<rparr>, True)"
  using hash_add_bucket_new [of True key choose_cb h a "malloc h"] by (simp add: ht_add_def hash_add_def)

lemma length_concat_update:
  "i < length xss \<Longrightarrow> length (concat (xss[i := ys])) + length (xss ! i) = length (concat xss) + length ys"
proof (induction xss arbitrary: i)
  case (Cons xs xss)
  then show ?case by (cases i) simp_all
qed simp

lemma length_unlink_first: "List.find p xs \<noteq> None \<Longrightarrow> Suc (length (unlink_first p xs)) = length xs"
proof (induction xs)
  case (Cons x xs)
  then show ?case by (cases xs) (auto split: if_splits)
qed simp

lemma ht_ok_add:
  fixes b :: nat
  assumes ok: "ht_ok key choose_cb h" and free: "ht_find key choose_cb h (key a) = None"
  defines "h' \<equiv> h\<lparr>ht_table := (ht_table h)[choose_cb (key a) (ht_size h) :=
          ht_table h ! choose_cb (key a) (ht_size h) @ [\<lparr>el_addr = b, el_data = a\<rparr>]],
         ht_elements := ht_elements h + 1\<rparr>"
  shows "ht_ok key choose_cb h'" and "ht_find key choose_cb h' = (ht_find key choose_cb h)(key a \<mapsto> a)"
proof -
  let ?e = "\<lparr>el_addr = b, el_data = a\<rparr>" and ?idx = "\<lambda>k. choose_cb k (ht_size h)"
  have bk: "buckets_ok (key \<circ> el_data) ?idx (ht_size h) (ht_table h)"
    and cnt: "ht_elements h = int (length (concat (ht_table h)))"
    using ok by (simp_all add: ht_ok_def)
  have i: "?idx (key a) < length (ht_table h)" using bk by (simp add: buckets_ok_def)
  have none: "ht_buckets key choose_cb h ((key \<circ> el_data) ?e) = None"
    using free by (simp add: ht_find_buckets)
  note ins = buckets_insert [OF bk none disjI2 [OF refl]]
  show "ht_ok key choose_cb h'"
    using ins(1) cnt length_concat_update [OF i, of "ht_table h ! ?idx (key a) @ [?e]"]
    by (simp add: ht_ok_def h'_def)
  show "ht_find key choose_cb h' = (ht_find key choose_cb h)(key a \<mapsto> a)"
    using ins(2) by (auto simp: fun_eq_iff ht_find_buckets h'_def)
qed

lemma ht_del_absent: "ht_find key choose_cb h k = None \<Longrightarrow> ht_del key choose_cb h k = (h, None)"
  by (simp add: ht_del_def hash_remove_def ht_find_buckets buckets_find_def Let_def)

lemma ht_del_present:
  "ht_find key choose_cb h k = Some a \<Longrightarrow> ht_del key choose_cb h k =
    (h\<lparr>ht_table := (ht_table h)[choose_cb k (ht_size h) :=
         unlink_first (\<lambda>b. (key \<circ> el_data) b = k) (ht_table h ! choose_cb k (ht_size h))],
       ht_elements := ht_elements h - 1\<rparr>, Some a)"
  by (auto simp: ht_del_def hash_remove_def ht_find_buckets buckets_find_def Let_def)

lemma ht_ok_del:
  assumes ok: "ht_ok key choose_cb h" and a: "ht_find key choose_cb h k = Some a"
  defines "h' \<equiv> h\<lparr>ht_table := (ht_table h)[choose_cb k (ht_size h) :=
         unlink_first (\<lambda>b. (key \<circ> el_data) b = k) (ht_table h ! choose_cb k (ht_size h))],
       ht_elements := ht_elements h - 1\<rparr>"
  shows "ht_ok key choose_cb h'" and "ht_find key choose_cb h' = (ht_find key choose_cb h)(k := None)"
proof -
  let ?idx = "\<lambda>k. choose_cb k (ht_size h)"
  have bk: "buckets_ok (key \<circ> el_data) ?idx (ht_size h) (ht_table h)"
    and cnt: "ht_elements h = int (length (concat (ht_table h)))"
    using ok by (simp_all add: ht_ok_def)
  have i: "?idx k < length (ht_table h)" using bk by (simp add: buckets_ok_def)
  have "List.find (\<lambda>b. (key \<circ> el_data) b = k) (ht_table h ! ?idx k) \<noteq> None"
    using a by (auto simp: ht_find_buckets buckets_find_def)
  note len = length_unlink_first [OF this]
  note rem = buckets_remove [OF bk, of k]
  show "ht_ok key choose_cb h'"
    using rem(1) cnt len length_concat_update [OF i, of "unlink_first (\<lambda>b. (key \<circ> el_data) b = k) (ht_table h ! ?idx k)"]
    by (simp add: ht_ok_def h'_def)
  show "ht_find key choose_cb h' = (ht_find key choose_cb h)(k := None)"
    using rem(2) by (auto simp: fun_eq_iff ht_find_buckets h'_def)
qed

interpretation alfred_table: keyed_table key "ht_ok key choose_cb" "ht_find key choose_cb"
    "ht_add key choose_cb malloc" "ht_del key choose_cb"
  for key :: "'a \<Rightarrow> 'k" and choose_cb and malloc
proof unfold_locales
  fix s :: "'a hashtable_t" and a :: 'a and k
  assume ok: "ht_ok key choose_cb s"
  show "key a = k" if "ht_find key choose_cb s k = Some a"
    using that by (auto simp: ht_find_buckets dest: buckets_find_key)
  show "ht_ok key choose_cb (fst (ht_add key choose_cb malloc s a))"
    using ok ht_ok_add(1) [OF ok, of a]
    by (cases "ht_find key choose_cb s (key a)") (simp_all add: ht_add_fresh ht_add_taken)
  show "snd (ht_add key choose_cb malloc s a) \<and>
      ht_find key choose_cb (fst (ht_add key choose_cb malloc s a)) = (ht_find key choose_cb s)(key a \<mapsto> a)"
    if "ht_find key choose_cb s (key a) = None"
    using ht_ok_add(2) [OF ok that] by (simp add: ht_add_fresh [OF that])
  show "\<not> snd (ht_add key choose_cb malloc s a) \<and>
      ht_find key choose_cb (fst (ht_add key choose_cb malloc s a)) = ht_find key choose_cb s"
    if "ht_find key choose_cb s (key a) \<noteq> None"
    using that by (simp add: ht_add_taken)
  show "ht_ok key choose_cb (fst (ht_del key choose_cb s k))"
    using ok ht_ok_del(1) [OF ok, of k]
    by (cases "ht_find key choose_cb s k") (simp_all add: ht_del_absent ht_del_present)
  show "snd (ht_del key choose_cb s k) = ht_find key choose_cb s k \<and>
      ht_find key choose_cb (fst (ht_del key choose_cb s k)) = (ht_find key choose_cb s)(k := None)"
    using ht_ok_del(2) [OF ok, of k]
    by (cases "ht_find key choose_cb s k") (simp_all add: ht_del_absent ht_del_present fun_upd_idem)
qed

section \<open>Runs of operations\<close>

lemma buckets_new:
  "(\<And>k. idx k < n) \<Longrightarrow> buckets_ok key idx n (map (\<lambda>_. []) [0..<n])
    \<and> buckets_find key idx (map (\<lambda>_. []) [0..<n]) = Map.empty"
  by (simp add: buckets_ok_def buckets_find_def fun_eq_iff)

lemma word_mod_less: "(n :: u32) \<noteq> 0 \<Longrightarrow> unat (h mod n) < unat n"
  by (simp add: unat_mod_distrib unat_gt_0)

text \<open>
  C38. A hash table of the kernel module is a partial map: after any run of additions and
  removals on a new table, looking a key up gives what the same run on a map gives (an
  addition under a taken key is refused). The index function is any hash reduced modulo the
  size of the table, as all hash functions of the module are.
\<close>

theorem batadv_hash_run:
  assumes "batadv_hash_new True True True sz = Some hash" and "sz \<noteq> 0"
  shows "bh_find key (\<lambda>k n. hash_fn k mod n)
      (foldl (table_step (bh_add key (\<lambda>k n. hash_fn k mod n)) (bh_del key (\<lambda>k n. hash_fn k mod n))) hash ops)
    = foldl (map_step key) Map.empty ops"
proof -
  have hash: "hash = \<lparr>bh_table = map (\<lambda>_. []) [0..<unat sz], bh_size = sz\<rparr>"
    using assms(1) by (simp add: batadv_hash_new_def batadv_hash_init_def)
  note new = buckets_new [OF word_mod_less [OF assms(2)], of key hash_fn]
  have "bh_ok key (\<lambda>k n. hash_fn k mod n) hash" "bh_find key (\<lambda>k n. hash_fn k mod n) hash = Map.empty"
    using new by (simp_all add: hash bh_ok_def bh_find_buckets)
  then show ?thesis using kernel_table.run_refines by metis
qed

theorem batadv_hash_run_witness:
  "bh_find fst (\<lambda>k n. of_nat k mod n)
      (foldl (table_step (bh_add fst (\<lambda>k n. of_nat k mod n)) (bh_del fst (\<lambda>k n. of_nat k mod n)))
        (the (batadv_hash_new True True True 4)) [Op_Add (1 :: nat, True), Op_Add (5, False), Op_Del 1, Op_Add (5, True)])
    = [5 \<mapsto> (5, False)]"
  using batadv_hash_run [of 4 _ fst of_nat "[Op_Add (1 :: nat, True), Op_Add (5, False), Op_Del 1, Op_Add (5, True)]"]
  by (simp add: batadv_hash_new_def fun_eq_iff)

lemma set_concat_nth: "set (concat xss) = (\<Union>i < length xss. set (xss ! i))"
proof -
  have "set xss = (!) xss ` {..<length xss}" by (auto simp: set_conv_nth)
  then show ?thesis by simp
qed

lemma distinct_concat_index:
  "\<forall>i < length xss. distinct (xss ! i) \<and> (\<forall>x \<in> set (xss ! i). f x = n + i) \<Longrightarrow> distinct (concat xss)"
proof (induction xss arbitrary: n)
  case (Cons xs xss)
  have "\<forall>i < length xss. distinct (xss ! i) \<and> (\<forall>x \<in> set (xss ! i). f x = Suc n + i)"
  proof (intro allI impI)
    fix i
    assume "i < length xss"
    then show "distinct (xss ! i) \<and> (\<forall>x \<in> set (xss ! i). f x = Suc n + i)"
      using spec [OF Cons.prems, of "Suc i"] by simp
  qed
  note tl = Cons.IH [OF this] and off = this
  have hd: "distinct xs" "\<forall>x \<in> set xs. f x = n"
    using spec [OF Cons.prems, of 0] by simp_all
  have "f x \<noteq> n" if x: "x \<in> set (concat xss)" for x
  proof -
    obtain i where "i < length xss" "x \<in> set (xss ! i)"
      using x by (auto simp: set_concat_nth simp del: set_concat)
    with off have "f x = Suc n + i" by blast
    then show ?thesis by simp
  qed
  with hd(2) have "set xs \<inter> set (concat xss) = {}" by blast
  then show ?case using tl hd(1) unfolding concat.simps distinct_append by blast
qed simp

lemma ht_new_ok:
  fixes key :: "'a \<Rightarrow> 'k"
  assumes "\<And>k. choose_cb k sz < sz"
  shows "ht_ok key choose_cb \<lparr>ht_table = map (\<lambda>_. []) [0..<sz], ht_elements = 0, ht_size = sz\<rparr>"
    and "ht_find key choose_cb \<lparr>ht_table = map (\<lambda>_. []) [0..<sz], ht_elements = 0, ht_size = sz\<rparr> = Map.empty"
proof -
  have "concat (map (\<lambda>_. []) [0..<sz]) = ([] :: 'a element_t list)"
    by (simp add: concat_eq_Nil_conv)
  then show "ht_ok key choose_cb \<lparr>ht_table = map (\<lambda>_. []) [0..<sz], ht_elements = 0, ht_size = sz\<rparr>"
    and "ht_find key choose_cb \<lparr>ht_table = map (\<lambda>_. []) [0..<sz], ht_elements = 0, ht_size = sz\<rparr> = Map.empty"
    using buckets_new [of "\<lambda>k. choose_cb k sz" sz "key \<circ> (el_data :: 'a element_t \<Rightarrow> 'a)"] assms
    by (simp_all add: ht_ok_def ht_find_buckets fun_eq_iff)
qed

lemma ht_find_dom:
  assumes "ht_ok key choose_cb h"
  shows "dom (ht_find key choose_cb h) = set (map (key \<circ> el_data) (concat (ht_table h)))"
    and "distinct (map (key \<circ> el_data) (concat (ht_table h)))"
proof -
  let ?idx = "\<lambda>k. choose_cb k (ht_size h)" and ?key = "key \<circ> el_data"
  have len: "length (ht_table h) = ht_size h" and lt: "\<And>k. ?idx k < ht_size h"
    and dist: "\<And>i. i < ht_size h \<Longrightarrow> distinct (map ?key (ht_table h ! i))"
    and home: "\<And>i a. i < ht_size h \<Longrightarrow> a \<in> set (ht_table h ! i) \<Longrightarrow> ?idx (?key a) = i"
    using assms by (auto simp: ht_ok_def buckets_ok_def)
  have "k \<in> dom (ht_find key choose_cb h) \<longleftrightarrow> k \<in> ?key ` set (ht_table h ! ?idx k)" for k
    using find_key_None [of ?key k "ht_table h ! ?idx k"]
    by (auto simp: ht_find_buckets buckets_find_def dom_def)
  moreover have "k \<in> ?key ` set (ht_table h ! ?idx k) \<longleftrightarrow> (\<exists>i < ht_size h. k \<in> ?key ` set (ht_table h ! i))" for k
    using lt home by (metis (no_types, lifting) imageE)
  ultimately show "dom (ht_find key choose_cb h) = set (map ?key (concat (ht_table h)))"
    unfolding set_map set_concat_nth len by (auto simp: set_eq_iff image_UN)
  have "distinct (concat (map (map ?key) (ht_table h)))"
    using len dist home by (intro distinct_concat_index [where f = ?idx and n = 0]) auto
  then show "distinct (map ?key (concat (ht_table h)))"
    by (simp add: map_concat)
qed

lemma ht_elements_card:
  assumes "ht_ok key choose_cb h"
  shows "ht_elements h = int (card (dom (ht_find key choose_cb h)))"
  using assms distinct_card [OF ht_find_dom(2) [OF assms]]
  by (simp add: ht_find_dom(1) [OF assms] ht_ok_def)


text \<open>
  C40. The table of alfred is a partial map whose element counter is the number of its keys:
  after any run of additions and removals on a new table, for any addresses the allocator
  returns, a lookup gives what the same run on a map gives.
\<close>

theorem hash_run:
  assumes "hash_new True True sz = Some hash" and "0 < sz"
    and "hash' = foldl (table_step (ht_add key (\<lambda>k n. hash_fn k mod n) malloc)
      (ht_del key (\<lambda>k n. hash_fn k mod n))) hash ops"
  shows "ht_find key (\<lambda>k n. hash_fn k mod n) hash' = foldl (map_step key) Map.empty ops
    \<and> ht_elements hash' = int (card (dom (foldl (map_step key) Map.empty ops)))"
proof -
  have hash: "hash = \<lparr>ht_table = map (\<lambda>_. []) [0..<sz], ht_elements = 0, ht_size = sz\<rparr>"
    using assms(1) by (simp add: hash_new_def hash_init_def)
  then have "ht_ok key (\<lambda>k n. hash_fn k mod n) hash" "ht_find key (\<lambda>k n. hash_fn k mod n) hash = Map.empty"
    using ht_new_ok [of "\<lambda>k n. hash_fn k mod n" sz key] assms(2) by simp_all
  with alfred_table.run_refines [OF this(1), of malloc ops] show ?thesis
    using ht_elements_card [of key "\<lambda>k n. hash_fn k mod n" hash'] assms(3) by simp
qed

theorem hash_run_witness:
  "ht_elements (foldl (table_step (ht_add fst (\<lambda>k n. id k mod n) (\<lambda>h. nat (ht_elements h)))
        (ht_del fst (\<lambda>k n. id k mod n))) (the (hash_new True True 4))
      [Op_Add (1 :: nat, True), Op_Add (5, False), Op_Del 1, Op_Add (5, True)])
    = int (card (dom [5 :: nat \<mapsto> (5 :: nat, False)]))"
proof -
  have "hash_new True True 4 = Some (the (hash_new True True 4))" by (simp add: hash_new_def)
  from hash_run [OF this _ refl, of fst id "\<lambda>h. nat (ht_elements h)"
      "[Op_Add (1 :: nat, True), Op_Add (5, False), Op_Del 1, Op_Add (5, True)]"]
  show ?thesis by (simp add: fun_upd_twist)
qed

section \<open>Resizing\<close>

text \<open>
  Adding elements whose keys are new, one after the other, extends the map by them.
\<close>

lemma resize_bucket_ok:
  assumes "ht_ok key choose_cb new" and "distinct (map (key \<circ> el_data) bs)"
    and "\<forall>b \<in> set bs. ht_find key choose_cb new (key (el_data b)) = None"
  shows "ht_ok key choose_cb (resize_bucket (\<lambda>a k. key a = k) choose_cb key bs new)"
    and "ht_find key choose_cb (resize_bucket (\<lambda>a k. key a = k) choose_cb key bs new)
      = ht_find key choose_cb new ++ map_of (map (\<lambda>b. (key (el_data b), el_data b)) bs)"
proof -
  have "ht_ok key choose_cb (resize_bucket (\<lambda>a k. key a = k) choose_cb key bs new) \<and>
      ht_find key choose_cb (resize_bucket (\<lambda>a k. key a = k) choose_cb key bs new)
      = ht_find key choose_cb new ++ map_of (map (\<lambda>b. (key (el_data b), el_data b)) bs)"
    using assms
  proof (induction bs arbitrary: new)
    case (Cons b bs)
    let ?new = "fst (hash_add_bucket (\<lambda>a k. key a = k) choose_cb key new (el_data b) (el_addr b) False)"
    have free: "ht_find key choose_cb new (key (el_data b)) = None" using Cons.prems(3) by simp
    have new: "?new = new\<lparr>ht_table := (ht_table new)[choose_cb (key (el_data b)) (ht_size new) :=
          ht_table new ! choose_cb (key (el_data b)) (ht_size new) @ [\<lparr>el_addr = el_addr b, el_data = el_data b\<rparr>]],
         ht_elements := ht_elements new + 1\<rparr>"
      by (simp add: hash_add_bucket_new)
    note add = ht_ok_add [OF Cons.prems(1) free, of "el_addr b", folded new]
    have "\<forall>c \<in> set bs. ht_find key choose_cb ?new (key (el_data c)) = None"
      using Cons.prems(2,3) by (auto simp: add(2)) (metis imageI)
    moreover have "map_of (map (\<lambda>b. (key (el_data b), el_data b)) bs) (key (el_data b)) = None"
      using Cons.prems(2) by (auto simp: map_of_eq_None_iff image_iff)
    ultimately show ?case
      using Cons.IH [OF add(1)] Cons.prems(2)
      by (auto simp: add(2) map_add_def fun_eq_iff split: option.splits)
  qed simp
  then show "ht_ok key choose_cb (resize_bucket (\<lambda>a k. key a = k) choose_cb key bs new)"
    and "ht_find key choose_cb (resize_bucket (\<lambda>a k. key a = k) choose_cb key bs new)
      = ht_find key choose_cb new ++ map_of (map (\<lambda>b. (key (el_data b), el_data b)) bs)"
    by simp_all
qed

lemma resize_bucket_append:
  "fold (resize_bucket cmp choose_cb key) bss new = resize_bucket cmp choose_cb key (concat bss) new"
proof (induction bss arbitrary: new)
  case (Cons bs bss)
  have "resize_bucket cmp choose_cb key (bs @ cs) n
    = resize_bucket cmp choose_cb key cs (resize_bucket cmp choose_cb key bs n)" for cs n
    by (induction bs arbitrary: n) simp_all
  then show ?case using Cons by simp
qed simp

lemma map_of_buckets:
  assumes "ht_ok key choose_cb h"
  shows "map_of (map (\<lambda>b. (key (el_data b), el_data b)) (concat (ht_table h))) = ht_find key choose_cb h"
proof
  fix k
  let ?m = "map_of (map (\<lambda>b. (key (el_data b), el_data b)) (concat (ht_table h)))"
  note dom = ht_find_dom [OF assms]
  have key: "key a = k" if "ht_find key choose_cb h k = Some a" for a
    using that by (auto simp: ht_find_buckets dest: buckets_find_key)
  show "?m k = ht_find key choose_cb h k"
  proof (cases "ht_find key choose_cb h k")
    case None
    then have "k \<notin> dom (ht_find key choose_cb h)" by auto
    then show ?thesis using None by (auto simp: dom(1) map_of_eq_None_iff image_iff)
  next
    case (Some a)
    then obtain b where b: "buckets_find (key \<circ> el_data) (\<lambda>k. choose_cb k (ht_size h)) (ht_table h) k = Some b"
      "a = el_data b" by (auto simp: ht_find_buckets)
    have "choose_cb k (ht_size h) < length (ht_table h)"
      using assms by (simp add: ht_ok_def buckets_ok_def)
    then have "b \<in> set (concat (ht_table h))"
      using b(1) by (auto simp: buckets_find_def dest!: find_SomeD)
    then have "(k, a) \<in> set (map (\<lambda>b. (key (el_data b), el_data b)) (concat (ht_table h)))"
      using key [OF Some] b(2) by auto
    moreover have "distinct (map fst (map (\<lambda>b. (key (el_data b), el_data b)) (concat (ht_table h))))"
      using dom(2) by (simp add: comp_def)
    ultimately show ?thesis using Some by simp
  qed
qed

text \<open>
  Resizing keeps the contents: the new table has the same lookups and the same element
  count, for any new size that is not zero.
\<close>

theorem hash_resize_same:
  assumes "ht_ok key (\<lambda>k n. hash_fn k mod n) hash" and "0 < sz"
  shows "\<exists>new. hash_resize (\<lambda>a k. key a = k) (\<lambda>k n. hash_fn k mod n) key True True hash sz = Some new
    \<and> ht_ok key (\<lambda>k n. hash_fn k mod n) new
    \<and> ht_find key (\<lambda>k n. hash_fn k mod n) new = ht_find key (\<lambda>k n. hash_fn k mod n) hash
    \<and> ht_elements new = ht_elements hash"
proof -
  let ?choose = "\<lambda>k n. hash_fn k mod n"
  define new0 :: "'a hashtable_t" where
    "new0 = \<lparr>ht_table = map (\<lambda>_. []) [0..<sz], ht_elements = 0, ht_size = sz\<rparr>"
  have ok0: "ht_ok key ?choose new0" and emp: "ht_find key ?choose new0 = Map.empty"
    using ht_new_ok [of ?choose sz key] assms(2) by (simp_all add: new0_def)
  let ?new = "resize_bucket (\<lambda>a k. key a = k) ?choose key (concat (ht_table hash)) new0"
  have res: "hash_resize (\<lambda>a k. key a = k) ?choose key True True hash sz = Some ?new"
    by (simp add: hash_resize_def hash_new_def hash_init_def resize_bucket_append new0_def)
  note new = resize_bucket_ok [OF ok0 ht_find_dom(2) [OF assms(1)]]
  have "ht_ok key ?choose ?new" "ht_find key ?choose ?new = ht_find key ?choose hash"
    using new by (simp_all add: emp map_of_buckets [OF assms(1)])
  with res show ?thesis
    using ht_elements_card [OF assms(1)] ht_elements_card [of key ?choose ?new] by simp
qed

theorem hash_resize_same_witness:
  "\<exists>new. hash_resize (\<lambda>a k. fst a = k) (\<lambda>k n. id k mod n) fst True True
      \<lparr>ht_table = [[\<lparr>el_addr = 7, el_data = (2 :: nat, True)\<rparr>], [\<lparr>el_addr = 8, el_data = (3, False)\<rparr>]],
        ht_elements = 2, ht_size = 2\<rparr> 3 = Some new \<and> ht_elements new = 2"
proof -
  let ?h = "\<lparr>ht_table = [[\<lparr>el_addr = 7, el_data = (2 :: nat, True)\<rparr>], [\<lparr>el_addr = 8, el_data = (3, False)\<rparr>]],
        ht_elements = 2, ht_size = 2\<rparr>"
  have "ht_ok fst (\<lambda>k n. id k mod n) ?h"
    by (auto simp: ht_ok_def buckets_ok_def less_2_cases_iff)
  from hash_resize_same [OF this, of 3] show ?thesis by auto
qed

section \<open>Iterating and removing\<close>

text \<open>The iterator at the element \<open>e\<close> of slot \<open>i\<close>, with the elements \<open>ps\<close> still before it.\<close>

definition iter_pos :: "nat \<Rightarrow> 'a element_t list \<Rightarrow> 'a element_t \<Rightarrow> hash_it_t" where
  "iter_pos i ps e =
     \<lparr>it_index = int i, it_bucket = Some (el_addr e),
      it_prev_bucket = (if ps = [] then None else Some (el_addr (last ps))),
      it_first_bucket = (if ps = [] then Some i else None)\<rparr>"

definition addrs_ok :: "'a hashtable_t \<Rightarrow> bool" where
  "addrs_ok hash \<longleftrightarrow> length (ht_table hash) = ht_size hash \<and>
     (\<forall>l \<in> set (ht_table hash). distinct (map el_addr l))"

lemma addrs_ok_slot: "addrs_ok hash \<Longrightarrow> i < ht_size hash \<Longrightarrow> distinct (map el_addr (ht_table hash ! i))"
  by (simp add: addrs_ok_def)

lemma next_of_split:
  "el_addr e \<notin> el_addr ` set ps \<Longrightarrow>
    next_of (ps @ e # ns) (el_addr e) = Some (case ns of [] \<Rightarrow> None | n # _ \<Rightarrow> Some (el_addr n))"
  by (induction ps) auto

lemma find_addr:
  "el_addr e \<notin> el_addr ` set ps \<Longrightarrow>
    List.find (\<lambda>b. Some (el_addr b) = Some (el_addr e)) (ps @ e # ns) = Some e"
  by (induction ps) auto

lemma unlink_addr:
  "el_addr e \<notin> el_addr ` set ps \<Longrightarrow>
    unlink_first (\<lambda>b. Some (el_addr b) = Some (el_addr e)) (ps @ e # ns) = ps @ ns"
  by (induction ps) auto

text \<open>One call of the iterator, after its element was kept or removed.\<close>

lemma iterate_kept:
  assumes "ht_table hash ! i = ps @ e # ns" and "distinct (map el_addr (ht_table hash ! i))"
  shows "hash_iterate hash (Some (iter_pos i ps e)) =
    (case ns of [] \<Rightarrow> iter_search hash (int i + 1) (iter_pos i ps e)
     | n # _ \<Rightarrow> Iter_At (iter_pos i (ps @ [e]) n))"
proof (cases "ps = []")
  case True
  then show ?thesis
    using assms next_of_split [of e ps ns]
    by (auto simp: hash_iterate_def iter_next_def iter_pos_def slot_head_def split: list.splits)
next
  case False
  then obtain qs p where ps: "ps = qs @ [p]" by (cases ps rule: rev_cases) auto
  have "next_of (qs @ p # e # ns) (el_addr p) = Some (Some (el_addr e))"
    using assms(2) next_of_split [of p qs "e # ns"] by (auto simp: ps assms(1))
  then show ?thesis
    using assms next_of_split [of e ps ns]
    by (auto simp: hash_iterate_def iter_next_def iter_pos_def ps split: list.splits)
qed

lemma iterate_removed:
  assumes "ht_table hash ! i = ps @ ns" and "distinct (map el_addr (ps @ e # ns))"
  shows "\<exists>it. hash_iterate hash (Some (iter_pos i ps e)) =
    (case ns of [] \<Rightarrow> iter_search hash (int i + 1) it | n # _ \<Rightarrow> Iter_At (iter_pos i ps n))"
proof (cases "ps = []")
  case True
  then show ?thesis
    using assms
    by (auto simp: hash_iterate_def iter_next_def iter_pos_def slot_head_def split: list.splits)
next
  case False
  then obtain qs p where ps: "ps = qs @ [p]" by (cases ps rule: rev_cases) auto
  have "next_of (qs @ p # ns) (el_addr p) = Some (case ns of [] \<Rightarrow> None | n # _ \<Rightarrow> Some (el_addr n))"
    using assms(2) next_of_split [of p qs ns] by (auto simp: ps)
  then show ?thesis
    using assms
    by (auto simp: hash_iterate_def iter_next_def iter_pos_def ps split: list.splits)
qed

definition purge_visit ::
    "nat \<Rightarrow> ('a \<Rightarrow> bool) \<Rightarrow> 'a hashtable_t \<Rightarrow> iter_result \<Rightarrow> ('a hashtable_t \<times> 'a list) option" where
  "purge_visit fuel purge hash r =
     (case r of
        Iter_End \<Rightarrow> Some (hash, [])
      | Iter_Freed_Access \<Rightarrow> None
      | Iter_At it' \<Rightarrow>
          (case iter_data hash it' of
             None \<Rightarrow> None
           | Some d \<Rightarrow>
               map_option (\<lambda>(h, vs). (h, d # vs))
                 (purge_loop fuel purge (if purge d then fst (hash_remove_bucket hash it') else hash)
                    (Some it'))))"

lemma purge_loop_visit:
  "purge_loop (Suc fuel) purge hash it = purge_visit fuel purge hash (hash_iterate hash it)"
  by (simp add: purge_visit_def)

text \<open>What a complete purge from an element of slot \<open>i\<close> on leaves, and what it visits.\<close>

abbreviation purged :: "('a \<Rightarrow> bool) \<Rightarrow> 'a element_t list \<Rightarrow> 'a element_t list" where
  "purged purge \<equiv> filter (\<lambda>e. \<not> purge (el_data e))"

abbreviation purge_count :: "('a \<Rightarrow> bool) \<Rightarrow> 'a element_t list \<Rightarrow> int" where
  "purge_count purge es \<equiv> int (length (filter (\<lambda>e. purge (el_data e)) es))"

definition purge_done :: "('a \<Rightarrow> bool) \<Rightarrow> 'a hashtable_t \<Rightarrow> nat \<Rightarrow> 'a element_t list \<Rightarrow> 'a element_t list
    \<Rightarrow> 'a hashtable_t" where
  "purge_done purge hash i ps ns = hash\<lparr>
     ht_table := take i (ht_table hash) @ (ps @ purged purge ns) # map (purged purge) (drop (Suc i) (ht_table hash)),
     ht_elements := ht_elements hash - purge_count purge (ns @ concat (drop (Suc i) (ht_table hash)))\<rparr>"

definition purge_left :: "'a hashtable_t \<Rightarrow> nat \<Rightarrow> 'a element_t list \<Rightarrow> 'a element_t list" where
  "purge_left hash i ns = ns @ concat (drop (Suc i) (ht_table hash))"

text \<open>The loop from the iterator position on, as assumed for smaller fuel.\<close>

definition purge_spec :: "nat \<Rightarrow> ('a \<Rightarrow> bool) \<Rightarrow> bool" where
  "purge_spec fuel purge \<longleftrightarrow> (\<forall>(hash :: 'a hashtable_t) i ps e ns keep.
     addrs_ok hash \<longrightarrow> i < ht_size hash \<longrightarrow> distinct (map el_addr (ps @ e # ns)) \<longrightarrow>
     ht_table hash ! i = ps @ (if keep then [e] else []) @ ns \<longrightarrow>
     length (purge_left hash i ns) < fuel \<longrightarrow>
     purge_loop fuel purge hash (Some (iter_pos i ps e)) =
       Some (purge_done purge hash i (ps @ (if keep then [e] else [])) ns,
             map el_data (purge_left hash i ns)))"

lemma iter_data_pos:
  "ht_table hash ! i = ps @ e # ns \<Longrightarrow> distinct (map el_addr (ps @ e # ns)) \<Longrightarrow>
    iter_data hash (iter_pos i ps e) = Some (el_data e)"
  using find_addr [of e ps ns] by (auto simp: iter_data_def iter_pos_def)

lemma remove_bucket_pos:
  "ht_table hash ! i = ps @ e # ns \<Longrightarrow> distinct (map el_addr (ps @ e # ns)) \<Longrightarrow>
    fst (hash_remove_bucket hash (iter_pos i ps e)) =
      hash\<lparr>ht_table := (ht_table hash)[i := ps @ ns], ht_elements := ht_elements hash - 1\<rparr>"
  using unlink_addr [of e ps ns] by (auto simp: hash_remove_bucket_def iter_pos_def Let_def)

lemma addrs_ok_update:
  "addrs_ok hash \<Longrightarrow> distinct (map el_addr l) \<Longrightarrow> addrs_ok (hash\<lparr>ht_table := (ht_table hash)[i := l], ht_elements := n\<rparr>)"
  by (auto simp: addrs_ok_def dest!: set_update_subset_insert [THEN subsetD])

lemma purge_visit_pos:
  assumes spec: "purge_spec fuel purge" and ok: "addrs_ok hash" and i: "i < ht_size hash"
    and slot: "ht_table hash ! i = ps @ e # ns" and fuel: "length (purge_left hash i ns) < fuel"
  shows "purge_visit fuel purge hash (Iter_At (iter_pos i ps e)) =
    Some (purge_done purge hash i ps (e # ns), map el_data (purge_left hash i (e # ns)))"
proof -
  have len: "i < length (ht_table hash)" using ok i by (simp add: addrs_ok_def)
  have dist: "distinct (map el_addr (ps @ e # ns))" using addrs_ok_slot [OF ok i] by (simp add: slot)
  have visit: "purge_visit fuel purge hash (Iter_At (iter_pos i ps e)) =
    map_option (\<lambda>(h, vs). (h, el_data e # vs))
      (purge_loop fuel purge (if purge (el_data e)
         then hash\<lparr>ht_table := (ht_table hash)[i := ps @ ns], ht_elements := ht_elements hash - 1\<rparr> else hash)
       (Some (iter_pos i ps e)))"
    by (simp add: purge_visit_def iter_data_pos [OF slot dist] remove_bucket_pos [OF slot dist])
  show ?thesis
  proof (cases "purge (el_data e)")
    case True
    let ?hash = "hash\<lparr>ht_table := (ht_table hash)[i := ps @ ns], ht_elements := ht_elements hash - 1\<rparr>"
    have "addrs_ok ?hash" using dist by (intro addrs_ok_update [OF ok]) auto
    moreover have "ht_table ?hash ! i = ps @ (if False then [e] else []) @ ns" using len by simp
    moreover have "purge_left ?hash i ns = purge_left hash i ns" by (simp add: purge_left_def)
    ultimately have "purge_loop fuel purge ?hash (Some (iter_pos i ps e)) =
       Some (purge_done purge ?hash i (ps @ (if False then [e] else [])) ns, map el_data (purge_left hash i ns))"
      using spec [unfolded purge_spec_def, rule_format, of ?hash i ps e ns False] i dist fuel by simp
    then show ?thesis
      using True by (simp add: visit purge_done_def purge_left_def)
  next
    case False
    have "ht_table hash ! i = ps @ (if True then [e] else []) @ ns" by (simp add: slot)
    from spec [unfolded purge_spec_def, rule_format, OF ok i dist this fuel]
    show ?thesis using False by (simp add: visit purge_done_def purge_left_def)
  qed
qed

lemma purge_visit_search:
  assumes spec: "purge_spec fuel purge" and ok: "addrs_ok hash"
    and fuel: "length (concat (drop j (ht_table hash))) \<le> fuel"
  shows "purge_visit fuel purge hash (iter_search hash (int j) it) =
    Some (hash\<lparr>ht_table := take j (ht_table hash) @ map (purged purge) (drop j (ht_table hash)),
            ht_elements := ht_elements hash - purge_count purge (concat (drop j (ht_table hash)))\<rparr>,
          map el_data (concat (drop j (ht_table hash))))"
  using fuel
proof (induction "ht_size hash - j" arbitrary: j)
  case 0
  then show ?case using ok
    by (subst iter_search.simps) (simp add: purge_visit_def addrs_ok_def)
next
  case (Suc m)
  then have j: "j < ht_size hash" "j < length (ht_table hash)" using ok by (simp_all add: addrs_ok_def)
  have drop: "drop j (ht_table hash) = ht_table hash ! j # drop (Suc j) (ht_table hash)"
    using j(2) by (rule Cons_nth_drop_Suc [symmetric])
  show ?case
  proof (cases "ht_table hash ! j")
    case Nil
    then have "iter_search hash (int j) it = iter_search hash (int (Suc j)) it"
      using j by (subst iter_search.simps) (simp add: slot_head_def add.commute)
    moreover have "take (Suc j) (ht_table hash) = take j (ht_table hash) @ [[]]"
      using j(2) Nil by (simp add: take_Suc_conv_app_nth)
    ultimately show ?thesis using Suc.hyps(1) [of "Suc j"] Suc.hyps(2) Suc.prems by (simp add: drop Nil)
  next
    case (Cons e ns)
    then have "iter_search hash (int j) it = Iter_At (iter_pos j [] e)"
      using j by (subst iter_search.simps) (simp add: slot_head_def iter_pos_def)
    moreover have "length (purge_left hash j ns) < fuel"
      using Suc.prems by (simp add: drop Cons purge_left_def)
    ultimately show ?thesis
      using purge_visit_pos [OF spec ok j(1), of "[]" e ns] Cons
      by (simp add: drop purge_done_def purge_left_def)
  qed
qed


lemma purge_spec_step:
  assumes spec: "purge_spec fuel purge" and ok: "addrs_ok hash" and i: "i < ht_size hash"
    and dist: "distinct (map el_addr (ps @ e # ns))"
    and slot: "ht_table hash ! i = ps @ (if keep then [e] else []) @ ns"
    and fuel: "length (purge_left hash i ns) < Suc fuel"
  shows "purge_loop (Suc fuel) purge hash (Some (iter_pos i ps e)) =
       Some (purge_done purge hash i (ps @ (if keep then [e] else [])) ns,
             map el_data (purge_left hash i ns))"
proof -
  let ?ps = "ps @ (if keep then [e] else [])"
  have slot': "ht_table hash ! i = ?ps @ ns" by (simp add: slot)
  obtain it where it: "hash_iterate hash (Some (iter_pos i ps e)) =
    (case ns of [] \<Rightarrow> iter_search hash (int i + 1) it | n # _ \<Rightarrow> Iter_At (iter_pos i ?ps n))"
  proof (cases keep)
    case True
    then show thesis
      using that iterate_kept [of hash i ps e ns] slot addrs_ok_slot [OF ok i] by simp
  next
    case False
    then have "\<exists>it. hash_iterate hash (Some (iter_pos i ps e)) =
      (case ns of [] \<Rightarrow> iter_search hash (int i + 1) it | n # _ \<Rightarrow> Iter_At (iter_pos i ?ps n))"
      using iterate_removed [of hash i ps ns e] slot dist by (cases ns) simp_all
    then show thesis by (elim exE) (rule that)
  qed
  show ?thesis
  proof (cases ns)
    case Nil
    have len: "i < length (ht_table hash)" using ok i by (simp add: addrs_ok_def)
    have "length (concat (drop (Suc i) (ht_table hash))) \<le> fuel"
      using fuel Nil by (simp add: purge_left_def)
    from purge_visit_search [OF spec ok this] show ?thesis
      using it slot' Nil len
      by (simp add: purge_loop_visit purge_done_def purge_left_def take_Suc_conv_app_nth add.commute
          del: purge_loop.simps)
  next
    case (Cons n ns')
    then have "ht_table hash ! i = ?ps @ n # ns'" "length (purge_left hash i ns') < fuel"
      using slot' fuel by (simp_all add: purge_left_def)
    from purge_visit_pos [OF spec ok i this] show ?thesis
      using it Cons by (simp add: purge_loop_visit del: purge_loop.simps)
  qed
qed

lemma purge_spec_holds: "purge_spec fuel purge"
proof (induction fuel)
  case 0
  then show ?case by (simp add: purge_spec_def)
next
  case (Suc fuel)
  show ?case
    unfolding purge_spec_def by (intro allI impI purge_spec_step [OF Suc.IH])
qed



end
