(* ===== verification/Originator.thy ===== *)
theory Originator
  imports SeqWindow "HOL-Library.AList"
begin

text \<open>
  The originator table: \<^verbatim>\<open>originator.c\<close>, \<^verbatim>\<open>originator.h\<close>, the structures of \<^verbatim>\<open>types.h\<close> that
  hold it, and the route update of \<^verbatim>\<open>routing.c\<close>.

  Pointers. An interface is a number (\<open>iface\<close>) that stands for its address, an outgoing
  interface is \<open>None\<close> for \<^verbatim>\<open>BATADV_IF_DEFAULT\<close>. An originator is referred to by its MAC
  address, the key under which the hash table holds it. A neighbor node belongs to one
  originator: it is an object of that originator's heap \<open>on_neigh\<close>, referred to by a number
  that is never used twice, so that a router that was purged from \<open>on_neigh_list\<close> but is still
  referenced is told apart from a new neighbor with the same address. Lists that are searched
  for an outgoing interface are association lists, with new entries at the head as in the
  code. The hash table of originators is the association list of its contents.

  Each operation that allocates takes the argument \<open>alloc\<close>, which says whether the allocation
  at a site succeeds. Calls that leave for components with a state of their own are recorded
  in \<open>bp_calls\<close>.
\<close>

section \<open>Data\<close>

type_synonym iface = nat
type_synonym if_out = "iface option"

abbreviation (input) BATADV_IF_DEFAULT :: if_out where "BATADV_IF_DEFAULT \<equiv> None"
abbreviation (input) BATADV_PURGE_TIMEOUT :: nat where "BATADV_PURGE_TIMEOUT \<equiv> 200000"

datatype batadv_hard_iface_state =
  BATADV_IF_NOT_IN_USE | BATADV_IF_TO_BE_REMOVED | BATADV_IF_INACTIVE | BATADV_IF_ACTIVE
  | BATADV_IF_TO_BE_ACTIVATED | BATADV_IF_I_WANT_YOU

datatype batadv_mesh_state = BATADV_MESH_INACTIVE | BATADV_MESH_ACTIVE | BATADV_MESH_DEACTIVATING

abbreviation (input) BATADV_NUM_BCASTS_DEFAULT :: u8 where "BATADV_NUM_BCASTS_DEFAULT \<equiv> 1"
abbreviation (input) BATADV_NUM_BCASTS_WIRELESS :: u8 where "BATADV_NUM_BCASTS_WIRELESS \<equiv> 3"
abbreviation (input) BATADV_NUM_BCASTS_MAX :: u8 where "BATADV_NUM_BCASTS_MAX \<equiv> 3"
abbreviation (input) BATADV_BCAST_QUEUE_LEN :: nat where "BATADV_BCAST_QUEUE_LEN \<equiv> 256"
abbreviation (input) BATADV_BATMAN_QUEUE_LEN :: nat where "BATADV_BATMAN_QUEUE_LEN \<equiv> 256"

record batadv_hardif_neigh_node =
  hn_addr :: mac
  hn_last_seen :: jiffies

record batadv_hard_iface =
  hi_if_num :: int
  hi_if_status :: batadv_hard_iface_state
  hi_dev_addr :: mac
  hi_soft_iface :: "nat option"
  hi_wifi :: bool
  hi_ogm_buff :: "u8 list"
  hi_ogm_buff_len :: int
  hi_ogm_seqno :: u32
  hi_neigh_list :: "batadv_hardif_neigh_node list"
  hi_num_bcasts :: u8
  hi_mtu :: int

record batadv_neigh_ifinfo =
  ni_tq_recv :: "u8 list"
  ni_tq_index :: u8
  ni_tq_avg :: u8
  ni_real_bits :: seqbits
  ni_real_packet_count :: u8
  ni_last_ttl :: u8

record batadv_neigh_node =
  nn_orig_node :: mac
  nn_addr :: mac
  nn_ifinfo :: "(if_out \<times> batadv_neigh_ifinfo) list"
  nn_if_incoming :: iface
  nn_last_seen :: jiffies

record batadv_orig_ifinfo =
  oi_router :: "nat option"
  oi_last_real_seqno :: u32
  oi_last_ttl :: u8
  oi_batman_seqno_reset :: jiffies

record batadv_orig_node =
  on_orig :: mac
  on_ifinfo :: "(if_out \<times> batadv_orig_ifinfo) list"
  on_last_seen :: jiffies
  on_neigh :: "nat \<Rightarrow> batadv_neigh_node"
  on_neigh_list :: "nat list"
  on_neigh_next :: nat
  on_bcast_own :: "seqbits list"
  on_bcast_own_sum :: "u8 list"

record batadv_forw_packet =
  fw_send_time :: jiffies
  fw_own :: bool
  fw_skb :: "u8 list"
  fw_room :: nat
  fw_packet_len :: u16
  fw_direct_link_flags :: u32
  fw_num_packets :: u8
  fw_if_incoming :: "iface option"
  fw_if_outgoing :: "iface option"

text \<open>Calls to other components, with what they are given.\<close>

datatype ext_call =
  Call_tt_global_del_orig mac
  | Call_gw_node_delete mac
  | Call_gw_election
  | Call_frag_purge mac
  | Call_tt_local_commit_changes
  | Call_tvlv_ogm_receive "u8 list" mac
  | Call_nc_update_nc_node mac mac "u8 list" bool
  | Call_send_broadcast iface "u8 list"
  | Call_dat_init_own_addr iface
  | Call_bla_update_orig_address iface "iface option"
  | Call_tt_local_resize_to_mtu
  | Call_gw_check_client_stop
  | Call_softif_destroy_sysfs

record batadv_priv =
  bp_soft_iface :: nat
  bp_orig_hash :: "(mac \<times> batadv_orig_node) list"
  bp_iface :: "iface \<Rightarrow> batadv_hard_iface"
  bp_hardif_list :: "iface list"
  bp_primary_if :: "iface option"
  bp_num_ifaces :: nat
  bp_hop_penalty :: int
  bp_orig_interval :: u32
  bp_fragmentation :: bool
  bp_packet_size_max :: int
  bp_soft_mtu :: int
  bp_aggregated_ogms :: bool
  bp_mesh_state :: batadv_mesh_state
  bp_batman_queue_left :: nat
  bp_forw_bat_list :: "batadv_forw_packet list"
  bp_bcast_queue_left :: nat
  bp_forw_bcast_list :: "batadv_forw_packet list"
  bp_panic :: bool
  bp_calls :: "ext_call list"

text \<open>A network device that becomes known (\<^verbatim>\<open>batadv_hardif_add_interface\<close>).\<close>

definition hardif_init :: "mac \<Rightarrow> bool \<Rightarrow> int \<Rightarrow> batadv_hard_iface" where
  "hardif_init dev_addr wifi mtu =
     \<lparr>hi_if_num = -1, hi_if_status = BATADV_IF_NOT_IN_USE, hi_dev_addr = dev_addr, hi_soft_iface = None,
      hi_wifi = wifi, hi_ogm_buff = [], hi_ogm_buff_len = 0, hi_ogm_seqno = 0, hi_neigh_list = [],
      hi_num_bcasts = (if wifi then BATADV_NUM_BCASTS_WIRELESS else BATADV_NUM_BCASTS_DEFAULT),
      hi_mtu = mtu\<rparr>"

text \<open>The values of \<^verbatim>\<open>batadv_softif_init_late\<close>, for given network interfaces.\<close>

definition priv_init :: "nat \<Rightarrow> (iface \<Rightarrow> batadv_hard_iface) \<Rightarrow> iface list \<Rightarrow> batadv_priv" where
  "priv_init soft_iface ifaces hardif_list =
     \<lparr>bp_soft_iface = soft_iface, bp_orig_hash = [], bp_iface = ifaces, bp_hardif_list = hardif_list,
      bp_primary_if = None, bp_num_ifaces = 0, bp_hop_penalty = 30, bp_orig_interval = 1000,
      bp_fragmentation = True, bp_packet_size_max = 1500, bp_soft_mtu = 1500,
      bp_aggregated_ogms = True, bp_mesh_state = BATADV_MESH_INACTIVE,
      bp_batman_queue_left = BATADV_BATMAN_QUEUE_LEN, bp_forw_bat_list = [],
      bp_bcast_queue_left = BATADV_BCAST_QUEUE_LEN, bp_forw_bcast_list = [], bp_panic = False,
      bp_calls = []\<rparr>"

datatype alloc_site =
  Alloc_Orig_Node mac | Alloc_Orig_Vlan mac | Alloc_Bcast_Own mac | Alloc_Bcast_Own_Sum mac
  | Alloc_Hardif_Neigh iface mac | Alloc_Neigh_Node mac iface mac
  | Alloc_Neigh_Ifinfo mac if_out | Alloc_Orig_Ifinfo if_out
  | Alloc_Skb_Copy if_out | Alloc_Forw_Packet | Alloc_Forw_Skb | Alloc_Skb_Clone

section \<open>References\<close>

definition orig_at :: "batadv_priv \<Rightarrow> mac \<Rightarrow> batadv_orig_node" where
  "orig_at st a = the (map_of (bp_orig_hash st) a)"

definition upd_orig :: "mac \<Rightarrow> (batadv_orig_node \<Rightarrow> batadv_orig_node) \<Rightarrow> batadv_priv \<Rightarrow> batadv_priv" where
  "upd_orig a f st = st\<lparr>bp_orig_hash := AList.update a (f (orig_at st a)) (bp_orig_hash st)\<rparr>"

definition upd_neigh :: "nat \<Rightarrow> (batadv_neigh_node \<Rightarrow> batadv_neigh_node) \<Rightarrow> batadv_orig_node \<Rightarrow> batadv_orig_node" where
  "upd_neigh n f orig_node = orig_node\<lparr>on_neigh := (on_neigh orig_node)(n := f (on_neigh orig_node n))\<rparr>"

definition upd_iface :: "iface \<Rightarrow> (batadv_hard_iface \<Rightarrow> batadv_hard_iface) \<Rightarrow> batadv_priv \<Rightarrow> batadv_priv" where
  "upd_iface i f st = st\<lparr>bp_iface := (bp_iface st)(i := f (bp_iface st i))\<rparr>"

definition ext_call :: "ext_call \<Rightarrow> batadv_priv \<Rightarrow> batadv_priv" where
  "ext_call c st = st\<lparr>bp_calls := bp_calls st @ [c]\<rparr>"

section \<open>Looking up and creating\<close>

definition batadv_orig_hash_find :: "batadv_priv \<Rightarrow> mac \<Rightarrow> batadv_orig_node option" where
  "batadv_orig_hash_find st data = map_of (bp_orig_hash st) data"

definition batadv_orig_router_get :: "batadv_orig_node \<Rightarrow> if_out \<Rightarrow> nat option" where
  "batadv_orig_router_get orig_node if_outgoing =
     (case map_of (on_ifinfo orig_node) if_outgoing of
        None \<Rightarrow> None
      | Some orig_ifinfo \<Rightarrow> oi_router orig_ifinfo)"

definition batadv_orig_ifinfo_get :: "batadv_orig_node \<Rightarrow> if_out \<Rightarrow> batadv_orig_ifinfo option" where
  "batadv_orig_ifinfo_get orig_node if_outgoing = map_of (on_ifinfo orig_node) if_outgoing"

definition batadv_orig_ifinfo_new ::
    "(alloc_site \<Rightarrow> bool) \<Rightarrow> (nat \<Rightarrow> jiffies) \<Rightarrow> jiffies \<Rightarrow> batadv_orig_node \<Rightarrow> if_out
      \<Rightarrow> batadv_orig_node \<times> bool" where
  "batadv_orig_ifinfo_new alloc m2j now orig_node if_outgoing =
     (case batadv_orig_ifinfo_get orig_node if_outgoing of
        Some _ \<Rightarrow> (orig_node, True)
      | None \<Rightarrow>
          if \<not> alloc (Alloc_Orig_Ifinfo if_outgoing) then (orig_node, False)
          else
            let reset_time = now - 1 - m2j BATADV_RESET_PROTECTION_MS;
                orig_ifinfo = \<lparr>oi_router = None, oi_last_real_seqno = 0, oi_last_ttl = 0,
                  oi_batman_seqno_reset = reset_time\<rparr>
            in (orig_node\<lparr>on_ifinfo := (if_outgoing, orig_ifinfo) # on_ifinfo orig_node\<rparr>, True))"

definition neigh_ifinfo_zero :: batadv_neigh_ifinfo where
  "neigh_ifinfo_zero = \<lparr>ni_tq_recv = replicate BATADV_TQ_GLOBAL_WINDOW_SIZE 0, ni_tq_index = 0,
     ni_tq_avg = 0, ni_real_bits = 0, ni_real_packet_count = 0, ni_last_ttl = 0\<rparr>"

definition batadv_neigh_ifinfo_get :: "batadv_neigh_node \<Rightarrow> if_out \<Rightarrow> batadv_neigh_ifinfo option" where
  "batadv_neigh_ifinfo_get neigh if_outgoing = map_of (nn_ifinfo neigh) if_outgoing"

definition batadv_neigh_ifinfo_new ::
    "(alloc_site \<Rightarrow> bool) \<Rightarrow> batadv_neigh_node \<Rightarrow> if_out \<Rightarrow> batadv_neigh_node \<times> bool" where
  "batadv_neigh_ifinfo_new alloc neigh if_outgoing =
     (case batadv_neigh_ifinfo_get neigh if_outgoing of
        Some _ \<Rightarrow> (neigh, True)
      | None \<Rightarrow>
          if \<not> alloc (Alloc_Neigh_Ifinfo (nn_addr neigh) if_outgoing) then (neigh, False)
          else (neigh\<lparr>nn_ifinfo := (if_outgoing, neigh_ifinfo_zero) # nn_ifinfo neigh\<rparr>, True))"

definition batadv_neigh_node_get :: "batadv_orig_node \<Rightarrow> iface \<Rightarrow> mac \<Rightarrow> nat option" where
  "batadv_neigh_node_get orig_node hard_iface addr =
     List.find (\<lambda>n. nn_addr (on_neigh orig_node n) = addr
       \<and> nn_if_incoming (on_neigh orig_node n) = hard_iface) (on_neigh_list orig_node)"

definition batadv_hardif_neigh_get :: "batadv_hard_iface \<Rightarrow> mac \<Rightarrow> batadv_hardif_neigh_node option" where
  "batadv_hardif_neigh_get hard_iface neigh_addr =
     List.find (\<lambda>h. hn_addr h = neigh_addr) (hi_neigh_list hard_iface)"

definition batadv_hardif_neigh_create ::
    "(alloc_site \<Rightarrow> bool) \<Rightarrow> jiffies \<Rightarrow> iface \<Rightarrow> mac \<Rightarrow> batadv_priv \<Rightarrow> batadv_priv \<times> bool" where
  "batadv_hardif_neigh_create alloc now hard_iface neigh_addr st =
     (case batadv_hardif_neigh_get (bp_iface st hard_iface) neigh_addr of
        Some _ \<Rightarrow> (st, True)
      | None \<Rightarrow>
          if \<not> alloc (Alloc_Hardif_Neigh hard_iface neigh_addr) then (st, False)
          else (upd_iface hard_iface (\<lambda>h. h\<lparr>hi_neigh_list :=
                  \<lparr>hn_addr = neigh_addr, hn_last_seen = now\<rparr> # hi_neigh_list h\<rparr>) st, True))"

definition batadv_hardif_neigh_get_or_create ::
    "(alloc_site \<Rightarrow> bool) \<Rightarrow> jiffies \<Rightarrow> iface \<Rightarrow> mac \<Rightarrow> batadv_priv \<Rightarrow> batadv_priv \<times> bool" where
  "batadv_hardif_neigh_get_or_create alloc now hard_iface neigh_addr st =
     (case batadv_hardif_neigh_get (bp_iface st hard_iface) neigh_addr of
        Some _ \<Rightarrow> (st, True)
      | None \<Rightarrow> batadv_hardif_neigh_create alloc now hard_iface neigh_addr st)"

definition batadv_neigh_node_new ::
    "(alloc_site \<Rightarrow> bool) \<Rightarrow> jiffies \<Rightarrow> mac \<Rightarrow> iface \<Rightarrow> mac \<Rightarrow> batadv_priv \<Rightarrow> batadv_priv \<times> nat option" where
  "batadv_neigh_node_new alloc now orig_node hard_iface neigh_addr st =
     (case batadv_neigh_node_get (orig_at st orig_node) hard_iface neigh_addr of
        Some n \<Rightarrow> (st, Some n)
      | None \<Rightarrow>
          (case batadv_hardif_neigh_get_or_create alloc now hard_iface neigh_addr st of
             (st, False) \<Rightarrow> (st, None)
           | (st, True) \<Rightarrow>
               if \<not> alloc (Alloc_Neigh_Node orig_node hard_iface neigh_addr) then (st, None)
               else
                 let n = on_neigh_next (orig_at st orig_node);
                     neigh_node = \<lparr>nn_orig_node = orig_node, nn_addr = neigh_addr, nn_ifinfo = [],
                       nn_if_incoming = hard_iface, nn_last_seen = now\<rparr>
                 in (upd_orig orig_node (\<lambda>on. on\<lparr>on_neigh := (on_neigh on)(n := neigh_node),
                        on_neigh_list := n # on_neigh_list on, on_neigh_next := n + 1\<rparr>) st, Some n)))"

text \<open>A new originator; the members that belong to other components are not part of the record.\<close>

definition batadv_orig_node_new ::
    "(alloc_site \<Rightarrow> bool) \<Rightarrow> jiffies \<Rightarrow> mac \<Rightarrow> batadv_orig_node option" where
  "batadv_orig_node_new alloc now addr =
     (if \<not> alloc (Alloc_Orig_Node addr) then None
      else if \<not> alloc (Alloc_Orig_Vlan addr) then None
      else Some \<lparr>on_orig = addr, on_ifinfo = [], on_last_seen = now,
        on_neigh = (\<lambda>_. \<lparr>nn_orig_node = 0, nn_addr = 0, nn_ifinfo = [], nn_if_incoming = 0, nn_last_seen = 0\<rparr>),
        on_neigh_list = [], on_neigh_next = 0, on_bcast_own = [], on_bcast_own_sum = []\<rparr>)"

section \<open>Routes\<close>

definition batadv_update_route1 :: "mac \<Rightarrow> if_out \<Rightarrow> nat option \<Rightarrow> batadv_priv \<Rightarrow> batadv_priv" where
  "batadv_update_route1 orig_node recv_if neigh_node st =
     (case batadv_orig_ifinfo_get (orig_at st orig_node) recv_if of
        None \<Rightarrow> st
      | Some orig_ifinfo \<Rightarrow>
          let curr_router = oi_router orig_ifinfo;
              st = (if curr_router \<noteq> None \<and> neigh_node = None
                    then ext_call (Call_tt_global_del_orig orig_node) st else st)
          in upd_orig orig_node (\<lambda>on. on\<lparr>on_ifinfo :=
               AList.update recv_if (orig_ifinfo\<lparr>oi_router := neigh_node\<rparr>) (on_ifinfo on)\<rparr>) st)"

definition batadv_update_route :: "mac \<Rightarrow> if_out \<Rightarrow> nat option \<Rightarrow> batadv_priv \<Rightarrow> batadv_priv" where
  "batadv_update_route orig_node recv_if neigh_node st =
     (let router = batadv_orig_router_get (orig_at st orig_node) recv_if
      in if router \<noteq> neigh_node then batadv_update_route1 orig_node recv_if neigh_node st else st)"

section \<open>Purging\<close>

definition if_going_down :: "batadv_hard_iface \<Rightarrow> bool" where
  "if_going_down h \<longleftrightarrow> hi_if_status h = BATADV_IF_INACTIVE \<or> hi_if_status h = BATADV_IF_NOT_IN_USE
     \<or> hi_if_status h = BATADV_IF_TO_BE_REMOVED"

definition ifinfo_obsolete :: "batadv_priv \<Rightarrow> if_out \<Rightarrow> bool" where
  "ifinfo_obsolete st if_outgoing =
     (case if_outgoing of None \<Rightarrow> False | Some i \<Rightarrow> if_going_down (bp_iface st i))"

definition batadv_purge_neigh_ifinfo :: "batadv_priv \<Rightarrow> batadv_neigh_node \<Rightarrow> batadv_neigh_node" where
  "batadv_purge_neigh_ifinfo st neigh =
     neigh\<lparr>nn_ifinfo := filter (\<lambda>(if_outgoing, _). \<not> ifinfo_obsolete st if_outgoing) (nn_ifinfo neigh)\<rparr>"

definition batadv_purge_orig_ifinfo :: "batadv_priv \<Rightarrow> batadv_orig_node \<Rightarrow> batadv_orig_node \<times> bool" where
  "batadv_purge_orig_ifinfo st orig_node =
     (orig_node\<lparr>on_ifinfo := filter (\<lambda>(if_outgoing, _). \<not> ifinfo_obsolete st if_outgoing) (on_ifinfo orig_node)\<rparr>,
      list_ex (\<lambda>(if_outgoing, _). ifinfo_obsolete st if_outgoing) (on_ifinfo orig_node))"

definition neigh_obsolete :: "(nat \<Rightarrow> jiffies) \<Rightarrow> jiffies \<Rightarrow> batadv_priv \<Rightarrow> batadv_neigh_node \<Rightarrow> bool" where
  "neigh_obsolete m2j now st neigh \<longleftrightarrow>
     batadv_has_timed_out m2j now (nn_last_seen neigh) BATADV_PURGE_TIMEOUT
     \<or> if_going_down (bp_iface st (nn_if_incoming neigh))"

fun purge_neighbors ::
    "(nat \<Rightarrow> jiffies) \<Rightarrow> jiffies \<Rightarrow> batadv_priv \<Rightarrow> nat list \<Rightarrow> batadv_orig_node \<Rightarrow> batadv_orig_node \<times> bool" where
  "purge_neighbors m2j now st [] orig_node = (orig_node, False)"
| "purge_neighbors m2j now st (n # ns) orig_node =
     (if neigh_obsolete m2j now st (on_neigh orig_node n) then
        (fst (purge_neighbors m2j now st ns (orig_node\<lparr>on_neigh_list := remove1 n (on_neigh_list orig_node)\<rparr>)), True)
      else purge_neighbors m2j now st ns (upd_neigh n (batadv_purge_neigh_ifinfo st) orig_node))"

definition batadv_purge_orig_neighbors ::
    "(nat \<Rightarrow> jiffies) \<Rightarrow> jiffies \<Rightarrow> batadv_priv \<Rightarrow> batadv_orig_node \<Rightarrow> batadv_orig_node \<times> bool" where
  "batadv_purge_orig_neighbors m2j now st orig_node =
     purge_neighbors m2j now st (on_neigh_list orig_node) orig_node"

type_synonym neigh_cmp = "batadv_neigh_node \<Rightarrow> if_out \<Rightarrow> batadv_neigh_node \<Rightarrow> if_out \<Rightarrow> int"

fun find_best :: "neigh_cmp \<Rightarrow> (nat \<Rightarrow> batadv_neigh_node) \<Rightarrow> if_out \<Rightarrow> nat list \<Rightarrow> nat option \<Rightarrow> nat option" where
  "find_best cmp neigh if_outgoing [] best = best"
| "find_best cmp neigh if_outgoing (n # ns) best =
     find_best cmp neigh if_outgoing ns
       (case best of
          None \<Rightarrow> Some n
        | Some b \<Rightarrow> if cmp (neigh n) if_outgoing (neigh b) if_outgoing \<le> 0 then Some b else Some n)"

definition batadv_find_best_neighbor :: "neigh_cmp \<Rightarrow> batadv_orig_node \<Rightarrow> if_out \<Rightarrow> nat option" where
  "batadv_find_best_neighbor cmp orig_node if_outgoing =
     find_best cmp (on_neigh orig_node) if_outgoing (on_neigh_list orig_node) None"

definition batadv_purge_orig_node ::
    "(nat \<Rightarrow> jiffies) \<Rightarrow> jiffies \<Rightarrow> neigh_cmp \<Rightarrow> mac \<Rightarrow> batadv_priv \<Rightarrow> batadv_priv \<times> bool" where
  "batadv_purge_orig_node m2j now cmp orig_node st =
     (if batadv_has_timed_out m2j now (on_last_seen (orig_at st orig_node)) (2 * BATADV_PURGE_TIMEOUT)
      then (st, True)
      else
        let (on1, changed_ifinfo) = batadv_purge_orig_ifinfo st (orig_at st orig_node);
            (on2, changed_neigh) = batadv_purge_orig_neighbors m2j now st on1;
            st = upd_orig orig_node (\<lambda>_. on2) st
        in if \<not> changed_ifinfo \<and> \<not> changed_neigh then (st, False)
           else
             let route = (\<lambda>ifo st. batadv_update_route orig_node ifo
                            (batadv_find_best_neighbor cmp (orig_at st orig_node) ifo) st);
                 st = route BATADV_IF_DEFAULT st;
                 active = filter (\<lambda>i. hi_if_status (bp_iface st i) = BATADV_IF_ACTIVE
                            \<and> hi_soft_iface (bp_iface st i) = Some (bp_soft_iface st)) (bp_hardif_list st)
             in (fold (\<lambda>i. route (Some i)) active st, False))"

fun purge_origs ::
    "(nat \<Rightarrow> jiffies) \<Rightarrow> jiffies \<Rightarrow> neigh_cmp \<Rightarrow> mac list \<Rightarrow> batadv_priv \<Rightarrow> batadv_priv" where
  "purge_origs m2j now cmp [] st = st"
| "purge_origs m2j now cmp (a # as) st =
     (case batadv_purge_orig_node m2j now cmp a st of
        (st, True) \<Rightarrow>
          let st = ext_call (Call_gw_node_delete a) st;
              st = st\<lparr>bp_orig_hash := AList.delete a (bp_orig_hash st)\<rparr>
          in purge_origs m2j now cmp as (ext_call (Call_tt_global_del_orig a) st)
      | (st, False) \<Rightarrow> purge_origs m2j now cmp as (ext_call (Call_frag_purge a) st))"

definition batadv_purge_orig :: "(nat \<Rightarrow> jiffies) \<Rightarrow> jiffies \<Rightarrow> neigh_cmp \<Rightarrow> batadv_priv \<Rightarrow> batadv_priv" where
  "batadv_purge_orig m2j now cmp st =
     ext_call Call_gw_election (purge_origs m2j now cmp (map fst (bp_orig_hash st)) st)"

section \<open>Adding and removing interfaces\<close>

abbreviation (input) ENOMEM :: int where "ENOMEM \<equiv> 12"

fun orig_hash_add_if ::
    "(batadv_orig_node \<Rightarrow> nat \<Rightarrow> batadv_orig_node \<times> int) \<Rightarrow> nat \<Rightarrow> (mac \<times> batadv_orig_node) list
      \<Rightarrow> (mac \<times> batadv_orig_node) list \<times> int" where
  "orig_hash_add_if bat_orig_add_if max_if_num [] = ([], 0)"
| "orig_hash_add_if bat_orig_add_if max_if_num ((a, on) # ons) =
     (let (on, ret) = bat_orig_add_if on max_if_num
      in if ret = - ENOMEM then ((a, on) # ons, - ENOMEM)
         else let (ons, ret) = orig_hash_add_if bat_orig_add_if max_if_num ons in ((a, on) # ons, ret))"

definition batadv_orig_hash_add_if ::
    "(batadv_orig_node \<Rightarrow> nat \<Rightarrow> batadv_orig_node \<times> int) \<Rightarrow> nat \<Rightarrow> batadv_priv \<Rightarrow> batadv_priv \<times> int" where
  "batadv_orig_hash_add_if bat_orig_add_if max_if_num st =
     (let (h, ret) = orig_hash_add_if bat_orig_add_if max_if_num (bp_orig_hash st)
      in (st\<lparr>bp_orig_hash := h\<rparr>, ret))"

text \<open>The loop that moves the interface numbers behind \<open>if_num\<close> down.\<close>

definition renumber :: "iface \<Rightarrow> int \<Rightarrow> iface \<Rightarrow> batadv_priv \<Rightarrow> batadv_priv" where
  "renumber hard_iface if_num i st =
     (let h = bp_iface st i in
      if hi_if_status h = BATADV_IF_NOT_IN_USE then st
      else if hard_iface = i then st
      else if hi_soft_iface (bp_iface st hard_iface) \<noteq> hi_soft_iface h then st
      else if hi_if_num h > if_num then upd_iface i (\<lambda>h. h\<lparr>hi_if_num := hi_if_num h - 1\<rparr>) st
      else st)"

definition batadv_orig_hash_del_if ::
    "(batadv_orig_node \<Rightarrow> nat \<Rightarrow> int \<Rightarrow> batadv_orig_node \<times> int) \<Rightarrow> iface \<Rightarrow> nat \<Rightarrow> batadv_priv
      \<Rightarrow> batadv_priv \<times> int" where
  "batadv_orig_hash_del_if bat_orig_del_if hard_iface max_if_num st =
     (let if_num = hi_if_num (bp_iface st hard_iface);
          (h, ret) = orig_hash_add_if (\<lambda>on m. bat_orig_del_if on m if_num) max_if_num (bp_orig_hash st);
          st = st\<lparr>bp_orig_hash := h\<rparr>
      in if ret = - ENOMEM then (st, - ENOMEM)
         else
           let st = fold (renumber hard_iface if_num) (bp_hardif_list st) st
           in (upd_iface hard_iface (\<lambda>h. h\<lparr>hi_if_num := -1\<rparr>) st, 0))"

end
