(* ===== verification/Bytes.thy ===== *)
theory Bytes
  imports Prelude
begin

text \<open>
  Packet bytes. Multi-byte fields of the packets of the mesh protocol are big-endian; the
  code reads and writes them in place through packed structures, with \<^verbatim>\<open>ntohs\<close>, \<^verbatim>\<open>htonl\<close> and
  the like. \<open>be_bytes n w\<close> are the \<open>n\<close> bytes of a field, \<open>be_word\<close> reads one.
\<close>

fun be_bytes :: "nat \<Rightarrow> 'a::len word \<Rightarrow> u8 list" where
  "be_bytes 0 w = []"
| "be_bytes (Suc n) w = be_bytes n (drop_bit 8 w) @ [ucast w]"

definition be_word :: "u8 list \<Rightarrow> 'a::len word" where
  "be_word bs = foldl (\<lambda>w b. push_bit 8 w OR ucast b) 0 bs"

lemma length_be_bytes [simp]: "length (be_bytes n w) = n"
  by (induction n arbitrary: w) auto

lemma be_word_Nil [simp]: "be_word [] = 0"
  by (simp add: be_word_def)

lemma be_word_snoc: "be_word (bs @ [b]) = push_bit 8 (be_word bs) OR ucast b"
  by (simp add: be_word_def)

lemma be_word_be_bytes: "be_word (be_bytes n w) = take_bit (8 * n) (w :: 'a::len word)"
proof (induction n arbitrary: w)
  case 0
  then show ?case by simp
next
  case (Suc n)
  have "push_bit 8 (take_bit (8 * n) (drop_bit 8 w)) OR ucast (ucast w :: u8) = take_bit (8 * Suc n) w"
    by (rule bit_word_eqI) (auto simp: bit_simps)
  then show ?case by (simp add: be_word_snoc Suc.IH)
qed

lemma be_word_full [simp]:
  "be_word (be_bytes 6 (w :: mac)) = w" "be_word (be_bytes 4 (v :: u32)) = v" "be_word (be_bytes 2 (u :: u16)) = u"
  by (simp_all add: be_word_be_bytes take_bit_word_eq_self)

text \<open>
  A linear packet buffer: \<open>length data\<close> is \<^verbatim>\<open>skb_headlen\<close>. The code sometimes computes the
  address of a structure that lies past the end; what is read there is the argument \<open>past\<close>.
\<close>

definition rd :: "(nat \<Rightarrow> u8) \<Rightarrow> u8 list \<Rightarrow> nat \<Rightarrow> u8" where
  "rd past data i = (if i < length data then data ! i else past i)"

definition rd_bytes :: "(nat \<Rightarrow> u8) \<Rightarrow> u8 list \<Rightarrow> nat \<Rightarrow> nat \<Rightarrow> u8 list" where
  "rd_bytes past data i n = map (rd past data) [i..<i + n]"

definition wr_bytes :: "u8 list \<Rightarrow> nat \<Rightarrow> u8 list \<Rightarrow> u8 list" where
  "wr_bytes data i bs = take i data @ bs @ drop (i + length bs) data"

lemma length_rd_bytes [simp]: "length (rd_bytes past data i n) = n"
  by (simp add: rd_bytes_def)

lemma rd_bytes_inside: "i + n \<le> length data \<Longrightarrow> rd_bytes past data i n = take n (drop i data)"
  by (rule nth_equalityI) (auto simp: rd_bytes_def rd_def)

lemma rd_bytes_append:
  "rd_bytes past (xs @ ys @ zs) (length xs) (length ys) = ys"
  by (simp add: rd_bytes_inside)

lemma rd_bytes_split: "rd_bytes past data i (m + n) = rd_bytes past data i m @ rd_bytes past data (i + m) n"
  using upt_add_eq_append [of i "i + m" n] by (simp add: rd_bytes_def add.assoc flip: map_append)

lemma length_wr_bytes [simp]: "i + length bs \<le> length data \<Longrightarrow> length (wr_bytes data i bs) = length data"
  by (simp add: wr_bytes_def)

lemma rd_wr_same:
  "i + length bs \<le> length data \<Longrightarrow> rd_bytes past (wr_bytes data i bs) i (length bs) = bs"
  by (simp add: rd_bytes_inside wr_bytes_def)

lemma rd_wr_before:
  assumes "j + n \<le> i" "i + length bs \<le> length data"
  shows "rd_bytes past (wr_bytes data i bs) j n = rd_bytes past data j n"
  using assms by (auto simp: rd_bytes_def rd_def wr_bytes_def nth_append)

lemma rd_wr_after:
  assumes "i + length bs \<le> j" "i + length bs \<le> length data"
  shows "rd_bytes past (wr_bytes data i bs) j n = rd_bytes past data j n"
  using assms by (auto simp: rd_bytes_def rd_def wr_bytes_def nth_append)

end
