(* ===== verification/Iv_Queue.thy ===== *)
theory Iv_Queue
  imports Originator Bytes "HOL-Library.Signed_Division"
begin

text \<open>
  The routing algorithm B.A.T.M.A.N. IV, first part of \<^verbatim>\<open>bat_iv_ogm.c\<close>: the message header, the
  ring buffer of qualities, the counters per interface, our own messages, and the queue in
  which messages wait and are aggregated. Messages are byte strings; \<open>ogm_at\<close> and \<open>ogm_bytes\<close>
  read and write the header.

  \<open>alloc\<close>, \<open>m2j\<close>, \<open>now\<close> are as in the originator theory, \<open>src\<close> is the source address of the
  Ethernet header, \<open>rnd\<close> a random number and \<open>past\<close> the memory behind a packet. A write past
  the end of a socket buffer (\<^verbatim>\<open>skb_over_panic\<close>) sets \<open>bp_panic\<close>.
\<close>

section \<open>The message header\<close>

abbreviation (input) BATADV_OGM_HLEN :: nat where "BATADV_OGM_HLEN \<equiv> 24"
abbreviation (input) BATADV_MAX_AGGREGATION_BYTES :: nat where "BATADV_MAX_AGGREGATION_BYTES \<equiv> 512"
abbreviation (input) BATADV_MAX_AGGREGATION_MS :: nat where "BATADV_MAX_AGGREGATION_MS \<equiv> 100"
abbreviation (input) BATADV_JITTER :: nat where "BATADV_JITTER \<equiv> 20"
abbreviation (input) BATADV_IV_OGM :: u8 where "BATADV_IV_OGM \<equiv> 0"
abbreviation (input) BATADV_NOT_BEST_NEXT_HOP :: nat where "BATADV_NOT_BEST_NEXT_HOP \<equiv> 0"
abbreviation (input) BATADV_DIRECTLINK :: nat where "BATADV_DIRECTLINK \<equiv> 2"
abbreviation (input) BATADV_TQ_LOCAL_BIDRECT_SEND_MINIMUM :: u8 where "BATADV_TQ_LOCAL_BIDRECT_SEND_MINIMUM \<equiv> 1"
abbreviation (input) BATADV_TQ_LOCAL_BIDRECT_RECV_MINIMUM :: u8 where "BATADV_TQ_LOCAL_BIDRECT_RECV_MINIMUM \<equiv> 1"
abbreviation (input) BATADV_TQ_TOTAL_BIDRECT_LIMIT :: u8 where "BATADV_TQ_TOTAL_BIDRECT_LIMIT \<equiv> 1"
abbreviation (input) BATADV_TQ_SIMILARITY_THRESHOLD :: int where "BATADV_TQ_SIMILARITY_THRESHOLD \<equiv> 50"

text \<open>The flag constants above are bit positions.\<close>

record batadv_ogm_packet =
  op_packet_type :: u8
  op_version :: u8
  op_ttl :: u8
  op_flags :: u8
  op_seqno :: u32
  op_orig :: mac
  op_prev_sender :: mac
  op_reserved :: u8
  op_tq :: u8
  op_tvlv_len :: u16

definition ogm_bytes :: "batadv_ogm_packet \<Rightarrow> u8 list" where
  "ogm_bytes h = [op_packet_type h, op_version h, op_ttl h, op_flags h] @ be_bytes 4 (op_seqno h)
     @ be_bytes 6 (op_orig h) @ be_bytes 6 (op_prev_sender h) @ [op_reserved h, op_tq h]
     @ be_bytes 2 (op_tvlv_len h)"

definition ogm_at :: "(nat \<Rightarrow> u8) \<Rightarrow> u8 list \<Rightarrow> nat \<Rightarrow> batadv_ogm_packet" where
  "ogm_at past data pos =
     \<lparr>op_packet_type = rd past data pos, op_version = rd past data (pos + 1),
      op_ttl = rd past data (pos + 2), op_flags = rd past data (pos + 3),
      op_seqno = be_word (rd_bytes past data (pos + 4) 4),
      op_orig = be_word (rd_bytes past data (pos + 8) 6),
      op_prev_sender = be_word (rd_bytes past data (pos + 14) 6),
      op_reserved = rd past data (pos + 20), op_tq = rd past data (pos + 21),
      op_tvlv_len = be_word (rd_bytes past data (pos + 22) 2)\<rparr>"

section \<open>The ring buffer of received qualities\<close>

definition batadv_ring_buffer_set :: "u8 list \<Rightarrow> u8 \<Rightarrow> u8 \<Rightarrow> u8 list \<times> u8" where
  "batadv_ring_buffer_set lq_recv lq_index value =
     (lq_recv[unat lq_index := value], of_nat ((unat lq_index + 1) mod BATADV_TQ_GLOBAL_WINDOW_SIZE))"

fun ring_buffer_scan :: "u8 list \<Rightarrow> u16 \<Rightarrow> u16 \<Rightarrow> u16 \<times> u16" where
  "ring_buffer_scan [] cnt acc = (cnt, acc)"
| "ring_buffer_scan (p # ps) cnt acc =
     (if p \<noteq> 0 then ring_buffer_scan ps (cnt + 1) (acc + ucast p) else ring_buffer_scan ps cnt acc)"

definition batadv_ring_buffer_avg :: "u8 list \<Rightarrow> u8" where
  "batadv_ring_buffer_avg lq_recv =
     (case ring_buffer_scan (take BATADV_TQ_GLOBAL_WINDOW_SIZE lq_recv) 0 0 of
        (cnt, acc) \<Rightarrow> if cnt = 0 then 0 else ucast (acc div cnt))"

section \<open>Counters per interface\<close>

text \<open>\<^verbatim>\<open>bcast_own\<close> has one bitmap, \<^verbatim>\<open>bcast_own_sum\<close> one weight per interface of the mesh.\<close>

definition batadv_iv_ogm_orig_add_if ::
    "bool \<Rightarrow> bool \<Rightarrow> seqbits \<Rightarrow> u8 \<Rightarrow> batadv_orig_node \<Rightarrow> nat \<Rightarrow> batadv_orig_node \<times> int" where
  "batadv_iv_ogm_orig_add_if own_ok sum_ok junk_bits junk_sum orig_node max_if_num =
     (if \<not> own_ok then (orig_node, - ENOMEM)
      else
        let orig_node = orig_node\<lparr>on_bcast_own := take (max_if_num - 1) (on_bcast_own orig_node) @ [junk_bits]\<rparr>
        in if \<not> sum_ok then (orig_node, - ENOMEM)
           else (orig_node\<lparr>on_bcast_own_sum := take (max_if_num - 1) (on_bcast_own_sum orig_node) @ [junk_sum]\<rparr>, 0))"

text \<open>The two copies that leave out one entry: the part before it and the part behind it.\<close>

definition copy_without :: "nat \<Rightarrow> nat \<Rightarrow> 'a list \<Rightarrow> 'a list" where
  "copy_without max_if_num del_if_num xs =
     take del_if_num xs @ take (max_if_num - del_if_num) (drop (del_if_num + 1) xs)"

text \<open>
  The third component of the result says that \<^verbatim>\<open>bcast_own\<close> was freed and still points to the
  freed memory.
\<close>

definition batadv_iv_ogm_orig_del_if ::
    "bool \<Rightarrow> bool \<Rightarrow> batadv_orig_node \<Rightarrow> nat \<Rightarrow> nat \<Rightarrow> batadv_orig_node \<times> int \<times> bool" where
  "batadv_iv_ogm_orig_del_if own_ok sum_ok orig_node max_if_num del_if_num =
     (if max_if_num = 0 then (orig_node\<lparr>on_bcast_own := [], on_bcast_own_sum := []\<rparr>, 0, False)
      else if \<not> own_ok then (orig_node, - ENOMEM, False)
      else
        let orig_node = orig_node\<lparr>on_bcast_own := copy_without max_if_num del_if_num (on_bcast_own orig_node)\<rparr>
        in if \<not> sum_ok then (orig_node, - ENOMEM, True)
           else (orig_node\<lparr>on_bcast_own_sum := copy_without max_if_num del_if_num (on_bcast_own_sum orig_node)\<rparr>,
                 0, False))"

definition batadv_iv_ogm_orig_get ::
    "(alloc_site \<Rightarrow> bool) \<Rightarrow> jiffies \<Rightarrow> mac \<Rightarrow> batadv_priv \<Rightarrow> batadv_priv \<times> mac option" where
  "batadv_iv_ogm_orig_get alloc now addr st =
     (case batadv_orig_hash_find st addr of
        Some _ \<Rightarrow> (st, Some addr)
      | None \<Rightarrow>
          (case batadv_orig_node_new alloc now addr of
             None \<Rightarrow> (st, None)
           | Some orig_node \<Rightarrow>
               if \<not> alloc (Alloc_Bcast_Own addr) then (st, None)
               else if \<not> alloc (Alloc_Bcast_Own_Sum addr) then (st, None)
               else
                 let orig_node = orig_node\<lparr>on_bcast_own := replicate (bp_num_ifaces st) 0,
                                           on_bcast_own_sum := replicate (bp_num_ifaces st) 0\<rparr>
                 in (st\<lparr>bp_orig_hash := (addr, orig_node) # bp_orig_hash st\<rparr>, Some addr)))"

definition batadv_iv_ogm_neigh_new ::
    "(alloc_site \<Rightarrow> bool) \<Rightarrow> jiffies \<Rightarrow> iface \<Rightarrow> mac \<Rightarrow> mac \<Rightarrow> mac \<Rightarrow> batadv_priv \<Rightarrow> batadv_priv \<times> nat option" where
  "batadv_iv_ogm_neigh_new alloc now hard_iface neigh_addr orig_node orig_neigh st =
     (case batadv_neigh_node_new alloc now orig_node hard_iface neigh_addr st of
        (st, None) \<Rightarrow> (st, None)
      | (st, Some n) \<Rightarrow>
          (upd_orig orig_node (upd_neigh n (\<lambda>neigh. neigh\<lparr>nn_orig_node := orig_neigh\<rparr>)) st, Some n))"

section \<open>Our own messages\<close>

text \<open>\<open>junk\<close> is the content of the newly allocated buffer.\<close>

definition batadv_iv_ogm_iface_enable ::
    "bool \<Rightarrow> u8 list \<Rightarrow> u32 \<Rightarrow> iface \<Rightarrow> batadv_priv \<Rightarrow> batadv_priv \<times> int" where
  "batadv_iv_ogm_iface_enable alloc_ok junk random_seqno hard_iface st =
     (let st = upd_iface hard_iface (\<lambda>h. h\<lparr>hi_ogm_buff_len := int BATADV_OGM_HLEN, hi_ogm_seqno := random_seqno\<rparr>) st
      in if \<not> alloc_ok then (st, - ENOMEM)
         else
           let packet = (ogm_at (\<lambda>_. 0) junk 0)\<lparr>op_packet_type := BATADV_IV_OGM,
                 op_version := BATADV_COMPAT_VERSION, op_ttl := 2, op_flags := 0, op_reserved := 0,
                 op_tq := of_nat BATADV_TQ_MAX_VALUE\<rparr>
           in (upd_iface hard_iface (\<lambda>h. h\<lparr>hi_ogm_buff := ogm_bytes packet\<rparr>) st, 0))"

definition batadv_iv_ogm_iface_disable :: "iface \<Rightarrow> batadv_priv \<Rightarrow> batadv_priv" where
  "batadv_iv_ogm_iface_disable hard_iface = upd_iface hard_iface (\<lambda>h. h\<lparr>hi_ogm_buff := []\<rparr>)"

definition ogm_modify :: "(batadv_ogm_packet \<Rightarrow> batadv_ogm_packet) \<Rightarrow> u8 list \<Rightarrow> u8 list" where
  "ogm_modify f buff = wr_bytes buff 0 (ogm_bytes (f (ogm_at (\<lambda>_. 0) buff 0)))"

definition batadv_iv_ogm_iface_update_mac :: "iface \<Rightarrow> batadv_priv \<Rightarrow> batadv_priv" where
  "batadv_iv_ogm_iface_update_mac hard_iface = upd_iface hard_iface (\<lambda>h. h\<lparr>hi_ogm_buff :=
     ogm_modify (\<lambda>p. p\<lparr>op_orig := hi_dev_addr h, op_prev_sender := hi_dev_addr h\<rparr>) (hi_ogm_buff h)\<rparr>)"

definition batadv_iv_ogm_primary_iface_set :: "iface \<Rightarrow> batadv_priv \<Rightarrow> batadv_priv" where
  "batadv_iv_ogm_primary_iface_set hard_iface = upd_iface hard_iface (\<lambda>h. h\<lparr>hi_ogm_buff :=
     ogm_modify (\<lambda>p. p\<lparr>op_ttl := of_nat BATADV_TTL\<rparr>) (hi_ogm_buff h)\<rparr>)"

definition batadv_iv_ogm_emit_send_time :: "(nat \<Rightarrow> jiffies) \<Rightarrow> jiffies \<Rightarrow> u32 \<Rightarrow> batadv_priv \<Rightarrow> jiffies" where
  "batadv_iv_ogm_emit_send_time m2j now rnd st =
     (let msecs = bp_orig_interval st - of_nat BATADV_JITTER + rnd mod of_nat (2 * BATADV_JITTER)
      in now + m2j (unat msecs))"

definition batadv_iv_ogm_fwd_send_time :: "(nat \<Rightarrow> jiffies) \<Rightarrow> jiffies \<Rightarrow> u32 \<Rightarrow> jiffies" where
  "batadv_iv_ogm_fwd_send_time m2j now rnd = now + m2j (unat (rnd mod of_nat (BATADV_JITTER div 2)))"

definition batadv_hop_penalty :: "u8 \<Rightarrow> batadv_priv \<Rightarrow> u8" where
  "batadv_hop_penalty tq st =
     (let new_tq = int (unat tq) * (int BATADV_TQ_MAX_VALUE - bp_hop_penalty st)
      in of_int (new_tq sdiv int BATADV_TQ_MAX_VALUE))"

section \<open>Aggregation\<close>

definition batadv_iv_ogm_aggr_packet :: "nat \<Rightarrow> nat \<Rightarrow> u16 \<Rightarrow> bool" where
  "batadv_iv_ogm_aggr_packet buff_pos packet_len tvlv_len =
     (let next_buff_pos = buff_pos + BATADV_OGM_HLEN + unat tvlv_len
      in next_buff_pos \<le> packet_len \<and> next_buff_pos \<le> BATADV_MAX_AGGREGATION_BYTES)"

text \<open>The loop of \<^verbatim>\<open>batadv_iv_ogm_send_to_if\<close>: the direct link flag of every message in the packet.\<close>

function adjust_flags ::
    "(nat \<Rightarrow> u8) \<Rightarrow> u32 \<Rightarrow> bool \<Rightarrow> nat \<Rightarrow> u8 list \<Rightarrow> nat \<Rightarrow> u8 \<Rightarrow> u8 list" where
  "adjust_flags past direct_link_flags same_if packet_len data buff_pos packet_num =
     (let h = ogm_at past data buff_pos in
      if batadv_iv_ogm_aggr_packet buff_pos packet_len (op_tvlv_len h) then
        let flags = (if bit direct_link_flags (unat packet_num) \<and> same_if
                     then set_bit BATADV_DIRECTLINK (op_flags h) else unset_bit BATADV_DIRECTLINK (op_flags h))
        in adjust_flags past direct_link_flags same_if packet_len
             (wr_bytes data buff_pos (ogm_bytes (h\<lparr>op_flags := flags\<rparr>)))
             (buff_pos + BATADV_OGM_HLEN + unat (op_tvlv_len h)) (packet_num + 1)
      else data)"
  by pat_completeness auto
termination
  by (relation "measure (\<lambda>(_, _, _, _, _, pos, _). 513 - pos)")
     (auto simp: batadv_iv_ogm_aggr_packet_def)

declare adjust_flags.simps [simp del]

definition batadv_iv_ogm_send_to_if ::
    "(alloc_site \<Rightarrow> bool) \<Rightarrow> (nat \<Rightarrow> u8) \<Rightarrow> batadv_forw_packet \<Rightarrow> iface \<Rightarrow> batadv_priv
      \<Rightarrow> batadv_forw_packet \<times> batadv_priv" where
  "batadv_iv_ogm_send_to_if alloc past forw_packet hard_iface st =
     (if hi_if_status (bp_iface st hard_iface) \<noteq> BATADV_IF_ACTIVE then (forw_packet, st)
      else
        let data = adjust_flags past (fw_direct_link_flags forw_packet)
              (fw_if_incoming forw_packet = Some hard_iface) (unat (fw_packet_len forw_packet))
              (fw_skb forw_packet) 0 0
        in (forw_packet\<lparr>fw_skb := data\<rparr>,
            if alloc Alloc_Skb_Clone then ext_call (Call_send_broadcast hard_iface data) st else st))"

definition batadv_iv_ogm_emit ::
    "(alloc_site \<Rightarrow> bool) \<Rightarrow> (nat \<Rightarrow> u8) \<Rightarrow> batadv_forw_packet \<Rightarrow> batadv_priv
      \<Rightarrow> batadv_forw_packet \<times> batadv_priv" where
  "batadv_iv_ogm_emit alloc past forw_packet st =
     (case fw_if_incoming forw_packet of
        None \<Rightarrow> (forw_packet, st)
      | Some if_incoming \<Rightarrow>
          (case fw_if_outgoing forw_packet of
             None \<Rightarrow> (forw_packet, st)
           | Some if_outgoing \<Rightarrow>
               if hi_soft_iface (bp_iface st if_outgoing) \<noteq> hi_soft_iface (bp_iface st if_incoming)
               then (forw_packet, st)
               else if hi_if_status (bp_iface st if_incoming) \<noteq> BATADV_IF_ACTIVE then (forw_packet, st)
               else if bp_primary_if st = None then (forw_packet, st)
               else batadv_iv_ogm_send_to_if alloc past forw_packet if_outgoing st))"

definition batadv_iv_ogm_can_aggregate ::
    "(nat \<Rightarrow> jiffies) \<Rightarrow> batadv_ogm_packet \<Rightarrow> batadv_priv \<Rightarrow> nat \<Rightarrow> jiffies \<Rightarrow> bool \<Rightarrow> iface \<Rightarrow> iface
      \<Rightarrow> batadv_forw_packet \<Rightarrow> bool" where
  "batadv_iv_ogm_can_aggregate m2j new_bat_ogm_packet st packet_len send_time directlink if_incoming
       if_outgoing forw_packet =
     (let aggregated_bytes = unat (fw_packet_len forw_packet) + packet_len;
          ogm_packet = ogm_at (\<lambda>_. 0) (fw_skb forw_packet) 0;
          aggregation_end_time = send_time + m2j BATADV_MAX_AGGREGATION_MS
      in if \<not> time_before send_time (fw_send_time forw_packet)
            \<or> \<not> time_after_eq aggregation_end_time (fw_send_time forw_packet) then False
         else if aggregated_bytes > BATADV_MAX_AGGREGATION_BYTES then False
         else if fw_if_outgoing forw_packet \<noteq> Some if_outgoing then False
         else if bp_primary_if st = None then False
         else if \<not> directlink \<and> \<not> bit (op_flags ogm_packet) BATADV_DIRECTLINK \<and> op_ttl ogm_packet \<noteq> 1
            \<and> (\<not> fw_own forw_packet \<or> fw_if_incoming forw_packet = bp_primary_if st) then True
         else if directlink \<and> op_ttl new_bat_ogm_packet = 1 \<and> fw_if_incoming forw_packet = Some if_incoming
            \<and> (bit (op_flags ogm_packet) BATADV_DIRECTLINK
               \<or> (fw_own forw_packet \<and> fw_if_incoming forw_packet \<noteq> bp_primary_if st)) then True
         else False)"

text \<open>
  A new packet in the queue. \<open>fw_room\<close> is the room that is asked for behind the message; what the
  allocator may add to it by rounding is not counted.
\<close>

definition batadv_iv_ogm_aggregate_new ::
    "(alloc_site \<Rightarrow> bool) \<Rightarrow> u8 list \<Rightarrow> nat \<Rightarrow> jiffies \<Rightarrow> bool \<Rightarrow> iface \<Rightarrow> iface \<Rightarrow> bool
      \<Rightarrow> batadv_priv \<Rightarrow> batadv_priv" where
  "batadv_iv_ogm_aggregate_new alloc packet_buff packet_len send_time direct_link if_incoming if_outgoing
       own_packet st =
     (if \<not> own_packet \<and> bp_batman_queue_left st = 0 then st
      else if \<not> alloc Alloc_Forw_Packet then st
      else if \<not> alloc Alloc_Forw_Skb then st
      else
        let skb_size = (if bp_aggregated_ogms st \<and> packet_len < BATADV_MAX_AGGREGATION_BYTES
                        then BATADV_MAX_AGGREGATION_BYTES else packet_len);
            forw_packet_aggr =
              \<lparr>fw_send_time = send_time, fw_own = own_packet, fw_skb = take packet_len packet_buff,
               fw_room = skb_size - packet_len, fw_packet_len = of_nat packet_len,
               fw_direct_link_flags = (if direct_link then 1 else 0), fw_num_packets = 0,
               fw_if_incoming = Some if_incoming, fw_if_outgoing = Some if_outgoing\<rparr>
        in st\<lparr>bp_batman_queue_left := (if own_packet then bp_batman_queue_left st else bp_batman_queue_left st - 1),
              bp_forw_bat_list := forw_packet_aggr # bp_forw_bat_list st\<rparr>)"

text \<open>The second component says that the message did not fit behind the packet.\<close>

definition batadv_iv_ogm_aggregate ::
    "batadv_forw_packet \<Rightarrow> u8 list \<Rightarrow> nat \<Rightarrow> bool \<Rightarrow> batadv_forw_packet \<times> bool" where
  "batadv_iv_ogm_aggregate forw_packet_aggr packet_buff packet_len direct_link =
     (if packet_len > fw_room forw_packet_aggr then (forw_packet_aggr, True)
      else
        let num_packets = fw_num_packets forw_packet_aggr + 1;
            flags = fw_direct_link_flags forw_packet_aggr
        in (forw_packet_aggr\<lparr>fw_skb := fw_skb forw_packet_aggr @ take packet_len packet_buff,
              fw_room := fw_room forw_packet_aggr - packet_len,
              fw_packet_len := fw_packet_len forw_packet_aggr + of_nat packet_len,
              fw_direct_link_flags := (if direct_link then flags OR push_bit (unat num_packets) 1 else flags),
              fw_num_packets := num_packets\<rparr>, False))"

fun aggregate_first ::
    "(batadv_forw_packet \<Rightarrow> bool) \<Rightarrow> (batadv_forw_packet \<Rightarrow> batadv_forw_packet \<times> bool)
      \<Rightarrow> batadv_forw_packet list \<Rightarrow> (batadv_forw_packet list \<times> bool) option" where
  "aggregate_first p f [] = None"
| "aggregate_first p f (x # xs) =
     (if p x then Some (fst (f x) # xs, snd (f x))
      else map_option (\<lambda>(ys, b). (x # ys, b)) (aggregate_first p f xs))"

definition batadv_iv_ogm_queue_add ::
    "(alloc_site \<Rightarrow> bool) \<Rightarrow> (nat \<Rightarrow> jiffies) \<Rightarrow> u8 list \<Rightarrow> nat \<Rightarrow> iface \<Rightarrow> iface \<Rightarrow> bool \<Rightarrow> jiffies
      \<Rightarrow> batadv_priv \<Rightarrow> batadv_priv" where
  "batadv_iv_ogm_queue_add alloc m2j packet_buff packet_len if_incoming if_outgoing own_packet send_time st =
     (let ogm_packet = ogm_at (\<lambda>_. 0) packet_buff 0;
          direct_link = bit (op_flags ogm_packet) BATADV_DIRECTLINK;
          aggregated = (if bp_aggregated_ogms st \<and> \<not> own_packet then
              aggregate_first
                (batadv_iv_ogm_can_aggregate m2j ogm_packet st packet_len send_time direct_link if_incoming if_outgoing)
                (\<lambda>forw_packet. batadv_iv_ogm_aggregate forw_packet packet_buff packet_len direct_link)
                (bp_forw_bat_list st)
            else None)
      in case aggregated of
           None \<Rightarrow>
             let send_time = (if \<not> own_packet \<and> bp_aggregated_ogms st
                              then send_time + m2j BATADV_MAX_AGGREGATION_MS else send_time)
             in batadv_iv_ogm_aggregate_new alloc packet_buff packet_len send_time direct_link
                  if_incoming if_outgoing own_packet st
         | Some (forw_bat_list, over) \<Rightarrow>
             st\<lparr>bp_forw_bat_list := forw_bat_list, bp_panic := bp_panic st \<or> over\<rparr>)"

end
