(* ===== verification/Iv_Ogm.thy ===== *)
theory Iv_Ogm
  imports Iv_Queue
begin

text \<open>
  The routing algorithm B.A.T.M.A.N. IV, second part of \<^verbatim>\<open>bat_iv_ogm.c\<close>: what happens to a
  received originator message. It is judged against the sequence number windows, the link it
  came over is rated, the routing tables are updated, and it is queued for every outgoing
  interface with a lower quality; the windows of our own messages that came back are kept.
\<close>

datatype batadv_dup_status = BATADV_NO_DUP | BATADV_ORIG_DUP | BATADV_NEIGH_DUP | BATADV_PROTECTED

section \<open>Forwarding and scheduling\<close>

text \<open>\<open>tvlv\<close> are the bytes behind the header, \<^verbatim>\<open>tvlv_len\<close> of them.\<close>

definition batadv_iv_ogm_forward ::
    "(alloc_site \<Rightarrow> bool) \<Rightarrow> (nat \<Rightarrow> jiffies) \<Rightarrow> jiffies \<Rightarrow> u32 \<Rightarrow> mac \<Rightarrow> batadv_ogm_packet \<Rightarrow> u8 list
      \<Rightarrow> bool \<Rightarrow> bool \<Rightarrow> iface \<Rightarrow> iface \<Rightarrow> batadv_priv \<Rightarrow> batadv_priv" where
  "batadv_iv_ogm_forward alloc m2j now rnd src ogm_packet tvlv is_single_hop_neigh is_from_best_next_hop
       if_incoming if_outgoing st =
     (if op_ttl ogm_packet \<le> 1 then st
      else if \<not> is_from_best_next_hop \<and> \<not> is_single_hop_neigh then st
      else
        let flags = (if is_from_best_next_hop then op_flags ogm_packet
                     else set_bit BATADV_NOT_BEST_NEXT_HOP (op_flags ogm_packet));
            ogm_packet = ogm_packet\<lparr>op_ttl := op_ttl ogm_packet - 1,
              op_flags := (if is_single_hop_neigh then set_bit BATADV_DIRECTLINK flags
                           else unset_bit BATADV_DIRECTLINK flags),
              op_prev_sender := src, op_tq := batadv_hop_penalty (op_tq ogm_packet) st\<rparr>
        in batadv_iv_ogm_queue_add alloc m2j (ogm_bytes ogm_packet @ tvlv)
             (BATADV_OGM_HLEN + unat (op_tvlv_len ogm_packet)) if_incoming if_outgoing False
             (batadv_iv_ogm_fwd_send_time m2j now rnd) st)"

definition slide_own :: "nat \<Rightarrow> batadv_orig_node \<Rightarrow> batadv_orig_node" where
  "slide_own if_num orig_node =
     (let word = fst (batadv_bit_get_packet (on_bcast_own orig_node ! if_num) 1 False)
      in orig_node\<lparr>on_bcast_own := (on_bcast_own orig_node)[if_num := word],
           on_bcast_own_sum := (on_bcast_own_sum orig_node)[if_num := of_nat (bitmap_weight word)]\<rparr>)"

definition batadv_iv_ogm_slide_own_bcast_window :: "iface \<Rightarrow> batadv_priv \<Rightarrow> batadv_priv" where
  "batadv_iv_ogm_slide_own_bcast_window hard_iface st =
     st\<lparr>bp_orig_hash := map (\<lambda>(a, orig_node). (a, slide_own (nat (hi_if_num (bp_iface st hard_iface))) orig_node))
          (bp_orig_hash st)\<rparr>"

text \<open>
  The first part of the scheduling completes our own message in the buffer of the interface:
  \<open>ogm_append\<close> is \<^verbatim>\<open>batadv_tvlv_container_ogm_append\<close>, which gives the new buffer and the tvlv length.
\<close>

definition ogm_complete :: "(u8 list \<Rightarrow> nat \<Rightarrow> u8 list \<times> u16) \<Rightarrow> iface \<Rightarrow> batadv_priv \<Rightarrow> batadv_priv" where
  "ogm_complete ogm_append hard_iface st =
     (let primary = (bp_primary_if st = Some hard_iface);
          st = (if primary then ext_call Call_tt_local_commit_changes st else st);
          (buff, tvlv_len) = (if primary then ogm_append (hi_ogm_buff (bp_iface st hard_iface)) BATADV_OGM_HLEN
                              else (hi_ogm_buff (bp_iface st hard_iface), 0));
          seqno = hi_ogm_seqno (bp_iface st hard_iface);
          buff = ogm_modify (\<lambda>p. p\<lparr>op_tvlv_len := tvlv_len, op_seqno := seqno\<rparr>) buff
      in upd_iface hard_iface (\<lambda>h. h\<lparr>hi_ogm_buff := buff,
           hi_ogm_buff_len := (if primary then int (length buff) else hi_ogm_buff_len h),
           hi_ogm_seqno := seqno + 1\<rparr>) st)"

definition batadv_iv_ogm_schedule ::
    "(alloc_site \<Rightarrow> bool) \<Rightarrow> (nat \<Rightarrow> jiffies) \<Rightarrow> jiffies \<Rightarrow> u32 \<Rightarrow> (u8 list \<Rightarrow> nat \<Rightarrow> u8 list \<times> u16)
      \<Rightarrow> iface \<Rightarrow> batadv_priv \<Rightarrow> batadv_priv" where
  "batadv_iv_ogm_schedule alloc m2j now rnd ogm_append hard_iface st =
     (let st = ogm_complete ogm_append hard_iface st;
          st = batadv_iv_ogm_slide_own_bcast_window hard_iface st;
          send_time = batadv_iv_ogm_emit_send_time m2j now rnd st;
          buff = hi_ogm_buff (bp_iface st hard_iface);
          len = nat (hi_ogm_buff_len (bp_iface st hard_iface))
      in if bp_primary_if st \<noteq> Some hard_iface then
           batadv_iv_ogm_queue_add alloc m2j buff len hard_iface hard_iface True send_time st
         else
           fold (\<lambda>i st. if hi_soft_iface (bp_iface st i) \<noteq> hi_soft_iface (bp_iface st hard_iface) then st
                        else batadv_iv_ogm_queue_add alloc m2j buff len hard_iface i True send_time st)
             (bp_hardif_list st) st)"

section \<open>Updating an originator\<close>

definition tq_push :: "u8 \<Rightarrow> batadv_neigh_ifinfo \<Rightarrow> batadv_neigh_ifinfo" where
  "tq_push tq ni =
     (let (recv, index) = batadv_ring_buffer_set (ni_tq_recv ni) (ni_tq_index ni) tq
      in ni\<lparr>ni_tq_recv := recv, ni_tq_index := index, ni_tq_avg := batadv_ring_buffer_avg recv\<rparr>)"

definition upd_neigh_ifinfo ::
    "if_out \<Rightarrow> (batadv_neigh_ifinfo \<Rightarrow> batadv_neigh_ifinfo) \<Rightarrow> batadv_neigh_node \<Rightarrow> batadv_neigh_node" where
  "upd_neigh_ifinfo if_outgoing f neigh =
     (case batadv_neigh_ifinfo_get neigh if_outgoing of
        None \<Rightarrow> neigh
      | Some ni \<Rightarrow> neigh\<lparr>nn_ifinfo := AList.update if_outgoing (f ni) (nn_ifinfo neigh)\<rparr>)"

definition upd_orig_ifinfo ::
    "if_out \<Rightarrow> (batadv_orig_ifinfo \<Rightarrow> batadv_orig_ifinfo) \<Rightarrow> batadv_orig_node \<Rightarrow> batadv_orig_node" where
  "upd_orig_ifinfo if_outgoing f orig_node =
     (case batadv_orig_ifinfo_get orig_node if_outgoing of
        None \<Rightarrow> orig_node
      | Some oi \<Rightarrow> orig_node\<lparr>on_ifinfo := AList.update if_outgoing (f oi) (on_ifinfo orig_node)\<rparr>)"

text \<open>
  The loop over the neighbors: the node that sent the message, and a lost message pushed for
  every other neighbor.
\<close>

fun orig_update_scan ::
    "mac \<Rightarrow> iface \<Rightarrow> if_out \<Rightarrow> batadv_dup_status \<Rightarrow> nat list \<Rightarrow> batadv_orig_node \<Rightarrow> nat option
      \<Rightarrow> batadv_orig_node \<times> nat option" where
  "orig_update_scan src if_incoming if_outgoing dup_status [] orig_node neigh_node = (orig_node, neigh_node)"
| "orig_update_scan src if_incoming if_outgoing dup_status (n # ns) orig_node neigh_node =
     (let tmp = on_neigh orig_node n in
      if nn_addr tmp = src \<and> nn_if_incoming tmp = if_incoming then
        orig_update_scan src if_incoming if_outgoing dup_status ns orig_node (Some n)
      else if dup_status \<noteq> BATADV_NO_DUP then
        orig_update_scan src if_incoming if_outgoing dup_status ns orig_node neigh_node
      else
        orig_update_scan src if_incoming if_outgoing dup_status ns
          (upd_neigh n (upd_neigh_ifinfo if_outgoing (tq_push 0)) orig_node) neigh_node)"

definition bcast_own_sum_of :: "batadv_priv \<Rightarrow> batadv_neigh_node \<Rightarrow> u8" where
  "bcast_own_sum_of st neigh =
     on_bcast_own_sum (orig_at st (nn_orig_node neigh)) ! nat (hi_if_num (bp_iface st (nn_if_incoming neigh)))"

text \<open>The neighbor entry that a message is credited to.\<close>

definition credit ::
    "jiffies \<Rightarrow> batadv_ogm_packet \<Rightarrow> if_out \<Rightarrow> batadv_dup_status \<Rightarrow> batadv_neigh_node \<Rightarrow> batadv_neigh_node" where
  "credit now ogm ifo dup neigh =
     (let neigh = upd_neigh_ifinfo ifo (tq_push (op_tq ogm)) (neigh\<lparr>nn_last_seen := now\<rparr>)
      in if dup = BATADV_NO_DUP then upd_neigh_ifinfo ifo (\<lambda>ni. ni\<lparr>ni_last_ttl := op_ttl ogm\<rparr>) neigh else neigh)"

text \<open>The state after the credit, the time to live noted for a message that is new.\<close>

definition credited ::
    "jiffies \<Rightarrow> mac \<Rightarrow> batadv_ogm_packet \<Rightarrow> if_out \<Rightarrow> batadv_dup_status \<Rightarrow> nat \<Rightarrow> batadv_neigh_node
      \<Rightarrow> batadv_priv \<Rightarrow> batadv_priv" where
  "credited now a ogm ifo dup n neigh st =
     (let st = upd_orig a (upd_neigh n (\<lambda>_. credit now ogm ifo dup neigh)) st
      in if dup = BATADV_NO_DUP
         then upd_orig a (upd_orig_ifinfo ifo (\<lambda>oi. oi\<lparr>oi_last_ttl := op_ttl ogm\<rparr>)) st else st)"

text \<open>Whether the neighbor becomes the router: none is known, or its quality is better, or it is equal
  and more of our own messages come back over it.\<close>

definition neigh_tq :: "batadv_priv \<Rightarrow> mac \<Rightarrow> if_out \<Rightarrow> nat \<Rightarrow> u8 option" where
  "neigh_tq st a ifo m = map_option ni_tq_avg (batadv_neigh_ifinfo_get (on_neigh (orig_at st a) m) ifo)"

definition route_taken :: "batadv_priv \<Rightarrow> mac \<Rightarrow> if_out \<Rightarrow> nat \<Rightarrow> bool" where
  "route_taken st a ifo n =
     (case batadv_orig_router_get (orig_at st a) ifo of
        None \<Rightarrow> True
      | Some router \<Rightarrow> router \<noteq> n \<and>
          (case neigh_tq st a ifo router of
             None \<Rightarrow> False
           | Some router_avg \<Rightarrow> router_avg < the (neigh_tq st a ifo n)
               \<or> router_avg = the (neigh_tq st a ifo n)
                 \<and> bcast_own_sum_of st (on_neigh (orig_at st a) router)
                   < bcast_own_sum_of st (on_neigh (orig_at st a) n)))"

text \<open>The part behind the search: \<open>n\<close> is the neighbor that sent the message.\<close>

definition orig_update_neigh ::
    "(alloc_site \<Rightarrow> bool) \<Rightarrow> jiffies \<Rightarrow> mac \<Rightarrow> batadv_ogm_packet \<Rightarrow> if_out \<Rightarrow> batadv_dup_status \<Rightarrow> nat
      \<Rightarrow> batadv_priv \<Rightarrow> batadv_priv" where
  "orig_update_neigh alloc now a ogm ifo dup n st =
     (case batadv_neigh_ifinfo_new alloc (on_neigh (orig_at st a) n) ifo of
        (_, False) \<Rightarrow> st
      | (neigh, True) \<Rightarrow>
          let st' = credited now a ogm ifo dup n neigh st
          in if route_taken st' a ifo n then batadv_update_route a ifo (Some n) st' else st')"

definition batadv_iv_ogm_orig_update ::
    "(alloc_site \<Rightarrow> bool) \<Rightarrow> jiffies \<Rightarrow> mac \<Rightarrow> mac \<Rightarrow> batadv_ogm_packet \<Rightarrow> iface \<Rightarrow> if_out
      \<Rightarrow> batadv_dup_status \<Rightarrow> batadv_priv \<Rightarrow> batadv_priv" where
  "batadv_iv_ogm_orig_update alloc now orig_node src ogm_packet if_incoming if_outgoing dup_status st =
     (let (on, neigh_node) = orig_update_scan src if_incoming if_outgoing dup_status
            (on_neigh_list (orig_at st orig_node)) (orig_at st orig_node) None;
          st = upd_orig orig_node (\<lambda>_. on) st
      in case neigh_node of
           Some n \<Rightarrow> orig_update_neigh alloc now orig_node ogm_packet if_outgoing dup_status n st
         | None \<Rightarrow>
             (case batadv_iv_ogm_orig_get alloc now src st of
                (st, None) \<Rightarrow> st
              | (st, Some orig_tmp) \<Rightarrow>
                  (case batadv_iv_ogm_neigh_new alloc now if_incoming src orig_node orig_tmp st of
                     (st, None) \<Rightarrow> st
                   | (st, Some n) \<Rightarrow> orig_update_neigh alloc now orig_node ogm_packet if_outgoing dup_status n st)))"

section \<open>Rating the link\<close>

text \<open>
  The arithmetic of \<^verbatim>\<open>batadv_iv_ogm_calc_tq\<close>, on the counters of the link: \<^verbatim>\<open>u8\<close> values are
  promoted to \<^verbatim>\<open>int\<close>, the penalties are \<^verbatim>\<open>unsigned int\<close>.
\<close>

definition link_tq_own :: "u8 \<Rightarrow> u8 \<Rightarrow> u8" where
  "link_tq_own orig_eq_count neigh_rq_count =
     (let total_count = (if orig_eq_count > neigh_rq_count then neigh_rq_count else orig_eq_count)
      in if total_count < BATADV_TQ_LOCAL_BIDRECT_SEND_MINIMUM
            \<or> neigh_rq_count < BATADV_TQ_LOCAL_BIDRECT_RECV_MINIMUM then 0
         else of_nat (BATADV_TQ_MAX_VALUE * unat total_count div unat neigh_rq_count))"

definition link_asym_penalty :: "u8 \<Rightarrow> u32" where
  "link_asym_penalty neigh_rq_count =
     (let neigh_rq_inv = of_nat BATADV_TQ_LOCAL_WINDOW_SIZE - neigh_rq_count :: u8;
          neigh_rq_inv_cube = of_nat (unat neigh_rq_inv * unat neigh_rq_inv * unat neigh_rq_inv) :: u32;
          neigh_rq_max_cube = of_nat (BATADV_TQ_LOCAL_WINDOW_SIZE * BATADV_TQ_LOCAL_WINDOW_SIZE
             * BATADV_TQ_LOCAL_WINDOW_SIZE) :: u32;
          inv_asym_penalty = of_nat BATADV_TQ_MAX_VALUE * neigh_rq_inv_cube div neigh_rq_max_cube
      in of_nat BATADV_TQ_MAX_VALUE - inv_asym_penalty)"

definition link_combined_tq :: "u8 \<Rightarrow> u8 \<Rightarrow> u32 \<Rightarrow> u32 \<Rightarrow> u8" where
  "link_combined_tq tq tq_own tq_asym_penalty tq_iface_penalty =
     (let combined_tq = of_nat (unat tq * unat tq_own) * tq_asym_penalty * tq_iface_penalty :: u32
      in ucast (combined_tq div of_nat (BATADV_TQ_MAX_VALUE * BATADV_TQ_MAX_VALUE * BATADV_TQ_MAX_VALUE)))"

text \<open>The result is the new state, the message with its new quality, and whether the link is
  considered bidirectional.\<close>

definition batadv_iv_ogm_calc_tq ::
    "(alloc_site \<Rightarrow> bool) \<Rightarrow> jiffies \<Rightarrow> mac \<Rightarrow> mac \<Rightarrow> batadv_ogm_packet \<Rightarrow> iface \<Rightarrow> if_out
      \<Rightarrow> batadv_priv \<Rightarrow> batadv_priv \<times> batadv_ogm_packet \<times> bool" where
  "batadv_iv_ogm_calc_tq alloc now orig_node orig_neigh_node ogm_packet if_incoming if_outgoing st =
     (let neigh_orig = on_orig (orig_at st orig_neigh_node);
          (st, neigh_node) =
            (case List.find (\<lambda>n. nn_addr (on_neigh (orig_at st orig_neigh_node) n) = neigh_orig
                \<and> nn_if_incoming (on_neigh (orig_at st orig_neigh_node) n) = if_incoming)
                (on_neigh_list (orig_at st orig_neigh_node)) of
               Some n \<Rightarrow> (st, Some n)
             | None \<Rightarrow> batadv_iv_ogm_neigh_new alloc now if_incoming neigh_orig orig_neigh_node orig_neigh_node st)
      in case neigh_node of
           None \<Rightarrow> (st, ogm_packet, False)
         | Some n \<Rightarrow>
             let st = (if orig_node = orig_neigh_node
                   then upd_orig orig_neigh_node (upd_neigh n (\<lambda>neigh. neigh\<lparr>nn_last_seen := now\<rparr>)) st else st);
                 st = upd_orig orig_node (\<lambda>on. on\<lparr>on_last_seen := now\<rparr>) st;
                 orig_eq_count = on_bcast_own_sum (orig_at st orig_neigh_node)
                   ! nat (hi_if_num (bp_iface st if_incoming));
                 (neigh, created) = batadv_neigh_ifinfo_new alloc (on_neigh (orig_at st orig_neigh_node) n) if_outgoing;
                 st = upd_orig orig_neigh_node (upd_neigh n (\<lambda>_. neigh)) st;
                 neigh_rq_count = (if created
                   then ni_real_packet_count (the (batadv_neigh_ifinfo_get neigh if_outgoing)) else 0);
                 tq_iface_penalty = (if if_outgoing = Some if_incoming \<and> hi_wifi (bp_iface st if_incoming)
                   then ucast (batadv_hop_penalty (of_nat BATADV_TQ_MAX_VALUE) st)
                   else of_nat BATADV_TQ_MAX_VALUE);
                 tq = link_combined_tq (op_tq ogm_packet) (link_tq_own orig_eq_count neigh_rq_count)
                   (link_asym_penalty neigh_rq_count) tq_iface_penalty
             in (st, ogm_packet\<lparr>op_tq := tq\<rparr>, tq \<ge> BATADV_TQ_TOTAL_BIDRECT_LIMIT))"

section \<open>Sequence numbers\<close>

text \<open>The loop over the neighbors; \<open>last_real_seqno\<close> is the number the windows are relative to.\<close>

fun update_seqnos_scan ::
    "(alloc_site \<Rightarrow> bool) \<Rightarrow> mac \<Rightarrow> iface \<Rightarrow> if_out \<Rightarrow> u32 \<Rightarrow> u32 \<Rightarrow> int \<Rightarrow> nat list
      \<Rightarrow> batadv_orig_node \<Rightarrow> batadv_dup_status \<Rightarrow> bool \<Rightarrow> batadv_orig_node \<times> batadv_dup_status \<times> bool" where
  "update_seqnos_scan alloc src if_incoming if_outgoing last_real_seqno seqno seq_diff [] orig_node ret need_update =
     (orig_node, ret, need_update)"
| "update_seqnos_scan alloc src if_incoming if_outgoing last_real_seqno seqno seq_diff (n # ns) orig_node ret
       need_update =
     (case batadv_neigh_ifinfo_new alloc (on_neigh orig_node n) if_outgoing of
        (_, False) \<Rightarrow>
          update_seqnos_scan alloc src if_incoming if_outgoing last_real_seqno seqno seq_diff ns orig_node ret
            need_update
      | (neigh_node, True) \<Rightarrow>
          let real_bits = ni_real_bits (the (batadv_neigh_ifinfo_get neigh_node if_outgoing));
              is_dup = batadv_test_bit real_bits last_real_seqno seqno;
              set_mark = (nn_addr neigh_node = src \<and> nn_if_incoming neigh_node = if_incoming);
              ret = (if set_mark then (if is_dup then BATADV_NEIGH_DUP else ret)
                     else if is_dup \<and> ret \<noteq> BATADV_NEIGH_DUP then BATADV_ORIG_DUP else ret);
              (bitmap, moved) = batadv_bit_get_packet real_bits seq_diff set_mark;
              neigh_node = upd_neigh_ifinfo if_outgoing
                (\<lambda>ni. ni\<lparr>ni_real_bits := bitmap, ni_real_packet_count := of_nat (bitmap_weight bitmap)\<rparr>) neigh_node
          in update_seqnos_scan alloc src if_incoming if_outgoing last_real_seqno seqno seq_diff ns
               (upd_neigh n (\<lambda>_. neigh_node) orig_node) ret (need_update \<or> moved))"

definition update_seqnos_orig ::
    "(alloc_site \<Rightarrow> bool) \<Rightarrow> (nat \<Rightarrow> jiffies) \<Rightarrow> jiffies \<Rightarrow> mac \<Rightarrow> u32 \<Rightarrow> iface \<Rightarrow> if_out
      \<Rightarrow> batadv_orig_node \<Rightarrow> batadv_orig_node \<times> batadv_dup_status" where
  "update_seqnos_orig alloc m2j now src seqno if_incoming if_outgoing orig_node =
     (case batadv_orig_ifinfo_new alloc m2j now orig_node if_outgoing of
        (orig_node, False) \<Rightarrow> (orig_node, BATADV_NO_DUP)
      | (orig_node, True) \<Rightarrow>
          let orig_ifinfo = the (batadv_orig_ifinfo_get orig_node if_outgoing);
              seq_diff = sint (seqno - oi_last_real_seqno orig_ifinfo);
              (protected, reset', _) =
                (if on_neigh_list orig_node \<noteq> []
                 then batadv_window_protected m2j now seq_diff (int BATADV_TQ_LOCAL_WINDOW_SIZE)
                        (oi_batman_seqno_reset orig_ifinfo) False
                 else (False, oi_batman_seqno_reset orig_ifinfo, False));
              orig_node = upd_orig_ifinfo if_outgoing (\<lambda>oi. oi\<lparr>oi_batman_seqno_reset := reset'\<rparr>) orig_node
          in if protected then (orig_node, BATADV_PROTECTED)
             else
               let (orig_node, ret, need_update) =
                     update_seqnos_scan alloc src if_incoming if_outgoing (oi_last_real_seqno orig_ifinfo) seqno
                       seq_diff (on_neigh_list orig_node) orig_node BATADV_NO_DUP False
               in (if need_update
                   then upd_orig_ifinfo if_outgoing (\<lambda>oi. oi\<lparr>oi_last_real_seqno := seqno\<rparr>) orig_node
                   else orig_node, ret))"

definition batadv_iv_ogm_update_seqnos ::
    "(alloc_site \<Rightarrow> bool) \<Rightarrow> (nat \<Rightarrow> jiffies) \<Rightarrow> jiffies \<Rightarrow> mac \<Rightarrow> batadv_ogm_packet \<Rightarrow> iface \<Rightarrow> if_out
      \<Rightarrow> batadv_priv \<Rightarrow> batadv_priv \<times> batadv_dup_status" where
  "batadv_iv_ogm_update_seqnos alloc m2j now src ogm_packet if_incoming if_outgoing st =
     (case batadv_iv_ogm_orig_get alloc now (op_orig ogm_packet) st of
        (st, None) \<Rightarrow> (st, BATADV_NO_DUP)
      | (st, Some a) \<Rightarrow>
          let (orig_node, ret) = update_seqnos_orig alloc m2j now src (op_seqno ogm_packet) if_incoming
                if_outgoing (orig_at st a)
          in (upd_orig a (\<lambda>_. orig_node) st, ret))"

section \<open>Processing a message\<close>

text \<open>
  The second half of the processing for an outgoing interface: the neighbor \<open>orig_neigh_node\<close>
  that the message came from is known.
\<close>

definition process_from_neigh ::
    "(alloc_site \<Rightarrow> bool) \<Rightarrow> (nat \<Rightarrow> jiffies) \<Rightarrow> jiffies \<Rightarrow> u32 \<Rightarrow> mac \<Rightarrow> batadv_ogm_packet \<Rightarrow> u8 list
      \<Rightarrow> mac \<Rightarrow> mac \<Rightarrow> bool \<Rightarrow> bool \<Rightarrow> batadv_dup_status \<Rightarrow> iface \<Rightarrow> if_out \<Rightarrow> batadv_priv \<Rightarrow> batadv_priv" where
  "process_from_neigh alloc m2j now rnd src ogm_packet tvlv orig_node orig_neigh_node is_single_hop_neigh
       is_from_best_next_hop dup_status if_incoming if_outgoing st =
     (let st = ext_call (Call_nc_update_nc_node orig_node orig_neigh_node (ogm_bytes ogm_packet @ tvlv)
                 is_single_hop_neigh) st
      in if \<not> is_single_hop_neigh \<and> batadv_orig_router_get (orig_at st orig_neigh_node) if_outgoing = None then st
         else
           let (st, ogm_packet, is_bidirect) =
                 batadv_iv_ogm_calc_tq alloc now orig_node orig_neigh_node ogm_packet if_incoming if_outgoing st;
               (on, have_ifinfo) = batadv_orig_ifinfo_new alloc m2j now (orig_at st orig_node) if_outgoing;
               st = upd_orig orig_node (\<lambda>_. on) st
           in if \<not> have_ifinfo then st
              else
                let orig_ifinfo = the (batadv_orig_ifinfo_get on if_outgoing);
                    sameseq = (oi_last_real_seqno orig_ifinfo = op_seqno ogm_packet);
                    similar_ttl = (int (unat (oi_last_ttl orig_ifinfo)) - 3 \<le> int (unat (op_ttl ogm_packet)));
                    st = (if is_bidirect \<and> (dup_status = BATADV_NO_DUP \<or> sameseq \<and> similar_ttl)
                      then batadv_iv_ogm_orig_update alloc now orig_node src ogm_packet if_incoming if_outgoing
                             dup_status st
                      else st)
                in (case if_outgoing of
                      None \<Rightarrow> st
                    | Some out \<Rightarrow>
                        if is_single_hop_neigh then
                          (if op_ttl ogm_packet \<le> 2 \<and> if_incoming \<noteq> out then st
                           else batadv_iv_ogm_forward alloc m2j now rnd src ogm_packet tvlv is_single_hop_neigh
                                  is_from_best_next_hop if_incoming out st)
                        else if \<not> is_bidirect then st
                        else if dup_status = BATADV_NEIGH_DUP then st
                        else batadv_iv_ogm_forward alloc m2j now rnd src ogm_packet tvlv is_single_hop_neigh
                               is_from_best_next_hop if_incoming out st))"

text \<open>The message came from the router in use, and its path is one that the average quality supports.\<close>

definition from_best_next_hop :: "mac \<Rightarrow> mac \<Rightarrow> if_out \<Rightarrow> batadv_priv \<Rightarrow> bool" where
  "from_best_next_hop src orig_node if_outgoing st =
     (case batadv_orig_router_get (orig_at st orig_node) if_outgoing of
        None \<Rightarrow> False
      | Some router \<Rightarrow>
          (case batadv_neigh_ifinfo_get (on_neigh (orig_at st orig_node) router) if_outgoing of
             None \<Rightarrow> False
           | Some router_ifinfo \<Rightarrow> ni_tq_avg router_ifinfo \<noteq> 0
               \<and> nn_addr (on_neigh (orig_at st orig_node) router) = src))"

text \<open>The router's router: the originator structure of a neighbor has a router of its own.\<close>

definition router_router :: "mac \<Rightarrow> if_out \<Rightarrow> batadv_priv \<Rightarrow> (batadv_neigh_node \<times> batadv_neigh_node) option" where
  "router_router orig_node if_outgoing st =
     (case batadv_orig_router_get (orig_at st orig_node) if_outgoing of
        None \<Rightarrow> None
      | Some r \<Rightarrow>
          let router = on_neigh (orig_at st orig_node) r;
              orig_neigh_node = orig_at st (nn_orig_node router)
          in map_option (\<lambda>rr. (router, on_neigh orig_neigh_node rr))
               (batadv_orig_router_get orig_neigh_node if_outgoing))"

definition would_loop :: "batadv_ogm_packet \<Rightarrow> mac \<Rightarrow> if_out \<Rightarrow> batadv_priv \<Rightarrow> bool" where
  "would_loop ogm_packet orig_node if_outgoing st =
     (case router_router orig_node if_outgoing st of
        None \<Rightarrow> False
      | Some (router, next_router) \<Rightarrow>
          nn_addr router = op_prev_sender ogm_packet
          \<and> op_orig ogm_packet \<noteq> op_prev_sender ogm_packet
          \<and> nn_addr router = nn_addr next_router)"

text \<open>The part behind the checks, which finds the neighbor that the message came from.\<close>

definition process_accepted ::
    "(alloc_site \<Rightarrow> bool) \<Rightarrow> (nat \<Rightarrow> jiffies) \<Rightarrow> jiffies \<Rightarrow> u32 \<Rightarrow> mac \<Rightarrow> batadv_ogm_packet \<Rightarrow> u8 list
      \<Rightarrow> mac \<Rightarrow> bool \<Rightarrow> batadv_dup_status \<Rightarrow> iface \<Rightarrow> if_out \<Rightarrow> batadv_priv \<Rightarrow> batadv_priv" where
  "process_accepted alloc m2j now rnd src ogm_packet tvlv orig_node is_from_best_next_hop dup_status
       if_incoming if_outgoing st =
     (let is_single_hop_neigh = (src = op_orig ogm_packet);
          st = (if if_outgoing = BATADV_IF_DEFAULT
            then ext_call (Call_tvlv_ogm_receive (ogm_bytes ogm_packet @ tvlv) orig_node) st else st)
      in case (if is_single_hop_neigh then (st, Some orig_node) else batadv_iv_ogm_orig_get alloc now src st) of
           (st, None) \<Rightarrow> st
         | (st, Some nb) \<Rightarrow> process_from_neigh alloc m2j now rnd src ogm_packet tvlv orig_node nb
             is_single_hop_neigh is_from_best_next_hop dup_status if_incoming if_outgoing st)"

definition hardif_neigh_seen :: "jiffies \<Rightarrow> mac \<Rightarrow> iface \<Rightarrow> batadv_priv \<Rightarrow> batadv_priv" where
  "hardif_neigh_seen now src if_incoming =
     upd_iface if_incoming (\<lambda>h. h\<lparr>hi_neigh_list :=
       map (\<lambda>n. if hn_addr n = src then n\<lparr>hn_last_seen := now\<rparr> else n) (hi_neigh_list h)\<rparr>)"

definition batadv_iv_ogm_process_per_outif ::
    "(alloc_site \<Rightarrow> bool) \<Rightarrow> (nat \<Rightarrow> jiffies) \<Rightarrow> jiffies \<Rightarrow> u32 \<Rightarrow> mac \<Rightarrow> batadv_ogm_packet \<Rightarrow> u8 list
      \<Rightarrow> mac \<Rightarrow> iface \<Rightarrow> if_out \<Rightarrow> batadv_priv \<Rightarrow> batadv_priv" where
  "batadv_iv_ogm_process_per_outif alloc m2j now rnd src ogm_packet tvlv orig_node if_incoming if_outgoing st =
     (if \<not> alloc (Alloc_Skb_Copy if_outgoing) then st
      else
        let (st, dup_status) = batadv_iv_ogm_update_seqnos alloc m2j now src ogm_packet if_incoming if_outgoing st
        in if dup_status = BATADV_PROTECTED then st
           else if op_tq ogm_packet = 0 then st
           else
             let st = (if src = op_orig ogm_packet then hardif_neigh_seen now src if_incoming st else st)
             in if would_loop ogm_packet orig_node if_outgoing st then st
                else process_accepted alloc m2j now rnd src ogm_packet tvlv orig_node
                  (from_best_next_hop src orig_node if_outgoing st) dup_status if_incoming if_outgoing st)"

text \<open>Our own message, sent back by the neighbor \<open>src\<close> over the interface it left from.\<close>

definition note_own_echo :: "mac \<Rightarrow> batadv_ogm_packet \<Rightarrow> iface \<Rightarrow> u32 \<Rightarrow> batadv_priv \<Rightarrow> batadv_priv" where
  "note_own_echo orig_neigh_node ogm_packet if_incoming if_incoming_seqno st =
     upd_orig orig_neigh_node (\<lambda>on.
       let if_num = nat (hi_if_num (bp_iface st if_incoming));
           bit_pos = sint (if_incoming_seqno - 2 - op_seqno ogm_packet);
           word = batadv_set_bit (on_bcast_own on ! if_num) bit_pos
       in on\<lparr>on_bcast_own := (on_bcast_own on)[if_num := word],
             on_bcast_own_sum := (on_bcast_own_sum on)[if_num := of_nat (bitmap_weight word)]\<rparr>) st"

definition mesh_ifaces :: "batadv_priv \<Rightarrow> iface list" where
  "mesh_ifaces st = filter (\<lambda>i. hi_if_status (bp_iface st i) = BATADV_IF_ACTIVE
     \<and> hi_soft_iface (bp_iface st i) = Some (bp_soft_iface st)) (bp_hardif_list st)"

definition batadv_iv_ogm_process ::
    "(alloc_site \<Rightarrow> bool) \<Rightarrow> (nat \<Rightarrow> jiffies) \<Rightarrow> jiffies \<Rightarrow> (if_out \<Rightarrow> u32) \<Rightarrow> mac \<Rightarrow> (nat \<Rightarrow> u8) \<Rightarrow> u8 list
      \<Rightarrow> nat \<Rightarrow> iface \<Rightarrow> batadv_priv \<Rightarrow> batadv_priv" where
  "batadv_iv_ogm_process alloc m2j now rnd src past data ogm_offset if_incoming st =
     (let ogm_packet = ogm_at past data ogm_offset;
          tvlv = rd_bytes past data (ogm_offset + BATADV_OGM_HLEN) (unat (op_tvlv_len ogm_packet));
          if_incoming_seqno = hi_ogm_seqno (bp_iface st if_incoming);
          has_directlink_flag = bit (op_flags ogm_packet) BATADV_DIRECTLINK;
          addrs = map (\<lambda>i. hi_dev_addr (bp_iface st i)) (mesh_ifaces st)
      in if op_packet_type ogm_packet \<noteq> BATADV_IV_OGM then st
         else if src \<in> set addrs then st
         else if op_orig ogm_packet \<in> set addrs then
           (case batadv_iv_ogm_orig_get alloc now src st of
              (st, None) \<Rightarrow> st
            | (st, Some orig_neigh_node) \<Rightarrow>
                if has_directlink_flag \<and> hi_dev_addr (bp_iface st if_incoming) = op_orig ogm_packet
                then note_own_echo orig_neigh_node ogm_packet if_incoming if_incoming_seqno st else st)
         else if op_prev_sender ogm_packet \<in> set addrs then st
         else if bit (op_flags ogm_packet) BATADV_NOT_BEST_NEXT_HOP then st
         else (case batadv_iv_ogm_orig_get alloc now (op_orig ogm_packet) st of
             (st, None) \<Rightarrow> st
           | (st, Some orig_node) \<Rightarrow>
               let per_outif = (\<lambda>ifo. batadv_iv_ogm_process_per_outif alloc m2j now (rnd ifo) src ogm_packet tvlv
                     orig_node if_incoming ifo)
               in fold (\<lambda>i. per_outif (Some i)) (mesh_ifaces st) (per_outif BATADV_IF_DEFAULT st)))"

section \<open>Receiving a packet\<close>

text \<open>
  \<open>pull_ok\<close>, \<open>cow_ok\<close> and \<open>linearize_ok\<close> are the results of the socket buffer operations that can fail
  for want of memory.
\<close>

definition batadv_check_management_packet ::
    "bool \<Rightarrow> bool \<Rightarrow> bool \<Rightarrow> mac \<Rightarrow> mac \<Rightarrow> u8 list \<Rightarrow> nat \<Rightarrow> bool" where
  "batadv_check_management_packet pull_ok cow_ok linearize_ok dest src data header_len \<longleftrightarrow>
     pull_ok \<and> header_len \<le> length data \<and> dest = -1 \<and> src \<noteq> -1 \<and> cow_ok \<and> linearize_ok"

text \<open>The unpacking loop: the offsets at which messages are processed.\<close>

function ogm_offsets :: "(nat \<Rightarrow> u8) \<Rightarrow> u8 list \<Rightarrow> nat \<Rightarrow> nat list" where
  "ogm_offsets past data ogm_offset =
     (let tvlv_len = op_tvlv_len (ogm_at past data ogm_offset) in
      if batadv_iv_ogm_aggr_packet ogm_offset (length data) tvlv_len
      then ogm_offset # ogm_offsets past data (ogm_offset + BATADV_OGM_HLEN + unat tvlv_len)
      else [])"
  by pat_completeness auto
termination
  by (relation "measure (\<lambda>(_, _, pos). 513 - pos)") (auto simp: batadv_iv_ogm_aggr_packet_def)

declare ogm_offsets.simps [simp del]

definition batadv_iv_ogm_receive ::
    "(alloc_site \<Rightarrow> bool) \<Rightarrow> (nat \<Rightarrow> jiffies) \<Rightarrow> jiffies \<Rightarrow> (nat \<Rightarrow> if_out \<Rightarrow> u32) \<Rightarrow> bool \<Rightarrow> bool \<Rightarrow> bool \<Rightarrow> bool
      \<Rightarrow> mac \<Rightarrow> mac \<Rightarrow> (nat \<Rightarrow> u8) \<Rightarrow> u8 list \<Rightarrow> iface \<Rightarrow> batadv_priv \<Rightarrow> batadv_priv \<times> bool" where
  "batadv_iv_ogm_receive alloc m2j now rnd pull_ok cow_ok linearize_ok algo_iv dest src past data if_incoming st =
     (if \<not> batadv_check_management_packet pull_ok cow_ok linearize_ok dest src data BATADV_OGM_HLEN then (st, False)
      else if \<not> algo_iv then (st, False)
      else (fold (\<lambda>off st. batadv_iv_ogm_process alloc m2j now (rnd off) src past data off if_incoming st)
              (ogm_offsets past data 0) st, True))"

section \<open>Comparing neighbors\<close>

definition batadv_iv_ogm_neigh_cmp :: neigh_cmp where
  "batadv_iv_ogm_neigh_cmp neigh1 if_outgoing1 neigh2 if_outgoing2 =
     (case (batadv_neigh_ifinfo_get neigh1 if_outgoing1, batadv_neigh_ifinfo_get neigh2 if_outgoing2) of
        (Some i1, Some i2) \<Rightarrow> int (unat (ni_tq_avg i1)) - int (unat (ni_tq_avg i2))
      | _ \<Rightarrow> 0)"

definition batadv_iv_ogm_neigh_is_sob :: "batadv_neigh_node \<Rightarrow> if_out \<Rightarrow> batadv_neigh_node \<Rightarrow> if_out \<Rightarrow> bool" where
  "batadv_iv_ogm_neigh_is_sob neigh1 if_outgoing1 neigh2 if_outgoing2 =
     (case (batadv_neigh_ifinfo_get neigh1 if_outgoing1, batadv_neigh_ifinfo_get neigh2 if_outgoing2) of
        (Some i1, Some i2) \<Rightarrow>
          int (unat (ni_tq_avg i1)) - int (unat (ni_tq_avg i2)) > - BATADV_TQ_SIMILARITY_THRESHOLD
      | _ \<Rightarrow> False)"

end
