(* ===== verification/Iv_Rate.thy ===== *)
theory Iv_Rate
  imports Iv_Ogm
begin

text \<open>
  The arithmetic of the link rating: the machine computations of the ring buffer average, the
  hop penalty and the combined quality are the intended integer computations, none of them
  wraps, and a quality never grows on its way.
\<close>

section \<open>The average of the ring buffer\<close>

abbreviation tq_values :: "u8 list \<Rightarrow> nat list" where
  "tq_values lq \<equiv> map unat (filter (\<lambda>v. v \<noteq> 0) lq)"

lemma u8_less: "unat (v :: u8) < 256"
  using unsigned_less [of v] by simp

lemma sum_tq_values: "sum_list (tq_values lq) \<le> 255 * length (tq_values lq)"
proof (induction lq)
  case (Cons v lq)
  then show ?case using u8_less [of v] by simp
qed simp

lemma ring_buffer_scan_nat:
  "unat cnt + length lq < 256 \<Longrightarrow> unat acc + 255 * length lq < 2 ^ 16 \<Longrightarrow>
    (case ring_buffer_scan lq cnt acc of (c, s) \<Rightarrow>
       unat c = unat cnt + length (tq_values lq) \<and> unat s = unat acc + sum_list (tq_values lq))"
proof (induction lq arbitrary: cnt acc)
  case Nil
  then show ?case by simp
next
  case (Cons v lq)
  have v: "unat (ucast v :: u16) = unat v" "unat v < 256"
    using u8_less [of v] by (simp_all add: unsigned_ucast_eq take_bit_nat_eq_self)
  have "unat (cnt + 1) = unat cnt + 1" "unat (acc + ucast v) = unat acc + unat v"
    using Cons.prems v by (simp_all add: unat_word_ariths)
  with Cons.prems v Cons.IH [of "cnt + 1" "acc + ucast v"] Cons.IH [of cnt acc] show ?case
    by (auto split: prod.splits)
qed

lemma div_le_of_mult: "(s :: nat) \<le> k * n \<Longrightarrow> s div n \<le> k"
  using div_le_mono [of s "k * n" n] by (cases "n = 0") auto

lemma ring_buffer_avg_nat:
  assumes "length lq = 5"
  shows "unat (batadv_ring_buffer_avg lq) = sum_list (tq_values lq) div length (tq_values lq)"
proof -
  obtain c s where cs: "ring_buffer_scan lq 0 0 = (c, s)" by (cases "ring_buffer_scan lq 0 0")
  then have c: "unat c = length (tq_values lq)" and s: "unat s = sum_list (tq_values lq)"
    using ring_buffer_scan_nat [of 0 lq 0] assms by simp_all
  have le: "sum_list (tq_values lq) div length (tq_values lq) \<le> 255"
    using sum_tq_values by (rule div_le_of_mult)
  show ?thesis
    using assms cs c s le
    by (auto simp: batadv_ring_buffer_avg_def unat_div unsigned_ucast_eq take_bit_nat_eq_self word_unat_eq_iff)
qed


lemma sum_list_min: "\<forall>v \<in> set vs. a \<le> v \<Longrightarrow> length vs * a \<le> sum_list (vs :: nat list)"
  by (induction vs) auto

lemma sum_list_max: "\<forall>v \<in> set vs. v \<le> b \<Longrightarrow> sum_list (vs :: nat list) \<le> b * length vs"
  by (induction vs) auto

text \<open>
  The average of the ring buffer. The 16-bit computation is the integer average of the
  values that are not zero (zero when there is none), and lies between the smallest and the
  largest of them.
\<close>

theorem ring_buffer_avg_correct:
  assumes "length lq = BATADV_TQ_GLOBAL_WINDOW_SIZE"
  shows "unat (batadv_ring_buffer_avg lq) = sum_list (tq_values lq) div length (tq_values lq)
    \<and> (\<forall>a b. tq_values lq \<noteq> [] \<longrightarrow> (\<forall>v \<in> set (tq_values lq). a \<le> v \<and> v \<le> b) \<longrightarrow>
        a \<le> unat (batadv_ring_buffer_avg lq) \<and> unat (batadv_ring_buffer_avg lq) \<le> b)"
proof -
  note avg = ring_buffer_avg_nat [OF assms]
  have "a \<le> sum_list vs div length vs \<and> sum_list vs div length vs \<le> b"
    if "vs \<noteq> []" "\<forall>v \<in> set vs. a \<le> v \<and> v \<le> b" for a b and vs :: "nat list"
  proof
    have "length vs * a div length vs \<le> sum_list vs div length vs"
      using that sum_list_min [of vs a] by (intro div_le_mono) auto
    then show "a \<le> sum_list vs div length vs" using that(1) by simp
    show "sum_list vs div length vs \<le> b"
      using that sum_list_max [of vs b] by (intro div_le_of_mult) auto
  qed
  with avg show ?thesis by metis
qed

theorem ring_buffer_avg_correct_witness: "unat (batadv_ring_buffer_avg [0, 200, 0, 255, 101]) = 185"
  using ring_buffer_avg_correct [of "[0, 200, 0, 255, 101]"] by simp

section \<open>The hop penalty\<close>

lemma hop_penalty_nat:
  assumes "0 \<le> bp_hop_penalty st" "bp_hop_penalty st \<le> 255"
  shows "unat (batadv_hop_penalty tq st) = unat tq * (255 - nat (bp_hop_penalty st)) div 255"
    and "unat (batadv_hop_penalty tq st) \<le> unat tq"
proof -
  obtain k where k: "bp_hop_penalty st = int k" "k \<le> 255"
    using assms by (metis nat_0_le nat_le_iff int_nat_eq of_nat_numeral)
  have le: "unat tq * (255 - k) div 255 \<le> unat tq"
    by (rule div_le_of_mult) simp
  have "(int (unat tq) * (255 - int k)) sdiv 255 = int (unat tq * (255 - k) div 255)"
    using k(2) by (simp add: signed_divide_int_def sgn_if zdiv_int of_nat_diff del: of_nat_unat)
  then have "batadv_hop_penalty tq st = of_nat (unat tq * (255 - k) div 255)"
    by (simp add: batadv_hop_penalty_def k(1) Let_def del: of_nat_unat)
  moreover have "unat tq * (255 - k) div 255 < 2 ^ 8"
    using le u8_less [of tq] by simp
  ultimately have "unat (batadv_hop_penalty tq st) = unat tq * (255 - k) div 255"
    by (simp add: unat_of_nat take_bit_nat_eq_self del: of_nat_mult)
  then show "unat (batadv_hop_penalty tq st) = unat tq * (255 - nat (bp_hop_penalty st)) div 255"
    and "unat (batadv_hop_penalty tq st) \<le> unat tq"
    using le k by simp_all
qed

text \<open>
  C29. The hop penalty is the integer \<open>tq * (255 - penalty) / 255\<close>: for a penalty the configuration
  allows it does not wrap and never raises the quality.
\<close>

theorem hop_penalty_correct:
  assumes "0 \<le> bp_hop_penalty st" "bp_hop_penalty st \<le> int BATADV_TQ_MAX_VALUE"
  shows "unat (batadv_hop_penalty tq st) = unat tq * (255 - nat (bp_hop_penalty st)) div 255
    \<and> batadv_hop_penalty tq st \<le> tq"
  using hop_penalty_nat [of st tq] assms by (simp add: word_le_nat_alt)


theorem hop_penalty_correct_witness: "unat (batadv_hop_penalty 200 (priv_init 0 (\<lambda>_. hardif_init 0 False 1500) [])) = 176"
  using hop_penalty_correct [of "priv_init 0 (\<lambda>_. hardif_init 0 False 1500) []" 200] by (simp add: priv_init_def)

section \<open>The rating of a link\<close>

lemma unat_of_nat_small: "n < 2 ^ LENGTH('a) \<Longrightarrow> unat (of_nat n :: 'a::len word) = n"
  by (simp add: unat_of_nat take_bit_nat_eq_self)

lemma link_tq_own_nat:
  "unat (link_tq_own own rq) =
    (if unat own = 0 \<or> unat rq = 0 then 0 else 255 * min (unat own) (unat rq) div unat rq)"
proof -
  have le: "255 * min (unat own) (unat rq) div unat rq \<le> 255"
    by (rule div_le_of_mult) simp
  have eq: "unat (if own > rq then rq else own) = min (unat own) (unat rq)"
    by (simp add: word_less_nat_alt min_def)
  show ?thesis
    using le
    by (auto simp: link_tq_own_def Let_def eq word_less_nat_alt unat_of_nat_small simp del: of_nat_mult of_nat_div
        split: if_splits)
qed

lemma link_asym_penalty_nat:
  assumes "unat rq \<le> 64"
  shows "unat (link_asym_penalty rq) = 255 - 255 * (64 - unat rq) ^ 3 div 64 ^ 3"
proof -
  let ?i = "64 - unat rq"
  have inv: "unat (64 - rq) = ?i"
    using assms by (simp add: unat_sub_if')
  have cube: "?i * ?i * ?i \<le> 64 * 64 * 64" by (intro mult_le_mono) simp_all
  then have c: "unat (of_nat (?i * ?i * ?i) :: u32) = ?i * ?i * ?i"
    by (intro unat_of_nat_small) simp
  have "unat (255 * of_nat (?i * ?i * ?i) :: u32) = 255 * (?i * ?i * ?i)"
    unfolding unat_word_ariths c using cube by simp
  then have d: "unat (255 * of_nat (?i * ?i * ?i) div 262144 :: u32) = 255 * (?i * ?i * ?i) div 262144"
    by (simp add: unat_div)
  have le: "255 * (?i * ?i * ?i) div 262144 \<le> 255"
    using cube by (intro div_le_of_mult) simp
  have "unat (255 - 255 * of_nat (?i * ?i * ?i) div 262144 :: u32) = 255 - 255 * (?i * ?i * ?i) div 262144"
    using le d by (simp add: unat_sub word_le_nat_alt)
  then show ?thesis
    by (simp add: link_asym_penalty_def Let_def inv power3_eq_cube del: of_nat_mult)
qed

lemma link_combined_tq_nat:
  assumes "unat a \<le> 255" "unat i \<le> 255"
  shows "unat (link_combined_tq tq own a i) = unat tq * unat own * unat a * unat i div 255 ^ 3"
    and "unat (link_combined_tq tq own a i) \<le> unat tq"
proof -
  have own: "unat own \<le> 255" and tq: "unat tq \<le> 255" using u8_less [of own] u8_less [of tq] by simp_all
  have p2: "unat own * unat a \<le> 255 * 255" using own assms(1) by (intro mult_le_mono)
  have p3: "unat own * unat a * unat i \<le> 255 * 255 * 255" using mult_le_mono [OF p2 assms(2)] .
  have p4: "unat tq * (unat own * unat a * unat i) \<le> unat tq * 16581375" using p3 by simp
  have p4': "unat tq * (unat own * unat a * unat i) \<le> 255 * 16581375"
    using p4 tq by (meson mult_le_mono1 order_trans)
  have q2: "unat tq * unat own \<le> 255 * 255" using tq own by (intro mult_le_mono)
  have q3: "unat tq * unat own * unat a \<le> 255 * 255 * 255" using mult_le_mono [OF q2 assms(1)] .
  have w2: "unat (of_nat (unat tq * unat own) :: u32) = unat tq * unat own"
    using q2 by (intro unat_of_nat_small) simp
  have w3: "unat (of_nat (unat tq * unat own) * a :: u32) = unat tq * unat own * unat a"
    unfolding unat_word_ariths w2 using q3 by simp
  have w4: "unat (of_nat (unat tq * unat own) * a * i :: u32) = unat tq * unat own * unat a * unat i"
    unfolding unat_word_ariths(2) [of "_ * a"] w3 using p4' by (simp add: mult.assoc)
  have le: "unat tq * unat own * unat a * unat i div 16581375 \<le> unat tq"
    using p4 by (intro div_le_of_mult) (simp add: mult.assoc)
  have "unat (of_nat (unat tq * unat own) * a * i div 16581375 :: u32)
      = unat tq * unat own * unat a * unat i div 16581375"
    using w4 by (simp add: unat_div)
  then have "unat (link_combined_tq tq own a i) = unat tq * unat own * unat a * unat i div 16581375"
    using le tq by (simp add: link_combined_tq_def Let_def unsigned_ucast_eq take_bit_nat_eq_self del: of_nat_mult)
  then show "unat (link_combined_tq tq own a i) = unat tq * unat own * unat a * unat i div 255 ^ 3"
    and "unat (link_combined_tq tq own a i) \<le> unat tq"
    using le by simp_all
qed

definition own_share :: "nat \<Rightarrow> nat \<Rightarrow> nat" where
  "own_share own rq = (if own = 0 \<or> rq = 0 then 0 else 255 * min own rq div rq)"

text \<open>
  C33. The rating of a link is exact. For the counters the windows can have (at most 64), the
  32-bit product of quality, own quality, asymmetry penalty and interface penalty does not
  wrap: the result is the integer quotient by 255 cubed, where the own quality is the share
  of our messages that came back and the asymmetry penalty is one minus the cube of the share
  of messages that were lost. It never exceeds the received quality.
\<close>

theorem link_rating_exact:
  assumes "unat rq \<le> BATADV_TQ_LOCAL_WINDOW_SIZE" and "unat i \<le> BATADV_TQ_MAX_VALUE"
  shows "unat (link_combined_tq tq (link_tq_own own rq) (link_asym_penalty rq) i)
      = unat tq * own_share (unat own) (unat rq) * (255 - 255 * (64 - unat rq) ^ 3 div 64 ^ 3) * unat i div 255 ^ 3
    \<and> link_combined_tq tq (link_tq_own own rq) (link_asym_penalty rq) i \<le> tq"
proof -
  have "unat (link_asym_penalty rq) \<le> 255"
    using link_asym_penalty_nat [OF assms(1)] by simp
  from link_combined_tq_nat [OF this assms(2), of tq "link_tq_own own rq"] show ?thesis
    by (simp add: link_tq_own_nat link_asym_penalty_nat [OF assms(1)] own_share_def word_le_nat_alt)
qed

theorem link_rating_exact_witness:
  "unat (link_combined_tq 200 (link_tq_own 30 40) (link_asym_penalty 40) 255) = 142"
  using link_rating_exact [of 40 255 200 30] by (simp add: own_share_def)

end
