(* ===== verification/Send.thy ===== *)
theory Send
  imports Iv_Ogm
begin

text \<open>
  The packet queues of \<^verbatim>\<open>send.c\<close>: originator messages and broadcasts wait in lists until a
  delayed work item sends them. Each item is a step of its own, identified by the position
  of its packet in the list. The number of packets from other nodes that may wait is limited
  by the counters \<open>bp_batman_queue_left\<close> and \<open>bp_bcast_queue_left\<close>.
\<close>

section \<open>Originator messages\<close>

definition batadv_schedule_bat_ogm ::
    "(alloc_site \<Rightarrow> bool) \<Rightarrow> (nat \<Rightarrow> jiffies) \<Rightarrow> jiffies \<Rightarrow> u32 \<Rightarrow> (u8 list \<Rightarrow> nat \<Rightarrow> u8 list \<times> u16)
      \<Rightarrow> iface \<Rightarrow> batadv_priv \<Rightarrow> batadv_priv" where
  "batadv_schedule_bat_ogm alloc m2j now rnd ogm_append hard_iface st =
     (let status = hi_if_status (bp_iface st hard_iface) in
      if status = BATADV_IF_NOT_IN_USE \<or> status = BATADV_IF_TO_BE_REMOVED then st
      else
        let st = (if status = BATADV_IF_TO_BE_ACTIVATED
                  then upd_iface hard_iface (\<lambda>h. h\<lparr>hi_if_status := BATADV_IF_ACTIVE\<rparr>) st else st)
        in batadv_iv_ogm_schedule alloc m2j now rnd ogm_append hard_iface st)"

definition del_at :: "nat \<Rightarrow> 'a list \<Rightarrow> 'a list" where
  "del_at k xs = take k xs @ drop (Suc k) xs"

definition batadv_send_outstanding_bat_ogm_packet ::
    "(alloc_site \<Rightarrow> bool) \<Rightarrow> (nat \<Rightarrow> jiffies) \<Rightarrow> jiffies \<Rightarrow> u32 \<Rightarrow> (u8 list \<Rightarrow> nat \<Rightarrow> u8 list \<times> u16)
      \<Rightarrow> (nat \<Rightarrow> u8) \<Rightarrow> nat \<Rightarrow> batadv_priv \<Rightarrow> batadv_priv" where
  "batadv_send_outstanding_bat_ogm_packet alloc m2j now rnd ogm_append past k st =
     (let forw_packet = bp_forw_bat_list st ! k;
          st = st\<lparr>bp_forw_bat_list := del_at k (bp_forw_bat_list st)\<rparr>;
          st = (if bp_mesh_state st = BATADV_MESH_DEACTIVATING then st
                else
                  let (_, st) = batadv_iv_ogm_emit alloc past forw_packet st
                  in if fw_own forw_packet \<and> fw_if_incoming forw_packet = fw_if_outgoing forw_packet
                     then batadv_schedule_bat_ogm alloc m2j now rnd ogm_append (the (fw_if_incoming forw_packet)) st
                     else st)
      in if \<not> fw_own forw_packet then st\<lparr>bp_batman_queue_left := bp_batman_queue_left st + 1\<rparr> else st)"

section \<open>Broadcasts\<close>

text \<open>
  The time to live is the third byte of \<^verbatim>\<open>struct batadv_bcast_packet\<close>. The packet structure
  comes from \<^verbatim>\<open>kmalloc\<close>: \<open>junk\<close> is what the memory held, and stays in the members that are
  not assigned.
\<close>

definition batadv_add_bcast_packet_to_list ::
    "(alloc_site \<Rightarrow> bool) \<Rightarrow> batadv_forw_packet \<Rightarrow> u8 list \<Rightarrow> batadv_priv \<Rightarrow> batadv_priv \<times> bool" where
  "batadv_add_bcast_packet_to_list alloc junk skb st =
     (if bp_bcast_queue_left st = 0 then (st, False)
      else
        (case bp_primary_if st of
           None \<Rightarrow> (st, False)
         | Some primary_if \<Rightarrow>
             if \<not> alloc Alloc_Forw_Packet then (st, False)
             else if \<not> alloc Alloc_Forw_Skb then (st, False)
             else
               let forw_packet = junk\<lparr>fw_skb := skb[2 := skb ! 2 - 1], fw_if_incoming := Some primary_if,
                     fw_if_outgoing := None, fw_num_packets := 0\<rparr>
               in (st\<lparr>bp_bcast_queue_left := bp_bcast_queue_left st - 1,
                      bp_forw_bcast_list := forw_packet # bp_forw_bcast_list st\<rparr>, True)))"

definition rebroadcast ::
    "(alloc_site \<Rightarrow> bool) \<Rightarrow> nat option \<Rightarrow> batadv_forw_packet \<Rightarrow> iface \<Rightarrow> batadv_priv \<Rightarrow> batadv_priv" where
  "rebroadcast alloc soft_iface forw_packet hard_iface st =
     (if hi_soft_iface (bp_iface st hard_iface) \<noteq> soft_iface then st
      else if fw_num_packets forw_packet \<ge> hi_num_bcasts (bp_iface st hard_iface) then st
      else if alloc Alloc_Skb_Clone then ext_call (Call_send_broadcast hard_iface (fw_skb forw_packet)) st
      else st)"

text \<open>\<open>dat_drop\<close> is \<^verbatim>\<open>batadv_dat_drop_broadcast_packet\<close>.\<close>

definition batadv_send_outstanding_bcast_packet ::
    "(alloc_site \<Rightarrow> bool) \<Rightarrow> (batadv_forw_packet \<Rightarrow> bool) \<Rightarrow> nat \<Rightarrow> batadv_priv \<Rightarrow> batadv_priv" where
  "batadv_send_outstanding_bcast_packet alloc dat_drop k st =
     (let forw_packet = bp_forw_bcast_list st ! k;
          soft_iface = hi_soft_iface (bp_iface st (the (fw_if_incoming forw_packet)));
          st = st\<lparr>bp_forw_bcast_list := del_at k (bp_forw_bcast_list st)\<rparr>;
          out = (\<lambda>st. st\<lparr>bp_bcast_queue_left := bp_bcast_queue_left st + 1\<rparr>)
      in if bp_mesh_state st = BATADV_MESH_DEACTIVATING then out st
         else if dat_drop forw_packet then out st
         else
           let st = fold (rebroadcast alloc soft_iface forw_packet) (bp_hardif_list st) st;
               forw_packet = forw_packet\<lparr>fw_num_packets := fw_num_packets forw_packet + 1\<rparr>
           in if fw_num_packets forw_packet < BATADV_NUM_BCASTS_MAX
              then st\<lparr>bp_forw_bcast_list := forw_packet # bp_forw_bcast_list st\<rparr>
              else out st)"

section \<open>Purging\<close>

text \<open>
  \<open>pending\<close> is the result of \<^verbatim>\<open>cancel_delayed_work_sync\<close> on a packet: a packet whose work item
  already ran is not touched.
\<close>

definition purged :: "iface option \<Rightarrow> (batadv_forw_packet \<Rightarrow> bool) \<Rightarrow> batadv_forw_packet \<Rightarrow> bool" where
  "purged hard_iface pending forw_packet \<longleftrightarrow>
     (hard_iface = None \<or> fw_if_incoming forw_packet = hard_iface \<or> fw_if_outgoing forw_packet = hard_iface)
     \<and> pending forw_packet"

definition batadv_purge_outstanding_packets ::
    "iface option \<Rightarrow> (batadv_forw_packet \<Rightarrow> bool) \<Rightarrow> batadv_priv \<Rightarrow> batadv_priv" where
  "batadv_purge_outstanding_packets hard_iface pending st =
     (let gone = (\<lambda>l. length (filter (\<lambda>p. purged hard_iface pending p \<and> \<not> fw_own p) l));
          rest = filter (\<lambda>p. \<not> purged hard_iface pending p)
      in st\<lparr>bp_bcast_queue_left := bp_bcast_queue_left st + gone (bp_forw_bcast_list st),
            bp_forw_bcast_list := rest (bp_forw_bcast_list st),
            bp_batman_queue_left := bp_batman_queue_left st + gone (bp_forw_bat_list st),
            bp_forw_bat_list := rest (bp_forw_bat_list st)\<rparr>)"

end
