(* ===== verification/Iv_Unpack.thy ===== *)
theory Iv_Unpack
  imports Iv_Rate
begin

text \<open>
  Unpacking aggregated messages: the header survives writing and reading, a packet that is a
  concatenation of messages is taken apart into exactly these messages, and nothing behind
  the end of a packet matters.
\<close>

section \<open>Reading what was written\<close>

lemma length_ogm_bytes [simp]: "length (ogm_bytes h) = 24"
  by (simp add: ogm_bytes_def)

lemma rd_single: "rd_bytes past data i 1 = [rd past data i]"
  by (simp add: rd_bytes_def)

lemma ogm_fields:
  "rd_bytes past data pos 24 =
    [op_packet_type (ogm_at past data pos), op_version (ogm_at past data pos),
     op_ttl (ogm_at past data pos), op_flags (ogm_at past data pos)] @
    rd_bytes past data (pos + 4) 4 @ rd_bytes past data (pos + 8) 6 @ rd_bytes past data (pos + 14) 6 @
    [op_reserved (ogm_at past data pos), op_tq (ogm_at past data pos)] @ rd_bytes past data (pos + 22) 2"
proof -
  have "rd_bytes past data pos (4 + (4 + (6 + (6 + (2 + 2))))) =
     rd_bytes past data pos 4 @ rd_bytes past data (pos + 4) 4 @ rd_bytes past data (pos + 8) 6 @
     rd_bytes past data (pos + 14) 6 @ rd_bytes past data (pos + 20) 2 @ rd_bytes past data (pos + 22) 2"
    unfolding rd_bytes_split by (simp add: ac_simps)
  moreover have "rd_bytes past data pos 4 = [rd past data pos, rd past data (pos + 1), rd past data (pos + 2),
      rd past data (pos + 3)]" "rd_bytes past data (pos + 20) 2 = [rd past data (pos + 20), rd past data (pos + 21)]"
    by (simp_all add: rd_bytes_def upt_rec numeral_eq_Suc)
  ultimately show ?thesis by (simp add: ogm_at_def)
qed

lemma ogm_at_eq:
  assumes "rd_bytes past data pos 24 = ogm_bytes h"
  shows "ogm_at past data pos = h"
proof -
  note eq = assms [unfolded ogm_fields ogm_bytes_def]
  have "op_packet_type (ogm_at past data pos) = op_packet_type h" "op_version (ogm_at past data pos) = op_version h"
    "op_ttl (ogm_at past data pos) = op_ttl h" "op_flags (ogm_at past data pos) = op_flags h"
    and rest: "rd_bytes past data (pos + 4) 4 = be_bytes 4 (op_seqno h)"
    "rd_bytes past data (pos + 8) 6 = be_bytes 6 (op_orig h)"
    "rd_bytes past data (pos + 14) 6 = be_bytes 6 (op_prev_sender h)"
    "op_reserved (ogm_at past data pos) = op_reserved h" "op_tq (ogm_at past data pos) = op_tq h"
    "rd_bytes past data (pos + 22) 2 = be_bytes 2 (op_tvlv_len h)"
    using eq by (simp_all add: append_eq_append_conv)
  moreover have "op_seqno (ogm_at past data pos) = op_seqno h" "op_orig (ogm_at past data pos) = op_orig h"
    "op_prev_sender (ogm_at past data pos) = op_prev_sender h" "op_tvlv_len (ogm_at past data pos) = op_tvlv_len h"
    using rest(1-3,6) by (simp_all add: ogm_at_def)
  ultimately show ?thesis by (simp add: batadv_ogm_packet.equality)
qed

lemma ogm_at_append: "ogm_at past (xs @ ogm_bytes h @ zs) (length xs) = h"
  using rd_bytes_append [of past xs "ogm_bytes h" zs] by (intro ogm_at_eq) simp

lemma ogm_at_front [simp]: "ogm_at past (ogm_bytes h @ zs) 0 = h" "ogm_at past (ogm_bytes h) 0 = h"
  using ogm_at_append [of past "[]" h zs] ogm_at_append [of past "[]" h "[]"] by simp_all

lemma rd_inside: "i < length data \<Longrightarrow> rd past data i = rd past' data i"
  by (simp add: rd_def)

lemma ogm_at_inside: "pos + 24 \<le> length data \<Longrightarrow> ogm_at past data pos = ogm_at past' data pos"
  by (simp add: ogm_at_def rd_inside [of _ data past past'] rd_bytes_inside)

section \<open>Concatenated messages\<close>

type_synonym ogm_message = "batadv_ogm_packet \<times> u8 list"

definition message_bytes :: "ogm_message \<Rightarrow> u8 list" where
  "message_bytes m = ogm_bytes (fst m) @ snd m"

definition message_ok :: "ogm_message \<Rightarrow> bool" where
  "message_ok m \<longleftrightarrow> length (snd m) = unat (op_tvlv_len (fst m))"

definition message_at :: "(nat \<Rightarrow> u8) \<Rightarrow> u8 list \<Rightarrow> nat \<Rightarrow> ogm_message" where
  "message_at past data pos =
     (let h = ogm_at past data pos in (h, rd_bytes past data (pos + 24) (unat (op_tvlv_len h))))"

lemma message_at_append:
  assumes "message_ok m"
  shows "message_at past (xs @ message_bytes m @ zs) (length xs) = m"
proof -
  have "rd_bytes past ((xs @ ogm_bytes (fst m)) @ snd m @ zs) (length (xs @ ogm_bytes (fst m))) (length (snd m)) = snd m"
    by (rule rd_bytes_append)
  then show ?thesis
    using assms ogm_at_append [of past xs "fst m" "snd m @ zs"]
    by (simp add: message_at_def message_bytes_def message_ok_def)
qed

lemma offsets_stop:
  "length data < pos + 24 \<Longrightarrow> ogm_offsets past data pos = []"
  by (subst ogm_offsets.simps) (simp add: batadv_iv_ogm_aggr_packet_def)

lemma offsets_messages:
  assumes "\<forall>m \<in> set ms. message_ok m" and "length xs + length (concat (map message_bytes ms)) \<le> 512"
    and "length pad < 24"
  shows "map (message_at past (xs @ concat (map message_bytes ms) @ pad))
      (ogm_offsets past (xs @ concat (map message_bytes ms) @ pad) (length xs)) = ms"
  using assms
proof (induction ms arbitrary: xs)
  case Nil
  then show ?case by (simp add: offsets_stop)
next
  case (Cons m ms)
  let ?data = "xs @ concat (map message_bytes (m # ms)) @ pad"
  have m: "message_ok m" using Cons.prems(1) by simp
  have data: "?data = xs @ message_bytes m @ (concat (map message_bytes ms) @ pad)"
    "?data = (xs @ message_bytes m) @ concat (map message_bytes ms) @ pad" by simp_all
  have at: "message_at past ?data (length xs) = m"
    unfolding data(1) by (rule message_at_append [OF m])
  then have h: "ogm_at past ?data (length xs) = fst m"
    by (metis fst_conv message_at_def)
  have len: "length (message_bytes m) = 24 + unat (op_tvlv_len (fst m))"
    using m by (simp add: message_bytes_def message_ok_def)
  have "ogm_offsets past ?data (length xs) = length xs # ogm_offsets past ?data (length (xs @ message_bytes m))"
    using Cons.prems(2) len h
    by (subst ogm_offsets.simps) (simp add: batadv_iv_ogm_aggr_packet_def Let_def add.assoc)
  moreover have "map (message_at past ?data) (ogm_offsets past ?data (length (xs @ message_bytes m))) = ms"
    unfolding data(2) using Cons.prems by (intro Cons.IH) simp_all
  ultimately show ?case using at by simp
qed

lemma offsets_inside:
  "pos \<in> set (ogm_offsets past data start) \<Longrightarrow>
    pos + 24 + unat (op_tvlv_len (ogm_at past data pos)) \<le> length data"
proof (induction past data start rule: ogm_offsets.induct)
  case (1 past data start)
  let ?t = "op_tvlv_len (ogm_at past data start)"
  show ?case
  proof (cases "batadv_iv_ogm_aggr_packet start (length data) ?t")
    case True
    then have "pos = start \<or> pos \<in> set (ogm_offsets past data (start + 24 + unat ?t))"
      using "1.prems" by (subst (asm) ogm_offsets.simps) (simp add: Let_def)
    then show ?thesis
      using "1.IH" [OF refl True] True by (auto simp: batadv_iv_ogm_aggr_packet_def Let_def)
  next
    case False
    then show ?thesis using "1.prems" by (subst (asm) ogm_offsets.simps) (simp add: Let_def)
  qed
qed

lemma offsets_past: "ogm_offsets past data pos = ogm_offsets past' data pos"
proof (induction past data pos rule: ogm_offsets.induct)
  case (1 past data pos)
  show ?case
  proof (cases "pos + 24 \<le> length data")
    case True
    note h = ogm_at_inside [OF True, of past past']
    show ?thesis
      using "1.IH" [OF refl] by (subst (1 2) ogm_offsets.simps) (simp add: h Let_def)
  next
    case False
    then show ?thesis by (simp add: offsets_stop)
  qed
qed

text \<open>
  The state after a packet is the state after its messages, one by one: processing a message
  depends on the packet only through the message.
\<close>

definition process_message ::
    "(alloc_site \<Rightarrow> bool) \<Rightarrow> (nat \<Rightarrow> jiffies) \<Rightarrow> jiffies \<Rightarrow> (if_out \<Rightarrow> u32) \<Rightarrow> mac \<Rightarrow> iface \<Rightarrow> ogm_message
      \<Rightarrow> batadv_priv \<Rightarrow> batadv_priv" where
  "process_message alloc m2j now rnd src if_incoming m =
     batadv_iv_ogm_process alloc m2j now rnd src (\<lambda>_. 0) (message_bytes m) 0 if_incoming"

lemma process_message_at:
  assumes "pos + 24 + unat (op_tvlv_len (ogm_at past data pos)) \<le> length data"
  shows "batadv_iv_ogm_process alloc m2j now rnd src past data pos if_incoming
    = process_message alloc m2j now rnd src if_incoming (message_at past data pos)"
proof -
  let ?m = "message_at past data pos"
  have "message_ok ?m" by (simp add: message_at_def message_ok_def Let_def)
  from message_at_append [OF this, of "\<lambda>_. 0" "[]" "[]"]
  have "message_at (\<lambda>_. 0) (message_bytes ?m) 0 = ?m" by simp
  then have "ogm_at (\<lambda>_. 0) (message_bytes ?m) 0 = ogm_at past data pos"
    "rd_bytes (\<lambda>_. 0) (message_bytes ?m) 24 (unat (op_tvlv_len (ogm_at past data pos)))
      = rd_bytes past data (pos + 24) (unat (op_tvlv_len (ogm_at past data pos)))"
    by (auto simp: message_at_def Let_def)
  then show ?thesis
    by (simp add: fun_eq_iff process_message_def batadv_iv_ogm_process_def Let_def)
qed

lemma receive_messages:
  assumes "batadv_check_management_packet pull_ok cow_ok linearize_ok dest src data 24"
  shows "fst (batadv_iv_ogm_receive alloc m2j now rnd pull_ok cow_ok linearize_ok True dest src past data if_incoming st)
    = fold (\<lambda>(off, m). process_message alloc m2j now (rnd off) src if_incoming m)
        (map (\<lambda>off. (off, message_at past data off)) (ogm_offsets past data 0)) st"
proof -
  have "fold (\<lambda>off. batadv_iv_ogm_process alloc m2j now (rnd off) src past data off if_incoming) offs st
      = fold (\<lambda>(off, m). process_message alloc m2j now (rnd off) src if_incoming m)
          (map (\<lambda>off. (off, message_at past data off)) offs) st"
    if "set offs \<subseteq> set (ogm_offsets past data 0)" for offs
    using that
  proof (induction offs arbitrary: st)
    case (Cons off offs)
    then show ?case
      using process_message_at [OF offsets_inside, of off past data 0 alloc m2j now "rnd off" src if_incoming] by simp
  qed simp
  from this [OF order_refl] assms show ?thesis
    by (simp add: batadv_iv_ogm_receive_def)
qed


section \<open>Properties\<close>

lemma fold_snd: "fold (\<lambda>(x, m). f m) (map (\<lambda>x. (x, g x)) xs) s = fold f (map g xs) s"
  by (induction xs arbitrary: s) auto

text \<open>
  C4. Unpacking an aggregated packet. A packet that is the concatenation of well-formed
  messages of at most 512 bytes, with fewer than 24 bytes of padding behind, is processed as
  exactly these messages, each once and in order.
\<close>

theorem receive_unpacks_aggregate:
  assumes "\<forall>m \<in> set ms. message_ok m" and "ms \<noteq> []"
    and "length (concat (map message_bytes ms)) \<le> BATADV_MAX_AGGREGATION_BYTES"
    and "length pad < BATADV_OGM_HLEN" and "dest = -1" and "src \<noteq> -1"
  shows "batadv_iv_ogm_receive alloc m2j now (\<lambda>_. rnd) True True True True dest src past
      (concat (map message_bytes ms) @ pad) if_incoming st
    = (fold (process_message alloc m2j now rnd src if_incoming) ms st, True)"
proof -
  let ?data = "concat (map message_bytes ms) @ pad"
  obtain m ms' where ms: "ms = m # ms'" using assms(2) by (cases ms) auto
  then have "24 \<le> length ?data" by (simp add: message_bytes_def)
  then have ok: "batadv_check_management_packet True True True dest src ?data 24"
    using assms by (simp add: batadv_check_management_packet_def)
  have "map (message_at past ?data) (ogm_offsets past ?data 0) = ms"
    using offsets_messages [of ms "[]" pad past] assms by simp
  then have "fold (\<lambda>(off, m). process_message alloc m2j now rnd src if_incoming m)
        (map (\<lambda>off. (off, message_at past ?data off)) (ogm_offsets past ?data 0)) st
      = fold (process_message alloc m2j now rnd src if_incoming) ms st"
    by (simp add: fold_snd)
  with receive_messages [OF ok, of alloc m2j now "\<lambda>_. rnd" past if_incoming st] ok show ?thesis
    by (simp add: batadv_iv_ogm_receive_def)
qed

theorem receive_unpacks_aggregate_witness:
  "let m1 = (\<lparr>op_packet_type = 0, op_version = 15, op_ttl = 50, op_flags = 0, op_seqno = 7, op_orig = 0xA1,
        op_prev_sender = 0xA1, op_reserved = 0, op_tq = 255, op_tvlv_len = 2\<rparr>, [9, 8]);
      m2 = (\<lparr>op_packet_type = 0, op_version = 15, op_ttl = 49, op_flags = 4, op_seqno = 5, op_orig = 0xB2,
        op_prev_sender = 0xC3, op_reserved = 0, op_tq = 200, op_tvlv_len = 0\<rparr>, []);
      st = priv_init 0 (\<lambda>_. hardif_init 0 False 1500) []
   in batadv_iv_ogm_receive (\<lambda>_. True) of_nat 100 (\<lambda>_ _. 3) True True True True (-1) 0xC3 (\<lambda>_. 0)
        (message_bytes m1 @ message_bytes m2 @ [0, 0, 0]) 1 st
      = (process_message (\<lambda>_. True) of_nat 100 (\<lambda>_. 3) 0xC3 1 m2
           (process_message (\<lambda>_. True) of_nat 100 (\<lambda>_. 3) 0xC3 1 m1 st), True)"
proof -
  let ?m1 = "(\<lparr>op_packet_type = 0, op_version = 15, op_ttl = 50, op_flags = 0, op_seqno = 7, op_orig = 0xA1,
        op_prev_sender = 0xA1, op_reserved = 0, op_tq = 255, op_tvlv_len = 2\<rparr>, [9, 8] :: u8 list)"
  let ?m2 = "(\<lparr>op_packet_type = 0, op_version = 15, op_ttl = 49, op_flags = 4, op_seqno = 5, op_orig = 0xB2,
        op_prev_sender = 0xC3, op_reserved = 0, op_tq = 200, op_tvlv_len = 0\<rparr>, [] :: u8 list)"
  have "\<forall>m \<in> set [?m1, ?m2]. message_ok m" "[?m1, ?m2] \<noteq> []"
    "length (concat (map message_bytes [?m1, ?m2])) \<le> 512"
    by (simp_all add: message_ok_def message_bytes_def)
  from receive_unpacks_aggregate [OF this, of "[0, 0, 0]" "-1" "0xC3"] show ?thesis by (simp add: Let_def)
qed

text \<open>
  C5. The read behind the packet is harmless. The unpacking loop reads the length field of a
  header before it checks that the header lies within the packet; whatever is read there, the
  resulting state is the same.
\<close>

theorem receive_ignores_bytes_past_end:
  "batadv_iv_ogm_receive alloc m2j now rnd pull_ok cow_ok linearize_ok algo_iv dest src past data if_incoming st
    = batadv_iv_ogm_receive alloc m2j now rnd pull_ok cow_ok linearize_ok algo_iv dest src past' data if_incoming st"
proof -
  have proc: "batadv_iv_ogm_process alloc m2j now r src past data off if_incoming
      = batadv_iv_ogm_process alloc m2j now r src past' data off if_incoming"
    if "off \<in> set (ogm_offsets past data 0)" for off r
  proof -
    have len: "off + 24 + unat (op_tvlv_len (ogm_at past data off)) \<le> length data"
      using offsets_inside [OF that] .
    then have h: "ogm_at past' data off = ogm_at past data off" by (intro ogm_at_inside) simp
    have "message_at past data off = message_at past' data off"
      using len by (simp add: message_at_def h rd_bytes_inside Let_def)
    then show ?thesis using process_message_at [of off past data] process_message_at [of off past' data] len h by simp
  qed
  have "fold (\<lambda>off st. batadv_iv_ogm_process alloc m2j now (rnd off) src past data off if_incoming st)
      (ogm_offsets past data 0) st
    = fold (\<lambda>off st. batadv_iv_ogm_process alloc m2j now (rnd off) src past' data off if_incoming st)
      (ogm_offsets past data 0) st"
    by (intro fold_cong) (simp_all add: proc)
  then show ?thesis
    using offsets_past [of past data 0 past'] by (simp add: batadv_iv_ogm_receive_def)
qed

end
