(* ===== verification/Send_Props.thy ===== *)
theory Send_Props
  imports Send Iv_Unpack
begin

text \<open>
  The queues of \<^verbatim>\<open>send.c\<close>: how often a broadcast goes out, where a place in the queue can be
  lost, and the room in the aggregated packets.
\<close>

section \<open>Broadcasts\<close>

text \<open>The interfaces over which the broadcast goes out the \<open>n\<close>-th time.\<close>

definition bcast_round :: "batadv_priv \<Rightarrow> nat option \<Rightarrow> nat \<Rightarrow> iface list" where
  "bcast_round st soft n =
     filter (\<lambda>i. hi_soft_iface (bp_iface st i) = soft \<and> n < unat (hi_num_bcasts (bp_iface st i))) (bp_hardif_list st)"

lemma rebroadcast_all:
  assumes "alloc Alloc_Skb_Clone"
  shows "fold (rebroadcast alloc soft fp) is st = st\<lparr>bp_calls := bp_calls st @
    map (\<lambda>i. Call_send_broadcast i (fw_skb fp))
      (filter (\<lambda>i. hi_soft_iface (bp_iface st i) = soft \<and> unat (fw_num_packets fp) < unat (hi_num_bcasts (bp_iface st i))) is)\<rparr>"
  using assms
  by (induction "is" arbitrary: st) (auto simp: rebroadcast_def ext_call_def word_le_nat_alt)

text \<open>One run of the work item on the packet at the head of the list.\<close>

lemma bcast_work_head:
  assumes "alloc Alloc_Skb_Clone" "bp_mesh_state st \<noteq> BATADV_MESH_DEACTIVATING" "\<And>p. \<not> dat_drop p"
    and "bp_forw_bcast_list st = fp # rest" "fw_if_incoming fp = Some p" "unat (fw_num_packets fp) < 3"
  shows "batadv_send_outstanding_bcast_packet alloc dat_drop 0 st =
    (let calls = bp_calls st @ map (\<lambda>i. Call_send_broadcast i (fw_skb fp))
           (bcast_round st (hi_soft_iface (bp_iface st p)) (unat (fw_num_packets fp)))
     in if unat (fw_num_packets fp) < 2
        then st\<lparr>bp_calls := calls, bp_forw_bcast_list := fp\<lparr>fw_num_packets := fw_num_packets fp + 1\<rparr> # rest\<rparr>
        else st\<lparr>bp_calls := calls, bp_forw_bcast_list := rest, bp_bcast_queue_left := bp_bcast_queue_left st + 1\<rparr>)"
proof -
  have "unat (fw_num_packets fp + 1) = unat (fw_num_packets fp) + 1"
    using assms(6) by (simp add: unat_word_ariths)
  then have lt: "fw_num_packets fp + 1 < 3 \<longleftrightarrow> unat (fw_num_packets fp) < 2" by (simp add: word_less_nat_alt)
  show ?thesis
    using assms
    by (simp add: batadv_send_outstanding_bcast_packet_def del_at_def rebroadcast_all Let_def lt bcast_round_def)
qed

lemma count_calls:
  "distinct l \<Longrightarrow> length (filter (\<lambda>c. c = Call_send_broadcast i skb) (map (\<lambda>i. Call_send_broadcast i skb) (filter P l)))
    = (if i \<in> set l \<and> P i then 1 else 0)"
  by (induction l) auto

text \<open>
  C34. A broadcast that is queued and whose work item runs undisturbed goes out over every interface
  of the mesh as often as the interface asks for, at most three times, and over no other
  interface; then its place in the queue is free again.
\<close>

theorem bcast_sends:
  assumes "alloc Alloc_Skb_Clone" "alloc Alloc_Forw_Packet" "alloc Alloc_Forw_Skb"
    and "bp_mesh_state st \<noteq> BATADV_MESH_DEACTIVATING" "\<forall>p. \<not> dat_drop p" "bp_primary_if st = Some p"
    and "0 < bp_bcast_queue_left st" "distinct (bp_hardif_list st)"
  shows "\<exists>sent. (batadv_send_outstanding_bcast_packet alloc dat_drop 0 ^^ 3)
        (fst (batadv_add_bcast_packet_to_list alloc junk skb st)) = st\<lparr>bp_calls := bp_calls st @ sent\<rparr>
    \<and> (\<forall>i. length (filter (\<lambda>c. c = Call_send_broadcast i (skb[2 := skb ! 2 - 1])) sent)
         = (if i \<in> set (bp_hardif_list st) \<and> hi_soft_iface (bp_iface st i) = hi_soft_iface (bp_iface st p)
            then min (unat (hi_num_bcasts (bp_iface st i))) 3 else 0))"
proof -
  let ?skb = "skb[2 := skb ! 2 - 1]" and ?soft = "hi_soft_iface (bp_iface st p)"
  let ?fp = "\<lambda>n. junk\<lparr>fw_skb := ?skb, fw_if_incoming := Some p, fw_if_outgoing := None, fw_num_packets := n\<rparr>"
  let ?calls = "\<lambda>n. map (\<lambda>i. Call_send_broadcast i ?skb) (bcast_round st ?soft n)"
  have add: "fst (batadv_add_bcast_packet_to_list alloc junk skb st) =
      st\<lparr>bp_bcast_queue_left := bp_bcast_queue_left st - 1, bp_forw_bcast_list := ?fp 0 # bp_forw_bcast_list st\<rparr>"
    using assms by (simp add: batadv_add_bcast_packet_to_list_def)
  define w where "w = batadv_send_outstanding_bcast_packet alloc dat_drop 0"
  define s where "s = (\<lambda>n cs. st\<lparr>bp_bcast_queue_left := bp_bcast_queue_left st - 1,
      bp_forw_bcast_list := ?fp n # bp_forw_bcast_list st, bp_calls := bp_calls st @ cs\<rparr>)"
  have round: "bcast_round (s n cs) ?soft = bcast_round st ?soft" for n cs
    by (simp add: s_def bcast_round_def fun_eq_iff)
  have step: "w (s n cs) = s (n + 1) (cs @ ?calls (unat n))" if "unat n < 2" for n cs
    unfolding w_def using assms that round [of n cs]
    by (subst bcast_work_head [where fp = "?fp n" and rest = "bp_forw_bcast_list st" and p = p])
       (auto simp: s_def Let_def)
  have last: "w (s 2 cs) = st\<lparr>bp_calls := bp_calls st @ cs @ ?calls 2\<rparr>" for cs
    unfolding w_def using assms round [of 2 cs]
    by (subst bcast_work_head [where fp = "?fp 2" and rest = "bp_forw_bcast_list st" and p = p])
       (auto simp: s_def Let_def)
  have "(w ^^ 3) (fst (batadv_add_bcast_packet_to_list alloc junk skb st)) = w (w (w (s 0 [])))"
    by (simp add: add s_def numeral_3_eq_3)
  also have "\<dots> = st\<lparr>bp_calls := bp_calls st @ (?calls 0 @ ?calls 1) @ ?calls 2\<rparr>"
    using step [of 0 "[]"] step [of 1 "?calls 0"] last by simp
  finally have run: "(w ^^ 3) (fst (batadv_add_bcast_packet_to_list alloc junk skb st)) =
      st\<lparr>bp_calls := bp_calls st @ (?calls 0 @ ?calls 1) @ ?calls 2\<rparr>" .
  have "length (filter (\<lambda>c. c = Call_send_broadcast i ?skb) ((?calls 0 @ ?calls 1) @ ?calls 2))
      = (if i \<in> set (bp_hardif_list st) \<and> hi_soft_iface (bp_iface st i) = ?soft
         then min (unat (hi_num_bcasts (bp_iface st i))) 3 else 0)" for i
  proof -
    have "length (filter (\<lambda>c. c = Call_send_broadcast i ?skb) (?calls n)) =
        (if i \<in> set (bp_hardif_list st) \<and> hi_soft_iface (bp_iface st i) = ?soft
           \<and> n < unat (hi_num_bcasts (bp_iface st i)) then 1 else 0)" for n
      unfolding bcast_round_def by (rule count_calls [OF assms(8)])
    then show ?thesis unfolding filter_append length_append by auto
  qed
  with run show ?thesis unfolding w_def by blast
qed

definition demo_bcast :: batadv_priv where
  "demo_bcast = (priv_init 1 (\<lambda>i. (hardif_init 0 True 1500)\<lparr>hi_soft_iface := Some 1\<rparr>) [6])\<lparr>bp_primary_if := Some 6\<rparr>"

lemma demo_bcast_facts:
  "bp_calls demo_bcast = []" "bp_primary_if demo_bcast = Some 6" "bp_hardif_list demo_bcast = [6]"
  "bp_mesh_state demo_bcast = BATADV_MESH_INACTIVE" "bp_bcast_queue_left demo_bcast = 256"
  "hi_num_bcasts (bp_iface demo_bcast 6) = 3" "bp_forw_bcast_list demo_bcast = []"
  by (simp_all add: demo_bcast_def priv_init_def hardif_init_def)

lemma demo_ttl: "[4, 15, 50 :: u8][2 := [4, 15, 50] ! 2 - 1] = [4, 15, 49]"
  by (simp add: numeral_2_eq_2)

theorem bcast_sends_witness:
  "length (filter (\<lambda>c. c = Call_send_broadcast 6 [4, 15, 49])
     (bp_calls ((batadv_send_outstanding_bcast_packet (\<lambda>_. True) (\<lambda>_. False) 0 ^^ 3)
       (fst (batadv_add_bcast_packet_to_list (\<lambda>_. True) undefined [4, 15, 50] demo_bcast))))) = 3"
  using bcast_sends [where alloc = "\<lambda>_. True" and dat_drop = "\<lambda>_. False" and p = 6 and skb = "[4, 15, 50]"
      and junk = undefined and st = demo_bcast]
  by (auto simp: demo_bcast_facts demo_ttl)

text \<open>
  A place in the broadcast queue is lost when a waiting packet is purged whose memory held a
  nonzero byte where \<^verbatim>\<open>own\<close> is, because the member is never assigned.
\<close>

theorem bcast_purge_place:
  assumes "snd (batadv_add_bcast_packet_to_list alloc junk skb st)" "bp_forw_bcast_list st = []"
  shows "bp_bcast_queue_left (batadv_purge_outstanding_packets None (\<lambda>_. True)
      (fst (batadv_add_bcast_packet_to_list alloc junk skb st)))
    = (if fw_own junk then bp_bcast_queue_left st - 1 else bp_bcast_queue_left st)"
  using assms
  by (auto simp: batadv_add_bcast_packet_to_list_def batadv_purge_outstanding_packets_def purged_def Let_def
      split: option.splits if_splits)

theorem bcast_purge_place_witness:
  "bp_bcast_queue_left (batadv_purge_outstanding_packets None (\<lambda>_. True)
      (fst (batadv_add_bcast_packet_to_list (\<lambda>_. True) (undefined\<lparr>fw_own := True\<rparr>) [4, 15, 50] demo_bcast))) = 255"
  using bcast_purge_place [where alloc = "\<lambda>_. True" and junk = "undefined\<lparr>fw_own := True\<rparr>" and skb = "[4, 15, 50]"
      and st = demo_bcast]
  by (simp add: batadv_add_bcast_packet_to_list_def demo_bcast_facts)

section \<open>Room in the aggregated packets\<close>

definition forw_ok :: "batadv_forw_packet \<Rightarrow> bool" where
  "forw_ok fp \<longleftrightarrow> length (fw_skb fp) = unat (fw_packet_len fp)
     \<and> BATADV_MAX_AGGREGATION_BYTES \<le> unat (fw_packet_len fp) + fw_room fp"

lemma aggregate_first_ok:
  assumes "aggregate_first p f xs = Some (ys, over)" "\<forall>x \<in> set xs. Q x" "\<And>x. Q x \<Longrightarrow> p x \<Longrightarrow> Q (fst (f x)) \<and> \<not> snd (f x)"
  shows "(\<forall>y \<in> set ys. Q y) \<and> \<not> over"
  using assms by (induction xs arbitrary: ys) (auto split: if_splits)

lemma aggregate_ok:
  assumes "forw_ok fp" "unat (fw_packet_len fp) + packet_len \<le> 512" "packet_len \<le> length buff"
  shows "forw_ok (fst (batadv_iv_ogm_aggregate fp buff packet_len dl)) \<and> \<not> snd (batadv_iv_ogm_aggregate fp buff packet_len dl)"
proof -
  have "unat (fw_packet_len fp + of_nat packet_len) = unat (fw_packet_len fp) + packet_len"
    using assms(2) by (simp add: unat_word_ariths unat_of_nat)
  with assms show ?thesis by (auto simp: forw_ok_def batadv_iv_ogm_aggregate_def Let_def)
qed

text \<open>
  While aggregation is on, every packet that waits has room for the largest aggregate, so that
  a message is never written over the end of the buffer of a packet that it is appended to.
\<close>

theorem queue_add_room:
  assumes "bp_aggregated_ogms st" "\<forall>fp \<in> set (bp_forw_bat_list st). forw_ok fp"
    and "packet_len \<le> length buff" "packet_len < 2 ^ 16"
  shows "bp_panic (batadv_iv_ogm_queue_add alloc m2j buff packet_len i j own t st) = bp_panic st
    \<and> (\<forall>fp \<in> set (bp_forw_bat_list (batadv_iv_ogm_queue_add alloc m2j buff packet_len i j own t st)). forw_ok fp)"
proof -
  let ?p = "batadv_iv_ogm_can_aggregate m2j (ogm_at (\<lambda>_. 0) buff 0) st packet_len t
      (bit (op_flags (ogm_at (\<lambda>_. 0) buff 0)) BATADV_DIRECTLINK) i j"
  let ?f = "\<lambda>fp. batadv_iv_ogm_aggregate fp buff packet_len (bit (op_flags (ogm_at (\<lambda>_. 0) buff 0)) BATADV_DIRECTLINK)"
  have fits: "unat (fw_packet_len fp) + packet_len \<le> 512" if "?p fp" for fp
    using that by (auto simp: batadv_iv_ogm_can_aggregate_def Let_def split: if_splits)
  have agg: "(\<forall>y \<in> set ys. forw_ok y) \<and> \<not> over" if "aggregate_first ?p ?f (bp_forw_bat_list st) = Some (ys, over)" for ys over
    by (rule aggregate_first_ok [OF that assms(2)]) (rule aggregate_ok [OF _ fits assms(3)])
  have "unat (of_nat packet_len :: u16) = packet_len"
    using assms(4) by (simp add: unat_of_nat)
  then have new: "bp_panic (batadv_iv_ogm_aggregate_new alloc buff packet_len t' dl i j own st) = bp_panic st
    \<and> (\<forall>fp \<in> set (bp_forw_bat_list (batadv_iv_ogm_aggregate_new alloc buff packet_len t' dl i j own st)). forw_ok fp)" for t' dl
    using assms by (auto simp: batadv_iv_ogm_aggregate_new_def forw_ok_def Let_def)
  show ?thesis
    using agg new assms(1)
    by (cases "aggregate_first ?p ?f (bp_forw_bat_list st)") (auto simp: batadv_iv_ogm_queue_add_def Let_def split: if_splits)
qed

abbreviation demo_msg :: "u8 \<Rightarrow> u8 list" where
  "demo_msg tq \<equiv> ogm_bytes \<lparr>op_packet_type = 0, op_version = 15, op_ttl = 49, op_flags = 0, op_seqno = 7, op_orig = 0xA1,
     op_prev_sender = 0xA2, op_reserved = 0, op_tq = tq, op_tvlv_len = 0\<rparr>"

theorem queue_add_room_witness:
  "\<not> bp_panic (batadv_iv_ogm_queue_add (\<lambda>_. True) of_nat (demo_msg 200) 24 6 6 False 40
     (batadv_iv_ogm_queue_add (\<lambda>_. True) of_nat (demo_msg 250) 24 6 6 False 40 demo_bcast))"
proof -
  have len: "length (demo_msg tq) = 24" for tq by (simp add: ogm_bytes_def)
  have st: "bp_aggregated_ogms demo_bcast" "bp_forw_bat_list demo_bcast = []" "\<not> bp_panic demo_bcast"
    by (simp_all add: demo_bcast_def priv_init_def)
  let ?s = "batadv_iv_ogm_queue_add (\<lambda>_. True) of_nat (demo_msg 250) 24 6 6 False 40 demo_bcast"
  have 1: "bp_panic ?s = bp_panic demo_bcast \<and> (\<forall>fp \<in> set (bp_forw_bat_list ?s). forw_ok fp)"
    by (rule queue_add_room) (simp_all add: st len)
  have "bp_aggregated_ogms ?s"
    using st by (simp add: batadv_iv_ogm_queue_add_def batadv_iv_ogm_aggregate_new_def Let_def)
  from queue_add_room [OF this conjunct2 [OF 1], where packet_len = 24 and buff = "demo_msg 200"] 1 st(3)
  show ?thesis by (simp add: len)
qed

text \<open>
  The room is reserved according to the setting at the time a packet is queued, but used
  according to the setting when a further message arrives: when aggregation is switched on while
  a packet that was queued without it still waits, a message that may be appended to it is written
  over the end of its buffer.
\<close>

theorem queue_add_overrun:
  assumes "\<not> bp_aggregated_ogms st" "bp_forw_bat_list st = []" "bp_batman_queue_left st \<noteq> 0"
    and "alloc Alloc_Forw_Packet" "alloc Alloc_Forw_Skb" "0 < len'"
    and "batadv_iv_ogm_can_aggregate m2j (ogm_at (\<lambda>_. 0) buff' 0)
      ((batadv_iv_ogm_queue_add alloc m2j buff len i j False t st)\<lparr>bp_aggregated_ogms := True\<rparr>) len' t'
      (bit (op_flags (ogm_at (\<lambda>_. 0) buff' 0)) BATADV_DIRECTLINK) i' j'
      (hd (bp_forw_bat_list (batadv_iv_ogm_queue_add alloc m2j buff len i j False t st)))"
  shows "bp_panic (batadv_iv_ogm_queue_add alloc m2j buff' len' i' j' False t'
      ((batadv_iv_ogm_queue_add alloc m2j buff len i j False t st)\<lparr>bp_aggregated_ogms := True\<rparr>))"
proof -
  let ?s = "batadv_iv_ogm_queue_add alloc m2j buff len i j False t st"
  obtain fp where fp: "bp_forw_bat_list ?s = [fp]" "fw_room fp = 0"
    using assms(1-5) by (simp add: batadv_iv_ogm_queue_add_def batadv_iv_ogm_aggregate_new_def Let_def)
  then show ?thesis
    using assms(6,7) by (simp add: batadv_iv_ogm_queue_add_def [of _ _ buff'] batadv_iv_ogm_aggregate_def Let_def)
qed

theorem queue_add_overrun_witness:
  "bp_panic (batadv_iv_ogm_queue_add (\<lambda>_. True) of_nat (demo_msg 200) 24 6 6 False 40
     ((batadv_iv_ogm_queue_add (\<lambda>_. True) of_nat (demo_msg 250) 24 6 6 False 50
        (demo_bcast\<lparr>bp_aggregated_ogms := False\<rparr>))\<lparr>bp_aggregated_ogms := True\<rparr>))"
proof (rule queue_add_overrun)
  let ?st = "demo_bcast\<lparr>bp_aggregated_ogms := False\<rparr>"
  have s: "batadv_iv_ogm_queue_add (\<lambda>_. True) of_nat (demo_msg 250) 24 6 6 False 50 ?st =
     ?st\<lparr>bp_batman_queue_left := 255, bp_forw_bat_list := [\<lparr>fw_send_time = 50, fw_own = False, fw_skb = demo_msg 250,
       fw_room = 0, fw_packet_len = 24, fw_direct_link_flags = 0, fw_num_packets = 0,
       fw_if_incoming = Some 6, fw_if_outgoing = Some 6\<rparr>]\<rparr>"
    by (simp add: batadv_iv_ogm_queue_add_def batadv_iv_ogm_aggregate_new_def demo_bcast_def priv_init_def)
  show "batadv_iv_ogm_can_aggregate of_nat (ogm_at (\<lambda>_. 0) (demo_msg 200) 0)
      ((batadv_iv_ogm_queue_add (\<lambda>_. True) of_nat (demo_msg 250) 24 6 6 False 50 ?st)\<lparr>bp_aggregated_ogms := True\<rparr>) 24 40
      (bit (op_flags (ogm_at (\<lambda>_. 0) (demo_msg 200) 0)) BATADV_DIRECTLINK) 6 6
      (hd (bp_forw_bat_list (batadv_iv_ogm_queue_add (\<lambda>_. True) of_nat (demo_msg 250) 24 6 6 False 50 ?st)))"
    unfolding s by (simp add: batadv_iv_ogm_can_aggregate_def time_before_def time_after_eq_def demo_bcast_facts)
qed (simp_all add: demo_bcast_def priv_init_def)

end
