(* ===== verification/Iv_Invariant.thy ===== *)
theory Iv_Invariant
  imports Iv_Unpack
begin

text \<open>
  The invariant of the originator table under B.A.T.M.A.N. IV and its preservation by every
  operation that works on the table, up to the reception of a packet.
\<close>

section \<open>Well-formed tables\<close>

definition neigh_ifinfo_ok :: "batadv_neigh_ifinfo \<Rightarrow> bool" where
  "neigh_ifinfo_ok ni \<longleftrightarrow> length (ni_tq_recv ni) = BATADV_TQ_GLOBAL_WINDOW_SIZE
     \<and> unat (ni_tq_index ni) < BATADV_TQ_GLOBAL_WINDOW_SIZE
     \<and> ni_tq_avg ni = batadv_ring_buffer_avg (ni_tq_recv ni)
     \<and> unat (ni_real_packet_count ni) = bitmap_weight (ni_real_bits ni)"

definition neigh_ok :: "batadv_neigh_node \<Rightarrow> bool" where
  "neigh_ok neigh \<longleftrightarrow> (\<forall>ifo ni. map_of (nn_ifinfo neigh) ifo = Some ni \<longrightarrow> neigh_ifinfo_ok ni)"

text \<open>
  An originator of a mesh with \<open>n\<close> interfaces, where \<open>K\<close> are the addresses in the table: the
  weights are those of the bitmaps, the neighbor list names distinct objects that differ in
  address or interface, every router and every originator of a neighbor exists.
\<close>

definition neigh_key :: "batadv_orig_node \<Rightarrow> nat \<Rightarrow> mac \<times> iface" where
  "neigh_key on m = (nn_addr (on_neigh on m), nn_if_incoming (on_neigh on m))"

definition orig_ok :: "nat \<Rightarrow> mac set \<Rightarrow> mac \<Rightarrow> batadv_orig_node \<Rightarrow> bool" where
  "orig_ok n K a on \<longleftrightarrow> on_orig on = a
     \<and> length (on_bcast_own on) = n \<and> length (on_bcast_own_sum on) = n
     \<and> (\<forall>i < n. unat (on_bcast_own_sum on ! i) = bitmap_weight (on_bcast_own on ! i))
     \<and> (\<forall>m. neigh_ok (on_neigh on m))
     \<and> (\<forall>m < on_neigh_next on. nn_orig_node (on_neigh on m) \<in> K)
     \<and> (\<forall>m \<in> set (on_neigh_list on). m < on_neigh_next on)
     \<and> distinct (map (neigh_key on) (on_neigh_list on))
     \<and> (\<forall>ifo oi r. map_of (on_ifinfo on) ifo = Some oi \<longrightarrow> oi_router oi = Some r \<longrightarrow> r < on_neigh_next on)"

definition known :: "batadv_priv \<Rightarrow> mac set" where
  "known st = dom (map_of (bp_orig_hash st))"

definition table_ok :: "mac set \<Rightarrow> batadv_priv \<Rightarrow> bool" where
  "table_ok X st \<longleftrightarrow> distinct (map fst (bp_orig_hash st))
     \<and> (\<forall>a on. map_of (bp_orig_hash st) a = Some on \<longrightarrow> orig_ok (bp_num_ifaces st) (X \<union> known st) a on)"

section \<open>Operations on one originator\<close>

lemma neigh_ifinfo_zero_ok: "neigh_ifinfo_ok neigh_ifinfo_zero"
  by (simp add: neigh_ifinfo_ok_def neigh_ifinfo_zero_def batadv_ring_buffer_avg_def numeral_eq_Suc)

lemma unat_weight: "unat (of_nat (bitmap_weight b) :: u8) = bitmap_weight b"
  using bitmap_weight_le [of b] by (intro unat_of_nat_small) simp

lemma tq_push_ok: "neigh_ifinfo_ok ni \<Longrightarrow> neigh_ifinfo_ok (tq_push tq ni)"
proof -
  assume ni: "neigh_ifinfo_ok ni"
  have "unat (of_nat ((unat (ni_tq_index ni) + 1) mod 5) :: u8) < 5"
    by (subst unat_of_nat_small) (simp_all add: less_trans [OF mod_less_divisor])
  then show ?thesis
    using ni by (simp add: neigh_ifinfo_ok_def tq_push_def batadv_ring_buffer_set_def)
qed

lemma neigh_ifinfo_new_ok:
  assumes "neigh_ok neigh" "batadv_neigh_ifinfo_new alloc neigh ifo = (neigh', b)"
  shows "neigh_ok neigh'" "nn_addr neigh' = nn_addr neigh" "nn_if_incoming neigh' = nn_if_incoming neigh"
    "nn_orig_node neigh' = nn_orig_node neigh"
    "b \<Longrightarrow> map_of (nn_ifinfo neigh') ifo \<noteq> None"
  using assms neigh_ifinfo_zero_ok
  by (auto simp: batadv_neigh_ifinfo_new_def batadv_neigh_ifinfo_get_def neigh_ok_def
      split: option.splits if_splits)

lemma upd_neigh_ifinfo_ok:
  assumes "neigh_ok neigh" "\<And>ni. neigh_ifinfo_ok ni \<Longrightarrow> neigh_ifinfo_ok (f ni)"
  shows "neigh_ok (upd_neigh_ifinfo ifo f neigh)"
  using assms by (auto simp: upd_neigh_ifinfo_def batadv_neigh_ifinfo_get_def neigh_ok_def update_conv'
      split: option.splits)

lemma upd_neigh_ifinfo_frame [simp]:
  "nn_addr (upd_neigh_ifinfo ifo f neigh) = nn_addr neigh"
  "nn_if_incoming (upd_neigh_ifinfo ifo f neigh) = nn_if_incoming neigh"
  "nn_orig_node (upd_neigh_ifinfo ifo f neigh) = nn_orig_node neigh"
  "nn_last_seen (upd_neigh_ifinfo ifo f neigh) = nn_last_seen neigh"
  by (simp_all add: upd_neigh_ifinfo_def split: option.splits)

lemma upd_neigh_ok:
  assumes "orig_ok n K a on" "neigh_ok (on_neigh on m) \<Longrightarrow> neigh_ok (f (on_neigh on m))"
    and "nn_addr (f (on_neigh on m)) = nn_addr (on_neigh on m)"
    and "nn_if_incoming (f (on_neigh on m)) = nn_if_incoming (on_neigh on m)"
    and "m < on_neigh_next on \<Longrightarrow> nn_orig_node (on_neigh on m) \<in> K \<Longrightarrow> nn_orig_node (f (on_neigh on m)) \<in> K"
  shows "orig_ok n K a (upd_neigh m f on)"
proof -
  have "neigh_key (upd_neigh m f on) = neigh_key on"
    using assms(3,4) by (auto simp: fun_eq_iff neigh_key_def upd_neigh_def)
  then show ?thesis
    using assms by (auto simp: orig_ok_def upd_neigh_def)
qed

lemma upd_orig_ifinfo_ok:
  assumes "orig_ok n K a on" "\<And>oi. oi_router (f oi) = oi_router oi"
  shows "orig_ok n K a (upd_orig_ifinfo ifo f on)"
  using assms
  by (auto simp: orig_ok_def upd_orig_ifinfo_def batadv_orig_ifinfo_get_def update_conv' neigh_key_def
      cong: map_cong split: option.splits if_splits)

lemma upd_frames [simp]:
  "on_neigh_list (upd_neigh m f on) = on_neigh_list on" "on_neigh_next (upd_neigh m f on) = on_neigh_next on"
  "on_ifinfo (upd_neigh m f on) = on_ifinfo on"
  "on_neigh (upd_orig_ifinfo ifo g on) = on_neigh on" "on_neigh_list (upd_orig_ifinfo ifo g on) = on_neigh_list on"
  "on_neigh_next (upd_orig_ifinfo ifo g on) = on_neigh_next on"
  by (simp_all add: upd_neigh_def upd_orig_ifinfo_def split: option.splits)

lemma orig_ifinfo_new_ok:
  assumes "orig_ok n K a on" "batadv_orig_ifinfo_new alloc m2j now on ifo = (on', b)"
  shows "orig_ok n K a on'" "on_neigh_list on' = on_neigh_list on" "on_neigh_next on' = on_neigh_next on"
    "on_neigh on' = on_neigh on" "b \<Longrightarrow> map_of (on_ifinfo on') ifo \<noteq> None"
  using assms
  by (auto simp: batadv_orig_ifinfo_new_def batadv_orig_ifinfo_get_def orig_ok_def neigh_key_def Let_def
      cong: map_cong split: option.splits if_splits)

lemma orig_ok_mono: "orig_ok n K a on \<Longrightarrow> K \<subseteq> K' \<Longrightarrow> orig_ok n K' a on"
  by (auto simp: orig_ok_def)

lemma orig_ok_neigh: "orig_ok n K a on \<Longrightarrow> neigh_ok (on_neigh on m)"
  by (simp add: orig_ok_def)

lemma orig_update_scan_ok:
  assumes "orig_ok n K a on" "set ns \<subseteq> set (on_neigh_list on)"
    and "m = None \<or> (\<exists>k \<in> set (on_neigh_list on). m = Some k)"
    and "orig_update_scan src if_in ifo dup ns on m = (on', m')"
  shows "orig_ok n K a on' \<and> on_neigh_list on' = on_neigh_list on \<and> on_neigh_next on' = on_neigh_next on
    \<and> (m' = None \<or> (\<exists>k \<in> set (on_neigh_list on). m' = Some k))"
  using assms
proof (induction ns arbitrary: on m)
  case (Cons k ns)
  have upd: "orig_ok n K a (upd_neigh k (upd_neigh_ifinfo ifo (tq_push 0)) on)"
    by (rule upd_neigh_ok [OF Cons.prems(1)]) (simp_all add: upd_neigh_ifinfo_ok tq_push_ok)
  show ?case
    using Cons.prems Cons.IH [of on "Some k"] Cons.IH [of on m]
      Cons.IH [OF upd, of m] by (auto simp: Let_def split: if_splits)
qed simp

lemma update_seqnos_scan_ok:
  assumes "orig_ok n K a on"
    and "update_seqnos_scan alloc src if_in ifo lastno seqno diff ns on ret need = (on', ret', need')"
  shows "orig_ok n K a on' \<and> on_neigh_list on' = on_neigh_list on \<and> on_neigh_next on' = on_neigh_next on"
  using assms
proof (induction ns arbitrary: on ret need)
  case (Cons k ns)
  obtain neigh b where new: "batadv_neigh_ifinfo_new alloc (on_neigh on k) ifo = (neigh, b)" by force
  note neigh = neigh_ifinfo_new_ok [OF orig_ok_neigh [OF Cons.prems(1)] new]
  let ?upd = "\<lambda>bm. upd_neigh k (\<lambda>_. upd_neigh_ifinfo ifo
     (\<lambda>ni. ni\<lparr>ni_real_bits := bm, ni_real_packet_count := of_nat (bitmap_weight bm)\<rparr>) neigh) on"
  have "neigh_ok (upd_neigh_ifinfo ifo
     (\<lambda>ni. ni\<lparr>ni_real_bits := bm, ni_real_packet_count := of_nat (bitmap_weight bm)\<rparr>) neigh)" for bm
    using neigh(1) by (rule upd_neigh_ifinfo_ok) (simp add: neigh_ifinfo_ok_def unat_weight)
  then have upd: "orig_ok n K a (?upd bm)" for bm
    by (intro upd_neigh_ok [OF Cons.prems(1)]) (simp_all add: neigh)
  show ?case
    using Cons.prems new Cons.IH [OF Cons.prems(1)] Cons.IH [OF upd]
    by (cases b) (auto simp: Let_def split_def)
qed simp

lemma update_seqnos_orig_ok:
  assumes "orig_ok n K a on" "update_seqnos_orig alloc m2j now src seqno if_in ifo on = (on', ret)"
  shows "orig_ok n K a on'"
proof -
  obtain on1 b where new: "batadv_orig_ifinfo_new alloc m2j now on ifo = (on1, b)" by force
  note on1 = orig_ifinfo_new_ok(1) [OF assms(1) new]
  show ?thesis
  proof (cases b)
    case False
    then show ?thesis using assms(2) new on1 by (simp add: update_seqnos_orig_def)
  next
    case True
    have upd: "orig_ok n K a (upd_orig_ifinfo ifo (\<lambda>oi. oi\<lparr>oi_batman_seqno_reset := r\<rparr>) on1)" for r
      by (rule upd_orig_ifinfo_ok [OF on1]) simp
    show ?thesis
      using assms(2) new True upd update_seqnos_scan_ok [OF upd] upd_orig_ifinfo_ok
      by (auto simp: update_seqnos_orig_def Let_def split: prod.splits if_splits)
  qed
qed

section \<open>Operations on the table\<close>

text \<open>\<open>keeps X st st'\<close>: the invariant is preserved and no originator disappears.\<close>

definition keeps :: "mac set \<Rightarrow> batadv_priv \<Rightarrow> batadv_priv \<Rightarrow> bool" where
  "keeps X st st' \<longleftrightarrow> (table_ok X st \<longrightarrow> table_ok X st') \<and> known st \<subseteq> known st'"

lemma keeps_refl [simp]: "keeps X st st"
  by (simp add: keeps_def)

lemma keeps_trans: "keeps X st st' \<Longrightarrow> keeps X st' st'' \<Longrightarrow> keeps X st st''"
  by (auto simp: keeps_def)

lemma keepsD: "keeps X st st' \<Longrightarrow> table_ok X st \<Longrightarrow> table_ok X st'" "keeps X st st' \<Longrightarrow> a \<in> known st \<Longrightarrow> a \<in> known st'"
  by (auto simp: keeps_def)

lemma keeps_frame: "bp_orig_hash st' = bp_orig_hash st \<Longrightarrow> bp_num_ifaces st' = bp_num_ifaces st \<Longrightarrow> keeps X st st'"
  by (simp add: keeps_def table_ok_def known_def)

lemma frames [simp]:
  "bp_orig_hash (ext_call c st) = bp_orig_hash st" "bp_num_ifaces (ext_call c st) = bp_num_ifaces st"
  "bp_iface (ext_call c st) = bp_iface st"
  "bp_orig_hash (upd_iface i f st) = bp_orig_hash st" "bp_num_ifaces (upd_iface i f st) = bp_num_ifaces st"
  "bp_num_ifaces (upd_orig a g st) = bp_num_ifaces st" "bp_iface (upd_orig a g st) = bp_iface st"
  by (simp_all add: ext_call_def upd_iface_def upd_orig_def)

lemma frame_derived [simp]:
  "orig_at (ext_call c st) = orig_at st" "known (ext_call c st) = known st" "table_ok X (ext_call c st) = table_ok X st"
  "orig_at (upd_iface i f st) = orig_at st" "known (upd_iface i f st) = known st" "table_ok X (upd_iface i f st) = table_ok X st"
  by (simp_all add: fun_eq_iff orig_at_def known_def table_ok_def)

lemma orig_at_upd: "orig_at (upd_orig a f st) b = (if b = a then f (orig_at st a) else orig_at st b)"
  by (simp add: upd_orig_def orig_at_def update_conv')

lemma orig_at_upd_same [simp]: "orig_at (upd_orig a f st) a = f (orig_at st a)"
  by (simp add: orig_at_upd)

lemma known_upd [simp]: "known (upd_orig a f st) = insert a (known st)"
  by (auto simp: known_def upd_orig_def update_conv' split: if_splits)

lemma table_ok_at: "table_ok X st \<Longrightarrow> a \<in> known st \<Longrightarrow> orig_ok (bp_num_ifaces st) (X \<union> known st) a (orig_at st a)"
  by (auto simp: table_ok_def known_def orig_at_def dom_def)

lemma keeps_upd:
  assumes "a \<in> known st"
    and "\<And>n. orig_ok n (X \<union> known st) a (orig_at st a) \<Longrightarrow> orig_ok n (X \<union> known st) a (f (orig_at st a))"
  shows "keeps X st (upd_orig a f st)"
proof -
  have k: "known (upd_orig a f st) = known st" using assms(1) by auto
  have "table_ok X (upd_orig a f st)" if ok: "table_ok X st"
    using ok assms(2) [OF table_ok_at [OF ok assms(1)]]
    unfolding table_ok_def k by (auto simp: upd_orig_def update_conv' known_def table_ok_def distinct_update)
  then show ?thesis by (auto simp: keeps_def)
qed

lemma orig_node_new_ok:
  "batadv_orig_node_new alloc now addr = Some on \<Longrightarrow>
    orig_ok n K addr (on\<lparr>on_bcast_own := replicate n 0, on_bcast_own_sum := replicate n 0\<rparr>)"
  by (auto simp: batadv_orig_node_new_def orig_ok_def neigh_ok_def split: if_splits)

lemma table_ok_new:
  assumes "table_ok X st" "a \<notin> known st" "orig_ok (bp_num_ifaces st) (X \<union> insert a (known st)) a on"
  shows "table_ok X (st\<lparr>bp_orig_hash := (a, on) # bp_orig_hash st\<rparr>)"
proof -
  have "known (st\<lparr>bp_orig_hash := (a, on) # bp_orig_hash st\<rparr>) = insert a (known st)"
    by (auto simp: known_def)
  then show ?thesis
    using assms orig_ok_mono [OF _ subset_insertI]
    by (auto simp: table_ok_def known_def dom_map_of_conv_image_fst split: if_splits)
qed

lemma orig_get_keeps:
  assumes "batadv_iv_ogm_orig_get alloc now addr st = (st', r)"
  shows "keeps X st st'" and "r = Some b \<Longrightarrow> b = addr \<and> addr \<in> known st'"
proof -
  show "r = Some b \<Longrightarrow> b = addr \<and> addr \<in> known st'"
    using assms by (auto simp: batadv_iv_ogm_orig_get_def batadv_orig_hash_find_def known_def Let_def
        split: option.splits if_splits)
  show "keeps X st st'"
  proof (cases "addr \<in> known st")
    case True
    then show ?thesis using assms
      by (auto simp: batadv_iv_ogm_orig_get_def batadv_orig_hash_find_def known_def)
  next
    case False
    then have none: "map_of (bp_orig_hash st) addr = None" by (auto simp: known_def)
    show ?thesis
    proof (cases "st' = st")
      case False
      with assms none obtain on where on: "batadv_orig_node_new alloc now addr = Some on"
        "st' = st\<lparr>bp_orig_hash := (addr, on\<lparr>on_bcast_own := replicate (bp_num_ifaces st) 0,
            on_bcast_own_sum := replicate (bp_num_ifaces st) 0\<rparr>) # bp_orig_hash st\<rparr>"
        by (auto simp: batadv_iv_ogm_orig_get_def batadv_orig_hash_find_def Let_def split: option.splits if_splits)
      have "known st \<subseteq> known st'" by (auto simp: on(2) known_def)
      moreover have "table_ok X st'" if "table_ok X st"
        unfolding on(2) using table_ok_new [OF that \<open>addr \<notin> known st\<close> orig_node_new_ok [OF on(1)]] .
      ultimately show ?thesis by (simp add: keeps_def)
    qed simp
  qed
qed

lemma hardif_neigh_keeps:
  "batadv_hardif_neigh_get_or_create alloc now i addr st = (st', b) \<Longrightarrow>
    bp_orig_hash st' = bp_orig_hash st \<and> bp_num_ifaces st' = bp_num_ifaces st"
  by (auto simp: batadv_hardif_neigh_get_or_create_def batadv_hardif_neigh_create_def split: option.splits if_splits)

lemma orig_ok_add_neigh:
  assumes "orig_ok n K a on" "batadv_neigh_node_get on i addr = None" "o1 \<in> K" "m = on_neigh_next on"
  shows "orig_ok n K a (on\<lparr>on_neigh := (on_neigh on)(m := \<lparr>nn_orig_node = o1, nn_addr = addr, nn_ifinfo = [],
      nn_if_incoming = i, nn_last_seen = t\<rparr>), on_neigh_list := m # on_neigh_list on, on_neigh_next := m + 1\<rparr>)"
proof -
  define on' where "on' = on\<lparr>on_neigh := (on_neigh on)(m := \<lparr>nn_orig_node = o1, nn_addr = addr, nn_ifinfo = [],
      nn_if_incoming = i, nn_last_seen = t\<rparr>), on_neigh_list := m # on_neigh_list on, on_neigh_next := m + 1\<rparr>"
  have key: "neigh_key on' k = (if k = m then (addr, i) else neigh_key on k)" for k
    by (simp add: neigh_key_def on'_def)
  have ids: "m \<notin> set (on_neigh_list on)" using assms(1,4) by (auto simp: orig_ok_def)
  then have keys: "map (neigh_key on') (on_neigh_list on) = map (neigh_key on) (on_neigh_list on)"
    by (auto simp: key)
  have "(addr, i) \<notin> neigh_key on ` set (on_neigh_list on)"
    using assms(2) by (auto simp: batadv_neigh_node_get_def find_None_iff neigh_key_def)
  moreover have list: "on_neigh_list on' = m # on_neigh_list on" by (simp add: on'_def)
  moreover have "distinct (map (neigh_key on) (on_neigh_list on))" using assms(1) by (simp add: orig_ok_def)
  ultimately have "distinct (map (neigh_key on') (on_neigh_list on'))"
    unfolding list list.map keys by (simp add: key)
  moreover have "m = on_neigh_next on" by fact
  ultimately have "orig_ok n K a on'"
    using assms(1,3) by (auto simp: orig_ok_def neigh_ok_def on'_def less_Suc_eq)
  then show ?thesis by (simp only: on'_def)
qed

lemma neigh_get_next:
  "orig_ok n K a on \<Longrightarrow> batadv_neigh_node_get on i addr = Some m \<Longrightarrow> m < on_neigh_next on"
  by (auto simp: batadv_neigh_node_get_def orig_ok_def dest!: find_SomeD)

text \<open>A new neighbor: the invariant is kept and the neighbor exists afterwards.\<close>

definition neigh_add :: "mac \<Rightarrow> mac \<Rightarrow> iface \<Rightarrow> jiffies \<Rightarrow> nat \<Rightarrow> batadv_orig_node \<Rightarrow> batadv_orig_node" where
  "neigh_add a addr i now n on = on\<lparr>on_neigh := (on_neigh on)(n := \<lparr>nn_orig_node = a, nn_addr = addr,
      nn_ifinfo = [], nn_if_incoming = i, nn_last_seen = now\<rparr>),
    on_neigh_list := n # on_neigh_list on, on_neigh_next := n + 1\<rparr>"

lemma neigh_node_new_new:
  assumes "batadv_neigh_node_get (orig_at st a) i addr = None"
    and "batadv_hardif_neigh_get_or_create alloc now i addr st = (s, True)"
    and "alloc (Alloc_Neigh_Node a i addr)"
  shows "batadv_neigh_node_new alloc now a i addr st =
    (upd_orig a (neigh_add a addr i now (on_neigh_next (orig_at s a))) s, Some (on_neigh_next (orig_at s a)))"
  using assms by (simp add: batadv_neigh_node_new_def Let_def neigh_add_def [abs_def])

lemma neigh_node_new_keeps:
  assumes "batadv_neigh_node_new alloc now a i addr st = (st', r)" "a \<in> known st"
  shows "keeps X st st'" and "a \<in> known st'" and "table_ok X st \<Longrightarrow> r = Some m \<Longrightarrow> m < on_neigh_next (orig_at st' a)"
proof -
  have "keeps X st st' \<and> a \<in> known st' \<and> (table_ok X st \<longrightarrow> (\<forall>m. r = Some m \<longrightarrow> m < on_neigh_next (orig_at st' a)))"
  proof (cases "batadv_neigh_node_get (orig_at st a) i addr")
    case (Some k)
    then show ?thesis
      using assms neigh_get_next [OF table_ok_at [OF _ assms(2)] Some] by (auto simp: batadv_neigh_node_new_def)
  next
    case None
    obtain s b where s: "batadv_hardif_neigh_get_or_create alloc now i addr st = (s, b)" by force
    note h = hardif_neigh_keeps [OF s]
    have ks: "keeps X st s" using h by (intro keeps_frame) simp_all
    have at: "orig_at s a = orig_at st a" using h by (simp add: orig_at_def)
    have a: "a \<in> known s" using keepsD(2) [OF ks assms(2)] .
    show ?thesis
    proof (cases "b \<and> alloc (Alloc_Neigh_Node a i addr)")
      case True
      then have r: "st' = upd_orig a (neigh_add a addr i now (on_neigh_next (orig_at s a))) s"
        "r = Some (on_neigh_next (orig_at s a))"
        using neigh_node_new_new [OF None, of alloc now s] s assms(1) by simp_all
      have "keeps X s st'"
        unfolding r(1) by (rule keeps_upd [OF a], unfold neigh_add_def, rule orig_ok_add_neigh)
          (use None at a in auto)
      with ks show ?thesis using keeps_trans [of X st s st'] a by (auto simp: r neigh_add_def)
    next
      case False
      then have "st' = s" "r = None"
        using assms(1) None s by (auto simp: batadv_neigh_node_new_def split: bool.splits)
      then show ?thesis using ks a by simp
    qed
  qed
  then show "keeps X st st'" and "a \<in> known st'" and "table_ok X st \<Longrightarrow> r = Some m \<Longrightarrow> m < on_neigh_next (orig_at st' a)"
    by auto
qed

lemma neigh_new_keeps:
  assumes "batadv_iv_ogm_neigh_new alloc now i addr a o1 st = (st', r)" "a \<in> known st" "o1 \<in> known st"
  shows "keeps X st st'" and "a \<in> known st'" and "table_ok X st \<Longrightarrow> r = Some m \<Longrightarrow> m < on_neigh_next (orig_at st' a)"
proof -
  obtain s q where s: "batadv_neigh_node_new alloc now a i addr st = (s, q)" by force
  note new = neigh_node_new_keeps [OF s assms(2)]
  have o1: "o1 \<in> known s" using keepsD(2) [OF new(1) assms(3)] .
  have "keeps X st st' \<and> a \<in> known st'"
  proof (cases q)
    case (Some k)
    have "keeps X s (upd_orig a (upd_neigh k (\<lambda>neigh. neigh\<lparr>nn_orig_node := o1\<rparr>)) s)"
      by (rule keeps_upd [OF new(2)], rule upd_neigh_ok) (simp_all add: neigh_ok_def o1)
    then show ?thesis
      using assms(1) s Some keeps_trans [OF new(1)] by (auto simp: batadv_iv_ogm_neigh_new_def)
  qed (use assms(1) s new in \<open>auto simp: batadv_iv_ogm_neigh_new_def\<close>)
  then show "keeps X st st'" "a \<in> known st'" by simp_all
  show "table_ok X st \<Longrightarrow> r = Some m \<Longrightarrow> m < on_neigh_next (orig_at st' a)"
    using assms(1) s new(3) by (auto simp: batadv_iv_ogm_neigh_new_def split: option.splits)
qed

lemma update_route_ok:
  assumes "orig_ok n K a on" "\<forall>m. r = Some m \<longrightarrow> m < on_neigh_next on"
  shows "orig_ok n K a (on\<lparr>on_ifinfo := AList.update ifo (oi\<lparr>oi_router := r\<rparr>) (on_ifinfo on)\<rparr>)"
  using assms
  by (auto simp: orig_ok_def update_conv' neigh_key_def cong: map_cong split: if_splits)

lemma update_route_keeps:
  assumes "a \<in> known st" "table_ok X st \<Longrightarrow> \<forall>m. r = Some m \<longrightarrow> m < on_neigh_next (orig_at st a)"
  shows "keeps X st (batadv_update_route a ifo r st)"
proof -
  have "keeps X st (upd_orig a (\<lambda>on. on\<lparr>on_ifinfo := AList.update ifo (oi\<lparr>oi_router := r\<rparr>) (on_ifinfo on)\<rparr>) st')"
    if "st' = st \<or> st' = ext_call c st" for st' oi c
  proof (cases "table_ok X st")
    case True
    with that assms have "keeps X st' (upd_orig a (\<lambda>on. on\<lparr>on_ifinfo :=
        AList.update ifo (oi\<lparr>oi_router := r\<rparr>) (on_ifinfo on)\<rparr>) st')"
      by (intro keeps_upd update_route_ok) auto
    moreover have "keeps X st st'" using that by (intro keeps_frame) auto
    ultimately show ?thesis using keeps_trans by blast
  next
    case False
    with that assms(1) show ?thesis by (auto simp: keeps_def)
  qed
  then show ?thesis
    by (auto simp: batadv_update_route_def batadv_update_route1_def Let_def split: option.splits)
qed

lemma keeps_known: "keeps X st st' \<Longrightarrow> a \<in> known st \<Longrightarrow> a \<in> known st'"
  by (auto simp: keeps_def)

lemma upd_neigh_const_ok:
  assumes "orig_ok n K a on" "neigh_ok neigh" "nn_addr neigh = nn_addr (on_neigh on m)"
    "nn_if_incoming neigh = nn_if_incoming (on_neigh on m)" "nn_orig_node neigh = nn_orig_node (on_neigh on m)"
  shows "orig_ok n K a (upd_neigh m (\<lambda>_. neigh) on)"
  using assms by (intro upd_neigh_ok) simp_all

lemma credit_ok:
  assumes "neigh_ok neigh"
  shows "neigh_ok (credit now ogm ifo dup neigh)" "nn_addr (credit now ogm ifo dup neigh) = nn_addr neigh"
    "nn_if_incoming (credit now ogm ifo dup neigh) = nn_if_incoming neigh"
    "nn_orig_node (credit now ogm ifo dup neigh) = nn_orig_node neigh"
proof -
  have "neigh_ok (neigh\<lparr>nn_last_seen := now\<rparr>)" using assms by (simp add: neigh_ok_def)
  then have "neigh_ok (upd_neigh_ifinfo ifo (tq_push (op_tq ogm)) (neigh\<lparr>nn_last_seen := now\<rparr>))"
    by (rule upd_neigh_ifinfo_ok) (rule tq_push_ok)
  then show "neigh_ok (credit now ogm ifo dup neigh)"
    by (auto simp: credit_def Let_def neigh_ifinfo_ok_def intro!: upd_neigh_ifinfo_ok)
qed (simp_all add: credit_def Let_def)

lemma credited_keeps:
  assumes "a \<in> known st" and "batadv_neigh_ifinfo_new alloc (on_neigh (orig_at st a) n) ifo = (neigh, b)"
  shows "keeps X st (credited now a ogm ifo dup n neigh st)"
    and "on_neigh_next (orig_at (credited now a ogm ifo dup n neigh st) a) = on_neigh_next (orig_at st a)"
proof -
  let ?st = "upd_orig a (upd_neigh n (\<lambda>_. credit now ogm ifo dup neigh)) st"
  have 1: "keeps X st ?st"
  proof (rule keeps_upd [OF assms(1)])
    fix k
    assume ok: "orig_ok k (X \<union> known st) a (orig_at st a)"
    note neigh = neigh_ifinfo_new_ok [OF orig_ok_neigh [OF ok] assms(2)]
    show "orig_ok k (X \<union> known st) a (upd_neigh n (\<lambda>_. credit now ogm ifo dup neigh) (orig_at st a))"
      by (rule upd_neigh_const_ok [OF ok]) (simp_all add: credit_ok neigh)
  qed
  have "keeps X ?st (upd_orig a (upd_orig_ifinfo ifo (\<lambda>oi. oi\<lparr>oi_last_ttl := op_ttl ogm\<rparr>)) ?st)"
    by (rule keeps_upd) (simp_all add: upd_orig_ifinfo_ok)
  with 1 show "keeps X st (credited now a ogm ifo dup n neigh st)"
    by (auto simp: credited_def Let_def intro: keeps_trans)
  show "on_neigh_next (orig_at (credited now a ogm ifo dup n neigh st) a) = on_neigh_next (orig_at st a)"
    by (simp add: credited_def Let_def)
qed

lemma orig_update_neigh_keeps:
  assumes "a \<in> known st" "table_ok X st \<Longrightarrow> n < on_neigh_next (orig_at st a)"
  shows "keeps X st (orig_update_neigh alloc now a ogm ifo dup n st)"
proof -
  obtain neigh b where new: "batadv_neigh_ifinfo_new alloc (on_neigh (orig_at st a) n) ifo = (neigh, b)" by force
  let ?st = "credited now a ogm ifo dup n neigh st"
  note c = credited_keeps(1) [OF assms(1) new, of X now ogm dup] credited_keeps(2) [OF assms(1) new, of now ogm dup]
  show ?thesis
  proof (cases "table_ok X st")
    case True
    have "keeps X ?st (batadv_update_route a ifo (Some n) ?st)"
      using c keeps_known [OF c(1) assms(1)] assms(2) [OF True] by (intro update_route_keeps) auto
    with c(1) new show ?thesis
      by (cases b) (auto simp: orig_update_neigh_def Let_def intro: keeps_trans)
  next
    case False
    have "known st \<subseteq> known (batadv_update_route a ifo (Some n) ?st)"
      using c(1) by (auto simp: keeps_def batadv_update_route_def batadv_update_route1_def Let_def split: option.splits)
    with False c(1) new show ?thesis
      by (cases b) (auto simp: orig_update_neigh_def Let_def keeps_def)
  qed
qed

lemma orig_update_neigh_known: "known s \<subseteq> known (orig_update_neigh alloc now a ogm ifo dup n s)"
  by (auto simp: orig_update_neigh_def credited_def batadv_update_route_def batadv_update_route1_def Let_def
      split: prod.splits bool.splits option.splits)

lemma orig_update_known: "known st \<subseteq> known (batadv_iv_ogm_orig_update alloc now a src ogm if_in ifo dup st)"
proof -
  obtain on m where scan: "orig_update_scan src if_in ifo dup (on_neigh_list (orig_at st a)) (orig_at st a) None = (on, m)"
    by force
  let ?st = "upd_orig a (\<lambda>_. on) st"
  obtain s r where get: "batadv_iv_ogm_orig_get alloc now src ?st = (s, r)" by force
  note g = orig_get_keeps [OF get]
  have s: "known st \<subseteq> known s" "a \<in> known s" using g(1) by (auto simp: keeps_def)
  obtain s2 q where new: "batadv_iv_ogm_neigh_new alloc now if_in src a (the r) s = (s2, q)" by force
  have s2: "r \<noteq> None \<Longrightarrow> known s \<subseteq> known s2"
    using neigh_new_keeps(1) [OF new s(2)] g(2) by (force simp: keeps_def)
  have k: "known st \<subseteq> known (orig_update_neigh alloc now a ogm ifo dup n ?st)"
    "r \<noteq> None \<Longrightarrow> known st \<subseteq> known s2"
    "r \<noteq> None \<Longrightarrow> known st \<subseteq> known (orig_update_neigh alloc now a ogm ifo dup n s2)" for n
    using orig_update_neigh_known [of ?st alloc now a ogm ifo dup n]
      orig_update_neigh_known [of s2 alloc now a ogm ifo dup n] s s2 by auto
  show ?thesis
    using k s(1) new
    by (cases m; cases r; cases q) (simp_all add: batadv_iv_ogm_orig_update_def scan get Let_def)
qed

lemma orig_update_keeps:
  assumes a: "a \<in> known st"
  shows "keeps X st (batadv_iv_ogm_orig_update alloc now a src ogm if_in ifo dup st)"
proof (cases "table_ok X st")
  case ok: True
  obtain on m where scan: "orig_update_scan src if_in ifo dup (on_neigh_list (orig_at st a)) (orig_at st a) None = (on, m)"
    by force
  note sc = orig_update_scan_ok [OF table_ok_at [OF ok a] order_refl _ scan]
  let ?st = "upd_orig a (\<lambda>_. on) st"
  have k1: "keeps X st ?st"
    using orig_update_scan_ok [OF _ order_refl _ scan] by (intro keeps_upd [OF a]) auto
  have a1: "a \<in> known ?st" by simp
  have lt: "m = Some n \<Longrightarrow> n < on_neigh_next (orig_at ?st a)" for n
    using sc table_ok_at [OF ok a] by (auto simp: orig_ok_def)
  show ?thesis
  proof (cases m)
    case (Some n)
    have "keeps X ?st (orig_update_neigh alloc now a ogm ifo dup n ?st)"
      using lt [OF Some] by (intro orig_update_neigh_keeps [OF a1])
    with k1 show ?thesis
      using keeps_trans [OF k1] by (simp add: batadv_iv_ogm_orig_update_def scan Some)
  next
    case None
    obtain s r where get: "batadv_iv_ogm_orig_get alloc now src ?st = (s, r)" by force
    note g = orig_get_keeps [OF get]
    have a2: "a \<in> known s" using keeps_known [OF g(1) a1] .
    have k2: "keeps X st s" using keeps_trans [OF k1 g(1)] .
    show ?thesis
    proof (cases r)
      case (Some o1)
      have o1: "o1 \<in> known s" using g(2) [OF Some] by simp
      obtain s2 q where new: "batadv_iv_ogm_neigh_new alloc now if_in src a o1 s = (s2, q)" by force
      note nn = neigh_new_keeps [OF new a2 o1]
      have k3: "keeps X st s2" using keeps_trans [OF k2 nn(1)] .
      have "keeps X st (orig_update_neigh alloc now a ogm ifo dup n s2)" if "q = Some n" for n
        using nn(3) [OF keepsD(1) [OF k2 ok] that] by (intro keeps_trans [OF k3] orig_update_neigh_keeps [OF nn(2)])
      with k3 show ?thesis
        by (cases q) (auto simp: batadv_iv_ogm_orig_update_def scan None get Some new)
    qed (use k2 in \<open>simp add: batadv_iv_ogm_orig_update_def scan None get\<close>)
  qed
qed (use orig_update_known in \<open>simp add: keeps_def\<close>)

lemma update_seqnos_keeps:
  "keeps X st (fst (batadv_iv_ogm_update_seqnos alloc m2j now src ogm if_in ifo st))"
proof -
  obtain s r where get: "batadv_iv_ogm_orig_get alloc now (op_orig ogm) st = (s, r)" by force
  note g = orig_get_keeps [OF get]
  show ?thesis
  proof (cases r)
    case (Some b)
    obtain on d where u: "update_seqnos_orig alloc m2j now src (op_seqno ogm) if_in ifo (orig_at s b) = (on, d)" by force
    have "keeps X s (upd_orig b (\<lambda>_. on) s)"
      using g(2) [OF Some] update_seqnos_orig_ok [OF _ u] by (intro keeps_upd) auto
    then show ?thesis
      using keeps_trans [OF g(1)] by (simp add: batadv_iv_ogm_update_seqnos_def get Some u)
  qed (use g(1) in \<open>simp add: batadv_iv_ogm_update_seqnos_def get\<close>)
qed

lemma calc_tq_keeps:
  assumes a: "a \<in> known st" and b: "b \<in> known st"
  shows "keeps X st (fst (batadv_iv_ogm_calc_tq alloc now a b ogm if_in ifo st))"
proof -
  define s q where "s = fst (case List.find (\<lambda>n. nn_addr (on_neigh (orig_at st b) n) = on_orig (orig_at st b)
                \<and> nn_if_incoming (on_neigh (orig_at st b) n) = if_in) (on_neigh_list (orig_at st b)) of
               Some n \<Rightarrow> (st, Some n)
             | None \<Rightarrow> batadv_iv_ogm_neigh_new alloc now if_in (on_orig (orig_at st b)) b b st)"
    and "q = snd (case List.find (\<lambda>n. nn_addr (on_neigh (orig_at st b) n) = on_orig (orig_at st b)
                \<and> nn_if_incoming (on_neigh (orig_at st b) n) = if_in) (on_neigh_list (orig_at st b)) of
               Some n \<Rightarrow> (st, Some n)
             | None \<Rightarrow> batadv_iv_ogm_neigh_new alloc now if_in (on_orig (orig_at st b)) b b st)"
  have ks: "keeps X st s"
    unfolding s_def using neigh_new_keeps(1) [OF prod.collapse [symmetric] b b] by (auto split: option.splits)
  have as: "a \<in> known s" "b \<in> known s" using keeps_known [OF ks] a b by auto
  define s1 where "s1 = (\<lambda>n. if a = b then upd_orig b (upd_neigh n (\<lambda>neigh. neigh\<lparr>nn_last_seen := now\<rparr>)) s else s)"
  have k1: "keeps X s (s1 n)" for n
    unfolding s1_def using as(2) by (auto intro!: keeps_upd upd_neigh_ok simp: neigh_ok_def)
  define s2 where "s2 = (\<lambda>n. upd_orig a (\<lambda>on. on\<lparr>on_last_seen := now\<rparr>) (s1 n))"
  have k2: "keeps X (s1 n) (s2 n)" for n
    unfolding s2_def using keeps_known [OF k1 as(1)]
    by (intro keeps_upd) (auto simp: orig_ok_def neigh_key_def cong: map_cong)
  have b2: "b \<in> known (s2 n)" for n using keeps_known [OF k2 keeps_known [OF k1 as(2)]] .
  have k3: "keeps X (s2 n) (upd_orig b (upd_neigh n (\<lambda>_. fst (batadv_neigh_ifinfo_new alloc
      (on_neigh (orig_at (s2 n) b) n) ifo))) (s2 n))" for n
  proof (rule keeps_upd [OF b2], rule upd_neigh_const_ok)
    fix k
    assume ok: "orig_ok k (X \<union> known (s2 n)) b (orig_at (s2 n) b)"
    show "neigh_ok (fst (batadv_neigh_ifinfo_new alloc (on_neigh (orig_at (s2 n) b) n) ifo))"
      using neigh_ifinfo_new_ok(1) [OF orig_ok_neigh [OF ok]] by (metis prod.collapse)
  qed (simp_all add: batadv_neigh_ifinfo_new_def split: option.splits)
  have "fst (batadv_iv_ogm_calc_tq alloc now a b ogm if_in ifo st) =
    (case q of None \<Rightarrow> s | Some n \<Rightarrow> upd_orig b (upd_neigh n (\<lambda>_. fst (batadv_neigh_ifinfo_new alloc
      (on_neigh (orig_at (s2 n) b) n) ifo))) (s2 n))"
    by (simp add: batadv_iv_ogm_calc_tq_def Let_def split_def s2_def s1_def s_def q_def split: option.split)
  then show ?thesis
    using ks keeps_trans [OF ks keeps_trans [OF k1 keeps_trans [OF k2 k3]]] by (simp split: option.splits)
qed

lemma queue_add_frame:
  "bp_orig_hash (batadv_iv_ogm_queue_add alloc m2j buff len i j own t st) = bp_orig_hash st
    \<and> bp_num_ifaces (batadv_iv_ogm_queue_add alloc m2j buff len i j own t st) = bp_num_ifaces st
    \<and> bp_iface (batadv_iv_ogm_queue_add alloc m2j buff len i j own t st) = bp_iface st"
  by (simp add: batadv_iv_ogm_queue_add_def batadv_iv_ogm_aggregate_new_def Let_def split: option.splits prod.splits)

lemma queue_add_keeps: "keeps X st (batadv_iv_ogm_queue_add alloc m2j buff len i j own t st)"
  by (rule keeps_frame) (simp_all add: queue_add_frame)

lemma forward_keeps: "keeps X st (batadv_iv_ogm_forward alloc m2j now rnd src ogm tvlv single best i j st)"
  by (simp add: batadv_iv_ogm_forward_def Let_def queue_add_keeps)


lemma process_from_neigh_keeps:
  assumes "a \<in> known st" "b \<in> known st"
  shows "keeps X st (process_from_neigh alloc m2j now rnd src ogm tvlv a b single best dup if_in ifo st)"
proof -
  let ?s = "ext_call (Call_nc_update_nc_node a b (ogm_bytes ogm @ tvlv) single) st"
  have k0: "keeps X st ?s" by (rule keeps_frame) simp_all
  obtain s1 ogm1 bidir where calc: "batadv_iv_ogm_calc_tq alloc now a b ogm if_in ifo ?s = (s1, ogm1, bidir)"
    by (metis prod_cases3)
  have k1: "keeps X st s1"
    using keeps_trans [OF k0] calc_tq_keeps [of a ?s b X alloc now ogm if_in ifo] assms calc by simp
  obtain on have_if where oi: "batadv_orig_ifinfo_new alloc m2j now (orig_at s1 a) ifo = (on, have_if)" by force
  let ?s2 = "upd_orig a (\<lambda>_. on) s1"
  have k2: "keeps X st ?s2"
    using keeps_known [OF k1 assms(1)] orig_ifinfo_new_ok(1) [OF _ oi] by (intro keeps_trans [OF k1] keeps_upd) auto
  have k3: "keeps X st (batadv_iv_ogm_orig_update alloc now a src ogm1 if_in ifo dup ?s2)"
    by (rule keeps_trans [OF k2 orig_update_keeps]) simp
  have k4: "keeps X st s3 \<Longrightarrow> keeps X st (batadv_iv_ogm_forward alloc m2j now rnd src ogm1 tvlv s' b' if_in j s3)" for s3 s' b' j
    using keeps_trans forward_keeps by blast
  show ?thesis
    using k0 k2 k3 k4
    by (auto simp: process_from_neigh_def calc oi Let_def split: option.splits)
qed

lemma process_accepted_keeps:
  assumes "a \<in> known st"
  shows "keeps X st (process_accepted alloc m2j now rnd src ogm tvlv a best dup if_in ifo st)"
proof -
  define s where "s = (if ifo = BATADV_IF_DEFAULT
            then ext_call (Call_tvlv_ogm_receive (ogm_bytes ogm @ tvlv) a) st else st)"
  have k0: "keeps X st s" by (simp add: s_def keeps_frame)
  obtain s1 r where get: "(if src = op_orig ogm then (s, Some a) else batadv_iv_ogm_orig_get alloc now src s) = (s1, r)"
    by force
  have k1: "keeps X s s1" and r: "r = Some nb \<Longrightarrow> nb \<in> known s1" for nb
    using get orig_get_keeps(1) [of alloc now src s s1 r] orig_get_keeps(2) [of alloc now src s s1 r nb]
      keeps_known [OF k0 assms] by (auto split: if_splits)
  have "keeps X st (process_from_neigh alloc m2j now rnd src ogm tvlv a nb (src = op_orig ogm) best dup if_in ifo s1)"
    if "r = Some nb" for nb
    using keeps_known [OF k1 keeps_known [OF k0 assms]] r [OF that]
    by (intro keeps_trans [OF k0 keeps_trans [OF k1 process_from_neigh_keeps]])
  then show ?thesis
    using keeps_trans [OF k0 k1]
    by (simp add: process_accepted_def Let_def get flip: s_def split: option.splits)
qed

lemma per_outif_keeps:
  assumes "a \<in> known st"
  shows "keeps X st (batadv_iv_ogm_process_per_outif alloc m2j now rnd src ogm tvlv a if_in ifo st)"
proof -
  obtain s dup where u: "batadv_iv_ogm_update_seqnos alloc m2j now src ogm if_in ifo st = (s, dup)" by force
  have k1: "keeps X st s" using update_seqnos_keeps [of X st alloc m2j now src ogm if_in ifo] u by simp
  have k2: "keeps X s (hardif_neigh_seen now src if_in s)" by (simp add: hardif_neigh_seen_def keeps_frame)
  have "keeps X st (process_accepted alloc m2j now rnd src ogm tvlv a best dup if_in ifo s')"
    if "keeps X s s'" for s' best
    using keeps_known [OF that keeps_known [OF k1 assms]]
    by (intro keeps_trans [OF k1 keeps_trans [OF that process_accepted_keeps]])
  from this [OF keeps_refl] this [OF k2] show ?thesis
    using k1 keeps_trans [OF k1 k2] by (auto simp: batadv_iv_ogm_process_per_outif_def u Let_def)
qed

lemma own_window_ok:
  assumes "orig_ok n K a on"
  shows "orig_ok n K a (on\<lparr>on_bcast_own := (on_bcast_own on)[k := word],
     on_bcast_own_sum := (on_bcast_own_sum on)[k := of_nat (bitmap_weight word)]\<rparr>)"
proof -
  have "unat ((on_bcast_own_sum on)[k := of_nat (bitmap_weight word)] ! i) = bitmap_weight ((on_bcast_own on)[k := word] ! i)"
    if "i < n" for i
    using assms that by (cases "k = i") (auto simp: orig_ok_def unat_weight)
  then show ?thesis
    using assms by (auto simp: orig_ok_def neigh_key_def cong: map_cong)
qed

lemma note_own_echo_keeps:
  assumes "a \<in> known st"
  shows "keeps X st (note_own_echo a ogm if_in seq st)"
  unfolding note_own_echo_def Let_def by (rule keeps_upd [OF assms own_window_ok])

lemma fold_keeps:
  assumes "\<And>i s. a \<in> known s \<Longrightarrow> keeps X s (f i s)" "a \<in> known st"
  shows "keeps X st (fold f is st)"
  using assms(2)
proof (induction "is" arbitrary: st)
  case (Cons i "is")
  have "keeps X st (f i st)" using assms(1) Cons.prems .
  from keeps_trans [OF this Cons.IH [OF keeps_known [OF this Cons.prems]]] show ?case by simp
qed simp

lemma process_keeps:
  "keeps X st (batadv_iv_ogm_process alloc m2j now rnd src past data off if_in st)"
proof -
  define ogm where "ogm = ogm_at past data off"
  obtain s1 r1 where g1: "batadv_iv_ogm_orig_get alloc now src st = (s1, r1)" by force
  obtain s2 r2 where g2: "batadv_iv_ogm_orig_get alloc now (op_orig ogm) st = (s2, r2)" by force
  note k1 = orig_get_keeps [OF g1] and k2 = orig_get_keeps [OF g2]
  have echo: "r1 = Some nb \<Longrightarrow> keeps X st (note_own_echo nb ogm if_in q s1)" for nb q
    using k1(2) [of nb] by (intro keeps_trans [OF k1(1) note_own_echo_keeps]) simp
  have outifs: "r2 = Some a \<Longrightarrow> keeps X st (fold (\<lambda>i. batadv_iv_ogm_process_per_outif alloc m2j now (rnd (Some i))
       src ogm tvlv a if_in (Some i)) is
       (batadv_iv_ogm_process_per_outif alloc m2j now (rnd None) src ogm tvlv a if_in None s2))" for a tvlv "is"
    using k2(2) [of a] keeps_known [OF per_outif_keeps]
    by (intro keeps_trans [OF k2(1) keeps_trans [OF per_outif_keeps fold_keeps [where a = a]]] per_outif_keeps)
       simp_all
  show ?thesis
    using k1(1) k2(1) echo outifs
    by (simp add: batadv_iv_ogm_process_def Let_def g1 g2 flip: ogm_def split: option.split)
qed

lemma receive_keeps:
  "keeps X st (fst (batadv_iv_ogm_receive alloc m2j now rnd p c l iv dest src past data if_in st))"
proof -
  have "keeps X st (fold (\<lambda>off. batadv_iv_ogm_process alloc m2j now (rnd off) src past data off if_in) offs st)"
    for offs st
    by (induction offs arbitrary: st) (auto intro: keeps_trans [OF process_keeps])
  then show ?thesis by (simp add: batadv_iv_ogm_receive_def)
qed

text \<open>
  Receiving a packet keeps the originator table well formed, whatever the packet contains and
  whichever allocations fail: each originator is stored under its address with one window and one
  weight per interface, the weights are those of the windows, the averages those of the ring
  buffers, neighbors differ in address or interface, and every router and every originator that a
  neighbor refers to exists.
\<close>

theorem receive_table_ok:
  assumes "table_ok X st"
  shows "table_ok X (fst (batadv_iv_ogm_receive alloc m2j now rnd pull_ok cow_ok linearize_ok algo_iv dest src past
    data if_incoming st))"
  using keepsD(1) [OF receive_keeps assms] .

theorem receive_table_ok_witness:
  "table_ok {} (fst (batadv_iv_ogm_receive (\<lambda>_. True) of_nat 100 (\<lambda>_ _. 3) True True True True (-1) 0xC3 (\<lambda>_. 0)
     (ogm_bytes \<lparr>op_packet_type = 0, op_version = 15, op_ttl = 50, op_flags = 0, op_seqno = 7, op_orig = 0xA1,
        op_prev_sender = 0xA1, op_reserved = 0, op_tq = 255, op_tvlv_len = 0\<rparr>) 1
     (priv_init 0 (\<lambda>_. hardif_init 0 False 1500) [])))"
  by (rule receive_table_ok) (simp add: table_ok_def priv_init_def)

end
