(* ===== verification/Iv_Purge.thy ===== *)
theory Iv_Purge
  imports Iv_Invariant
begin

text \<open>
  The table under the periodic work: the windows of our own messages slide when a message is
  scheduled, and the purge removes what timed out. What the purge leaves is well formed, fresh,
  and routed over the best neighbor that is left.
\<close>

section \<open>Sliding the own windows\<close>

lemma slide_own_ok: "orig_ok n K a on \<Longrightarrow> orig_ok n K a (slide_own k on)"
  by (simp add: slide_own_def Let_def own_window_ok)

lemma slide_window_keeps: "keeps X st (batadv_iv_ogm_slide_own_bcast_window i st)"
proof -
  have "map_of (bp_orig_hash (batadv_iv_ogm_slide_own_bcast_window i st))
      = map_option (slide_own (nat (hi_if_num (bp_iface st i)))) \<circ> map_of (bp_orig_hash st)"
    by (simp add: batadv_iv_ogm_slide_own_bcast_window_def map_of_map)
  moreover from this have "known (batadv_iv_ogm_slide_own_bcast_window i st) = known st"
    by (auto simp: known_def)
  ultimately show ?thesis
    by (auto simp: keeps_def table_ok_def intro: slide_own_ok)
       (simp_all add: batadv_iv_ogm_slide_own_bcast_window_def slide_own_ok comp_def split_def)
qed

lemma fold_keeps': "(\<And>i s. keeps X s (f i s)) \<Longrightarrow> keeps X st (fold f is st)"
  by (induction "is" arbitrary: st) (auto intro: keeps_trans)

lemma ogm_complete_frame [simp]:
  "bp_orig_hash (ogm_complete ogm_append i st) = bp_orig_hash st"
  "bp_num_ifaces (ogm_complete ogm_append i st) = bp_num_ifaces st"
  "hi_if_num (bp_iface (ogm_complete ogm_append i st) j) = hi_if_num (bp_iface st j)"
  by (simp_all add: ogm_complete_def Let_def split_def upd_iface_def ext_call_def)

lemma schedule_after_slide:
  "keeps X (batadv_iv_ogm_slide_own_bcast_window i (ogm_complete ogm_append i st))
     (batadv_iv_ogm_schedule alloc m2j now rnd ogm_append i st)"
  by (auto simp: batadv_iv_ogm_schedule_def Let_def intro!: queue_add_keeps fold_keeps')

lemma schedule_keeps: "keeps X st (batadv_iv_ogm_schedule alloc m2j now rnd ogm_append i st)"
proof -
  have "keeps X st (ogm_complete ogm_append i st)" by (simp add: keeps_frame)
  from keeps_trans [OF this keeps_trans [OF slide_window_keeps schedule_after_slide]] show ?thesis .
qed

section \<open>Purging\<close>

lemma map_of_filter_key: "map_of (filter (\<lambda>(k, _). P k) xs) k = (if P k then map_of xs k else None)"
  by (induction xs) auto

lemma purge_neighbors_eq:
  assumes "distinct (on_neigh_list on)" "distinct ns"
  shows "purge_neighbors m2j now st ns on =
    (on\<lparr>on_neigh := \<lambda>n. if n \<in> set ns \<and> \<not> neigh_obsolete m2j now st (on_neigh on n)
          then batadv_purge_neigh_ifinfo st (on_neigh on n) else on_neigh on n,
        on_neigh_list := filter (\<lambda>n. \<not> (n \<in> set ns \<and> neigh_obsolete m2j now st (on_neigh on n))) (on_neigh_list on)\<rparr>,
     \<exists>n \<in> set ns. neigh_obsolete m2j now st (on_neigh on n))"
  using assms
proof (induction ns arbitrary: on)
  case (Cons k ns)
  show ?case
  proof (cases "neigh_obsolete m2j now st (on_neigh on k)")
    case True
    have "purge_neighbors m2j now st (k # ns) on
      = (fst (purge_neighbors m2j now st ns (on\<lparr>on_neigh_list := remove1 k (on_neigh_list on)\<rparr>)), True)"
      using True by simp
    also have "\<dots> = (on\<lparr>on_neigh := \<lambda>n. if n \<in> set ns \<and> \<not> neigh_obsolete m2j now st (on_neigh on n)
          then batadv_purge_neigh_ifinfo st (on_neigh on n) else on_neigh on n,
        on_neigh_list := filter (\<lambda>n. \<not> (n \<in> set ns \<and> neigh_obsolete m2j now st (on_neigh on n)))
          (remove1 k (on_neigh_list on))\<rparr>, True)"
      using Cons.prems by (subst Cons.IH) (simp_all cong: if_cong)
    finally show ?thesis
      using True Cons.prems
      by (auto simp: distinct_remove1_removeAll removeAll_filter_not_eq fun_eq_iff intro!: arg_cong2 [where f = "\<lambda>x y. on\<lparr>on_neigh := x, on_neigh_list := y\<rparr>"] filter_cong)
  next
    case False
    have "purge_neighbors m2j now st (k # ns) on
      = purge_neighbors m2j now st ns (upd_neigh k (batadv_purge_neigh_ifinfo st) on)"
      using False by simp
    also have "\<dots> = (on\<lparr>on_neigh := \<lambda>n. if n \<in> set (k # ns) \<and> \<not> neigh_obsolete m2j now st (on_neigh on n)
          then batadv_purge_neigh_ifinfo st (on_neigh on n) else on_neigh on n,
        on_neigh_list := filter (\<lambda>n. \<not> (n \<in> set (k # ns) \<and> neigh_obsolete m2j now st (on_neigh on n))) (on_neigh_list on)\<rparr>,
     \<exists>n \<in> set (k # ns). neigh_obsolete m2j now st (on_neigh on n))"
      using Cons.prems False
      by (subst Cons.IH) (auto simp: upd_neigh_def fun_eq_iff intro!: arg_cong2 [where f = "\<lambda>x y. on\<lparr>on_neigh := x, on_neigh_list := y\<rparr>"] filter_cong)
    finally show ?thesis .
  qed
qed simp

text \<open>An originator after its stale interfaces and neighbors are gone, before routes are chosen again.\<close>

definition purged_orig :: "(nat \<Rightarrow> jiffies) \<Rightarrow> jiffies \<Rightarrow> batadv_priv \<Rightarrow> batadv_orig_node \<Rightarrow> batadv_orig_node" where
  "purged_orig m2j now st on =
    on\<lparr>on_ifinfo := filter (\<lambda>(ifo, _). \<not> ifinfo_obsolete st ifo) (on_ifinfo on),
       on_neigh := \<lambda>n. if n \<in> set (on_neigh_list on) \<and> \<not> neigh_obsolete m2j now st (on_neigh on n)
          then batadv_purge_neigh_ifinfo st (on_neigh on n) else on_neigh on n,
       on_neigh_list := filter (\<lambda>n. \<not> neigh_obsolete m2j now st (on_neigh on n)) (on_neigh_list on)\<rparr>"

definition purge_changes :: "(nat \<Rightarrow> jiffies) \<Rightarrow> jiffies \<Rightarrow> batadv_priv \<Rightarrow> batadv_orig_node \<Rightarrow> bool" where
  "purge_changes m2j now st on \<longleftrightarrow> list_ex (\<lambda>(ifo, _). ifinfo_obsolete st ifo) (on_ifinfo on)
     \<or> (\<exists>n \<in> set (on_neigh_list on). neigh_obsolete m2j now st (on_neigh on n))"

lemma purge_orig_parts:
  assumes "distinct (on_neigh_list on)"
  shows "batadv_purge_orig_neighbors m2j now st (fst (batadv_purge_orig_ifinfo st on))
    = (purged_orig m2j now st on, \<exists>n \<in> set (on_neigh_list on). neigh_obsolete m2j now st (on_neigh on n))"
  using assms
  by (simp add: batadv_purge_orig_neighbors_def batadv_purge_orig_ifinfo_def purge_neighbors_eq purged_orig_def
      cong: if_cong filter_cong)

lemma purged_orig_ok:
  assumes "orig_ok n K a on"
  shows "orig_ok n K a (purged_orig m2j now st on)"
proof -
  have "neigh_ok (batadv_purge_neigh_ifinfo st neigh)" if "neigh_ok neigh" for neigh
    using that by (auto simp: neigh_ok_def batadv_purge_neigh_ifinfo_def map_of_filter_key split: if_splits)
  moreover have "neigh_key (purged_orig m2j now st on) = neigh_key on"
    by (auto simp: fun_eq_iff neigh_key_def purged_orig_def batadv_purge_neigh_ifinfo_def)
  moreover have "distinct (map f (filter P xs))" if "distinct (map f xs)" for f :: "nat \<Rightarrow> mac \<times> iface" and P xs
    using that by (auto simp: distinct_map inj_on_def)
  ultimately show ?thesis
    using assms
    by (auto simp: orig_ok_def purged_orig_def map_of_filter_key batadv_purge_neigh_ifinfo_def split: if_splits)
qed

lemma orig_ok_distinct: "orig_ok n K a on \<Longrightarrow> distinct (on_neigh_list on)"
  by (simp add: orig_ok_def distinct_map)

section \<open>Choosing routes again\<close>

lemma find_best_in: "find_best cmp neigh ifo ns best = Some r \<Longrightarrow> r \<in> set ns \<or> best = Some r"
  by (induction ns arbitrary: best) (fastforce split: option.splits if_splits)+

lemma find_best_None: "find_best cmp neigh ifo ns best = None \<longleftrightarrow> ns = [] \<and> best = None"
  by (induction ns arbitrary: best) (auto split: option.splits)

text \<open>
  \<open>rerouted a ifos best st st'\<close>: only the routers of the originator \<open>a\<close> changed, those for the outgoing
  interfaces in \<open>ifos\<close> that it has data for, and they are what \<open>best\<close> says.
\<close>

definition rerouted :: "mac \<Rightarrow> if_out set \<Rightarrow> (if_out \<Rightarrow> nat option) \<Rightarrow> batadv_priv \<Rightarrow> batadv_priv \<Rightarrow> bool" where
  "rerouted a ifos best st st' \<longleftrightarrow> known st' = known st \<and> (\<forall>b. b \<noteq> a \<longrightarrow> orig_at st' b = orig_at st b)
     \<and> on_neigh (orig_at st' a) = on_neigh (orig_at st a)
     \<and> on_neigh_list (orig_at st' a) = on_neigh_list (orig_at st a)
     \<and> on_last_seen (orig_at st' a) = on_last_seen (orig_at st a)
     \<and> dom (map_of (on_ifinfo (orig_at st' a))) = dom (map_of (on_ifinfo (orig_at st a)))
     \<and> (\<forall>ifo. batadv_orig_router_get (orig_at st' a) ifo =
          (if ifo \<in> ifos \<and> ifo \<in> dom (map_of (on_ifinfo (orig_at st a))) then best ifo
           else batadv_orig_router_get (orig_at st a) ifo))"

lemma rerouted_trans:
  "rerouted a A best st st' \<Longrightarrow> rerouted a B best st' st'' \<Longrightarrow> rerouted a (A \<union> B) best st st''"
  by (simp add: rerouted_def)

lemma rerouted_refl: "rerouted a {} best st st"
  by (simp add: rerouted_def)

lemma update_route_rerouted:
  assumes "a \<in> known st"
  shows "rerouted a {ifo} best st (batadv_update_route a ifo (best ifo) st)"
proof (cases "map_of (on_ifinfo (orig_at st a)) ifo")
  case None
  then show ?thesis
    by (auto simp: batadv_update_route_def batadv_update_route1_def batadv_orig_ifinfo_get_def rerouted_def)
next
  case (Some oi)
  show ?thesis
  proof (cases "oi_router oi = best ifo")
    case True
    then show ?thesis
      using Some by (auto simp: batadv_update_route_def batadv_orig_router_get_def rerouted_def)
  next
    case False
    have st: "batadv_update_route a ifo (best ifo) st = upd_orig a (\<lambda>on. on\<lparr>on_ifinfo :=
        AList.update ifo (oi\<lparr>oi_router := best ifo\<rparr>) (on_ifinfo on)\<rparr>)
        (if oi_router oi \<noteq> None \<and> best ifo = None then ext_call (Call_tt_global_del_orig a) st else st)"
      using Some False by (simp add: batadv_update_route_def batadv_update_route1_def batadv_orig_ifinfo_get_def
          batadv_orig_router_get_def Let_def)
    show ?thesis
      using assms Some unfolding st
      by (auto simp: rerouted_def batadv_orig_router_get_def update_conv' orig_at_upd)
  qed
qed

abbreviation reroute :: "neigh_cmp \<Rightarrow> mac \<Rightarrow> if_out \<Rightarrow> batadv_priv \<Rightarrow> batadv_priv" where
  "reroute cmp a ifo st \<equiv> batadv_update_route a ifo (batadv_find_best_neighbor cmp (orig_at st a) ifo) st"

lemma list_frames [simp]:
  "bp_hardif_list (upd_orig a f st) = bp_hardif_list st" "bp_soft_iface (upd_orig a f st) = bp_soft_iface st"
  "bp_hardif_list (ext_call c st) = bp_hardif_list st" "bp_soft_iface (ext_call c st) = bp_soft_iface st"
  by (simp_all add: upd_orig_def ext_call_def)

lemma update_route_frame [simp]:
  "bp_iface (batadv_update_route a ifo r st) = bp_iface st"
  "bp_hardif_list (batadv_update_route a ifo r st) = bp_hardif_list st"
  "bp_soft_iface (batadv_update_route a ifo r st) = bp_soft_iface st"
  by (simp_all add: batadv_update_route_def batadv_update_route1_def Let_def ext_call_def upd_orig_def split: option.splits)

lemma reroute_rerouted:
  assumes "a \<in> known st" "\<And>ifo. best ifo = batadv_find_best_neighbor cmp (orig_at st a) ifo"
  shows "rerouted a {ifo} best st (reroute cmp a ifo st)"
  using update_route_rerouted [OF assms(1), of ifo best] assms(2) by simp

lemma reroute_fold:
  assumes "a \<in> known st" "\<And>ifo. best ifo = batadv_find_best_neighbor cmp (orig_at st a) ifo"
  shows "rerouted a (Some ` set is) best st (fold (\<lambda>i. reroute cmp a (Some i)) is st)"
  using assms
proof (induction "is" arbitrary: st)
  case (Cons i "is")
  have r: "rerouted a {Some i} best st (reroute cmp a (Some i) st)" using Cons.prems by (rule reroute_rerouted)
  then have best: "best ifo = batadv_find_best_neighbor cmp (orig_at (reroute cmp a (Some i) st) a) ifo" for ifo
    unfolding Cons.prems(2) by (simp add: rerouted_def batadv_find_best_neighbor_def)
  have "a \<in> known (reroute cmp a (Some i) st)" using r Cons.prems(1) by (simp add: rerouted_def)
  from rerouted_trans [OF r Cons.IH [OF this best]] show ?case by simp
qed (simp add: rerouted_refl)

lemma purge_node_spec:
  assumes "a \<in> known st" "distinct (on_neigh_list (orig_at st a))"
    and "\<not> batadv_has_timed_out m2j now (on_last_seen (orig_at st a)) (2 * BATADV_PURGE_TIMEOUT)"
  defines "p \<equiv> purged_orig m2j now st (orig_at st a)"
  obtains st' where "batadv_purge_orig_node m2j now cmp a st = (st', False)"
    "rerouted a (if purge_changes m2j now st (orig_at st a) then insert None (Some ` set (mesh_ifaces st)) else {})
       (batadv_find_best_neighbor cmp p) (upd_orig a (\<lambda>_. p) st) st'"
proof -
  let ?st = "upd_orig a (\<lambda>_. p) st"
  let ?st1 = "reroute cmp a None ?st"
  have res: "batadv_purge_orig_node m2j now cmp a st =
      (if purge_changes m2j now st (orig_at st a)
       then fold (\<lambda>i. reroute cmp a (Some i)) (mesh_ifaces st) ?st1 else ?st, False)"
    using assms(3) purge_orig_parts [OF assms(2), of m2j now st]
    by (auto simp: batadv_purge_orig_node_def batadv_purge_orig_ifinfo_def purge_changes_def mesh_ifaces_def
        Let_def p_def)
  have r: "rerouted a {None} (batadv_find_best_neighbor cmp p) ?st ?st1"
    by (rule reroute_rerouted) simp_all
  then have best: "batadv_find_best_neighbor cmp p ifo = batadv_find_best_neighbor cmp (orig_at ?st1 a) ifo" for ifo
    by (simp add: rerouted_def batadv_find_best_neighbor_def)
  have "a \<in> known ?st1" using r by (simp add: rerouted_def)
  from rerouted_trans [OF r reroute_fold [OF this best]] rerouted_refl show thesis
    by (intro that [OF res]) simp
qed

lemma reroute_keeps:
  assumes "a \<in> known st"
  shows "keeps X st (reroute cmp a ifo st)"
proof (rule update_route_keeps [OF assms])
  assume "table_ok X st"
  from table_ok_at [OF this assms] show "\<forall>m. batadv_find_best_neighbor cmp (orig_at st a) ifo = Some m
      \<longrightarrow> m < on_neigh_next (orig_at st a)"
    by (auto simp: batadv_find_best_neighbor_def orig_ok_def dest: find_best_in)
qed

lemma purge_node_table:
  assumes "table_ok X st" "a \<in> known st"
  shows "table_ok X (fst (batadv_purge_orig_node m2j now cmp a st))"
proof -
  note ok = table_ok_at [OF assms]
  let ?st = "upd_orig a (\<lambda>_. purged_orig m2j now st (orig_at st a)) st"
  have k0: "keeps X st ?st"
    by (rule keeps_upd [OF assms(2) purged_orig_ok])
  have k1: "keeps X ?st (reroute cmp a None ?st)" by (rule reroute_keeps) simp
  have k2: "keeps X (reroute cmp a None ?st) (fold (\<lambda>i. reroute cmp a (Some i)) is (reroute cmp a None ?st))" for "is"
    using keeps_known [OF k1] by (intro fold_keeps [where a = a] reroute_keeps) simp_all
  have k3: "table_ok X ?st" "table_ok X (fold (\<lambda>i. reroute cmp a (Some i)) is (reroute cmp a None ?st))" for "is"
    using keepsD(1) [OF k0] keepsD(1) [OF keeps_trans [OF k0 keeps_trans [OF k1 k2]]] assms(1) by auto
  show ?thesis
    using k3 assms(1) purge_orig_parts [OF orig_ok_distinct [OF ok], of m2j now st]
    by (simp add: batadv_purge_orig_node_def Let_def split_def)
qed

lemma purge_node_frame:
  "bp_iface (fst (batadv_purge_orig_node m2j now cmp a st)) = bp_iface st"
  "bp_hardif_list (fst (batadv_purge_orig_node m2j now cmp a st)) = bp_hardif_list st"
  "bp_soft_iface (fst (batadv_purge_orig_node m2j now cmp a st)) = bp_soft_iface st"
proof -
  have fr: "bp_iface (fold (\<lambda>i. reroute cmp a (Some i)) is s) = bp_iface s
    \<and> bp_hardif_list (fold (\<lambda>i. reroute cmp a (Some i)) is s) = bp_hardif_list s
    \<and> bp_soft_iface (fold (\<lambda>i. reroute cmp a (Some i)) is s) = bp_soft_iface s" for "is" s
    by (induction "is" arbitrary: s) simp_all
  show "bp_iface (fst (batadv_purge_orig_node m2j now cmp a st)) = bp_iface st"
    "bp_hardif_list (fst (batadv_purge_orig_node m2j now cmp a st)) = bp_hardif_list st"
    "bp_soft_iface (fst (batadv_purge_orig_node m2j now cmp a st)) = bp_soft_iface st"
    using fr by (simp_all add: batadv_purge_orig_node_def Let_def split_def)
qed

section \<open>The whole table\<close>

definition orig_timed_out :: "(nat \<Rightarrow> jiffies) \<Rightarrow> jiffies \<Rightarrow> batadv_priv \<Rightarrow> mac \<Rightarrow> bool" where
  "orig_timed_out m2j now st a \<longleftrightarrow>
     batadv_has_timed_out m2j now (on_last_seen (orig_at st a)) (2 * BATADV_PURGE_TIMEOUT)"

text \<open>What the purge makes of one originator, relative to the table it started from.\<close>

definition purge_result ::
    "(nat \<Rightarrow> jiffies) \<Rightarrow> jiffies \<Rightarrow> neigh_cmp \<Rightarrow> batadv_priv \<Rightarrow> mac \<Rightarrow> batadv_priv \<Rightarrow> bool" where
  "purge_result m2j now cmp st a st' \<longleftrightarrow>
     (if orig_timed_out m2j now st a then a \<notin> known st'
      else a \<in> known st' \<and>
        (let p = purged_orig m2j now st (orig_at st a); on = orig_at st' a in
         on_neigh on = on_neigh p \<and> on_neigh_list on = on_neigh_list p
         \<and> dom (map_of (on_ifinfo on)) = dom (map_of (on_ifinfo p))
         \<and> (\<forall>ifo. batadv_orig_router_get on ifo =
             (if purge_changes m2j now st (orig_at st a) \<and> (ifo = None \<or> ifo \<in> Some ` set (mesh_ifaces st))
                \<and> ifo \<in> dom (map_of (on_ifinfo p))
              then batadv_find_best_neighbor cmp p ifo else batadv_orig_router_get p ifo))))"

lemma table_ok_delete:
  assumes "table_ok K st" "known st \<subseteq> K"
  shows "table_ok K (st\<lparr>bp_orig_hash := AList.delete a (bp_orig_hash st)\<rparr>)"
proof -
  have "K \<union> known (st\<lparr>bp_orig_hash := AList.delete a (bp_orig_hash st)\<rparr>) = K \<union> known st"
    using assms(2) by (auto simp: known_def delete_conv' split: if_splits)
  with assms(1) show ?thesis
    by (auto simp: table_ok_def delete_conv' distinct_delete split: if_splits)
qed

lemma purge_node_cases:
  assumes "table_ok K st" "a \<in> known st" "batadv_purge_orig_node m2j now cmp a st = (st', gone)"
  shows "gone = orig_timed_out m2j now st a" "known st' = known st" "table_ok K st'"
    "bp_iface st' = bp_iface st" "bp_hardif_list st' = bp_hardif_list st" "bp_soft_iface st' = bp_soft_iface st"
    "\<And>b. b \<noteq> a \<Longrightarrow> orig_at st' b = orig_at st b" "\<not> gone \<Longrightarrow> purge_result m2j now cmp st a st'"
proof -
  show "table_ok K st'" using purge_node_table [OF assms(1,2), of m2j now cmp] assms(3) by simp
  show "bp_iface st' = bp_iface st" "bp_hardif_list st' = bp_hardif_list st" "bp_soft_iface st' = bp_soft_iface st"
    using purge_node_frame [of m2j now cmp a st] assms(3) by simp_all
  have "gone = orig_timed_out m2j now st a \<and> known st' = known st \<and> (\<forall>b. b \<noteq> a \<longrightarrow> orig_at st' b = orig_at st b)
    \<and> (\<not> gone \<longrightarrow> purge_result m2j now cmp st a st')"
  proof (cases "orig_timed_out m2j now st a")
    case True
    then show ?thesis using assms(3) by (simp add: batadv_purge_orig_node_def orig_timed_out_def)
  next
    case False
    then have no: "\<not> batadv_has_timed_out m2j now (on_last_seen (orig_at st a)) (2 * BATADV_PURGE_TIMEOUT)"
      by (simp add: orig_timed_out_def)
    have d: "distinct (on_neigh_list (orig_at st a))" using orig_ok_distinct [OF table_ok_at [OF assms(1,2)]] .
    let ?p = "purged_orig m2j now st (orig_at st a)"
    obtain r: "rerouted a (if purge_changes m2j now st (orig_at st a) then insert None (Some ` set (mesh_ifaces st)) else {})
       (batadv_find_best_neighbor cmp ?p) (upd_orig a (\<lambda>_. ?p) st) st'" and g: "\<not> gone"
      using purge_node_spec [OF assms(2) d no, of cmp] assms(3) by (metis Pair_inject)
    have k: "known st' = known st" and other: "\<forall>b. b \<noteq> a \<longrightarrow> orig_at st' b = orig_at st b"
      using r assms(2) by (auto simp: rerouted_def orig_at_upd insert_absorb)
    have "purge_result m2j now cmp st a st'"
      using r k assms(2) False unfolding purge_result_def Let_def rerouted_def orig_at_upd_same
      by (cases "purge_changes m2j now st (orig_at st a)") simp_all
    with k other g False show ?thesis by simp
  qed
  then show "gone = orig_timed_out m2j now st a" "known st' = known st" "\<And>b. b \<noteq> a \<Longrightarrow> orig_at st' b = orig_at st b"
    "\<not> gone \<Longrightarrow> purge_result m2j now cmp st a st'" by auto
qed

lemma purge_result_cong:
  assumes "bp_iface st2 = bp_iface st" "bp_hardif_list st2 = bp_hardif_list st" "bp_soft_iface st2 = bp_soft_iface st"
    "orig_at st2 b = orig_at st b"
  shows "purge_result m2j now cmp st2 b st' = purge_result m2j now cmp st b st'"
proof -
  have "ifinfo_obsolete st2 = ifinfo_obsolete st" "neigh_obsolete m2j now st2 = neigh_obsolete m2j now st"
    "mesh_ifaces st2 = mesh_ifaces st"
    using assms by (auto simp: fun_eq_iff ifinfo_obsolete_def neigh_obsolete_def mesh_ifaces_def split: option.splits)
  then have "purged_orig m2j now st2 = purged_orig m2j now st" "purge_changes m2j now st2 = purge_changes m2j now st"
    by (simp_all add: fun_eq_iff purged_orig_def purge_changes_def batadv_purge_neigh_ifinfo_def cong: if_cong)
  with assms(4) \<open>mesh_ifaces st2 = mesh_ifaces st\<close> show ?thesis
    by (simp add: purge_result_def orig_timed_out_def)
qed

lemma purge_result_same:
  assumes "orig_at st2 b = orig_at st1 b" "b \<in> known st2 \<longleftrightarrow> b \<in> known st1"
  shows "purge_result m2j now cmp st b st2 = purge_result m2j now cmp st b st1"
  by (simp add: purge_result_def assms)

text \<open>The state after the originator \<open>a\<close> was looked at.\<close>

definition after_node :: "(nat \<Rightarrow> jiffies) \<Rightarrow> jiffies \<Rightarrow> neigh_cmp \<Rightarrow> mac \<Rightarrow> batadv_priv \<Rightarrow> batadv_priv" where
  "after_node m2j now cmp a st = (case batadv_purge_orig_node m2j now cmp a st of
     (st, True) \<Rightarrow> (let st = ext_call (Call_gw_node_delete a) st;
              st = st\<lparr>bp_orig_hash := AList.delete a (bp_orig_hash st)\<rparr>
          in ext_call (Call_tt_global_del_orig a) st)
   | (st, False) \<Rightarrow> ext_call (Call_frag_purge a) st)"

lemma purge_origs_after: "purge_origs m2j now cmp (a # as) st = purge_origs m2j now cmp as (after_node m2j now cmp a st)"
  by (simp add: after_node_def Let_def split: prod.splits bool.splits)

lemma after_node_spec:
  assumes "table_ok K st" "known st \<subseteq> K" "a \<in> known st"
  shows "table_ok K (after_node m2j now cmp a st)"
    and "known (after_node m2j now cmp a st) = known st - {b. b = a \<and> orig_timed_out m2j now st a}"
    and "bp_iface (after_node m2j now cmp a st) = bp_iface st"
    and "bp_hardif_list (after_node m2j now cmp a st) = bp_hardif_list st"
    and "bp_soft_iface (after_node m2j now cmp a st) = bp_soft_iface st"
    and "\<And>b. b \<noteq> a \<Longrightarrow> orig_at (after_node m2j now cmp a st) b = orig_at st b"
    and "purge_result m2j now cmp st a (after_node m2j now cmp a st)"
proof -
  obtain s gone where n: "batadv_purge_orig_node m2j now cmp a st = (s, gone)" by force
  note c = purge_node_cases [OF assms(1,3) n]
  define d where "d = (ext_call (Call_gw_node_delete a) s)\<lparr>bp_orig_hash := AList.delete a (bp_orig_hash s)\<rparr>"
  have st': "after_node m2j now cmp a st =
      (if gone then ext_call (Call_tt_global_del_orig a) d else ext_call (Call_frag_purge a) s)"
    by (simp add: after_node_def n Let_def d_def split: bool.split)
  have "table_ok K d"
    using table_ok_delete [of K "ext_call (Call_gw_node_delete a) s" a] c(2,3) assms(2) by (simp add: d_def)
  with c(3) show "table_ok K (after_node m2j now cmp a st)" by (simp add: st')
  have "known d = known s - {a}"
    by (auto simp: d_def known_def delete_conv' split: if_splits)
  with c(1,2) show k: "known (after_node m2j now cmp a st) = known st - {b. b = a \<and> orig_timed_out m2j now st a}"
    by (auto simp: st')
  show "bp_iface (after_node m2j now cmp a st) = bp_iface st" "bp_hardif_list (after_node m2j now cmp a st) = bp_hardif_list st"
    "bp_soft_iface (after_node m2j now cmp a st) = bp_soft_iface st"
    using c(4-6) by (simp_all add: st' d_def ext_call_def)
  show "orig_at (after_node m2j now cmp a st) b = orig_at st b" if "b \<noteq> a" for b
    using c(7) [OF that] that by (simp add: st') (simp add: d_def orig_at_def delete_conv' ext_call_def)
  show "purge_result m2j now cmp st a (after_node m2j now cmp a st)"
  proof (cases gone)
    case True
    with c(1) k show ?thesis by (simp add: purge_result_def)
  next
    case False
    with c(8) show ?thesis by (simp add: st' purge_result_def)
  qed
qed

lemma purge_origs_spec:
  assumes "table_ok K st" "known st \<subseteq> K" "distinct as" "set as \<subseteq> known st"
  shows "table_ok K (purge_origs m2j now cmp as st) \<and> known (purge_origs m2j now cmp as st) \<subseteq> known st
    \<and> (\<forall>a. if a \<in> set as then purge_result m2j now cmp st a (purge_origs m2j now cmp as st)
           else (a \<in> known (purge_origs m2j now cmp as st) \<longleftrightarrow> a \<in> known st)
             \<and> orig_at (purge_origs m2j now cmp as st) a = orig_at st a)"
  using assms
proof (induction "as" arbitrary: st)
  case (Cons a "as")
  let ?s = "after_node m2j now cmp a st" and ?f = "purge_origs m2j now cmp as (after_node m2j now cmp a st)"
  have a: "a \<in> known st" "a \<notin> set as" using Cons.prems by simp_all
  note s = after_node_spec [OF Cons.prems(1,2) a(1), where ?m2j.0 = m2j and now = now and cmp = cmp]
  have "known ?s \<subseteq> K" "set as \<subseteq> known ?s" using s(2) Cons.prems(2,3,4) by auto
  note IH = Cons.IH [OF s(1) this(1) _ this(2)]
  have f: "table_ok K ?f" "known ?f \<subseteq> known ?s"
    "b \<in> set as \<Longrightarrow> purge_result m2j now cmp ?s b ?f"
    "b \<notin> set as \<Longrightarrow> (b \<in> known ?f \<longleftrightarrow> b \<in> known ?s) \<and> orig_at ?f b = orig_at ?s b" for b
    using IH Cons.prems(3) by (auto split: if_splits)
  have "purge_result m2j now cmp st b ?f" if "b \<in> set (a # as)" for b
  proof (cases "b = a")
    case True
    then show ?thesis using s(7) f(4) [OF a(2)] purge_result_same by blast
  next
    case False
    with that f(3) [of b] show ?thesis
      using purge_result_cong [OF s(3-5) s(6) [OF False]] by simp
  qed
  moreover have "(b \<in> known ?f \<longleftrightarrow> b \<in> known st) \<and> orig_at ?f b = orig_at st b" if "b \<notin> set (a # as)" for b
    using f(4) [of b] s(2,6) that by auto
  ultimately show ?case
    using f(1,2) s(2) unfolding purge_origs_after by auto
qed simp

lemma purge_orig_table:
  assumes "table_ok X st"
  shows "table_ok (X \<union> known st) (batadv_purge_orig m2j now cmp st)"
    and "known (batadv_purge_orig m2j now cmp st) \<subseteq> known st"
    and "a \<in> known st \<Longrightarrow> purge_result m2j now cmp st a (batadv_purge_orig m2j now cmp st)"
proof -
  have "table_ok (X \<union> known st) st" using assms by (simp add: table_ok_def Un_absorb2 sup.left_commute sup.assoc)
  moreover have "distinct (map fst (bp_orig_hash st))" using assms by (simp add: table_ok_def)
  moreover have "set (map fst (bp_orig_hash st)) = known st" by (simp add: known_def dom_map_of_conv_image_fst)
  ultimately have r: "table_ok (X \<union> known st) (purge_origs m2j now cmp (map fst (bp_orig_hash st)) st)"
    "known (purge_origs m2j now cmp (map fst (bp_orig_hash st)) st) \<subseteq> known st"
    "a \<in> known st \<Longrightarrow> purge_result m2j now cmp st a (purge_origs m2j now cmp (map fst (bp_orig_hash st)) st)"
    using purge_origs_spec [of "X \<union> known st" st "map fst (bp_orig_hash st)" m2j now cmp] by auto
  then show "table_ok (X \<union> known st) (batadv_purge_orig m2j now cmp st)"
    "known (batadv_purge_orig m2j now cmp st) \<subseteq> known st"
    by (simp_all add: batadv_purge_orig_def)
  show "a \<in> known st \<Longrightarrow> purge_result m2j now cmp st a (batadv_purge_orig m2j now cmp st)"
    using r(3) by (simp add: batadv_purge_orig_def purge_result_def)
qed

section \<open>Properties\<close>

lemma find_best_max:
  assumes "\<forall>m \<in> set ns \<union> set_option best. batadv_neigh_ifinfo_get (neigh m) ifo \<noteq> None"
    and "find_best batadv_iv_ogm_neigh_cmp neigh ifo ns best = Some r"
  shows "\<forall>m \<in> set ns \<union> set_option best. ni_tq_avg (the (batadv_neigh_ifinfo_get (neigh m) ifo))
    \<le> ni_tq_avg (the (batadv_neigh_ifinfo_get (neigh r) ifo))"
  using assms
proof (induction ns arbitrary: best)
  case (Cons k ns)
  let ?tq = "\<lambda>m. ni_tq_avg (the (batadv_neigh_ifinfo_get (neigh m) ifo))"
  define best' where "best' = (case best of None \<Rightarrow> k
        | Some b \<Rightarrow> if batadv_iv_ogm_neigh_cmp (neigh k) ifo (neigh b) ifo \<le> 0 then b else k)"
  have cmp: "(batadv_iv_ogm_neigh_cmp (neigh k) ifo (neigh b) ifo \<le> 0) = (?tq k \<le> ?tq b)" if "best = Some b" for b
    using Cons.prems(1) that by (auto simp: batadv_iv_ogm_neigh_cmp_def word_le_def)
  have b': "?tq k \<le> ?tq best'" "b \<in> set_option best \<Longrightarrow> ?tq b \<le> ?tq best'" for b
    using cmp by (auto simp: best'_def split: option.splits)
  have "find_best batadv_iv_ogm_neigh_cmp neigh ifo ns (Some best') = Some r"
    using Cons.prems(2) by (auto simp: best'_def split: option.splits)
  moreover have "\<forall>m \<in> set ns \<union> set_option (Some best'). batadv_neigh_ifinfo_get (neigh m) ifo \<noteq> None"
    using Cons.prems(1) by (auto simp: best'_def split: option.splits)
  ultimately have IH: "\<forall>m \<in> set ns \<union> set_option (Some best'). ?tq m \<le> ?tq r" using Cons.IH by blast
  then have "?tq best' \<le> ?tq r" by simp
  with b' IH show ?case by (auto intro: order_trans)
qed auto

text \<open>
  C2. Purging. The periodic purge removes exactly the originators that were not heard of for
  twice the timeout, and from the others exactly the neighbors that timed out or whose
  interface went down. The table stays well formed.
\<close>

theorem purge_orig_fresh:
  assumes "table_ok X st" "a \<in> known st"
  shows "table_ok (X \<union> known st) (batadv_purge_orig m2j now cmp st)
    \<and> (a \<in> known (batadv_purge_orig m2j now cmp st) \<longleftrightarrow>
         \<not> batadv_has_timed_out m2j now (on_last_seen (orig_at st a)) (2 * BATADV_PURGE_TIMEOUT))
    \<and> (a \<in> known (batadv_purge_orig m2j now cmp st) \<longrightarrow>
         set (on_neigh_list (orig_at (batadv_purge_orig m2j now cmp st) a))
         = {n \<in> set (on_neigh_list (orig_at st a)).
              \<not> batadv_has_timed_out m2j now (nn_last_seen (on_neigh (orig_at st a) n)) BATADV_PURGE_TIMEOUT
              \<and> \<not> if_going_down (bp_iface st (nn_if_incoming (on_neigh (orig_at st a) n)))})"
  using purge_orig_table(1) [OF assms(1)] purge_orig_table(3) [OF assms(1,2), of m2j now cmp]
  by (auto simp: purge_result_def orig_timed_out_def purged_orig_def neigh_obsolete_def Let_def split: if_splits)

text \<open>A table with one originator that is known over two neighbors, one of them stale at time 300000.\<close>

definition demo_ifinfo :: "u8 \<Rightarrow> batadv_neigh_ifinfo" where
  "demo_ifinfo tq = neigh_ifinfo_zero\<lparr>ni_tq_recv := replicate 5 tq, ni_tq_avg := tq\<rparr>"

definition demo_orig :: batadv_orig_node where
  "demo_orig = \<lparr>on_orig = 5,
     on_ifinfo = [(None, \<lparr>oi_router = Some 0, oi_last_real_seqno = 9, oi_last_ttl = 40, oi_batman_seqno_reset = 0\<rparr>)],
     on_last_seen = 290000,
     on_neigh = (\<lambda>n. if n = 0 then \<lparr>nn_orig_node = 5, nn_addr = 7, nn_ifinfo = [(None, demo_ifinfo 200)],
                                  nn_if_incoming = 0, nn_last_seen = 50000\<rparr>
       else \<lparr>nn_orig_node = 5, nn_addr = 8, nn_ifinfo = [(None, demo_ifinfo 150)], nn_if_incoming = 0,
             nn_last_seen = 290000\<rparr>),
     on_neigh_list = [0, 1], on_neigh_next = 2, on_bcast_own = [5], on_bcast_own_sum = [2]\<rparr>"

definition demo_mesh :: batadv_priv where
  "demo_mesh = (priv_init 1 (\<lambda>_. (hardif_init 9 True 1500)\<lparr>hi_if_num := 0, hi_if_status := BATADV_IF_ACTIVE,
      hi_soft_iface := Some 1\<rparr>) [0])\<lparr>bp_num_ifaces := 1, bp_orig_hash := [(5, demo_orig)]\<rparr>"

lemma demo_known: "known demo_mesh = {5}" "orig_at demo_mesh 5 = demo_orig"
  by (auto simp: known_def orig_at_def demo_mesh_def priv_init_def)

lemma demo_ifinfo_ok: "neigh_ifinfo_ok (demo_ifinfo 200)" "neigh_ifinfo_ok (demo_ifinfo 150)"
  by code_simp+

lemma demo_times:
  "\<not> batadv_has_timed_out of_nat 300000 290000 400000" "batadv_has_timed_out of_nat 300000 50000 200000"
  "\<not> batadv_has_timed_out of_nat 300000 290000 200000"
  by (simp_all add: batadv_has_timed_out_def time_before_def)

lemma demo_table_ok: "table_ok {} demo_mesh"
proof -
  have w: "bitmap_weight 5 = 2"
    by code_simp
  have "orig_ok 1 {5} 5 demo_orig"
    using demo_ifinfo_ok w
    by (auto simp: orig_ok_def demo_orig_def neigh_ok_def neigh_key_def split: if_splits)
  then show ?thesis
    by (simp add: table_ok_def demo_known) (simp add: demo_mesh_def priv_init_def)
qed

theorem purge_orig_fresh_witness:
  "5 \<in> known (batadv_purge_orig of_nat 300000 batadv_iv_ogm_neigh_cmp demo_mesh)
   \<and> set (on_neigh_list (orig_at (batadv_purge_orig of_nat 300000 batadv_iv_ogm_neigh_cmp demo_mesh) 5)) = {1}"
proof -
  have 5: "5 \<in> known demo_mesh" by (simp add: demo_known)
  have "{n \<in> {0, Suc 0}. P n} = {1}" if "\<not> P 0" "P 1" for P using that by auto
  then show ?thesis
    using purge_orig_fresh [OF demo_table_ok 5, of of_nat 300000 batadv_iv_ogm_neigh_cmp] demo_times
    by (simp add: demo_known) (simp add: demo_orig_def demo_mesh_def priv_init_def if_going_down_def)
qed


lemma demo_purge_router:
  "batadv_orig_router_get (orig_at (batadv_purge_orig of_nat 300000 batadv_iv_ogm_neigh_cmp demo_mesh) 5) None = Some 1"
proof -
  let ?p = "purged_orig of_nat 300000 demo_mesh demo_orig"
  have up: "\<not> if_going_down (bp_iface demo_mesh i)" for i
    by (simp add: demo_mesh_def priv_init_def if_going_down_def)
  have "neigh_obsolete of_nat 300000 demo_mesh (on_neigh demo_orig 0)"
    "\<not> neigh_obsolete of_nat 300000 demo_mesh (on_neigh demo_orig 1)"
    using demo_times by (simp_all add: neigh_obsolete_def up) (simp_all add: demo_orig_def)
  then have l: "on_neigh_list ?p = [1]" and c: "purge_changes of_nat 300000 demo_mesh demo_orig"
    by (simp_all add: purged_orig_def purge_changes_def demo_orig_def)
  have d: "None \<in> dom (map_of (on_ifinfo ?p))"
    by (simp add: purged_orig_def demo_orig_def ifinfo_obsolete_def)
  have "purge_result of_nat 300000 batadv_iv_ogm_neigh_cmp demo_mesh 5
      (batadv_purge_orig of_nat 300000 batadv_iv_ogm_neigh_cmp demo_mesh)"
    by (rule purge_orig_table(3) [OF demo_table_ok]) (simp add: demo_known)
  moreover have "on_last_seen demo_orig = 290000" by (simp add: demo_orig_def)
  ultimately show ?thesis
    using demo_times(1) l c d
    by (simp add: purge_result_def orig_timed_out_def demo_known Let_def batadv_find_best_neighbor_def)
qed


end
