(* ===== verification/Hardif.thy ===== *)
theory Hardif
  imports Send
begin

text \<open>
  The life of a network interface in the mesh, \<^verbatim>\<open>hard-interface.c\<close>: it is enabled (it gets a
  number, every originator gets a window for it), activated and deactivated as the link comes
  and goes, and disabled (the numbers behind its own move down). One mesh is modelled; the list
  of interfaces is shared by all meshes, so an interface of the list may belong to none.
\<close>

section \<open>The primary interface and the size of packets\<close>

definition batadv_hardif_get_active :: "nat option \<Rightarrow> batadv_priv \<Rightarrow> iface option" where
  "batadv_hardif_get_active soft_iface st =
     List.find (\<lambda>i. hi_soft_iface (bp_iface st i) = soft_iface \<and> hi_if_status (bp_iface st i) = BATADV_IF_ACTIVE)
       (bp_hardif_list st)"

definition batadv_primary_if_update_addr :: "iface option \<Rightarrow> batadv_priv \<Rightarrow> batadv_priv" where
  "batadv_primary_if_update_addr oldif st =
     (case bp_primary_if st of
        None \<Rightarrow> st
      | Some primary_if \<Rightarrow>
          ext_call (Call_bla_update_orig_address primary_if oldif) (ext_call (Call_dat_init_own_addr primary_if) st))"

definition batadv_primary_if_select :: "iface option \<Rightarrow> batadv_priv \<Rightarrow> batadv_priv" where
  "batadv_primary_if_select new_hard_iface st =
     (let curr_hard_iface = bp_primary_if st;
          st = st\<lparr>bp_primary_if := new_hard_iface\<rparr>
      in case new_hard_iface of
           None \<Rightarrow> st
         | Some i \<Rightarrow> batadv_primary_if_update_addr curr_hard_iface (batadv_iv_ogm_primary_iface_set i st))"

text \<open>The headers are those of a build without network coding, the default of the \<^verbatim>\<open>Makefile\<close>.\<close>

definition batadv_max_header_len :: int where
  "batadv_max_header_len = max (max (max 0 10) 18) 14 + 14"

definition batadv_hardif_min_mtu :: "batadv_priv \<Rightarrow> batadv_priv \<times> int" where
  "batadv_hardif_min_mtu st =
     (let min_mtu = fold (\<lambda>i min_mtu. let h = bp_iface st i in
            if hi_if_status h \<noteq> BATADV_IF_ACTIVE \<and> hi_if_status h \<noteq> BATADV_IF_TO_BE_ACTIVATED then min_mtu
            else if hi_soft_iface h \<noteq> Some (bp_soft_iface st) then min_mtu
            else min (hi_mtu h) min_mtu) (bp_hardif_list st) (2 ^ 31 - 1);
          min_mtu = (if \<not> bp_fragmentation st then min_mtu else (min min_mtu 1400 - 20) * 16)
      in (st\<lparr>bp_packet_size_max := min_mtu\<rparr>, min (min_mtu - batadv_max_header_len) 1500))"

definition batadv_update_min_mtu :: "batadv_priv \<Rightarrow> batadv_priv" where
  "batadv_update_min_mtu st =
     (let (st, mtu) = batadv_hardif_min_mtu st
      in ext_call Call_tt_local_resize_to_mtu (st\<lparr>bp_soft_mtu := mtu\<rparr>))"

section \<open>Activation\<close>

definition batadv_hardif_activate_interface :: "iface \<Rightarrow> batadv_priv \<Rightarrow> batadv_priv" where
  "batadv_hardif_activate_interface hard_iface st =
     (if hi_if_status (bp_iface st hard_iface) \<noteq> BATADV_IF_INACTIVE then st
      else
        let st = batadv_iv_ogm_iface_update_mac hard_iface st;
            st = upd_iface hard_iface (\<lambda>h. h\<lparr>hi_if_status := BATADV_IF_TO_BE_ACTIVATED\<rparr>) st;
            st = (if bp_primary_if st = None then batadv_primary_if_select (Some hard_iface) st else st)
        in batadv_update_min_mtu st)"

definition batadv_hardif_deactivate_interface :: "iface \<Rightarrow> batadv_priv \<Rightarrow> batadv_priv" where
  "batadv_hardif_deactivate_interface hard_iface st =
     (let status = hi_if_status (bp_iface st hard_iface) in
      if status \<noteq> BATADV_IF_ACTIVE \<and> status \<noteq> BATADV_IF_TO_BE_ACTIVATED then st
      else batadv_update_min_mtu (upd_iface hard_iface (\<lambda>h. h\<lparr>hi_if_status := BATADV_IF_INACTIVE\<rparr>) st))"

section \<open>Enabling and disabling\<close>

text \<open>
  The results of the calls that leave for the network stack, and of the allocations; \<open>he_junk_own\<close>
  is the content of the memory that the window of the new interface occupies.
\<close>

record hardif_env =
  he_kref :: bool
  he_soft :: bool
  he_valid :: bool
  he_del_slave :: int
  he_link :: int
  he_buff_ok :: bool
  he_buff :: "u8 list"
  he_seqno :: u32
  he_own_ok :: "mac \<Rightarrow> bool"
  he_sum_ok :: "mac \<Rightarrow> bool"
  he_junk_own :: "mac \<Rightarrow> seqbits"
  he_junk_sum :: "mac \<Rightarrow> u8"
  he_up :: bool

abbreviation (input) EINVAL :: int where "EINVAL \<equiv> 22"

definition bat_orig_add_if :: "hardif_env \<Rightarrow> batadv_orig_node \<Rightarrow> nat \<Rightarrow> batadv_orig_node \<times> int" where
  "bat_orig_add_if env on = batadv_iv_ogm_orig_add_if (he_own_ok env (on_orig on)) (he_sum_ok env (on_orig on))
     (he_junk_own env (on_orig on)) (he_junk_sum env (on_orig on)) on"

definition bat_orig_del_if :: "hardif_env \<Rightarrow> batadv_orig_node \<Rightarrow> nat \<Rightarrow> int \<Rightarrow> batadv_orig_node \<times> int" where
  "bat_orig_del_if env on max_if_num if_num =
     (let (on, ret, dangling) = batadv_iv_ogm_orig_del_if (he_own_ok env (on_orig on)) (he_sum_ok env (on_orig on))
            on max_if_num (nat if_num)
      in (on, ret))"

definition batadv_hardif_enable_interface ::
    "hardif_env \<Rightarrow> (alloc_site \<Rightarrow> bool) \<Rightarrow> (nat \<Rightarrow> jiffies) \<Rightarrow> jiffies \<Rightarrow> u32 \<Rightarrow> (u8 list \<Rightarrow> nat \<Rightarrow> u8 list \<times> u16)
      \<Rightarrow> iface \<Rightarrow> batadv_priv \<Rightarrow> batadv_priv \<times> int" where
  "batadv_hardif_enable_interface env alloc m2j now rnd ogm_append hard_iface st =
     (let set_soft = (\<lambda>s. upd_iface hard_iface (\<lambda>h. h\<lparr>hi_soft_iface := s\<rparr>)) in
      if hi_if_status (bp_iface st hard_iface) \<noteq> BATADV_IF_NOT_IN_USE then (st, 0)
      else if \<not> he_kref env then (st, 0)
      else if \<not> he_soft env then (st, - ENOMEM)
      else if \<not> he_valid env then (set_soft None st, - EINVAL)
      else if he_del_slave env \<noteq> 0 then (set_soft None st, he_del_slave env)
      else
        let st = set_soft (Some (bp_soft_iface st)) st
        in if he_link env \<noteq> 0 then (set_soft None st, he_link env)
           else
             let (st, ret) = batadv_iv_ogm_iface_enable (he_buff_ok env) (he_buff env) (he_seqno env) hard_iface st
             in if ret < 0 then (set_soft None st, ret)
                else
                  let st = upd_iface hard_iface (\<lambda>h. h\<lparr>hi_if_num := int (bp_num_ifaces st),
                             hi_if_status := BATADV_IF_INACTIVE\<rparr>) st;
                      st = st\<lparr>bp_num_ifaces := bp_num_ifaces st + 1\<rparr>;
                      (st, ret) = batadv_orig_hash_add_if (bat_orig_add_if env) (bp_num_ifaces st) st
                  in if ret < 0 then
                       let st = batadv_iv_ogm_iface_disable hard_iface st;
                           st = st\<lparr>bp_num_ifaces := bp_num_ifaces st - 1\<rparr>;
                           st = upd_iface hard_iface (\<lambda>h. h\<lparr>hi_if_status := BATADV_IF_NOT_IN_USE\<rparr>) st
                       in (set_soft None st, ret)
                     else
                       let st = (if he_up env then batadv_hardif_activate_interface hard_iface st else st)
                       in (batadv_schedule_bat_ogm alloc m2j now rnd ogm_append hard_iface st, 0))"

text \<open>The first part of disabling: the number is given up, and another interface becomes the primary one.\<close>

definition give_up_number :: "hardif_env \<Rightarrow> iface \<Rightarrow> batadv_priv \<Rightarrow> batadv_priv" where
  "give_up_number env hard_iface st =
     (let st = st\<lparr>bp_num_ifaces := bp_num_ifaces st - 1\<rparr>;
          st = fst (batadv_orig_hash_del_if (bat_orig_del_if env) hard_iface (bp_num_ifaces st) st);
          st = (if bp_primary_if st = Some hard_iface
                then batadv_primary_if_select (batadv_hardif_get_active (hi_soft_iface (bp_iface st hard_iface)) st) st
                else st)
      in batadv_iv_ogm_iface_disable hard_iface st)"

text \<open>
  The second part: all references to the interface are removed. \<open>pending\<close> is the result of
  cancelling the work item of a queued packet, \<open>autodel\<close> the cleanup mode.
\<close>

definition drop_references ::
    "(nat \<Rightarrow> jiffies) \<Rightarrow> jiffies \<Rightarrow> (batadv_forw_packet \<Rightarrow> bool) \<Rightarrow> bool \<Rightarrow> iface \<Rightarrow> batadv_priv \<Rightarrow> batadv_priv" where
  "drop_references m2j now pending autodel hard_iface st =
     (let st = upd_iface hard_iface (\<lambda>h. h\<lparr>hi_if_status := BATADV_IF_NOT_IN_USE\<rparr>) st;
          st = batadv_purge_orig m2j now batadv_iv_ogm_neigh_cmp st;
          st = batadv_purge_outstanding_packets (Some hard_iface) pending st;
          st = (if bp_num_ifaces st = 0 then
                  let st = ext_call Call_gw_check_client_stop st
                  in if autodel then ext_call Call_softif_destroy_sysfs st else st
                else st)
      in upd_iface hard_iface (\<lambda>h. h\<lparr>hi_soft_iface := None\<rparr>) st)"

definition batadv_hardif_disable_interface ::
    "hardif_env \<Rightarrow> (nat \<Rightarrow> jiffies) \<Rightarrow> jiffies \<Rightarrow> (batadv_forw_packet \<Rightarrow> bool) \<Rightarrow> bool \<Rightarrow> iface
      \<Rightarrow> batadv_priv \<Rightarrow> batadv_priv" where
  "batadv_hardif_disable_interface env m2j now pending autodel hard_iface st =
     (let st = batadv_hardif_deactivate_interface hard_iface st in
      if hi_if_status (bp_iface st hard_iface) \<noteq> BATADV_IF_INACTIVE then st
      else drop_references m2j now pending autodel hard_iface (give_up_number env hard_iface st))"

definition batadv_hardif_remove_interface ::
    "hardif_env \<Rightarrow> (nat \<Rightarrow> jiffies) \<Rightarrow> jiffies \<Rightarrow> (batadv_forw_packet \<Rightarrow> bool) \<Rightarrow> iface
      \<Rightarrow> batadv_priv \<Rightarrow> batadv_priv" where
  "batadv_hardif_remove_interface env m2j now pending hard_iface st =
     (let st = (if hi_if_status (bp_iface st hard_iface) \<noteq> BATADV_IF_NOT_IN_USE
                then batadv_hardif_disable_interface env m2j now pending True hard_iface st else st)
      in if hi_if_status (bp_iface st hard_iface) \<noteq> BATADV_IF_NOT_IN_USE then st
         else upd_iface hard_iface (\<lambda>h. h\<lparr>hi_if_status := BATADV_IF_TO_BE_REMOVED\<rparr>) st)"

text \<open>A network device that becomes known: the structure is new and goes to the end of the list.\<close>

definition batadv_hardif_add_interface :: "bool \<Rightarrow> mac \<Rightarrow> bool \<Rightarrow> int \<Rightarrow> iface \<Rightarrow> batadv_priv \<Rightarrow> batadv_priv" where
  "batadv_hardif_add_interface ok dev_addr wifi mtu hard_iface st =
     (if \<not> ok then st
      else st\<lparr>bp_iface := (bp_iface st)(hard_iface := hardif_init dev_addr wifi mtu),
              bp_hardif_list := bp_hardif_list st @ [hard_iface]\<rparr>)"

section \<open>Events of the network stack\<close>

datatype netdev_event =
  NETDEV_UP | NETDEV_GOING_DOWN | NETDEV_DOWN | NETDEV_UNREGISTER | NETDEV_PRE_TYPE_CHANGE
  | NETDEV_CHANGEMTU | NETDEV_CHANGEADDR | NETDEV_OTHER

text \<open>The handler for an interface that is known and belongs to this mesh or to none.\<close>

definition batadv_hard_if_event ::
    "hardif_env \<Rightarrow> (nat \<Rightarrow> jiffies) \<Rightarrow> jiffies \<Rightarrow> (batadv_forw_packet \<Rightarrow> bool) \<Rightarrow> netdev_event \<Rightarrow> iface
      \<Rightarrow> batadv_priv \<Rightarrow> batadv_priv" where
  "batadv_hard_if_event env m2j now pending event hard_iface st =
     (if event = NETDEV_UP then batadv_hardif_activate_interface hard_iface st
      else if event = NETDEV_GOING_DOWN \<or> event = NETDEV_DOWN then batadv_hardif_deactivate_interface hard_iface st
      else if event = NETDEV_UNREGISTER \<or> event = NETDEV_PRE_TYPE_CHANGE then
        batadv_hardif_remove_interface env m2j now pending hard_iface
          (st\<lparr>bp_hardif_list := remove1 hard_iface (bp_hardif_list st)\<rparr>)
      else if event = NETDEV_CHANGEMTU then
        (if hi_soft_iface (bp_iface st hard_iface) \<noteq> None then batadv_update_min_mtu st else st)
      else if event = NETDEV_CHANGEADDR then
        (if hi_if_status (bp_iface st hard_iface) = BATADV_IF_NOT_IN_USE then st
         else
           let st = batadv_iv_ogm_iface_update_mac hard_iface st
           in if bp_primary_if st = Some hard_iface then batadv_primary_if_update_addr None st else st)
      else st)"

end
