(* ===== verification/Mesh.thy ===== *)
theory Mesh
  imports Iv_Purge Hardif
begin

text \<open>
  The mesh as a state machine: the reception of originator messages, the work items of the two
  packet queues, the periodic purge, and the coming and going of interfaces, in any order. The
  invariant: the originator table is well formed, the interface numbers index the windows of
  every originator, and no place in the packet queues is lost.
\<close>

section \<open>What routing leaves alone\<close>

definition queue_sum :: "batadv_priv \<Rightarrow> nat" where
  "queue_sum st = bp_batman_queue_left st + length (filter (\<lambda>p. \<not> fw_own p) (bp_forw_bat_list st))"

definition iface_view :: "batadv_hard_iface \<Rightarrow> int \<times> batadv_hard_iface_state \<times> nat option" where
  "iface_view h = (hi_if_num h, hi_if_status h, hi_soft_iface h)"

definition view where
  "view st = (\<lambda>i. iface_view (bp_iface st i), bp_hardif_list st, bp_soft_iface st, bp_num_ifaces st, bp_primary_if st,
     bp_mesh_state st, bp_bcast_queue_left st, bp_forw_bcast_list st, queue_sum st)"

lemma view_basic [simp]:
  "view (ext_call c st) = view st" "view (upd_orig a f st) = view st"
  "view (st\<lparr>bp_orig_hash := h\<rparr>) = view st" "view (st\<lparr>bp_panic := b\<rparr>) = view st"
  by (simp_all add: view_def queue_sum_def ext_call_def upd_orig_def)

lemma view_upd_iface: "iface_view (f (bp_iface st i)) = iface_view (bp_iface st i) \<Longrightarrow> view (upd_iface i f st) = view st"
  by (auto simp: view_def queue_sum_def upd_iface_def fun_eq_iff)

lemma orig_get_view [simp]: "view (fst (batadv_iv_ogm_orig_get alloc now addr st)) = view st"
  by (simp add: batadv_iv_ogm_orig_get_def Let_def split: option.splits)

lemma orig_get_view': "batadv_iv_ogm_orig_get alloc now addr st = (st', r) \<Longrightarrow> view st' = view st"
  using orig_get_view [of alloc now addr st] by simp

lemma hardif_neigh_view: "batadv_hardif_neigh_get_or_create alloc now i addr st = (st', b) \<Longrightarrow> view st' = view st"
  by (auto simp: batadv_hardif_neigh_get_or_create_def batadv_hardif_neigh_create_def view_upd_iface iface_view_def
      split: option.splits if_splits)

lemma neigh_new_view': "batadv_iv_ogm_neigh_new alloc now i addr a b st = (st', r) \<Longrightarrow> view st' = view st"
  by (auto simp: batadv_iv_ogm_neigh_new_def batadv_neigh_node_new_def Let_def dest: hardif_neigh_view
      split: option.splits prod.splits bool.splits if_splits)

lemma neigh_new_view [simp]: "view (fst (batadv_iv_ogm_neigh_new alloc now i addr a b st)) = view st"
  by (rule neigh_new_view' [OF prod.collapse [symmetric]])

lemma update_route_view [simp]: "view (batadv_update_route a ifo n st) = view st"
  by (simp add: batadv_update_route_def batadv_update_route1_def Let_def split: option.splits)

lemma orig_update_neigh_view [simp]: "view (orig_update_neigh alloc now a ogm ifo dup n st) = view st"
  by (simp add: orig_update_neigh_def credited_def Let_def split: prod.splits bool.splits)

lemma orig_update_view [simp]: "view (batadv_iv_ogm_orig_update alloc now a src ogm if_in ifo dup st) = view st"
  by (auto simp: batadv_iv_ogm_orig_update_def Let_def dest!: orig_get_view' neigh_new_view'
      split: prod.splits option.splits)

lemma calc_tq_view [simp]: "view (fst (batadv_iv_ogm_calc_tq alloc now a b ogm if_in ifo st)) = view st"
  by (simp add: batadv_iv_ogm_calc_tq_def Let_def split_def split: option.split)

lemma calc_tq_view': "batadv_iv_ogm_calc_tq alloc now a b ogm if_in ifo st = (st', r) \<Longrightarrow> view st' = view st"
  using calc_tq_view [of alloc now a b ogm if_in ifo st] by simp

lemma update_seqnos_view': "batadv_iv_ogm_update_seqnos alloc m2j now src ogm if_in ifo st = (st', r) \<Longrightarrow> view st' = view st"
  by (auto simp: batadv_iv_ogm_update_seqnos_def Let_def dest: orig_get_view' split: prod.splits option.splits)

lemma aggregate_first_own:
  assumes "\<And>x. fw_own (fst (f x)) = fw_own x" "aggregate_first p f xs = Some (ys, b)"
  shows "length (filter (\<lambda>p. \<not> fw_own p) ys) = length (filter (\<lambda>p. \<not> fw_own p) xs)"
  using assms(2) by (induction xs arbitrary: ys) (auto simp: assms(1) split: if_splits)

lemma aggregate_own: "fw_own (fst (batadv_iv_ogm_aggregate fp buff len d)) = fw_own fp"
  by (simp add: batadv_iv_ogm_aggregate_def Let_def)

lemma queue_add_view [simp]: "view (batadv_iv_ogm_queue_add alloc m2j buff len i j own t st) = view st"
  by (auto simp: batadv_iv_ogm_queue_add_def batadv_iv_ogm_aggregate_new_def Let_def view_def queue_sum_def
      aggregate_first_own aggregate_own split: option.splits if_splits dest!: aggregate_first_own [rotated])

lemma forward_view [simp]: "view (batadv_iv_ogm_forward alloc m2j now rnd src ogm tvlv single best i j st) = view st"
  by (simp add: batadv_iv_ogm_forward_def Let_def)

lemma process_from_neigh_view [simp]:
  "view (process_from_neigh alloc m2j now rnd src ogm tvlv a b single best dup if_in ifo st) = view st"
proof -
  let ?s = "ext_call (Call_nc_update_nc_node a b (ogm_bytes ogm @ tvlv) single) st"
  obtain s1 ogm1 bidir where calc: "batadv_iv_ogm_calc_tq alloc now a b ogm if_in ifo ?s = (s1, ogm1, bidir)"
    by (metis prod_cases3)
  obtain on have_if where oi: "batadv_orig_ifinfo_new alloc m2j now (orig_at s1 a) ifo = (on, have_if)" by force
  show ?thesis
    using calc_tq_view' [OF calc] by (simp add: process_from_neigh_def calc oi Let_def split: option.split)
qed

lemma process_accepted_view [simp]:
  "view (process_accepted alloc m2j now rnd src ogm tvlv a best dup if_in ifo st) = view st"
  by (auto simp: process_accepted_def Let_def dest!: orig_get_view' split: prod.splits option.splits if_splits)

lemma per_outif_view [simp]:
  "view (batadv_iv_ogm_process_per_outif alloc m2j now rnd src ogm tvlv a if_in ifo st) = view st"
  by (auto simp: batadv_iv_ogm_process_per_outif_def Let_def hardif_neigh_seen_def view_upd_iface iface_view_def
      dest!: update_seqnos_view' split: prod.splits)

lemma fold_view: "(\<And>x s. view (f x s) = view s) \<Longrightarrow> view (fold f xs st) = view st"
  by (induction xs arbitrary: st) simp_all

lemma process_view [simp]: "view (batadv_iv_ogm_process alloc m2j now rnd src past data off if_in st) = view st"
  by (auto simp: batadv_iv_ogm_process_def Let_def note_own_echo_def fold_view dest!: orig_get_view'
      split: prod.splits option.splits)

lemma receive_view: "view (fst (batadv_iv_ogm_receive alloc m2j now rnd p c l iv dest src past data if_in st)) = view st"
  by (simp add: batadv_iv_ogm_receive_def fold_view)

lemma ogm_complete_view [simp]: "view (ogm_complete ogm_append i st) = view st"
  by (simp add: ogm_complete_def Let_def split_def view_upd_iface iface_view_def)

lemma schedule_view: "view (batadv_iv_ogm_schedule alloc m2j now rnd ogm_append i st) = view st"
  by (auto simp: batadv_iv_ogm_schedule_def batadv_iv_ogm_slide_own_bcast_window_def Let_def
      intro!: fold_view [THEN trans])

lemma purge_orig_node_view: "view (fst (batadv_purge_orig_node m2j now cmp a st)) = view st"
  by (auto simp: batadv_purge_orig_node_def Let_def fold_view split: prod.splits)

lemma purge_origs_view: "view (purge_origs m2j now cmp as st) = view st"
  using purge_orig_node_view
  by (induction "as" arbitrary: st) (auto simp: Let_def split: prod.splits bool.splits, metis fst_conv, metis fst_conv)

lemma purge_orig_view: "view (batadv_purge_orig m2j now cmp st) = view st"
  by (simp add: batadv_purge_orig_def purge_origs_view)

section \<open>The invariant\<close>

definition members :: "batadv_priv \<Rightarrow> iface set" where
  "members st = {i. hi_soft_iface (bp_iface st i) = Some (bp_soft_iface st)}"

abbreviation if_num_of :: "batadv_priv \<Rightarrow> iface \<Rightarrow> nat" where
  "if_num_of st i \<equiv> nat (hi_if_num (bp_iface st i))"

text \<open>The interfaces of the mesh are numbered without gaps, all others are out of use. Those in \<open>E\<close> may
  already have left the list of interfaces.\<close>

definition ifaces_in :: "iface set \<Rightarrow> batadv_priv \<Rightarrow> bool" where
  "ifaces_in E st \<longleftrightarrow> distinct (bp_hardif_list st) \<and> members st - E \<subseteq> set (bp_hardif_list st)
     \<and> (\<forall>i \<in> members st. 0 \<le> hi_if_num (bp_iface st i)
          \<and> hi_if_status (bp_iface st i) \<in> {BATADV_IF_INACTIVE, BATADV_IF_ACTIVE, BATADV_IF_TO_BE_ACTIVATED})
     \<and> (\<forall>i. i \<notin> members st \<longrightarrow> hi_soft_iface (bp_iface st i) = None
          \<and> hi_if_status (bp_iface st i) \<in> {BATADV_IF_NOT_IN_USE, BATADV_IF_TO_BE_REMOVED})
     \<and> bij_betw (if_num_of st) (members st) {..<bp_num_ifaces st}"

abbreviation ifaces_ok :: "batadv_priv \<Rightarrow> bool" where
  "ifaces_ok \<equiv> ifaces_in {}"

definition queue_ok :: "batadv_priv \<Rightarrow> bool" where
  "queue_ok st \<longleftrightarrow> queue_sum st = BATADV_BATMAN_QUEUE_LEN
     \<and> bp_bcast_queue_left st + length (bp_forw_bcast_list st) = BATADV_BCAST_QUEUE_LEN
     \<and> (\<forall>p \<in> set (bp_forw_bcast_list st). \<not> fw_own p)"

definition mesh_ok :: "batadv_priv \<Rightarrow> bool" where
  "mesh_ok st \<longleftrightarrow> table_ok UNIV st \<and> ifaces_ok st \<and> queue_ok st"

lemma view_iff: "view st' = view st \<longleftrightarrow> (\<forall>i. iface_view (bp_iface st' i) = iface_view (bp_iface st i))
    \<and> bp_hardif_list st' = bp_hardif_list st \<and> bp_soft_iface st' = bp_soft_iface st
    \<and> bp_num_ifaces st' = bp_num_ifaces st \<and> bp_primary_if st' = bp_primary_if st \<and> bp_mesh_state st' = bp_mesh_state st
    \<and> bp_bcast_queue_left st' = bp_bcast_queue_left st \<and> bp_forw_bcast_list st' = bp_forw_bcast_list st
    \<and> queue_sum st' = queue_sum st"
  by (auto simp: view_def fun_eq_iff)

lemma ifaces_ok_frame:
  assumes "\<And>i. iface_view (bp_iface st' i) = iface_view (bp_iface st i)" "bp_hardif_list st' = bp_hardif_list st"
    "bp_soft_iface st' = bp_soft_iface st" "bp_num_ifaces st' = bp_num_ifaces st"
  shows "ifaces_in E st' = ifaces_in E st"
proof -
  have "hi_if_num (bp_iface st' i) = hi_if_num (bp_iface st i)" "hi_if_status (bp_iface st' i) = hi_if_status (bp_iface st i)"
    "hi_soft_iface (bp_iface st' i) = hi_soft_iface (bp_iface st i)" for i
    using assms(1) [of i] by (simp_all add: iface_view_def)
  then show ?thesis using assms(2-4) by (simp add: ifaces_in_def members_def)
qed

lemma view_ok: "view st' = view st \<Longrightarrow> ifaces_ok st' = ifaces_ok st \<and> queue_ok st' = queue_ok st"
  using ifaces_ok_frame [of st' st] by (auto simp: view_iff queue_ok_def)

lemma table_UNIV: "table_ok UNIV st \<longleftrightarrow> distinct (map fst (bp_orig_hash st))
    \<and> (\<forall>a on. map_of (bp_orig_hash st) a = Some on \<longrightarrow> orig_ok (bp_num_ifaces st) UNIV a on)"
  by (simp add: table_ok_def)

lemma mesh_ok_view:
  assumes "mesh_ok st" "view st' = view st" "keeps UNIV st st'"
  shows "mesh_ok st'"
  using assms view_ok [OF assms(2)] by (auto simp: mesh_ok_def keeps_def)

section \<open>Queues\<close>

lemma filter_del_at:
  "k < length xs \<Longrightarrow> length (filter P (del_at k xs)) + (if P (xs ! k) then 1 else 0) = length (filter P xs)"
  unfolding del_at_def by (subst (3) id_take_nth_drop, assumption) simp

lemma length_del_at: "k < length xs \<Longrightarrow> length (del_at k xs) + 1 = length xs"
  by (simp add: del_at_def)

lemma set_del_at: "set (del_at k xs) \<subseteq> set xs"
  by (auto simp: del_at_def dest: in_set_takeD in_set_dropD)

section \<open>Interfaces\<close>

text \<open>All that the invariant looks at.\<close>

definition core where
  "core st = (\<lambda>i. iface_view (bp_iface st i), bp_hardif_list st, bp_soft_iface st, bp_num_ifaces st, bp_orig_hash st,
     bp_bcast_queue_left st, bp_forw_bcast_list st, bp_batman_queue_left st, bp_forw_bat_list st)"

lemma mesh_ok_core: "core st' = core st \<Longrightarrow> mesh_ok st' = mesh_ok st"
  using ifaces_ok_frame [of st' st]
  by (auto simp: core_def fun_eq_iff mesh_ok_def queue_ok_def queue_sum_def table_ok_def)

lemma core_basic [simp]:
  "core (ext_call c st) = core st" "core (st\<lparr>bp_primary_if := p\<rparr>) = core st"
  "core (st\<lparr>bp_packet_size_max := m\<rparr>) = core st" "core (st\<lparr>bp_soft_mtu := m\<rparr>) = core st"
  by (simp_all add: core_def ext_call_def)

lemma core_upd_iface: "iface_view (f (bp_iface st i)) = iface_view (bp_iface st i) \<Longrightarrow> core (upd_iface i f st) = core st"
  by (auto simp: core_def upd_iface_def fun_eq_iff)

lemma core_iv [simp]:
  "core (batadv_iv_ogm_iface_update_mac i st) = core st" "core (batadv_iv_ogm_primary_iface_set i st) = core st"
  "core (batadv_iv_ogm_iface_disable i st) = core st"
  by (simp_all add: batadv_iv_ogm_iface_update_mac_def batadv_iv_ogm_primary_iface_set_def
      batadv_iv_ogm_iface_disable_def core_upd_iface iface_view_def)

lemma core_primary [simp]: "core (batadv_primary_if_update_addr p st) = core st" "core (batadv_primary_if_select q st) = core st"
proof -
  show "core (batadv_primary_if_update_addr p st) = core st" for p st
    by (simp add: batadv_primary_if_update_addr_def split: option.split)
  then show "core (batadv_primary_if_select q st) = core st"
    by (simp add: batadv_primary_if_select_def Let_def split: option.split)
qed

lemma core_mtu [simp]: "core (batadv_update_min_mtu st) = core st"
  by (simp add: batadv_update_min_mtu_def batadv_hardif_min_mtu_def Let_def)

definition set_status :: "iface \<Rightarrow> batadv_hard_iface_state \<Rightarrow> batadv_priv \<Rightarrow> batadv_priv" where
  "set_status i s = upd_iface i (\<lambda>h. h\<lparr>hi_if_status := s\<rparr>)"

lemma core_set_status: "core st' = core st \<Longrightarrow> core (set_status i s st') = core (set_status i s st)"
  by (auto simp: core_def set_status_def upd_iface_def iface_view_def fun_eq_iff)

lemma status_ifaces_ok:
  assumes "ifaces_in E st" "i \<in> members st" "s \<in> {BATADV_IF_INACTIVE, BATADV_IF_ACTIVE, BATADV_IF_TO_BE_ACTIVATED}"
  shows "ifaces_in E (set_status i s st)"
proof -
  let ?st = "set_status i s st"
  have m: "members ?st = members st" "if_num_of ?st = if_num_of st" and fr: "bp_hardif_list ?st = bp_hardif_list st"
    "bp_num_ifaces ?st = bp_num_ifaces st"
    by (auto simp: members_def set_status_def upd_iface_def fun_eq_iff)
  show ?thesis
    using assms unfolding ifaces_in_def m fr by (auto simp: set_status_def upd_iface_def)
qed

lemma status_mesh_ok:
  assumes "mesh_ok st" "i \<in> members st" "s \<in> {BATADV_IF_INACTIVE, BATADV_IF_ACTIVE, BATADV_IF_TO_BE_ACTIVATED}"
  shows "mesh_ok (set_status i s st)"
  using assms status_ifaces_ok [OF _ assms(2,3)]
  by (simp add: mesh_ok_def) (simp add: set_status_def upd_iface_def queue_ok_def queue_sum_def table_ok_def known_def)

lemma in_use_member:
  "mesh_ok st \<Longrightarrow> hi_if_status (bp_iface st i) \<notin> {BATADV_IF_NOT_IN_USE, BATADV_IF_TO_BE_REMOVED} \<Longrightarrow> i \<in> members st"
  by (auto simp: mesh_ok_def ifaces_in_def)

lemma activate_core:
  "core (batadv_hardif_activate_interface i st) =
    core (if hi_if_status (bp_iface st i) = BATADV_IF_INACTIVE then set_status i BATADV_IF_TO_BE_ACTIVATED st else st)"
  using core_set_status [of "batadv_iv_ogm_iface_update_mac i st" st i BATADV_IF_TO_BE_ACTIVATED]
  by (simp add: batadv_hardif_activate_interface_def Let_def flip: set_status_def)

lemma deactivate_core:
  "core (batadv_hardif_deactivate_interface i st) =
    core (if hi_if_status (bp_iface st i) \<in> {BATADV_IF_ACTIVE, BATADV_IF_TO_BE_ACTIVATED}
      then set_status i BATADV_IF_INACTIVE st else st)"
  by (auto simp: batadv_hardif_deactivate_interface_def Let_def simp flip: set_status_def)

lemma activate_mesh_ok: "mesh_ok st \<Longrightarrow> mesh_ok (batadv_hardif_activate_interface i st)"
  using mesh_ok_core [OF activate_core] status_mesh_ok in_use_member by (auto split: if_splits)

lemma deactivate_mesh_ok: "mesh_ok st \<Longrightarrow> mesh_ok (batadv_hardif_deactivate_interface i st)"
  using mesh_ok_core [OF deactivate_core] status_mesh_ok in_use_member by (auto split: if_splits)

lemma schedule_mesh_ok:
  assumes "mesh_ok st"
  shows "mesh_ok (batadv_schedule_bat_ogm alloc m2j now rnd ogm_append i st)"
proof -
  have sched: "mesh_ok (batadv_iv_ogm_schedule alloc m2j now rnd ogm_append i s)" if "mesh_ok s" for s
    using that schedule_view schedule_keeps by (rule mesh_ok_view)
  have "mesh_ok (set_status i BATADV_IF_ACTIVE st)" if "hi_if_status (bp_iface st i) = BATADV_IF_TO_BE_ACTIVATED"
    using that by (intro status_mesh_ok [OF assms] in_use_member [OF assms]) simp_all
  then show ?thesis
    using assms sched by (auto simp: batadv_schedule_bat_ogm_def Let_def simp flip: set_status_def)
qed

section \<open>The work items of the queues\<close>

lemma mesh_ok_queue:
  assumes "mesh_ok st"
    and "\<And>i. bp_iface st' i = bp_iface st i" "bp_hardif_list st' = bp_hardif_list st" "bp_soft_iface st' = bp_soft_iface st"
    "bp_num_ifaces st' = bp_num_ifaces st" "bp_orig_hash st' = bp_orig_hash st" "queue_ok st'"
  shows "mesh_ok st'"
proof -
  have "bp_iface st' = bp_iface st" using assms(2) by auto
  then show ?thesis
    using assms by (simp add: mesh_ok_def ifaces_in_def members_def table_ok_def)
qed

lemma emit_frame:
  assumes "batadv_iv_ogm_emit alloc past fp st = (fp', st')"
  shows "st' = st \<or> (\<exists>c. st' = ext_call c st)"
  using assms by (auto simp: batadv_iv_ogm_emit_def batadv_iv_ogm_send_to_if_def Let_def split: option.splits if_splits)

text \<open>A packet leaves the queue before its place is given back: \<open>d\<close> places are in the hand of the work item.\<close>

definition mesh_ok_owing :: "nat \<Rightarrow> batadv_priv \<Rightarrow> bool" where
  "mesh_ok_owing d st \<longleftrightarrow> mesh_ok (st\<lparr>bp_batman_queue_left := bp_batman_queue_left st + d\<rparr>)"

lemma owing_iff: "mesh_ok_owing d st \<longleftrightarrow> table_ok UNIV st \<and> ifaces_ok st \<and> queue_sum st + d = BATADV_BATMAN_QUEUE_LEN
     \<and> bp_bcast_queue_left st + length (bp_forw_bcast_list st) = BATADV_BCAST_QUEUE_LEN
     \<and> (\<forall>p \<in> set (bp_forw_bcast_list st). \<not> fw_own p)"
  by (auto simp: mesh_ok_owing_def mesh_ok_def queue_ok_def queue_sum_def table_ok_def known_def ifaces_in_def members_def)

lemma schedule_owing:
  assumes "mesh_ok_owing d st"
  shows "mesh_ok_owing d (batadv_schedule_bat_ogm alloc m2j now rnd ogm_append i st)"
proof -
  have step: "mesh_ok_owing d s'" if "mesh_ok_owing d s" "view s' = view s" "keeps UNIV s s'" for s s'
    using that view_ok [OF that(2)] by (auto simp: owing_iff keeps_def view_iff)
  have sched: "mesh_ok_owing d (batadv_iv_ogm_schedule alloc m2j now rnd ogm_append i s)" if "mesh_ok_owing d s" for s
    using that schedule_view schedule_keeps by (rule step)
  have "mesh_ok_owing d (set_status i BATADV_IF_ACTIVE st)" if "hi_if_status (bp_iface st i) = BATADV_IF_TO_BE_ACTIVATED"
  proof -
    have ok: "mesh_ok (st\<lparr>bp_batman_queue_left := bp_batman_queue_left st + d\<rparr>)" using assms by (simp add: mesh_ok_owing_def)
    have "mesh_ok (set_status i BATADV_IF_ACTIVE (st\<lparr>bp_batman_queue_left := bp_batman_queue_left st + d\<rparr>))"
      using that by (intro status_mesh_ok [OF ok] in_use_member [OF ok]) simp_all
    moreover have c: "core ((set_status i BATADV_IF_ACTIVE st)\<lparr>bp_batman_queue_left :=
          bp_batman_queue_left (set_status i BATADV_IF_ACTIVE st) + d\<rparr>)
        = core (set_status i BATADV_IF_ACTIVE (st\<lparr>bp_batman_queue_left := bp_batman_queue_left st + d\<rparr>))"
      by (simp add: core_def set_status_def upd_iface_def)
    ultimately show ?thesis by (simp only: mesh_ok_owing_def mesh_ok_core [OF c])
  qed
  then show ?thesis
    using assms sched by (auto simp: batadv_schedule_bat_ogm_def Let_def simp flip: set_status_def)
qed

lemma ogm_work_mesh_ok:
  assumes "mesh_ok st" "k < length (bp_forw_bat_list st)"
  shows "mesh_ok (batadv_send_outstanding_bat_ogm_packet alloc m2j now rnd ogm_append past k st)"
proof -
  let ?fp = "bp_forw_bat_list st ! k"
  define d :: nat where "d = (if fw_own ?fp then 0 else 1)"
  define s0 where "s0 = st\<lparr>bp_forw_bat_list := del_at k (bp_forw_bat_list st)\<rparr>"
  have "mesh_ok_owing d s0"
    unfolding mesh_ok_owing_def
  proof (rule mesh_ok_queue [OF assms(1)])
    show "queue_ok (s0\<lparr>bp_batman_queue_left := bp_batman_queue_left s0 + d\<rparr>)"
      using assms filter_del_at [OF assms(2), of "\<lambda>p. \<not> fw_own p"]
      by (auto simp: mesh_ok_def queue_ok_def queue_sum_def s0_def d_def)
  qed (simp_all add: s0_def)
  obtain fp' s1 where emit: "batadv_iv_ogm_emit alloc past ?fp s0 = (fp', s1)" by force
  have "core s1 = core s0" using emit_frame [OF emit] by auto
  moreover have "core (s\<lparr>bp_batman_queue_left := n\<rparr>) = core (s'\<lparr>bp_batman_queue_left := n\<rparr>)" if "core s = core s'" for s s' n
    using that by (simp add: core_def)
  moreover have "bp_batman_queue_left s1 = bp_batman_queue_left s0"
    using \<open>core s1 = core s0\<close> by (simp add: core_def)
  ultimately have "mesh_ok_owing d s1"
    using \<open>mesh_ok_owing d s0\<close> mesh_ok_core unfolding mesh_ok_owing_def by metis
  note sched = schedule_owing [OF this]
  define s2 where "s2 = (if bp_mesh_state s0 = BATADV_MESH_DEACTIVATING then s0
      else if fw_own ?fp \<and> fw_if_incoming ?fp = fw_if_outgoing ?fp
      then batadv_schedule_bat_ogm alloc m2j now rnd ogm_append (the (fw_if_incoming ?fp)) s1 else s1)"
  have "mesh_ok_owing d s2"
    unfolding s2_def using sched \<open>mesh_ok_owing d s0\<close> \<open>mesh_ok_owing d s1\<close> by simp
  moreover have "batadv_send_outstanding_bat_ogm_packet alloc m2j now rnd ogm_append past k st =
      s2\<lparr>bp_batman_queue_left := bp_batman_queue_left s2 + d\<rparr>"
    by (simp add: batadv_send_outstanding_bat_ogm_packet_def emit Let_def s2_def d_def flip: s0_def)
  ultimately show ?thesis by (simp add: mesh_ok_owing_def)
qed

lemma bcast_add_mesh_ok:
  assumes "mesh_ok st" "\<not> fw_own junk"
  shows "mesh_ok (fst (batadv_add_bcast_packet_to_list alloc junk skb st))"
proof -
  have "queue_ok st" using assms(1) by (simp add: mesh_ok_def)
  with assms show ?thesis
    by (auto simp: batadv_add_bcast_packet_to_list_def Let_def queue_ok_def queue_sum_def
        intro!: mesh_ok_queue [OF assms(1)] split: option.splits)
qed

lemma rebroadcast_fold:
  "\<exists>cs. fold (rebroadcast alloc soft fp) is st = st\<lparr>bp_calls := bp_calls st @ cs\<rparr>"
proof (induction "is" arbitrary: st)
  case Nil
  show ?case by (auto intro: exI [of _ "[]"])
next
  case (Cons i "is")
  have "\<exists>cs. rebroadcast alloc soft fp i st = st\<lparr>bp_calls := bp_calls st @ cs\<rparr>"
    by (auto simp: rebroadcast_def ext_call_def intro: exI [of _ "[]"])
  then show ?case using Cons.IH [of "rebroadcast alloc soft fp i st"] by auto
qed

lemma bcast_work_mesh_ok:
  assumes "mesh_ok st" "k < length (bp_forw_bcast_list st)"
  shows "mesh_ok (batadv_send_outstanding_bcast_packet alloc dat_drop k st)"
proof -
  let ?fp = "bp_forw_bcast_list st ! k"
  define s0 where "s0 = st\<lparr>bp_forw_bcast_list := del_at k (bp_forw_bcast_list st)\<rparr>"
  obtain cs where cs: "fold (rebroadcast alloc (hi_soft_iface (bp_iface st (the (fw_if_incoming ?fp)))) ?fp)
      (bp_hardif_list s0) s0 = s0\<lparr>bp_calls := bp_calls s0 @ cs\<rparr>"
    using rebroadcast_fold by blast
  have q: "queue_sum st = 256" "bp_bcast_queue_left st + length (bp_forw_bcast_list st) = 256"
    "\<forall>p \<in> set (bp_forw_bcast_list st). \<not> fw_own p"
    using assms(1) by (simp_all add: mesh_ok_def queue_ok_def)
  have own: "\<not> fw_own ?fp" "\<forall>p \<in> set (del_at k (bp_forw_bcast_list st)). \<not> fw_own p"
    using q(3) nth_mem [OF assms(2)] set_del_at [of k "bp_forw_bcast_list st"] by blast+
  have len: "bp_bcast_queue_left st + 1 + length (del_at k (bp_forw_bcast_list st)) = 256"
    using length_del_at [OF assms(2)] q(2) by linarith
  have sum: "queue_sum (st\<lparr>bp_forw_bcast_list := l, bp_calls := c, bp_bcast_queue_left := n\<rparr>) = queue_sum st"
    "queue_sum (st\<lparr>bp_forw_bcast_list := l, bp_bcast_queue_left := n\<rparr>) = queue_sum st" for l c n
    by (simp_all add: queue_sum_def)
  have out: "mesh_ok (s0\<lparr>bp_calls := c, bp_bcast_queue_left := bp_bcast_queue_left s0 + 1\<rparr>)"
    "mesh_ok (s0\<lparr>bp_bcast_queue_left := bp_bcast_queue_left s0 + 1\<rparr>)" for c
    using q(1) own(2) len by (auto simp: s0_def queue_ok_def sum intro!: mesh_ok_queue [OF assms(1)])
  have again: "mesh_ok (s0\<lparr>bp_calls := c, bp_forw_bcast_list := p # bp_forw_bcast_list s0\<rparr>)" if "\<not> fw_own p" for c p
    using q(1) own(2) len that by (auto simp: s0_def queue_ok_def queue_sum_def intro!: mesh_ok_queue [OF assms(1)])
  show ?thesis
    using out again own(1)
    by (simp add: batadv_send_outstanding_bcast_packet_def cs Let_def flip: s0_def)
qed

end
