(* ===== verification/Mesh_Join.thy ===== *)
theory Mesh_Join
  imports Mesh
begin

text \<open>
  An interface joins the mesh (\<^verbatim>\<open>batadv_hardif_enable_interface\<close>): it takes the next number, and the
  windows of every originator grow by an entry that is not initialised. The scheduling of the first
  message at the end restores the weights, so that the invariant holds again.
\<close>

section \<open>Adding an interface\<close>

lemma orig_hash_add_if_all:
  assumes "\<And>on. snd (f on n) \<noteq> - ENOMEM"
  shows "orig_hash_add_if f n l = (map (\<lambda>(a, on). (a, fst (f on n))) l, 0)"
  using assms by (induction l) (auto simp: Let_def split_def)

text \<open>An originator of a mesh with \<open>n\<close> interfaces, but for the weight of window \<open>k\<close>.\<close>

definition orig_pre :: "nat \<Rightarrow> nat \<Rightarrow> mac \<Rightarrow> batadv_orig_node \<Rightarrow> bool" where
  "orig_pre n k a on \<longleftrightarrow> length (on_bcast_own on) = n \<and> length (on_bcast_own_sum on) = n
     \<and> orig_ok n UNIV a (on\<lparr>on_bcast_own := (on_bcast_own on)[k := 0], on_bcast_own_sum := (on_bcast_own_sum on)[k := 0]\<rparr>)"

lemma slide_own_pre:
  assumes "orig_pre n k a on"
  shows "orig_ok n UNIV a (slide_own k on)"
proof -
  let ?w = "fst (batadv_bit_get_packet (on_bcast_own on ! k) 1 False)"
  have "orig_ok n UNIV a (on\<lparr>on_bcast_own := ((on_bcast_own on)[k := 0])[k := ?w],
      on_bcast_own_sum := ((on_bcast_own_sum on)[k := 0])[k := of_nat (bitmap_weight ?w)]\<rparr>)"
    using assms own_window_ok [of n UNIV a "on\<lparr>on_bcast_own := (on_bcast_own on)[k := 0],
      on_bcast_own_sum := (on_bcast_own_sum on)[k := 0]\<rparr>" k ?w] by (simp add: orig_pre_def)
  then show ?thesis by (simp add: slide_own_def Let_def)
qed

lemma add_if_pre:
  assumes "orig_ok n UNIV a on" "own_ok" "sum_ok"
  shows "orig_pre (n + 1) n a (fst (batadv_iv_ogm_orig_add_if own_ok sum_ok junk_bits junk_sum on (n + 1)))"
proof -
  have "length (on_bcast_own on) = n" "length (on_bcast_own_sum on) = n" using assms(1) by (simp_all add: orig_ok_def)
  with assms show ?thesis
    by (auto simp: orig_pre_def batadv_iv_ogm_orig_add_if_def orig_ok_def neigh_key_def nth_append less_Suc_eq
        list_update_append cong: map_cong)
qed

definition table_pre :: "nat \<Rightarrow> batadv_priv \<Rightarrow> bool" where
  "table_pre k st \<longleftrightarrow> distinct (map fst (bp_orig_hash st))
     \<and> (\<forall>a on. map_of (bp_orig_hash st) a = Some on \<longrightarrow> orig_pre (bp_num_ifaces st) k a on)"

lemma schedule_table_pre:
  assumes "table_pre (if_num_of st i) st"
  shows "table_ok UNIV (batadv_iv_ogm_schedule alloc m2j now rnd ogm_append i st)"
proof -
  let ?s = "batadv_iv_ogm_slide_own_bcast_window i (ogm_complete ogm_append i st)"
  have "table_ok UNIV ?s"
    using assms slide_own_pre
    by (auto simp: table_UNIV batadv_iv_ogm_slide_own_bcast_window_def table_pre_def map_of_map comp_def split_def)
  then show ?thesis using keepsD(1) [OF schedule_after_slide] by blast
qed

lemma iface_join:
  assumes "ifaces_ok st" "i \<notin> members st" "i \<in> set (bp_hardif_list st)"
    and "hi_if_num (bp_iface st' i) = int (bp_num_ifaces st)" "hi_soft_iface (bp_iface st' i) = Some (bp_soft_iface st)"
    "hi_if_status (bp_iface st' i) = BATADV_IF_INACTIVE"
    and "\<And>j. j \<noteq> i \<Longrightarrow> iface_view (bp_iface st' j) = iface_view (bp_iface st j)"
    and "bp_hardif_list st' = bp_hardif_list st" "bp_soft_iface st' = bp_soft_iface st"
    "bp_num_ifaces st' = bp_num_ifaces st + 1"
  shows "ifaces_ok st'" "i \<in> members st'"
proof -
  have view: "hi_if_num (bp_iface st' j) = hi_if_num (bp_iface st j)" "hi_if_status (bp_iface st' j) = hi_if_status (bp_iface st j)"
    "hi_soft_iface (bp_iface st' j) = hi_soft_iface (bp_iface st j)" if "j \<noteq> i" for j
    using assms(7) [OF that] by (simp_all add: iface_view_def)
  have m: "members st' = insert i (members st)"
    using assms(5,9) view(3) unfolding members_def by (intro set_eqI) (metis (mono_tags, lifting) insert_iff mem_Collect_eq)
  show "i \<in> members st'" by (simp add: m)
  have "bij_betw (if_num_of st) (members st) {..<bp_num_ifaces st}" using assms(1) by (simp add: ifaces_in_def)
  then have "bij_betw (if_num_of st') (members st) {..<bp_num_ifaces st}"
    using assms(2) view(1) bij_betw_cong [of "members st" "if_num_of st'" "if_num_of st"] by metis
  then have "bij_betw (if_num_of st') (insert i (members st)) (insert (if_num_of st' i) {..<bp_num_ifaces st})"
    using assms(2,4) by (subst notIn_Un_bij_betw3 [where b = i, simplified, symmetric]) auto
  then have "bij_betw (if_num_of st') (members st') {..<bp_num_ifaces st'}"
    using assms(4,10) by (simp add: m lessThan_Suc)
  moreover have "\<forall>j. j \<notin> members st' \<longrightarrow> hi_soft_iface (bp_iface st' j) = None
          \<and> hi_if_status (bp_iface st' j) \<in> {BATADV_IF_NOT_IN_USE, BATADV_IF_TO_BE_REMOVED}"
    using assms(1) view m by (auto simp: ifaces_in_def)
  moreover have "0 \<le> hi_if_num (bp_iface st' j)
          \<and> hi_if_status (bp_iface st' j) \<in> {BATADV_IF_INACTIVE, BATADV_IF_ACTIVE, BATADV_IF_TO_BE_ACTIVATED}"
    if "j \<in> members st'" for j
    using assms(1,4,6) view(1,2) [of j] m that by (cases "j = i") (auto simp: ifaces_in_def)
  ultimately show "ifaces_ok st'"
    using assms(1,3,8) m by (auto simp: ifaces_in_def)
qed

definition mesh_pre :: "nat \<Rightarrow> batadv_priv \<Rightarrow> bool" where
  "mesh_pre k st \<longleftrightarrow> table_pre k st \<and> ifaces_ok st \<and> queue_ok st"

lemma mesh_pre_core: "core st' = core st \<Longrightarrow> mesh_pre k st' = mesh_pre k st"
  using ifaces_ok_frame [of st' st]
  by (auto simp: core_def fun_eq_iff mesh_pre_def queue_ok_def queue_sum_def table_pre_def)

lemma mesh_pre_status:
  "mesh_pre k st \<Longrightarrow> i \<in> members st \<Longrightarrow> s \<in> {BATADV_IF_INACTIVE, BATADV_IF_ACTIVE, BATADV_IF_TO_BE_ACTIVATED}
    \<Longrightarrow> mesh_pre k (set_status i s st)"
  using status_ifaces_ok [of "{}" st i s]
  by (simp add: mesh_pre_def) (simp add: set_status_def upd_iface_def queue_ok_def queue_sum_def table_pre_def)

lemma core_facts:
  "core st' = core st \<Longrightarrow> hi_if_num (bp_iface st' i) = hi_if_num (bp_iface st i)
    \<and> hi_if_status (bp_iface st' i) = hi_if_status (bp_iface st i) \<and> members st' = members st"
  by (auto simp: core_def fun_eq_iff iface_view_def members_def)

lemma set_status_facts [simp]:
  "hi_if_num (bp_iface (set_status i s st) j) = hi_if_num (bp_iface st j)"
  "hi_if_status (bp_iface (set_status i s st) i) = s" "members (set_status i s st) = members st"
  by (auto simp: set_status_def upd_iface_def members_def)

lemma schedule_mesh_pre:
  assumes "mesh_pre (if_num_of st i) st" "i \<in> members st"
    and "hi_if_status (bp_iface st i) \<in> {BATADV_IF_INACTIVE, BATADV_IF_TO_BE_ACTIVATED}"
  shows "mesh_ok (batadv_schedule_bat_ogm alloc m2j now rnd ogm_append i st)"
proof -
  have sched: "mesh_ok (batadv_iv_ogm_schedule alloc m2j now rnd ogm_append i s)" if "mesh_pre (if_num_of s i) s" for s
    using that schedule_table_pre [of s i] view_ok [OF schedule_view, of alloc m2j now rnd ogm_append i s]
    by (simp add: mesh_pre_def mesh_ok_def)
  have "mesh_pre (if_num_of st i) (set_status i BATADV_IF_ACTIVE st)"
    using assms(1,2) by (intro mesh_pre_status) simp_all
  then show ?thesis
    using assms sched [of st] sched [of "set_status i BATADV_IF_ACTIVE st"]
    by (auto simp: batadv_schedule_bat_ogm_def Let_def simp flip: set_status_def)
qed

lemma activate_mesh_pre:
  assumes "mesh_pre (if_num_of st i) st" "i \<in> members st" "hi_if_status (bp_iface st i) = BATADV_IF_INACTIVE"
  shows "mesh_ok (batadv_schedule_bat_ogm alloc m2j now rnd ogm_append i (batadv_hardif_activate_interface i st))"
proof -
  have c: "core (batadv_hardif_activate_interface i st) = core (set_status i BATADV_IF_TO_BE_ACTIVATED st)"
    using activate_core [of i st] assms(3) by simp
  have "mesh_pre (if_num_of st i) (set_status i BATADV_IF_TO_BE_ACTIVATED st)"
    using assms(1,2) by (intro mesh_pre_status) simp_all
  then show ?thesis
    using mesh_pre_core [OF c] core_facts [OF c, of i] assms(2) by (intro schedule_mesh_pre) simp_all
qed

text \<open>The state in which the interface got its number and every originator its window.\<close>

definition joined :: "hardif_env \<Rightarrow> iface \<Rightarrow> batadv_priv \<Rightarrow> batadv_priv" where
  "joined env i st =
     (let st = upd_iface i (\<lambda>h. h\<lparr>hi_soft_iface := Some (bp_soft_iface st)\<rparr>) st;
          st = fst (batadv_iv_ogm_iface_enable True (he_buff env) (he_seqno env) i st);
          st = upd_iface i (\<lambda>h. h\<lparr>hi_if_num := int (bp_num_ifaces st), hi_if_status := BATADV_IF_INACTIVE\<rparr>) st;
          st = st\<lparr>bp_num_ifaces := bp_num_ifaces st + 1\<rparr>
      in st\<lparr>bp_orig_hash := map (\<lambda>(a, on). (a, fst (bat_orig_add_if env on (bp_num_ifaces st)))) (bp_orig_hash st)\<rparr>)"

definition env_ok :: "hardif_env \<Rightarrow> bool" where
  "env_ok env \<longleftrightarrow> (\<forall>a. he_own_ok env a) \<and> (\<forall>a. he_sum_ok env a)"

lemma joined_facts:
  "bp_num_ifaces (joined env i st) = bp_num_ifaces st + 1" "bp_hardif_list (joined env i st) = bp_hardif_list st"
  "bp_soft_iface (joined env i st) = bp_soft_iface st"
  "bp_orig_hash (joined env i st) = map (\<lambda>(a, on). (a, fst (bat_orig_add_if env on (bp_num_ifaces st + 1)))) (bp_orig_hash st)"
  "hi_if_num (bp_iface (joined env i st) i) = int (bp_num_ifaces st)"
  "hi_soft_iface (bp_iface (joined env i st) i) = Some (bp_soft_iface st)"
  "hi_if_status (bp_iface (joined env i st) i) = BATADV_IF_INACTIVE"
  "j \<noteq> i \<Longrightarrow> bp_iface (joined env i st) j = bp_iface st j"
  "bp_batman_queue_left (joined env i st) = bp_batman_queue_left st" "bp_forw_bat_list (joined env i st) = bp_forw_bat_list st"
  "bp_bcast_queue_left (joined env i st) = bp_bcast_queue_left st" "bp_forw_bcast_list (joined env i st) = bp_forw_bcast_list st"
  by (simp_all add: joined_def batadv_iv_ogm_iface_enable_def upd_iface_def Let_def)

lemma joined_pre:
  assumes "mesh_ok st" "env_ok env" "i \<notin> members st" "i \<in> set (bp_hardif_list st)"
  shows "mesh_pre (bp_num_ifaces st) (joined env i st)" "i \<in> members (joined env i st)"
proof -
  have ok: "ifaces_ok st" "table_ok UNIV st" "queue_ok st" using assms(1) by (simp_all add: mesh_ok_def)
  have j: "ifaces_ok (joined env i st)" "i \<in> members (joined env i st)"
    by (rule iface_join [OF ok(1) assms(3,4)]; simp add: joined_facts)+
  have "orig_pre (bp_num_ifaces st + 1) (bp_num_ifaces st) a (fst (bat_orig_add_if env on (bp_num_ifaces st + 1)))"
    if "orig_ok (bp_num_ifaces st) UNIV a on" for a on
    using add_if_pre [OF that] assms(2) by (simp add: bat_orig_add_if_def env_ok_def)
  then have "table_pre (bp_num_ifaces st) (joined env i st)"
    using ok(2) by (auto simp: table_pre_def table_UNIV joined_facts map_of_map comp_def split_def)
  with j ok(3) show "mesh_pre (bp_num_ifaces st) (joined env i st)" "i \<in> members (joined env i st)"
    by (simp_all add: mesh_pre_def queue_ok_def queue_sum_def joined_facts)
qed

lemma enable_eq:
  assumes "hi_if_status (bp_iface st i) = BATADV_IF_NOT_IN_USE" "env_ok env"
    and "he_kref env" "he_soft env" "he_valid env" "he_del_slave env = 0" "he_link env = 0" "he_buff_ok env"
  shows "fst (batadv_hardif_enable_interface env alloc m2j now rnd ogm_append i st)
      = batadv_schedule_bat_ogm alloc m2j now rnd ogm_append i
          (if he_up env then batadv_hardif_activate_interface i (joined env i st) else joined env i st)"
proof -
  have "snd (bat_orig_add_if env on m) = 0" for on m
    using assms(2) by (simp add: bat_orig_add_if_def batadv_iv_ogm_orig_add_if_def env_ok_def)
  with assms show ?thesis
    by (simp add: batadv_hardif_enable_interface_def batadv_orig_hash_add_if_def orig_hash_add_if_all Let_def
        batadv_iv_ogm_iface_enable_def joined_def)
qed

lemma enable_mesh_ok:
  assumes "mesh_ok st" "env_ok env" "i \<in> set (bp_hardif_list st)"
  shows "mesh_ok (fst (batadv_hardif_enable_interface env alloc m2j now rnd ogm_append i st))"
proof (cases "hi_if_status (bp_iface st i) = BATADV_IF_NOT_IN_USE \<and> he_kref env \<and> he_soft env \<and> he_valid env
    \<and> he_del_slave env = 0 \<and> he_link env = 0 \<and> he_buff_ok env")
  case True
  have notin: "i \<notin> members st" using True assms(1) by (auto simp: mesh_ok_def ifaces_in_def)
  note j = joined_pre [OF assms(1,2) notin assms(3)]
  have n: "if_num_of (joined env i st) i = bp_num_ifaces st" by (simp add: joined_facts)
  note enable_eq [of st i env alloc m2j now rnd ogm_append]
  with j n True assms(2) show ?thesis
    using activate_mesh_pre [of "joined env i st" i] schedule_mesh_pre [of "joined env i st" i]
    by (simp add: joined_facts)
next
  case False
  have "core (fst (batadv_hardif_enable_interface env alloc m2j now rnd ogm_append i st)) = core st"
  proof (cases "hi_if_status (bp_iface st i) = BATADV_IF_NOT_IN_USE")
    case True
    then have "hi_soft_iface (bp_iface st i) = None"
      using assms(1) by (cases "i \<in> members st") (auto simp: mesh_ok_def ifaces_in_def)
    with False True show ?thesis
      by (auto simp: batadv_hardif_enable_interface_def batadv_iv_ogm_iface_enable_def Let_def core_def upd_iface_def
          iface_view_def fun_eq_iff)
  qed (simp add: batadv_hardif_enable_interface_def)
  then show ?thesis using mesh_ok_core assms(1) by blast
qed

end
