(* ===== verification/Mesh_Leave.thy ===== *)
theory Mesh_Leave
  imports Mesh_Join
begin

text \<open>
  An interface leaves the mesh (\<^verbatim>\<open>batadv_hardif_disable_interface\<close>): the numbers behind its own move
  down by one, the windows of every originator are copied without its entry, and what refers to
  the interface is purged. The invariant holds again afterwards.
\<close>

section \<open>Removing an interface\<close>

definition renumbered :: "batadv_priv \<Rightarrow> iface \<Rightarrow> int \<Rightarrow> iface \<Rightarrow> bool" where
  "renumbered st i k j \<longleftrightarrow> hi_if_status (bp_iface st j) \<noteq> BATADV_IF_NOT_IN_USE \<and> i \<noteq> j
     \<and> hi_soft_iface (bp_iface st i) = hi_soft_iface (bp_iface st j) \<and> hi_if_num (bp_iface st j) > k"

definition moved_down :: "batadv_priv \<Rightarrow> iface \<Rightarrow> int \<Rightarrow> iface set \<Rightarrow> iface \<Rightarrow> batadv_hard_iface" where
  "moved_down st i k J = (\<lambda>j. if j \<in> J \<and> renumbered st i k j
     then (bp_iface st j)\<lparr>hi_if_num := hi_if_num (bp_iface st j) - 1\<rparr> else bp_iface st j)"

lemma renumber_eq: "renumber i k j st = st\<lparr>bp_iface := moved_down st i k {j}\<rparr>"
proof -
  have "moved_down st i k {j} = (if renumbered st i k j
      then (bp_iface st)(j := (bp_iface st j)\<lparr>hi_if_num := hi_if_num (bp_iface st j) - 1\<rparr>) else bp_iface st)"
    by (simp add: moved_down_def fun_eq_iff)
  then show ?thesis
    by (simp add: renumber_def renumbered_def Let_def upd_iface_def)
qed

lemma renumber_fold:
  "distinct l \<Longrightarrow> fold (renumber i k) l st = st\<lparr>bp_iface := moved_down st i k (set l)\<rparr>"
proof (induction l arbitrary: st)
  case Nil
  show ?case by (simp add: moved_down_def)
next
  case (Cons j l)
  have "moved_down (st\<lparr>bp_iface := moved_down st i k {j}\<rparr>) i k (set l) = moved_down st i k (set (j # l))"
    using Cons.prems by (auto simp: moved_down_def renumbered_def fun_eq_iff)
  then show ?case using Cons by (simp add: renumber_eq)
qed

lemma bij_remove:
  fixes f :: "'a \<Rightarrow> nat"
  assumes "bij_betw f A {..<n}" "i \<in> A"
  shows "bij_betw (\<lambda>j. if f i < f j then f j - 1 else f j) (A - {i}) {..<n - 1}"
proof -
  have inj: "inj_on f A" and img: "f ` A = {..<n}" using assms(1) by (auto simp: bij_betw_def)
  have ne: "f j \<noteq> f i" if "j \<in> A - {i}" for j using inj assms(2) that by (auto dest: inj_onD)
  have i: "f i < n" using img assms(2) by auto
  have "inj_on (\<lambda>j. if f i < f j then f j - 1 else f j) (A - {i})"
  proof (rule inj_onI)
    fix x y
    assume x: "x \<in> A - {i}" and y: "y \<in> A - {i}"
      and eq: "(if f i < f x then f x - 1 else f x) = (if f i < f y then f y - 1 else f y)"
    have "f x = f y" using eq ne [OF x] ne [OF y] by (auto split: if_splits)
    then show "x = y" using inj x y by (auto dest: inj_onD)
  qed
  moreover have "(\<lambda>j. if f i < f j then f j - 1 else f j) ` (A - {i}) = {..<n - 1}"
  proof (intro equalityI subsetI)
    fix m assume "m \<in> (\<lambda>j. if f i < f j then f j - 1 else f j) ` (A - {i})"
    then obtain j where j: "j \<in> A - {i}" "m = (if f i < f j then f j - 1 else f j)" by (rule imageE)
    have "f j < n" using img j(1) by auto
    with ne [OF j(1)] i j(2) show "m \<in> {..<n - 1}" by (auto split: if_splits)
  next
    fix m assume m: "m \<in> {..<n - 1}"
    define m' where "m' = (if m < f i then m else m + 1)"
    have "m' \<in> f ` A" unfolding img using m by (auto simp: m'_def)
    then obtain j where j: "j \<in> A" "f j = m'" by auto
    have "j \<noteq> i" using j(2) by (auto simp: m'_def split: if_splits)
    moreover have "m = (if f i < f j then f j - 1 else f j)" using j(2) by (auto simp: m'_def split: if_splits)
    ultimately show "m \<in> (\<lambda>j. if f i < f j then f j - 1 else f j) ` (A - {i})" using j(1) by auto
  qed
  ultimately show ?thesis by (simp add: bij_betw_def)
qed

lemma copy_without:
  assumes "length xs = m + 1" "k \<le> m"
  shows "length (copy_without m k xs) = m" "i < m \<Longrightarrow> copy_without m k xs ! i = xs ! (if i < k then i else i + 1)"
  using assms by (auto simp: copy_without_def nth_append min_def)

lemma del_if_ok:
  assumes "orig_ok (m + 1) UNIV a on" "k \<le> m" "own_ok" "sum_ok"
  shows "orig_ok m UNIV a (fst (batadv_iv_ogm_orig_del_if own_ok sum_ok on m k))"
proof -
  have len: "length (on_bcast_own on) = m + 1" "length (on_bcast_own_sum on) = m + 1"
    using assms(1) by (simp_all add: orig_ok_def)
  show ?thesis
  proof (cases "m = 0")
    case True
    then show ?thesis using assms(1)
      by (auto simp: batadv_iv_ogm_orig_del_if_def orig_ok_def neigh_key_def cong: map_cong)
  next
    case False
    have "unat (copy_without m k (on_bcast_own_sum on) ! i) = bitmap_weight (copy_without m k (on_bcast_own on) ! i)"
      if "i < m" for i
      using assms(1) that copy_without(2) [OF len(1) assms(2) that] copy_without(2) [OF len(2) assms(2) that]
      by (simp add: orig_ok_def)
    with False assms show ?thesis
      by (auto simp: batadv_iv_ogm_orig_del_if_def orig_ok_def neigh_key_def copy_without(1) [OF len(1) assms(2)]
          copy_without(1) [OF len(2) assms(2)] cong: map_cong)
  qed
qed

lemma iface_leave:
  assumes "ifaces_in {i} st" "i \<in> members st"
    and "\<And>j. j \<noteq> i \<Longrightarrow> iface_view (bp_iface st' j)
      = iface_view (moved_down st i (hi_if_num (bp_iface st i)) (set (bp_hardif_list st)) j)"
    and "hi_soft_iface (bp_iface st' i) = None" "hi_if_status (bp_iface st' i) = BATADV_IF_NOT_IN_USE"
    and "bp_hardif_list st' = bp_hardif_list st" "bp_soft_iface st' = bp_soft_iface st"
    "bp_num_ifaces st' = bp_num_ifaces st - 1"
  shows "ifaces_ok st'"
proof -
  let ?f = "if_num_of st"
  have soft: "hi_soft_iface (bp_iface st' j) = hi_soft_iface (bp_iface st j)"
    and status: "hi_if_status (bp_iface st' j) = hi_if_status (bp_iface st j)" if "j \<noteq> i" for j
    using assms(3) [OF that] by (simp_all add: iface_view_def moved_down_def split: if_splits)
  have m: "members st' = members st - {i}"
    using assms(4,7) soft unfolding members_def by (intro set_eqI) (metis (mono_tags, lifting) DiffI DiffE mem_Collect_eq
        option.distinct(1) singletonD singletonI)
  have mem: "0 \<le> hi_if_num (bp_iface st j)" "hi_if_status (bp_iface st j) \<noteq> BATADV_IF_NOT_IN_USE" if "j \<in> members st" for j
    using assms(1) that by (auto simp: ifaces_in_def)
  have num: "hi_if_num (bp_iface st' j) = (if hi_if_num (bp_iface st i) < hi_if_num (bp_iface st j)
      then hi_if_num (bp_iface st j) - 1 else hi_if_num (bp_iface st j))" if "j \<in> members st" "j \<noteq> i" for j
  proof -
    have "j \<in> set (bp_hardif_list st)" using assms(1) that by (auto simp: ifaces_in_def)
    moreover have "hi_soft_iface (bp_iface st i) = hi_soft_iface (bp_iface st j)"
      using assms(2) that(1) by (simp add: members_def)
    ultimately show ?thesis
      using assms(3) [OF that(2)] mem(2) [OF that(1)] that(2) by (auto simp: iface_view_def moved_down_def renumbered_def)
  qed
  have bij: "bij_betw (if_num_of st) (members st) {..<bp_num_ifaces st}" using assms(1) by (simp add: ifaces_in_def)
  have "bij_betw (\<lambda>j. if ?f i < ?f j then ?f j - 1 else ?f j) (members st - {i}) {..<bp_num_ifaces st - 1}"
    by (rule bij_remove [OF bij assms(2)])
  moreover have "if_num_of st' j = (if ?f i < ?f j then ?f j - 1 else ?f j)" if "j \<in> members st - {i}" for j
    using that num [of j] mem(1) [of j] mem(1) [OF assms(2)] by (auto simp: nat_diff_distrib')
  ultimately have "bij_betw (if_num_of st') (members st') {..<bp_num_ifaces st'}"
    unfolding m assms(8) by (subst bij_betw_cong) auto
  moreover have "0 \<le> hi_if_num (bp_iface st' j) \<and> hi_if_status (bp_iface st' j) \<in>
      {BATADV_IF_INACTIVE, BATADV_IF_ACTIVE, BATADV_IF_TO_BE_ACTIVATED}" if "j \<in> members st'" for j
    using that m num [of j] status [of j] mem(1) [of j] mem(1) [OF assms(2)] assms(1) by (auto simp: ifaces_in_def)
  moreover have "hi_soft_iface (bp_iface st' j) = None
      \<and> hi_if_status (bp_iface st' j) \<in> {BATADV_IF_NOT_IN_USE, BATADV_IF_TO_BE_REMOVED}" if "j \<notin> members st'" for j
    using that assms(1,4,5) m soft [of j] status [of j] by (cases "j = i") (auto simp: ifaces_in_def)
  ultimately show ?thesis
    using assms(1,6) m by (auto simp: ifaces_in_def)
qed

lemma purged_lengths:
  "length (filter (\<lambda>p. \<not> fw_own p) (filter (\<lambda>p. \<not> P p) l)) + length (filter (\<lambda>p. P p \<and> \<not> fw_own p) l)
    = length (filter (\<lambda>p. \<not> fw_own p) l)"
  "\<forall>p \<in> set l. \<not> fw_own p \<Longrightarrow> length (filter (\<lambda>p. \<not> P p) l) + length (filter (\<lambda>p. P p \<and> \<not> fw_own p) l) = length l"
  by (induction l) auto

lemma purge_outstanding_queue:
  assumes "queue_ok st"
  shows "queue_ok (batadv_purge_outstanding_packets i pending st)"
  using assms purged_lengths(1) [of "purged i pending" "bp_forw_bat_list st"]
    purged_lengths(2) [of "bp_forw_bcast_list st" "purged i pending"]
  by (auto simp: queue_ok_def queue_sum_def batadv_purge_outstanding_packets_def Let_def)

definition mesh_in :: "iface set \<Rightarrow> batadv_priv \<Rightarrow> bool" where
  "mesh_in E st \<longleftrightarrow> table_ok UNIV st \<and> ifaces_in E st \<and> queue_ok st"

lemma mesh_in_core: "core st' = core st \<Longrightarrow> mesh_in E st' = mesh_in E st"
  using ifaces_ok_frame [of st' st E]
  by (auto simp: core_def fun_eq_iff mesh_in_def queue_ok_def queue_sum_def table_ok_def)

lemma del_if_state:
  assumes "env_ok env" "distinct (bp_hardif_list st)"
  shows "fst (batadv_orig_hash_del_if (bat_orig_del_if env) i m st) =
    upd_iface i (\<lambda>h. h\<lparr>hi_if_num := -1\<rparr>) (st\<lparr>bp_orig_hash := map (\<lambda>(a, on).
         (a, fst (batadv_iv_ogm_orig_del_if True True on m (if_num_of st i)))) (bp_orig_hash st),
       bp_iface := moved_down st i (hi_if_num (bp_iface st i)) (set (bp_hardif_list st))\<rparr>)"
proof -
  let ?d = "\<lambda>on m. bat_orig_del_if env on m (hi_if_num (bp_iface st i))"
  have d: "?d on n = (fst (batadv_iv_ogm_orig_del_if True True on n (if_num_of st i)), 0)" for on n
    using assms(1) by (simp add: bat_orig_del_if_def env_ok_def batadv_iv_ogm_orig_del_if_def Let_def)
  have h: "orig_hash_add_if ?d m l = (map (\<lambda>(a, on). (a, fst (?d on m))) l, 0)" for l
    by (rule orig_hash_add_if_all) (simp add: d)
  have "moved_down (st\<lparr>bp_orig_hash := x\<rparr>) i k J = moved_down st i k J" for x k J
    by (simp add: moved_down_def renumbered_def fun_eq_iff)
  with assms(2) show ?thesis
    by (simp add: batadv_orig_hash_del_if_def h renumber_fold Let_def) (simp add: d)
qed

lemma del_if_table:
  assumes "mesh_in {i} st" "i \<in> members st" "env_ok env"
  defines "s \<equiv> fst (batadv_orig_hash_del_if (bat_orig_del_if env) i (bp_num_ifaces st - 1)
      (st\<lparr>bp_num_ifaces := bp_num_ifaces st - 1\<rparr>))"
  shows "table_ok UNIV s" "queue_ok s" "bp_num_ifaces s = bp_num_ifaces st - 1"
    "bp_hardif_list s = bp_hardif_list st" "bp_soft_iface s = bp_soft_iface st"
    "j \<noteq> i \<Longrightarrow> bp_iface s j = moved_down st i (hi_if_num (bp_iface st i)) (set (bp_hardif_list st)) j"
proof -
  have ok: "ifaces_in {i} st" "table_ok UNIV st" "queue_ok st" using assms(1) by (simp_all add: mesh_in_def)
  have "if_num_of st i \<in> {..<bp_num_ifaces st}"
    using ok(1) assms(2) unfolding ifaces_in_def by (meson bij_betwE)
  then have m: "bp_num_ifaces st = (bp_num_ifaces st - 1) + 1" "if_num_of st i \<le> bp_num_ifaces st - 1" by auto
  have md: "moved_down (st\<lparr>bp_num_ifaces := x\<rparr>) i k J = moved_down st i k J" for x k J
    by (simp add: moved_down_def renumbered_def fun_eq_iff)
  have s: "s = upd_iface i (\<lambda>h. h\<lparr>hi_if_num := -1\<rparr>) (st\<lparr>bp_num_ifaces := bp_num_ifaces st - 1,
       bp_orig_hash := map (\<lambda>(a, on). (a, fst (batadv_iv_ogm_orig_del_if True True on (bp_num_ifaces st - 1)
         (if_num_of st i)))) (bp_orig_hash st),
       bp_iface := moved_down st i (hi_if_num (bp_iface st i)) (set (bp_hardif_list st))\<rparr>)"
    unfolding s_def using ok(1) by (subst del_if_state [OF assms(3)]) (simp_all add: ifaces_in_def md)
  have "orig_ok (bp_num_ifaces st - 1) UNIV a (fst (batadv_iv_ogm_orig_del_if True True on (bp_num_ifaces st - 1)
      (if_num_of st i)))" if "orig_ok (bp_num_ifaces st) UNIV a on" for a on
    using del_if_ok [OF _ m(2), of a on True True] that m(1) by simp
  with ok(2) show "table_ok UNIV s"
    by (auto simp: s table_UNIV map_of_map comp_def split_def)
  show "queue_ok s" using ok(3) by (simp add: s upd_iface_def queue_ok_def queue_sum_def)
  show "bp_num_ifaces s = bp_num_ifaces st - 1" "bp_hardif_list s = bp_hardif_list st"
    "bp_soft_iface s = bp_soft_iface st"
    "j \<noteq> i \<Longrightarrow> bp_iface s j = moved_down st i (hi_if_num (bp_iface st i)) (set (bp_hardif_list st)) j"
    by (simp_all add: s upd_iface_def)
qed

lemma purge_outstanding_frame:
  "bp_iface (batadv_purge_outstanding_packets i pending st) = bp_iface st"
  "bp_hardif_list (batadv_purge_outstanding_packets i pending st) = bp_hardif_list st"
  "bp_soft_iface (batadv_purge_outstanding_packets i pending st) = bp_soft_iface st"
  "bp_num_ifaces (batadv_purge_outstanding_packets i pending st) = bp_num_ifaces st"
  "bp_orig_hash (batadv_purge_outstanding_packets i pending st) = bp_orig_hash st"
  by (simp_all add: batadv_purge_outstanding_packets_def Let_def)

lemma drop_references_facts:
  assumes "table_ok UNIV st" "queue_ok st"
  shows "table_ok UNIV (drop_references m2j now pending autodel i st)" "queue_ok (drop_references m2j now pending autodel i st)"
    "bp_num_ifaces (drop_references m2j now pending autodel i st) = bp_num_ifaces st"
    "bp_hardif_list (drop_references m2j now pending autodel i st) = bp_hardif_list st"
    "bp_soft_iface (drop_references m2j now pending autodel i st) = bp_soft_iface st"
    "hi_soft_iface (bp_iface (drop_references m2j now pending autodel i st) i) = None"
    "hi_if_status (bp_iface (drop_references m2j now pending autodel i st) i) = BATADV_IF_NOT_IN_USE"
    "\<And>j. j \<noteq> i \<Longrightarrow> iface_view (bp_iface (drop_references m2j now pending autodel i st) j) = iface_view (bp_iface st j)"
proof -
  let ?a = "set_status i BATADV_IF_NOT_IN_USE st"
  define b where "b = batadv_purge_orig m2j now batadv_iv_ogm_neigh_cmp ?a"
  define c where "c = batadv_purge_outstanding_packets (Some i) pending b"
  have a: "table_ok UNIV ?a" "queue_ok ?a"
    using assms by (simp_all add: set_status_def) (simp add: upd_iface_def queue_ok_def queue_sum_def)
  have v: "view b = view ?a" by (simp add: b_def purge_orig_view)
  have tb: "table_ok UNIV b" using purge_orig_table(1) [OF a(1)] by (simp add: b_def)
  have qb: "queue_ok b" using view_ok [OF v] a(2) by simp
  have tc: "table_ok UNIV c" "queue_ok c"
    using tb purge_outstanding_queue [OF qb] by (simp_all add: c_def table_ok_def purge_outstanding_frame)
  have core: "core (drop_references m2j now pending autodel i st) = core (upd_iface i (\<lambda>h. h\<lparr>hi_soft_iface := None\<rparr>) c)"
    unfolding drop_references_def set_status_def [symmetric] Let_def b_def [symmetric] c_def [symmetric]
    by (auto simp: core_def upd_iface_def ext_call_def)
  have fr: "bp_iface c = bp_iface b" "bp_hardif_list c = bp_hardif_list st" "bp_soft_iface c = bp_soft_iface st"
    "bp_num_ifaces c = bp_num_ifaces st" "\<And>j. iface_view (bp_iface b j) = iface_view (bp_iface ?a j)"
    using v by (simp_all add: c_def purge_outstanding_frame view_iff) (simp_all add: set_status_def upd_iface_def)
  from core tc show "table_ok UNIV (drop_references m2j now pending autodel i st)"
    by (simp add: core_def table_ok_def upd_iface_def)
  from core tc show "queue_ok (drop_references m2j now pending autodel i st)"
    by (simp add: core_def queue_ok_def queue_sum_def upd_iface_def)
  from core fr(2-4) show "bp_num_ifaces (drop_references m2j now pending autodel i st) = bp_num_ifaces st"
    "bp_hardif_list (drop_references m2j now pending autodel i st) = bp_hardif_list st"
    "bp_soft_iface (drop_references m2j now pending autodel i st) = bp_soft_iface st"
    by (simp_all add: core_def upd_iface_def)
  have w: "iface_view (bp_iface (drop_references m2j now pending autodel i st) j) =
      iface_view (if j = i then (bp_iface b i)\<lparr>hi_soft_iface := None\<rparr> else bp_iface b j)" for j
    using core fr(1) by (simp add: core_def upd_iface_def fun_eq_iff)
  show "hi_soft_iface (bp_iface (drop_references m2j now pending autodel i st) i) = None"
    "hi_if_status (bp_iface (drop_references m2j now pending autodel i st) i) = BATADV_IF_NOT_IN_USE"
    using w [of i] fr(5) [of i] by (simp_all add: iface_view_def)
  show "iface_view (bp_iface (drop_references m2j now pending autodel i st) j) = iface_view (bp_iface st j)" if "j \<noteq> i" for j
    using w [of j] fr(5) [of j] that by (simp add: set_status_def upd_iface_def)
qed

lemma disable_mesh_ok:
  assumes "mesh_in {i} st" "env_ok env"
  shows "mesh_ok (batadv_hardif_disable_interface env m2j now pending autodel i st)
    \<and> i \<notin> members (batadv_hardif_disable_interface env m2j now pending autodel i st)"
proof -
  let ?s = "batadv_hardif_deactivate_interface i st"
  have c: "core ?s = core (if hi_if_status (bp_iface st i) \<in> {BATADV_IF_ACTIVE, BATADV_IF_TO_BE_ACTIVATED}
      then set_status i BATADV_IF_INACTIVE st else st)" by (rule deactivate_core)
  have st: "ifaces_in {i} st" using assms(1) by (simp add: mesh_in_def)
  have act: "hi_if_status (bp_iface st i) \<in> {BATADV_IF_ACTIVE, BATADV_IF_TO_BE_ACTIVATED} \<Longrightarrow> i \<in> members st"
    using st unfolding ifaces_in_def by (metis batadv_hard_iface_state.distinct insertE singletonD)
  have s: "mesh_in {i} ?s"
    unfolding mesh_in_core [OF c] using assms(1) status_ifaces_ok [OF st act, of BATADV_IF_INACTIVE]
    by (auto simp: mesh_in_def set_status_def) (auto simp: upd_iface_def queue_ok_def queue_sum_def)
  have mem: "members ?s = members st" using core_facts [OF c] by (auto split: if_splits)
  show ?thesis
  proof (cases "hi_if_status (bp_iface ?s i) = BATADV_IF_INACTIVE")
    case False
    have stat: "hi_if_status (bp_iface ?s i) = (if hi_if_status (bp_iface st i) \<in> {BATADV_IF_ACTIVE, BATADV_IF_TO_BE_ACTIVATED}
       then BATADV_IF_INACTIVE else hi_if_status (bp_iface st i))" using core_facts [OF c, of i] by simp
    have "i \<notin> members st" using False stat st by (auto simp: ifaces_in_def split: if_splits)
    with s mem have "mesh_ok ?s" by (auto simp: mesh_in_def mesh_ok_def ifaces_in_def)
    with False mem \<open>i \<notin> members st\<close> show ?thesis by (simp add: batadv_hardif_disable_interface_def)
  next
    case True
    have im: "i \<in> members ?s" using True s by (auto simp: mesh_in_def ifaces_in_def)
    define a where "a = fst (batadv_orig_hash_del_if (bat_orig_del_if env) i (bp_num_ifaces ?s - 1)
      (?s\<lparr>bp_num_ifaces := bp_num_ifaces ?s - 1\<rparr>))"
    note a = del_if_table [OF s im assms(2), folded a_def]
    define b where "b = give_up_number env i ?s"
    have b: "core b = core a" by (simp add: b_def a_def give_up_number_def Let_def)
    then have bt: "table_ok UNIV b" "queue_ok b" "bp_num_ifaces b = bp_num_ifaces a" "bp_hardif_list b = bp_hardif_list a"
      "bp_soft_iface b = bp_soft_iface a" "iface_view (bp_iface b j) = iface_view (bp_iface a j)" for j
      using a(1,2) by (auto simp: core_def table_ok_def queue_ok_def queue_sum_def fun_eq_iff)
    let ?w = "drop_references m2j now pending autodel i b"
    have res: "batadv_hardif_disable_interface env m2j now pending autodel i st = ?w"
      using True by (simp add: batadv_hardif_disable_interface_def b_def)
    note w = drop_references_facts [OF bt(1,2), where ?m2j.0 = m2j and now = now and pending = pending and autodel = autodel and i = i]
    have view: "iface_view (bp_iface ?w j) = iface_view (moved_down ?s i (hi_if_num (bp_iface ?s i)) (set (bp_hardif_list ?s)) j)"
      if "j \<noteq> i" for j
      using w(8) [OF that] bt(6) a(6) [OF that] by simp
    have "ifaces_ok ?w"
    proof (rule iface_leave [OF _ im view w(6,7)])
      show "ifaces_in {i} ?s" using s by (simp add: mesh_in_def)
      show "bp_hardif_list ?w = bp_hardif_list ?s" "bp_soft_iface ?w = bp_soft_iface ?s"
        "bp_num_ifaces ?w = bp_num_ifaces ?s - 1"
        using w(3-5) bt(3-5) a(3-5) by simp_all
    qed
    with w(1,2,6) show ?thesis by (simp add: res mesh_ok_def members_def)
  qed
qed

end
