(* ===== verification/Mesh_Run.thy ===== *)
theory Mesh_Run
  imports Mesh_Leave Interfaces
begin

text \<open>
  All handlers of the mesh as one state machine, with the invariant of the theories before, and
  what follows from it for every state that can be reached.
\<close>

section \<open>Events\<close>

lemma status_removed:
  assumes "mesh_ok st" "i \<notin> members st"
  shows "mesh_ok (upd_iface i (\<lambda>h. h\<lparr>hi_if_status := BATADV_IF_TO_BE_REMOVED\<rparr>) st)"
proof -
  let ?st = "set_status i BATADV_IF_TO_BE_REMOVED st"
  have m: "members ?st = members st" "if_num_of ?st = if_num_of st" "bp_hardif_list ?st = bp_hardif_list st"
    "bp_num_ifaces ?st = bp_num_ifaces st"
    by simp_all (simp_all add: set_status_def upd_iface_def)
  have "ifaces_ok ?st"
    using assms unfolding mesh_ok_def ifaces_in_def m by (auto simp: set_status_def upd_iface_def)
  with assms(1) show ?thesis
    unfolding set_status_def [symmetric]
    by (simp add: mesh_ok_def) (simp add: set_status_def upd_iface_def queue_ok_def queue_sum_def table_ok_def known_def)
qed

lemma mesh_in_list:
  assumes "mesh_ok st"
  shows "mesh_in {i} st" "mesh_in {i} (st\<lparr>bp_hardif_list := remove1 i (bp_hardif_list st)\<rparr>)"
proof -
  show "mesh_in {i} st" using assms by (auto simp: mesh_ok_def mesh_in_def ifaces_in_def)
  let ?st = "st\<lparr>bp_hardif_list := remove1 i (bp_hardif_list st)\<rparr>"
  have m: "members ?st = members st" by (simp add: members_def)
  have "ifaces_in {i} ?st"
    using assms unfolding mesh_ok_def ifaces_in_def m by auto
  with assms show "mesh_in {i} ?st"
    by (simp add: mesh_ok_def mesh_in_def queue_ok_def queue_sum_def table_ok_def known_def)
qed

lemma remove_mesh_ok:
  assumes "mesh_in {i} st" "env_ok env"
  shows "mesh_ok (batadv_hardif_remove_interface env m2j now pending i st)"
proof -
  define s where "s = (if hi_if_status (bp_iface st i) \<noteq> BATADV_IF_NOT_IN_USE
     then batadv_hardif_disable_interface env m2j now pending True i st else st)"
  have "mesh_ok s \<and> i \<notin> members s"
  proof (cases "hi_if_status (bp_iface st i) = BATADV_IF_NOT_IN_USE")
    case True
    then have "i \<notin> members st" using assms(1) by (auto simp: mesh_in_def ifaces_in_def)
    with True assms(1) show ?thesis by (auto simp: s_def mesh_in_def mesh_ok_def ifaces_in_def)
  next
    case False
    with disable_mesh_ok [OF assms] show ?thesis by (simp add: s_def)
  qed
  then show ?thesis
    using status_removed by (simp add: batadv_hardif_remove_interface_def Let_def flip: s_def)
qed

lemma event_mesh_ok:
  assumes "mesh_ok st" "env_ok env"
  shows "mesh_ok (batadv_hard_if_event env m2j now pending event i st)"
proof -
  have "mesh_ok (batadv_update_min_mtu st)" "mesh_ok (batadv_iv_ogm_iface_update_mac i st)"
    "mesh_ok (batadv_primary_if_update_addr None (batadv_iv_ogm_iface_update_mac i st))"
    using assms(1) mesh_ok_core [of "batadv_update_min_mtu st" st]
      mesh_ok_core [of "batadv_iv_ogm_iface_update_mac i st" st]
      mesh_ok_core [of "batadv_primary_if_update_addr None (batadv_iv_ogm_iface_update_mac i st)" st] by simp_all
  then show ?thesis
    using assms activate_mesh_ok deactivate_mesh_ok remove_mesh_ok [OF mesh_in_list(2)]
    by (simp add: batadv_hard_if_event_def Let_def)
qed

lemma add_interface_mesh_ok:
  assumes "mesh_ok st" "i \<notin> set (bp_hardif_list st)"
  shows "mesh_ok (batadv_hardif_add_interface ok addr wifi mtu i st)"
proof (cases ok)
  case True
  let ?st = "batadv_hardif_add_interface ok addr wifi mtu i st"
  have i: "i \<notin> members st" using assms by (auto simp: mesh_ok_def ifaces_in_def)
  have f: "bp_iface ?st i = hardif_init addr wifi mtu" "\<And>j. j \<noteq> i \<Longrightarrow> bp_iface ?st j = bp_iface st j"
    "bp_hardif_list ?st = bp_hardif_list st @ [i]" "bp_num_ifaces ?st = bp_num_ifaces st" "bp_soft_iface ?st = bp_soft_iface st"
    using True by (simp_all add: batadv_hardif_add_interface_def)
  have m: "members ?st = members st"
  proof -
    have "hi_soft_iface (bp_iface ?st j) = Some (bp_soft_iface st) \<longleftrightarrow> hi_soft_iface (bp_iface st j) = Some (bp_soft_iface st)" for j
      using i f(1) f(2) [of j] by (cases "j = i") (simp_all add: hardif_init_def members_def)
    then show ?thesis by (simp add: members_def f(5))
  qed
  have "bij_betw (if_num_of ?st) (members st) {..<bp_num_ifaces st}"
    using assms(1) f(2) i bij_betw_cong [of "members st" "if_num_of ?st" "if_num_of st"]
    unfolding mesh_ok_def ifaces_in_def by metis
  moreover have "hi_soft_iface (bp_iface ?st j) = None
      \<and> hi_if_status (bp_iface ?st j) \<in> {BATADV_IF_NOT_IN_USE, BATADV_IF_TO_BE_REMOVED}" if "j \<notin> members st" for j
    using assms(1) that f(1) f(2) [of j] by (cases "j = i") (auto simp: mesh_ok_def ifaces_in_def hardif_init_def)
  moreover have "0 \<le> hi_if_num (bp_iface ?st j) \<and> hi_if_status (bp_iface ?st j) \<in>
      {BATADV_IF_INACTIVE, BATADV_IF_ACTIVE, BATADV_IF_TO_BE_ACTIVATED}" if "j \<in> members st" for j
    using assms(1) that f(2) [of j] i by (cases "j = i") (auto simp: mesh_ok_def ifaces_in_def)
  ultimately have "ifaces_ok ?st"
    using assms unfolding ifaces_in_def m f(3,4) mesh_ok_def by auto
  with assms(1) True show ?thesis
    by (simp add: mesh_ok_def) (simp add: batadv_hardif_add_interface_def queue_ok_def queue_sum_def table_ok_def known_def)
qed (use assms(1) in \<open>simp add: batadv_hardif_add_interface_def\<close>)

section \<open>The state machine\<close>

text \<open>
  One handler at a time, with all its outside results arbitrary. Two of them are restricted: no
  allocation for the windows of an originator fails while an interface is added or removed, and
  the uninitialised \<^verbatim>\<open>own\<close> of a new broadcast reads as zero.
\<close>

inductive mesh_step :: "batadv_priv \<Rightarrow> batadv_priv \<Rightarrow> bool" where
  receive: "mesh_step st (fst (batadv_iv_ogm_receive alloc m2j now rnd pull cow lin algo_iv dest src past data if_in st))"
| send_ogm: "k < length (bp_forw_bat_list st) \<Longrightarrow>
    mesh_step st (batadv_send_outstanding_bat_ogm_packet alloc m2j now rnd' ogm_append past k st)"
| add_bcast: "\<not> fw_own junk \<Longrightarrow> mesh_step st (fst (batadv_add_bcast_packet_to_list alloc junk skb st))"
| send_bcast: "k < length (bp_forw_bcast_list st) \<Longrightarrow>
    mesh_step st (batadv_send_outstanding_bcast_packet alloc dat_drop k st)"
| purge: "mesh_step st (batadv_purge_orig m2j now batadv_iv_ogm_neigh_cmp st)"
| add_interface: "i \<notin> set (bp_hardif_list st) \<Longrightarrow>
    mesh_step st (batadv_hardif_add_interface ok addr wifi mtu i st)"
| enable: "i \<in> set (bp_hardif_list st) \<Longrightarrow> env_ok env \<Longrightarrow>
    mesh_step st (fst (batadv_hardif_enable_interface env alloc m2j now rnd' ogm_append i st))"
| disable: "env_ok env \<Longrightarrow> mesh_step st (batadv_hardif_disable_interface env m2j now pending autodel i st)"
| event: "env_ok env \<Longrightarrow> mesh_step st (batadv_hard_if_event env m2j now pending event i st)"

definition mesh_initial :: "batadv_priv \<Rightarrow> bool" where
  "mesh_initial st \<longleftrightarrow> (\<exists>soft mac wifi mtu hardifs. distinct hardifs
     \<and> st = priv_init soft (\<lambda>i. hardif_init (mac i) (wifi i) (mtu i)) hardifs)"

lemma initial_mesh_ok: "mesh_initial st \<Longrightarrow> mesh_ok st"
  by (auto simp: mesh_initial_def priv_init_def hardif_init_def mesh_ok_def table_ok_def ifaces_in_def members_def
      queue_ok_def queue_sum_def bij_betw_def)

lemma step_mesh_ok: "mesh_step st st' \<Longrightarrow> mesh_ok st \<Longrightarrow> mesh_ok st'"
proof (induction rule: mesh_step.induct)
  case receive
  then show ?case by (rule mesh_ok_view [OF _ receive_view receive_keeps])
next
  case (purge st m2j now)
  then have "table_ok UNIV (batadv_purge_orig m2j now batadv_iv_ogm_neigh_cmp st)"
    using purge_orig_table(1) [of UNIV st m2j now batadv_iv_ogm_neigh_cmp] by (simp add: mesh_ok_def)
  with purge view_ok [OF purge_orig_view] show ?case by (simp add: mesh_ok_def)
next
  case (disable env st m2j now pending autodel i)
  then show ?case using disable_mesh_ok [OF mesh_in_list(1)] by blast
qed (simp_all add: ogm_work_mesh_ok bcast_add_mesh_ok bcast_work_mesh_ok add_interface_mesh_ok enable_mesh_ok event_mesh_ok)

interpretation mesh: transition_system mesh_initial mesh_step mesh_ok
  by unfold_locales (rule initial_mesh_ok, assumption, rule step_mesh_ok)

section \<open>Properties\<close>


text \<open>An environment in which everything succeeds, with a new window filled with ones.\<close>

definition demo_env :: hardif_env where
  "demo_env = \<lparr>he_kref = True, he_soft = True, he_valid = True, he_del_slave = 0, he_link = 0, he_buff_ok = True,
     he_buff = replicate 24 7, he_seqno = 4, he_own_ok = (\<lambda>_. True), he_sum_ok = (\<lambda>_. True), he_junk_own = (\<lambda>_. -1),
     he_junk_sum = (\<lambda>_. 255), he_up = True\<rparr>"

definition demo_start :: batadv_priv where
  "demo_start = priv_init 1 (\<lambda>i. hardif_init (of_nat i) False 1500) [3, 5]"

definition demo_enable :: "iface \<Rightarrow> batadv_priv \<Rightarrow> batadv_priv" where
  "demo_enable i st = fst (batadv_hardif_enable_interface demo_env (\<lambda>_. True) of_nat 0 0 (\<lambda>b n. (b, 0)) i st)"

lemma demo_start_initial: "mesh_initial demo_start"
  unfolding mesh_initial_def demo_start_def
  by (intro exI [of _ 1] exI [of _ of_nat] exI [of _ "\<lambda>_. False"] exI [of _ "\<lambda>_. 1500"] exI [of _ "[3, 5]"]) simp

lemma demo_enable_step: "i \<in> set (bp_hardif_list st) \<Longrightarrow> mesh_step st (demo_enable i st)"
  unfolding demo_enable_def by (rule mesh_step.enable) (simp_all add: env_ok_def demo_env_def)


text \<open>
  The number of an interface of the mesh indexes the window of every originator in every
  reachable state, and the recorded weight is the number of marks in the window: the accesses to
  the arrays in the rating of links, in the sliding of the windows and in the recording of echoes
  are in bounds, although the arrays are reallocated as interfaces come and go.
\<close>

theorem mesh_window_index:
  assumes "mesh_initial st0" "mesh_step\<^sup>*\<^sup>* st0 st"
    and "hi_soft_iface (bp_iface st i) = Some (bp_soft_iface st)" "batadv_orig_hash_find st a = Some on"
  shows "0 \<le> hi_if_num (bp_iface st i) \<and> if_num_of st i < length (on_bcast_own on)
    \<and> if_num_of st i < length (on_bcast_own_sum on)
    \<and> unat (on_bcast_own_sum on ! if_num_of st i) = bitmap_weight (on_bcast_own on ! if_num_of st i)"
proof -
  have ok: "table_ok UNIV st" "ifaces_ok st"
    using mesh.reachable_invariant [OF assms(1,2)] by (simp_all add: mesh_ok_def)
  have i: "i \<in> members st" using assms(3) by (simp add: members_def)
  have "if_num_of st i \<in> {..<bp_num_ifaces st}"
    using ok(2) i unfolding ifaces_in_def by (meson bij_betwE)
  moreover have "orig_ok (bp_num_ifaces st) UNIV a on"
    using ok(1) assms(4) by (simp add: table_UNIV batadv_orig_hash_find_def)
  moreover have "0 \<le> hi_if_num (bp_iface st i)" using ok(2) i by (simp add: ifaces_in_def)
  ultimately show ?thesis by (simp add: orig_ok_def)
qed

abbreviation demo_ogm :: batadv_ogm_packet where
  "demo_ogm \<equiv> \<lparr>op_packet_type = 0, op_version = 15, op_ttl = 50, op_flags = 0, op_seqno = 7, op_orig = 0xA1,
     op_prev_sender = 0xA1, op_reserved = 0, op_tq = 255, op_tvlv_len = 0\<rparr>"

definition demo_heard :: batadv_priv where
  "demo_heard = fst (batadv_iv_ogm_receive (\<lambda>s. s \<noteq> Alloc_Skb_Copy None) of_nat 0 (\<lambda>_ _. 0) True True True True (-1) 0xA1
     (\<lambda>_. 0) (ogm_bytes demo_ogm) 3 demo_start)"

lemma demo_heard_known: "0xA1 \<in> known demo_heard" "bp_hardif_list demo_heard = [3, 5]"
proof -
  have "ogm_offsets (\<lambda>_. 0) (ogm_bytes demo_ogm) 0 = [0]"
    by (subst ogm_offsets.simps) (simp add: batadv_iv_ogm_aggr_packet_def offsets_stop)
  then have eq: "demo_heard = fst (batadv_iv_ogm_orig_get (\<lambda>s. s \<noteq> Alloc_Skb_Copy None) 0 0xA1 demo_start)"
    by (simp add: demo_heard_def batadv_iv_ogm_receive_def batadv_check_management_packet_def batadv_iv_ogm_process_def Let_def
        mesh_ifaces_def batadv_iv_ogm_process_per_outif_def)
       (simp add: demo_start_def batadv_iv_ogm_orig_get_def batadv_orig_hash_find_def batadv_orig_node_new_def priv_init_def
        hardif_init_def Let_def)
  show "0xA1 \<in> known demo_heard" "bp_hardif_list demo_heard = [3, 5]"
    by (simp_all add: eq demo_start_def batadv_iv_ogm_orig_get_def batadv_orig_hash_find_def batadv_orig_node_new_def
        priv_init_def Let_def known_def)
qed

lemma schedule_bat_ogm_members:
  "members (batadv_schedule_bat_ogm alloc m2j now rnd ogm_append i st) = members st"
  "known st \<subseteq> known (batadv_schedule_bat_ogm alloc m2j now rnd ogm_append i st)"
proof -
  have v: "members (batadv_iv_ogm_schedule alloc m2j now rnd ogm_append i s) = members s" for s
    using schedule_view [of alloc m2j now rnd ogm_append i s] by (auto simp: members_def view_iff iface_view_def)
  have k: "known s \<subseteq> known (batadv_iv_ogm_schedule alloc m2j now rnd ogm_append i s)" for s
    using schedule_keeps [of UNIV s] by (auto simp: keeps_def)
  show "members (batadv_schedule_bat_ogm alloc m2j now rnd ogm_append i st) = members st"
    by (simp add: batadv_schedule_bat_ogm_def Let_def v flip: set_status_def)
  show "known st \<subseteq> known (batadv_schedule_bat_ogm alloc m2j now rnd ogm_append i st)"
    using k [of st] k [of "upd_iface i (\<lambda>h. h\<lparr>hi_if_status := BATADV_IF_ACTIVE\<rparr>) st"]
    by (simp add: batadv_schedule_bat_ogm_def Let_def)
qed

lemma demo_enable_joins:
  assumes "mesh_ok st" "hi_if_status (bp_iface st i) = BATADV_IF_NOT_IN_USE" "i \<in> set (bp_hardif_list st)"
  shows "i \<in> members (demo_enable i st)" "known st \<subseteq> known (demo_enable i st)"
proof -
  let ?j = "batadv_hardif_activate_interface i (joined demo_env i st)"
  have ok: "env_ok demo_env" by (simp add: env_ok_def demo_env_def)
  have notin: "i \<notin> members st" using assms(1,2) by (auto simp: mesh_ok_def ifaces_in_def)
  note j = joined_pre [OF assms(1) ok notin assms(3)]
  have c: "core ?j = core (set_status i BATADV_IF_TO_BE_ACTIVATED (joined demo_env i st))"
    using activate_core [of i "joined demo_env i st"] by (simp add: joined_facts)
  have res: "demo_enable i st = batadv_schedule_bat_ogm (\<lambda>_. True) of_nat 0 0 (\<lambda>b n. (b, 0)) i ?j"
    using enable_eq [OF assms(2) ok] by (simp add: demo_env_def demo_enable_def)
  have "members ?j = members (joined demo_env i st)" using core_facts [OF c] by simp
  with j(2) show "i \<in> members (demo_enable i st)" by (simp add: res schedule_bat_ogm_members)
  have "known ?j = known st"
    using c by (simp add: core_def known_def set_status_def upd_iface_def joined_facts)
       (simp add: dom_map_of_conv_image_fst image_image split_def)
  then show "known st \<subseteq> known (demo_enable i st)"
    using schedule_bat_ogm_members(2) [of ?j] by (simp add: res)
qed

theorem mesh_window_index_witness:
  "if_num_of (demo_enable 3 demo_heard) 3 < length (on_bcast_own (orig_at (demo_enable 3 demo_heard) 0xA1))"
proof -
  have r1: "mesh_step\<^sup>*\<^sup>* demo_start demo_heard"
    unfolding demo_heard_def by (rule r_into_rtranclp, rule mesh_step.receive)
  have ok: "mesh_ok demo_heard" by (rule mesh.reachable_invariant [OF demo_start_initial r1])
  have "view demo_heard = view demo_start" unfolding demo_heard_def by (rule receive_view)
  then have "iface_view (bp_iface demo_heard 3) = iface_view (bp_iface demo_start 3)" by (simp only: view_iff)
  then have nu: "hi_if_status (bp_iface demo_heard 3) = BATADV_IF_NOT_IN_USE"
    by (simp add: demo_start_def iface_view_def priv_init_def hardif_init_def)
  have mem: "3 \<in> set (bp_hardif_list demo_heard)" unfolding demo_heard_known(2) by simp
  have r2: "mesh_step\<^sup>*\<^sup>* demo_start (demo_enable 3 demo_heard)"
    by (rule rtranclp.rtrancl_into_rtrancl [OF r1 demo_enable_step [OF mem]])
  note e = demo_enable_joins [OF ok nu mem]
  have "batadv_orig_hash_find (demo_enable 3 demo_heard) 0xA1 = Some (orig_at (demo_enable 3 demo_heard) 0xA1)"
    using e(2) demo_heard_known(1) by (auto simp: batadv_orig_hash_find_def orig_at_def known_def)
  from mesh_window_index [OF demo_start_initial r2 _ this] e(1) show ?thesis by (simp add: members_def)
qed

end
