(* ===== verification/Tvlv.thy ===== *)
theory Tvlv
  imports Interfaces Bytes
begin

text \<open>
  Type-version-length-value containers: the part of \<^verbatim>\<open>main.c\<close> through which the other
  components announce data with our originator messages and receive what others announce.

  The callbacks of a handler are function pointers. The model keeps them as functions on the
  state \<open>'st\<close> of the components that registered them, \<^verbatim>\<open>NULL\<close> being \<open>None\<close>; no callback of the
  program changes the lists of this component. A value and its length are handed around
  together in the code; in the model the length of the list is that length. Packet contents
  are bytes as they are on the wire.
\<close>

section \<open>Data\<close>

abbreviation (input) TVLV_HDR_LEN :: nat where "TVLV_HDR_LEN \<equiv> 4"
abbreviation (input) BATADV_NO_FLAGS :: u8 where "BATADV_NO_FLAGS \<equiv> 0"
abbreviation (input) BATADV_TVLV_HANDLER_OGM_CIFNOTFND :: u8 where "BATADV_TVLV_HANDLER_OGM_CIFNOTFND \<equiv> 2"
abbreviation (input) BATADV_TVLV_HANDLER_OGM_CALLED :: u8 where "BATADV_TVLV_HANDLER_OGM_CALLED \<equiv> 4"
abbreviation (input) NET_RX_SUCCESS :: int where "NET_RX_SUCCESS \<equiv> 0"
abbreviation (input) NET_RX_DROP :: int where "NET_RX_DROP \<equiv> 1"

record batadv_tvlv_container =
  tc_type :: u8
  tc_version :: u8
  tc_len :: u16
  tc_value :: "u8 list"

record 'st batadv_tvlv_handler =
  th_ogm_handler :: "('st \<Rightarrow> mac option \<Rightarrow> u8 \<Rightarrow> u8 list \<Rightarrow> 'st) option"
  th_unicast_handler :: "('st \<Rightarrow> mac \<Rightarrow> mac \<Rightarrow> u8 list \<Rightarrow> 'st \<times> int) option"
  th_type :: u8
  th_version :: u8
  th_flags :: u8

record 'st batadv_priv_tvlv =
  tv_handler_list :: "'st batadv_tvlv_handler list"
  tv_container_list :: "batadv_tvlv_container list"
  tv_clients :: 'st

definition tvlv_init :: "'st \<Rightarrow> 'st batadv_priv_tvlv" where
  "tvlv_init clients = \<lparr>tv_handler_list = [], tv_container_list = [], tv_clients = clients\<rparr>"

section \<open>Containers\<close>

definition batadv_tvlv_container_get :: "'st batadv_priv_tvlv \<Rightarrow> u8 \<Rightarrow> u8 \<Rightarrow> batadv_tvlv_container option" where
  "batadv_tvlv_container_get tv type version =
     List.find (\<lambda>tvlv. tc_type tvlv = type \<and> tc_version tvlv = version) (tv_container_list tv)"

definition batadv_tvlv_container_list_size :: "'st batadv_priv_tvlv \<Rightarrow> u16" where
  "batadv_tvlv_container_list_size tv =
     foldl (\<lambda>tvlv_len tvlv. tvlv_len + of_nat TVLV_HDR_LEN + tc_len tvlv) 0 (tv_container_list tv)"

definition batadv_tvlv_container_remove ::
    "batadv_tvlv_container option \<Rightarrow> 'st batadv_priv_tvlv \<Rightarrow> 'st batadv_priv_tvlv" where
  "batadv_tvlv_container_remove tvlv tv =
     (case tvlv of
        None \<Rightarrow> tv
      | Some t \<Rightarrow> tv\<lparr>tv_container_list := remove1 t (tv_container_list tv)\<rparr>)"

definition batadv_tvlv_container_unregister :: "u8 \<Rightarrow> u8 \<Rightarrow> 'st batadv_priv_tvlv \<Rightarrow> 'st batadv_priv_tvlv" where
  "batadv_tvlv_container_unregister type version tv =
     batadv_tvlv_container_remove (batadv_tvlv_container_get tv type version) tv"

text \<open>\<open>tvlv_value\<close> is the memory at the pointer, at least \<open>tvlv_value_len\<close> bytes of it.\<close>

definition batadv_tvlv_container_register ::
    "bool \<Rightarrow> u8 \<Rightarrow> u8 \<Rightarrow> u8 list option \<Rightarrow> u16 \<Rightarrow> 'st batadv_priv_tvlv \<Rightarrow> 'st batadv_priv_tvlv" where
  "batadv_tvlv_container_register alloc type version tvlv_value tvlv_value_len tv =
     (let tvlv_value_len = (if tvlv_value = None then 0 else tvlv_value_len) in
      if \<not> alloc then tv
      else
        let tvlv_new = \<lparr>tc_type = type, tc_version = version, tc_len = tvlv_value_len,
              tc_value = (case tvlv_value of None \<Rightarrow> [] | Some v \<Rightarrow> take (unat tvlv_value_len) v)\<rparr>;
            tv = batadv_tvlv_container_remove (batadv_tvlv_container_get tv type version) tv
        in tv\<lparr>tv_container_list := tvlv_new # tv_container_list tv\<rparr>)"

text \<open>
  A packet buffer of exactly the needed size. The memory behind the copied part is what the
  allocator returned: \<open>junk\<close>.
\<close>

definition batadv_tvlv_realloc_packet_buff ::
    "bool \<Rightarrow> (nat \<Rightarrow> u8) \<Rightarrow> u8 list \<Rightarrow> nat \<Rightarrow> nat \<Rightarrow> u8 list \<times> bool" where
  "batadv_tvlv_realloc_packet_buff alloc junk packet_buff min_packet_len additional_packet_len =
     (if \<not> alloc then (packet_buff, False)
      else (take min_packet_len packet_buff @ map junk [0..<additional_packet_len], True))"

definition tvlv_hdr_bytes :: "u8 \<Rightarrow> u8 \<Rightarrow> u16 \<Rightarrow> u8 list" where
  "tvlv_hdr_bytes type version len = [type, version] @ be_bytes 2 len"

fun tvlv_write :: "batadv_tvlv_container list \<Rightarrow> nat \<Rightarrow> u8 list \<Rightarrow> u8 list" where
  "tvlv_write [] pos buff = buff"
| "tvlv_write (tvlv # tvlvs) pos buff =
     (let buff = wr_bytes buff pos (tvlv_hdr_bytes (tc_type tvlv) (tc_version tvlv) (tc_len tvlv));
          buff = wr_bytes buff (pos + TVLV_HDR_LEN) (tc_value tvlv)
      in tvlv_write tvlvs (pos + TVLV_HDR_LEN + unat (tc_len tvlv)) buff)"

definition batadv_tvlv_container_ogm_append ::
    "bool \<Rightarrow> (nat \<Rightarrow> u8) \<Rightarrow> 'st batadv_priv_tvlv \<Rightarrow> u8 list \<Rightarrow> nat \<Rightarrow> u8 list \<times> u16" where
  "batadv_tvlv_container_ogm_append alloc junk tv packet_buff packet_min_len =
     (let tvlv_value_len = batadv_tvlv_container_list_size tv in
      case batadv_tvlv_realloc_packet_buff alloc junk packet_buff packet_min_len (unat tvlv_value_len) of
        (packet_buff, False) \<Rightarrow> (packet_buff, tvlv_value_len)
      | (packet_buff, True) \<Rightarrow>
          if tvlv_value_len = 0 then (packet_buff, tvlv_value_len)
          else (tvlv_write (tv_container_list tv) packet_min_len packet_buff, tvlv_value_len))"

section \<open>Handlers\<close>

definition handler_matches :: "u8 \<Rightarrow> u8 \<Rightarrow> 'st batadv_tvlv_handler \<Rightarrow> bool" where
  "handler_matches type version h \<longleftrightarrow> th_type h = type \<and> th_version h = version"

definition batadv_tvlv_handler_get :: "'st batadv_priv_tvlv \<Rightarrow> u8 \<Rightarrow> u8 \<Rightarrow> 'st batadv_tvlv_handler option" where
  "batadv_tvlv_handler_get tv type version = List.find (handler_matches type version) (tv_handler_list tv)"

definition batadv_tvlv_handler_register ::
    "bool \<Rightarrow> ('st \<Rightarrow> mac option \<Rightarrow> u8 \<Rightarrow> u8 list \<Rightarrow> 'st) option \<Rightarrow> ('st \<Rightarrow> mac \<Rightarrow> mac \<Rightarrow> u8 list \<Rightarrow> 'st \<times> int) option
      \<Rightarrow> u8 \<Rightarrow> u8 \<Rightarrow> u8 \<Rightarrow> 'st batadv_priv_tvlv \<Rightarrow> 'st batadv_priv_tvlv" where
  "batadv_tvlv_handler_register alloc optr uptr type version flags tv =
     (case batadv_tvlv_handler_get tv type version of
        Some _ \<Rightarrow> tv
      | None \<Rightarrow>
          if \<not> alloc then tv
          else tv\<lparr>tv_handler_list := \<lparr>th_ogm_handler = optr, th_unicast_handler = uptr, th_type = type,
                 th_version = version, th_flags = flags\<rparr> # tv_handler_list tv\<rparr>)"

text \<open>The removed handler is the first of the list with the type and version.\<close>

definition batadv_tvlv_handler_unregister :: "u8 \<Rightarrow> u8 \<Rightarrow> 'st batadv_priv_tvlv \<Rightarrow> 'st batadv_priv_tvlv" where
  "batadv_tvlv_handler_unregister type version tv =
     (case batadv_tvlv_handler_get tv type version of
        None \<Rightarrow> tv
      | Some _ \<Rightarrow> tv\<lparr>tv_handler_list :=
          takeWhile (\<lambda>h. \<not> handler_matches type version h) (tv_handler_list tv)
          @ tl (dropWhile (\<lambda>h. \<not> handler_matches type version h) (tv_handler_list tv))\<rparr>)"

text \<open>The flag word of the first handler with the type and version gets the mark of a call.\<close>

fun mark_called :: "u8 \<Rightarrow> u8 \<Rightarrow> 'st batadv_tvlv_handler list \<Rightarrow> 'st batadv_tvlv_handler list" where
  "mark_called type version [] = []"
| "mark_called type version (h # hs) =
     (if handler_matches type version h
      then h\<lparr>th_flags := th_flags h OR BATADV_TVLV_HANDLER_OGM_CALLED\<rparr> # hs
      else h # mark_called type version hs)"

definition batadv_tvlv_call_handler ::
    "'st batadv_tvlv_handler option \<Rightarrow> bool \<Rightarrow> mac option \<Rightarrow> mac option \<Rightarrow> mac option \<Rightarrow> u8 list
      \<Rightarrow> 'st batadv_priv_tvlv \<Rightarrow> 'st batadv_priv_tvlv \<times> int" where
  "batadv_tvlv_call_handler tvlv_handler ogm_source orig_node src dst tvlv_value tv =
     (case tvlv_handler of
        None \<Rightarrow> (tv, NET_RX_SUCCESS)
      | Some h \<Rightarrow>
          if ogm_source then
            (case th_ogm_handler h of
               None \<Rightarrow> (tv, NET_RX_SUCCESS)
             | Some ogm_handler \<Rightarrow>
                 if orig_node = None then (tv, NET_RX_SUCCESS)
                 else (tv\<lparr>tv_clients := ogm_handler (tv_clients tv) orig_node BATADV_NO_FLAGS tvlv_value,
                         tv_handler_list := mark_called (th_type h) (th_version h) (tv_handler_list tv)\<rparr>,
                       NET_RX_SUCCESS))
          else
            (case (src, dst, th_unicast_handler h) of
               (Some src, Some dst, Some unicast_handler) \<Rightarrow>
                 let (clients, ret) = unicast_handler (tv_clients tv) src dst tvlv_value
                 in (tv\<lparr>tv_clients := clients\<rparr>, ret)
             | _ \<Rightarrow> (tv, NET_RX_SUCCESS)))"

text \<open>The loop over the containers of a packet.\<close>

function tvlv_parse ::
    "bool \<Rightarrow> mac option \<Rightarrow> mac option \<Rightarrow> mac option \<Rightarrow> u8 list \<Rightarrow> 'st batadv_priv_tvlv \<Rightarrow> int
      \<Rightarrow> 'st batadv_priv_tvlv \<times> int" where
  "tvlv_parse ogm_source orig_node src dst tvlv_value tv ret =
     (if length tvlv_value < TVLV_HDR_LEN then (tv, ret)
      else
        let type = tvlv_value ! 0;
            version = tvlv_value ! 1;
            tvlv_value_cont_len = unat (be_word (take 2 (drop 2 tvlv_value)) :: u16);
            tvlv_value = drop TVLV_HDR_LEN tvlv_value
        in if tvlv_value_cont_len > length tvlv_value then (tv, ret)
           else
             let (tv, r) = batadv_tvlv_call_handler (batadv_tvlv_handler_get tv type version) ogm_source
                             orig_node src dst (take tvlv_value_cont_len tvlv_value) tv
             in tvlv_parse ogm_source orig_node src dst (drop tvlv_value_cont_len tvlv_value) tv (ret OR r))"
  by pat_completeness auto
termination by (relation "measure (\<lambda>(_, _, _, _, v, _, _). length v)") auto

declare tvlv_parse.simps [simp del]

text \<open>
  The second loop, over the handlers. The handler of a component that wants to be called is
  called without a check of the pointer: \<open>None\<close> is the jump to address 0.
\<close>

fun tvlv_not_found ::
    "mac option \<Rightarrow> 'st batadv_tvlv_handler list \<Rightarrow> 'st \<Rightarrow> ('st batadv_tvlv_handler list \<times> 'st) option" where
  "tvlv_not_found orig_node [] clients = Some ([], clients)"
| "tvlv_not_found orig_node (h # hs) clients =
     (let h' = h\<lparr>th_flags := th_flags h AND NOT BATADV_TVLV_HANDLER_OGM_CALLED\<rparr>;
          rest = (\<lambda>clients. map_option (\<lambda>(hs, clients). (h' # hs, clients)) (tvlv_not_found orig_node hs clients))
      in if th_flags h AND BATADV_TVLV_HANDLER_OGM_CIFNOTFND \<noteq> 0 \<and> th_flags h AND BATADV_TVLV_HANDLER_OGM_CALLED = 0
         then (case th_ogm_handler h of
                 None \<Rightarrow> None
               | Some ogm_handler \<Rightarrow> rest (ogm_handler clients orig_node BATADV_TVLV_HANDLER_OGM_CIFNOTFND []))
         else rest clients)"

definition batadv_tvlv_containers_process ::
    "bool \<Rightarrow> mac option \<Rightarrow> mac option \<Rightarrow> mac option \<Rightarrow> u8 list \<Rightarrow> 'st batadv_priv_tvlv
      \<Rightarrow> ('st batadv_priv_tvlv \<times> int) option" where
  "batadv_tvlv_containers_process ogm_source orig_node src dst tvlv_value tv =
     (let (tv, ret) = tvlv_parse ogm_source orig_node src dst tvlv_value tv NET_RX_SUCCESS in
      if \<not> ogm_source then Some (tv, ret)
      else map_option (\<lambda>(hs, clients). (tv\<lparr>tv_handler_list := hs, tv_clients := clients\<rparr>, NET_RX_SUCCESS))
             (tvlv_not_found orig_node (tv_handler_list tv) (tv_clients tv)))"

text \<open>\<open>tvlv_value\<close> are the bytes behind the header of the message, as many as the header says.\<close>

definition batadv_tvlv_ogm_receive ::
    "mac option \<Rightarrow> u8 list \<Rightarrow> 'st batadv_priv_tvlv \<Rightarrow> 'st batadv_priv_tvlv option" where
  "batadv_tvlv_ogm_receive orig_node tvlv_value tv =
     (if tvlv_value = [] then Some tv
      else map_option fst (batadv_tvlv_containers_process True orig_node None None tvlv_value tv))"

section \<open>Unicast packets\<close>

text \<open>
  \<^verbatim>\<open>struct batadv_unicast_tvlv_packet\<close>: 20 bytes. The packet for a destination is built here;
  the length in the header has 16 bits.
\<close>

abbreviation (input) UNICAST_TVLV_HLEN :: nat where "UNICAST_TVLV_HLEN \<equiv> 20"
abbreviation (input) BATADV_UNICAST_TVLV :: u8 where "BATADV_UNICAST_TVLV \<equiv> 0x44"

definition unicast_tvlv_bytes :: "mac \<Rightarrow> mac \<Rightarrow> u16 \<Rightarrow> u8 list" where
  "unicast_tvlv_bytes src dst tvlv_len =
     [BATADV_UNICAST_TVLV, BATADV_COMPAT_VERSION, of_nat BATADV_TTL, 0] @ be_bytes 6 dst @ be_bytes 6 src
     @ be_bytes 2 tvlv_len @ [0, 0]"

definition unicast_tvlv_packet :: "mac \<Rightarrow> mac \<Rightarrow> u8 \<Rightarrow> u8 \<Rightarrow> u8 list \<Rightarrow> u8 list" where
  "unicast_tvlv_packet src dst type version tvlv_value =
     (let tvlv_len = TVLV_HDR_LEN + length tvlv_value
      in unicast_tvlv_bytes src dst (of_nat tvlv_len)
         @ tvlv_hdr_bytes type version (of_nat (length tvlv_value)) @ tvlv_value)"

end
