(* ===== verification/Routing.thy ===== *)
theory Routing
  imports Send Fragmentation Tvlv
begin

text \<open>
  The receive path: \<^verbatim>\<open>routing.c\<close>, the dispatcher of \<^verbatim>\<open>main.c\<close> and the unicast half of \<^verbatim>\<open>send.c\<close>.

  The node is the state of the mesh together with what only the packet handlers use: the
  windows and fragment chains of the originators, the candidate last used for bonding, the
  table of receive handlers. A packet is its bytes behind the Ethernet header, with the two
  addresses of that header. What leaves the node is recorded in \<open>nd_out\<close>: packets queued for
  a network device, frames handed to the soft interface, packets handed to the socket, and the
  calls of other components that keep a state.

  The program is built without network coding and without B.A.T.M.A.N. V
  (\<^verbatim>\<open>compat-autoconf.h\<close>), so their calls are empty. The translation table, the distributed ARP
  table and the bridge loop avoidance are asked through the fields of the environment.
\<close>

section \<open>Data\<close>

abbreviation (input) BATADV_UNICAST :: u8 where "BATADV_UNICAST \<equiv> 0x40"
abbreviation (input) BATADV_UNICAST_4ADDR :: u8 where "BATADV_UNICAST_4ADDR \<equiv> 0x42"
abbreviation (input) NET_XMIT_SUCCESS :: int where "NET_XMIT_SUCCESS \<equiv> 0"
abbreviation (input) NET_XMIT_DROP :: int where "NET_XMIT_DROP \<equiv> 1"
abbreviation (input) ENODATA :: int where "ENODATA \<equiv> 61"
abbreviation (input) EBADR :: int where "EBADR \<equiv> 53"
abbreviation (input) EREMOTE :: int where "EREMOTE \<equiv> 66"
abbreviation (input) EBUSY :: int where "EBUSY \<equiv> 16"
abbreviation (input) UNICAST_HLEN :: nat where "UNICAST_HLEN \<equiv> 10"
abbreviation (input) UNICAST_4ADDR_HLEN :: nat where "UNICAST_4ADDR_HLEN \<equiv> 18"
abbreviation (input) ICMP_HLEN :: nat where "ICMP_HLEN \<equiv> 20"
abbreviation (input) ICMP_RR_LEN :: nat where "ICMP_RR_LEN \<equiv> 116"
abbreviation (input) BCAST_HLEN :: nat where "BCAST_HLEN \<equiv> 14"
abbreviation (input) BATADV_RR_LEN :: nat where "BATADV_RR_LEN \<equiv> 16"
abbreviation (input) BATADV_ECHO_REPLY :: u8 where "BATADV_ECHO_REPLY \<equiv> 0"
abbreviation (input) BATADV_DESTINATION_UNREACHABLE :: u8 where "BATADV_DESTINATION_UNREACHABLE \<equiv> 3"
abbreviation (input) BATADV_ECHO_REQUEST :: u8 where "BATADV_ECHO_REQUEST \<equiv> 8"
abbreviation (input) BATADV_TTL_EXCEEDED :: u8 where "BATADV_TTL_EXCEEDED \<equiv> 11"
abbreviation (input) BATADV_P_DATA :: u8 where "BATADV_P_DATA \<equiv> 1"

datatype rx_handler =
  Batadv_recv_unhandled_packet | Batadv_recv_unhandled_unicast_packet | Batadv_recv_bcast_packet
  | Batadv_recv_unicast_packet | Batadv_recv_unicast_tvlv | Batadv_recv_icmp_packet
  | Batadv_recv_frag_packet | Batadv_iv_ogm_receive

datatype rt_event =
  Ev_Xmit iface mac "u8 list"
  | Ev_Interface_Rx "u8 list" nat "mac option"
  | Ev_Socket "u8 list"
  | Ev_Dat_Request "u8 list" nat
  | Ev_Dat_Reply "u8 list" nat
  | Ev_Bla_Duplist "u8 list"

record rt_skb =
  sk_data :: "u8 list"
  sk_dest :: mac
  sk_source :: mac
  sk_mac_len :: nat

record 'st batadv_node =
  nd_priv :: batadv_priv
  nd_bonding :: bool
  nd_last_bonding :: "mac \<Rightarrow> if_out option"
  nd_bcast :: "mac \<Rightarrow> bcast_window"
  nd_fragments :: "mac \<Rightarrow> batadv_frag_table_entry list"
  nd_frag_seqno :: u16
  nd_tvlv :: "'st batadv_priv_tvlv"
  nd_rx_handler :: "u8 \<Rightarrow> rx_handler"
  nd_out :: "rt_event list"

text \<open>Places at which a buffer operation of the kernel can fail.\<close>

datatype rt_site =
  Site_share | Site_pull nat | Site_cow_ttvn | Site_cow_route | Site_cow_tvlv | Site_cow_icmp | Site_cow_rr
  | Site_cow_ogm | Site_linearize | Site_push | Site_frag_alloc | Site_frag_head

record rt_env =
  re_ok :: "rt_site \<Rightarrow> bool"
  re_up :: "iface \<Rightarrow> bool"
  re_xmit :: int
  re_is_my_client :: "mac \<Rightarrow> u16 \<Rightarrow> bool"
  re_transtable_search :: "mac option \<Rightarrow> mac \<Rightarrow> u16 \<Rightarrow> mac option"
  re_local_roaming :: "mac \<Rightarrow> u16 \<Rightarrow> bool"
  re_global_roaming :: "mac \<Rightarrow> u16 \<Rightarrow> bool"
  re_tt_vn :: u8
  re_last_ttvn :: "mac \<Rightarrow> u8"
  re_dat_request :: "u8 list \<Rightarrow> nat \<Rightarrow> bool"
  re_dat_reply :: "u8 list \<Rightarrow> nat \<Rightarrow> bool"
  re_bla_duplist :: "u8 list \<Rightarrow> bool"
  re_bla_backbone_gw :: "u8 list \<Rightarrow> mac \<Rightarrow> nat \<Rightarrow> bool"
  re_expand_head :: "nat \<Rightarrow> int \<Rightarrow> nat option"
  re_frag_create :: "4 word \<Rightarrow> bool"
  re_tailroom :: nat
  re_merged_dest :: mac
  re_merged_source :: mac
  re_alloc :: "alloc_site \<Rightarrow> bool"
  re_junk :: batadv_forw_packet
  re_m2j :: "nat \<Rightarrow> jiffies"
  re_now :: jiffies
  re_rnd :: "nat \<Rightarrow> if_out \<Rightarrow> u32"
  re_past :: "nat \<Rightarrow> u8"

section \<open>Packet fields\<close>

definition mac_at :: "u8 list \<Rightarrow> nat \<Rightarrow> mac" where
  "mac_at data i = be_word (take 6 (drop i data))"

definition set_mac :: "nat \<Rightarrow> mac \<Rightarrow> u8 list \<Rightarrow> u8 list" where
  "set_mac i a data = wr_bytes data i (be_bytes 6 a)"

definition frag_skb_of :: "nat \<Rightarrow> u8 list \<Rightarrow> frag_skb" where
  "frag_skb_of tailroom data =
     \<lparr>fs_hdr = \<lparr>fp_packet_type = data ! 0, fp_version = data ! 1, fp_ttl = data ! 2,
        fp_no = ucast (drop_bit 4 (data ! 3)), fp_reserved = ucast (data ! 3), fp_dest = mac_at data 4,
        fp_orig = mac_at data 10, fp_seqno = be_word (take 2 (drop 16 data)),
        fp_total_size = be_word (take 2 (drop 18 data))\<rparr>,
      fs_payload = drop frag_hdr_size data, fs_tailroom = tailroom\<rparr>"

definition frag_skb_bytes :: "frag_skb \<Rightarrow> u8 list" where
  "frag_skb_bytes skb = (let h = fs_hdr skb in
     [fp_packet_type h, fp_version h, fp_ttl h, push_bit 4 (ucast (fp_no h)) OR ucast (fp_reserved h)]
     @ be_bytes 6 (fp_dest h) @ be_bytes 6 (fp_orig h) @ be_bytes 2 (fp_seqno h) @ be_bytes 2 (fp_total_size h)
     @ fs_payload skb)"

definition nd_event :: "rt_event \<Rightarrow> 'st batadv_node \<Rightarrow> 'st batadv_node" where
  "nd_event e nd = nd\<lparr>nd_out := nd_out nd @ [e]\<rparr>"

definition pull :: "rt_env \<Rightarrow> u8 list \<Rightarrow> nat \<Rightarrow> bool" where
  "pull env data n \<longleftrightarrow> n \<le> length data \<and> re_ok env (Site_pull n)"

definition batadv_is_my_mac :: "batadv_priv \<Rightarrow> mac \<Rightarrow> bool" where
  "batadv_is_my_mac st addr \<longleftrightarrow>
     list_ex (\<lambda>i. hi_if_status (bp_iface st i) = BATADV_IF_ACTIVE
       \<and> hi_soft_iface (bp_iface st i) = Some (bp_soft_iface st)
       \<and> hi_dev_addr (bp_iface st i) = addr) (bp_hardif_list st)"

abbreviation (input) ETH_P_8021Q :: u16 where "ETH_P_8021Q \<equiv> 0x8100"
abbreviation (input) BATADV_VLAN_HAS_TAG :: u16 where "BATADV_VLAN_HAS_TAG \<equiv> 0x8000"
abbreviation (input) VLAN_ETH_HLEN :: nat where "VLAN_ETH_HLEN \<equiv> 18"

definition batadv_get_vid :: "rt_env \<Rightarrow> u8 list \<Rightarrow> nat \<Rightarrow> u16" where
  "batadv_get_vid env data header_len =
     (if be_word (take 2 (drop (header_len + 12) data)) \<noteq> ETH_P_8021Q then 0
      else if \<not> pull env data (header_len + VLAN_ETH_HLEN) then 0
      else (be_word (take 2 (drop (header_len + 14) data)) AND 0x0FFF) OR BATADV_VLAN_HAS_TAG)"

text \<open>
  The priority a packet gets from its content: the offset is that of the Ethernet header in the
  packet. The handlers call it for the sake of the driver; the priority of a buffer is not part
  of the packets above.
\<close>

definition batadv_skb_set_priority :: "u8 list \<Rightarrow> nat \<Rightarrow> u32 \<Rightarrow> u32" where
  "batadv_skb_set_priority data offset priority =
     (let hdr = (\<lambda>pos len. pos + len \<le> length data);
          u16_at = (\<lambda>pos. be_word (take 2 (drop pos data)) :: u16)
      in if 256 \<le> priority \<and> priority \<le> 263 then priority
         else if \<not> hdr offset ETH_HLEN then priority
         else if u16_at (offset + 12) = ETH_P_8021Q then
           if \<not> hdr (offset + VLAN_ETH_HLEN) VLAN_ETH_HLEN then priority
           else ucast (drop_bit 13 (u16_at (offset + VLAN_ETH_HLEN + 14) AND 0xe000)) + 256
         else if u16_at (offset + 12) = 0x0800 then
           if \<not> hdr (offset + ETH_HLEN) 20 then priority
           else ucast (drop_bit 5 (data ! (offset + ETH_HLEN + 1) AND 0xfc)) + 256
         else if u16_at (offset + 12) = 0x86DD then
           if \<not> hdr (offset + ETH_HLEN) 40 then priority
           else ucast (drop_bit 5 ((ucast (drop_bit 4 (u16_at (offset + ETH_HLEN))) :: u8) AND 0xfc)) + 256
         else priority)"

section \<open>The next hop\<close>

text \<open>
  The loop over the interface entries of an originator for bonding. \<open>good\<close> compares a candidate
  with the router in use; the result is the first possible candidate and the one after the
  last used.
\<close>

fun bond_scan ::
    "(nat \<Rightarrow> if_out \<Rightarrow> bool) \<Rightarrow> nat option \<Rightarrow> if_out option \<Rightarrow> (if_out \<times> batadv_orig_ifinfo) list
      \<Rightarrow> (if_out \<times> nat) option \<Rightarrow> bool \<Rightarrow> (if_out \<times> nat) option \<times> (if_out \<times> nat) option" where
  "bond_scan good last_cand_router last_candidate [] first_candidate last_candidate_found = (first_candidate, None)"
| "bond_scan good last_cand_router last_candidate ((cand, info) # cands) first_candidate last_candidate_found =
     (case oi_router info of
        None \<Rightarrow> bond_scan good last_cand_router last_candidate cands first_candidate last_candidate_found
      | Some cand_router \<Rightarrow>
          if \<not> good cand_router cand
          then bond_scan good last_cand_router last_candidate cands first_candidate last_candidate_found
          else if last_cand_router = Some cand_router
          then bond_scan good last_cand_router last_candidate cands first_candidate last_candidate_found
          else
            let first_candidate = (if first_candidate = None then Some (cand, cand_router) else first_candidate)
            in if last_candidate = None \<or> last_candidate_found
               then (first_candidate, Some (cand, cand_router))
               else bond_scan good last_cand_router last_candidate cands first_candidate
                      (last_candidate_found \<or> last_candidate = Some cand))"

definition bond_good :: "batadv_orig_node \<Rightarrow> nat \<Rightarrow> nat \<Rightarrow> if_out \<Rightarrow> bool" where
  "bond_good on router cand_router cand =
     batadv_iv_ogm_neigh_is_sob (on_neigh on cand_router) cand (on_neigh on router) BATADV_IF_DEFAULT"

definition batadv_find_router ::
    "mac \<Rightarrow> if_out \<Rightarrow> 'st batadv_node \<Rightarrow> 'st batadv_node \<times> nat option" where
  "batadv_find_router orig_node recv_if nd =
     (let on = orig_at (nd_priv nd) orig_node in
      case batadv_orig_router_get on recv_if of
        None \<Rightarrow> (nd, None)
      | Some router \<Rightarrow>
          if \<not> (recv_if = BATADV_IF_DEFAULT \<and> nd_bonding nd) then (nd, Some router)
          else
            let last_candidate = nd_last_bonding nd orig_node;
                last_cand_router = (case last_candidate of None \<Rightarrow> None | Some c \<Rightarrow> batadv_orig_router_get on c);
                chosen = (\<lambda>c. nd\<lparr>nd_last_bonding := (nd_last_bonding nd)(orig_node := c)\<rparr>)
            in (case bond_scan (bond_good on router) last_cand_router last_candidate (on_ifinfo on) None False of
                  (_, Some (cand, r)) \<Rightarrow> (chosen (Some cand), Some r)
                | (Some (cand, r), None) \<Rightarrow> (chosen (Some cand), Some r)
                | (None, None) \<Rightarrow> (chosen None, Some router)))"

section \<open>Sending\<close>

definition batadv_send_skb_packet ::
    "rt_env \<Rightarrow> u8 list \<Rightarrow> iface \<Rightarrow> mac \<Rightarrow> 'st batadv_node \<Rightarrow> 'st batadv_node \<times> int" where
  "batadv_send_skb_packet env skb hard_iface dst_addr nd =
     (if hi_if_status (bp_iface (nd_priv nd) hard_iface) \<noteq> BATADV_IF_ACTIVE then (nd, NET_XMIT_DROP)
      else if \<not> re_up env hard_iface then (nd, NET_XMIT_DROP)
      else if \<not> re_ok env Site_push then (nd, NET_XMIT_DROP)
      else (nd_event (Ev_Xmit hard_iface dst_addr skb) nd, re_xmit env))"

definition batadv_send_unicast_skb ::
    "rt_env \<Rightarrow> u8 list \<Rightarrow> batadv_neigh_node \<Rightarrow> 'st batadv_node \<Rightarrow> 'st batadv_node \<times> int" where
  "batadv_send_unicast_skb env skb neigh nd = batadv_send_skb_packet env skb (nn_if_incoming neigh) (nn_addr neigh) nd"

definition primary_addr :: "batadv_priv \<Rightarrow> mac option" where
  "primary_addr st = map_option (\<lambda>i. hi_dev_addr (bp_iface st i)) (bp_primary_if st)"

definition batadv_send_skb_to_orig ::
    "rt_env \<Rightarrow> u8 list \<Rightarrow> mac \<Rightarrow> if_out \<Rightarrow> 'st batadv_node \<Rightarrow> 'st batadv_node \<times> int" where
  "batadv_send_skb_to_orig env skb orig_node recv_if nd =
     (case batadv_find_router orig_node recv_if nd of
        (nd, None) \<Rightarrow> (nd, NET_XMIT_DROP)
      | (nd, Some n) \<Rightarrow>
          let st = nd_priv nd;
              neigh_node = on_neigh (orig_at st orig_node) n;
              mtu = hi_mtu (bp_iface st (nn_if_incoming neigh_node))
          in if bp_fragmentation st \<and> int (length skb) > mtu
             then (case batadv_frag_send_packet (re_frag_create env) (re_ok env Site_frag_head) (primary_addr st)
                         (nd_frag_seqno nd) orig_node (nat mtu) skb of
                     (ret, sent, frag_seqno) \<Rightarrow>
                       (fold (\<lambda>f nd. fst (batadv_send_unicast_skb env (frag_skb_bytes f) neigh_node nd)) sent
                          (nd\<lparr>nd_frag_seqno := frag_seqno\<rparr>),
                        if ret then NET_XMIT_SUCCESS else NET_XMIT_DROP))
             else (fst (batadv_send_unicast_skb env skb neigh_node nd), NET_XMIT_SUCCESS))"

text \<open>
  The header in front of the payload. The bytes of a longer header are what the memory held.
\<close>

definition batadv_send_skb_push_fill_unicast ::
    "rt_env \<Rightarrow> (nat \<Rightarrow> u8) \<Rightarrow> u8 list \<Rightarrow> nat \<Rightarrow> mac \<Rightarrow> u8 list option" where
  "batadv_send_skb_push_fill_unicast env junk skb hdr_size orig_node =
     (if \<not> re_ok env Site_push then None
      else Some ([BATADV_UNICAST, BATADV_COMPAT_VERSION, of_nat BATADV_TTL, re_last_ttvn env orig_node]
             @ be_bytes 6 orig_node @ map junk [UNICAST_HLEN..<hdr_size] @ skb))"

definition batadv_send_skb_prepare_unicast :: "rt_env \<Rightarrow> (nat \<Rightarrow> u8) \<Rightarrow> u8 list \<Rightarrow> mac \<Rightarrow> u8 list option" where
  "batadv_send_skb_prepare_unicast env junk skb orig_node =
     batadv_send_skb_push_fill_unicast env junk skb UNICAST_HLEN orig_node"

definition batadv_send_skb_prepare_unicast_4addr ::
    "rt_env \<Rightarrow> (nat \<Rightarrow> u8) \<Rightarrow> batadv_priv \<Rightarrow> u8 list \<Rightarrow> mac \<Rightarrow> u8 \<Rightarrow> u8 list option" where
  "batadv_send_skb_prepare_unicast_4addr env junk st skb orig packet_subtype =
     (case primary_addr st of
        None \<Rightarrow> None
      | Some addr \<Rightarrow>
          map_option (\<lambda>skb. wr_bytes (skb[0 := BATADV_UNICAST_4ADDR]) UNICAST_HLEN (be_bytes 6 addr @ [packet_subtype, 0]))
            (batadv_send_skb_push_fill_unicast env junk skb UNICAST_4ADDR_HLEN orig))"

text \<open>
  \<open>orig_node\<close> is \<open>None\<close> when the destination is not known. \<open>hdr_dest\<close> is the destination of the
  Ethernet header, in front of the payload.
\<close>

definition batadv_send_skb_unicast ::
    "rt_env \<Rightarrow> (nat \<Rightarrow> u8) \<Rightarrow> u8 list \<Rightarrow> u8 \<Rightarrow> u8 \<Rightarrow> mac option \<Rightarrow> u16 \<Rightarrow> 'st batadv_node \<Rightarrow> 'st batadv_node \<times> int" where
  "batadv_send_skb_unicast env junk skb packet_type packet_subtype orig_node vid nd =
     (case orig_node of
        None \<Rightarrow> (nd, NET_XMIT_DROP)
      | Some orig \<Rightarrow>
          (case (if packet_type = BATADV_UNICAST then batadv_send_skb_prepare_unicast env junk skb orig
                 else if packet_type = BATADV_UNICAST_4ADDR
                 then batadv_send_skb_prepare_unicast_4addr env junk (nd_priv nd) skb orig packet_subtype
                 else None) of
             None \<Rightarrow> (nd, NET_XMIT_DROP)
           | Some pkt \<Rightarrow>
               let pkt = (if re_global_roaming env (mac_at skb 0) vid then pkt[3 := pkt ! 3 - 1] else pkt)
               in (case batadv_send_skb_to_orig env pkt orig BATADV_IF_DEFAULT nd of
                     (nd, res) \<Rightarrow> (nd, if res \<noteq> NET_XMIT_DROP then NET_XMIT_SUCCESS else NET_XMIT_DROP))))"

definition batadv_send_skb_via_tt_generic ::
    "rt_env \<Rightarrow> (nat \<Rightarrow> u8) \<Rightarrow> u8 list \<Rightarrow> u8 \<Rightarrow> u8 \<Rightarrow> mac option \<Rightarrow> u16 \<Rightarrow> 'st batadv_node \<Rightarrow> 'st batadv_node \<times> int" where
  "batadv_send_skb_via_tt_generic env junk skb packet_type packet_subtype dst_hint vid nd =
     (let src = (case dst_hint of None \<Rightarrow> Some (mac_at skb 6) | Some _ \<Rightarrow> None);
          dst = (case dst_hint of None \<Rightarrow> mac_at skb 0 | Some h \<Rightarrow> h)
      in batadv_send_skb_unicast env junk skb packet_type packet_subtype (re_transtable_search env src dst vid) vid nd)"

definition batadv_tvlv_unicast_send ::
    "rt_env \<Rightarrow> bool \<Rightarrow> mac \<Rightarrow> mac \<Rightarrow> u8 \<Rightarrow> u8 \<Rightarrow> u8 list \<Rightarrow> 'st batadv_node \<Rightarrow> 'st batadv_node" where
  "batadv_tvlv_unicast_send env alloc src dst type version tvlv_value nd =
     (if batadv_orig_hash_find (nd_priv nd) dst = None then nd
      else if \<not> alloc then nd
      else fst (batadv_send_skb_to_orig env (unicast_tvlv_packet src dst type version tvlv_value) dst BATADV_IF_DEFAULT nd))"

end
