(* ===== verification/Routing_Recv.thy ===== *)
theory Routing_Recv
  imports Routing
begin

text \<open>
  The receive handlers of \<^verbatim>\<open>routing.c\<close> and the dispatcher \<^verbatim>\<open>batadv_batman_skb_recv\<close>. Each handler
  gives the new node and whether the packet was consumed (\<^verbatim>\<open>NET_RX_SUCCESS\<close>) or is to be freed
  by the dispatcher (\<^verbatim>\<open>NET_RX_DROP\<close>).
\<close>

section \<open>Unicast packets\<close>

definition batadv_check_unicast_packet :: "rt_env \<Rightarrow> batadv_priv \<Rightarrow> rt_skb \<Rightarrow> nat \<Rightarrow> int" where
  "batadv_check_unicast_packet env st skb hdr_size =
     (if \<not> pull env (sk_data skb) hdr_size then - ENODATA
      else if sk_dest skb = -1 then - EBADR
      else if sk_source skb = -1 then - EBADR
      else if \<not> batadv_is_my_mac st (sk_dest skb) then - EREMOTE
      else 0)"

definition batadv_route_unicast_packet ::
    "rt_env \<Rightarrow> u8 list \<Rightarrow> iface \<Rightarrow> 'st batadv_node \<Rightarrow> 'st batadv_node \<times> int" where
  "batadv_route_unicast_packet env data recv_if nd =
     (if data ! 2 < 2 then (nd, NET_RX_DROP)
      else if batadv_orig_hash_find (nd_priv nd) (mac_at data 4) = None then (nd, NET_RX_DROP)
      else if \<not> re_ok env Site_cow_route then (nd, NET_RX_DROP)
      else (case batadv_send_skb_to_orig env (data[2 := data ! 2 - 1]) (mac_at data 4) (Some recv_if) nd of
              (nd, res) \<Rightarrow> (nd, if res = NET_XMIT_SUCCESS then NET_RX_SUCCESS else NET_RX_DROP)))"

text \<open>The new header, \<open>None\<close> if the packet stays as it is.\<close>

definition batadv_reroute_unicast_packet ::
    "rt_env \<Rightarrow> batadv_priv \<Rightarrow> u8 list \<Rightarrow> mac \<Rightarrow> u16 \<Rightarrow> u8 list option" where
  "batadv_reroute_unicast_packet env st data dst_addr vid =
     (let update = (\<lambda>addr ttvn. Some ((set_mac 4 addr data)[3 := ttvn])) in
      if re_is_my_client env dst_addr vid
      then (case primary_addr st of None \<Rightarrow> None | Some addr \<Rightarrow> update addr (re_tt_vn env))
      else (case re_transtable_search env None dst_addr vid of
              None \<Rightarrow> None
            | Some orig \<Rightarrow> if orig = mac_at data 4 then None else update orig (re_last_ttvn env orig)))"

text \<open>The packet with its header brought up to date, \<open>None\<close> if it is to be dropped.\<close>

definition batadv_check_unicast_ttvn :: "rt_env \<Rightarrow> batadv_priv \<Rightarrow> u8 list \<Rightarrow> nat \<Rightarrow> u8 list option" where
  "batadv_check_unicast_ttvn env st data hdr_len =
     (if \<not> pull env data (hdr_len + ETH_HLEN) then None
      else if \<not> re_ok env Site_cow_ttvn then None
      else
        let vid = batadv_get_vid env data hdr_len;
            h_dest = mac_at data hdr_len;
            dest = mac_at data 4
        in if re_local_roaming env h_dest vid
           then Some (case batadv_reroute_unicast_packet env st data h_dest vid of None \<Rightarrow> data | Some d \<Rightarrow> d)
           else if \<not> batadv_is_my_mac st dest \<and> batadv_orig_hash_find st dest = None then None
           else
             let curr_ttvn = (if batadv_is_my_mac st dest then re_tt_vn env else re_last_ttvn env dest)
             in if \<not> batadv_seq_before (data ! 3) curr_ttvn then Some data
                else (case batadv_reroute_unicast_packet env st data h_dest vid of
                        Some d \<Rightarrow> Some d
                      | None \<Rightarrow>
                          if \<not> re_is_my_client env h_dest vid then None
                          else (case primary_addr st of
                                  None \<Rightarrow> None
                                | Some addr \<Rightarrow> Some ((set_mac 4 addr data)[3 := curr_ttvn]))))"

definition batadv_recv_unhandled_unicast_packet ::
    "rt_env \<Rightarrow> rt_skb \<Rightarrow> iface \<Rightarrow> 'st batadv_node \<Rightarrow> 'st batadv_node \<times> int" where
  "batadv_recv_unhandled_unicast_packet env skb recv_if nd =
     (if batadv_check_unicast_packet env (nd_priv nd) skb UNICAST_HLEN < 0 then (nd, NET_RX_DROP)
      else if batadv_is_my_mac (nd_priv nd) (mac_at (sk_data skb) 4) then (nd, NET_RX_DROP)
      else batadv_route_unicast_packet env (sk_data skb) recv_if nd)"

text \<open>Delivery of a packet for this node, shared by the unicast and the broadcast handler.\<close>

definition deliver :: "rt_env \<Rightarrow> u8 list \<Rightarrow> nat \<Rightarrow> mac option \<Rightarrow> 'st batadv_node \<Rightarrow> 'st batadv_node" where
  "deliver env data hdr_size orig_node nd =
     (let nd = nd_event (Ev_Dat_Request data hdr_size) nd in
      if re_dat_request env data hdr_size then nd
      else
        let nd = nd_event (Ev_Dat_Reply data hdr_size) nd in
        if re_dat_reply env data hdr_size then nd
        else nd_event (Ev_Interface_Rx data hdr_size orig_node) nd)"

definition batadv_recv_unicast_packet ::
    "rt_env \<Rightarrow> rt_skb \<Rightarrow> iface \<Rightarrow> 'st batadv_node \<Rightarrow> 'st batadv_node \<times> int" where
  "batadv_recv_unicast_packet env skb recv_if nd =
     (let is4addr = (sk_data skb ! 0 = BATADV_UNICAST_4ADDR);
          hdr_size = (if is4addr then UNICAST_4ADDR_HLEN else UNICAST_HLEN)
      in if batadv_check_unicast_packet env (nd_priv nd) skb hdr_size < 0 then (nd, NET_RX_DROP)
         else (case batadv_check_unicast_ttvn env (nd_priv nd) (sk_data skb) hdr_size of
                 None \<Rightarrow> (nd, NET_RX_DROP)
               | Some data \<Rightarrow>
                   if batadv_is_my_mac (nd_priv nd) (mac_at data 4)
                   then (deliver env data hdr_size
                           (if is4addr \<and> data ! 16 = BATADV_P_DATA
                            then map_option on_orig (batadv_orig_hash_find (nd_priv nd) (mac_at data 10)) else None) nd,
                         NET_RX_SUCCESS)
                   else batadv_route_unicast_packet env data recv_if nd))"

text \<open>
  A call through a null pointer in the tvlv handlers would be a crash; unicast packets do not
  reach that code, so \<open>None\<close> does not arise.
\<close>

definition batadv_recv_unicast_tvlv ::
    "rt_env \<Rightarrow> rt_skb \<Rightarrow> iface \<Rightarrow> 'st batadv_node \<Rightarrow> 'st batadv_node \<times> int" where
  "batadv_recv_unicast_tvlv env skb recv_if nd =
     (if batadv_check_unicast_packet env (nd_priv nd) skb UNICAST_TVLV_HLEN < 0 then (nd, NET_RX_DROP)
      else if \<not> re_ok env Site_cow_tvlv then (nd, NET_RX_DROP)
      else if \<not> re_ok env Site_linearize then (nd, NET_RX_DROP)
      else
        let data = sk_data skb;
            tvlv_buff_len = unat (be_word (take 2 (drop 16 data)) :: u16)
        in if tvlv_buff_len > length data - UNICAST_TVLV_HLEN then (nd, NET_RX_DROP)
           else (case batadv_tvlv_containers_process False None (Some (mac_at data 10)) (Some (mac_at data 4))
                        (take tvlv_buff_len (drop UNICAST_TVLV_HLEN data)) (nd_tvlv nd) of
                   None \<Rightarrow> (nd, NET_RX_DROP)
                 | Some (tv, ret) \<Rightarrow>
                     let nd = nd\<lparr>nd_tvlv := tv\<rparr>
                     in if ret \<noteq> NET_RX_SUCCESS then batadv_route_unicast_packet env data recv_if nd
                        else (nd, NET_RX_SUCCESS)))"

section \<open>Control messages\<close>

text \<open>The answer to a packet: swapped addresses, a new type and a fresh time to live.\<close>

definition icmp_answer :: "mac \<Rightarrow> u8 \<Rightarrow> u8 list \<Rightarrow> u8 list" where
  "icmp_answer addr msg_type data =
     (set_mac 10 addr (set_mac 4 (mac_at data 10) data))[3 := msg_type, 2 := of_nat BATADV_TTL]"

definition icmp_send_answer ::
    "rt_env \<Rightarrow> u8 \<Rightarrow> u8 list \<Rightarrow> 'st batadv_node \<Rightarrow> 'st batadv_node \<times> int" where
  "icmp_send_answer env msg_type data nd =
     (case primary_addr (nd_priv nd) of
        None \<Rightarrow> (nd, NET_RX_DROP)
      | Some addr \<Rightarrow>
          if batadv_orig_hash_find (nd_priv nd) (mac_at data 10) = None then (nd, NET_RX_DROP)
          else if \<not> re_ok env Site_cow_icmp then (nd, NET_RX_DROP)
          else (case batadv_send_skb_to_orig env (icmp_answer addr msg_type data) (mac_at data 10) BATADV_IF_DEFAULT nd of
                  (nd, res) \<Rightarrow> (nd, if res \<noteq> NET_XMIT_DROP then NET_RX_SUCCESS else NET_RX_DROP)))"

definition batadv_recv_my_icmp_packet ::
    "rt_env \<Rightarrow> u8 list \<Rightarrow> 'st batadv_node \<Rightarrow> 'st batadv_node \<times> int" where
  "batadv_recv_my_icmp_packet env data nd =
     (if data ! 3 \<in> {BATADV_ECHO_REPLY, BATADV_DESTINATION_UNREACHABLE, BATADV_TTL_EXCEEDED}
      then (if re_ok env Site_linearize then nd_event (Ev_Socket data) nd else nd, NET_RX_DROP)
      else if data ! 3 = BATADV_ECHO_REQUEST then icmp_send_answer env BATADV_ECHO_REPLY data nd
      else (nd, NET_RX_DROP))"

definition batadv_recv_icmp_ttl_exceeded ::
    "rt_env \<Rightarrow> u8 list \<Rightarrow> 'st batadv_node \<Rightarrow> 'st batadv_node \<times> int" where
  "batadv_recv_icmp_ttl_exceeded env data nd =
     (if data ! 3 \<noteq> BATADV_ECHO_REQUEST then (nd, NET_RX_DROP)
      else icmp_send_answer env BATADV_TTL_EXCEEDED data nd)"

text \<open>The route record: \<open>None\<close> if the packet is dropped.\<close>

definition icmp_record_route :: "rt_env \<Rightarrow> mac \<Rightarrow> u8 list \<Rightarrow> u8 list option" where
  "icmp_record_route env addr data =
     (if (data ! 3 = BATADV_ECHO_REPLY \<or> data ! 3 = BATADV_ECHO_REQUEST) \<and> ICMP_RR_LEN \<le> length data
      then if \<not> re_ok env Site_linearize then None
           else if \<not> re_ok env Site_cow_rr then None
           else if data ! 17 \<ge> of_nat BATADV_RR_LEN then None
           else Some ((set_mac (20 + 6 * unat (data ! 17)) addr data)[17 := data ! 17 + 1])
      else Some data)"

definition batadv_recv_icmp_packet ::
    "rt_env \<Rightarrow> rt_skb \<Rightarrow> iface \<Rightarrow> 'st batadv_node \<Rightarrow> 'st batadv_node \<times> int" where
  "batadv_recv_icmp_packet env skb recv_if nd =
     (if \<not> pull env (sk_data skb) ICMP_HLEN then (nd, NET_RX_DROP)
      else if sk_dest skb = -1 then (nd, NET_RX_DROP)
      else if sk_source skb = -1 then (nd, NET_RX_DROP)
      else if \<not> batadv_is_my_mac (nd_priv nd) (sk_dest skb) then (nd, NET_RX_DROP)
      else (case icmp_record_route env (sk_dest skb) (sk_data skb) of
              None \<Rightarrow> (nd, NET_RX_DROP)
            | Some data \<Rightarrow>
                if batadv_is_my_mac (nd_priv nd) (mac_at data 4) then batadv_recv_my_icmp_packet env data nd
                else if data ! 2 < 2 then batadv_recv_icmp_ttl_exceeded env data nd
                else if batadv_orig_hash_find (nd_priv nd) (mac_at data 4) = None then (nd, NET_RX_DROP)
                else if \<not> re_ok env Site_cow_icmp then (nd, NET_RX_DROP)
                else (case batadv_send_skb_to_orig env (data[2 := data ! 2 - 1]) (mac_at data 4) (Some recv_if) nd of
                        (nd, res) \<Rightarrow> (nd, if res \<noteq> NET_XMIT_DROP then NET_RX_SUCCESS else NET_RX_DROP))))"

section \<open>Broadcasts\<close>

definition batadv_recv_bcast_packet ::
    "rt_env \<Rightarrow> rt_skb \<Rightarrow> iface \<Rightarrow> 'st batadv_node \<Rightarrow> 'st batadv_node \<times> int" where
  "batadv_recv_bcast_packet env skb recv_if nd =
     (let data = sk_data skb; st = nd_priv nd; orig = mac_at data 8 in
      if \<not> pull env data BCAST_HLEN then (nd, NET_RX_DROP)
      else if sk_dest skb \<noteq> -1 then (nd, NET_RX_DROP)
      else if sk_source skb = -1 then (nd, NET_RX_DROP)
      else if batadv_is_my_mac st (sk_source skb) then (nd, NET_RX_DROP)
      else if batadv_is_my_mac st orig then (nd, NET_RX_DROP)
      else if data ! 2 < 2 then (nd, NET_RX_DROP)
      else if batadv_orig_hash_find st orig = None then (nd, NET_RX_DROP)
      else
        (case bcast_seqno_accept (re_m2j env) (re_now env) (nd_bcast nd orig) (be_word (take 4 (drop 4 data))) of
           (w, new) \<Rightarrow>
             let nd = nd\<lparr>nd_bcast := (nd_bcast nd)(orig := w)\<rparr>
             in if \<not> new then (nd, NET_RX_DROP)
                else
                  let nd = nd_event (Ev_Bla_Duplist data) nd in
                  if re_bla_duplist env data then (nd, NET_RX_DROP)
                  else
                  let nd = nd\<lparr>nd_priv := fst (batadv_add_bcast_packet_to_list (re_alloc env) (re_junk env) data (nd_priv nd))\<rparr>
                  in if re_bla_backbone_gw env data orig BCAST_HLEN then (nd, NET_RX_DROP)
                     else (deliver env data BCAST_HLEN (Some orig) nd, NET_RX_SUCCESS)))"

section \<open>Fragments and the dispatcher\<close>

text \<open>
  The first part of \<^verbatim>\<open>batadv_recv_frag_packet\<close>: the packet is refused, consumed, or merged into a
  packet that is received next. A panic in the merge is noted in \<open>bp_panic\<close>.
\<close>

datatype frag_outcome = Frag_Refused | Frag_Consumed | Frag_Whole "u8 list"

definition frag_forward ::
    "rt_env \<Rightarrow> frag_skb \<Rightarrow> iface \<Rightarrow> 'st batadv_node \<Rightarrow> 'st batadv_node \<times> bool" where
  "frag_forward env skb recv_if nd =
     (let st = nd_priv nd;
          dest = fp_dest (fs_hdr skb);
          router = (\<lambda>on. case batadv_orig_router_get on (Some recv_if) of
                      None \<Rightarrow> None
                    | Some n \<Rightarrow> Some (nat (hi_mtu (bp_iface st (nn_if_incoming (on_neigh on n))))))
      in case batadv_frag_skb_fwd (batadv_orig_hash_find st) router skb of
           (True, Some skb) \<Rightarrow>
             (case batadv_orig_router_get (orig_at st dest) (Some recv_if) of
                None \<Rightarrow> (nd, True)
              | Some n \<Rightarrow> (fst (batadv_send_unicast_skb env (frag_skb_bytes skb) (on_neigh (orig_at st dest) n) nd), True))
         | (b, _) \<Rightarrow> (nd, b))"

definition frag_store ::
    "rt_env \<Rightarrow> frag_skb \<Rightarrow> 'st batadv_node \<Rightarrow> 'st batadv_node \<times> frag_outcome" where
  "frag_store env skb nd =
     (let orig = fp_orig (fs_hdr skb) in
      case batadv_frag_skb_buffer (re_ok env Site_linearize) (re_ok env Site_frag_alloc) (re_expand_head env)
             (re_now env) (nd_fragments nd orig) skb of
        (r, fragments) \<Rightarrow>
          (nd\<lparr>nd_fragments := (nd_fragments nd)(orig := fragments),
              nd_priv := (nd_priv nd)\<lparr>bp_panic := bp_panic (nd_priv nd) \<or> r = Frag_Panic\<rparr>\<rparr>,
           case r of Frag_Error \<Rightarrow> Frag_Refused | Frag_Buffered \<Rightarrow> Frag_Consumed | Frag_Merged data \<Rightarrow> Frag_Whole data
             | Frag_Panic \<Rightarrow> Frag_Refused))"

definition batadv_recv_frag_packet ::
    "rt_env \<Rightarrow> rt_skb \<Rightarrow> iface \<Rightarrow> 'st batadv_node \<Rightarrow> 'st batadv_node \<times> frag_outcome" where
  "batadv_recv_frag_packet env skb recv_if nd =
     (if batadv_check_unicast_packet env (nd_priv nd) skb frag_hdr_size < 0 then (nd, Frag_Refused)
      else
        let frag = frag_skb_of (re_tailroom env) (sk_data skb);
            st = nd_priv nd
        in if batadv_orig_hash_find st (fp_orig (fs_hdr frag)) = None then (nd, Frag_Refused)
           else (case (if batadv_is_my_mac st (fp_dest (fs_hdr frag)) then (nd, False) else frag_forward env frag recv_if nd) of
                   (nd, True) \<Rightarrow> (nd, Frag_Consumed)
                 | (nd, False) \<Rightarrow> frag_store env frag nd))"

definition batadv_recv_handler_init :: "u8 \<Rightarrow> rx_handler" where
  "batadv_recv_handler_init =
     (\<lambda>t. if 0x40 \<le> t \<and> t \<le> 0x7f then Batadv_recv_unhandled_unicast_packet else Batadv_recv_unhandled_packet)
     (0x01 := Batadv_recv_bcast_packet, BATADV_UNICAST_4ADDR := Batadv_recv_unicast_packet,
      BATADV_UNICAST := Batadv_recv_unicast_packet, BATADV_UNICAST_TVLV := Batadv_recv_unicast_tvlv,
      0x43 := Batadv_recv_icmp_packet, BATADV_UNICAST_FRAG := Batadv_recv_frag_packet)"

definition batadv_recv_handler_register ::
    "u8 \<Rightarrow> rx_handler \<Rightarrow> (u8 \<Rightarrow> rx_handler) \<Rightarrow> (u8 \<Rightarrow> rx_handler) \<times> int" where
  "batadv_recv_handler_register packet_type recv_handler rx =
     (let curr = rx packet_type in
      if curr \<noteq> Batadv_recv_unhandled_packet \<and> curr \<noteq> Batadv_recv_unhandled_unicast_packet then (rx, - EBUSY)
      else (rx(packet_type := recv_handler), 0))"

definition batadv_recv_handler_unregister :: "u8 \<Rightarrow> (u8 \<Rightarrow> rx_handler) \<Rightarrow> u8 \<Rightarrow> rx_handler" where
  "batadv_recv_handler_unregister packet_type rx = rx(packet_type := Batadv_recv_unhandled_packet)"

text \<open>The checks of \<^verbatim>\<open>batadv_batman_skb_recv\<close> in front of the handler.\<close>

definition recv_admitted :: "rt_env \<Rightarrow> rt_skb \<Rightarrow> iface \<Rightarrow> batadv_priv \<Rightarrow> bool" where
  "recv_admitted env skb hard_iface st \<longleftrightarrow>
     re_ok env Site_share \<and> pull env (sk_data skb) 2 \<and> sk_mac_len skb = ETH_HLEN
     \<and> hi_soft_iface (bp_iface st hard_iface) \<noteq> None \<and> bp_mesh_state st = BATADV_MESH_ACTIVE
     \<and> hi_if_status (bp_iface st hard_iface) = BATADV_IF_ACTIVE
     \<and> sk_data skb ! 1 = BATADV_COMPAT_VERSION"

definition recv_ogm :: "rt_env \<Rightarrow> rt_skb \<Rightarrow> iface \<Rightarrow> 'st batadv_node \<Rightarrow> 'st batadv_node" where
  "recv_ogm env skb recv_if nd =
     nd\<lparr>nd_priv := fst (batadv_iv_ogm_receive (re_alloc env) (re_m2j env) (re_now env) (re_rnd env)
       (re_ok env (Site_pull 24)) (re_ok env Site_cow_ogm) (re_ok env Site_linearize) True (sk_dest skb) (sk_source skb)
       (re_past env) (sk_data skb) recv_if (nd_priv nd))\<rparr>"

text \<open>
  A merged packet goes through the dispatcher again, and can be a fragment itself. \<open>fuel\<close> bounds
  this nesting; \<open>None\<close> is only returned when it runs out. The merged packet has the
  Ethernet header of the fragment whose buffer it uses, in the model any two addresses.
\<close>

fun batadv_batman_skb_recv ::
    "nat \<Rightarrow> rt_env \<Rightarrow> rt_skb \<Rightarrow> iface \<Rightarrow> 'st batadv_node \<Rightarrow> 'st batadv_node option" where
  "batadv_batman_skb_recv 0 env skb hard_iface nd = None"
| "batadv_batman_skb_recv (Suc fuel) env skb hard_iface nd =
     (if \<not> recv_admitted env skb hard_iface (nd_priv nd) then Some nd
      else (case nd_rx_handler nd (sk_data skb ! 0) of
              Batadv_recv_unhandled_packet \<Rightarrow> Some nd
            | Batadv_recv_unhandled_unicast_packet \<Rightarrow> Some (fst (batadv_recv_unhandled_unicast_packet env skb hard_iface nd))
            | Batadv_recv_bcast_packet \<Rightarrow> Some (fst (batadv_recv_bcast_packet env skb hard_iface nd))
            | Batadv_recv_unicast_packet \<Rightarrow> Some (fst (batadv_recv_unicast_packet env skb hard_iface nd))
            | Batadv_recv_unicast_tvlv \<Rightarrow> Some (fst (batadv_recv_unicast_tvlv env skb hard_iface nd))
            | Batadv_recv_icmp_packet \<Rightarrow> Some (fst (batadv_recv_icmp_packet env skb hard_iface nd))
            | Batadv_iv_ogm_receive \<Rightarrow> Some (recv_ogm env skb hard_iface nd)
            | Batadv_recv_frag_packet \<Rightarrow>
                (case batadv_recv_frag_packet env skb hard_iface nd of
                   (nd, Frag_Whole data) \<Rightarrow> batadv_batman_skb_recv fuel env 
                       (skb\<lparr>sk_data := data, sk_dest := re_merged_dest env, sk_source := re_merged_source env\<rparr>)
                       hard_iface nd
                 | (nd, _) \<Rightarrow> Some nd)))"

end
