(* ===== verification/Tvlv_Props.thy ===== *)
theory Tvlv_Props
  imports Tvlv
begin

text \<open>
  What the containers promise: a container that one node registers arrives at the handlers of
  the others with the content it was registered with, each handler that asks for it is told when
  its container is missing, damaged containers end the reading of a packet and touch nothing
  else, and the lists of containers and handlers are maps from type and version.
\<close>

section \<open>Writing\<close>

definition container_ok :: "batadv_tvlv_container \<Rightarrow> bool" where
  "container_ok c \<longleftrightarrow> length (tc_value c) = unat (tc_len c)"

definition tvlv_bytes :: "batadv_tvlv_container \<Rightarrow> u8 list" where
  "tvlv_bytes c = tvlv_hdr_bytes (tc_type c) (tc_version c) (tc_len c) @ tc_value c"

definition tvlv_size :: "batadv_tvlv_container list \<Rightarrow> nat" where
  "tvlv_size cs = (\<Sum>c\<leftarrow>cs. TVLV_HDR_LEN + unat (tc_len c))"

lemma length_tvlv_hdr_bytes [simp]: "length (tvlv_hdr_bytes t v l) = 4"
  by (simp add: tvlv_hdr_bytes_def)

lemma length_tvlv_bytes [simp]: "container_ok c \<Longrightarrow> length (tvlv_bytes c) = 4 + unat (tc_len c)"
  by (simp add: tvlv_bytes_def container_ok_def)

lemma length_concat_tvlv [simp]:
  "list_all container_ok cs \<Longrightarrow> length (concat (map tvlv_bytes cs)) = tvlv_size cs"
  by (induction cs) (simp_all add: tvlv_size_def)

lemma tvlv_size_simps [simp]:
  "tvlv_size [] = 0" "tvlv_size (c # cs) = 4 + unat (tc_len c) + tvlv_size cs"
  by (simp_all add: tvlv_size_def)

lemma tvlv_size_pos: "cs \<noteq> [] \<Longrightarrow> 0 < tvlv_size cs"
  by (cases cs) simp_all

lemma wr_bytes_wr_bytes:
  assumes "j = i + length xs" "j + length ys \<le> length data"
  shows "wr_bytes (wr_bytes data i xs) j ys = wr_bytes data i (xs @ ys)"
  using assms by (simp add: wr_bytes_def ac_simps)

lemma tvlv_write_eq:
  assumes "list_all container_ok cs" "pos + tvlv_size cs \<le> length buff"
  shows "tvlv_write cs pos buff = wr_bytes buff pos (concat (map tvlv_bytes cs))"
  using assms
proof (induction cs arbitrary: pos buff)
  case Nil
  then show ?case by (simp add: wr_bytes_def)
next
  case (Cons c cs)
  then have c: "length (tc_value c) = unat (tc_len c)" by (simp add: container_ok_def)
  have "tvlv_write (c # cs) pos buff
      = tvlv_write cs (pos + 4 + unat (tc_len c)) (wr_bytes buff pos (tvlv_bytes c))"
    using Cons.prems c by (simp add: wr_bytes_wr_bytes tvlv_bytes_def)
  also have "\<dots> = wr_bytes (wr_bytes buff pos (tvlv_bytes c)) (pos + 4 + unat (tc_len c)) (concat (map tvlv_bytes cs))"
    using Cons.prems by (intro Cons.IH) simp_all
  also have "\<dots> = wr_bytes buff pos (concat (map tvlv_bytes (c # cs)))"
    using Cons.prems by (simp add: wr_bytes_wr_bytes)
  finally show ?case .
qed

lemma list_size_eq: "batadv_tvlv_container_list_size tv = of_nat (tvlv_size (tv_container_list tv))"
proof -
  have "foldl (\<lambda>l c. l + of_nat 4 + tc_len c) a cs = a + of_nat (tvlv_size cs)" for a cs
    by (induction cs arbitrary: a) (simp_all add: algebra_simps)
  then show ?thesis by (simp add: batadv_tvlv_container_list_size_def)
qed

lemma unat_list_size:
  "tvlv_size (tv_container_list tv) < 65536 \<Longrightarrow>
    unat (batadv_tvlv_container_list_size tv) = tvlv_size (tv_container_list tv)"
  by (simp add: list_size_eq unat_of_nat take_bit_nat_eq_self)

lemma ogm_append_eq:
  assumes "list_all container_ok (tv_container_list tv)" "tvlv_size (tv_container_list tv) < 65536"
    "n \<le> length buff"
  shows "batadv_tvlv_container_ogm_append True junk tv buff n =
    (take n buff @ concat (map tvlv_bytes (tv_container_list tv)), of_nat (tvlv_size (tv_container_list tv)))"
proof (cases "tv_container_list tv = []")
  case True
  then show ?thesis
    by (simp add: batadv_tvlv_container_ogm_append_def batadv_tvlv_realloc_packet_buff_def list_size_eq)
next
  case False
  then have "batadv_tvlv_container_list_size tv \<noteq> 0"
    using unat_list_size [OF assms(2)] tvlv_size_pos by (metis unat_0 less_numeral_extra(3))
  then show ?thesis
    using assms unat_list_size [OF assms(2)]
    by (simp add: batadv_tvlv_container_ogm_append_def batadv_tvlv_realloc_packet_buff_def tvlv_write_eq
        wr_bytes_def list_size_eq Let_def)
qed

section \<open>Reading\<close>

text \<open>The call for one container.\<close>

definition tvlv_call ::
    "bool \<Rightarrow> mac option \<Rightarrow> mac option \<Rightarrow> mac option \<Rightarrow> batadv_tvlv_container \<Rightarrow> 'st batadv_priv_tvlv
      \<Rightarrow> 'st batadv_priv_tvlv \<times> int" where
  "tvlv_call ogm_source orig_node src dst c tv =
     batadv_tvlv_call_handler (batadv_tvlv_handler_get tv (tc_type c) (tc_version c)) ogm_source
       orig_node src dst (tc_value c) tv"

fun tvlv_calls ::
    "bool \<Rightarrow> mac option \<Rightarrow> mac option \<Rightarrow> mac option \<Rightarrow> batadv_tvlv_container list \<Rightarrow> 'st batadv_priv_tvlv \<Rightarrow> int
      \<Rightarrow> 'st batadv_priv_tvlv \<times> int" where
  "tvlv_calls ogm_source orig_node src dst [] tv ret = (tv, ret)"
| "tvlv_calls ogm_source orig_node src dst (c # cs) tv ret =
     (let (tv, r) = tvlv_call ogm_source orig_node src dst c tv
      in tvlv_calls ogm_source orig_node src dst cs tv (ret OR r))"

lemma tvlv_parse_one:
  assumes "container_ok c"
  shows "tvlv_parse og orig src dst (tvlv_bytes c @ rest) tv ret =
    (let (tv, r) = tvlv_call og orig src dst c tv in tvlv_parse og orig src dst rest tv (ret OR r))"
proof -
  have hdr: "tvlv_bytes c @ rest = [tc_type c, tc_version c] @ be_bytes 2 (tc_len c) @ tc_value c @ rest"
    by (simp add: tvlv_bytes_def tvlv_hdr_bytes_def)
  have len: "unat (be_word (take 2 (drop 2 (tvlv_bytes c @ rest))) :: u16) = length (tc_value c)"
    using assms unfolding hdr by (simp add: container_ok_def)
  have body: "drop 4 (tvlv_bytes c @ rest) = tc_value c @ rest"
    unfolding hdr by (simp add: numeral_eq_Suc)
  have nth: "(tvlv_bytes c @ rest) ! 0 = tc_type c" "(tvlv_bytes c @ rest) ! 1 = tc_version c"
    unfolding hdr by simp_all
  have big: "\<not> length (tvlv_bytes c @ rest) < 4"
    using assms by simp
  show ?thesis
    using big nth(2) [unfolded One_nat_def]
    by (subst tvlv_parse.simps)
      (simp add: Let_def len body nth tvlv_call_def del: length_append take_append drop_append, simp)
qed

lemma tvlv_parse_calls:
  "list_all container_ok cs \<Longrightarrow>
    tvlv_parse og orig src dst (concat (map tvlv_bytes cs) @ rest) tv ret =
    (let (tv, ret) = tvlv_calls og orig src dst cs tv ret in tvlv_parse og orig src dst rest tv ret)"
  by (induction cs arbitrary: tv ret) (simp_all add: tvlv_parse_one split: prod.splits)

text \<open>What ends the reading: fewer bytes than a header, or a length that exceeds what is left.\<close>

definition tvlv_damaged :: "u8 list \<Rightarrow> bool" where
  "tvlv_damaged bs \<longleftrightarrow> length bs < 4 \<or> length bs < 4 + unat (be_word (take 2 (drop 2 bs)) :: u16)"

lemma tvlv_parse_damaged: "tvlv_damaged bs \<Longrightarrow> tvlv_parse og orig src dst bs tv ret = (tv, ret)"
  by (subst tvlv_parse.simps) (auto simp: tvlv_damaged_def Let_def)

section \<open>Calls for a message\<close>

text \<open>
  The intended effect of a message on the components, without headers, lengths and marks: the
  containers in their order, then those handlers that ask for it and have no container.
\<close>

definition handler_key :: "'st batadv_tvlv_handler \<Rightarrow> u8 \<times> u8" where
  "handler_key h = (th_type h, th_version h)"

definition container_key :: "batadv_tvlv_container \<Rightarrow> u8 \<times> u8" where
  "container_key c = (tc_type c, tc_version c)"

definition announced :: "mac option \<Rightarrow> 'st batadv_tvlv_handler list \<Rightarrow> batadv_tvlv_container \<Rightarrow> 'st \<Rightarrow> 'st" where
  "announced orig hs c cl =
     (case List.find (\<lambda>h. handler_key h = container_key c) hs of
        None \<Rightarrow> cl
      | Some h \<Rightarrow> (case th_ogm_handler h of None \<Rightarrow> cl | Some f \<Rightarrow> f cl orig BATADV_NO_FLAGS (tc_value c)))"

definition missed :: "mac option \<Rightarrow> (u8 \<times> u8) set \<Rightarrow> 'st batadv_tvlv_handler \<Rightarrow> 'st \<Rightarrow> 'st" where
  "missed orig keys h cl =
     (if th_flags h AND BATADV_TVLV_HANDLER_OGM_CIFNOTFND \<noteq> 0 \<and> handler_key h \<notin> keys
      then the (th_ogm_handler h) cl orig BATADV_TVLV_HANDLER_OGM_CIFNOTFND []
      else cl)"

definition announce ::
    "mac option \<Rightarrow> batadv_tvlv_container list \<Rightarrow> 'st batadv_tvlv_handler list \<Rightarrow> 'st \<Rightarrow> 'st" where
  "announce orig cs hs cl = fold (missed orig (container_key ` set cs)) hs (fold (announced orig hs) cs cl)"

definition handlers_ok :: "'st batadv_tvlv_handler list \<Rightarrow> bool" where
  "handlers_ok hs \<longleftrightarrow> distinct (map handler_key hs)
     \<and> list_all (\<lambda>h. th_flags h AND BATADV_TVLV_HANDLER_OGM_CALLED = 0
          \<and> (th_flags h AND BATADV_TVLV_HANDLER_OGM_CIFNOTFND \<noteq> 0 \<longrightarrow> th_ogm_handler h \<noteq> None)) hs"

definition marked :: "(u8 \<times> u8) set \<Rightarrow> 'st batadv_tvlv_handler \<Rightarrow> 'st batadv_tvlv_handler" where
  "marked keys h =
     (if handler_key h \<in> keys \<and> th_ogm_handler h \<noteq> None
      then h\<lparr>th_flags := th_flags h OR BATADV_TVLV_HANDLER_OGM_CALLED\<rparr> else h)"

lemma marked_simps [simp]:
  "th_ogm_handler (marked ks h) = th_ogm_handler h" "handler_key (marked ks h) = handler_key h"
  "th_type (marked ks h) = th_type h" "th_version (marked ks h) = th_version h"
  by (simp_all add: marked_def handler_key_def)

lemma handler_matches_key: "handler_matches t v h \<longleftrightarrow> handler_key h = (t, v)"
  by (simp add: handler_matches_def handler_key_def)

lemma handler_get_key:
  "batadv_tvlv_handler_get tv t v = List.find (\<lambda>h. handler_key h = (t, v)) (tv_handler_list tv)"
  by (simp add: batadv_tvlv_handler_get_def handler_matches_key [abs_def])

lemma flag_or_idem: "(w OR v) OR v = w OR (v :: u8)"
  by (simp add: or.assoc)

lemma marked_marked: "marked {k} (marked ks h) = marked (insert k ks) h"
  by (auto simp: marked_def handler_key_def flag_or_idem)

lemma mark_called_map:
  assumes "distinct (map handler_key hs)" "\<And>h. h \<in> set hs \<Longrightarrow> handler_key h = (t, v) \<Longrightarrow> th_ogm_handler h \<noteq> None"
  shows "mark_called t v hs = map (marked {(t, v)}) hs"
  using assms
proof (induction hs)
  case Nil
  then show ?case by simp
next
  case (Cons h hs)
  have "map (marked {(t, v)}) hs = hs" if "handler_key h = (t, v)"
    using Cons.prems that by (intro map_idI) (auto simp: marked_def image_iff)
  moreover have "mark_called t v hs = map (marked {(t, v)}) hs"
    using Cons by simp
  ultimately show ?case
    using Cons.prems(2) [of h] by (auto simp: marked_def [of _ h] handler_matches_key)
qed

lemma find_marked:
  "List.find (\<lambda>h. handler_key h = k) (map (marked ks) hs) = map_option (marked ks) (List.find (\<lambda>h. handler_key h = k) hs)"
  by (induction hs) simp_all

text \<open>A handler without a callback for messages is not marked, which makes no difference to it.\<close>

lemma tvlv_call_announced:
  assumes "handlers_ok hs" "tv_handler_list tv = map (marked ks) hs"
  shows "tvlv_call True (Some orig) None None c tv =
    (tv\<lparr>tv_clients := announced (Some orig) hs c (tv_clients tv),
        tv_handler_list := map (marked (insert (container_key c) ks)) hs\<rparr>, 0)"
proof (cases "List.find (\<lambda>h. handler_key h = container_key c) hs")
  case None
  then have "map (marked (insert (container_key c) ks)) hs = map (marked ks) hs"
    by (auto simp: marked_def find_None_iff)
  with None assms show ?thesis
    by (simp add: tvlv_call_def handler_get_key find_marked batadv_tvlv_call_handler_def
        announced_def container_key_def)
next
  case (Some h)
  have h: "h \<in> set hs" "handler_key h = container_key c"
    using find_SomeD [OF Some] by simp_all
  have d: "distinct (map handler_key hs)"
    using assms(1) by (simp add: handlers_ok_def)
  have only: "g = h" if "g \<in> set hs" "handler_key g = container_key c" for g
    using inj_onD [of handler_key "set hs" g h] d h that by (simp add: distinct_map)
  have type: "th_type h = tc_type c" "th_version h = tc_version c"
    using h by (simp_all add: handler_key_def container_key_def)
  have get: "batadv_tvlv_handler_get tv (tc_type c) (tc_version c) = Some (marked ks h)"
    using Some assms(2) by (simp add: handler_get_key find_marked container_key_def)
  show ?thesis
  proof (cases "th_ogm_handler h")
    case None
    then have "map (marked (insert (container_key c) ks)) hs = map (marked ks) hs"
      using only by (auto simp: marked_def)
    then show ?thesis
      using Some None get assms(2) by (simp add: tvlv_call_def batadv_tvlv_call_handler_def announced_def)
  next
    case (Some f)
    have "mark_called (tc_type c) (tc_version c) (map (marked ks) hs)
        = map (marked {(tc_type c, tc_version c)}) (map (marked ks) hs)"
      using d only Some by (intro mark_called_map) (auto simp: comp_def container_key_def)
    also have "\<dots> = map (marked (insert (container_key c) ks)) hs"
      by (simp add: marked_marked comp_def container_key_def)
    finally show ?thesis
      using \<open>List.find _ hs = Some h\<close> Some get assms(2) type
      by (simp add: tvlv_call_def batadv_tvlv_call_handler_def announced_def)
  qed
qed

lemma tvlv_calls_announced:
  assumes "handlers_ok hs" "tv_handler_list tv = map (marked ks) hs"
  shows "tvlv_calls True (Some orig) None None cs tv 0 =
    (tv\<lparr>tv_clients := fold (announced (Some orig) hs) cs (tv_clients tv),
        tv_handler_list := map (marked (container_key ` set cs \<union> ks)) hs\<rparr>, 0)"
  using assms(2)
proof (induction cs arbitrary: tv ks)
  case Nil
  then show ?case by simp
next
  case (Cons c cs)
  let ?tv = "tv\<lparr>tv_clients := announced (Some orig) hs c (tv_clients tv),
        tv_handler_list := map (marked (insert (container_key c) ks)) hs\<rparr>"
  have "tvlv_calls True (Some orig) None None cs ?tv 0 = (?tv\<lparr>tv_clients := fold (announced (Some orig) hs) cs (tv_clients ?tv),
        tv_handler_list := map (marked (container_key ` set cs \<union> insert (container_key c) ks)) hs\<rparr>, 0)"
    by (rule Cons.IH) simp
  then show ?case
    by (simp add: tvlv_call_announced [OF assms(1) Cons.prems])
qed

lemma flags_mark:
  "((w :: u8) OR 4) AND 4 \<noteq> 0" "(w OR 4) AND 2 = w AND 2" "w AND 4 = 0 \<Longrightarrow> (w OR 4) AND NOT 4 = w"
  "w AND 4 = 0 \<Longrightarrow> w AND NOT 4 = w"
proof -
  have "((w OR 4) AND 4) = (4 :: u8)" by (rule bit_word_eqI) (auto simp: bit_simps)
  then show "(w OR 4) AND 4 \<noteq> 0" by simp
  show "(w OR 4) AND 2 = w AND 2"
    by (simp add: bit.conj_disj_distrib2)
  assume "w AND 4 = 0"
  then have w: "\<not> (bit w n \<and> bit (4 :: u8) n)" for n
    by (metis bit_0_eq bit_and_iff bot_apply bot_bool_def)
  show "(w OR 4) AND NOT 4 = w" "w AND NOT 4 = w"
    by (rule bit_word_eqI; use w in \<open>auto simp: bit_simps\<close>)+
qed

lemma marked_flags:
  assumes "th_flags h AND 4 = 0"
  shows "(marked ks h)\<lparr>th_flags := th_flags (marked ks h) AND NOT 4\<rparr> = h"
    "th_flags (marked ks h) AND 2 = th_flags h AND 2"
    "th_flags (marked ks h) AND 4 = 0 \<longleftrightarrow> \<not> (handler_key h \<in> ks \<and> th_ogm_handler h \<noteq> None)"
  using assms flags_mark [of "th_flags h"] by (simp_all add: marked_def)

lemma tvlv_not_found_marked:
  assumes "list_all (\<lambda>h. th_flags h AND 4 = 0 \<and> (th_flags h AND 2 \<noteq> 0 \<longrightarrow> th_ogm_handler h \<noteq> None)) hs"
  shows "tvlv_not_found orig (map (marked ks) hs) cl = Some (hs, fold (missed orig ks) hs cl)"
  using assms
proof (induction hs arbitrary: cl)
  case Nil
  then show ?case by simp
next
  case (Cons h hs)
  then show ?case
    by (auto simp: missed_def [of _ _ h] Let_def marked_flags [simplified])
qed

lemma ogm_process_announce:
  assumes "handlers_ok (tv_handler_list tv)" "list_all container_ok cs" "tvlv_damaged rest"
  shows "batadv_tvlv_containers_process True (Some orig) None None (concat (map tvlv_bytes cs) @ rest) tv =
    Some (tv\<lparr>tv_clients := announce (Some orig) cs (tv_handler_list tv) (tv_clients tv)\<rparr>, 0)"
proof -
  have "map (marked {}) hs = hs" for hs :: "'a batadv_tvlv_handler list"
    by (intro map_idI) (simp add: marked_def)
  then have calls: "tvlv_calls True (Some orig) None None cs tv 0 =
      (tv\<lparr>tv_clients := fold (announced (Some orig) (tv_handler_list tv)) cs (tv_clients tv),
        tv_handler_list := map (marked (container_key ` set cs)) (tv_handler_list tv)\<rparr>, 0)"
    using tvlv_calls_announced [OF assms(1), of tv "{}"] by simp
  show ?thesis
    using assms
    by (simp add: batadv_tvlv_containers_process_def tvlv_parse_calls calls tvlv_parse_damaged tvlv_not_found_marked
        handlers_ok_def announce_def)
qed

section \<open>Containers and handlers as maps\<close>

lemma find_remove1_key:
  assumes "distinct (map f xs)" "List.find (\<lambda>x. f x = k) xs = Some x"
  shows "List.find (\<lambda>y. f y = k') (remove1 x xs) = (if k' = k then None else List.find (\<lambda>y. f y = k') xs)"
  using assms by (induction xs) (auto split: if_splits simp: find_None_iff image_iff dest: find_SomeD)

lemma distinct_map_remove1: "distinct (map f xs) \<Longrightarrow> distinct (map f (remove1 x xs))"
  by (induction xs) (auto dest: subsetD [OF set_remove1_subset])

definition containers_ok :: "'st batadv_priv_tvlv \<Rightarrow> bool" where
  "containers_ok tv \<longleftrightarrow> distinct (map container_key (tv_container_list tv)) \<and> list_all container_ok (tv_container_list tv)"

lemma container_get_key:
  "batadv_tvlv_container_get tv t v = List.find (\<lambda>c. container_key c = (t, v)) (tv_container_list tv)"
  by (simp add: batadv_tvlv_container_get_def container_key_def)

lemma container_unregister_get:
  assumes "containers_ok tv"
  shows "batadv_tvlv_container_get (batadv_tvlv_container_unregister t v tv) t' v' =
    (if (t', v') = (t, v) then None else batadv_tvlv_container_get tv t' v')"
  using assms find_remove1_key [of container_key "tv_container_list tv" "(t, v)"]
  by (auto simp: containers_ok_def batadv_tvlv_container_unregister_def batadv_tvlv_container_remove_def container_get_key
      split: option.splits)

lemma container_unregister_ok: "containers_ok tv \<Longrightarrow> containers_ok (batadv_tvlv_container_unregister t v tv)"
  using set_remove1_subset
  by (fastforce simp: containers_ok_def batadv_tvlv_container_unregister_def batadv_tvlv_container_remove_def list_all_iff
      distinct_map_remove1 split: option.splits)

text \<open>The container that a registration puts into the list.\<close>

definition registered :: "u8 \<Rightarrow> u8 \<Rightarrow> u8 list option \<Rightarrow> u16 \<Rightarrow> batadv_tvlv_container" where
  "registered type version value len =
     \<lparr>tc_type = type, tc_version = version, tc_len = (if value = None then 0 else len),
      tc_value = (case value of None \<Rightarrow> [] | Some v \<Rightarrow> take (unat len) v)\<rparr>"

lemma container_register_eq:
  "batadv_tvlv_container_register True t v val len tv =
    (let tv = batadv_tvlv_container_unregister t v tv
     in tv\<lparr>tv_container_list := registered t v val len # tv_container_list tv\<rparr>)"
  by (simp add: batadv_tvlv_container_register_def batadv_tvlv_container_unregister_def registered_def split: option.splits)

lemma container_register_ok:
  assumes "containers_ok tv" "\<forall>bs. val = Some bs \<longrightarrow> unat len \<le> length bs"
  shows "containers_ok (batadv_tvlv_container_register alloc t v val len tv)"
proof (cases alloc)
  case True
  let ?u = "batadv_tvlv_container_unregister t v tv"
  have "batadv_tvlv_container_get ?u t v = None"
    using container_unregister_get [OF assms(1)] by simp
  then have "(t, v) \<notin> container_key ` set (tv_container_list ?u)"
    by (auto simp: container_get_key find_None_iff)
  then show ?thesis
    using container_unregister_ok [OF assms(1), of t v] assms(2) True
    by (auto simp: container_register_eq containers_ok_def registered_def container_ok_def container_key_def Let_def
        split: option.splits)
qed (simp add: assms batadv_tvlv_container_register_def)

lemma container_register_get:
  assumes "containers_ok tv"
  shows "batadv_tvlv_container_get (batadv_tvlv_container_register True t v val len tv) t' v' =
    (if (t', v') = (t, v) then Some (registered t v val len) else batadv_tvlv_container_get tv t' v')"
  using container_unregister_get [OF assms, of t v t' v']
  by (auto simp: container_register_eq Let_def container_get_key container_key_def registered_def)

text \<open>
  The handlers are a keyed table in the sense of \<^verbatim>\<open>Interfaces\<close>: a registration for a type and
  version that is taken changes nothing.
\<close>

definition handler_add ::
    "'st batadv_priv_tvlv \<Rightarrow> 'st batadv_tvlv_handler \<Rightarrow> 'st batadv_priv_tvlv \<times> bool" where
  "handler_add tv h = (batadv_tvlv_handler_register True (th_ogm_handler h) (th_unicast_handler h) (th_type h)
     (th_version h) (th_flags h) tv, batadv_tvlv_handler_get tv (th_type h) (th_version h) = None)"

definition handler_del ::
    "'st batadv_priv_tvlv \<Rightarrow> u8 \<times> u8 \<Rightarrow> 'st batadv_priv_tvlv \<times> 'st batadv_tvlv_handler option" where
  "handler_del tv k = (batadv_tvlv_handler_unregister (fst k) (snd k) tv, batadv_tvlv_handler_get tv (fst k) (snd k))"

definition handler_find :: "'st batadv_priv_tvlv \<Rightarrow> u8 \<times> u8 \<Rightarrow> 'st batadv_tvlv_handler option" where
  "handler_find tv k = batadv_tvlv_handler_get tv (fst k) (snd k)"

definition handler_keys_ok :: "'st batadv_priv_tvlv \<Rightarrow> bool" where
  "handler_keys_ok tv \<longleftrightarrow> distinct (map handler_key (tv_handler_list tv))"

lemma drop_first_key:
  fixes f :: "'a \<Rightarrow> 'k"
  defines "rest k xs \<equiv> takeWhile (\<lambda>x. f x \<noteq> k) xs @ tl (dropWhile (\<lambda>x. f x \<noteq> k) xs)"
  assumes "distinct (map f xs)"
  shows "distinct (map f (rest k xs))" "set (rest k xs) \<subseteq> set xs"
    "k' \<noteq> k \<Longrightarrow> List.find (\<lambda>x. f x = k') (rest k xs) = List.find (\<lambda>x. f x = k') xs"
    "List.find (\<lambda>x. f x = k) (rest k xs) = None"
  using assms(2) unfolding rest_def
  by (induction xs) (auto simp: find_None_iff image_iff dest: set_takeWhileD)

lemma handler_unregister_list:
  "batadv_tvlv_handler_get tv t v \<noteq> None \<Longrightarrow> tv_handler_list (batadv_tvlv_handler_unregister t v tv) =
     takeWhile (\<lambda>h. handler_key h \<noteq> (t, v)) (tv_handler_list tv)
     @ tl (dropWhile (\<lambda>h. handler_key h \<noteq> (t, v)) (tv_handler_list tv))"
  by (auto simp: batadv_tvlv_handler_unregister_def handler_matches_key)

lemma handler_add_list:
  "tv_handler_list (fst (handler_add tv h)) =
    (if handler_find tv (handler_key h) = None then h # tv_handler_list tv else tv_handler_list tv)"
  by (auto simp: handler_add_def batadv_tvlv_handler_register_def handler_find_def handler_key_def split: option.splits)

lemma handler_find_key: "handler_find tv k = List.find (\<lambda>h. handler_key h = k) (tv_handler_list tv)"
  by (simp add: handler_find_def handler_get_key)

interpretation tvh: keyed_table handler_key handler_keys_ok handler_find handler_add handler_del
proof
  fix tv :: "'b batadv_priv_tvlv" and k h
  assume ok: "handler_keys_ok tv"
  show "handler_find tv k = Some h \<Longrightarrow> handler_key h = k"
    by (auto simp: handler_find_key dest: find_SomeD)
  show "handler_keys_ok (fst (handler_add tv h))"
    using ok by (auto simp: handler_keys_ok_def handler_add_list handler_find_key find_None_iff)
  show "handler_find tv (handler_key h) = None \<Longrightarrow>
      snd (handler_add tv h) \<and> handler_find (fst (handler_add tv h)) = (handler_find tv)(handler_key h \<mapsto> h)"
    by (auto simp: fun_eq_iff handler_find_key [of "fst _"] handler_add_list)
      (auto simp: handler_find_key handler_add_def handler_get_key handler_key_def)
  show "handler_find tv (handler_key h) \<noteq> None \<Longrightarrow>
      \<not> snd (handler_add tv h) \<and> handler_find (fst (handler_add tv h)) = handler_find tv"
    by (auto simp: fun_eq_iff handler_find_key [of "fst _"] handler_add_list)
      (auto simp: handler_find_key handler_add_def handler_get_key handler_key_def)
  have gone: "handler_del tv k = (tv, None)" if "handler_find tv k = None"
    using that by (simp add: handler_del_def handler_find_def batadv_tvlv_handler_unregister_def)
  have list: "tv_handler_list (fst (handler_del tv k)) =
      takeWhile (\<lambda>h. handler_key h \<noteq> k) (tv_handler_list tv) @ tl (dropWhile (\<lambda>h. handler_key h \<noteq> k) (tv_handler_list tv))"
    if "handler_find tv k \<noteq> None"
    using that handler_unregister_list [of tv "fst k" "snd k"] by (simp add: handler_del_def handler_find_def)
  have d: "distinct (map handler_key (tv_handler_list tv))" using ok by (simp add: handler_keys_ok_def)
  show "handler_keys_ok (fst (handler_del tv k))"
    using gone list ok drop_first_key(1) [OF d] by (cases "handler_find tv k = None") (simp_all add: handler_keys_ok_def)
  have "handler_find (fst (handler_del tv k)) k' = ((handler_find tv)(k := None)) k'" for k'
    using gone list drop_first_key(3,4) [OF d]
    by (cases "handler_find tv k = None") (auto simp: handler_find_key)
  then show "snd (handler_del tv k) = handler_find tv k \<and> handler_find (fst (handler_del tv k)) = (handler_find tv)(k := None)"
    by (auto simp: handler_del_def handler_find_def)
qed

section \<open>Properties\<close>

text \<open>
  C6. Round trip of an announcement. What \<^verbatim>\<open>batadv_tvlv_container_ogm_append\<close> writes behind the
  message of one node makes \<^verbatim>\<open>batadv_tvlv_ogm_receive\<close> of another call, for every container in its
  order, the handler with the container's type and version on exactly the registered bytes, and
  then every handler that wants to know that its container is missing; the list of handlers is
  as before, and there is no call through a null pointer.
\<close>

theorem tvlv_ogm_roundtrip:
  assumes "containers_ok sender" "tv_container_list sender \<noteq> []" "tvlv_size (tv_container_list sender) < 65536"
    and "n \<le> length buff" "handlers_ok (tv_handler_list receiver)"
  shows "batadv_tvlv_ogm_receive (Some orig)
      (drop n (fst (batadv_tvlv_container_ogm_append True junk sender buff n))) receiver =
    Some (receiver\<lparr>tv_clients :=
      announce (Some orig) (tv_container_list sender) (tv_handler_list receiver) (tv_clients receiver)\<rparr>)"
proof -
  let ?cs = "tv_container_list sender"
  have ok: "list_all container_ok ?cs" using assms(1) by (simp add: containers_ok_def)
  have "length (concat (map tvlv_bytes ?cs)) \<noteq> 0"
    using ok tvlv_size_pos [OF assms(2)] by simp
  moreover have "batadv_tvlv_containers_process True (Some orig) None None (concat (map tvlv_bytes ?cs)) receiver =
      Some (receiver\<lparr>tv_clients := announce (Some orig) ?cs (tv_handler_list receiver) (tv_clients receiver)\<rparr>, 0)"
    using ogm_process_announce [OF assms(5) ok, of "[]"] by (simp add: tvlv_damaged_def)
  ultimately show ?thesis
    using ogm_append_eq [OF ok assms(3,4)] assms(4) by (auto simp: batadv_tvlv_ogm_receive_def)
qed

text \<open>A node with two containers, and one with a handler for the first and one for a third type, which write a log.\<close>

definition demo_sender :: "unit batadv_priv_tvlv" where
  "demo_sender = batadv_tvlv_container_register True 2 1 (Some [7, 8, 9]) 3
     (batadv_tvlv_container_register True 3 1 None 5 (tvlv_init ()))"

definition demo_log :: "u8 \<Rightarrow> (u8 \<times> u8 \<times> u8 list) list \<Rightarrow> mac option \<Rightarrow> u8 \<Rightarrow> u8 list \<Rightarrow> (u8 \<times> u8 \<times> u8 list) list" where
  "demo_log type log orig flags value = log @ [(type, flags, value)]"

definition demo_receiver :: "(u8 \<times> u8 \<times> u8 list) list batadv_priv_tvlv" where
  "demo_receiver = batadv_tvlv_handler_register True (Some (demo_log 1)) None 1 1 2
     (batadv_tvlv_handler_register True (Some (demo_log 2)) None 2 1 2 (tvlv_init []))"

lemma demo_sender_list: "tv_container_list demo_sender =
    [\<lparr>tc_type = 2, tc_version = 1, tc_len = 3, tc_value = [7, 8, 9]\<rparr>, \<lparr>tc_type = 3, tc_version = 1, tc_len = 0, tc_value = []\<rparr>]"
  by (simp add: demo_sender_def batadv_tvlv_container_register_def tvlv_init_def batadv_tvlv_container_get_def
      batadv_tvlv_container_remove_def)

lemma demo_receiver_list: "tv_handler_list demo_receiver =
    [\<lparr>th_ogm_handler = Some (demo_log 1), th_unicast_handler = None, th_type = 1, th_version = 1, th_flags = 2\<rparr>,
     \<lparr>th_ogm_handler = Some (demo_log 2), th_unicast_handler = None, th_type = 2, th_version = 1, th_flags = 2\<rparr>]"
  "tv_clients demo_receiver = []"
  by (simp_all add: demo_receiver_def batadv_tvlv_handler_register_def tvlv_init_def batadv_tvlv_handler_get_def
      handler_matches_def)

theorem tvlv_ogm_roundtrip_witness:
  "batadv_tvlv_ogm_receive (Some 5)
     (drop 2 (fst (batadv_tvlv_container_ogm_append True (\<lambda>_. 0) demo_sender [1, 1, 1] 2))) demo_receiver
   = Some (demo_receiver\<lparr>tv_clients := [(2, 0, [7, 8, 9]), (1, 2, [])]\<rparr>)"
proof -
  have "announce (Some 5) (tv_container_list demo_sender) (tv_handler_list demo_receiver) [] = [(2, 0, [7, 8, 9]), (1, 2, [])]"
    by (simp add: demo_sender_list demo_receiver_list announce_def announced_def missed_def handler_key_def
        container_key_def demo_log_def)
  moreover have "containers_ok demo_sender" "tv_container_list demo_sender \<noteq> []"
      "tvlv_size (tv_container_list demo_sender) < 65536" "handlers_ok (tv_handler_list demo_receiver)"
    by (simp_all add: demo_sender_list demo_receiver_list containers_ok_def container_ok_def container_key_def handlers_ok_def
        handler_key_def)
  ultimately show ?thesis
    using tvlv_ogm_roundtrip [of demo_sender 2 "[1, 1, 1]" demo_receiver 5 "\<lambda>_. 0"] by (simp add: demo_receiver_list)
qed

text \<open>
  Damaged packets. Bytes that cannot be a container, because a header does not fit or its length
  exceeds the packet, end the reading: everything in front of them is processed as if the packet
  ended there, for messages and for unicast packets.
\<close>

theorem tvlv_damaged_ignored:
  assumes "list_all container_ok cs" "tvlv_damaged rest"
  shows "batadv_tvlv_containers_process og orig src dst (concat (map tvlv_bytes cs) @ rest) tv =
    batadv_tvlv_containers_process og orig src dst (concat (map tvlv_bytes cs)) tv"
  using tvlv_parse_calls [OF assms(1), of og orig src dst rest tv 0] assms(2)
    tvlv_parse_calls [OF assms(1), of og orig src dst "[]" tv 0]
  by (simp add: batadv_tvlv_containers_process_def tvlv_parse_damaged tvlv_damaged_def split: prod.splits)

theorem tvlv_damaged_ignored_witness:
  "batadv_tvlv_containers_process True (Some 5) None None
     (concat (map tvlv_bytes (tv_container_list demo_sender)) @ [1, 1, 0, 2, 3]) demo_receiver
   = batadv_tvlv_containers_process True (Some 5) None None
     (concat (map tvlv_bytes (tv_container_list demo_sender))) demo_receiver"
  by (rule tvlv_damaged_ignored) (simp_all add: demo_sender_list container_ok_def tvlv_damaged_def be_word_def)

text \<open>
  The registered containers are a map from type and version to contents, in which a
  registration replaces an earlier one and an operation for one key leaves the others alone.
\<close>

theorem container_list_is_map:
  assumes "containers_ok tv" "\<forall>bs. val = Some bs \<longrightarrow> unat len \<le> length bs"
  shows "containers_ok (batadv_tvlv_container_register alloc t v val len tv)
    \<and> containers_ok (batadv_tvlv_container_unregister t v tv)
    \<and> (\<lambda>(t', v'). batadv_tvlv_container_get (batadv_tvlv_container_register True t v val len tv) t' v')
        = (\<lambda>(t', v'). batadv_tvlv_container_get tv t' v')((t, v) \<mapsto> registered t v val len)
    \<and> (\<lambda>(t', v'). batadv_tvlv_container_get (batadv_tvlv_container_unregister t v tv) t' v')
        = (\<lambda>(t', v'). batadv_tvlv_container_get tv t' v')((t, v) := None)"
  using container_register_ok [OF assms] container_unregister_ok [OF assms(1)] container_register_get [OF assms(1)]
    container_unregister_get [OF assms(1)] by (simp add: fun_eq_iff)

theorem container_list_is_map_witness:
  "batadv_tvlv_container_get (batadv_tvlv_container_register True 2 1 (Some [4]) 1 demo_sender) 2 1
    = Some (registered 2 1 (Some [4]) 1)
   \<and> batadv_tvlv_container_get (batadv_tvlv_container_register True 2 1 (Some [4]) 1 demo_sender) 3 1 \<noteq> None"
proof -
  have "containers_ok demo_sender"
    by (simp add: demo_sender_list containers_ok_def container_ok_def container_key_def)
  from container_list_is_map [OF this, of "Some [4]" 1 True 2 1] show ?thesis
    by (auto simp: fun_eq_iff container_get_key demo_sender_list container_key_def)
qed

text \<open>
  If the new buffer cannot be allocated the message keeps its old buffer, but the length of the
  registered containers is announced all the same: the message then claims bytes it does not have.
\<close>

lemma ogm_append_alloc_failure:
  "batadv_tvlv_container_ogm_append False junk tv buff n = (buff, of_nat (tvlv_size (tv_container_list tv)))"
  by (simp add: batadv_tvlv_container_ogm_append_def batadv_tvlv_realloc_packet_buff_def list_size_eq)

text \<open>
  A run of registrations and removals of handlers acts on the handlers as the same run on a map
  from type and version: the first registration for a key stays until it is removed.
\<close>

theorem handler_list_is_map:
  assumes "handler_keys_ok tv"
  shows "handler_find (foldl (table_step handler_add handler_del) tv ops) =
    foldl (map_step handler_key) (handler_find tv) ops"
  using tvh.run_refines [OF assms] by blast

theorem handler_list_is_map_witness:
  "handler_find (foldl (table_step handler_add handler_del) demo_receiver [Op_Del (1, 1), Op_Del (9, 9)]) =
    (handler_find demo_receiver)((1, 1) := None, (9, 9) := None)"
  using handler_list_is_map [of demo_receiver "[Op_Del (1, 1), Op_Del (9, 9)]"]
  by (simp add: handler_keys_ok_def demo_receiver_list handler_key_def)

end
