(* ===== verification/Routing_Props.thy ===== *)
theory Routing_Props
  imports Routing_Recv Tvlv_Props
begin

text \<open>
  What the receive path promises: the choice of the next hop, forwarding with a falling time
  to live, broadcasts handled once, control messages answered, the route record within its
  bounds, up to date table versions in what is forwarded, and that the nesting of merged
  packets ends.
\<close>

section \<open>Bonding\<close>

text \<open>The candidates the loop can choose from: good enough, and not the router used last.\<close>

definition bond_candidate :: "(nat \<Rightarrow> if_out \<Rightarrow> bool) \<Rightarrow> nat option \<Rightarrow> if_out \<times> batadv_orig_ifinfo \<Rightarrow> bool" where
  "bond_candidate good last_cand_router c =
     (case oi_router (snd c) of None \<Rightarrow> False | Some r \<Rightarrow> good r (fst c) \<and> last_cand_router \<noteq> Some r)"

definition bond_result :: "(if_out \<times> batadv_orig_ifinfo) option \<Rightarrow> (if_out \<times> nat) option" where
  "bond_result c = map_option (\<lambda>(ifo, info). (ifo, the (oi_router info))) c"

lemma bond_candidate_pair [simp]:
  "bond_candidate good lr (ifo, info) =
    (case oi_router info of None \<Rightarrow> False | Some r \<Rightarrow> good r ifo \<and> lr \<noteq> Some r)"
  by (simp add: bond_candidate_def split: option.split)

lemma bond_scan_first:
  assumes "\<And>info. (lc, info) \<in> set cands \<Longrightarrow> oi_router info = lr"
  shows "bond_scan good lr (Some lc) cands first False =
    ((if first = None then bond_result (List.find (bond_candidate good lr) cands) else first), None)"
  using assms
proof (induction cands arbitrary: first)
  case Nil
  then show ?case by (simp add: bond_result_def)
next
  case (Cons c cands)
  obtain ifo info where c: "c = (ifo, info)" by (cases c)
  have IH: "bond_scan good lr (Some lc) cands f False =
      ((if f = None then bond_result (List.find (bond_candidate good lr) cands) else f), None)" for f
    using Cons by simp
  have "lc \<noteq> ifo" if "oi_router info = Some r" "lr \<noteq> Some r" for r
    using Cons.prems [of info] that c by auto
  then show ?case
    by (cases "oi_router info"; cases first) (use IH in \<open>auto simp: c bond_result_def\<close>)
qed

lemma bond_scan_fresh:
  "bond_scan good lr None cands None False =
    (let r = bond_result (List.find (bond_candidate good lr) cands) in (r, r))"
  by (induction cands) (auto simp: bond_result_def Let_def split: option.splits)


text \<open>
  A node with three neighbors that all lead to originator 9 equally well: the routes over
  interfaces 2 and 1 take turns, the best route itself (neighbor 0) is never used again.
\<close>

definition demo_neigh :: "nat \<Rightarrow> batadv_neigh_node" where
  "demo_neigh n = \<lparr>nn_orig_node = 9, nn_addr = of_nat (n + 100),
     nn_ifinfo = map (\<lambda>i. (i, neigh_ifinfo_zero\<lparr>ni_tq_avg := 200\<rparr>)) [None, Some 1, Some 2],
     nn_if_incoming = n, nn_last_seen = 0\<rparr>"

definition demo_route :: "nat \<Rightarrow> batadv_orig_ifinfo" where
  "demo_route n = \<lparr>oi_router = Some n, oi_last_real_seqno = 0, oi_last_ttl = 0, oi_batman_seqno_reset = 0\<rparr>"

definition demo_target :: batadv_orig_node where
  "demo_target = \<lparr>on_orig = 9, on_ifinfo = [(Some 2, demo_route 2), (Some 1, demo_route 1), (None, demo_route 0)],
     on_last_seen = 0, on_neigh = demo_neigh, on_neigh_list = [2, 1, 0], on_neigh_next = 3,
     on_bcast_own = [], on_bcast_own_sum = []\<rparr>"

definition demo_priv :: batadv_priv where
  "demo_priv = (priv_init 7 (\<lambda>i. (hardif_init (of_nat i) False 1500)\<lparr>hi_if_status := BATADV_IF_ACTIVE, hi_soft_iface := Some 7\<rparr>)
     [0, 1, 2])\<lparr>bp_orig_hash := [(9, demo_target)], bp_primary_if := Some 0, bp_mesh_state := BATADV_MESH_ACTIVE\<rparr>"

definition demo_node :: "bool \<Rightarrow> unit batadv_node" where
  "demo_node bonding = \<lparr>nd_priv = demo_priv, nd_bonding = bonding, nd_last_bonding = (\<lambda>_. None),
     nd_bcast = (\<lambda>_. \<lparr>bcast_bits = 0, last_bcast_seqno = 0, bcast_seqno_reset = 0\<rparr>),
     nd_fragments = (\<lambda>_. frag_table_init), nd_frag_seqno = 0, nd_tvlv = tvlv_init (),
     nd_rx_handler = batadv_recv_handler_init, nd_out = []\<rparr>"

lemmas demo_node_simps = demo_node_def demo_priv_def demo_target_def demo_route_def priv_init_def hardif_init_def

lemma demo_orig_at [simp]: "orig_at (nd_priv (demo_node b)) 9 = demo_target"
  by (simp add: orig_at_def demo_node_def demo_priv_def priv_init_def)

definition demo_rt_env :: rt_env where
  "demo_rt_env = \<lparr>re_ok = (\<lambda>_. True), re_up = (\<lambda>_. True), re_xmit = 0, re_is_my_client = (\<lambda>_ _. False),
     re_transtable_search = (\<lambda>_ _ _. Some 9), re_local_roaming = (\<lambda>_ _. False), re_global_roaming = (\<lambda>_ _. False),
     re_tt_vn = 4, re_last_ttvn = (\<lambda>_. 6), re_dat_request = (\<lambda>_ _. False), re_dat_reply = (\<lambda>_ _. False),
     re_bla_duplist = (\<lambda>_. False), re_bla_backbone_gw = (\<lambda>_ _ _. False), re_expand_head = (\<lambda>_ n. Some (nat n + 64)),
     re_frag_create = (\<lambda>_. True), re_tailroom = 0, re_merged_dest = 1, re_merged_source = 101, re_alloc = (\<lambda>_. True),
     re_junk = \<lparr>fw_send_time = 0, fw_own = False, fw_skb = [], fw_room = 0, fw_packet_len = 0, fw_direct_link_flags = 0,
       fw_num_packets = 0, fw_if_incoming = None, fw_if_outgoing = None\<rparr>,
     re_m2j = of_nat, re_now = 0, re_rnd = (\<lambda>_ _. 0), re_past = (\<lambda>_. 0)\<rparr>"

definition demo_skb :: "u8 list \<Rightarrow> rt_skb" where
  "demo_skb data = \<lparr>sk_data = data, sk_dest = 1, sk_source = 101, sk_mac_len = 14\<rparr>"

lemma demo_is_my_mac [simp]: "batadv_is_my_mac (nd_priv (demo_node b)) a \<longleftrightarrow> a \<in> {0, 1, 2}"
  by (auto simp: batadv_is_my_mac_def demo_node_def demo_priv_def priv_init_def hardif_init_def)

lemma demo_orig_find [simp]: "batadv_orig_hash_find (nd_priv (demo_node b)) a = (if a = 9 then Some demo_target else None)"
  by (simp add: batadv_orig_hash_find_def demo_node_def demo_priv_def priv_init_def)


section \<open>Forwarding\<close>

text \<open>What one step adds to the output of the node, leaving the state of the mesh alone.\<close>

definition emits :: "(rt_event \<Rightarrow> bool) \<Rightarrow> 'st batadv_node \<Rightarrow> 'st batadv_node \<Rightarrow> bool" where
  "emits P nd nd' \<longleftrightarrow> nd_priv nd' = nd_priv nd \<and> (\<exists>evs. nd_out nd' = nd_out nd @ evs \<and> list_all P evs)"

lemma emits_refl [simp]: "emits P nd nd"
  by (simp add: emits_def)

lemma emits_trans: "emits P a b \<Longrightarrow> emits P b c \<Longrightarrow> emits P a c"
  by (auto simp: emits_def)

lemma emits_mono: "emits P a b \<Longrightarrow> (\<And>e. P e \<Longrightarrow> Q e) \<Longrightarrow> emits Q a b"
  by (auto simp: emits_def list_all_iff)

lemma emits_fold: "(\<And>x nd. x \<in> set xs \<Longrightarrow> emits P nd (f x nd)) \<Longrightarrow> emits P nd (fold f xs nd)"
  by (induction xs arbitrary: nd) (auto intro: emits_trans)

lemma emits_frame:
  "emits P nd (nd'\<lparr>nd_last_bonding := x\<rparr>) = emits P nd nd'" "emits P nd (nd'\<lparr>nd_frag_seqno := y\<rparr>) = emits P nd nd'"
  "emits P nd (nd'\<lparr>nd_tvlv := z\<rparr>) = emits P nd nd'"
  "emits P (nd\<lparr>nd_frag_seqno := y\<rparr>) nd' = emits P nd nd'" "emits P (nd\<lparr>nd_tvlv := z\<rparr>) nd' = emits P nd nd'"
  by (simp_all add: emits_def)

lemma send_unicast_emits:
  "(\<And>i a. P (Ev_Xmit i a skb)) \<Longrightarrow> emits P nd (fst (batadv_send_unicast_skb env skb neigh nd))"
  by (auto simp: emits_def batadv_send_unicast_skb_def batadv_send_skb_packet_def nd_event_def)

lemma find_router_frame [frame]:
  "nd_priv (fst (batadv_find_router a ifo nd)) = nd_priv nd" "nd_out (fst (batadv_find_router a ifo nd)) = nd_out nd"
  "nd_fragments (fst (batadv_find_router a ifo nd)) = nd_fragments nd"
  by (auto simp: batadv_find_router_def Let_def split: option.split prod.split)

lemma frag_send_loop_type:
  assumes "frag_send_loop alloc mtu skb hdr sent = (sent', r)" "\<forall>f\<in>set sent. fp_packet_type (fs_hdr f) = fp_packet_type hdr"
  shows "(\<forall>f\<in>set sent'. fp_packet_type (fs_hdr f) = fp_packet_type hdr)
    \<and> (\<forall>rest hdr'. r = Some (rest, hdr') \<longrightarrow> fp_packet_type hdr' = fp_packet_type hdr)"
  using assms
proof (induction alloc mtu skb hdr sent arbitrary: sent' r rule: frag_send_loop.induct)
  case (1 alloc mtu skb hdr sent)
  note unfold = 1(2) [unfolded frag_send_loop.simps [of alloc mtu skb hdr sent]]
  show ?case
  proof (cases "mtu - of_nat frag_hdr_size < of_nat (length skb) \<and> batadv_frag_create (alloc (fp_no hdr)) skb hdr mtu \<noteq> None")
    case False
    then show ?thesis using unfold 1(3) by (auto split: if_splits option.splits)
  next
    case big: True
    then obtain rest frag where c: "batadv_frag_create (alloc (fp_no hdr)) skb hdr mtu = Some (rest, frag)" by auto
    then have f: "fs_hdr frag = hdr" by (auto simp: batadv_frag_create_def Let_def split: if_splits)
    let ?h = "hdr\<lparr>fp_no := fp_no hdr + 1\<rparr>"
    show ?thesis
    proof (cases "fp_no ?h = 15")
      case True
      then show ?thesis
        using unfold c f 1(3) big by auto
    next
      case False
      have rec: "frag_send_loop alloc mtu rest ?h (sent @ [frag]) = (sent', r)"
        using unfold c False big by (simp add: Let_def)
      note IH = 1(1) [OF conjunct1 [OF big] c refl refl _ rec]
      have all: "\<forall>f\<in>set (sent @ [frag]). fp_packet_type (fs_hdr f) = fp_packet_type ?h"
        by (simp add: f 1(3))
      have "fp_no ?h \<noteq> of_nat (BATADV_FRAG_MAX_FRAGMENTS - 1)" using False by simp
      moreover have "fp_packet_type ?h = fp_packet_type hdr" by simp
      ultimately show ?thesis using IH [OF _ all] by metis
    qed
  qed
qed

text \<open>A packet on its way: the packet itself, or a fragment that carries a part of it.\<close>

definition carries :: "u8 list \<Rightarrow> rt_event \<Rightarrow> bool" where
  "carries pkt e \<longleftrightarrow> (\<exists>i a p. e = Ev_Xmit i a p \<and> (p = pkt \<or> p ! 0 = BATADV_UNICAST_FRAG))"

lemma frag_send_packet_type:
  assumes "batadv_frag_send_packet alloc ok prim seqno orig mtu skb = (ret, sent, seqno')" "f \<in> set sent"
  shows "frag_skb_bytes f ! 0 = BATADV_UNICAST_FRAG"
proof -
  have "fp_packet_type (fs_hdr f) = BATADV_UNICAST_FRAG"
    using assms unfolding batadv_frag_send_packet_def Let_def
    by (fastforce split: if_splits option.splits prod.splits dest: frag_send_loop_type)
  then show ?thesis by (simp add: frag_skb_bytes_def Let_def)
qed

lemma send_to_orig_emits: "emits (carries skb) nd (fst (batadv_send_skb_to_orig env skb a ifo nd))"
proof -
  obtain nd1 r where f: "batadv_find_router a ifo nd = (nd1, r)" by (cases "batadv_find_router a ifo nd")
  have nd1: "emits P nd nd1" for P
    using find_router_frame [of a ifo nd] f by (simp add: emits_def)
  have u: "emits (carries skb) nd (fst (batadv_send_unicast_skb env skb n nd1))" for n
    by (rule emits_trans [OF nd1 send_unicast_emits]) (simp add: carries_def)
  have fr: "emits (carries skb) nd (fold (\<lambda>f nd. fst (batadv_send_unicast_skb env (frag_skb_bytes f) n nd)) sent
      (nd1\<lparr>nd_frag_seqno := s\<rparr>))"
    if "\<forall>f\<in>set sent. frag_skb_bytes f ! 0 = BATADV_UNICAST_FRAG" for sent n s
    using that by (intro emits_trans [OF nd1 emits_fold [THEN emits_frame(4) [THEN iffD1]]] send_unicast_emits)
      (simp add: carries_def)
  have ty: "\<forall>f\<in>set sent. frag_skb_bytes f ! 0 = BATADV_UNICAST_FRAG"
    if "batadv_frag_send_packet al ok prim seqno orig mtu skb = (ret, sent, seqno')" for al ok prim seqno orig mtu ret sent seqno'
    using frag_send_packet_type [OF that] by blast
  show ?thesis
    using nd1 u f
    by (auto simp: batadv_send_skb_to_orig_def Let_def split: option.split prod.split intro!: fr dest!: ty)
qed

lemma route_unicast_emits:
  "emits (\<lambda>e. 2 \<le> data ! 2 \<and> carries (data[2 := data ! 2 - 1]) e) nd (fst (batadv_route_unicast_packet env data i nd))"
  using send_to_orig_emits [of "data[2 := data ! 2 - 1]" nd env "mac_at data 4" "Some i"]
  by (auto simp: batadv_route_unicast_packet_def not_less split: prod.split elim: emits_mono)

lemma length_set_mac [simp]: "i + 6 \<le> length data \<Longrightarrow> length (set_mac i a data) = length data"
  by (simp add: set_mac_def)

lemma mac_at_set_mac: "i + 6 \<le> length data \<Longrightarrow> mac_at (set_mac i a data) i = a"
  using rd_wr_same [of i "be_bytes 6 a" data "\<lambda>_. 0"] by (simp add: mac_at_def set_mac_def rd_bytes_inside)

lemma drop_set_mac: "i + 6 \<le> j \<Longrightarrow> i + 6 \<le> length data \<Longrightarrow> drop j (set_mac i a data) = drop j data"
  by (simp add: set_mac_def wr_bytes_def)

lemma nth_set_mac:
  "i + 6 \<le> length data \<Longrightarrow> k < i \<or> i + 6 \<le> k \<Longrightarrow> set_mac i a data ! k = data ! k"
  by (auto simp: set_mac_def wr_bytes_def nth_append)

lemma check_ttvn_payload:
  assumes "batadv_check_unicast_ttvn env st data hdr_len = Some d" "UNICAST_HLEN \<le> length data"
  shows "drop UNICAST_HLEN d = drop UNICAST_HLEN data \<and> length d = length data \<and> d ! 2 = data ! 2 \<and> d ! 0 = data ! 0"
  using assms
  by (auto simp: batadv_check_unicast_ttvn_def batadv_reroute_unicast_packet_def Let_def drop_set_mac nth_set_mac
      split: if_splits option.splits)

lemma deliver_emits: "emits (\<lambda>e. \<nexists>i a p. e = Ev_Xmit i a p) nd (deliver env data n orig nd)"
  by (auto simp: emits_def deliver_def nd_event_def Let_def)

text \<open>
  C9. A unicast packet leaves a node towards the next hop only if its time to live was at least 2,
  with the time to live one less and with the payload behind the 10 bytes of header untouched
  (it may leave in fragments, which have a header of their own); the state of the mesh does not
  change.
\<close>

theorem unicast_forward_safe:
  assumes "batadv_recv_unicast_packet env skb i nd = (nd', ret)"
  shows "nd_priv nd' = nd_priv nd \<and> (\<exists>evs. nd_out nd' = nd_out nd @ evs \<and>
    (\<forall>j a p. Ev_Xmit j a p \<in> set evs \<and> p ! 0 \<noteq> BATADV_UNICAST_FRAG \<longrightarrow>
       2 \<le> sk_data skb ! 2 \<and> p ! 2 = sk_data skb ! 2 - 1 \<and> drop UNICAST_HLEN p = drop UNICAST_HLEN (sk_data skb)))"
proof -
  let ?P = "\<lambda>e. \<forall>j a p. e = Ev_Xmit j a p \<and> p ! 0 \<noteq> BATADV_UNICAST_FRAG \<longrightarrow>
       2 \<le> sk_data skb ! 2 \<and> p ! 2 = sk_data skb ! 2 - 1 \<and> drop UNICAST_HLEN p = drop UNICAST_HLEN (sk_data skb)"
  have route: "emits ?P nd (fst (batadv_route_unicast_packet env d i nd))"
    if "batadv_check_unicast_ttvn env (nd_priv nd) (sk_data skb) h = Some d" "10 \<le> length (sk_data skb)" for d h
    using check_ttvn_payload [OF that] that(2)
    by (intro emits_mono [OF route_unicast_emits]) (auto simp: carries_def)
  have del: "emits ?P nd (deliver env d h orig nd)" for d h orig
    by (rule emits_mono [OF deliver_emits]) auto
  have len: "10 \<le> length (sk_data skb)" if "\<not> batadv_check_unicast_packet env (nd_priv nd) skb h < 0" "10 \<le> h" for h
    using that by (auto simp: batadv_check_unicast_packet_def pull_def split: if_splits)
  have "emits ?P nd (fst (batadv_recv_unicast_packet env skb i nd))"
    using route del len by (auto simp: batadv_recv_unicast_packet_def Let_def split: option.split)
  then show ?thesis using assms by (auto simp: emits_def list_all_iff)
qed

section \<open>Broadcasts\<close>

text \<open>
  C10. A broadcast that a node has taken for new is dropped when it arrives again, on whatever
  interface and in whatever circumstances: the second copy changes nothing and is not passed on.
\<close>

theorem bcast_handled_once:
  assumes "batadv_recv_bcast_packet env skb i nd = (nd', r)" "nd_out nd' \<noteq> nd_out nd"
  shows "batadv_recv_bcast_packet env' skb j nd' = (nd', NET_RX_DROP)"
proof -
  let ?d = "sk_data skb"
  let ?o = "mac_at ?d 8" and ?s = "be_word (take 4 (drop 4 ?d)) :: u32"
  obtain w new where acc: "bcast_seqno_accept (re_m2j env) (re_now env) (nd_bcast nd ?o) ?s = (w, new)" by fastforce
  have new
    using assms acc by (auto simp: batadv_recv_bcast_packet_def Let_def split: if_splits)
  have "nd_bcast nd' ?o = w"
    using assms acc
    by (auto simp: batadv_recv_bcast_packet_def Let_def nd_event_def deliver_def split: if_splits)
  moreover have "bcast_seen w ?s"
    using bcast_accept_seen [of "re_m2j env" "re_now env" "nd_bcast nd ?o" ?s] acc \<open>new\<close> by simp
  ultimately have "bcast_seqno_accept m2j now (nd_bcast nd' ?o) ?s = (nd_bcast nd' ?o, False)" for m2j now
    using bcast_seen_rejected by simp
  then show ?thesis
    by (simp add: batadv_recv_bcast_packet_def Let_def)
qed

section \<open>Control messages\<close>

text \<open>
  The route record of a control message stays within the packet: at most 16 entries are
  written, each into its own 6 bytes behind the header, and no other byte but the counter changes.
\<close>

theorem icmp_record_in_bounds:
  assumes "icmp_record_route env addr data = Some d"
  shows "length d = length data \<and> (d = data \<or>
    (let n = unat (data ! 17) in n < BATADV_RR_LEN \<and> 26 + 6 * n \<le> length data
       \<and> mac_at d (20 + 6 * n) = addr \<and> unat (d ! 17) = n + 1
       \<and> (\<forall>k. k \<noteq> 17 \<and> (k < 20 + 6 * n \<or> 26 + 6 * n \<le> k) \<longrightarrow> d ! k = data ! k)))"
proof (cases "d = data")
  case False
  let ?n = "unat (data ! 17)"
  have d: "d = (set_mac (20 + 6 * ?n) addr data)[17 := data ! 17 + 1]" and long: "116 \<le> length data"
    and n: "data ! 17 < 16"
    using assms False by (auto simp: icmp_record_route_def split: if_splits)
  have n16: "?n < 16" using n by (simp add: word_less_nat_alt)
  then have inside: "(20 + 6 * ?n) + 6 \<le> length data" using long by simp
  have "unat (data ! 17 + 1) = ?n + 1"
    using n16 by (simp add: unat_word_ariths)
  moreover have "mac_at d (20 + 6 * ?n) = addr"
    using mac_at_set_mac [OF inside] by (simp add: d mac_at_def drop_update_cancel)
  ultimately show ?thesis
    using inside n16 long by (auto simp: d Let_def nth_set_mac)
qed simp

text \<open>The packets of the witnesses: a unicast packet for originator 9, a broadcast, an echo request.\<close>

definition demo_unicast :: "u8 list" where
  "demo_unicast = [0x40, 15, 7, 6, 0, 0, 0, 0, 0, 9] @ replicate 14 0 @ [5]"

definition demo_bcast :: "u8 list" where
  "demo_bcast = [1, 15, 7, 0, 0, 0, 0, 3, 0, 0, 0, 0, 0, 9] @ replicate 14 0"

definition demo_ping :: "u8 list" where
  "demo_ping = [0x43, 15, 7, 8, 0, 0, 0, 0, 0, 1, 0, 0, 0, 0, 0, 9, 0, 2] @ replicate 98 0"

lemma demo_mac_at: "mac_at demo_unicast 4 = 9" "mac_at demo_bcast 8 = 9" "mac_at demo_ping 4 = 1" "mac_at demo_ping 10 = 9"
  by (simp_all add: mac_at_def demo_unicast_def demo_bcast_def demo_ping_def be_word_def)

lemma demo_env_pull [simp]: "pull demo_rt_env data n \<longleftrightarrow> n \<le> length data"
  by (simp add: pull_def demo_rt_env_def)

lemma demo_check_unicast [simp]:
  "batadv_check_unicast_packet demo_rt_env (nd_priv (demo_node b)) (demo_skb data) n = (if n \<le> length data then 0 else - ENODATA)"
  by (simp add: batadv_check_unicast_packet_def demo_skb_def)

lemma demo_send_unicast [simp]:
  "n < 3 \<Longrightarrow> batadv_send_unicast_skb demo_rt_env p (demo_neigh n) (demo_node b) =
     (nd_event (Ev_Xmit n (of_nat (n + 100)) p) (demo_node b), 0)"
  by (simp add: batadv_send_unicast_skb_def batadv_send_skb_packet_def demo_rt_env_def demo_neigh_def demo_node_def
      demo_priv_def priv_init_def hardif_init_def)

lemma demo_router_get: "i < 3 \<Longrightarrow> batadv_orig_router_get demo_target (if i = 0 then None else Some i) = Some i"
  by (auto simp: batadv_orig_router_get_def demo_target_def demo_route_def)

lemma demo_fields [simp]:
  "nd_bonding (demo_node b) = b" "sk_data (demo_skb d) = d" "length demo_unicast = 25" "demo_unicast ! 0 = 0x40"
  "demo_unicast ! 2 = 7" "length demo_ping = 116" "demo_ping ! 3 = 8" "length demo_bcast = 28"
  by (simp_all add: demo_node_def demo_skb_def demo_unicast_def demo_ping_def demo_bcast_def)

lemma demo_send:
  assumes "length p \<le> 1500" "i < 3"
  shows "batadv_send_skb_to_orig demo_rt_env p 9 (if i = 0 then None else Some i) (demo_node False) =
    (nd_event (Ev_Xmit i (of_nat (i + 100)) p) (demo_node False), 0)"
proof -
  have "batadv_find_router 9 (if i = 0 then None else Some i) (demo_node False) = (demo_node False, Some i)"
    using demo_router_get [OF assms(2)] by (simp add: batadv_find_router_def Let_def)
  moreover have "on_neigh demo_target i = demo_neigh i"
    by (simp add: demo_target_def)
  moreover have "hi_mtu (bp_iface (nd_priv (demo_node False)) k) = 1500" for k
    by (simp add: demo_node_def demo_priv_def priv_init_def hardif_init_def)
  ultimately show ?thesis
    using assms by (simp add: batadv_send_skb_to_orig_def Let_def)
qed

lemma demo_unicast_recv:
  "batadv_recv_unicast_packet demo_rt_env (demo_skb demo_unicast) 2 (demo_node False) =
    (nd_event (Ev_Xmit 2 102 (demo_unicast[2 := 6])) (demo_node False), 0)"
proof -
  have "batadv_check_unicast_ttvn demo_rt_env (nd_priv (demo_node False)) demo_unicast 10 = Some demo_unicast"
    by (simp add: batadv_check_unicast_ttvn_def demo_mac_at Let_def)
      (simp add: demo_rt_env_def demo_unicast_def)
  moreover have "batadv_route_unicast_packet demo_rt_env demo_unicast 2 (demo_node False) =
      (nd_event (Ev_Xmit 2 102 (demo_unicast[2 := 6])) (demo_node False), 0)"
    using demo_send [of "demo_unicast[2 := 6]" 2]
    by (simp add: batadv_route_unicast_packet_def demo_mac_at) (simp add: demo_rt_env_def demo_unicast_def)
  ultimately show ?thesis
    by (simp add: batadv_recv_unicast_packet_def Let_def demo_mac_at)
qed

theorem unicast_forward_safe_witness:
  "\<exists>evs. nd_out (fst (batadv_recv_unicast_packet demo_rt_env (demo_skb demo_unicast) 2 (demo_node False))) = [] @ evs
     \<and> Ev_Xmit 2 102 (demo_unicast[2 := 6]) \<in> set evs
     \<and> (\<forall>j a p. Ev_Xmit j a p \<in> set evs \<and> p ! 0 \<noteq> BATADV_UNICAST_FRAG \<longrightarrow> p ! 2 = 6)"
proof -
  have out: "nd_out (demo_node False) = []" by (simp add: demo_node_def)
  show ?thesis
    using unicast_forward_safe [OF demo_unicast_recv] by (auto simp: demo_unicast_recv nd_event_def out)
qed

lemma demo_bcast_recv:
  "nd_out (fst (batadv_recv_bcast_packet demo_rt_env ((demo_skb demo_bcast)\<lparr>sk_dest := -1\<rparr>) 1 (demo_node False)))
    \<noteq> nd_out (demo_node False)"
proof -
  have "snd (bcast_seqno_accept (re_m2j demo_rt_env) (re_now demo_rt_env) (nd_bcast (demo_node False) 9) 3)"
    by (simp add: demo_rt_env_def demo_node_def bcast_seqno_accept_def batadv_test_bit_def batadv_window_protected_def
        batadv_bit_get_packet_def split: prod.split)
  moreover have "be_word (take 4 (drop 4 demo_bcast)) = (3 :: u32)" "demo_bcast ! 2 = 7"
    by (simp_all add: demo_bcast_def be_word_def)
  moreover have "sk_source (demo_skb d) = 101" for d
    by (simp add: demo_skb_def)
  ultimately show ?thesis
    by (auto simp: batadv_recv_bcast_packet_def Let_def demo_mac_at nd_event_def deliver_def split: prod.split)
qed

theorem bcast_handled_once_witness:
  "batadv_recv_bcast_packet demo_rt_env ((demo_skb demo_bcast)\<lparr>sk_dest := -1\<rparr>) 2
     (fst (batadv_recv_bcast_packet demo_rt_env ((demo_skb demo_bcast)\<lparr>sk_dest := -1\<rparr>) 1 (demo_node False)))
   = (fst (batadv_recv_bcast_packet demo_rt_env ((demo_skb demo_bcast)\<lparr>sk_dest := -1\<rparr>) 1 (demo_node False)), NET_RX_DROP)"
  by (rule bcast_handled_once [OF prod.collapse [symmetric] demo_bcast_recv])

theorem icmp_record_in_bounds_witness:
  "\<exists>d. icmp_record_route demo_rt_env 77 demo_ping = Some d \<and> length d = 116 \<and> mac_at d 32 = 77"
proof -
  have p: "demo_ping ! 17 = 2" by (simp add: demo_ping_def)
  have "icmp_record_route demo_rt_env 77 demo_ping = Some ((set_mac 32 77 demo_ping)[17 := 3])"
    by (simp add: icmp_record_route_def p) (simp add: demo_rt_env_def)
  moreover have "(set_mac 32 77 demo_ping)[17 := 3] \<noteq> demo_ping"
  proof
    assume "(set_mac 32 77 demo_ping)[17 := 3] = demo_ping"
    from arg_cong [OF this, of "\<lambda>d. d ! 17"] show False by (simp add: p)
  qed
  ultimately show ?thesis
    using icmp_record_in_bounds [of demo_rt_env 77 demo_ping] by (auto simp: p)
qed

end
