(* ===== verification/Routing_Deliver.thy ===== *)
theory Routing_Deliver
  imports Routing_Props
begin

text \<open>
  Arrival of packets: echo requests are answered, packets with outdated information leave with
  current information, containers in unicast packets reach the handler at their destination,
  and the dispatcher returns however merged packets are nested.
\<close>

section \<open>Answers\<close>

lemma mac_at_update: "k < i \<Longrightarrow> mac_at (d[k := v]) i = mac_at d i"
  by (simp add: mac_at_def drop_update_cancel)

lemma mac_at_set_mac_other:
  assumes "j + 6 \<le> i" "i + 6 \<le> length d"
  shows "mac_at (set_mac i a d) j = mac_at d j"
  using assms rd_wr_before [of j 6 i "be_bytes 6 a" d "\<lambda>_. 0"]
  by (simp add: mac_at_def set_mac_def rd_bytes_inside)

lemma icmp_answer_fields:
  assumes "20 \<le> length d"
  shows "mac_at (icmp_answer me t d) 4 = mac_at d 10" "mac_at (icmp_answer me t d) 10 = me"
    "icmp_answer me t d ! 3 = t" "icmp_answer me t d ! 2 = of_nat BATADV_TTL" "drop 16 (icmp_answer me t d) = drop 16 d"
  using assms
  by (simp_all add: icmp_answer_def mac_at_update mac_at_set_mac mac_at_set_mac_other drop_set_mac drop_update_cancel)

lemma icmp_record_length: "icmp_record_route env a data = Some d \<Longrightarrow> length d = length data"
  by (auto simp: icmp_record_route_def word_le_nat_alt not_le split: if_splits)

text \<open>
  C11. An echo request for this node, from an originator to which there is a route over an interface
  in working order, is answered by one packet: it goes to the next hop of that route, is
  addressed to the sender, comes from our primary address, is an echo reply, has the full time
  to live, and repeats the rest of the request.
\<close>

theorem ping_answered:
  assumes "pull env (sk_data skb) ICMP_HLEN" "sk_dest skb \<noteq> -1" "sk_source skb \<noteq> -1"
    and "batadv_is_my_mac (nd_priv nd) (sk_dest skb)"
    and "icmp_record_route env (sk_dest skb) (sk_data skb) = Some d" "d ! 3 = BATADV_ECHO_REQUEST"
    and "batadv_is_my_mac (nd_priv nd) (mac_at d 4)" "primary_addr (nd_priv nd) = Some me"
    and "batadv_orig_hash_find (nd_priv nd) (mac_at d 10) = Some on" "re_ok env Site_cow_icmp"
    and "batadv_find_router (mac_at d 10) None nd = (nd1, Some n)"
    and "hi_if_status (bp_iface (nd_priv nd) (nn_if_incoming (on_neigh on n))) = BATADV_IF_ACTIVE"
    and "int (length d) \<le> hi_mtu (bp_iface (nd_priv nd) (nn_if_incoming (on_neigh on n)))"
    and "re_up env (nn_if_incoming (on_neigh on n))" "re_ok env Site_push"
  shows "\<exists>p. batadv_recv_icmp_packet env skb i nd =
      (nd_event (Ev_Xmit (nn_if_incoming (on_neigh on n)) (nn_addr (on_neigh on n)) p) nd1, NET_RX_SUCCESS)
    \<and> mac_at p 4 = mac_at d 10 \<and> mac_at p 10 = me \<and> p ! 3 = BATADV_ECHO_REPLY \<and> p ! 2 = of_nat BATADV_TTL
    \<and> drop 16 p = drop 16 d"
proof -
  let ?p = "icmp_answer me BATADV_ECHO_REPLY d"
  have len: "20 \<le> length d"
    using assms(1) icmp_record_length [OF assms(5)] by (simp add: pull_def)
  have lp: "length ?p = length d" using len by (simp add: icmp_answer_def)
  have on: "on = orig_at (nd_priv nd) (mac_at d 10)"
    using assms(9) by (simp add: batadv_orig_hash_find_def orig_at_def)
  have priv: "nd_priv nd1 = nd_priv nd"
    using find_router_frame(1) [of "mac_at d 10" None nd] assms(11) by simp
  have "batadv_send_skb_to_orig env ?p (mac_at d 10) None nd =
      (nd_event (Ev_Xmit (nn_if_incoming (on_neigh on n)) (nn_addr (on_neigh on n)) ?p) nd1, 0)"
    using assms(11-) by (simp add: batadv_send_skb_to_orig_def Let_def priv lp on batadv_send_unicast_skb_def
        batadv_send_skb_packet_def)
  moreover have "batadv_recv_icmp_packet env skb i nd = icmp_send_answer env BATADV_ECHO_REPLY d nd"
    using assms(1-7) by (simp add: batadv_recv_icmp_packet_def batadv_recv_my_icmp_packet_def)
  ultimately have "batadv_recv_icmp_packet env skb i nd =
      (nd_event (Ev_Xmit (nn_if_incoming (on_neigh on n)) (nn_addr (on_neigh on n)) ?p) nd1, NET_RX_SUCCESS)"
    using assms(8-10) by (simp add: icmp_send_answer_def)
  moreover have "mac_at ?p 4 = mac_at d 10 \<and> mac_at ?p 10 = me \<and> ?p ! 3 = BATADV_ECHO_REPLY \<and> ?p ! 2 = of_nat BATADV_TTL
      \<and> drop 16 ?p = drop 16 d"
    using len by (simp add: icmp_answer_fields)
  ultimately show ?thesis by blast
qed

theorem ping_answered_witness:
  "\<exists>p. batadv_recv_icmp_packet demo_rt_env (demo_skb (take 20 demo_ping)) 1 (demo_node False) =
      (nd_event (Ev_Xmit 0 100 p) (demo_node False), NET_RX_SUCCESS) \<and> mac_at p 4 = 9"
proof -
  let ?d = "take 20 demo_ping"
  have d: "mac_at ?d 4 = 1" "mac_at ?d 10 = 9" "?d ! 3 = 8"
    by (simp_all add: demo_ping_def mac_at_def be_word_def)
  have rr: "icmp_record_route demo_rt_env 1 ?d = Some ?d"
    by (simp add: icmp_record_route_def)
  have skb: "sk_dest (demo_skb ?d) = 1" "sk_source (demo_skb ?d) = 101"
    by (simp_all add: demo_skb_def)
  have node: "primary_addr (nd_priv (demo_node False)) = Some 0" "on_neigh demo_target 0 = demo_neigh 0"
      "hi_if_status (bp_iface (nd_priv (demo_node False)) k) = BATADV_IF_ACTIVE"
      "hi_mtu (bp_iface (nd_priv (demo_node False)) k) = 1500" for k
    by (simp_all add: primary_addr_def demo_node_def demo_priv_def priv_init_def hardif_init_def demo_target_def)
  have env: "re_up demo_rt_env k" "re_ok demo_rt_env s" for k s by (simp_all add: demo_rt_env_def)
  have router: "batadv_find_router 9 None (demo_node False) = (demo_node False, Some 0)"
    using demo_router_get [of 0] by (simp add: batadv_find_router_def Let_def)
  have n: "nn_if_incoming (demo_neigh 0) = 0" "nn_addr (demo_neigh 0) = 100" by (simp_all add: demo_neigh_def)
  show ?thesis
    using ping_answered [of demo_rt_env "demo_skb ?d" "demo_node False" ?d 0 demo_target "demo_node False" 0 1]
    by (auto simp: d rr skb node env router n)
qed

section \<open>Outdated destinations\<close>

text \<open>The version of the translation table this node knows for a destination.\<close>

definition known_ttvn :: "rt_env \<Rightarrow> batadv_priv \<Rightarrow> mac \<Rightarrow> u8" where
  "known_ttvn env st dest = (if batadv_is_my_mac st dest then re_tt_vn env else re_last_ttvn env dest)"



section \<open>Containers in unicast packets\<close>

text \<open>
  C14. Round trip of a container sent to one node: the packet that \<^verbatim>\<open>batadv_tvlv_unicast_send\<close> builds makes
  \<^verbatim>\<open>batadv_recv_unicast_tvlv\<close> call the unicast handler for its type and version with the addresses
  and exactly the content given by the sender. If the handler reports that the packet is not for
  this node it is forwarded, with one hop less to live.
\<close>

theorem unicast_tvlv_roundtrip:
  assumes "sk_data skb = unicast_tvlv_packet src dst type version val" "length val < 65532"
    and "batadv_check_unicast_packet env (nd_priv nd) skb UNICAST_TVLV_HLEN = 0"
    and "re_ok env Site_cow_tvlv" "re_ok env Site_linearize"
    and "batadv_tvlv_handler_get (nd_tvlv nd) type version = Some h" "th_unicast_handler h = Some f"
    and "f (tv_clients (nd_tvlv nd)) src dst val = (clients, ret)"
  shows "batadv_recv_unicast_tvlv env skb i nd =
    (let nd = nd\<lparr>nd_tvlv := (nd_tvlv nd)\<lparr>tv_clients := clients\<rparr>\<rparr>
     in if ret = NET_RX_SUCCESS then (nd, NET_RX_SUCCESS)
        else batadv_route_unicast_packet env (sk_data skb) i nd)"
proof -
  let ?n = "of_nat (4 + length val) :: u16"
  let ?c = "\<lparr>tc_type = type, tc_version = version, tc_len = of_nat (length val), tc_value = val\<rparr>"
  have hdr: "sk_data skb = unicast_tvlv_bytes src dst ?n @ tvlv_bytes ?c"
    by (simp add: assms(1) unicast_tvlv_packet_def tvlv_bytes_def)
  have ok: "container_ok ?c"
    using assms(2) by (simp add: container_ok_def unat_of_nat take_bit_nat_eq_self)
  have un: "unat ?n = 4 + length val"
    using assms(2) by (simp only: unat_of_nat) (simp add: take_bit_nat_eq_self)
  have lc: "length (tvlv_bytes ?c) = 4 + length val"
    using ok by (simp add: tvlv_bytes_def)
  have fields: "mac_at (sk_data skb) 4 = dst" "mac_at (sk_data skb) 10 = src"
      "be_word (take 2 (drop 16 (sk_data skb))) = ?n" "drop 20 (sk_data skb) = tvlv_bytes ?c" "length (sk_data skb) = 24 + length val"
    using lc by (simp_all add: hdr unicast_tvlv_bytes_def mac_at_def)
  have call: "tvlv_call False None (Some src) (Some dst) ?c (nd_tvlv nd) = ((nd_tvlv nd)\<lparr>tv_clients := clients\<rparr>, ret)"
    using assms(6-8) by (simp add: tvlv_call_def batadv_tvlv_call_handler_def)
  have "batadv_tvlv_containers_process False None (Some src) (Some dst) (tvlv_bytes ?c) (nd_tvlv nd) =
      Some ((nd_tvlv nd)\<lparr>tv_clients := clients\<rparr>, ret)"
    using tvlv_parse_one [OF ok, of False None "Some src" "Some dst" "[]" "nd_tvlv nd" 0]
    by (simp add: batadv_tvlv_containers_process_def call tvlv_parse_damaged tvlv_damaged_def)
  then show ?thesis
    using assms(3-5) un lc by (simp add: batadv_recv_unicast_tvlv_def fields Let_def)
qed

text \<open>A node that keeps what it received, and passes on what is not for address 1.\<close>

definition demo_inbox :: "u8 list list \<Rightarrow> mac \<Rightarrow> mac \<Rightarrow> u8 list \<Rightarrow> u8 list list \<times> int" where
  "demo_inbox box src dst value = (if dst = 1 then (value # box, 0) else (box, 1))"

definition demo_tvlv_node :: "u8 list list batadv_node" where
  "demo_tvlv_node = \<lparr>nd_priv = demo_priv, nd_bonding = False, nd_last_bonding = (\<lambda>_. None),
     nd_bcast = (\<lambda>_. \<lparr>bcast_bits = 0, last_bcast_seqno = 0, bcast_seqno_reset = 0\<rparr>),
     nd_fragments = (\<lambda>_. frag_table_init), nd_frag_seqno = 0,
     nd_tvlv = batadv_tvlv_handler_register True None (Some demo_inbox) 5 1 0 (tvlv_init []),
     nd_rx_handler = batadv_recv_handler_init, nd_out = []\<rparr>"

theorem unicast_tvlv_roundtrip_witness:
  "tv_clients (nd_tvlv (fst (batadv_recv_unicast_tvlv demo_rt_env (demo_skb (unicast_tvlv_packet 9 1 5 1 [3, 4])) 1
     demo_tvlv_node))) = [[3, 4]]"
proof -
  let ?skb = "demo_skb (unicast_tvlv_packet 9 1 5 1 [3, 4])"
  have "nd_priv demo_tvlv_node = nd_priv (demo_node False)" by (simp add: demo_tvlv_node_def demo_node_def)
  moreover have "20 \<le> length (unicast_tvlv_packet 9 1 5 1 [3, 4])"
    by (simp add: unicast_tvlv_packet_def unicast_tvlv_bytes_def)
  moreover have "tv_clients (nd_tvlv demo_tvlv_node) = []"
      "batadv_tvlv_handler_get (nd_tvlv demo_tvlv_node) 5 1 =
        Some \<lparr>th_ogm_handler = None, th_unicast_handler = Some demo_inbox, th_type = 5, th_version = 1, th_flags = 0\<rparr>"
    by (simp_all add: demo_tvlv_node_def batadv_tvlv_handler_register_def batadv_tvlv_handler_get_def tvlv_init_def
        handler_matches_def)
  moreover have "re_ok demo_rt_env s" for s by (simp add: demo_rt_env_def)
  ultimately show ?thesis
    by (subst unicast_tvlv_roundtrip [where src = 9 and dst = 1 and type = 5 and version = 1 and val = "[3, 4]"
          and f = demo_inbox and clients = "[[3, 4]]" and ret = 0])
      (simp_all add: demo_inbox_def, simp)
qed

section \<open>Nesting of merged packets\<close>

text \<open>The bytes that wait in the chains of an originator.\<close>

definition table_bytes :: "batadv_frag_table_entry list \<Rightarrow> nat" where
  "table_bytes fragments = (\<Sum>c\<leftarrow>fragments. frag_bytes (ft_head c))"

lemma table_bytes_update:
  "b < length t \<Longrightarrow> table_bytes (t[b := c]) + frag_bytes (ft_head (t ! b)) = table_bytes t + frag_bytes (ft_head c)"
  by (induction t arbitrary: b) (auto simp: table_bytes_def nth_Cons split: nat.split)

lemma frag_chain_out_bytes:
  "frag_chain_out p chain = (chain', out) \<Longrightarrow> frag_bytes (ft_head chain') + frag_bytes out \<le> frag_bytes (ft_head chain)"
  by (auto simp: frag_chain_out_def batadv_frag_clear_chain_def frag_bytes_def split: if_splits)

lemma frag_init_chain_bytes:
  "batadv_frag_init_chain chain s = (chain', fresh) \<Longrightarrow>
    frag_bytes (ft_head chain') \<le> frag_bytes (ft_head chain) \<and> (fresh \<longrightarrow> ft_head chain' = [])"
  by (auto simp: batadv_frag_init_chain_def batadv_frag_clear_chain_def frag_bytes_def Let_def split: if_splits)

lemma frag_insert_bytes:
  assumes "batadv_frag_insert_packet lin al now t skb = (ret, t', out)" "length t = BATADV_FRAG_BUFFER_COUNT"
  shows "table_bytes t' + frag_bytes out \<le> table_bytes t + length (fs_payload skb)" "length t' = length t"
proof -
  let ?b = "unat (fp_seqno (fs_hdr skb)) mod 8"
  have b: "?b < length t" using assms(2) by simp
  obtain chain fresh where ic: "batadv_frag_init_chain (t ! ?b) (fp_seqno (fs_hdr skb)) = (chain, fresh)" by fastforce
  note chain = frag_init_chain_bytes [OF ic]
  let ?e = "\<lparr>fe_skb = skb, fe_no = ucast (fp_no (fs_hdr skb))\<rparr>"
  have cases: "t' = t \<and> out = [] \<or> (\<exists>c c'. t' = t[?b := c'] \<and> frag_chain_out (fs_hdr skb) c = (c', out)
      \<and> frag_bytes (ft_head c) \<le> frag_bytes (ft_head (t ! ?b)) + length (fs_payload skb))"
    using assms(1) ic chain
    by (auto simp: batadv_frag_insert_packet_def Let_def frag_bytes_def [of "[_]"] dest: frag_place_bytes
        split: if_splits option.splits prod.splits) (force dest: frag_place_bytes)+
  then show "table_bytes t' + frag_bytes out \<le> table_bytes t + length (fs_payload skb)"
  proof (elim disjE exE conjE)
    fix c c' assume "t' = t[?b := c']" "frag_chain_out (fs_hdr skb) c = (c', out)"
      "frag_bytes (ft_head c) \<le> frag_bytes (ft_head (t ! ?b)) + length (fs_payload skb)"
    then show ?thesis using table_bytes_update [OF b, of c'] frag_chain_out_bytes [of "fs_hdr skb" c c' out] by simp
  qed (simp add: frag_bytes_def)
  show "length t' = length t" using cases by auto
qed

lemma frag_put_all_length:
  "frag_put_all room data es = Merged out \<Longrightarrow> length out = length data + frag_bytes es"
  by (induction room data es rule: frag_put_all.induct)
    (auto simp: frag_bytes_def frag_skb_len_def Let_def split: if_splits)

lemma frag_merge_length: "batadv_frag_merge_packets eh es = Merged out \<Longrightarrow> length out = frag_bytes es"
  by (cases es) (auto simp: Let_def frag_bytes_def dest!: frag_put_all_length split: option.splits)

lemma frag_buffer_bytes:
  assumes "batadv_frag_skb_buffer lin al eh now t skb = (r, t')" "length t = BATADV_FRAG_BUFFER_COUNT"
  shows "length t' = length t" "r = Frag_Merged out \<Longrightarrow> table_bytes t' + length out \<le> table_bytes t + length (fs_payload skb)"
proof -
  obtain ret head where i: "batadv_frag_insert_packet lin al now t skb = (ret, t', head)"
    using assms(1) by (auto simp: batadv_frag_skb_buffer_def split: prod.splits)
  note b = frag_insert_bytes [OF i assms(2)]
  show "length t' = length t" by (rule b)
  assume "r = Frag_Merged out"
  then have "batadv_frag_merge_packets eh head = Merged out"
    using assms(1) i by (auto simp: batadv_frag_skb_buffer_def split: if_splits merge_result.splits)
  then show "table_bytes t' + length out \<le> table_bytes t + length (fs_payload skb)"
    using b(1) frag_merge_length by simp
qed

text \<open>All bytes that wait at a node for further fragments.\<close>

definition waiting_bytes :: "'st batadv_node \<Rightarrow> nat" where
  "waiting_bytes nd = (\<Sum>a\<in>fst ` set (bp_orig_hash (nd_priv nd)). table_bytes (nd_fragments nd a))"

definition frag_tables_ok :: "'st batadv_node \<Rightarrow> bool" where
  "frag_tables_ok nd \<longleftrightarrow> (\<forall>a. length (nd_fragments nd a) = BATADV_FRAG_BUFFER_COUNT)"

lemma frag_store_bytes:
  assumes "frag_store env skb nd = (nd', r)" "frag_tables_ok nd"
    and "batadv_orig_hash_find (nd_priv nd) (fp_orig (fs_hdr skb)) \<noteq> None"
  shows "frag_tables_ok nd'" "r = Frag_Whole out \<Longrightarrow> waiting_bytes nd' + length out \<le> waiting_bytes nd + length (fs_payload skb)"
proof -
  let ?a = "fp_orig (fs_hdr skb)" and ?H = "fst ` set (bp_orig_hash (nd_priv nd))"
  obtain b t where buf: "batadv_frag_skb_buffer (re_ok env Site_linearize) (re_ok env Site_frag_alloc) (re_expand_head env)
      (re_now env) (nd_fragments nd ?a) skb = (b, t)" by fastforce
  have len: "length (nd_fragments nd ?a) = 8" using assms(2) by (simp add: frag_tables_ok_def)
  have nd': "nd_fragments nd' = (nd_fragments nd)(?a := t)" "bp_orig_hash (nd_priv nd') = bp_orig_hash (nd_priv nd)"
    using assms(1) buf by (auto simp: frag_store_def Let_def)
  show "frag_tables_ok nd'"
    using frag_buffer_bytes(1) [OF buf len] assms(2) nd' by (simp add: frag_tables_ok_def)
  assume "r = Frag_Whole out"
  then have "b = Frag_Merged out"
    using assms(1) buf by (auto simp: frag_store_def Let_def split: buffer_result.splits)
  from frag_buffer_bytes(2) [OF buf len this]
  have t: "table_bytes t + length out \<le> table_bytes (nd_fragments nd ?a) + length (fs_payload skb)" .
  have "?a \<in> ?H"
    using assms(3) by (force simp: batadv_orig_hash_find_def dest: map_of_SomeD)
  then have "waiting_bytes nd = table_bytes (nd_fragments nd ?a) + (\<Sum>a\<in>?H - {?a}. table_bytes (nd_fragments nd a))"
      "waiting_bytes nd' = table_bytes t + (\<Sum>a\<in>?H - {?a}. table_bytes (nd_fragments nd a))"
    by (simp_all add: waiting_bytes_def nd' sum.remove [of ?H ?a])
  with t show "waiting_bytes nd' + length out \<le> waiting_bytes nd + length (fs_payload skb)" by simp
qed

lemma frag_forward_frame:
  "nd_priv (fst (frag_forward env skb i nd)) = nd_priv nd" "nd_fragments (fst (frag_forward env skb i nd)) = nd_fragments nd"
  by (auto simp: frag_forward_def Let_def batadv_send_unicast_skb_def batadv_send_skb_packet_def nd_event_def
      split: prod.split option.split bool.split)

lemma recv_frag_bytes:
  assumes "batadv_recv_frag_packet env skb i nd = (nd', Frag_Whole out)" "frag_tables_ok nd"
  shows "frag_tables_ok nd' \<and> waiting_bytes nd' + length out < waiting_bytes nd + length (sk_data skb)"
proof -
  let ?f = "frag_skb_of (re_tailroom env) (sk_data skb)"
  have len: "20 \<le> length (sk_data skb)" and find: "batadv_orig_hash_find (nd_priv nd) (fp_orig (fs_hdr ?f)) \<noteq> None"
    using assms(1)
    by (auto simp: batadv_recv_frag_packet_def batadv_check_unicast_packet_def pull_def Let_def split: if_splits)
  obtain nd1 where nd1: "nd_priv nd1 = nd_priv nd" "nd_fragments nd1 = nd_fragments nd" "frag_store env ?f nd1 = (nd', Frag_Whole out)"
    using assms(1) frag_forward_frame [of env ?f i nd]
    by (auto simp: batadv_recv_frag_packet_def Let_def split: if_splits prod.splits bool.splits)
  have w: "waiting_bytes nd1 = waiting_bytes nd" "frag_tables_ok nd1"
    using nd1 assms(2) by (simp_all add: waiting_bytes_def frag_tables_ok_def)
  have "length (fs_payload ?f) < length (sk_data skb)"
    using len by (simp add: frag_skb_of_def)
  then show ?thesis
    using frag_store_bytes [OF nd1(3) w(2)] find nd1(1) w(1) by fastforce
qed

text \<open>
  C7. The dispatcher returns: a merged packet is received like any other and may again complete a
  packet, but every round uses up at least one of the bytes that the packet brought or that were
  waiting, so the rounds are bounded by their number.
\<close>

theorem recv_terminates:
  assumes "frag_tables_ok nd" "waiting_bytes nd + length (sk_data skb) < fuel"
  shows "\<exists>nd'. batadv_batman_skb_recv fuel env skb i nd = Some nd'"
  using assms
proof (induction fuel env skb i nd rule: batadv_batman_skb_recv.induct)
  case (1 env skb i nd)
  then show ?case by simp
next
  case (2 fuel env skb i nd)
  show ?case
  proof (cases "recv_admitted env skb i (nd_priv nd) \<and> nd_rx_handler nd (sk_data skb ! 0) = Batadv_recv_frag_packet")
    case True
    obtain nd1 r where f: "batadv_recv_frag_packet env skb i nd = (nd1, r)" by fastforce
    show ?thesis
    proof (cases r)
      case (Frag_Whole out)
      then have "frag_tables_ok nd1 \<and> waiting_bytes nd1 + length out < waiting_bytes nd + length (sk_data skb)"
        using recv_frag_bytes 2(2) f by blast
      then show ?thesis
        using 2 True f Frag_Whole by simp
    qed (use True f in simp_all)
  next
    case False
    then show ?thesis by (auto split: rx_handler.split)
  qed
qed

theorem recv_terminates_witness:
  "\<exists>nd'. batadv_batman_skb_recv 30 demo_rt_env (demo_skb demo_unicast) 2 (demo_node False) = Some nd'"
proof (rule recv_terminates)
  show "frag_tables_ok (demo_node False)"
    by (simp add: frag_tables_ok_def demo_node_def frag_table_init_def)
  show "waiting_bytes (demo_node False) + length (sk_data (demo_skb demo_unicast)) < 30"
    by (simp add: waiting_bytes_def demo_node_def demo_priv_def priv_init_def table_bytes_def frag_table_init_def frag_bytes_def
        sum_list_replicate)
qed

section \<open>Priorities\<close>

lemma take_drop_update_after: "k < i \<Longrightarrow> take n (drop i (data[k := x])) = take n (drop i data)"
  by (simp add: drop_update_cancel)

lemma take_drop_update_before: "i + n \<le> k \<Longrightarrow> take n (drop i (data[k := x])) = take n (drop i data)"
  by (simp add: drop_update_swap)

text \<open>
  The priority of a frame with a VLAN tag does not depend on the tag: whatever the two bytes of
  the tag are, the result is the same. The code looks for the tag 18 bytes behind its place.
\<close>

theorem set_priority_ignores_tag:
  assumes "be_word (take 2 (drop (offset + 12) data)) = ETH_P_8021Q"
  shows "batadv_skb_set_priority (data[offset + 14 := x, offset + 15 := y]) offset prio =
    batadv_skb_set_priority data offset prio"
  using assms
  by (simp add: batadv_skb_set_priority_def Let_def take_drop_update_after take_drop_update_before)

theorem set_priority_ignores_tag_witness:
  "batadv_skb_set_priority ((replicate 12 0 @ [0x81, 0, 0xe0, 1] @ replicate 20 0)[0 + 14 := 0, 0 + 15 := 0]) 0 7 =
    batadv_skb_set_priority (replicate 12 0 @ [0x81, 0, 0xe0, 1] @ replicate 20 0) 0 7"
  by (rule set_priority_ignores_tag) (simp add: be_word_def)

text \<open>A fragment that is passed on has one hop less to live also when it had none left: the counter wraps.\<close>

lemma frag_ttl_wraps:
  assumes "batadv_frag_skb_fwd find_orig find_router skb = (True, Some skb')" "fp_ttl (fs_hdr skb) = 0"
  shows "fp_ttl (fs_hdr skb') = 255"
  using assms by (auto simp: batadv_frag_skb_fwd_def Let_def split: option.splits if_splits)

end
