(* ===== verification/Tt.thy ===== *)
theory Tt
  imports Routing
begin

text \<open>
  The translation table, first part: the structures of \<^verbatim>\<open>types.h\<close> and \<^verbatim>\<open>packet.h\<close> it uses and the
  operations of \<^verbatim>\<open>translation-table.c\<close> on the table of our own clients, on the table of the
  clients of others, and on the counters per VLAN.

  The two hash tables are the lists of their entries in the order in which the loops over the
  buckets meet them: sorted by bucket, a new entry at the head of its bucket. The bucket of a
  client is \<open>te_choose\<close>, which stands for \<^verbatim>\<open>jhash\<close>; \<open>te_crc32c\<close> stands for the checksum of the
  kernel. An originator is its address; \<open>tt_orig\<close> holds the members of \<^verbatim>\<open>batadv_orig_node\<close> that
  belong to this component. An operation that allocates asks \<open>te_alloc\<close> for the outcome at the
  place. What leaves the component is recorded in \<open>tt_out\<close>.

  A global entry that was taken out of the table gives its originators back when the last
  reference is dropped (\<^verbatim>\<open>batadv_tt_global_entry_release\<close>); the model does so where the code
  drops that reference.
\<close>

section \<open>Data\<close>

abbreviation (input) BATADV_TT_CLIENT_DEL :: "'a::len word" where "BATADV_TT_CLIENT_DEL \<equiv> 1"
abbreviation (input) BATADV_TT_CLIENT_ROAM :: "'a::len word" where "BATADV_TT_CLIENT_ROAM \<equiv> 2"
abbreviation (input) BATADV_TT_CLIENT_WIFI :: u16 where "BATADV_TT_CLIENT_WIFI \<equiv> 0x10"
abbreviation (input) BATADV_TT_CLIENT_ISOLA :: u16 where "BATADV_TT_CLIENT_ISOLA \<equiv> 0x20"
abbreviation (input) BATADV_TT_CLIENT_NOPURGE :: u16 where "BATADV_TT_CLIENT_NOPURGE \<equiv> 0x100"
abbreviation (input) BATADV_TT_CLIENT_NEW :: u16 where "BATADV_TT_CLIENT_NEW \<equiv> 0x200"
abbreviation (input) BATADV_TT_CLIENT_PENDING :: u16 where "BATADV_TT_CLIENT_PENDING \<equiv> 0x400"
abbreviation (input) BATADV_TT_CLIENT_TEMP :: u16 where "BATADV_TT_CLIENT_TEMP \<equiv> 0x800"
abbreviation (input) BATADV_TT_REMOTE_MASK :: u16 where "BATADV_TT_REMOTE_MASK \<equiv> 0x00FF"
abbreviation (input) BATADV_TT_SYNC_MASK :: u16 where "BATADV_TT_SYNC_MASK \<equiv> 0x00F0"

abbreviation (input) BATADV_TT_LOCAL_TIMEOUT :: nat where "BATADV_TT_LOCAL_TIMEOUT \<equiv> 600000"
abbreviation (input) BATADV_TT_CLIENT_ROAM_TIMEOUT :: nat where "BATADV_TT_CLIENT_ROAM_TIMEOUT \<equiv> 600000"
abbreviation (input) BATADV_TT_CLIENT_TEMP_TIMEOUT :: nat where "BATADV_TT_CLIENT_TEMP_TIMEOUT \<equiv> 600000"
abbreviation (input) BATADV_ROAMING_MAX_TIME :: nat where "BATADV_ROAMING_MAX_TIME \<equiv> 20000"
abbreviation (input) BATADV_ROAMING_MAX_COUNT :: nat where "BATADV_ROAMING_MAX_COUNT \<equiv> 5"
abbreviation (input) BATADV_TVLV_TT :: u8 where "BATADV_TVLV_TT \<equiv> 4"
abbreviation (input) BATADV_TVLV_ROAM :: u8 where "BATADV_TVLV_ROAM \<equiv> 5"

record batadv_tt_common_entry =
  tt_addr :: mac
  tt_vid :: u16
  tt_flags :: u16
  tt_added_at :: jiffies

record batadv_tt_local_entry = batadv_tt_common_entry +
  tl_last_seen :: jiffies

record batadv_tt_global_entry = batadv_tt_common_entry +
  tg_orig_list :: "(mac \<times> u8) list"
  tg_orig_list_count :: int
  tg_roam_at :: jiffies

record batadv_tvlv_tt_change =
  ch_flags :: u8
  ch_addr :: mac
  ch_vid :: u16

record batadv_softif_vlan =
  sv_vid :: u16
  sv_ap_isolation :: bool
  sv_num_entries :: int
  sv_crc :: u32

record batadv_orig_node_vlan =
  ov_vid :: u16
  ov_num_entries :: int
  ov_crc :: u32

record tt_orig =
  to_vlan_list :: "batadv_orig_node_vlan list"
  to_last_ttvn :: u8
  to_tt_buff :: "u8 list option"
  to_has_tt :: bool

record batadv_tt_req_node =
  rq_addr :: mac
  rq_issued_at :: jiffies

record batadv_tt_roam_node =
  ro_addr :: mac
  ro_counter :: nat
  ro_first_time :: jiffies

text \<open>What leaves the component; \<open>Tt_Bad_Access\<close> is an access through a pointer that was never set.\<close>

datatype tt_event = Tt_Unicast mac mac u8 "u8 list" | Tt_Container "u8 list" u16 | Tt_Bad_Access

record batadv_priv_tt =
  tt_vn :: u8
  tt_ogm_append_cnt :: nat
  tt_local_changes :: int
  tt_changes_list :: "batadv_tvlv_tt_change list"
  tt_local_hash :: "batadv_tt_local_entry list"
  tt_global_hash :: "batadv_tt_global_entry list"
  tt_req_list :: "batadv_tt_req_node list"
  tt_roam_list :: "batadv_tt_roam_node list"
  tt_last_changeset :: "u8 list option"
  tt_softif_vlan_list :: "batadv_softif_vlan list"
  tt_orig :: "mac \<Rightarrow> tt_orig"
  tt_out :: "tt_event list"

datatype tt_site =
  Site_Change mac u16 | Site_Local | Site_Vlan mac u16 | Site_Orig_Entry mac u16 mac | Site_Global mac u16
  | Site_Roam mac | Site_Req mac | Site_Request | Site_Tt_Data | Site_Changeset | Site_Tt_Buff mac

record tt_env =
  te_alloc :: "tt_site \<Rightarrow> bool"
  te_now :: jiffies
  te_m2j :: "nat \<Rightarrow> jiffies"
  te_choose :: "mac \<Rightarrow> u16 \<Rightarrow> nat"
  te_crc32c :: "u32 \<Rightarrow> u8 list \<Rightarrow> u32"
  te_backbone_gw :: "mac \<Rightarrow> u16 \<Rightarrow> bool"
  te_priv :: batadv_priv
  te_soft_addr :: mac
  te_isolation_mark :: u32
  te_isolation_mark_mask :: u32
  te_junk :: "nat \<Rightarrow> u8"
  te_past :: "nat \<Rightarrow> u8"

text \<open>The members of a new originator (\<^verbatim>\<open>batadv_orig_node_new\<close>): one VLAN, for untagged traffic.\<close>

definition tt_orig_init :: tt_orig where
  "tt_orig_init = \<lparr>to_vlan_list = [\<lparr>ov_vid = 0, ov_num_entries = 0, ov_crc = 0\<rparr>], to_last_ttvn = 0,
     to_tt_buff = None, to_has_tt = False\<rparr>"

text \<open>The values before the first client appears (\<^verbatim>\<open>batadv_softif_init_late\<close>).\<close>

definition tt_priv_init :: batadv_priv_tt where
  "tt_priv_init = \<lparr>tt_vn = 0, tt_ogm_append_cnt = 0, tt_local_changes = 0, tt_changes_list = [],
     tt_local_hash = [], tt_global_hash = [], tt_req_list = [], tt_roam_list = [], tt_last_changeset = None,
     tt_softif_vlan_list = [], tt_orig = (\<lambda>_. tt_orig_init), tt_out = []\<rparr>"

section \<open>The hash tables\<close>

definition batadv_compare_tt :: "mac \<Rightarrow> u16 \<Rightarrow> 'a batadv_tt_common_entry_scheme \<Rightarrow> bool" where
  "batadv_compare_tt addr vid e \<longleftrightarrow> tt_addr e = addr \<and> tt_vid e = vid"

definition batadv_tt_hash_find ::
    "'a batadv_tt_common_entry_scheme list \<Rightarrow> mac \<Rightarrow> u16 \<Rightarrow> 'a batadv_tt_common_entry_scheme option" where
  "batadv_tt_hash_find es addr vid = List.find (batadv_compare_tt addr vid) es"

definition batadv_tt_local_hash_find :: "batadv_priv_tt \<Rightarrow> mac \<Rightarrow> u16 \<Rightarrow> batadv_tt_local_entry option" where
  "batadv_tt_local_hash_find tt addr vid = batadv_tt_hash_find (tt_local_hash tt) addr vid"

definition batadv_tt_global_hash_find :: "batadv_priv_tt \<Rightarrow> mac \<Rightarrow> u16 \<Rightarrow> batadv_tt_global_entry option" where
  "batadv_tt_global_hash_find tt addr vid = batadv_tt_hash_find (tt_global_hash tt) addr vid"

text \<open>
  \<^verbatim>\<open>batadv_hash_add\<close> and \<^verbatim>\<open>batadv_hash_remove\<close> on the list of all entries; a write through the
  pointer to an entry.
\<close>

definition tt_hash_add ::
    "tt_env \<Rightarrow> 'a batadv_tt_common_entry_scheme \<Rightarrow> 'a batadv_tt_common_entry_scheme list
      \<Rightarrow> 'a batadv_tt_common_entry_scheme list" where
  "tt_hash_add env e es =
     (let earlier = (\<lambda>x. te_choose env (tt_addr x) (tt_vid x) < te_choose env (tt_addr e) (tt_vid e))
      in takeWhile earlier es @ e # dropWhile earlier es)"

definition tt_hash_remove ::
    "mac \<Rightarrow> u16 \<Rightarrow> 'a batadv_tt_common_entry_scheme list \<Rightarrow> 'a batadv_tt_common_entry_scheme list" where
  "tt_hash_remove addr vid es = filter (\<lambda>e. \<not> batadv_compare_tt addr vid e) es"

definition tt_hash_write ::
    "mac \<Rightarrow> u16 \<Rightarrow> ('a batadv_tt_common_entry_scheme \<Rightarrow> 'a batadv_tt_common_entry_scheme)
      \<Rightarrow> 'a batadv_tt_common_entry_scheme list \<Rightarrow> 'a batadv_tt_common_entry_scheme list" where
  "tt_hash_write addr vid f es = map (\<lambda>e. if batadv_compare_tt addr vid e then f e else e) es"

definition local_write ::
    "mac \<Rightarrow> u16 \<Rightarrow> (batadv_tt_local_entry \<Rightarrow> batadv_tt_local_entry) \<Rightarrow> batadv_priv_tt \<Rightarrow> batadv_priv_tt" where
  "local_write addr vid f tt = tt\<lparr>tt_local_hash := tt_hash_write addr vid f (tt_local_hash tt)\<rparr>"

definition global_write ::
    "mac \<Rightarrow> u16 \<Rightarrow> (batadv_tt_global_entry \<Rightarrow> batadv_tt_global_entry) \<Rightarrow> batadv_priv_tt \<Rightarrow> batadv_priv_tt" where
  "global_write addr vid f tt = tt\<lparr>tt_global_hash := tt_hash_write addr vid f (tt_global_hash tt)\<rparr>"

definition batadv_tt_global_hash_count :: "batadv_priv_tt \<Rightarrow> mac \<Rightarrow> u16 \<Rightarrow> int" where
  "batadv_tt_global_hash_count tt addr vid =
     (case batadv_tt_global_hash_find tt addr vid of None \<Rightarrow> 0 | Some g \<Rightarrow> tg_orig_list_count g)"

definition tt_event :: "tt_event \<Rightarrow> batadv_priv_tt \<Rightarrow> batadv_priv_tt" where
  "tt_event ev tt = tt\<lparr>tt_out := tt_out tt @ [ev]\<rparr>"

section \<open>Counters per VLAN\<close>

definition batadv_softif_vlan_get :: "batadv_priv_tt \<Rightarrow> u16 \<Rightarrow> batadv_softif_vlan option" where
  "batadv_softif_vlan_get tt vid = List.find (\<lambda>v. sv_vid v = vid) (tt_softif_vlan_list tt)"

fun upd_first :: "('a \<Rightarrow> bool) \<Rightarrow> ('a \<Rightarrow> 'a) \<Rightarrow> 'a list \<Rightarrow> 'a list" where
  "upd_first P f [] = []"
| "upd_first P f (x # xs) = (if P x then f x # xs else x # upd_first P f xs)"

definition batadv_tt_local_size_mod :: "u16 \<Rightarrow> int \<Rightarrow> batadv_priv_tt \<Rightarrow> batadv_priv_tt" where
  "batadv_tt_local_size_mod vid v tt =
     tt\<lparr>tt_softif_vlan_list := upd_first (\<lambda>s. sv_vid s = vid)
          (\<lambda>s. s\<lparr>sv_num_entries := sv_num_entries s + v\<rparr>) (tt_softif_vlan_list tt)\<rparr>"

definition batadv_orig_node_vlan_get :: "tt_orig \<Rightarrow> u16 \<Rightarrow> batadv_orig_node_vlan option" where
  "batadv_orig_node_vlan_get on vid = List.find (\<lambda>v. ov_vid v = vid) (to_vlan_list on)"

definition batadv_orig_node_vlan_new :: "bool \<Rightarrow> tt_orig \<Rightarrow> u16 \<Rightarrow> tt_orig \<times> batadv_orig_node_vlan option" where
  "batadv_orig_node_vlan_new alloc on vid =
     (case batadv_orig_node_vlan_get on vid of
        Some vlan \<Rightarrow> (on, Some vlan)
      | None \<Rightarrow>
          if \<not> alloc then (on, None)
          else let vlan = \<lparr>ov_vid = vid, ov_num_entries = 0, ov_crc = 0\<rparr>
               in (on\<lparr>to_vlan_list := vlan # to_vlan_list on\<rparr>, Some vlan))"

definition batadv_tt_global_size_mod :: "bool \<Rightarrow> u16 \<Rightarrow> int \<Rightarrow> tt_orig \<Rightarrow> tt_orig" where
  "batadv_tt_global_size_mod alloc vid v on =
     (case batadv_orig_node_vlan_new alloc on vid of
        (on, None) \<Rightarrow> on
      | (on, Some vlan) \<Rightarrow>
          let num_entries = ov_num_entries vlan + v
          in if num_entries = 0
             then on\<lparr>to_vlan_list := filter (\<lambda>w. ov_vid w \<noteq> vid) (to_vlan_list on)\<rparr>
             else on\<lparr>to_vlan_list := upd_first (\<lambda>w. ov_vid w = vid) (\<lambda>w. w\<lparr>ov_num_entries := num_entries\<rparr>)
                       (to_vlan_list on)\<rparr>)"

section \<open>Changes of the local table\<close>

text \<open>The loop over the waiting changes; the Boolean says that one of them was taken out.\<close>

fun event_scan :: "u8 \<Rightarrow> mac \<Rightarrow> batadv_tvlv_tt_change list \<Rightarrow> batadv_tvlv_tt_change list \<times> bool" where
  "event_scan flags addr [] = ([], False)"
| "event_scan flags addr (entry # es) =
     (if ch_addr entry \<noteq> addr then (let (r, b) = event_scan flags addr es in (entry # r, b))
      else
        let del_op_requested = (flags AND BATADV_TT_CLIENT_DEL \<noteq> 0);
            del_op_entry = (ch_flags entry AND BATADV_TT_CLIENT_DEL \<noteq> 0)
        in if \<not> del_op_requested \<and> del_op_entry then (es, True)
           else if del_op_requested \<and> \<not> del_op_entry then (es, True)
           else
             let entry = (if \<not> del_op_requested \<and> \<not> del_op_entry then entry\<lparr>ch_flags := flags\<rparr> else entry);
                 (r, b) = event_scan flags addr es
             in (entry # r, b))"

definition batadv_tt_local_event :: "tt_env \<Rightarrow> batadv_tt_local_entry \<Rightarrow> u8 \<Rightarrow> batadv_priv_tt \<Rightarrow> batadv_priv_tt" where
  "batadv_tt_local_event env common event_flags tt =
     (let flags = ucast (tt_flags common) OR event_flags in
      if \<not> te_alloc env (Site_Change (tt_addr common) (tt_vid common)) then tt
      else
        let change = \<lparr>ch_flags = flags, ch_addr = tt_addr common, ch_vid = tt_vid common\<rparr>;
            (changes, event_removed) = event_scan flags (tt_addr common) (tt_changes_list tt)
        in if event_removed
           then tt\<lparr>tt_changes_list := changes, tt_local_changes := tt_local_changes tt - 1\<rparr>
           else tt\<lparr>tt_changes_list := changes @ [change], tt_local_changes := tt_local_changes tt + 1\<rparr>)"

abbreviation (input) TT_CHANGE_LEN :: nat where "TT_CHANGE_LEN \<equiv> 12"
abbreviation (input) TT_VLAN_LEN :: nat where "TT_VLAN_LEN \<equiv> 8"
abbreviation (input) TT_DATA_LEN :: nat where "TT_DATA_LEN \<equiv> 4"

definition batadv_tt_len :: "int \<Rightarrow> int" where
  "batadv_tt_len changes_num = changes_num * int TT_CHANGE_LEN"

definition batadv_tt_entries :: "u16 \<Rightarrow> u16" where
  "batadv_tt_entries tt_len = tt_len div of_nat TT_CHANGE_LEN"

text \<open>Both counters of the table are 16 bits wide.\<close>

definition softif_num_vlan :: "batadv_priv_tt \<Rightarrow> u16" where
  "softif_num_vlan tt = of_nat (length (tt_softif_vlan_list tt))"

definition softif_num_entries :: "batadv_priv_tt \<Rightarrow> u16" where
  "softif_num_entries tt = of_int (sum_list (map sv_num_entries (tt_softif_vlan_list tt)))"

definition batadv_tt_local_table_transmit_size :: "batadv_priv_tt \<Rightarrow> int" where
  "batadv_tt_local_table_transmit_size tt =
     int UNICAST_TVLV_HLEN + int TVLV_HDR_LEN + int TT_DATA_LEN + uint (softif_num_vlan tt) * int TT_VLAN_LEN
     + batadv_tt_len (uint (softif_num_entries tt))"

definition batadv_tt_global_free :: "mac \<Rightarrow> u16 \<Rightarrow> batadv_priv_tt \<Rightarrow> batadv_priv_tt" where
  "batadv_tt_global_free addr vid tt = tt\<lparr>tt_global_hash := tt_hash_remove addr vid (tt_global_hash tt)\<rparr>"

section \<open>Roaming advertisements\<close>

text \<open>
  The loop over the clients that roamed: \<open>None\<close> when no current entry is found, otherwise the
  list and whether the client may roam again.
\<close>

fun roam_scan ::
    "tt_env \<Rightarrow> mac \<Rightarrow> batadv_tt_roam_node list \<Rightarrow> (batadv_tt_roam_node list \<times> bool) option" where
  "roam_scan env client [] = None"
| "roam_scan env client (n # ns) =
     (if ro_addr n \<noteq> client \<or> batadv_has_timed_out (te_m2j env) (te_now env) (ro_first_time n) BATADV_ROAMING_MAX_TIME
      then map_option (\<lambda>(ns, ret). (n # ns, ret)) (roam_scan env client ns)
      else if ro_counter n = 0 then Some (n # ns, False)
      else Some (n\<lparr>ro_counter := ro_counter n - 1\<rparr> # ns, True))"

definition batadv_tt_check_roam_count :: "tt_env \<Rightarrow> bool \<Rightarrow> mac \<Rightarrow> batadv_priv_tt \<Rightarrow> batadv_priv_tt \<times> bool" where
  "batadv_tt_check_roam_count env alloc client tt =
     (case roam_scan env client (tt_roam_list tt) of
        Some (ns, ret) \<Rightarrow> (tt\<lparr>tt_roam_list := ns\<rparr>, ret)
      | None \<Rightarrow>
          if \<not> alloc then (tt, False)
          else (tt\<lparr>tt_roam_list := \<lparr>ro_addr = client, ro_counter = BATADV_ROAMING_MAX_COUNT - 1,
                     ro_first_time = te_now env\<rparr> # tt_roam_list tt\<rparr>, True))"

definition roam_adv_bytes :: "mac \<Rightarrow> u16 \<Rightarrow> u8 list" where
  "roam_adv_bytes client vid = be_bytes 6 client @ be_bytes 2 vid"

definition batadv_send_roam_adv :: "tt_env \<Rightarrow> mac \<Rightarrow> u16 \<Rightarrow> mac \<Rightarrow> batadv_priv_tt \<Rightarrow> batadv_priv_tt" where
  "batadv_send_roam_adv env client vid orig_node tt =
     (case primary_addr (te_priv env) of
        None \<Rightarrow> tt
      | Some addr \<Rightarrow>
          (case batadv_tt_check_roam_count env (te_alloc env (Site_Roam orig_node)) client tt of
             (tt, False) \<Rightarrow> tt
           | (tt, True) \<Rightarrow> tt_event (Tt_Unicast addr orig_node BATADV_TVLV_ROAM (roam_adv_bytes client vid)) tt))"

section \<open>Adding and removing local clients\<close>

definition is_multicast_ether_addr :: "mac \<Rightarrow> bool" where
  "is_multicast_ether_addr addr \<longleftrightarrow> bit addr 40"

definition set_flag_if :: "bool \<Rightarrow> u16 \<Rightarrow> u16 \<Rightarrow> u16" where
  "set_flag_if c m flags = (if c then flags OR m else flags AND NOT m)"

text \<open>The part behind the label \<^verbatim>\<open>check_roaming\<close>, for a client that is in the table.\<close>

definition roaming_handled :: "tt_env \<Rightarrow> mac \<Rightarrow> u16 \<Rightarrow> bool \<Rightarrow> batadv_priv_tt \<Rightarrow> batadv_priv_tt" where
  "roaming_handled env addr vid roamed_back tt =
     (case if is_multicast_ether_addr addr then None else batadv_tt_global_hash_find tt addr vid of
        None \<Rightarrow> tt
      | Some tt_global \<Rightarrow>
          if tt_flags tt_global AND BATADV_TT_CLIENT_ROAM \<noteq> 0 then tt
          else
            let tt = fold (\<lambda>(orig_node, _). batadv_send_roam_adv env addr vid orig_node) (tg_orig_list tt_global) tt
            in if roamed_back then batadv_tt_global_free addr vid tt
               else global_write addr vid (\<lambda>g. g\<lparr>tt_flags := tt_flags g OR BATADV_TT_CLIENT_ROAM,
                      tg_roam_at := te_now env\<rparr>) tt)"

definition local_flags_updated ::
    "tt_env \<Rightarrow> batadv_tt_local_entry \<Rightarrow> bool \<Rightarrow> u32 \<Rightarrow> batadv_priv_tt \<Rightarrow> batadv_priv_tt" where
  "local_flags_updated env l wifi mark tt =
     (let match_mark = mark AND te_isolation_mark_mask env;
          isola = (te_isolation_mark_mask env \<noteq> 0 \<and> match_mark = te_isolation_mark env);
          l' = l\<lparr>tt_flags := set_flag_if isola BATADV_TT_CLIENT_ISOLA
                  (set_flag_if wifi BATADV_TT_CLIENT_WIFI (tt_flags l))\<rparr>;
          tt = local_write (tt_addr l) (tt_vid l) (\<lambda>_. l') tt
      in if (tt_flags l AND BATADV_TT_REMOTE_MASK) XOR (tt_flags l' AND BATADV_TT_REMOTE_MASK) \<noteq> 0
         then batadv_tt_local_event env l' BATADV_NO_FLAGS tt else tt)"

text \<open>
  \<open>wifi\<close> says whether the device the client was seen on is a wireless one. A client that is not
  in the table cannot be found there by \<^verbatim>\<open>batadv_hash_add\<close>, so that the addition succeeds.
\<close>

definition batadv_tt_local_add ::
    "tt_env \<Rightarrow> mac \<Rightarrow> u16 \<Rightarrow> bool \<Rightarrow> u32 \<Rightarrow> batadv_priv_tt \<Rightarrow> batadv_priv_tt \<times> bool" where
  "batadv_tt_local_add env addr vid wifi mark tt =
     (let check_roaming = (\<lambda>l roamed_back tt.
            (local_flags_updated env l wifi mark (roaming_handled env addr vid roamed_back tt), True));
          put = (\<lambda>l. local_write addr vid (\<lambda>_. l)) in
      case batadv_tt_local_hash_find tt addr vid of
        Some tt_local \<Rightarrow>
          let l = tt_local\<lparr>tl_last_seen := te_now env\<rparr> in
          if tt_flags l AND BATADV_TT_CLIENT_PENDING \<noteq> 0 then
            let l = l\<lparr>tt_flags := tt_flags l AND NOT BATADV_TT_CLIENT_PENDING\<rparr>
            in check_roaming l False (batadv_tt_local_event env l BATADV_NO_FLAGS (put l tt))
          else if tt_flags l AND BATADV_TT_CLIENT_ROAM \<noteq> 0 then
            let l = l\<lparr>tt_flags := tt_flags l AND NOT BATADV_TT_CLIENT_ROAM\<rparr>
            in check_roaming l True (put l tt)
          else check_roaming l False (put l tt)
      | None \<Rightarrow>
          if batadv_tt_local_table_transmit_size tt + batadv_tt_len 1 > bp_packet_size_max (te_priv env) then (tt, False)
          else if \<not> te_alloc env Site_Local then (tt, False)
          else if batadv_softif_vlan_get tt vid = None then (tt, False)
          else
            let flags = BATADV_TT_CLIENT_NEW OR (if wifi then BATADV_TT_CLIENT_WIFI else 0)
                  OR (if addr = te_soft_addr env \<or> is_multicast_ether_addr addr then BATADV_TT_CLIENT_NOPURGE else 0);
                l = \<lparr>tt_addr = addr, tt_vid = vid, tt_flags = flags, tt_added_at = te_now env, tl_last_seen = te_now env\<rparr>;
                tt = tt\<lparr>tt_local_hash := tt_hash_add env l (tt_local_hash tt)\<rparr>
            in check_roaming l False (batadv_tt_local_event env l BATADV_NO_FLAGS tt))"

definition batadv_tt_local_set_pending ::
    "tt_env \<Rightarrow> batadv_tt_local_entry \<Rightarrow> u16 \<Rightarrow> batadv_priv_tt \<Rightarrow> batadv_priv_tt" where
  "batadv_tt_local_set_pending env l flags tt =
     local_write (tt_addr l) (tt_vid l) (\<lambda>l. l\<lparr>tt_flags := tt_flags l OR BATADV_TT_CLIENT_PENDING\<rparr>)
       (batadv_tt_local_event env l (ucast flags) tt)"

definition batadv_tt_local_remove ::
    "tt_env \<Rightarrow> mac \<Rightarrow> u16 \<Rightarrow> bool \<Rightarrow> batadv_priv_tt \<Rightarrow> batadv_priv_tt \<times> u16" where
  "batadv_tt_local_remove env addr vid roaming tt =
     (case batadv_tt_local_hash_find tt addr vid of
        None \<Rightarrow> (tt, 0)
      | Some l \<Rightarrow>
          let curr_flags = tt_flags l;
              flags = BATADV_TT_CLIENT_DEL OR (if roaming then BATADV_TT_CLIENT_ROAM else 0);
              l = (if roaming then l\<lparr>tt_flags := tt_flags l OR BATADV_TT_CLIENT_ROAM\<rparr> else l);
              tt = local_write addr vid (\<lambda>_. l) tt
          in if tt_flags l AND BATADV_TT_CLIENT_NEW = 0
             then (batadv_tt_local_set_pending env l flags tt, curr_flags)
             else let tt = batadv_tt_local_event env l BATADV_TT_CLIENT_DEL tt
                  in (tt\<lparr>tt_local_hash := tt_hash_remove addr vid (tt_local_hash tt)\<rparr>, curr_flags))"

definition local_to_purge :: "tt_env \<Rightarrow> nat \<Rightarrow> batadv_tt_local_entry \<Rightarrow> bool" where
  "local_to_purge env timeout l \<longleftrightarrow>
     tt_flags l AND BATADV_TT_CLIENT_NOPURGE = 0 \<and> tt_flags l AND BATADV_TT_CLIENT_PENDING = 0
     \<and> batadv_has_timed_out (te_m2j env) (te_now env) (tl_last_seen l) timeout"

definition batadv_tt_local_purge :: "tt_env \<Rightarrow> nat \<Rightarrow> batadv_priv_tt \<Rightarrow> batadv_priv_tt" where
  "batadv_tt_local_purge env timeout tt =
     fold (\<lambda>l tt. if local_to_purge env timeout l
                  then batadv_tt_local_set_pending env l BATADV_TT_CLIENT_DEL tt else tt) (tt_local_hash tt) tt"

definition batadv_tt_changes_list_free :: "batadv_priv_tt \<Rightarrow> batadv_priv_tt" where
  "batadv_tt_changes_list_free tt = tt\<lparr>tt_changes_list := [], tt_local_changes := 0\<rparr>"

section \<open>Originators of a global entry\<close>

text \<open>An originator is at most once in the list of an entry.\<close>

type_synonym global_st = "batadv_tt_global_entry \<times> (mac \<Rightarrow> tt_orig)"

definition batadv_tt_global_orig_entry_find :: "batadv_tt_global_entry \<Rightarrow> mac \<Rightarrow> u8 option" where
  "batadv_tt_global_orig_entry_find g orig_node = map_of (tg_orig_list g) orig_node"

definition batadv_tt_global_entry_has_orig :: "batadv_tt_global_entry \<Rightarrow> mac \<Rightarrow> bool" where
  "batadv_tt_global_entry_has_orig g orig_node \<longleftrightarrow> batadv_tt_global_orig_entry_find g orig_node \<noteq> None"

definition batadv_tt_global_orig_entry_add :: "tt_env \<Rightarrow> mac \<Rightarrow> u8 \<Rightarrow> global_st \<Rightarrow> global_st" where
  "batadv_tt_global_orig_entry_add env orig_node ttvn s =
     (case s of (g, origs) \<Rightarrow>
        if batadv_tt_global_entry_has_orig g orig_node
        then (g\<lparr>tg_orig_list := AList.update orig_node ttvn (tg_orig_list g)\<rparr>, origs)
        else if \<not> te_alloc env (Site_Orig_Entry (tt_addr g) (tt_vid g) orig_node) then (g, origs)
        else (g\<lparr>tg_orig_list := (orig_node, ttvn) # tg_orig_list g, tg_orig_list_count := tg_orig_list_count g + 1\<rparr>,
              origs(orig_node := batadv_tt_global_size_mod (te_alloc env (Site_Vlan orig_node (tt_vid g))) (tt_vid g) 1
                (origs orig_node))))"

definition del_orig_entry :: "tt_env \<Rightarrow> mac \<Rightarrow> global_st \<Rightarrow> global_st" where
  "del_orig_entry env orig_node s =
     (case s of (g, origs) \<Rightarrow>
        (g\<lparr>tg_orig_list := filter (\<lambda>(og, _). og \<noteq> orig_node) (tg_orig_list g), tg_orig_list_count := tg_orig_list_count g - 1\<rparr>,
         origs(orig_node := batadv_tt_global_size_mod (te_alloc env (Site_Vlan orig_node (tt_vid g))) (tt_vid g) (-1)
           (origs orig_node))))"

definition batadv_tt_global_del_orig_list :: "tt_env \<Rightarrow> global_st \<Rightarrow> global_st" where
  "batadv_tt_global_del_orig_list env s = fold (\<lambda>(og, _). del_orig_entry env og) (tg_orig_list (fst s)) s"

definition batadv_tt_global_del_orig_node :: "tt_env \<Rightarrow> mac \<Rightarrow> global_st \<Rightarrow> global_st" where
  "batadv_tt_global_del_orig_node env orig_node s =
     fold (\<lambda>(og, _) s. if og = orig_node then del_orig_entry env og s else s) (tg_orig_list (fst s)) s"

text \<open>An entry of the table and the originators, changed together.\<close>

definition on_global :: "mac \<Rightarrow> u16 \<Rightarrow> (global_st \<Rightarrow> global_st) \<Rightarrow> batadv_priv_tt \<Rightarrow> batadv_priv_tt" where
  "on_global addr vid f tt =
     (case batadv_tt_global_hash_find tt addr vid of
        None \<Rightarrow> tt
      | Some g \<Rightarrow> (case f (g, tt_orig tt) of (g', origs) \<Rightarrow>
          (global_write addr vid (\<lambda>_. g') tt)\<lparr>tt_orig := origs\<rparr>))"

section \<open>Adding and removing global clients\<close>

text \<open>
  What \<^verbatim>\<open>batadv_tt_global_add\<close> does with an entry that is already there: the entry and whether
  the originator is to be added, or \<open>None\<close> when the entry is left as it is, with the label the
  code jumps to.
\<close>

datatype tt_global_how = Tt_Out | Tt_Out_Remove | Tt_Add_Orig global_st

definition global_existing :: "tt_env \<Rightarrow> mac \<Rightarrow> u16 \<Rightarrow> global_st \<Rightarrow> tt_global_how" where
  "global_existing env orig_node flags s =
     (case s of (g, origs) \<Rightarrow>
        if flags AND BATADV_TT_CLIENT_TEMP \<noteq> 0 then
          if tt_flags g AND BATADV_TT_CLIENT_TEMP = 0 then Tt_Out
          else if batadv_tt_global_entry_has_orig g orig_node then Tt_Out_Remove
          else Tt_Add_Orig (batadv_tt_global_del_orig_list env (g, origs))
        else
          let (g, origs) = (if tt_flags g AND BATADV_TT_CLIENT_TEMP \<noteq> 0
                then apfst (\<lambda>g. g\<lparr>tt_flags := tt_flags g AND NOT BATADV_TT_CLIENT_TEMP\<rparr>)
                       (batadv_tt_global_del_orig_list env (g, origs))
                else (g, origs));
              g = g\<lparr>tt_flags := tt_flags g OR flags\<rparr>
          in Tt_Add_Orig (if tt_flags g AND BATADV_TT_CLIENT_ROAM \<noteq> 0
                then apfst (\<lambda>g. g\<lparr>tt_flags := tt_flags g AND NOT BATADV_TT_CLIENT_ROAM, tg_roam_at := 0\<rparr>)
                       (batadv_tt_global_del_orig_list env (g, origs))
                else (g, origs)))"

definition global_new :: "tt_env \<Rightarrow> mac \<Rightarrow> u16 \<Rightarrow> u16 \<Rightarrow> batadv_tt_global_entry" where
  "global_new env addr vid flags =
     \<lparr>tt_addr = addr, tt_vid = vid, tt_flags = flags, tt_added_at = te_now env, tg_orig_list = [],
      tg_orig_list_count = 0, tg_roam_at = (if flags AND BATADV_TT_CLIENT_ROAM \<noteq> 0 then te_now env else 0)\<rparr>"

text \<open>The part behind the label \<^verbatim>\<open>out_remove\<close>.\<close>

definition global_out_remove :: "tt_env \<Rightarrow> mac \<Rightarrow> u16 \<Rightarrow> u16 \<Rightarrow> batadv_priv_tt \<Rightarrow> batadv_priv_tt" where
  "global_out_remove env addr vid flags tt =
     (if is_multicast_ether_addr addr then tt
      else
        case batadv_tt_local_remove env addr vid (flags AND BATADV_TT_CLIENT_ROAM \<noteq> 0) tt of
          (tt, local_flags) \<Rightarrow>
            global_write addr vid (\<lambda>g.
              let fl = tt_flags g OR (local_flags AND BATADV_TT_CLIENT_WIFI)
              in g\<lparr>tt_flags := (if flags AND BATADV_TT_CLIENT_ROAM = 0 then fl AND NOT BATADV_TT_CLIENT_ROAM else fl)\<rparr>) tt)"

definition batadv_tt_global_add ::
    "tt_env \<Rightarrow> mac \<Rightarrow> mac \<Rightarrow> u16 \<Rightarrow> u16 \<Rightarrow> u8 \<Rightarrow> batadv_priv_tt \<Rightarrow> batadv_priv_tt \<times> bool" where
  "batadv_tt_global_add env orig_node addr vid flags ttvn tt =
     (if te_backbone_gw env orig_node vid then (tt, True)
      else if flags AND BATADV_TT_CLIENT_TEMP \<noteq> 0
              \<and> (case batadv_tt_local_hash_find tt addr vid of None \<Rightarrow> False
                 | Some l \<Rightarrow> tt_flags l AND BATADV_TT_CLIENT_NEW = 0) then (tt, False)
      else
        let out_remove = global_out_remove env addr vid flags in
        case batadv_tt_global_hash_find tt addr vid of
          None \<Rightarrow>
            if \<not> te_alloc env (Site_Global addr vid) then (tt, False)
            else
              let tt = tt\<lparr>tt_global_hash := tt_hash_add env (global_new env addr vid flags) (tt_global_hash tt)\<rparr>
              in (out_remove (on_global addr vid (batadv_tt_global_orig_entry_add env orig_node ttvn) tt), True)
        | Some g \<Rightarrow>
            (case global_existing env orig_node flags (g, tt_orig tt) of
               Tt_Out \<Rightarrow> (tt, False)
             | Tt_Out_Remove \<Rightarrow> (out_remove tt, False)
             | Tt_Add_Orig s \<Rightarrow>
                 (out_remove (on_global addr vid (\<lambda>_. batadv_tt_global_orig_entry_add env orig_node ttvn s) tt), True)))"

definition batadv_tt_global_del_roaming :: "tt_env \<Rightarrow> mac \<Rightarrow> global_st \<Rightarrow> global_st" where
  "batadv_tt_global_del_roaming env orig_node s =
     (case s of (g, origs) \<Rightarrow>
        let last_entry = list_all (\<lambda>(og, _). og = orig_node) (tg_orig_list g)
        in if last_entry
           then (g\<lparr>tt_flags := tt_flags g OR BATADV_TT_CLIENT_ROAM, tg_roam_at := te_now env\<rparr>, origs)
           else batadv_tt_global_del_orig_node env orig_node (g, origs))"

definition batadv_tt_global_del ::
    "tt_env \<Rightarrow> mac \<Rightarrow> mac \<Rightarrow> u16 \<Rightarrow> bool \<Rightarrow> batadv_priv_tt \<Rightarrow> batadv_priv_tt" where
  "batadv_tt_global_del env orig_node addr vid roaming tt =
     (case batadv_tt_global_hash_find tt addr vid of
        None \<Rightarrow> tt
      | Some _ \<Rightarrow>
          if \<not> roaming then
            let tt = on_global addr vid (batadv_tt_global_del_orig_node env orig_node) tt
            in (case batadv_tt_global_hash_find tt addr vid of
                  None \<Rightarrow> tt
                | Some g \<Rightarrow> if tg_orig_list g = [] then batadv_tt_global_free addr vid tt else tt)
          else (case batadv_tt_local_hash_find tt addr vid of
                  Some _ \<Rightarrow> batadv_tt_global_free addr vid (on_global addr vid (batadv_tt_global_del_orig_list env) tt)
                | None \<Rightarrow> on_global addr vid (batadv_tt_global_del_roaming env orig_node) tt))"

text \<open>The loops over the whole table. \<open>None\<close> is an entry that is taken out.\<close>

fun global_walk ::
    "(global_st \<Rightarrow> batadv_tt_global_entry option \<times> (mac \<Rightarrow> tt_orig)) \<Rightarrow> batadv_tt_global_entry list
      \<Rightarrow> (mac \<Rightarrow> tt_orig) \<Rightarrow> batadv_tt_global_entry list \<times> (mac \<Rightarrow> tt_orig)" where
  "global_walk f [] origs = ([], origs)"
| "global_walk f (g # gs) origs =
     (case f (g, origs) of (g', origs) \<Rightarrow>
        (case global_walk f gs origs of (gs, origs) \<Rightarrow>
           ((case g' of None \<Rightarrow> gs | Some g' \<Rightarrow> g' # gs), origs)))"

definition batadv_tt_global_del_orig :: "tt_env \<Rightarrow> mac \<Rightarrow> int \<Rightarrow> batadv_priv_tt \<Rightarrow> batadv_priv_tt" where
  "batadv_tt_global_del_orig env orig_node match_vid tt =
     (case global_walk (\<lambda>(g, origs).
             if match_vid \<ge> 0 \<and> uint (tt_vid g) \<noteq> match_vid then (Some g, origs)
             else (case batadv_tt_global_del_orig_node env orig_node (g, origs) of (g, origs) \<Rightarrow>
               (if tg_orig_list g = [] then None else Some g, origs)))
           (tt_global_hash tt) (tt_orig tt) of
        (gs, origs) \<Rightarrow> tt\<lparr>tt_global_hash := gs, tt_orig := origs(orig_node := (origs orig_node)\<lparr>to_has_tt := False\<rparr>)\<rparr>)"

definition batadv_tt_global_to_purge :: "tt_env \<Rightarrow> batadv_tt_global_entry \<Rightarrow> bool" where
  "batadv_tt_global_to_purge env g \<longleftrightarrow>
     tt_flags g AND BATADV_TT_CLIENT_ROAM \<noteq> 0
       \<and> batadv_has_timed_out (te_m2j env) (te_now env) (tg_roam_at g) BATADV_TT_CLIENT_ROAM_TIMEOUT
     \<or> tt_flags g AND BATADV_TT_CLIENT_TEMP \<noteq> 0
       \<and> batadv_has_timed_out (te_m2j env) (te_now env) (tt_added_at g) BATADV_TT_CLIENT_TEMP_TIMEOUT"

definition batadv_tt_global_purge :: "tt_env \<Rightarrow> batadv_priv_tt \<Rightarrow> batadv_priv_tt" where
  "batadv_tt_global_purge env tt =
     (case global_walk (\<lambda>(g, origs).
             if batadv_tt_global_to_purge env g
             then (None, snd (batadv_tt_global_del_orig_list env (g, origs))) else (Some g, origs))
           (tt_global_hash tt) (tt_orig tt) of
        (gs, origs) \<Rightarrow> tt\<lparr>tt_global_hash := gs, tt_orig := origs\<rparr>)"

section \<open>Questions of other components\<close>

definition is_ap_isolated :: "batadv_tt_local_entry \<Rightarrow> batadv_tt_global_entry \<Rightarrow> bool" where
  "is_ap_isolated l g \<longleftrightarrow>
     tt_flags l AND BATADV_TT_CLIENT_WIFI \<noteq> 0 \<and> tt_flags g AND BATADV_TT_CLIENT_WIFI \<noteq> 0
     \<or> tt_flags l AND BATADV_TT_CLIENT_ISOLA \<noteq> 0 \<and> tt_flags g AND BATADV_TT_CLIENT_ISOLA \<noteq> 0"

text \<open>The loop over the originators of a client: the best entry so far with its router.\<close>

fun best_orig ::
    "batadv_priv \<Rightarrow> (mac \<times> u8) list \<Rightarrow> (mac \<times> batadv_neigh_node) option \<Rightarrow> (mac \<times> batadv_neigh_node) option" where
  "best_orig st [] best = best"
| "best_orig st ((og, _) # ogs) best =
     (let on = orig_at st og in
      case batadv_orig_router_get on BATADV_IF_DEFAULT of
        None \<Rightarrow> best_orig st ogs best
      | Some r \<Rightarrow>
          let router = on_neigh on r in
          (case best of
             Some (_, best_router) \<Rightarrow>
               if batadv_iv_ogm_neigh_cmp router BATADV_IF_DEFAULT best_router BATADV_IF_DEFAULT \<le> 0
               then best_orig st ogs best else best_orig st ogs (Some (og, router))
           | None \<Rightarrow> best_orig st ogs (Some (og, router))))"

definition batadv_transtable_best_orig :: "batadv_priv \<Rightarrow> batadv_tt_global_entry \<Rightarrow> mac option" where
  "batadv_transtable_best_orig st g = map_option fst (best_orig st (tg_orig_list g) None)"

definition batadv_vlan_ap_isola_get :: "batadv_priv_tt \<Rightarrow> u16 \<Rightarrow> bool" where
  "batadv_vlan_ap_isola_get tt vid =
     (case batadv_softif_vlan_get tt vid of None \<Rightarrow> False | Some vlan \<Rightarrow> sv_ap_isolation vlan)"

definition batadv_transtable_search ::
    "batadv_priv \<Rightarrow> batadv_priv_tt \<Rightarrow> mac option \<Rightarrow> mac \<Rightarrow> u16 \<Rightarrow> mac option" where
  "batadv_transtable_search st tt src addr vid =
     (let find = (\<lambda>l. case batadv_tt_global_hash_find tt addr vid of
            None \<Rightarrow> None
          | Some g \<Rightarrow>
              if (case l of None \<Rightarrow> False | Some l \<Rightarrow> is_ap_isolated l g) then None
              else batadv_transtable_best_orig st g) in
      if src \<noteq> None \<and> batadv_vlan_ap_isola_get tt vid then
        (case batadv_tt_local_hash_find tt (the src) vid of
           None \<Rightarrow> None
         | Some l \<Rightarrow> if tt_flags l AND BATADV_TT_CLIENT_PENDING \<noteq> 0 then None else find (Some l))
      else find None)"

definition batadv_is_my_client :: "batadv_priv_tt \<Rightarrow> mac \<Rightarrow> u16 \<Rightarrow> bool" where
  "batadv_is_my_client tt addr vid =
     (case batadv_tt_local_hash_find tt addr vid of
        None \<Rightarrow> False
      | Some l \<Rightarrow> \<not> (tt_flags l AND BATADV_TT_CLIENT_PENDING \<noteq> 0 \<or> tt_flags l AND BATADV_TT_CLIENT_ROAM \<noteq> 0))"

definition batadv_is_ap_isolated :: "batadv_priv_tt \<Rightarrow> mac \<Rightarrow> mac \<Rightarrow> u16 \<Rightarrow> bool" where
  "batadv_is_ap_isolated tt src dst vid =
     (case batadv_softif_vlan_get tt vid of
        None \<Rightarrow> False
      | Some vlan \<Rightarrow>
          sv_ap_isolation vlan
          \<and> (case (batadv_tt_local_hash_find tt dst vid, batadv_tt_global_hash_find tt src vid) of
               (Some l, Some g) \<Rightarrow> is_ap_isolated l g
             | _ \<Rightarrow> False))"

definition batadv_tt_global_client_is_roaming :: "batadv_priv_tt \<Rightarrow> mac \<Rightarrow> u16 \<Rightarrow> bool" where
  "batadv_tt_global_client_is_roaming tt addr vid =
     (case batadv_tt_global_hash_find tt addr vid of None \<Rightarrow> False | Some g \<Rightarrow> tt_flags g AND BATADV_TT_CLIENT_ROAM \<noteq> 0)"

definition batadv_tt_local_client_is_roaming :: "batadv_priv_tt \<Rightarrow> mac \<Rightarrow> u16 \<Rightarrow> bool" where
  "batadv_tt_local_client_is_roaming tt addr vid =
     (case batadv_tt_local_hash_find tt addr vid of None \<Rightarrow> False | Some l \<Rightarrow> tt_flags l AND BATADV_TT_CLIENT_ROAM \<noteq> 0)"

definition batadv_tt_global_is_isolated :: "batadv_priv_tt \<Rightarrow> mac \<Rightarrow> u16 \<Rightarrow> bool" where
  "batadv_tt_global_is_isolated tt addr vid =
     (case batadv_tt_global_hash_find tt addr vid of None \<Rightarrow> False | Some g \<Rightarrow> tt_flags g AND BATADV_TT_CLIENT_ISOLA \<noteq> 0)"

definition batadv_tt_add_temporary_global_entry ::
    "tt_env \<Rightarrow> mac \<Rightarrow> mac \<Rightarrow> u16 \<Rightarrow> batadv_priv_tt \<Rightarrow> batadv_priv_tt \<times> bool" where
  "batadv_tt_add_temporary_global_entry env orig_node addr vid tt =
     batadv_tt_global_add env orig_node addr vid BATADV_TT_CLIENT_TEMP (to_last_ttvn (tt_orig tt orig_node)) tt"

end
