(* ===== verification/Tt_Msg.thy ===== *)
theory Tt_Msg
  imports Tt "HOL-Library.While_Combinator"
begin

text \<open>
  The translation table, second part: checksums, the commit of local changes, requests and
  responses, what is done with the tables other nodes announce, and the handlers.

  The memory behind a packet, where the code reads it, is \<open>te_past\<close>; the bytes of a buffer that
  the code allocates and sends without setting them are \<open>te_junk\<close>.
\<close>

section \<open>Contents of packets\<close>

abbreviation (input) BATADV_TT_OGM_DIFF :: u8 where "BATADV_TT_OGM_DIFF \<equiv> 1"
abbreviation (input) BATADV_TT_REQUEST :: u8 where "BATADV_TT_REQUEST \<equiv> 2"
abbreviation (input) BATADV_TT_RESPONSE :: u8 where "BATADV_TT_RESPONSE \<equiv> 4"
abbreviation (input) BATADV_TT_FULL_TABLE :: u8 where "BATADV_TT_FULL_TABLE \<equiv> 0x10"
abbreviation (input) BATADV_TT_DATA_TYPE_MASK :: u8 where "BATADV_TT_DATA_TYPE_MASK \<equiv> 0x0F"
abbreviation (input) BATADV_TT_OGM_APPEND_MAX :: nat where "BATADV_TT_OGM_APPEND_MAX \<equiv> 3"
abbreviation (input) BATADV_TT_REQUEST_TIMEOUT :: nat where "BATADV_TT_REQUEST_TIMEOUT \<equiv> 3000"

record batadv_tvlv_tt_vlan_data =
  vd_crc :: u32
  vd_vid :: u16

definition change_bytes :: "batadv_tvlv_tt_change \<Rightarrow> u8 list" where
  "change_bytes c = [ch_flags c, 0, 0, 0] @ be_bytes 6 (ch_addr c) @ be_bytes 2 (ch_vid c)"

definition change_at :: "u8 list \<Rightarrow> batadv_tvlv_tt_change" where
  "change_at data = \<lparr>ch_flags = data ! 0, ch_addr = be_word (take 6 (drop 4 data)),
     ch_vid = be_word (take 2 (drop 10 data))\<rparr>"

definition tt_changes_at :: "nat \<Rightarrow> u8 list \<Rightarrow> batadv_tvlv_tt_change list" where
  "tt_changes_at n data = map (\<lambda>i. change_at (drop (TT_CHANGE_LEN * i) data)) [0..<n]"

definition vlan_data_bytes :: "u8 list \<Rightarrow> batadv_tvlv_tt_vlan_data \<Rightarrow> u8 list" where
  "vlan_data_bytes reserved v = be_bytes 4 (vd_crc v) @ be_bytes 2 (vd_vid v) @ reserved"

definition vlan_data_at :: "(nat \<Rightarrow> u8) \<Rightarrow> u8 list \<Rightarrow> nat \<Rightarrow> batadv_tvlv_tt_vlan_data" where
  "vlan_data_at past data pos =
     \<lparr>vd_crc = be_word (rd_bytes past data pos 4), vd_vid = be_word (rd_bytes past data (pos + 4) 2)\<rparr>"

definition tt_vlans_at :: "(nat \<Rightarrow> u8) \<Rightarrow> u8 list \<Rightarrow> nat \<Rightarrow> batadv_tvlv_tt_vlan_data list" where
  "tt_vlans_at past data n = map (\<lambda>i. vlan_data_at past data (TT_DATA_LEN + TT_VLAN_LEN * i)) [0..<n]"

definition tt_data_bytes :: "u8 \<Rightarrow> u8 \<Rightarrow> u16 \<Rightarrow> u8 list" where
  "tt_data_bytes flags ttvn num_vlan = [flags, ttvn] @ be_bytes 2 num_vlan"

definition tt_num_vlan :: "u8 list \<Rightarrow> u16" where
  "tt_num_vlan data = be_word (take 2 (drop 2 data))"

section \<open>Checksums\<close>

definition entry_crc :: "tt_env \<Rightarrow> 'a batadv_tt_common_entry_scheme \<Rightarrow> u32" where
  "entry_crc env e =
     te_crc32c env
       (te_crc32c env (te_crc32c env 0 (be_bytes 2 (tt_vid e))) [ucast (tt_flags e AND BATADV_TT_SYNC_MASK)])
       (be_bytes 6 (tt_addr e))"

definition batadv_tt_global_crc :: "tt_env \<Rightarrow> mac \<Rightarrow> u16 \<Rightarrow> batadv_priv_tt \<Rightarrow> u32" where
  "batadv_tt_global_crc env orig_node vid tt =
     fold (\<lambda>g crc.
       if tt_vid g \<noteq> vid then crc
       else if tt_flags g AND BATADV_TT_CLIENT_ROAM \<noteq> 0 then crc
       else if tt_flags g AND BATADV_TT_CLIENT_TEMP \<noteq> 0 then crc
       else if \<not> batadv_tt_global_entry_has_orig g orig_node then crc
       else crc XOR entry_crc env g) (tt_global_hash tt) 0"

definition batadv_tt_local_crc :: "tt_env \<Rightarrow> u16 \<Rightarrow> batadv_priv_tt \<Rightarrow> u32" where
  "batadv_tt_local_crc env vid tt =
     fold (\<lambda>l crc.
       if tt_vid l \<noteq> vid then crc
       else if tt_flags l AND BATADV_TT_CLIENT_NEW \<noteq> 0 then crc
       else crc XOR entry_crc env l) (tt_local_hash tt) 0"

definition batadv_tt_local_update_crc :: "tt_env \<Rightarrow> batadv_priv_tt \<Rightarrow> batadv_priv_tt" where
  "batadv_tt_local_update_crc env tt =
     tt\<lparr>tt_softif_vlan_list := map (\<lambda>v. v\<lparr>sv_crc := batadv_tt_local_crc env (sv_vid v) tt\<rparr>) (tt_softif_vlan_list tt)\<rparr>"

definition upd_tt_orig :: "mac \<Rightarrow> (tt_orig \<Rightarrow> tt_orig) \<Rightarrow> batadv_priv_tt \<Rightarrow> batadv_priv_tt" where
  "upd_tt_orig orig_node f tt = tt\<lparr>tt_orig := (tt_orig tt)(orig_node := f (tt_orig tt orig_node))\<rparr>"

definition batadv_tt_global_update_crc :: "tt_env \<Rightarrow> mac \<Rightarrow> batadv_priv_tt \<Rightarrow> batadv_priv_tt" where
  "batadv_tt_global_update_crc env orig_node tt =
     upd_tt_orig orig_node (\<lambda>on. on\<lparr>to_vlan_list := map (\<lambda>v.
         if te_backbone_gw env orig_node (ov_vid v) then v
         else v\<lparr>ov_crc := batadv_tt_global_crc env orig_node (ov_vid v) tt\<rparr>) (to_vlan_list on)\<rparr>) tt"

definition batadv_tt_global_check_crc :: "tt_env \<Rightarrow> mac \<Rightarrow> batadv_tvlv_tt_vlan_data list \<Rightarrow> batadv_priv_tt \<Rightarrow> bool" where
  "batadv_tt_global_check_crc env orig_node tt_vlan tt \<longleftrightarrow>
     list_all (\<lambda>v. te_backbone_gw env orig_node (vd_vid v)
       \<or> (case batadv_orig_node_vlan_get (tt_orig tt orig_node) (vd_vid v) of
            None \<Rightarrow> False | Some vlan \<Rightarrow> ov_crc vlan = vd_crc v)) tt_vlan
     \<and> \<not> length (to_vlan_list (tt_orig tt orig_node)) > length tt_vlan"

section \<open>Buffers for announcements and responses\<close>

text \<open>
  A buffer with the header and the VLANs: the bytes in front of the changes, the length reserved
  for the changes, the length of the whole. Without memory the length of the whole is 0 in the
  local case, the length for the changes is 0 in the global case.
\<close>

definition batadv_tt_prepare_tvlv_local_data :: "tt_env \<Rightarrow> int \<Rightarrow> batadv_priv_tt \<Rightarrow> u8 list option \<times> int \<times> u16" where
  "batadv_tt_prepare_tvlv_local_data env tt_len tt =
     (let num_vlan = softif_num_vlan tt;
          change_offset = int TT_DATA_LEN + uint num_vlan * int TT_VLAN_LEN;
          tt_len = (if tt_len < 0 then batadv_tt_len (uint (softif_num_entries tt)) else tt_len);
          tvlv_len = of_int tt_len + of_int change_offset
      in if \<not> te_alloc env Site_Tt_Data then (None, tt_len, 0)
         else (Some (tt_data_bytes BATADV_NO_FLAGS (tt_vn tt) num_vlan
                 @ concat (map (\<lambda>v. vlan_data_bytes [te_junk env 0, te_junk env 1] \<lparr>vd_crc = sv_crc v, vd_vid = sv_vid v\<rparr>)
                     (tt_softif_vlan_list tt))), tt_len, tvlv_len))"

definition orig_num_vlan :: "tt_orig \<Rightarrow> u16" where
  "orig_num_vlan on = of_nat (length (to_vlan_list on))"

definition orig_num_entries :: "tt_orig \<Rightarrow> u16" where
  "orig_num_entries on = of_int (sum_list (map ov_num_entries (to_vlan_list on)))"

definition batadv_tt_prepare_tvlv_global_data ::
    "tt_env \<Rightarrow> mac \<Rightarrow> int \<Rightarrow> batadv_priv_tt \<Rightarrow> u8 list option \<times> int \<times> u16" where
  "batadv_tt_prepare_tvlv_global_data env orig_node tt_len tt =
     (let on = tt_orig tt orig_node;
          num_vlan = orig_num_vlan on;
          change_offset = of_nat TT_DATA_LEN + num_vlan * of_nat TT_VLAN_LEN;
          tt_len = (if tt_len < 0 then batadv_tt_len (uint (orig_num_entries on)) else tt_len);
          tvlv_len = of_int tt_len + change_offset
      in if \<not> te_alloc env Site_Tt_Data then (None, 0, tvlv_len)
         else (Some (tt_data_bytes BATADV_NO_FLAGS (to_last_ttvn on) num_vlan
                 @ concat (map (\<lambda>v. vlan_data_bytes [te_junk env 0, te_junk env 1] \<lparr>vd_crc = ov_crc v, vd_vid = ov_vid v\<rparr>)
                     (to_vlan_list on))), tt_len, tvlv_len))"

definition batadv_tt_local_valid :: "batadv_tt_local_entry \<Rightarrow> bool" where
  "batadv_tt_local_valid l \<longleftrightarrow> tt_flags l AND BATADV_TT_CLIENT_NEW = 0"

definition batadv_tt_global_valid :: "mac \<Rightarrow> batadv_tt_global_entry \<Rightarrow> bool" where
  "batadv_tt_global_valid orig_node g \<longleftrightarrow>
     \<not> (tt_flags g AND BATADV_TT_CLIENT_ROAM \<noteq> 0 \<or> tt_flags g AND BATADV_TT_CLIENT_TEMP \<noteq> 0)
     \<and> batadv_tt_global_entry_has_orig g orig_node"

definition entry_change :: "'a batadv_tt_common_entry_scheme \<Rightarrow> batadv_tvlv_tt_change" where
  "entry_change e = \<lparr>ch_flags = ucast (tt_flags e), ch_addr = tt_addr e, ch_vid = tt_vid e\<rparr>"

text \<open>The part of a buffer behind the header: what is written, then what the memory held.\<close>

definition change_area :: "tt_env \<Rightarrow> nat \<Rightarrow> u8 list \<Rightarrow> u8 list" where
  "change_area env len bs = bs @ map (te_junk env) [length bs..<len]"

definition batadv_tt_tvlv_generate ::
    "tt_env \<Rightarrow> int \<Rightarrow> ('a batadv_tt_common_entry_scheme \<Rightarrow> bool) \<Rightarrow> 'a batadv_tt_common_entry_scheme list \<Rightarrow> u8 list" where
  "batadv_tt_tvlv_generate env tt_len valid_cb es =
     (let tt_tot = unat (batadv_tt_entries (of_int tt_len))
      in change_area env (nat tt_len)
           (concat (map (change_bytes \<circ> entry_change) (take tt_tot (filter valid_cb es)))))"

definition batadv_tt_tvlv_container_update :: "tt_env \<Rightarrow> batadv_priv_tt \<Rightarrow> batadv_priv_tt" where
  "batadv_tt_tvlv_container_update env tt =
     (let tt_diff_entries_num = tt_local_changes tt;
          tt_diff_len = (if batadv_tt_len tt_diff_entries_num > bp_soft_mtu (te_priv env) then 0
                         else batadv_tt_len tt_diff_entries_num) in
      case batadv_tt_prepare_tvlv_local_data env tt_diff_len tt of
        (None, _, _) \<Rightarrow> tt
      | (Some tt_data, tt_diff_len, tvlv_len) \<Rightarrow>
          if tvlv_len = 0 then tt
          else
            let tt_data = tt_data[0 := BATADV_TT_OGM_DIFF] in
            if tt_diff_len = 0 then tt_event (Tt_Container tt_data tvlv_len) tt
            else
              let changes = concat (map change_bytes (take (nat tt_diff_entries_num) (tt_changes_list tt)));
                  last_changeset = (if changes \<noteq> [] \<and> te_alloc env Site_Changeset
                    then Some (changes @ replicate (nat tt_diff_len - length changes) 0) else None)
              in tt_event (Tt_Container (tt_data @ change_area env (nat tt_diff_len) changes) tvlv_len)
                   (tt\<lparr>tt_local_changes := 0, tt_changes_list := [], tt_last_changeset := last_changeset\<rparr>))"

section \<open>Committing local changes\<close>

definition batadv_tt_local_set_flags :: "u16 \<Rightarrow> bool \<Rightarrow> bool \<Rightarrow> batadv_priv_tt \<Rightarrow> batadv_priv_tt" where
  "batadv_tt_local_set_flags flags enable inc tt =
     fold (\<lambda>l tt.
       if (if enable then tt_flags l AND flags = flags else tt_flags l AND flags = 0) then tt
       else
         let tt = local_write (tt_addr l) (tt_vid l)
               (\<lambda>l. l\<lparr>tt_flags := (if enable then tt_flags l OR flags else tt_flags l AND NOT flags)\<rparr>) tt
         in if inc then batadv_tt_local_size_mod (tt_vid l) 1 tt else tt) (tt_local_hash tt) tt"

definition batadv_tt_local_purge_pending_clients :: "batadv_priv_tt \<Rightarrow> batadv_priv_tt" where
  "batadv_tt_local_purge_pending_clients tt =
     fold (\<lambda>l tt.
       if tt_flags l AND BATADV_TT_CLIENT_PENDING = 0 then tt
       else
         let tt = batadv_tt_local_size_mod (tt_vid l) (-1) tt
         in tt\<lparr>tt_local_hash := tt_hash_remove (tt_addr l) (tt_vid l) (tt_local_hash tt)\<rparr>) (tt_local_hash tt) tt"

text \<open>\<open>mla_update\<close> is the update of the multicast clients by the component that watches them.\<close>

definition batadv_tt_local_commit_changes_nolock ::
    "(batadv_priv_tt \<Rightarrow> batadv_priv_tt) \<Rightarrow> tt_env \<Rightarrow> batadv_priv_tt \<Rightarrow> batadv_priv_tt" where
  "batadv_tt_local_commit_changes_nolock mla_update env tt =
     (let tt = mla_update tt in
      if tt_local_changes tt < 1 then
        (if tt_ogm_append_cnt tt \<noteq> 0 then tt\<lparr>tt_ogm_append_cnt := tt_ogm_append_cnt tt - 1\<rparr>
         else batadv_tt_tvlv_container_update env tt)
      else
        let tt = batadv_tt_local_set_flags BATADV_TT_CLIENT_NEW False True tt;
            tt = batadv_tt_local_purge_pending_clients tt;
            tt = batadv_tt_local_update_crc env tt;
            tt = tt\<lparr>tt_vn := tt_vn tt + 1, tt_ogm_append_cnt := BATADV_TT_OGM_APPEND_MAX\<rparr>
        in batadv_tt_tvlv_container_update env tt)"

text \<open>
  The loop that makes the table fit a new packet size need not end: \<open>while_option\<close> is \<open>None\<close> when
  it does not. Its state is the timeout, whether something was removed, and the table.
\<close>

definition resize_again :: "tt_env \<Rightarrow> nat \<times> bool \<times> batadv_priv_tt \<Rightarrow> bool" where
  "resize_again env s \<longleftrightarrow>
     (case s of (_, _, tt) \<Rightarrow> bp_packet_size_max (te_priv env) < batadv_tt_local_table_transmit_size tt)"

definition resize_step :: "tt_env \<Rightarrow> nat \<times> bool \<times> batadv_priv_tt \<Rightarrow> nat \<times> bool \<times> batadv_priv_tt" where
  "resize_step env s =
     (case s of (timeout, _, tt) \<Rightarrow>
        (timeout div 2, True, batadv_tt_local_purge_pending_clients (batadv_tt_local_purge env timeout tt)))"

definition batadv_tt_local_resize_to_mtu ::
    "(batadv_priv_tt \<Rightarrow> batadv_priv_tt) \<Rightarrow> tt_env \<Rightarrow> batadv_priv_tt \<Rightarrow> batadv_priv_tt option" where
  "batadv_tt_local_resize_to_mtu mla_update env tt =
     map_option (\<lambda>(_, reduced, tt). if reduced then batadv_tt_local_commit_changes_nolock mla_update env tt else tt)
       (while_option (resize_again env) (resize_step env) (BATADV_TT_LOCAL_TIMEOUT div 2, False, tt))"

section \<open>Requests\<close>

definition batadv_tt_req_purge :: "tt_env \<Rightarrow> batadv_priv_tt \<Rightarrow> batadv_priv_tt" where
  "batadv_tt_req_purge env tt =
     tt\<lparr>tt_req_list := filter (\<lambda>node. \<not> batadv_has_timed_out (te_m2j env) (te_now env) (rq_issued_at node)
          BATADV_TT_REQUEST_TIMEOUT) (tt_req_list tt)\<rparr>"

text \<open>The Boolean says that there is a new node; it is then the head of the list.\<close>

definition batadv_tt_req_node_new :: "tt_env \<Rightarrow> mac \<Rightarrow> batadv_priv_tt \<Rightarrow> batadv_priv_tt \<times> bool" where
  "batadv_tt_req_node_new env orig_node tt =
     (if list_ex (\<lambda>node. rq_addr node = orig_node
           \<and> \<not> batadv_has_timed_out (te_m2j env) (te_now env) (rq_issued_at node) BATADV_TT_REQUEST_TIMEOUT)
          (tt_req_list tt) then (tt, False)
      else if \<not> te_alloc env (Site_Req orig_node) then (tt, False)
      else (tt\<lparr>tt_req_list := \<lparr>rq_addr = orig_node, rq_issued_at = te_now env\<rparr> # tt_req_list tt\<rparr>, True))"

definition tt_request_bytes :: "u8 \<Rightarrow> batadv_tvlv_tt_vlan_data list \<Rightarrow> bool \<Rightarrow> u8 list" where
  "tt_request_bytes ttvn tt_vlan full_table =
     tt_data_bytes (if full_table then BATADV_TT_REQUEST OR BATADV_TT_FULL_TABLE else BATADV_TT_REQUEST) ttvn
       (of_nat (length tt_vlan)) @ concat (map (vlan_data_bytes [0, 0]) tt_vlan)"

definition batadv_send_tt_request ::
    "tt_env \<Rightarrow> mac \<Rightarrow> u8 \<Rightarrow> batadv_tvlv_tt_vlan_data list \<Rightarrow> bool \<Rightarrow> batadv_priv_tt \<Rightarrow> batadv_priv_tt \<times> bool" where
  "batadv_send_tt_request env dst_orig_node ttvn tt_vlan full_table tt =
     (case primary_addr (te_priv env) of
        None \<Rightarrow> (tt, False)
      | Some addr \<Rightarrow>
          (case batadv_tt_req_node_new env dst_orig_node tt of
             (tt, False) \<Rightarrow> (tt, False)
           | (tt, True) \<Rightarrow>
               if \<not> te_alloc env Site_Request then (tt, False)
               else
                 let tt = tt_event (Tt_Unicast addr dst_orig_node BATADV_TVLV_TT
                       (tt_request_bytes ttvn tt_vlan full_table)) tt
                 in (tt\<lparr>tt_req_list := tl (tt_req_list tt)\<rparr>, True)))"

section \<open>Responses\<close>

definition set_tt_data :: "u8 \<Rightarrow> u8 \<Rightarrow> u8 list \<Rightarrow> u8 list" where
  "set_tt_data flags ttvn data = data[0 := flags, 1 := ttvn]"

definition response_flags :: "bool \<Rightarrow> u8" where
  "response_flags full_table = (if full_table then BATADV_TT_RESPONSE OR BATADV_TT_FULL_TABLE else BATADV_TT_RESPONSE)"

definition batadv_send_other_tt_response ::
    "tt_env \<Rightarrow> u8 list \<Rightarrow> mac \<Rightarrow> mac \<Rightarrow> batadv_priv_tt \<Rightarrow> batadv_priv_tt \<times> bool" where
  "batadv_send_other_tt_response env tt_data req_src req_dst tt =
     (let on = tt_orig tt req_dst; req_ttvn = tt_data ! 1 in
      if batadv_orig_hash_find (te_priv env) req_dst = None then (tt, False)
      else if batadv_orig_hash_find (te_priv env) req_src = None then (tt, False)
      else if to_last_ttvn on \<noteq> req_ttvn
        \<or> \<not> batadv_tt_global_check_crc env req_dst
              (tt_vlans_at (te_past env) tt_data (unat (tt_num_vlan tt_data))) tt then (tt, False)
      else
        let full_table = (tt_data ! 0 AND BATADV_TT_FULL_TABLE \<noteq> 0 \<or> to_tt_buff on = None);
            buff = the (to_tt_buff on) in
        case batadv_tt_prepare_tvlv_global_data env req_dst (if full_table then -1 else int (length buff)) tt of
          (None, _, _) \<Rightarrow> (tt, False)
        | (Some head, tt_len, tvlv_len) \<Rightarrow>
            if tt_len = 0 then (tt, False)
            else
              let data = head @ (if full_table
                    then batadv_tt_tvlv_generate env tt_len (batadv_tt_global_valid req_dst) (tt_global_hash tt)
                    else buff)
              in if int UNICAST_TVLV_HLEN + uint tvlv_len > bp_packet_size_max (te_priv env) then (tt, False)
                 else (tt_event (Tt_Unicast req_dst req_src BATADV_TVLV_TT
                         (take (unat tvlv_len) (set_tt_data (response_flags full_table) req_ttvn data))) tt, True))"

text \<open>Without memory the code goes on with the pointers it did not set, unless the table is empty.\<close>

definition batadv_send_my_tt_response :: "tt_env \<Rightarrow> u8 list \<Rightarrow> mac \<Rightarrow> batadv_priv_tt \<Rightarrow> batadv_priv_tt" where
  "batadv_send_my_tt_response env tt_data req_src tt =
     (let my_ttvn = tt_vn tt; req_ttvn = tt_data ! 1 in
      if batadv_orig_hash_find (te_priv env) req_src = None then tt
      else
        case primary_addr (te_priv env) of
          None \<Rightarrow> tt
        | Some addr \<Rightarrow>
            let full_table = (tt_data ! 0 AND BATADV_TT_FULL_TABLE \<noteq> 0 \<or> my_ttvn \<noteq> req_ttvn
                  \<or> tt_last_changeset tt = None);
                changeset = the (tt_last_changeset tt);
                req_ttvn = (if full_table then my_ttvn else req_ttvn) in
            case batadv_tt_prepare_tvlv_local_data env (if full_table then -1 else int (length changeset)) tt of
              (head, tt_len, tvlv_len) \<Rightarrow>
                if tt_len = 0 then tt
                else
                  (case head of
                     None \<Rightarrow> tt_event Tt_Bad_Access tt
                   | Some head \<Rightarrow>
                       let data = head @ (if full_table
                             then batadv_tt_tvlv_generate env tt_len batadv_tt_local_valid (tt_local_hash tt)
                             else changeset)
                       in tt_event (Tt_Unicast addr req_src BATADV_TVLV_TT
                            (take (unat tvlv_len) (set_tt_data (response_flags full_table) req_ttvn data))) tt))"

definition batadv_send_tt_response ::
    "tt_env \<Rightarrow> u8 list \<Rightarrow> mac \<Rightarrow> mac \<Rightarrow> batadv_priv_tt \<Rightarrow> batadv_priv_tt \<times> bool" where
  "batadv_send_tt_response env tt_data req_src req_dst tt =
     (if batadv_is_my_mac (te_priv env) req_dst then (batadv_send_my_tt_response env tt_data req_src tt, True)
      else batadv_send_other_tt_response env tt_data req_src req_dst tt)"

section \<open>The tables of others\<close>

text \<open>The loop of \<^verbatim>\<open>_batadv_tt_update_changes\<close>.\<close>

fun tt_update_changes1 :: "tt_env \<Rightarrow> mac \<Rightarrow> u8 \<Rightarrow> batadv_tvlv_tt_change list \<Rightarrow> batadv_priv_tt \<Rightarrow> batadv_priv_tt" where
  "tt_update_changes1 env orig_node ttvn [] tt = upd_tt_orig orig_node (\<lambda>on. on\<lparr>to_has_tt := True\<rparr>) tt"
| "tt_update_changes1 env orig_node ttvn (c # cs) tt =
     (if ch_flags c AND BATADV_TT_CLIENT_DEL \<noteq> 0
      then tt_update_changes1 env orig_node ttvn cs
             (batadv_tt_global_del env orig_node (ch_addr c) (ch_vid c) (ch_flags c AND BATADV_TT_CLIENT_ROAM \<noteq> 0) tt)
      else
        case batadv_tt_global_add env orig_node (ch_addr c) (ch_vid c) (ucast (ch_flags c)) ttvn tt of
          (tt, False) \<Rightarrow> tt
        | (tt, True) \<Rightarrow> tt_update_changes1 env orig_node ttvn cs tt)"

definition batadv_tt_fill_gtable ::
    "tt_env \<Rightarrow> batadv_tvlv_tt_change list \<Rightarrow> u8 \<Rightarrow> mac \<Rightarrow> batadv_priv_tt \<Rightarrow> batadv_priv_tt" where
  "batadv_tt_fill_gtable env tt_change ttvn resp_src tt =
     (if batadv_orig_hash_find (te_priv env) resp_src = None then tt
      else
        let tt = batadv_tt_global_del_orig env resp_src (-1) tt;
            tt = tt_update_changes1 env resp_src ttvn tt_change tt
        in upd_tt_orig resp_src (\<lambda>on. on\<lparr>to_tt_buff := None, to_last_ttvn := ttvn\<rparr>) tt)"

definition batadv_tt_save_orig_buffer :: "tt_env \<Rightarrow> mac \<Rightarrow> u8 list \<Rightarrow> batadv_priv_tt \<Rightarrow> batadv_priv_tt" where
  "batadv_tt_save_orig_buffer env orig_node tt_buff tt =
     (if tt_buff = [] then tt
      else upd_tt_orig orig_node (\<lambda>on. on\<lparr>to_tt_buff :=
             (if te_alloc env (Site_Tt_Buff orig_node) then Some tt_buff else None)\<rparr>) tt)"

text \<open>\<open>tt_change\<close> are the bytes from the first change on, \<open>tt_num_changes\<close> of which are used.\<close>

definition batadv_tt_update_changes :: "tt_env \<Rightarrow> mac \<Rightarrow> nat \<Rightarrow> u8 \<Rightarrow> u8 list \<Rightarrow> batadv_priv_tt \<Rightarrow> batadv_priv_tt" where
  "batadv_tt_update_changes env orig_node tt_num_changes ttvn tt_change tt =
     (let tt = tt_update_changes1 env orig_node ttvn (tt_changes_at tt_num_changes tt_change) tt;
          tt = batadv_tt_save_orig_buffer env orig_node
                 (take (unat (of_int (batadv_tt_len (int tt_num_changes)) :: u16)) tt_change) tt
      in upd_tt_orig orig_node (\<lambda>on. on\<lparr>to_last_ttvn := ttvn\<rparr>) tt)"

definition batadv_handle_tt_response :: "tt_env \<Rightarrow> u8 list \<Rightarrow> mac \<Rightarrow> nat \<Rightarrow> batadv_priv_tt \<Rightarrow> batadv_priv_tt" where
  "batadv_handle_tt_response env tt_data resp_src num_entries tt =
     (if batadv_orig_hash_find (te_priv env) resp_src = None then tt
      else
        let change_offset = of_nat TT_VLAN_LEN * tt_num_vlan tt_data + of_nat TT_DATA_LEN :: u16;
            tt_change = drop (unat change_offset) tt_data;
            tt = (if tt_data ! 0 AND BATADV_TT_FULL_TABLE \<noteq> 0
                  then batadv_tt_fill_gtable env (tt_changes_at num_entries tt_change) (tt_data ! 1) resp_src tt
                  else batadv_tt_update_changes env resp_src num_entries (tt_data ! 1) tt_change tt);
            tt = batadv_tt_global_update_crc env resp_src tt
        in tt\<lparr>tt_req_list := filter (\<lambda>node. rq_addr node \<noteq> resp_src) (tt_req_list tt)\<rparr>)"

definition batadv_tt_update_orig ::
    "tt_env \<Rightarrow> mac \<Rightarrow> batadv_tvlv_tt_vlan_data list \<Rightarrow> u8 list \<Rightarrow> nat \<Rightarrow> u8 \<Rightarrow> batadv_priv_tt \<Rightarrow> batadv_priv_tt" where
  "batadv_tt_update_orig env orig_node tt_vlan tt_change tt_num_changes ttvn tt =
     (let orig_ttvn = to_last_ttvn (tt_orig tt orig_node);
          has_tt_init = to_has_tt (tt_orig tt orig_node);
          request_table = (\<lambda>full_table tt. fst (batadv_send_tt_request env orig_node ttvn tt_vlan full_table tt)) in
      if \<not> has_tt_init \<and> ttvn = 1 \<or> uint ttvn - uint orig_ttvn = 1 then
        if tt_num_changes = 0 then request_table False tt
        else
          let tt = batadv_tt_update_changes env orig_node tt_num_changes ttvn tt_change tt;
              tt = batadv_tt_global_update_crc env orig_node tt
          in if \<not> batadv_tt_global_check_crc env orig_node tt_vlan tt then request_table True tt else tt
      else if \<not> has_tt_init \<or> ttvn \<noteq> orig_ttvn \<or> \<not> batadv_tt_global_check_crc env orig_node tt_vlan tt
      then request_table True tt
      else tt)"

section \<open>Handlers\<close>

definition batadv_tt_tvlv_ogm_handler_v1 :: "tt_env \<Rightarrow> mac \<Rightarrow> u8 list \<Rightarrow> batadv_priv_tt \<Rightarrow> batadv_priv_tt" where
  "batadv_tt_tvlv_ogm_handler_v1 env orig tvlv_value tt =
     (if length tvlv_value < TT_DATA_LEN then tt
      else
        let num_vlan = unat (tt_num_vlan tvlv_value);
            vlan_len = TT_VLAN_LEN * num_vlan in
        if length tvlv_value - TT_DATA_LEN < vlan_len then tt
        else
          let tvlv_value_len = of_nat (length tvlv_value - TT_DATA_LEN - vlan_len);
              num_entries = unat (batadv_tt_entries tvlv_value_len)
          in batadv_tt_update_orig env orig (tt_vlans_at (te_past env) tvlv_value num_vlan)
               (drop (TT_DATA_LEN + vlan_len) tvlv_value) num_entries (tvlv_value ! 1) tt)"

definition batadv_tt_tvlv_unicast_handler_v1 ::
    "tt_env \<Rightarrow> mac \<Rightarrow> mac \<Rightarrow> u8 list \<Rightarrow> batadv_priv_tt \<Rightarrow> batadv_priv_tt \<times> int" where
  "batadv_tt_tvlv_unicast_handler_v1 env src dst tvlv_value tt =
     (if length tvlv_value < TT_DATA_LEN then (tt, NET_RX_SUCCESS)
      else
        let tt_vlan_len = of_nat TT_VLAN_LEN * tt_num_vlan tvlv_value :: u16 in
        if length tvlv_value - TT_DATA_LEN < unat tt_vlan_len then (tt, NET_RX_SUCCESS)
        else
          let tvlv_value_len = of_nat (length tvlv_value - TT_DATA_LEN - unat tt_vlan_len);
              tt_num_entries = unat (batadv_tt_entries tvlv_value_len);
              kind = tvlv_value ! 0 AND BATADV_TT_DATA_TYPE_MASK in
          if kind = BATADV_TT_REQUEST then
            (case batadv_send_tt_response env tvlv_value src dst tt of
               (tt, True) \<Rightarrow> (tt, NET_RX_SUCCESS)
             | (tt, False) \<Rightarrow> (tt, NET_RX_DROP))
          else if kind = BATADV_TT_RESPONSE then
            (if batadv_is_my_mac (te_priv env) dst
             then (batadv_handle_tt_response env tvlv_value src tt_num_entries tt, NET_RX_SUCCESS)
             else (tt, NET_RX_DROP))
          else (tt, NET_RX_SUCCESS))"

definition batadv_roam_tvlv_unicast_handler_v1 ::
    "tt_env \<Rightarrow> mac \<Rightarrow> mac \<Rightarrow> u8 list \<Rightarrow> batadv_priv_tt \<Rightarrow> batadv_priv_tt \<times> int" where
  "batadv_roam_tvlv_unicast_handler_v1 env src dst tvlv_value tt =
     (if \<not> batadv_is_my_mac (te_priv env) dst then (tt, NET_RX_DROP)
      else if length tvlv_value < 8 then (tt, NET_RX_SUCCESS)
      else if batadv_orig_hash_find (te_priv env) src = None then (tt, NET_RX_SUCCESS)
      else (fst (batadv_tt_global_add env src (be_word (take 6 tvlv_value)) (be_word (take 2 (drop 6 tvlv_value)))
              BATADV_TT_CLIENT_ROAM (to_last_ttvn (tt_orig tt src) + 1) tt), NET_RX_SUCCESS))"

text \<open>The handlers see the environment of the packet they are called for together with the table.\<close>

definition batadv_tt_init ::
    "bool \<Rightarrow> bool \<Rightarrow> (tt_env \<times> batadv_priv_tt) batadv_priv_tvlv \<Rightarrow> (tt_env \<times> batadv_priv_tt) batadv_priv_tvlv" where
  "batadv_tt_init tt_alloc roam_alloc tv =
     (let tv = batadv_tvlv_handler_register tt_alloc
            (Some (\<lambda>(env, tt) orig flags tvlv_value. (env, batadv_tt_tvlv_ogm_handler_v1 env (the orig) tvlv_value tt)))
            (Some (\<lambda>(env, tt) src dst tvlv_value.
               apfst (Pair env) (batadv_tt_tvlv_unicast_handler_v1 env src dst tvlv_value tt)))
            BATADV_TVLV_TT 1 BATADV_NO_FLAGS tv
      in batadv_tvlv_handler_register roam_alloc None
            (Some (\<lambda>(env, tt) src dst tvlv_value.
               apfst (Pair env) (batadv_roam_tvlv_unicast_handler_v1 env src dst tvlv_value tt)))
            BATADV_TVLV_ROAM 1 BATADV_NO_FLAGS tv)"

section \<open>Periodic work and the end\<close>

definition batadv_tt_roam_purge :: "tt_env \<Rightarrow> batadv_priv_tt \<Rightarrow> batadv_priv_tt" where
  "batadv_tt_roam_purge env tt =
     tt\<lparr>tt_roam_list := filter (\<lambda>node. \<not> batadv_has_timed_out (te_m2j env) (te_now env) (ro_first_time node)
          BATADV_ROAMING_MAX_TIME) (tt_roam_list tt)\<rparr>"

definition batadv_tt_purge :: "tt_env \<Rightarrow> batadv_priv_tt \<Rightarrow> batadv_priv_tt" where
  "batadv_tt_purge env tt =
     batadv_tt_roam_purge env (batadv_tt_req_purge env (batadv_tt_global_purge env
       (batadv_tt_local_purge env BATADV_TT_LOCAL_TIMEOUT tt)))"

definition batadv_tt_global_table_free :: "tt_env \<Rightarrow> batadv_priv_tt \<Rightarrow> batadv_priv_tt" where
  "batadv_tt_global_table_free env tt =
     (case global_walk (\<lambda>s. (None, snd (batadv_tt_global_del_orig_list env s))) (tt_global_hash tt) (tt_orig tt) of
        (gs, origs) \<Rightarrow> tt\<lparr>tt_global_hash := gs, tt_orig := origs\<rparr>)"

definition batadv_tt_free :: "tt_env \<Rightarrow> batadv_priv_tt \<Rightarrow> batadv_priv_tt" where
  "batadv_tt_free env tt =
     (let tt = batadv_tt_global_table_free env (tt\<lparr>tt_local_hash := []\<rparr>)
      in batadv_tt_changes_list_free (tt\<lparr>tt_req_list := []\<rparr>)\<lparr>tt_roam_list := []\<rparr>)"

end
