(* ===== verification/Tt_Tables.thy ===== *)
theory Tt_Tables
  imports Tt_Msg Interfaces "HOL-Library.Multiset"
begin

text \<open>
  The tables of clients as maps, the flags of a client as bits, and the invariant of the tables
  that every operation keeps.
\<close>

section \<open>Flags\<close>

lemma and_exp_bit [simp]:
  "(w :: u16) AND 1 = 0 \<longleftrightarrow> \<not> bit w 0" "w AND 2 = 0 \<longleftrightarrow> \<not> bit w 1"
  "w AND 0x10 = 0 \<longleftrightarrow> \<not> bit w 4" "w AND 0x20 = 0 \<longleftrightarrow> \<not> bit w 5" "w AND 0x100 = 0 \<longleftrightarrow> \<not> bit w 8"
  "w AND 0x200 = 0 \<longleftrightarrow> \<not> bit w 9" "w AND 0x400 = 0 \<longleftrightarrow> \<not> bit w 10" "w AND 0x800 = 0 \<longleftrightarrow> \<not> bit w 11"
  using and_exp_eq_0_iff_not_bit [of w 0] and_exp_eq_0_iff_not_bit [of w 1] and_exp_eq_0_iff_not_bit [of w 4]
    and_exp_eq_0_iff_not_bit [of w 5] and_exp_eq_0_iff_not_bit [of w 8] and_exp_eq_0_iff_not_bit [of w 9]
    and_exp_eq_0_iff_not_bit [of w 10] and_exp_eq_0_iff_not_bit [of w 11]
  by simp_all

lemma test_bits: "bit ((w :: u16) OR 0x400) 1 \<longleftrightarrow> bit w 1" "\<not> bit ((w :: u16) AND NOT 2) 1"
  "bit (w OR 2) 1" "bit (w AND NOT 0x400) 9 = bit w 9" "bit (0x200 :: u16) 9"
  by (simp_all add: bit_simps)

lemma tt_fold_keeps: "(\<And>x t. P t \<Longrightarrow> P (f x t)) \<Longrightarrow> P t \<Longrightarrow> P (fold f xs t)"
  by (induction xs arbitrary: t) simp_all

section \<open>Tables as maps\<close>

definition tt_keys :: "'a batadv_tt_common_entry_scheme list \<Rightarrow> (mac \<times> u16) list" where
  "tt_keys es = map (\<lambda>e. (tt_addr e, tt_vid e)) es"

abbreviation tt_table_ok :: "'a batadv_tt_common_entry_scheme list \<Rightarrow> bool" where
  "tt_table_ok es \<equiv> distinct (tt_keys es)"

lemma tt_keys_Nil [simp]: "tt_keys [] = []" and tt_keys_Cons [simp]: "tt_keys (e # es) = (tt_addr e, tt_vid e) # tt_keys es"
  and tt_keys_append [simp]: "tt_keys (es @ fs) = tt_keys es @ tt_keys fs"
  by (simp_all add: tt_keys_def)

lemma tt_find_simps [simp]: "batadv_tt_hash_find [] addr vid = None"
  "batadv_tt_hash_find (e # es) addr vid = (if tt_addr e = addr \<and> tt_vid e = vid then Some e else batadv_tt_hash_find es addr vid)"
  by (simp_all add: batadv_tt_hash_find_def batadv_compare_tt_def)

lemma tt_find_append: "batadv_tt_hash_find (es @ fs) addr vid =
    (case batadv_tt_hash_find es addr vid of None \<Rightarrow> batadv_tt_hash_find fs addr vid | Some e \<Rightarrow> Some e)"
  by (induction es) auto

lemma tt_find_None: "batadv_tt_hash_find es addr vid = None \<longleftrightarrow> (addr, vid) \<notin> set (tt_keys es)"
  by (induction es) auto

lemma tt_find_SomeD: "batadv_tt_hash_find es addr vid = Some e \<Longrightarrow> e \<in> set es \<and> tt_addr e = addr \<and> tt_vid e = vid"
  by (induction es) (auto split: if_splits)

lemma tt_find_in: "tt_table_ok es \<Longrightarrow> e \<in> set es \<Longrightarrow> batadv_tt_hash_find es (tt_addr e) (tt_vid e) = Some e"
  by (induction es) (auto simp: tt_keys_def)

lemma tt_find_iff: "tt_table_ok es \<Longrightarrow>
    batadv_tt_hash_find es addr vid = Some e \<longleftrightarrow> e \<in> set es \<and> tt_addr e = addr \<and> tt_vid e = vid"
  using tt_find_SomeD tt_find_in by blast

lemma set_tt_hash_add [simp]: "set (tt_hash_add env e es) = insert e (set es)"
  unfolding tt_hash_add_def Let_def using takeWhile_dropWhile_id [of _ es] by (metis (no_types) Un_insert_right list.simps(15) set_append)

lemma mset_tt_hash_add: "mset (tt_hash_add env e es) = add_mset e (mset es)"
  unfolding tt_hash_add_def Let_def using takeWhile_dropWhile_id [of _ es]
  by (metis (no_types) mset.simps(2) mset_append union_mset_add_mset_right)

lemma set_tt_keys_add [simp]: "set (tt_keys (tt_hash_add env e es)) = insert (tt_addr e, tt_vid e) (set (tt_keys es))"
  by (simp add: tt_keys_def)

lemma mset_tt_keys_add: "mset (tt_keys (tt_hash_add env e es)) = add_mset (tt_addr e, tt_vid e) (mset (tt_keys es))"
  by (simp add: tt_keys_def mset_tt_hash_add)

lemma tt_table_ok_add [intro]:
  assumes "tt_table_ok es" "(tt_addr e, tt_vid e) \<notin> set (tt_keys es)"
  shows "tt_table_ok (tt_hash_add env e es)"
proof -
  have "mset (tt_keys (tt_hash_add env e es)) = mset ((tt_addr e, tt_vid e) # tt_keys es)"
    by (simp add: mset_tt_keys_add)
  moreover have "distinct ((tt_addr e, tt_vid e) # tt_keys es)"
    using assms by simp
  ultimately show ?thesis
    by (metis mset_eq_imp_distinct_iff)
qed

lemma tt_find_add:
  assumes "(tt_addr e, tt_vid e) \<notin> set (tt_keys es)"
  shows "batadv_tt_hash_find (tt_hash_add env e es) addr vid =
    (if tt_addr e = addr \<and> tt_vid e = vid then Some e else batadv_tt_hash_find es addr vid)"
proof -
  define p where "p = (\<lambda>x :: 'a batadv_tt_common_entry_scheme.
    te_choose env (tt_addr x) (tt_vid x) < te_choose env (tt_addr e) (tt_vid e))"
  have es: "es = takeWhile p es @ dropWhile p es" by simp
  have "batadv_tt_hash_find (takeWhile p es) (tt_addr e) (tt_vid e) = None"
    using assms es unfolding tt_find_None by (metis (no_types, lifting) UnI1 set_append tt_keys_append)
  then show ?thesis
    unfolding tt_hash_add_def Let_def p_def [symmetric]
    by (subst (2) es) (auto simp only: tt_find_append tt_find_simps split: option.splits if_splits)
qed

lemma tt_find_remove: "batadv_tt_hash_find (tt_hash_remove a v es) addr vid =
    (if a = addr \<and> v = vid then None else batadv_tt_hash_find es addr vid)"
  by (induction es) (auto simp: tt_hash_remove_def batadv_compare_tt_def)

lemma tt_keys_remove: "tt_keys (tt_hash_remove a v es) = filter (\<lambda>k. k \<noteq> (a, v)) (tt_keys es)"
  by (induction es) (auto simp: tt_hash_remove_def batadv_compare_tt_def)

lemma tt_table_ok_remove [intro]: "tt_table_ok es \<Longrightarrow> tt_table_ok (tt_hash_remove a v es)"
  by (simp add: tt_keys_remove)

lemma set_tt_hash_remove: "set (tt_hash_remove a v es) = {e \<in> set es. \<not> (tt_addr e = a \<and> tt_vid e = v)}"
  by (auto simp: tt_hash_remove_def batadv_compare_tt_def)

definition keeps_key :: "mac \<Rightarrow> u16 \<Rightarrow> ('a batadv_tt_common_entry_scheme \<Rightarrow> 'a batadv_tt_common_entry_scheme) \<Rightarrow> bool" where
  "keeps_key a v f \<longleftrightarrow> (\<forall>e. tt_addr e = a \<longrightarrow> tt_vid e = v \<longrightarrow> tt_addr (f e) = a \<and> tt_vid (f e) = v)"

lemma tt_keys_write: "keeps_key a v f \<Longrightarrow> tt_keys (tt_hash_write a v f es) = tt_keys es"
  by (induction es) (auto simp: tt_hash_write_def batadv_compare_tt_def keeps_key_def)

lemma tt_find_write: "keeps_key a v f \<Longrightarrow> batadv_tt_hash_find (tt_hash_write a v f es) addr vid =
    (if a = addr \<and> v = vid then map_option f (batadv_tt_hash_find es addr vid) else batadv_tt_hash_find es addr vid)"
  by (induction es) (auto simp: tt_hash_write_def batadv_compare_tt_def keeps_key_def)

lemma set_tt_hash_write: "set (tt_hash_write a v f es) =
    (\<lambda>e. if tt_addr e = a \<and> tt_vid e = v then f e else e) ` set es"
  by (auto simp: tt_hash_write_def batadv_compare_tt_def)

text \<open>The table is a keyed table in the sense of the interface, with the guard of \<^verbatim>\<open>batadv_hash_add\<close>.\<close>

definition tt_table_add ::
    "tt_env \<Rightarrow> 'a batadv_tt_common_entry_scheme list \<Rightarrow> 'a batadv_tt_common_entry_scheme
      \<Rightarrow> 'a batadv_tt_common_entry_scheme list \<times> bool" where
  "tt_table_add env es e =
     (if batadv_tt_hash_find es (tt_addr e) (tt_vid e) = None then (tt_hash_add env e es, True) else (es, False))"

definition tt_table_find ::
    "'a batadv_tt_common_entry_scheme list \<Rightarrow> mac \<times> u16 \<Rightarrow> 'a batadv_tt_common_entry_scheme option" where
  "tt_table_find es k = batadv_tt_hash_find es (fst k) (snd k)"

definition tt_table_del ::
    "'a batadv_tt_common_entry_scheme list \<Rightarrow> mac \<times> u16
      \<Rightarrow> 'a batadv_tt_common_entry_scheme list \<times> 'a batadv_tt_common_entry_scheme option" where
  "tt_table_del es k = (tt_hash_remove (fst k) (snd k) es, tt_table_find es k)"

interpretation tt_table: keyed_table "\<lambda>e. (tt_addr e, tt_vid e)" "\<lambda>es. tt_table_ok es" tt_table_find "tt_table_add env" tt_table_del
  by unfold_locales
    (auto simp: tt_table_add_def tt_table_find_def tt_table_del_def tt_find_add tt_find_remove tt_find_None fun_eq_iff
      dest: tt_find_SomeD)

section \<open>What an operation leaves alone\<close>

lemma event_frame [simp]:
  "tt_local_hash (batadv_tt_local_event env l f tt) = tt_local_hash tt"
  "tt_global_hash (batadv_tt_local_event env l f tt) = tt_global_hash tt"
  "tt_orig (batadv_tt_local_event env l f tt) = tt_orig tt"
  "tt_softif_vlan_list (batadv_tt_local_event env l f tt) = tt_softif_vlan_list tt"
  by (auto simp: batadv_tt_local_event_def Let_def split: prod.splits)

lemma write_frame [simp]:
  "tt_local_hash (local_write a v f tt) = tt_hash_write a v f (tt_local_hash tt)"
  "tt_global_hash (local_write a v f tt) = tt_global_hash tt"
  "tt_orig (local_write a v f tt) = tt_orig tt"
  "tt_softif_vlan_list (local_write a v f tt) = tt_softif_vlan_list tt"
  "tt_changes_list (local_write a v f tt) = tt_changes_list tt"
  "tt_local_changes (local_write a v f tt) = tt_local_changes tt"
  "tt_global_hash (global_write a v g tt) = tt_hash_write a v g (tt_global_hash tt)"
  "tt_local_hash (global_write a v g tt) = tt_local_hash tt"
  "tt_orig (global_write a v g tt) = tt_orig tt"
  "tt_softif_vlan_list (global_write a v g tt) = tt_softif_vlan_list tt"
  "tt_changes_list (global_write a v g tt) = tt_changes_list tt"
  "tt_local_changes (global_write a v g tt) = tt_local_changes tt"
  by (simp_all add: local_write_def global_write_def)

text \<open>Roaming advertisements touch only the list of clients that roamed and the output.\<close>

definition same_tables :: "batadv_priv_tt \<Rightarrow> batadv_priv_tt \<Rightarrow> bool" where
  "same_tables tt tt' \<longleftrightarrow> tt_local_hash tt' = tt_local_hash tt \<and> tt_global_hash tt' = tt_global_hash tt
     \<and> tt_orig tt' = tt_orig tt \<and> tt_softif_vlan_list tt' = tt_softif_vlan_list tt
     \<and> tt_changes_list tt' = tt_changes_list tt \<and> tt_local_changes tt' = tt_local_changes tt"

lemma same_tables_refl [simp]: "same_tables tt tt"
  by (simp add: same_tables_def)

lemma same_tables_trans: "same_tables tt tt' \<Longrightarrow> same_tables tt' tt'' \<Longrightarrow> same_tables tt tt''"
  by (simp add: same_tables_def)

lemma roam_adv_same [simp]: "same_tables tt (batadv_send_roam_adv env client vid orig tt)"
  by (auto simp: batadv_send_roam_adv_def batadv_tt_check_roam_count_def tt_event_def same_tables_def
      split: option.splits prod.splits bool.splits if_splits)

lemma roam_advs_same: "same_tables tt (fold (\<lambda>(og, _). batadv_send_roam_adv env client vid og) ogs tt)"
  by (induction ogs arbitrary: tt) (auto intro: same_tables_trans [OF roam_adv_same])

lemma request_same: "same_tables tt (fst (batadv_send_tt_request env orig ttvn vlans full tt))"
  by (auto simp: batadv_send_tt_request_def batadv_tt_req_node_new_def tt_event_def same_tables_def
      split: option.splits prod.splits bool.splits)

lemma tt_event_same [simp]: "same_tables tt (tt_event ev tt)"
  by (simp add: tt_event_def same_tables_def)

lemma other_response_same: "same_tables tt (fst (batadv_send_other_tt_response env data src dst tt))"
  unfolding batadv_send_other_tt_response_def Let_def by (simp split: option.split prod.split)

lemma my_response_same: "same_tables tt (batadv_send_my_tt_response env data src tt)"
  unfolding batadv_send_my_tt_response_def Let_def by (simp split: option.split prod.split)

lemma response_same: "same_tables tt (fst (batadv_send_tt_response env data src dst tt))"
  by (simp add: batadv_send_tt_response_def other_response_same my_response_same)

end
