(* ===== verification/Tt_Owner.thy ===== *)
theory Tt_Owner
  imports Tt_Tables
begin

text \<open>
  The invariant of the translation table: both tables hold a client once, the originators of a
  global client are counted, the waiting changes are counted, and a client that this node
  serves is never taken for a client of another node.
\<close>

section \<open>The invariant\<close>

definition orig_list_ok :: "batadv_tt_global_entry \<Rightarrow> bool" where
  "orig_list_ok g \<longleftrightarrow> distinct (map fst (tg_orig_list g)) \<and> tg_orig_list_count g = int (length (tg_orig_list g))"

text \<open>A client in both tables is pending in the local one, or marked as roaming in the global one.\<close>

definition owner_ok :: "batadv_priv_tt \<Rightarrow> bool" where
  "owner_ok tt \<longleftrightarrow> (\<forall>addr vid l g. batadv_tt_local_hash_find tt addr vid = Some l \<longrightarrow>
     batadv_tt_global_hash_find tt addr vid = Some g \<longrightarrow> \<not> is_multicast_ether_addr addr \<longrightarrow>
     \<not> bit (tt_flags l) 10 \<longrightarrow> bit (tt_flags g) 1)"

definition changes_counted :: "batadv_priv_tt \<Rightarrow> bool" where
  "changes_counted tt \<longleftrightarrow> tt_local_changes tt = int (length (tt_changes_list tt))"

definition tt_ok :: "batadv_priv_tt \<Rightarrow> bool" where
  "tt_ok tt \<longleftrightarrow> tt_table_ok (tt_local_hash tt) \<and> tt_table_ok (tt_global_hash tt)
     \<and> (\<forall>g\<in>set (tt_global_hash tt). orig_list_ok g) \<and> owner_ok tt \<and> changes_counted tt"

lemma find_frame:
  "batadv_tt_local_hash_find (batadv_tt_local_event env l f tt) a v = batadv_tt_local_hash_find tt a v"
  "batadv_tt_global_hash_find (batadv_tt_local_event env l f tt) a v = batadv_tt_global_hash_find tt a v"
  "batadv_tt_global_hash_find (local_write x y h tt) a v = batadv_tt_global_hash_find tt a v"
  "batadv_tt_local_hash_find (global_write x y k tt) a v = batadv_tt_local_hash_find tt a v"
  "keeps_key x y h \<Longrightarrow> batadv_tt_local_hash_find (local_write x y h tt) a v =
    (if x = a \<and> y = v then map_option h (batadv_tt_local_hash_find tt a v) else batadv_tt_local_hash_find tt a v)"
  "keeps_key x y k \<Longrightarrow> batadv_tt_global_hash_find (global_write x y k tt) a v =
    (if x = a \<and> y = v then map_option k (batadv_tt_global_hash_find tt a v) else batadv_tt_global_hash_find tt a v)"
  by (simp_all add: batadv_tt_local_hash_find_def batadv_tt_global_hash_find_def tt_find_write)

lemma same_tables_ok: "same_tables tt tt' \<Longrightarrow> tt_ok tt' = tt_ok tt"
  by (simp add: tt_ok_def owner_ok_def changes_counted_def same_tables_def batadv_tt_local_hash_find_def
      batadv_tt_global_hash_find_def)

lemma same_tables_find: "same_tables tt tt' \<Longrightarrow> batadv_tt_local_hash_find tt' = batadv_tt_local_hash_find tt \<and>
    batadv_tt_global_hash_find tt' = batadv_tt_global_hash_find tt"
  by (simp add: same_tables_def batadv_tt_local_hash_find_def batadv_tt_global_hash_find_def fun_eq_iff)

lemma event_scan_length: "event_scan flags addr cs = (cs', b) \<Longrightarrow> length cs = length cs' + (if b then 1 else 0)"
  by (induction cs arbitrary: cs' b) (auto simp: Let_def split: if_splits prod.splits)

lemma event_counted: "changes_counted tt \<Longrightarrow> changes_counted (batadv_tt_local_event env l f tt)"
  by (auto simp: changes_counted_def batadv_tt_local_event_def Let_def dest: event_scan_length split: prod.splits)

text \<open>A client is at its place in both tables; \<open>at_key\<close> compares two states at all other clients.\<close>

definition same_but :: "mac \<Rightarrow> u16 \<Rightarrow> batadv_priv_tt \<Rightarrow> batadv_priv_tt \<Rightarrow> bool" where
  "same_but addr vid tt tt' \<longleftrightarrow> (\<forall>a v. (a, v) \<noteq> (addr, vid) \<longrightarrow>
     batadv_tt_local_hash_find tt' a v = batadv_tt_local_hash_find tt a v \<and>
     batadv_tt_global_hash_find tt' a v = batadv_tt_global_hash_find tt a v)"

lemma same_but_refl [simp]: "same_but a v tt tt"
  by (simp add: same_but_def)

lemma same_but_trans: "same_but a v tt tt' \<Longrightarrow> same_but a v tt' tt'' \<Longrightarrow> same_but a v tt tt''"
  by (simp add: same_but_def)

definition owner_at :: "mac \<Rightarrow> u16 \<Rightarrow> batadv_priv_tt \<Rightarrow> bool" where
  "owner_at addr vid tt \<longleftrightarrow> (\<forall>l g. batadv_tt_local_hash_find tt addr vid = Some l \<longrightarrow>
     batadv_tt_global_hash_find tt addr vid = Some g \<longrightarrow> \<not> is_multicast_ether_addr addr \<longrightarrow>
     \<not> bit (tt_flags l) 10 \<longrightarrow> bit (tt_flags g) 1)"

lemma owner_ok_same_but: "owner_ok tt \<Longrightarrow> same_but a v tt tt' \<Longrightarrow> owner_at a v tt' \<Longrightarrow> owner_ok tt'"
  unfolding owner_ok_def same_but_def owner_at_def by (metis prod.inject)

text \<open>The rest of the invariant.\<close>

definition tables_ok :: "batadv_priv_tt \<Rightarrow> bool" where
  "tables_ok tt \<longleftrightarrow> tt_table_ok (tt_local_hash tt) \<and> tt_table_ok (tt_global_hash tt)
     \<and> (\<forall>g\<in>set (tt_global_hash tt). orig_list_ok g) \<and> changes_counted tt"

lemma tt_ok_split: "tt_ok tt \<longleftrightarrow> tables_ok tt \<and> owner_ok tt"
  by (auto simp: tt_ok_def tables_ok_def)

lemma same_tables_tables_ok: "same_tables tt tt' \<Longrightarrow> tables_ok tt' = tables_ok tt"
  by (simp add: tables_ok_def changes_counted_def same_tables_def)

lemma event_tables_ok: "tables_ok tt \<Longrightarrow> tables_ok (batadv_tt_local_event env l f tt)"
  by (simp add: tables_ok_def event_counted)

lemma local_write_tables_ok: "keeps_key a v f \<Longrightarrow> tables_ok tt \<Longrightarrow> tables_ok (local_write a v f tt)"
  by (simp add: tables_ok_def tt_keys_write changes_counted_def)

lemma global_write_tables_ok:
  "keeps_key a v f \<Longrightarrow> (\<And>g. orig_list_ok g \<Longrightarrow> orig_list_ok (f g)) \<Longrightarrow> tables_ok tt \<Longrightarrow> tables_ok (global_write a v f tt)"
  by (auto simp: tables_ok_def tt_keys_write changes_counted_def set_tt_hash_write)

section \<open>Local clients\<close>

lemma global_free_frame [simp]:
  "tt_local_hash (batadv_tt_global_free a v tt) = tt_local_hash tt"
  "tt_orig (batadv_tt_global_free a v tt) = tt_orig tt"
  "tt_softif_vlan_list (batadv_tt_global_free a v tt) = tt_softif_vlan_list tt"
  by (simp_all add: batadv_tt_global_free_def)

lemma global_free_tables_ok: "tables_ok tt \<Longrightarrow> tables_ok (batadv_tt_global_free a v tt)"
  by (auto simp: tables_ok_def batadv_tt_global_free_def changes_counted_def set_tt_hash_remove)

lemma global_free_find:
  "batadv_tt_local_hash_find (batadv_tt_global_free a v tt) x y = batadv_tt_local_hash_find tt x y"
  "batadv_tt_global_hash_find (batadv_tt_global_free a v tt) x y =
    (if a = x \<and> v = y then None else batadv_tt_global_hash_find tt x y)"
  by (simp_all add: batadv_tt_global_free_def batadv_tt_local_hash_find_def batadv_tt_global_hash_find_def tt_find_remove)

lemma roaming_handled_facts:
  assumes ok: "tables_ok tt" and tt': "tt' = roaming_handled env addr vid rb tt"
  shows "same_but addr vid tt tt' \<and> tt_local_hash tt' = tt_local_hash tt \<and> tables_ok tt'
    \<and> (\<forall>g. \<not> is_multicast_ether_addr addr \<longrightarrow> batadv_tt_global_hash_find tt' addr vid = Some g \<longrightarrow> bit (tt_flags g) 1)"
proof (cases "is_multicast_ether_addr addr \<or> batadv_tt_global_hash_find tt addr vid = None
    \<or> bit (tt_flags (the (batadv_tt_global_hash_find tt addr vid))) 1")
  case True
  then show ?thesis using ok tt' by (auto simp: roaming_handled_def split: option.splits)
next
  case False
  then obtain g where g: "\<not> is_multicast_ether_addr addr" "batadv_tt_global_hash_find tt addr vid = Some g"
    "\<not> bit (tt_flags g) 1" by auto
  define t where "t = fold (\<lambda>(og, _). batadv_send_roam_adv env addr vid og) (tg_orig_list g) tt"
  have t: "same_tables tt t"
    unfolding t_def by (rule roam_advs_same)
  have tok: "tables_ok t" using ok same_tables_tables_ok [OF t] by simp
  define f where "f = (\<lambda>g :: batadv_tt_global_entry. g\<lparr>tt_flags := tt_flags g OR 2, tg_roam_at := te_now env\<rparr>)"
  have f: "keeps_key addr vid f" "\<And>g. orig_list_ok g \<Longrightarrow> orig_list_ok (f g)" "\<And>g. bit (tt_flags (f g)) 1"
    by (simp_all add: f_def keeps_key_def orig_list_ok_def bit_simps)
  have "tt' = (if rb then batadv_tt_global_free addr vid t else global_write addr vid f t)"
    using g by (simp add: tt' roaming_handled_def t_def f_def)
  moreover have "tt_local_hash t = tt_local_hash tt" using t by (simp add: same_tables_def)
  ultimately show ?thesis
    using tok same_tables_find [OF t] f g
    by (auto simp: same_but_def find_frame global_free_find global_free_tables_ok global_write_tables_ok global_free_frame)
qed

lemma set_flag_if_bits:
  "bit (set_flag_if c 0x10 w) 10 = bit w 10" "bit (set_flag_if c 0x20 w) 10 = bit w 10"
  "bit (set_flag_if c 0x10 w) 9 = bit w 9" "bit (set_flag_if c 0x20 w) 9 = bit w 9"
  by (simp_all add: set_flag_if_def bit_simps)

lemma local_flags_updated_facts:
  assumes "tables_ok tt" "tt_addr l = addr" "tt_vid l = vid"
  shows "same_but addr vid tt (local_flags_updated env l wifi mark tt) \<and> tables_ok (local_flags_updated env l wifi mark tt)
    \<and> tt_global_hash (local_flags_updated env l wifi mark tt) = tt_global_hash tt"
  using assms
  by (auto simp: local_flags_updated_def Let_def same_but_def find_frame keeps_key_def
      intro!: event_tables_ok local_write_tables_ok)

lemma check_roaming_facts:
  assumes "tables_ok tt" "tt_addr l = addr" "tt_vid l = vid"
  shows "same_but addr vid tt (local_flags_updated env l wifi mark (roaming_handled env addr vid rb tt))
    \<and> tables_ok (local_flags_updated env l wifi mark (roaming_handled env addr vid rb tt))
    \<and> owner_at addr vid (local_flags_updated env l wifi mark (roaming_handled env addr vid rb tt))"
proof -
  note r = roaming_handled_facts [OF assms(1) refl, of addr vid env rb]
  note f = local_flags_updated_facts [OF _ assms(2,3), of "roaming_handled env addr vid rb tt" env wifi mark]
  show ?thesis
    using r f same_but_trans unfolding owner_at_def by (auto simp: batadv_tt_global_hash_find_def)
qed

lemma put_facts:
  assumes "tables_ok tt" "tt_addr l = addr" "tt_vid l = vid"
  shows "same_but addr vid tt (local_write addr vid (\<lambda>_. l) tt) \<and> tables_ok (local_write addr vid (\<lambda>_. l) tt)"
  using assms by (auto simp: same_but_def find_frame keeps_key_def intro!: local_write_tables_ok)

lemma event_facts: "tables_ok tt \<Longrightarrow> same_but a v tt (batadv_tt_local_event env l f tt) \<and> tables_ok (batadv_tt_local_event env l f tt)"
  by (auto simp: same_but_def find_frame intro: event_tables_ok)

lemma local_hash_add_facts:
  assumes "tables_ok tt" "batadv_tt_local_hash_find tt addr vid = None" "tt_addr l = addr" "tt_vid l = vid"
  shows "same_but addr vid tt (tt\<lparr>tt_local_hash := tt_hash_add env l (tt_local_hash tt)\<rparr>)
    \<and> tables_ok (tt\<lparr>tt_local_hash := tt_hash_add env l (tt_local_hash tt)\<rparr>)"
  using assms
  by (auto simp: same_but_def tables_ok_def changes_counted_def batadv_tt_local_hash_find_def
      batadv_tt_global_hash_find_def tt_find_None tt_find_add)

text \<open>All ways through \<^verbatim>\<open>batadv_tt_local_add\<close> that change something end in the same part.\<close>

lemma local_add_form:
  assumes ok: "tables_ok tt" and tt': "tt' = fst (batadv_tt_local_add env addr vid wifi mark tt)" and ne: "tt' \<noteq> tt"
  obtains l rb t where "tt' = local_flags_updated env l wifi mark (roaming_handled env addr vid rb t)"
    "tt_addr l = addr" "tt_vid l = vid" "tables_ok t" "same_but addr vid tt t"
    "tt_global_hash t = tt_global_hash tt" "tt_orig t = tt_orig tt"
    "rb \<longrightarrow> (\<exists>l0. batadv_tt_local_hash_find tt addr vid = Some l0 \<and> \<not> bit (tt_flags l0) 10)"
    "tt_softif_vlan_list t = tt_softif_vlan_list tt" "batadv_tt_local_hash_find t addr vid = Some l"
    "batadv_tt_local_hash_find tt addr vid = None \<and> tt_local_hash t = tt_hash_add env l (tt_local_hash tt) \<and> bit (tt_flags l) 9
        \<and> batadv_softif_vlan_get tt vid \<noteq> None
      \<or> (\<exists>l0. batadv_tt_local_hash_find tt addr vid = Some l0 \<and> bit (tt_flags l) 9 = bit (tt_flags l0) 9
          \<and> tt_local_hash t = tt_hash_write addr vid (\<lambda>_. l) (tt_local_hash tt))"
proof (cases "batadv_tt_local_hash_find tt addr vid")
  case None
  define l where "l = \<lparr>tt_addr = addr, tt_vid = vid, tt_flags = 0x200 OR (if wifi then 0x10 else 0)
      OR (if addr = te_soft_addr env \<or> is_multicast_ether_addr addr then 0x100 else 0),
      tt_added_at = te_now env, tl_last_seen = te_now env\<rparr>"
  define t where "t = batadv_tt_local_event env l 0 (tt\<lparr>tt_local_hash := tt_hash_add env l (tt_local_hash tt)\<rparr>)"
  have l: "tt_addr l = addr" "tt_vid l = vid" by (simp_all add: l_def)
  have eq: "tt' = local_flags_updated env l wifi mark (roaming_handled env addr vid False t)"
    using ne None tt' unfolding batadv_tt_local_add_def Let_def l_def t_def
    by (simp split: if_splits)
  have t: "tables_ok t" "same_but addr vid tt t"
    using event_facts [of _ addr vid] local_hash_add_facts [OF ok None l] same_but_trans unfolding t_def by blast+
  have "bit (tt_flags l) 9" by (simp add: l_def bit_simps)
  moreover have "batadv_softif_vlan_get tt vid \<noteq> None"
    using ne None tt' unfolding batadv_tt_local_add_def Let_def by (simp split: if_splits)
  moreover have "batadv_tt_local_hash_find t addr vid = Some l"
    using None l by (simp add: t_def batadv_tt_local_hash_find_def tt_find_None tt_find_add)
  ultimately show ?thesis
    by (intro that [OF eq l t]) (use None in \<open>simp_all add: t_def\<close>)
next
  case (Some l0)
  then have l0: "tt_addr l0 = addr" "tt_vid l0 = vid"
    by (auto simp: batadv_tt_local_hash_find_def dest: tt_find_SomeD)
  define l where "l = l0\<lparr>tl_last_seen := te_now env, tt_flags := (if bit (tt_flags l0) 10 then tt_flags l0 AND NOT 0x400
      else if bit (tt_flags l0) 1 then tt_flags l0 AND NOT 2 else tt_flags l0)\<rparr>"
  have l: "tt_addr l = addr" "tt_vid l = vid" using l0 by (simp_all add: l_def)
  define t where "t = (if bit (tt_flags l0) 10 then batadv_tt_local_event env l 0 (local_write addr vid (\<lambda>_. l) tt)
      else local_write addr vid (\<lambda>_. l) tt)"
  have eq: "tt' = local_flags_updated env l wifi mark (roaming_handled env addr vid
      (\<not> bit (tt_flags l0) 10 \<and> bit (tt_flags l0) 1) t)"
    using tt' Some unfolding batadv_tt_local_add_def Let_def l_def t_def by simp
  have t: "tables_ok t" "same_but addr vid tt t"
    using put_facts [OF ok l] event_facts [of _ addr vid] same_but_trans unfolding t_def by (auto split: if_splits)
  have "bit (tt_flags l) 9 = bit (tt_flags l0) 9" by (simp add: l_def bit_simps)
  moreover have "batadv_tt_local_hash_find t addr vid = Some l"
    using Some l by (simp add: t_def find_frame keeps_key_def)
  ultimately show ?thesis
    by (intro that [OF eq l t]) (use Some in \<open>simp_all add: t_def\<close>)
qed

lemma local_add_facts:
  assumes ok: "tables_ok tt" and tt': "tt' = fst (batadv_tt_local_add env addr vid wifi mark tt)"
  shows "same_but addr vid tt tt' \<and> tables_ok tt' \<and> (tt' = tt \<or> owner_at addr vid tt')"
proof (cases "tt' = tt")
  case False
  obtain l rb t where "tt' = local_flags_updated env l wifi mark (roaming_handled env addr vid rb t)"
    "tt_addr l = addr" "tt_vid l = vid" "tables_ok t" "same_but addr vid tt t"
    by (rule local_add_form [OF ok tt' False], rule that)
  then show ?thesis using check_roaming_facts [of t l addr vid env wifi mark rb] same_but_trans by blast
qed (use ok in simp)

text \<open>A client that is taken out is pending from now on, or gone.\<close>

lemma set_pending_facts:
  assumes "tables_ok tt" "tt_addr l = addr" "tt_vid l = vid"
  shows "same_but addr vid tt (batadv_tt_local_set_pending env l flags tt)
    \<and> tables_ok (batadv_tt_local_set_pending env l flags tt)
    \<and> tt_global_hash (batadv_tt_local_set_pending env l flags tt) = tt_global_hash tt
    \<and> (\<forall>l'. batadv_tt_local_hash_find (batadv_tt_local_set_pending env l flags tt) addr vid = Some l' \<longrightarrow> bit (tt_flags l') 10)"
  using assms by (auto simp: batadv_tt_local_set_pending_def same_but_def find_frame keeps_key_def bit_simps
      intro!: local_write_tables_ok event_tables_ok)

lemma local_hash_remove_facts:
  assumes "tables_ok tt"
  shows "same_but addr vid tt (tt\<lparr>tt_local_hash := tt_hash_remove addr vid (tt_local_hash tt)\<rparr>)
    \<and> tables_ok (tt\<lparr>tt_local_hash := tt_hash_remove addr vid (tt_local_hash tt)\<rparr>)
    \<and> batadv_tt_local_hash_find (tt\<lparr>tt_local_hash := tt_hash_remove addr vid (tt_local_hash tt)\<rparr>) addr vid = None"
  using assms
  by (auto simp: same_but_def tables_ok_def changes_counted_def batadv_tt_local_hash_find_def
      batadv_tt_global_hash_find_def tt_find_remove)

lemma local_remove_facts:
  assumes ok: "tables_ok tt" and tt': "tt' = fst (batadv_tt_local_remove env addr vid roaming tt)"
  shows "same_but addr vid tt tt' \<and> tables_ok tt' \<and> tt_global_hash tt' = tt_global_hash tt
    \<and> (\<forall>l'. batadv_tt_local_hash_find tt' addr vid = Some l' \<longrightarrow> bit (tt_flags l') 10)"
proof (cases "batadv_tt_local_hash_find tt addr vid")
  case None
  then show ?thesis using ok tt' by (simp add: batadv_tt_local_remove_def)
next
  case (Some l0)
  define l where "l = (if roaming then l0\<lparr>tt_flags := tt_flags l0 OR 2\<rparr> else l0)"
  define t where "t = local_write addr vid (\<lambda>_. l) tt"
  have l: "tt_addr l = addr" "tt_vid l = vid"
    using Some by (auto simp: l_def batadv_tt_local_hash_find_def dest: tt_find_SomeD)
  have t: "tables_ok t" "same_but addr vid tt t" "tt_global_hash t = tt_global_hash tt"
    using put_facts [OF ok l] by (simp_all add: t_def)
  show ?thesis
  proof (cases "bit (tt_flags l) 9")
    case False
    then have "tt' = batadv_tt_local_set_pending env l (1 OR (if roaming then 2 else 0)) t"
      using tt' Some by (simp add: batadv_tt_local_remove_def Let_def t_def flip: l_def)
    then show ?thesis using set_pending_facts [OF t(1) l] t same_but_trans by metis
  next
    case True
    define u where "u = batadv_tt_local_event env l 1 t"
    have u: "tables_ok u" "same_but addr vid tt u" "tt_global_hash u = tt_global_hash tt"
      using event_facts [OF t(1), of addr vid] t same_but_trans by (auto simp: u_def)
    have "tt' = u\<lparr>tt_local_hash := tt_hash_remove addr vid (tt_local_hash u)\<rparr>"
      using True tt' Some by (simp add: batadv_tt_local_remove_def Let_def t_def u_def flip: l_def)
    then show ?thesis using local_hash_remove_facts [OF u(1), of addr vid] u same_but_trans by simp
  qed
qed

lemma local_purge_facts:
  assumes "tt_ok tt"
  shows "tt_ok (batadv_tt_local_purge env timeout tt)"
proof -
  have "tt_ok t \<Longrightarrow> tt_ok (if local_to_purge env timeout l then batadv_tt_local_set_pending env l 1 t else t)" for t l
    using set_pending_facts [of t l _ _ env 1] owner_ok_same_but [of t "tt_addr l" "tt_vid l"]
    by (auto simp: tt_ok_split owner_at_def)
  then have "tt_ok t \<Longrightarrow> tt_ok (fold (\<lambda>l tt. if local_to_purge env timeout l
      then batadv_tt_local_set_pending env l 1 tt else tt) ls t)" for ls t
    by (induction ls arbitrary: t) simp_all
  then show ?thesis using assms by (simp add: batadv_tt_local_purge_def)
qed

section \<open>Global clients\<close>

text \<open>What happens to the entry when originators are taken out of it.\<close>

lemma del_orig_fold: "fst (fold (\<lambda>(og, _). del_orig_entry env og) ogs s) = (fst s)
    \<lparr>tg_orig_list := filter (\<lambda>(w, _). w \<notin> fst ` set ogs) (tg_orig_list (fst s)),
     tg_orig_list_count := tg_orig_list_count (fst s) - int (length ogs)\<rparr>"
proof (induction ogs arbitrary: s)
  case Nil
  then show ?case by simp
next
  case (Cons p ogs)
  then show ?case
    by (cases p; cases s) (auto simp: del_orig_entry_def case_prod_unfold intro!: filter_cong)
qed

lemma del_orig_list_fst: "fst (batadv_tt_global_del_orig_list env (g, origs)) =
    g\<lparr>tg_orig_list := [], tg_orig_list_count := tg_orig_list_count g - int (length (tg_orig_list g))\<rparr>"
proof -
  have "filter (\<lambda>(w, _). w \<notin> fst ` set (tg_orig_list g)) (tg_orig_list g) = []"
    by (auto simp: filter_empty_conv image_iff)
  then show ?thesis by (simp add: batadv_tt_global_del_orig_list_def del_orig_fold)
qed

lemma del_orig_node_filter: "batadv_tt_global_del_orig_node env orig s =
    fold (\<lambda>(og, _). del_orig_entry env og) (filter (\<lambda>(w, _). w = orig) (tg_orig_list (fst s))) s"
proof -
  have "fold (\<lambda>(og, _) s. if og = orig then del_orig_entry env og s else s) ogs t =
      fold (\<lambda>(og, _). del_orig_entry env og) (filter (\<lambda>(w, _). w = orig) ogs) t" for ogs t
    by (induction ogs arbitrary: t) auto
  then show ?thesis by (simp add: batadv_tt_global_del_orig_node_def)
qed

lemma length_filter_this: "distinct (map fst ogs) \<Longrightarrow>
    length (filter (\<lambda>(w, _). w = orig) ogs) = (if orig \<in> fst ` set ogs then 1 else 0)"
proof (induction ogs)
  case (Cons p ogs)
  then show ?case by (cases p) (auto simp: image_iff filter_empty_conv)
qed simp

lemma del_orig_node_fst:
  assumes "distinct (map fst (tg_orig_list g))"
  shows "fst (batadv_tt_global_del_orig_node env orig (g, origs)) =
    g\<lparr>tg_orig_list := filter (\<lambda>(w, _). w \<noteq> orig) (tg_orig_list g),
      tg_orig_list_count := tg_orig_list_count g - (if orig \<in> fst ` set (tg_orig_list g) then 1 else 0)\<rparr>"
proof -
  have "w \<in> fst ` set (filter (\<lambda>(w, _). w = orig) ogs) \<longleftrightarrow> w = orig" if "(w, n) \<in> set ogs" for w n and ogs :: "(mac \<times> u8) list"
    using that by force
  then have "filter (\<lambda>(w, _). w \<notin> fst ` set (filter (\<lambda>(w, _). w = orig) (tg_orig_list g))) (tg_orig_list g)
      = filter (\<lambda>(w, _). w \<noteq> orig) (tg_orig_list g)"
    by (intro filter_cong) auto
  then show ?thesis
    unfolding del_orig_node_filter del_orig_fold fst_conv using length_filter_this [OF assms, of orig] by simp
qed

lemma orig_list_ok_clear: "orig_list_ok g \<Longrightarrow> orig_list_ok
    (g\<lparr>tg_orig_list := [], tg_orig_list_count := tg_orig_list_count g - int (length (tg_orig_list g))\<rparr>)"
  by (simp add: orig_list_ok_def)

lemma length_filter_orig: "distinct (map fst ogs) \<Longrightarrow>
    int (length (filter (\<lambda>(w, _). w \<noteq> orig) ogs)) = int (length ogs) - (if orig \<in> fst ` set ogs then 1 else 0)"
  by (induction ogs) (auto split: if_splits simp: image_iff intro!: filter_True arg_cong [where f = length])

lemma orig_list_ok_del_orig_node:
  "orig_list_ok g \<Longrightarrow> orig_list_ok (fst (batadv_tt_global_del_orig_node env orig (g, origs)))"
  by (auto simp: orig_list_ok_def del_orig_node_fst length_filter_orig distinct_map_filter)

definition same_client :: "batadv_tt_global_entry \<Rightarrow> batadv_tt_global_entry \<Rightarrow> bool" where
  "same_client g g' \<longleftrightarrow> tt_addr g' = tt_addr g \<and> tt_vid g' = tt_vid g"

lemma orig_entry_add_facts:
  assumes "orig_list_ok g" "fst (batadv_tt_global_orig_entry_add env orig ttvn (g, origs)) = g'"
  shows "same_client g g' \<and> orig_list_ok g' \<and> tt_flags g' = tt_flags g"
proof -
  have "length (AList.update orig ttvn ogs) = length ogs" if "(orig, b) \<in> set ogs" for b and ogs :: "(mac \<times> u8) list"
    using that by (induction ogs) auto
  note this [symmetric, simp]
  show ?thesis
    using assms by (auto simp: batadv_tt_global_orig_entry_add_def batadv_tt_global_entry_has_orig_def
        batadv_tt_global_orig_entry_find_def orig_list_ok_def same_client_def distinct_update map_of_eq_None_iff split: if_splits)
qed

lemma global_existing_facts:
  assumes "orig_list_ok g" "global_existing env orig flags (g, origs) = Tt_Add_Orig s"
  shows "same_client g (fst s) \<and> orig_list_ok (fst s)"
proof -
  note c = del_orig_list_fst orig_list_ok_clear
  show ?thesis
    using assms unfolding global_existing_def Let_def
    by (auto simp: same_client_def del_orig_list_fst orig_list_ok_def case_prod_unfold apfst_def map_prod_def
        split: if_splits)
qed

lemma tables_ok_orig [simp]: "tables_ok (tt\<lparr>tt_orig := x\<rparr>) = tables_ok tt"
  "batadv_tt_local_hash_find (tt\<lparr>tt_orig := x\<rparr>) = batadv_tt_local_hash_find tt"
  "batadv_tt_global_hash_find (tt\<lparr>tt_orig := x\<rparr>) = batadv_tt_global_hash_find tt"
  by (simp_all add: tables_ok_def changes_counted_def batadv_tt_local_hash_find_def batadv_tt_global_hash_find_def fun_eq_iff)

lemma tables_ok_find: "tables_ok tt \<Longrightarrow> batadv_tt_global_hash_find tt a v = Some g \<Longrightarrow>
    orig_list_ok g \<and> tt_addr g = a \<and> tt_vid g = v \<and> g \<in> set (tt_global_hash tt)"
  by (auto simp: tables_ok_def batadv_tt_global_hash_find_def dest: tt_find_SomeD)

lemma on_global_facts:
  assumes ok: "tables_ok tt"
    and f: "\<And>g. batadv_tt_global_hash_find tt a v = Some g \<Longrightarrow> same_client g (fst (f (g, tt_orig tt))) \<and> orig_list_ok (fst (f (g, tt_orig tt)))"
  shows "same_but a v tt (on_global a v f tt) \<and> tables_ok (on_global a v f tt)
    \<and> tt_local_hash (on_global a v f tt) = tt_local_hash tt
    \<and> batadv_tt_global_hash_find (on_global a v f tt) a v =
        map_option (\<lambda>g. fst (f (g, tt_orig tt))) (batadv_tt_global_hash_find tt a v)"
proof (cases "batadv_tt_global_hash_find tt a v")
  case None
  then show ?thesis using ok by (simp add: on_global_def)
next
  case (Some g)
  obtain g' origs where fg: "f (g, tt_orig tt) = (g', origs)" by fastforce
  have key: "keeps_key a v (\<lambda>_. g')"
    using tables_ok_find [OF ok Some] f [OF Some] fg by (simp add: keeps_key_def same_client_def)
  have ok': "orig_list_ok g'" using f [OF Some] fg by simp
  show ?thesis
    using Some fg key ok ok' by (auto simp: on_global_def same_but_def find_frame intro!: global_write_tables_ok)
qed

lemma out_remove_facts:
  assumes ok: "tables_ok tt"
  shows "same_but addr vid tt (global_out_remove env addr vid flags tt) \<and> tables_ok (global_out_remove env addr vid flags tt)
    \<and> owner_at addr vid (global_out_remove env addr vid flags tt)"
proof (cases "is_multicast_ether_addr addr")
  case True
  then show ?thesis using ok by (simp add: global_out_remove_def owner_at_def)
next
  case False
  obtain t fl where t: "batadv_tt_local_remove env addr vid (flags AND 2 \<noteq> 0) tt = (t, fl)" by fastforce
  then have f: "same_but addr vid tt t" "tables_ok t"
    "\<forall>l'. batadv_tt_local_hash_find t addr vid = Some l' \<longrightarrow> bit (tt_flags l') 10"
    using local_remove_facts [OF ok, of t env addr vid "flags AND 2 \<noteq> 0"] by simp_all
  show ?thesis
    using False t f
    by (auto simp: global_out_remove_def same_but_def owner_at_def find_frame keeps_key_def orig_list_ok_def Let_def
        intro!: global_write_tables_ok)
qed

lemma global_hash_add_facts:
  assumes "tables_ok tt" "batadv_tt_global_hash_find tt addr vid = None" "tt_addr g = addr" "tt_vid g = vid" "orig_list_ok g"
  shows "same_but addr vid tt (tt\<lparr>tt_global_hash := tt_hash_add env g (tt_global_hash tt)\<rparr>)
    \<and> tables_ok (tt\<lparr>tt_global_hash := tt_hash_add env g (tt_global_hash tt)\<rparr>)"
  using assms
  by (auto simp: same_but_def tables_ok_def changes_counted_def batadv_tt_local_hash_find_def
      batadv_tt_global_hash_find_def tt_find_None tt_find_add)

lemma global_add_ok:
  assumes "tt_ok tt"
  shows "tt_ok (fst (batadv_tt_global_add env orig addr vid flags ttvn tt))"
proof -
  have ok: "tables_ok tt" "owner_ok tt" using assms by (simp_all add: tt_ok_split)
  have fin: "tt_ok (global_out_remove env addr vid flags t)" if "tables_ok t" "same_but addr vid tt t" for t
    using out_remove_facts [OF that(1), of addr vid env flags] that(2) owner_ok_same_but [OF ok(2)] same_but_trans
    unfolding tt_ok_split by blast
  define new where "new = tt\<lparr>tt_global_hash := tt_hash_add env (global_new env addr vid flags) (tt_global_hash tt)\<rparr>"
  have new: "tt_ok (global_out_remove env addr vid flags (on_global addr vid (batadv_tt_global_orig_entry_add env orig ttvn) new))"
    if n: "batadv_tt_global_hash_find tt addr vid = None"
  proof -
    have "same_but addr vid tt new \<and> tables_ok new"
      unfolding new_def by (rule global_hash_add_facts [OF ok(1) n]) (simp_all add: global_new_def orig_list_ok_def)
    moreover have "same_but addr vid new (on_global addr vid (batadv_tt_global_orig_entry_add env orig ttvn) new)
        \<and> tables_ok (on_global addr vid (batadv_tt_global_orig_entry_add env orig ttvn) new)"
      if "tables_ok new"
      using on_global_facts [OF that, of addr vid "batadv_tt_global_orig_entry_add env orig ttvn"]
        orig_entry_add_facts [OF _ refl] tables_ok_find [OF that] by blast
    ultimately show ?thesis using fin same_but_trans by blast
  qed
  have add: "tt_ok (global_out_remove env addr vid flags (on_global addr vid (\<lambda>_. batadv_tt_global_orig_entry_add env orig ttvn s) tt))"
    if g: "batadv_tt_global_hash_find tt addr vid = Some g"
      and s: "global_existing env orig flags (g, tt_orig tt) = Tt_Add_Orig s" for g s
  proof -
    have e: "same_client g (fst s) \<and> orig_list_ok (fst s)"
      using global_existing_facts [OF _ s] tables_ok_find [OF ok(1) g] by blast
    have "same_client g (fst (batadv_tt_global_orig_entry_add env orig ttvn s))
        \<and> orig_list_ok (fst (batadv_tt_global_orig_entry_add env orig ttvn s))"
      using orig_entry_add_facts [OF _ refl, of "fst s" env orig ttvn "snd s"] e by (simp add: same_client_def)
    then show ?thesis
      using on_global_facts [OF ok(1), of addr vid "\<lambda>_. batadv_tt_global_orig_entry_add env orig ttvn s"] g fin by auto
  qed
  show ?thesis
    using assms new add fin [OF ok(1)] unfolding batadv_tt_global_add_def Let_def new_def
    by (auto split: option.splits tt_global_how.splits)
qed

lemma global_del_ok:
  assumes "tt_ok tt"
  shows "tt_ok (batadv_tt_global_del env orig addr vid roaming tt)"
proof -
  have ok: "tables_ok tt" "owner_ok tt" using assms by (simp_all add: tt_ok_split)
  have fin: "tt_ok t" if "tables_ok t" "same_but addr vid tt t" "owner_at addr vid t" for t
    using that owner_ok_same_but [OF ok(2)] by (simp add: tt_ok_split)
  have free: "same_but addr vid tt (batadv_tt_global_free addr vid t) \<and> owner_at addr vid (batadv_tt_global_free addr vid t)"
    if "same_but addr vid tt t" for t
    using that by (auto simp: same_but_def owner_at_def global_free_find)
  have node: "same_client g (fst (batadv_tt_global_del_orig_node env orig (g, origs)))
      \<and> orig_list_ok (fst (batadv_tt_global_del_orig_node env orig (g, origs)))
      \<and> tt_flags (fst (batadv_tt_global_del_orig_node env orig (g, origs))) = tt_flags g" if "orig_list_ok g" for g origs
    using that orig_list_ok_del_orig_node [OF that] by (simp add: orig_list_ok_def del_orig_node_fst same_client_def)
  have all: "same_client g (fst (batadv_tt_global_del_orig_list env (g, origs)))
      \<and> orig_list_ok (fst (batadv_tt_global_del_orig_list env (g, origs)))" if "orig_list_ok g" for g origs
    using that by (simp add: del_orig_list_fst same_client_def orig_list_ok_def)
  have roam: "same_client g (fst (batadv_tt_global_del_roaming env orig (g, origs)))
      \<and> orig_list_ok (fst (batadv_tt_global_del_roaming env orig (g, origs)))" if "orig_list_ok g" for g origs
    using that node by (auto simp: batadv_tt_global_del_roaming_def Let_def same_client_def orig_list_ok_def)
  note found = tables_ok_find [OF ok(1), of addr vid]
  note n = on_global_facts [OF ok(1), of addr vid "batadv_tt_global_del_orig_node env orig"]
  note l = on_global_facts [OF ok(1), of addr vid "batadv_tt_global_del_orig_list env"]
  note r = on_global_facts [OF ok(1), of addr vid "batadv_tt_global_del_roaming env orig"]
  have at: "owner_at addr vid tt" using ok(2) by (auto simp: owner_ok_def owner_at_def)
  show ?thesis
  proof (cases "batadv_tt_global_hash_find tt addr vid")
    case None
    then show ?thesis using assms by (simp add: batadv_tt_global_del_def)
  next
    case (Some g)
    have g: "orig_list_ok g" using found [OF Some] by simp
    show ?thesis
    proof (cases roaming)
      case False
      define t where "t = on_global addr vid (batadv_tt_global_del_orig_node env orig) tt"
      have t: "same_but addr vid tt t" "tables_ok t" "tt_local_hash t = tt_local_hash tt"
        "batadv_tt_global_hash_find t addr vid = Some (fst (batadv_tt_global_del_orig_node env orig (g, tt_orig tt)))"
        using n node [OF g] Some by (auto simp: t_def)
      have "owner_at addr vid t"
        using at t(3,4) node [OF g] Some by (simp add: owner_at_def batadv_tt_local_hash_find_def)
      then have "tt_ok t" by (intro fin t)
      moreover have "tt_ok (batadv_tt_global_free addr vid t)"
        using free [OF t(1)] global_free_tables_ok [OF t(2)] fin by blast
      moreover have "batadv_tt_global_del env orig addr vid roaming tt =
          (if tg_orig_list (fst (batadv_tt_global_del_orig_node env orig (g, tt_orig tt))) = []
           then batadv_tt_global_free addr vid t else t)"
        using False Some t(4) by (simp add: batadv_tt_global_del_def Let_def t_def)
      ultimately show ?thesis by simp
    next
      case True
      show ?thesis
      proof (cases "batadv_tt_local_hash_find tt addr vid")
        case None
        define t where "t = on_global addr vid (batadv_tt_global_del_roaming env orig) tt"
        have t: "same_but addr vid tt t" "tables_ok t" "tt_local_hash t = tt_local_hash tt"
          using r roam [OF g] Some by (auto simp: t_def)
        have "owner_at addr vid t"
          using t(3) None by (simp add: owner_at_def batadv_tt_local_hash_find_def)
        then show ?thesis
          using True None Some fin t by (simp add: batadv_tt_global_del_def t_def)
      next
        case (Some lo)
        have "same_but addr vid tt (on_global addr vid (batadv_tt_global_del_orig_list env) tt)
            \<and> tables_ok (on_global addr vid (batadv_tt_global_del_orig_list env) tt)"
          using l all [OF g] \<open>batadv_tt_global_hash_find tt addr vid = Some g\<close> by auto
        then show ?thesis
          using True Some free global_free_tables_ok fin \<open>batadv_tt_global_hash_find tt addr vid = Some g\<close>
          by (simp add: batadv_tt_global_del_def)
      qed
    qed
  qed
qed

text \<open>A walk over the whole table that keeps the client and the flags of what it keeps.\<close>

definition walk_ok :: "(global_st \<Rightarrow> batadv_tt_global_entry option \<times> (mac \<Rightarrow> tt_orig)) \<Rightarrow> bool" where
  "walk_ok f \<longleftrightarrow> (\<forall>g origs g'. orig_list_ok g \<longrightarrow> fst (f (g, origs)) = Some g' \<longrightarrow>
     same_client g g' \<and> orig_list_ok g' \<and> tt_flags g' = tt_flags g)"

lemma walk_from:
  assumes "walk_ok f" "\<forall>g\<in>set gs. orig_list_ok g" "g' \<in> set (fst (global_walk f gs origs))"
  shows "\<exists>g\<in>set gs. same_client g g' \<and> orig_list_ok g' \<and> tt_flags g' = tt_flags g"
  using assms
proof (induction gs arbitrary: origs)
  case (Cons g gs)
  obtain h origs' where h: "f (g, origs) = (h, origs')" by fastforce
  obtain rs origs'' where rs: "global_walk f gs origs' = (rs, origs'')" by fastforce
  have "g' \<in> set rs \<or> h = Some g'"
    using Cons.prems(3) h rs by (auto split: option.splits)
  then show ?case
  proof
    assume "g' \<in> set rs"
    then show ?thesis using Cons.IH [of origs'] Cons.prems(1,2) rs by auto
  next
    assume "h = Some g'"
    then show ?thesis using Cons.prems(1,2) h unfolding walk_ok_def by (metis fst_conv list.set_intros(1))
  qed
qed simp

lemma walk_table_ok:
  assumes "walk_ok f" "\<forall>g\<in>set gs. orig_list_ok g" "tt_table_ok gs"
  shows "tt_table_ok (fst (global_walk f gs origs))"
  using assms
proof (induction gs arbitrary: origs)
  case (Cons g gs)
  obtain h origs' where h: "f (g, origs) = (h, origs')" by fastforce
  obtain rs origs'' where rs: "global_walk f gs origs' = (rs, origs'')" by fastforce
  have ok: "tt_table_ok rs" using Cons.IH [of origs'] Cons.prems rs by simp
  have sub: "set (tt_keys rs) \<subseteq> set (tt_keys gs)"
    using walk_from [OF Cons.prems(1), of gs _ origs'] Cons.prems(2) rs
    by (force simp: tt_keys_def same_client_def)
  have kept: "h = Some g' \<Longrightarrow> tt_addr g' = tt_addr g \<and> tt_vid g' = tt_vid g" for g'
    using Cons.prems(1,2) h unfolding walk_ok_def same_client_def by (metis fst_conv list.set_intros(1))
  show ?case
  proof (cases h)
    case None
    then show ?thesis using ok h rs by simp
  next
    case (Some g')
    then show ?thesis using ok sub Cons.prems(3) kept [OF Some] h rs by auto
  qed
qed simp

lemma walk_tt_ok:
  assumes "tt_ok tt" "walk_ok f"
  shows "tt_ok (tt\<lparr>tt_global_hash := fst (global_walk f (tt_global_hash tt) origs), tt_orig := x\<rparr>)"
proof -
  have ok: "tables_ok tt" "owner_ok tt" using assms by (simp_all add: tt_ok_split)
  define tt' where "tt' = tt\<lparr>tt_global_hash := fst (global_walk f (tt_global_hash tt) origs), tt_orig := x\<rparr>"
  have gs: "\<forall>g\<in>set (tt_global_hash tt). orig_list_ok g" "tt_table_ok (tt_global_hash tt)"
    using ok(1) by (simp_all add: tables_ok_def)
  note fr = walk_from [OF assms(2) gs(1)]
  have "tables_ok tt'"
    using ok(1) walk_table_ok [OF assms(2) gs] fr unfolding tables_ok_def tt'_def changes_counted_def by simp blast
  moreover have "owner_ok tt'"
    unfolding owner_ok_def
  proof (intro allI impI)
    fix addr vid l g
    assume l: "batadv_tt_local_hash_find tt' addr vid = Some l" and g: "batadv_tt_global_hash_find tt' addr vid = Some g"
      and mc: "\<not> is_multicast_ether_addr addr" and p: "\<not> bit (tt_flags l) 10"
    have "g \<in> set (fst (global_walk f (tt_global_hash tt) origs))" "tt_addr g = addr" "tt_vid g = vid"
      using g by (auto simp: tt'_def batadv_tt_global_hash_find_def dest: tt_find_SomeD)
    then obtain g0 where g0: "g0 \<in> set (tt_global_hash tt)" "tt_addr g0 = addr" "tt_vid g0 = vid" "tt_flags g = tt_flags g0"
      using fr by (force simp: same_client_def)
    have "batadv_tt_global_hash_find tt addr vid = Some g0"
      using tt_find_in [OF gs(2) g0(1)] g0 by (simp add: batadv_tt_global_hash_find_def)
    moreover have "batadv_tt_local_hash_find tt addr vid = Some l"
      using l by (simp add: tt'_def batadv_tt_local_hash_find_def)
    ultimately show "bit (tt_flags g) 1"
      using ok(2) mc p g0(4) unfolding owner_ok_def by metis
  qed
  ultimately show ?thesis by (simp add: tt_ok_split tt'_def)
qed

lemma tt_ok_orig [simp]: "tt_ok (tt\<lparr>tt_orig := x\<rparr>) = tt_ok tt"
  by (simp add: tt_ok_split owner_ok_def)

lemma global_del_orig_ok:
  assumes "tt_ok tt"
  shows "tt_ok (batadv_tt_global_del_orig env orig match_vid tt)"
proof -
  define f where "f = (\<lambda>(g, origs).
      if match_vid \<ge> 0 \<and> uint (tt_vid g) \<noteq> match_vid then (Some g, origs)
      else (case batadv_tt_global_del_orig_node env orig (g, origs) of (g, origs) \<Rightarrow>
        (if tg_orig_list g = [] then None else Some g, origs)))"
  have "walk_ok f"
    using orig_list_ok_del_orig_node
    by (auto simp: walk_ok_def f_def case_prod_unfold del_orig_node_fst orig_list_ok_def same_client_def
        length_filter_orig distinct_map_filter split: if_splits)
  then show ?thesis
    using walk_tt_ok [OF assms, of f] unfolding batadv_tt_global_del_orig_def f_def [symmetric] by (simp add: case_prod_unfold)
qed

lemma global_purge_ok:
  assumes "tt_ok tt"
  shows "tt_ok (batadv_tt_global_purge env tt)"
proof -
  define f where "f = (\<lambda>(g, origs). if batadv_tt_global_to_purge env g
      then (None, snd (batadv_tt_global_del_orig_list env (g, origs))) else (Some g, origs))"
  have "walk_ok f" by (auto simp: walk_ok_def f_def same_client_def split: if_splits)
  then show ?thesis
    using walk_tt_ok [OF assms, of f] unfolding batadv_tt_global_purge_def f_def [symmetric] by (simp add: case_prod_unfold)
qed

section \<open>Messages and commits\<close>

lemma upd_tt_orig_ok [simp]: "tt_ok (upd_tt_orig orig f tt) = tt_ok tt"
  by (simp add: upd_tt_orig_def)

lemma req_list_ok [simp]: "tt_ok (tt\<lparr>tt_req_list := x\<rparr>) = tt_ok tt"
  and roam_list_ok [simp]: "tt_ok (tt\<lparr>tt_roam_list := y\<rparr>) = tt_ok tt"
  by (simp_all add: tt_ok_def owner_ok_def changes_counted_def batadv_tt_local_hash_find_def batadv_tt_global_hash_find_def)

lemma update_changes1_ok: "tt_ok tt \<Longrightarrow> tt_ok (tt_update_changes1 env orig ttvn cs tt)"
proof (induction cs arbitrary: tt)
  case (Cons c cs)
  then show ?case
    using global_add_ok [OF Cons.prems, of env orig "ch_addr c" "ch_vid c" "ucast (ch_flags c)" ttvn]
    by (auto simp: global_del_ok split: prod.split bool.split)
qed simp

lemma update_changes_ok: "tt_ok tt \<Longrightarrow> tt_ok (batadv_tt_update_changes env orig n ttvn data tt)"
  by (simp add: batadv_tt_update_changes_def batadv_tt_save_orig_buffer_def Let_def update_changes1_ok)

lemma fill_gtable_ok: "tt_ok tt \<Longrightarrow> tt_ok (batadv_tt_fill_gtable env cs ttvn src tt)"
  by (simp add: batadv_tt_fill_gtable_def Let_def update_changes1_ok global_del_orig_ok)

lemma update_crc_ok [simp]: "tt_ok (batadv_tt_global_update_crc env orig tt) = tt_ok tt"
  by (simp add: batadv_tt_global_update_crc_def)

lemma request_ok: "tt_ok tt \<Longrightarrow> tt_ok (fst (batadv_send_tt_request env orig ttvn vlans full tt))"
  using same_tables_ok [OF request_same] by blast

lemma handle_response_ok: "tt_ok tt \<Longrightarrow> tt_ok (batadv_handle_tt_response env data src n tt)"
  by (simp add: batadv_handle_tt_response_def Let_def fill_gtable_ok update_changes_ok)

lemma ogm_handler_ok: "tt_ok tt \<Longrightarrow> tt_ok (batadv_tt_tvlv_ogm_handler_v1 env orig data tt)"
  by (simp add: batadv_tt_tvlv_ogm_handler_v1_def batadv_tt_update_orig_def Let_def request_ok update_changes_ok)

lemma unicast_handler_ok: "tt_ok tt \<Longrightarrow> tt_ok (fst (batadv_tt_tvlv_unicast_handler_v1 env src dst data tt))"
  using same_tables_ok [OF response_same [of tt env data src dst]]
  by (auto simp: batadv_tt_tvlv_unicast_handler_v1_def Let_def handle_response_ok split: prod.split bool.split)

lemma roam_handler_ok: "tt_ok tt \<Longrightarrow> tt_ok (fst (batadv_roam_tvlv_unicast_handler_v1 env src dst data tt))"
  by (simp add: batadv_roam_tvlv_unicast_handler_v1_def global_add_ok)

lemma local_add_ok: "tt_ok tt \<Longrightarrow> tt_ok (fst (batadv_tt_local_add env addr vid wifi mark tt))"
  using local_add_facts [OF _ refl, where tt = tt and env = env and addr = addr and vid = vid and wifi = wifi and mark = mark] owner_ok_same_but by (metis tt_ok_split)

lemma local_remove_ok: "tt_ok tt \<Longrightarrow> tt_ok (fst (batadv_tt_local_remove env addr vid roaming tt))"
  using local_remove_facts [OF _ refl, where tt = tt and env = env and addr = addr and vid = vid and roaming = roaming] owner_ok_same_but [of tt addr vid]
  by (auto simp: tt_ok_split owner_at_def)

lemma set_flags_ok:
  assumes "tt_ok tt" "\<And>w. bit (if enable then w OR flags else w AND NOT flags) 10 = bit w 10"
  shows "tt_ok (batadv_tt_local_set_flags flags enable inc tt)"
proof -
  define h where "h = (\<lambda>l :: batadv_tt_local_entry. l\<lparr>tt_flags := (if enable then tt_flags l OR flags else tt_flags l AND NOT flags)\<rparr>)"
  have "keeps_key a w h" "bit (tt_flags (h l)) 10 = bit (tt_flags l) 10" for a w l
    using assms(2) [of "tt_flags l"] by (simp_all add: keeps_key_def h_def)
  then have step: "tt_ok (local_write a w h t)" if "tt_ok t" for t a w
    using that by (auto simp: tt_ok_split tables_ok_def owner_ok_def changes_counted_def
          batadv_tt_local_hash_find_def batadv_tt_global_hash_find_def tt_keys_write tt_find_write)
  have inc: "tt_ok (batadv_tt_local_size_mod v n t) = tt_ok t" for t v n
    by (simp add: tt_ok_def owner_ok_def batadv_tt_local_size_mod_def changes_counted_def
          batadv_tt_local_hash_find_def batadv_tt_global_hash_find_def)
  show ?thesis
    unfolding batadv_tt_local_set_flags_def h_def [symmetric] Let_def
    by (rule tt_fold_keeps [where P = tt_ok]) (simp_all add: assms(1) step inc del: and_exp_bit)
qed

lemma purge_pending_ok:
  assumes "tt_ok tt"
  shows "tt_ok (batadv_tt_local_purge_pending_clients tt)"
proof -
  have step: "tt_ok ((batadv_tt_local_size_mod v n t)\<lparr>tt_local_hash := tt_hash_remove a w (tt_local_hash (batadv_tt_local_size_mod v n t))\<rparr>)"
    if "tt_ok t" for t a w v n
    using that by (auto simp: tt_ok_split tables_ok_def owner_ok_def batadv_tt_local_size_mod_def changes_counted_def
          batadv_tt_local_hash_find_def batadv_tt_global_hash_find_def tt_find_remove)
  show ?thesis
    unfolding batadv_tt_local_purge_pending_clients_def Let_def
    by (rule tt_fold_keeps [where P = tt_ok]) (simp_all add: assms step del: and_exp_bit)
qed

lemma container_update_ok: "tt_ok tt \<Longrightarrow> tt_ok (batadv_tt_tvlv_container_update env tt)"
  by (auto simp: batadv_tt_tvlv_container_update_def Let_def tt_event_def tt_ok_split tables_ok_def owner_ok_def
      changes_counted_def batadv_tt_local_hash_find_def batadv_tt_global_hash_find_def split: prod.splits option.splits)

lemma commit_ok:
  assumes "tt_ok tt" "\<And>t. tt_ok t \<Longrightarrow> tt_ok (mla_update t)"
  shows "tt_ok (batadv_tt_local_commit_changes_nolock mla_update env tt)"
proof -
  have "tt_ok (tt\<lparr>tt_ogm_append_cnt := n\<rparr>) = tt_ok tt" "tt_ok (tt\<lparr>tt_vn := v\<rparr>) = tt_ok tt"
    "tt_ok (batadv_tt_local_update_crc env tt) = tt_ok tt" for n v tt
    by (simp_all add: tt_ok_def owner_ok_def changes_counted_def batadv_tt_local_hash_find_def
        batadv_tt_global_hash_find_def batadv_tt_local_update_crc_def)
  note this [simp]
  show ?thesis
    using assms by (auto simp: batadv_tt_local_commit_changes_nolock_def Let_def bit_simps
        intro!: container_update_ok purge_pending_ok set_flags_ok)
qed

lemma resize_ok:
  assumes "tt_ok tt" "\<And>t. tt_ok t \<Longrightarrow> tt_ok (mla_update t)"
    and "batadv_tt_local_resize_to_mtu mla_update env tt = Some tt'"
  shows "tt_ok tt'"
proof -
  obtain timeout reduced t where
    w: "while_option (resize_again env) (resize_step env) (BATADV_TT_LOCAL_TIMEOUT div 2, False, tt) = Some (timeout, reduced, t)"
    and tt': "tt' = (if reduced then batadv_tt_local_commit_changes_nolock mla_update env t else t)"
    using assms(3) by (auto simp: batadv_tt_local_resize_to_mtu_def)
  have "(\<lambda>(_, _, t). tt_ok t) (timeout, reduced, t)"
  proof (rule while_option_rule [OF _ w])
    show "(\<lambda>(_, _, t). tt_ok t) (resize_step env s)" if "(\<lambda>(_, _, t). tt_ok t) s" "resize_again env s" for s
      using that by (cases s) (simp add: resize_step_def local_purge_facts purge_pending_ok)
  qed (use assms(1) in simp)
  then show ?thesis using tt' commit_ok assms(2) by simp
qed

lemma tt_purge_ok: "tt_ok tt \<Longrightarrow> tt_ok (batadv_tt_purge env tt)"
  by (simp add: batadv_tt_purge_def batadv_tt_roam_purge_def batadv_tt_req_purge_def global_purge_ok local_purge_facts)

end
