(* ===== verification/Tt_Run.thy ===== *)
theory Tt_Run
  imports Tt_Owner
begin

text \<open>
  A node's translation table in operation: every entry point as a step, and what holds in all
  states that are reached.
\<close>

section \<open>Steps\<close>

text \<open>
  \<open>E\<close> restricts the environments, \<open>resize\<close> says whether the packet size may change. The multicast
  clients of a commit are local clients, whose additions and removals are steps of their own.
\<close>

inductive tt_step :: "(tt_env \<Rightarrow> bool) \<Rightarrow> bool \<Rightarrow> batadv_priv_tt \<Rightarrow> batadv_priv_tt \<Rightarrow> bool"
  for E :: "tt_env \<Rightarrow> bool" and resize :: bool where
  add: "E env \<Longrightarrow> tt_step E resize tt (fst (batadv_tt_local_add env addr vid wifi mark tt))"
| remove: "E env \<Longrightarrow> tt_step E resize tt (fst (batadv_tt_local_remove env addr vid False tt))"
| commit: "E env \<Longrightarrow> tt_step E resize tt (batadv_tt_local_commit_changes_nolock id env tt)"
| work: "E env \<Longrightarrow> tt_step E resize tt (batadv_tt_purge env tt)"
| resize: "E env \<Longrightarrow> resize \<Longrightarrow> batadv_tt_local_resize_to_mtu id env tt = Some tt' \<Longrightarrow> tt_step E resize tt tt'"
| temporary: "E env \<Longrightarrow> tt_step E resize tt (fst (batadv_tt_add_temporary_global_entry env orig addr vid tt))"
| orig_gone: "E env \<Longrightarrow> tt_step E resize tt (batadv_tt_global_del_orig env orig match_vid tt)"
| ogm: "E env \<Longrightarrow> tt_step E resize tt (batadv_tt_tvlv_ogm_handler_v1 env orig data tt)"
| unicast: "E env \<Longrightarrow> tt_step E resize tt (fst (batadv_tt_tvlv_unicast_handler_v1 env src dst data tt))"
| roam: "E env \<Longrightarrow> tt_step E resize tt (fst (batadv_roam_tvlv_unicast_handler_v1 env src dst data tt))"

lemma tt_init_ok: "tt_ok (tt_priv_init\<lparr>tt_softif_vlan_list := vlans\<rparr>)"
  by (simp add: tt_ok_def owner_ok_def changes_counted_def tt_priv_init_def batadv_tt_local_hash_find_def)

lemma tt_step_ok: "tt_step E resize tt tt' \<Longrightarrow> tt_ok tt \<Longrightarrow> tt_ok tt'"
proof (induction rule: tt_step.induct)
  case (resize env tt tt')
  then show ?case using resize_ok [of tt id env tt'] by simp
qed (simp_all add: local_add_ok local_remove_ok tt_purge_ok batadv_tt_add_temporary_global_entry_def global_add_ok
      global_del_orig_ok ogm_handler_ok unicast_handler_ok roam_handler_ok commit_ok)

definition tt_initial :: "batadv_priv_tt \<Rightarrow> bool" where
  "tt_initial tt \<longleftrightarrow> (\<exists>vlans. tt = tt_priv_init\<lparr>tt_softif_vlan_list := vlans\<rparr>)"

interpretation tt_system: transition_system tt_initial "tt_step E resize" tt_ok
  by unfold_locales (auto simp: tt_initial_def tt_init_ok intro: tt_step_ok)

text \<open>
  C12. A client is never served by this node and taken for a client of another node at the same
  time: in every state the table reaches, whatever is received and whichever allocation fails,
  a unicast client that this node announces as its own is unknown in the global table or marked
  there as roaming.
\<close>

theorem tt_owner_exclusive:
  assumes "(tt_step (\<lambda>_. True) True)\<^sup>*\<^sup>* (tt_priv_init\<lparr>tt_softif_vlan_list := vlans\<rparr>) tt"
    and "batadv_is_my_client tt addr vid" and "\<not> is_multicast_ether_addr addr"
    and "batadv_tt_global_hash_find tt addr vid = Some g"
  shows "tt_flags g AND BATADV_TT_CLIENT_ROAM \<noteq> 0"
proof -
  have "tt_ok tt"
    using tt_system.reachable_invariant [OF _ assms(1)] by (auto simp: tt_initial_def)
  moreover obtain l where "batadv_tt_local_hash_find tt addr vid = Some l" "\<not> bit (tt_flags l) 10"
    using assms(2) by (auto simp: batadv_is_my_client_def split: option.splits)
  ultimately show ?thesis
    using assms(3,4) by (simp add: tt_ok_def owner_ok_def)
qed

definition own_env :: tt_env where
  "own_env = \<lparr>te_alloc = (\<lambda>_. True), te_now = 1000, te_m2j = of_nat, te_choose = (\<lambda>_ _. 0), te_crc32c = (\<lambda>c bs. c + sum_list (map ucast bs)),
     te_backbone_gw = (\<lambda>_ _. False), te_priv = priv_init 0 (\<lambda>_. hardif_init 7 False 1500) [0],
     te_soft_addr = 2, te_isolation_mark = 0, te_isolation_mark_mask = 0, te_junk = (\<lambda>_. 0), te_past = (\<lambda>_. 0)\<rparr>"

definition own_init :: batadv_priv_tt where
  "own_init = tt_priv_init\<lparr>tt_softif_vlan_list := [\<lparr>sv_vid = 0, sv_ap_isolation = False, sv_num_entries = 0, sv_crc = 0\<rparr>]\<rparr>"

text \<open>Client 17 is first seen behind originator 5, then here.\<close>

definition own_there :: batadv_priv_tt where
  "own_there = fst (batadv_tt_add_temporary_global_entry own_env 5 17 0 own_init)"

definition own_here :: batadv_priv_tt where
  "own_here = fst (batadv_tt_local_add own_env 17 0 False 0 own_there)"

lemma own_here_reached: "(tt_step (\<lambda>_. True) True)\<^sup>*\<^sup>* own_init own_here"
  unfolding own_here_def own_there_def
  by (rule rtranclp.rtrancl_into_rtrancl [OF rtranclp.rtrancl_into_rtrancl [OF rtranclp.rtrancl_refl]])
    (rule tt_step.temporary tt_step.add; simp)+

lemma own_here_state: "batadv_is_my_client own_here 17 0" "\<not> is_multicast_ether_addr 17"
  "map_option tt_flags (batadv_tt_global_hash_find own_here 17 0) = Some (0x802)"
  by code_simp+

theorem tt_owner_exclusive_witness:
  "tt_flags (the (batadv_tt_global_hash_find own_here 17 0)) AND BATADV_TT_CLIENT_ROAM \<noteq> 0"
  using tt_owner_exclusive [OF own_here_reached [unfolded own_init_def] own_here_state(1,2)] own_here_state(3) by auto

end
