(* ===== verification/Tt_Count.thy ===== *)
theory Tt_Count
  imports Tt_Run
begin

text \<open>
  The counters per VLAN: for the clients of an originator they are the numbers of its entries in
  the global table, for our own clients the numbers of committed entries.
\<close>

section \<open>Counters of originators\<close>

definition vcount :: "tt_orig \<Rightarrow> u16 \<Rightarrow> int" where
  "vcount on vid = (case batadv_orig_node_vlan_get on vid of None \<Rightarrow> 0 | Some v \<Rightarrow> ov_num_entries v)"

text \<open>A VLAN is listed once; one without clients is the initial one for untagged traffic.\<close>

definition vlans_ok :: "tt_orig \<Rightarrow> bool" where
  "vlans_ok on \<longleftrightarrow> distinct (map ov_vid (to_vlan_list on))
     \<and> (\<forall>v\<in>set (to_vlan_list on). ov_num_entries v = 0 \<longrightarrow> ov_vid v = 0)"

definition serves :: "batadv_tt_global_entry \<Rightarrow> mac \<Rightarrow> u16 \<Rightarrow> bool" where
  "serves g orig vid \<longleftrightarrow> tt_vid g = vid \<and> orig \<in> fst ` set (tg_orig_list g)"

definition tcount :: "('a \<Rightarrow> bool) \<Rightarrow> 'a list \<Rightarrow> int" where
  "tcount P es = int (length (filter P es))"

definition gcount :: "batadv_tt_global_entry list \<Rightarrow> mac \<Rightarrow> u16 \<Rightarrow> int" where
  "gcount gs orig vid = tcount (\<lambda>g. serves g orig vid) gs"

definition orig_counted :: "batadv_priv_tt \<Rightarrow> bool" where
  "orig_counted tt \<longleftrightarrow> (\<forall>orig. vlans_ok (tt_orig tt orig)
     \<and> (\<forall>vid. vcount (tt_orig tt orig) vid = gcount (tt_global_hash tt) orig vid))"

definition vlan_memory :: "tt_env \<Rightarrow> bool" where
  "vlan_memory env \<longleftrightarrow> (\<forall>orig vid. te_alloc env (Site_Vlan orig vid))"

lemma find_upd_first:
  assumes "\<And>x. P x \<Longrightarrow> P (f x)"
  shows "List.find P (upd_first P f xs) = map_option f (List.find P xs)"
  by (induction xs) (auto simp: assms)

lemma find_vid_upd_first: "vid \<noteq> w \<Longrightarrow>
    List.find (\<lambda>v. ov_vid v = vid) (upd_first (\<lambda>v. ov_vid v = w) (\<lambda>v. v\<lparr>ov_num_entries := n\<rparr>) vs)
    = List.find (\<lambda>v. ov_vid v = vid) vs"
  by (induction vs) auto

lemma map_vid_upd_first: "map ov_vid (upd_first P (\<lambda>v. v\<lparr>ov_num_entries := n\<rparr>) vs) = map ov_vid vs"
  by (induction vs) auto

lemma find_vid_filter: "List.find (\<lambda>v. ov_vid v = vid) (filter (\<lambda>v. ov_vid v \<noteq> w) vs) =
    (if vid = w then None else List.find (\<lambda>v. ov_vid v = vid) vs)"
  by (induction vs) auto

lemma vlan_new_facts:
  assumes "vlans_ok on" "batadv_orig_node_vlan_new True on vid = (on', v)"
  shows "v \<noteq> None \<and> batadv_orig_node_vlan_get on' vid = v \<and> ov_num_entries (the v) = vcount on vid
    \<and> distinct (map ov_vid (to_vlan_list on')) \<and> ov_vid (the v) = vid
    \<and> (\<forall>w. w \<noteq> vid \<longrightarrow> batadv_orig_node_vlan_get on' w = batadv_orig_node_vlan_get on w)
    \<and> (\<forall>u\<in>set (to_vlan_list on'). ov_num_entries u = 0 \<longrightarrow> ov_vid u = 0 \<or> ov_vid u = vid)"
proof (cases "batadv_orig_node_vlan_get on vid")
  case None
  then have "on' = on\<lparr>to_vlan_list := \<lparr>ov_vid = vid, ov_num_entries = 0, ov_crc = 0\<rparr> # to_vlan_list on\<rparr>"
    "v = Some \<lparr>ov_vid = vid, ov_num_entries = 0, ov_crc = 0\<rparr>"
    using assms(2) by (simp_all add: batadv_orig_node_vlan_new_def Let_def)
  moreover have "vcount on vid = 0" using None by (simp add: vcount_def)
  ultimately show ?thesis
    using None assms(1) by (auto simp: vlans_ok_def batadv_orig_node_vlan_get_def find_None_iff)
next
  case (Some u)
  then have "on' = on" "v = Some u"
    using assms(2) by (simp_all add: batadv_orig_node_vlan_new_def)
  then show ?thesis
    using Some assms(1) by (auto simp: vcount_def vlans_ok_def batadv_orig_node_vlan_get_def dest: find_SomeD)
qed

lemma set_upd_first: "distinct (map ov_vid vs) \<Longrightarrow> u \<in> set (upd_first (\<lambda>v. ov_vid v = w) (\<lambda>v. v\<lparr>ov_num_entries := n\<rparr>) vs) \<Longrightarrow>
    u \<in> set vs \<and> ov_vid u \<noteq> w \<or> ov_num_entries u = n \<and> ov_vid u = w"
  by (induction vs) (auto split: if_splits, (metis imageI)+)

lemma global_size_mod_count:
  assumes "vlans_ok on"
  shows "vlans_ok (batadv_tt_global_size_mod True vid n on)
    \<and> vcount (batadv_tt_global_size_mod True vid n on) w = vcount on w + (if w = vid then n else 0)"
proof -
  obtain on' v where v: "batadv_orig_node_vlan_new True on vid = (on', v)" by fastforce
  note f = vlan_new_facts [OF assms v]
  then obtain u where u: "v = Some u" "batadv_orig_node_vlan_get on' vid = Some u" by auto
  define m where "m = ov_num_entries u + n"
  have m: "m = vcount on vid + n" using f u by (simp add: m_def)
  have eq: "batadv_tt_global_size_mod True vid n on =
      (if m = 0 then on'\<lparr>to_vlan_list := filter (\<lambda>x. ov_vid x \<noteq> vid) (to_vlan_list on')\<rparr>
       else on'\<lparr>to_vlan_list := upd_first (\<lambda>x. ov_vid x = vid) (\<lambda>x. x\<lparr>ov_num_entries := m\<rparr>) (to_vlan_list on')\<rparr>)"
    using v u by (simp add: batadv_tt_global_size_mod_def m_def Let_def)
  have d: "distinct (map ov_vid (to_vlan_list on'))" using f by simp
  have ok: "vlans_ok (batadv_tt_global_size_mod True vid n on)"
    using f eq set_upd_first [OF d] by (fastforce simp: vlans_ok_def distinct_map_filter map_vid_upd_first)
  have "vcount (batadv_tt_global_size_mod True vid n on) w = vcount on w" if "w \<noteq> vid"
    using that f eq by (auto simp: vcount_def batadv_orig_node_vlan_get_def find_vid_filter find_vid_upd_first)
  moreover have "vcount (batadv_tt_global_size_mod True vid n on) vid = m"
    using eq u by (auto simp: vcount_def batadv_orig_node_vlan_get_def find_vid_filter find_upd_first)
  ultimately show ?thesis using ok m by auto
qed

section \<open>Balance\<close>

text \<open>A change of one entry and the counters together.\<close>

definition all_ok :: "(mac \<Rightarrow> tt_orig) \<Rightarrow> bool" where
  "all_ok origs \<longleftrightarrow> (\<forall>orig. vlans_ok (origs orig))"

definition one :: "bool \<Rightarrow> int" where
  "one b = (if b then 1 else 0)"

definition balanced :: "global_st \<Rightarrow> global_st \<Rightarrow> bool" where
  "balanced s s' \<longleftrightarrow> (all_ok (snd s) \<longrightarrow> all_ok (snd s') \<and> tt_addr (fst s') = tt_addr (fst s) \<and> tt_vid (fst s') = tt_vid (fst s)
     \<and> (\<forall>orig vid. vcount (snd s' orig) vid - vcount (snd s orig) vid =
          one (serves (fst s') orig vid) - one (serves (fst s) orig vid)))"

lemma balanced_refl [simp]: "balanced s s"
  by (simp add: balanced_def)

lemma balanced_trans:
  assumes "balanced s t" "balanced t u"
  shows "balanced s u"
  unfolding balanced_def
proof (intro impI conjI allI)
  assume s: "all_ok (snd s)"
  then have t: "all_ok (snd t)" using assms(1) by (simp add: balanced_def)
  show "all_ok (snd u)" "tt_addr (fst u) = tt_addr (fst s)" "tt_vid (fst u) = tt_vid (fst s)"
    using assms s t by (simp_all add: balanced_def)
  fix orig vid
  have "vcount (snd t orig) vid - vcount (snd s orig) vid = one (serves (fst t) orig vid) - one (serves (fst s) orig vid)"
    "vcount (snd u orig) vid - vcount (snd t orig) vid = one (serves (fst u) orig vid) - one (serves (fst t) orig vid)"
    using assms s t by (simp_all add: balanced_def)
  then show "vcount (snd u orig) vid - vcount (snd s orig) vid = one (serves (fst u) orig vid) - one (serves (fst s) orig vid)"
    by linarith
qed

lemma del_orig_entry_balanced:
  assumes "vlan_memory env" "orig \<in> fst ` set (tg_orig_list (fst s))"
  shows "balanced s (del_orig_entry env orig s)"
proof -
  obtain g origs where s: "s = (g, origs)" by fastforce
  show ?thesis
    using assms global_size_mod_count
    by (auto simp: s balanced_def del_orig_entry_def all_ok_def vlan_memory_def serves_def one_def)
qed

lemma del_orig_fold_balanced:
  assumes "vlan_memory env" "distinct (map fst ogs)" "fst ` set ogs \<subseteq> fst ` set (tg_orig_list (fst s))"
  shows "balanced s (fold (\<lambda>(og, _). del_orig_entry env og) ogs s)"
  using assms
proof (induction ogs arbitrary: s)
  case (Cons p ogs)
  obtain og n where p: "p = (og, n)" by fastforce
  have "fst ` set ogs \<subseteq> fst ` set (tg_orig_list (fst (del_orig_entry env og s)))"
    using Cons.prems(2,3) p by (cases s) (force simp: del_orig_entry_def)
  then have "balanced (del_orig_entry env og s) (fold (\<lambda>(og, _). del_orig_entry env og) ogs (del_orig_entry env og s))"
    using Cons.IH Cons.prems p by simp
  then show ?case
    using balanced_trans [OF del_orig_entry_balanced [OF Cons.prems(1), of og s]] Cons.prems(3) p by simp
qed simp

lemma del_orig_list_balanced: "vlan_memory env \<Longrightarrow> orig_list_ok (fst s) \<Longrightarrow> balanced s (batadv_tt_global_del_orig_list env s)"
  by (simp add: batadv_tt_global_del_orig_list_def del_orig_fold_balanced orig_list_ok_def)

lemma del_orig_node_balanced: "vlan_memory env \<Longrightarrow> orig_list_ok (fst s) \<Longrightarrow> balanced s (batadv_tt_global_del_orig_node env orig s)"
  unfolding del_orig_node_filter
  by (rule del_orig_fold_balanced) (auto simp: orig_list_ok_def distinct_map_filter)

lemma orig_entry_add_balanced:
  assumes "vlan_memory env"
  shows "balanced s (batadv_tt_global_orig_entry_add env orig ttvn s)"
proof -
  obtain g origs where s: "s = (g, origs)" by fastforce
  have "fst ` set (AList.update orig ttvn ogs) = insert orig (fst ` set ogs)" for ogs :: "(mac \<times> u8) list"
    by (simp add: AList.dom_update)
  moreover have "map_of (tg_orig_list g) orig \<noteq> None \<longleftrightarrow> orig \<in> fst ` set (tg_orig_list g)"
    by (simp add: map_of_eq_None_iff)
  ultimately show ?thesis
    using assms global_size_mod_count
    by (auto simp: s balanced_def batadv_tt_global_orig_entry_add_def all_ok_def vlan_memory_def serves_def one_def
        batadv_tt_global_entry_has_orig_def batadv_tt_global_orig_entry_find_def)
qed

lemma balanced_flags: "balanced s (g, origs) \<Longrightarrow> balanced s (g\<lparr>tt_flags := x\<rparr>, origs)"
  "balanced s (g, origs) \<Longrightarrow> balanced s (g\<lparr>tg_roam_at := y\<rparr>, origs)"
  by (auto simp: balanced_def serves_def)

lemma balanced_flags_left: "balanced (g, origs) s \<Longrightarrow> balanced (g\<lparr>tt_flags := x\<rparr>, origs) s"
  by (auto simp: balanced_def serves_def)

section \<open>The table\<close>

text \<open>Counting the entries of a table that have a property.\<close>

lemma tcount_Nil [simp]: "tcount P [] = 0" and tcount_Cons: "tcount P (e # es) = one (P e) + tcount P es"
  by (simp_all add: tcount_def one_def)

lemma tcount_add: "tcount P (tt_hash_add env e es) = tcount P es + one (P e)"
proof -
  have "length (filter P (tt_hash_add env e es)) = length (filter P (e # es))"
    by (metis mset_filter mset_tt_hash_add mset.simps(2) size_mset)
  then show ?thesis by (simp add: tcount_def one_def)
qed

lemma write_absent: "(a, v) \<notin> set (tt_keys es) \<Longrightarrow> tt_hash_write a v f es = es"
  and remove_absent: "(a, v) \<notin> set (tt_keys es) \<Longrightarrow> tt_hash_remove a v es = es"
  by (induction es) (auto simp: tt_hash_write_def tt_hash_remove_def batadv_compare_tt_def)

lemma tt_hash_write_Cons: "tt_hash_write a v f (e # es) = (if tt_addr e = a \<and> tt_vid e = v then f e else e) # tt_hash_write a v f es"
  and tt_hash_remove_Cons: "tt_hash_remove a v (e # es) = (if tt_addr e = a \<and> tt_vid e = v then tt_hash_remove a v es else e # tt_hash_remove a v es)"
  by (simp_all add: tt_hash_write_def tt_hash_remove_def batadv_compare_tt_def)

lemma tcount_write:
  assumes "tt_table_ok es" "batadv_tt_hash_find es a v = Some e"
  shows "tcount P (tt_hash_write a v f es) = tcount P es + one (P (f e)) - one (P e)"
  using assms by (induction es) (auto simp: tt_hash_write_Cons tcount_Cons write_absent split: if_splits)

lemma tcount_remove:
  assumes "tt_table_ok es" "batadv_tt_hash_find es a v = Some e"
  shows "tcount P (tt_hash_remove a v es) = tcount P es - one (P e)"
  using assms by (induction es) (auto simp: tt_hash_remove_Cons tcount_Cons remove_absent split: if_splits)

lemma tcount_write_same: "(\<And>e. P (f e) = P e) \<Longrightarrow> tcount P (tt_hash_write a v f es) = tcount P es"
  by (induction es) (auto simp: tt_hash_write_def tcount_Cons)

lemmas gcount_Cons = tcount_Cons [where P = "\<lambda>g. serves g orig vid" for orig vid, folded gcount_def]
lemmas gcount_add = tcount_add [where P = "\<lambda>g. serves g orig vid" for orig vid, folded gcount_def]
lemmas gcount_write = tcount_write [where P = "\<lambda>g. serves g orig vid" for orig vid, folded gcount_def]
lemmas gcount_remove = tcount_remove [where P = "\<lambda>g. serves g orig vid" for orig vid, folded gcount_def]
lemmas gcount_write_same = tcount_write_same [where P = "\<lambda>g. serves g orig vid" for orig vid, folded gcount_def]

definition counted :: "batadv_priv_tt \<Rightarrow> bool" where
  "counted tt \<longleftrightarrow> tt_ok tt \<and> orig_counted tt"

lemma orig_counted_cong: "tt_global_hash tt' = tt_global_hash tt \<Longrightarrow> tt_orig tt' = tt_orig tt \<Longrightarrow>
    orig_counted tt' = orig_counted tt"
  by (simp add: orig_counted_def)

lemma orig_counted_all_ok: "orig_counted tt \<Longrightarrow> all_ok (tt_orig tt)"
  by (simp add: orig_counted_def all_ok_def)

lemma on_global_counted:
  assumes "tables_ok tt" "orig_counted tt"
    and f: "\<And>g. batadv_tt_global_hash_find tt a v = Some g \<Longrightarrow> balanced (g, tt_orig tt) (f (g, tt_orig tt))"
  shows "orig_counted (on_global a v f tt)"
proof (cases "batadv_tt_global_hash_find tt a v")
  case None
  then show ?thesis using assms by (simp add: on_global_def)
next
  case (Some g)
  obtain g' origs where fg: "f (g, tt_orig tt) = (g', origs)" by fastforce
  have find: "batadv_tt_hash_find (tt_global_hash tt) a v = Some g" "tt_table_ok (tt_global_hash tt)"
    using Some assms(1) by (simp_all add: batadv_tt_global_hash_find_def tables_ok_def)
  have b: "all_ok origs" "vcount (origs orig) vid - vcount (tt_orig tt orig) vid = one (serves g' orig vid) - one (serves g orig vid)" for orig vid
    using f [OF Some] fg orig_counted_all_ok [OF assms(2)] by (simp_all add: balanced_def)
  have "vcount (origs orig) vid = gcount (tt_hash_write a v (\<lambda>_. g') (tt_global_hash tt)) orig vid" for orig vid
    using b(2) [of orig vid] gcount_write [OF find(2,1), of "\<lambda>_. g'" orig vid] assms(2) by (simp add: orig_counted_def)
  then show ?thesis
    using Some fg b(1) by (simp add: on_global_def orig_counted_def all_ok_def)
qed

lemma global_write_counted: "(\<And>g orig vid. serves (f g) orig vid = serves g orig vid) \<Longrightarrow> orig_counted tt \<Longrightarrow> orig_counted (global_write a v f tt)"
  by (simp add: orig_counted_def gcount_write_same)

lemma local_remove_orig: "tt_orig (fst (batadv_tt_local_remove env a v roaming tt)) = tt_orig tt"
  by (simp add: batadv_tt_local_remove_def batadv_tt_local_set_pending_def Let_def split: option.split)

lemma out_remove_counted:
  assumes "tables_ok tt" "orig_counted tt"
  shows "orig_counted (global_out_remove env addr vid flags tt)"
proof -
  obtain t fl where t: "batadv_tt_local_remove env addr vid (flags AND 2 \<noteq> 0) tt = (t, fl)" by fastforce
  have "tt_global_hash t = tt_global_hash tt" "tt_orig t = tt_orig tt"
    using local_remove_facts [OF assms(1), of t env addr vid "flags AND 2 \<noteq> 0"]
      local_remove_orig [of env addr vid "flags AND 2 \<noteq> 0" tt] t by simp_all
  then have "orig_counted t" using assms(2) orig_counted_cong by blast
  then have "orig_counted (global_write addr vid f t)" if "\<And>g. serves (f g) = serves g" for f
    using that by (intro global_write_counted) simp_all
  then show ?thesis
    unfolding global_out_remove_def t prod.case Let_def using assms(2) by (simp add: serves_def fun_eq_iff)
qed

lemma local_add_counted:
  assumes "counted tt"
  shows "orig_counted (fst (batadv_tt_local_add env addr vid wifi mark tt))"
proof -
  have ok: "tables_ok tt" "owner_ok tt" "orig_counted tt"
    using assms by (simp_all add: counted_def tt_ok_split)
  have roaming: "orig_counted (roaming_handled env addr vid False t)" if "orig_counted t" for t
  proof -
    have "orig_counted (fold (\<lambda>(og, _). batadv_send_roam_adv env addr vid og) ogs t)" for ogs
      using orig_counted_cong [of "fold (\<lambda>(og, _). batadv_send_roam_adv env addr vid og) ogs t" t]
        roam_advs_same [of t env addr vid ogs] that
      by (simp add: same_tables_def)
    moreover have "serves (g\<lparr>tt_flags := x, tg_roam_at := y\<rparr>) orig v = serves g orig v" for g x y orig v
      by (simp add: serves_def)
    ultimately show ?thesis
      using that by (auto simp: roaming_handled_def split: option.split intro!: global_write_counted)
  qed
  have flags: "orig_counted (local_flags_updated env l wifi mark t)" if "orig_counted t" for l t
    using that by (auto simp: local_flags_updated_def Let_def orig_counted_def)
  show ?thesis
  proof (cases "fst (batadv_tt_local_add env addr vid wifi mark tt) = tt")
    case False
    obtain l rb t where eq: "fst (batadv_tt_local_add env addr vid wifi mark tt) =
        local_flags_updated env l wifi mark (roaming_handled env addr vid rb t)"
      and t: "tt_global_hash t = tt_global_hash tt" "tt_orig t = tt_orig tt"
      and rb: "rb \<longrightarrow> (\<exists>l0. batadv_tt_local_hash_find tt addr vid = Some l0 \<and> \<not> bit (tt_flags l0) 10)"
      by (rule local_add_form [OF ok(1) refl False], rule that)
    have ct: "orig_counted t" using ok(3) t by (simp add: orig_counted_def)
    have cancel: "roaming_handled env addr vid True t = t" if rb
      using rb that t ok(2) by (auto simp: roaming_handled_def owner_ok_def batadv_tt_global_hash_find_def split: option.split)
    show ?thesis
      using eq flags roaming [OF ct] cancel ct by (cases rb) simp_all
  qed (use ok(3) in simp)
qed

lemma global_existing_balanced:
  assumes "vlan_memory env" "orig_list_ok g" "global_existing env orig flags (g, origs) = Tt_Add_Orig s"
  shows "balanced (g, origs) s"
proof -
  have list: "balanced (g', origs') (batadv_tt_global_del_orig_list env (g', origs'))" if "orig_list_ok g'" for g' origs'
    using del_orig_list_balanced [OF assms(1), of "(g', origs')"] that by simp
  have flag: "balanced s' (apfst (\<lambda>g. g\<lparr>tt_flags := h g\<rparr>) s)" "balanced s' (apfst (\<lambda>g. g\<lparr>tt_flags := h g, tg_roam_at := x\<rparr>) s)"
    if "balanced s' s" for s' s h x
    using that by (cases s; auto simp: balanced_def serves_def)+
  show ?thesis
  proof (cases "bit flags 11")
    case True
    then show ?thesis using assms(2,3) list by (auto simp: global_existing_def split: if_splits)
  next
    case False
    define t where "t = (if bit (tt_flags g) 11
      then apfst (\<lambda>g. g\<lparr>tt_flags := tt_flags g AND NOT 0x800\<rparr>) (batadv_tt_global_del_orig_list env (g, origs)) else (g, origs))"
    define u where "u = apfst (\<lambda>g. g\<lparr>tt_flags := tt_flags g OR flags\<rparr>) t"
    have t: "balanced (g, origs) t" using list [OF assms(2)] flag(1) by (simp add: t_def)
    have u: "balanced (g, origs) u" unfolding u_def by (rule flag(1) [OF t])
    have ok: "orig_list_ok (fst u)"
      using assms(2) by (simp add: u_def t_def orig_list_ok_def del_orig_list_fst)
    have "s = (if bit (tt_flags (fst u)) 1
        then apfst (\<lambda>g. g\<lparr>tt_flags := tt_flags g AND NOT 2, tg_roam_at := 0\<rparr>) (batadv_tt_global_del_orig_list env u) else u)"
      using assms(3) False unfolding global_existing_def u_def t_def Let_def
      by (auto simp: case_prod_unfold apfst_def map_prod_def)
    then show ?thesis
      using u balanced_trans [OF u] list [of "fst u" "snd u"] ok flag(2) by simp
  qed
qed

section \<open>Operations on global clients\<close>

lemma global_add_counted:
  assumes "counted tt" "vlan_memory env"
  shows "counted (fst (batadv_tt_global_add env orig addr vid flags ttvn tt))"
proof -
  have ok: "tables_ok tt" "orig_counted tt" "tt_ok tt" using assms(1) by (simp_all add: counted_def tt_ok_split)
  have fin: "orig_counted (global_out_remove env addr vid flags (on_global addr vid f t))"
    if t: "tables_ok t" "orig_counted t"
      and f: "\<And>g. batadv_tt_global_hash_find t addr vid = Some g \<Longrightarrow> balanced (g, tt_orig t) (f (g, tt_orig t))
        \<and> same_client g (fst (f (g, tt_orig t))) \<and> orig_list_ok (fst (f (g, tt_orig t)))" for t f
    using on_global_counted [OF t] on_global_facts [OF t(1)] f by (intro out_remove_counted) blast+
  define new where "new = tt\<lparr>tt_global_hash := tt_hash_add env (global_new env addr vid flags) (tt_global_hash tt)\<rparr>"
  have new: "orig_counted (global_out_remove env addr vid flags (on_global addr vid (batadv_tt_global_orig_entry_add env orig ttvn) new))"
    if n: "batadv_tt_global_hash_find tt addr vid = None"
  proof -
    have t: "tables_ok new"
      using global_hash_add_facts [OF ok(1) n, of "global_new env addr vid flags" env]
      unfolding new_def by (simp add: global_new_def orig_list_ok_def)
    have "orig_counted new"
      using ok(2) by (simp add: new_def orig_counted_def gcount_add one_def serves_def global_new_def)
    then show ?thesis
      using fin [OF t] orig_entry_add_balanced [OF assms(2)] orig_entry_add_facts [OF _ refl] tables_ok_find [OF t] by blast
  qed
  have add: "orig_counted (global_out_remove env addr vid flags (on_global addr vid (\<lambda>_. batadv_tt_global_orig_entry_add env orig ttvn s) tt))"
    if g: "batadv_tt_global_hash_find tt addr vid = Some g"
      and s: "global_existing env orig flags (g, tt_orig tt) = Tt_Add_Orig s" for g s
  proof -
    have gl: "orig_list_ok g" using tables_ok_find [OF ok(1) g] by simp
    have e: "same_client g (fst s) \<and> orig_list_ok (fst s)"
      using global_existing_facts [OF gl s] .
    have a: "same_client g (fst (batadv_tt_global_orig_entry_add env orig ttvn s))
        \<and> orig_list_ok (fst (batadv_tt_global_orig_entry_add env orig ttvn s))"
      using orig_entry_add_facts [OF _ refl, of "fst s" env orig ttvn "snd s"] e by (simp add: same_client_def)
    have "balanced (g, tt_orig tt) (batadv_tt_global_orig_entry_add env orig ttvn s)"
      by (rule balanced_trans [OF global_existing_balanced [OF assms(2) gl s] orig_entry_add_balanced [OF assms(2)]])
    then show ?thesis
      using a g by (intro fin [OF ok(1,2)]) simp
  qed
  have "orig_counted (fst (batadv_tt_global_add env orig addr vid flags ttvn tt))"
    using ok(2) new add out_remove_counted [OF ok(1,2)] unfolding batadv_tt_global_add_def Let_def new_def
    by (simp split: option.split tt_global_how.split)
  then show ?thesis using global_add_ok [OF ok(3)] by (simp add: counted_def)
qed

lemma free_counted:
  assumes "tables_ok tt" "orig_counted tt"
    and "\<And>g. batadv_tt_global_hash_find tt addr vid = Some g \<Longrightarrow> tg_orig_list g = []"
  shows "orig_counted (batadv_tt_global_free addr vid tt)"
proof (cases "batadv_tt_global_hash_find tt addr vid")
  case None
  then show ?thesis
    using assms(2) by (simp add: batadv_tt_global_free_def orig_counted_def batadv_tt_global_hash_find_def tt_find_None remove_absent)
next
  case (Some g)
  then show ?thesis
    using assms gcount_remove [of "tt_global_hash tt" addr vid g]
    by (simp add: batadv_tt_global_free_def orig_counted_def batadv_tt_global_hash_find_def tables_ok_def one_def serves_def)
qed

lemma global_del_counted:
  assumes "counted tt" "vlan_memory env"
  shows "counted (batadv_tt_global_del env orig addr vid roaming tt)"
proof -
  have ok: "tables_ok tt" "orig_counted tt" "tt_ok tt" using assms(1) by (simp_all add: counted_def tt_ok_split)
  have gl: "orig_list_ok g" if "batadv_tt_global_hash_find tt addr vid = Some g" for g
    using tables_ok_find [OF ok(1) that] by simp
  note node = del_orig_node_balanced [OF assms(2)] and list = del_orig_list_balanced [OF assms(2)]
  have roam: "balanced (g, origs) (batadv_tt_global_del_roaming env orig (g, origs))" if "orig_list_ok g" for g origs
    using node [of "(g, origs)"] that by (auto simp: batadv_tt_global_del_roaming_def Let_def balanced_def serves_def)
  have n: "orig_counted (on_global addr vid (batadv_tt_global_del_orig_node env orig) tt)"
    and l: "orig_counted (on_global addr vid (batadv_tt_global_del_orig_list env) tt)"
    and r: "orig_counted (on_global addr vid (batadv_tt_global_del_roaming env orig) tt)"
    using gl node list roam by (auto intro!: on_global_counted [OF ok(1,2)])
  have tn: "tables_ok (on_global addr vid (batadv_tt_global_del_orig_node env orig) tt)"
    using on_global_facts [OF ok(1), of addr vid "batadv_tt_global_del_orig_node env orig"] gl
      orig_list_ok_del_orig_node del_orig_node_fst by (auto simp: same_client_def orig_list_ok_def)
  have tl: "tables_ok (on_global addr vid (batadv_tt_global_del_orig_list env) tt)
    \<and> batadv_tt_global_hash_find (on_global addr vid (batadv_tt_global_del_orig_list env) tt) addr vid =
      map_option (\<lambda>g. fst (batadv_tt_global_del_orig_list env (g, tt_orig tt))) (batadv_tt_global_hash_find tt addr vid)"
    using on_global_facts [OF ok(1), of addr vid "batadv_tt_global_del_orig_list env"] gl
    by (auto simp: same_client_def del_orig_list_fst orig_list_ok_def)
  have fn: "orig_counted (batadv_tt_global_free addr vid (on_global addr vid (batadv_tt_global_del_orig_node env orig) tt))"
    if "batadv_tt_global_hash_find (on_global addr vid (batadv_tt_global_del_orig_node env orig) tt) addr vid = Some g"
      "tg_orig_list g = []" for g
    using free_counted [OF tn n, of addr vid] that by simp
  have "orig_counted (batadv_tt_global_del env orig addr vid roaming tt)"
    using ok(2) n l r fn free_counted [of "on_global addr vid (batadv_tt_global_del_orig_list env) tt" addr vid] tl
    by (auto simp: batadv_tt_global_del_def Let_def del_orig_list_fst split: option.split)
  then show ?thesis using global_del_ok [OF ok(3)] by (simp add: counted_def)
qed

definition walk_balanced :: "(global_st \<Rightarrow> batadv_tt_global_entry option \<times> (mac \<Rightarrow> tt_orig)) \<Rightarrow> bool" where
  "walk_balanced f \<longleftrightarrow> (\<forall>g origs h origs'. orig_list_ok g \<longrightarrow> all_ok origs \<longrightarrow> f (g, origs) = (h, origs') \<longrightarrow>
     all_ok origs' \<and> (\<forall>orig vid. vcount (origs' orig) vid - vcount (origs orig) vid =
       (case h of None \<Rightarrow> 0 | Some g' \<Rightarrow> one (serves g' orig vid)) - one (serves g orig vid)))"

lemma walk_counts:
  assumes "walk_balanced f" "\<forall>g\<in>set gs. orig_list_ok g" "all_ok origs" "global_walk f gs origs = (gs', origs')"
  shows "all_ok origs' \<and> vcount (origs' orig) vid - vcount (origs orig) vid = gcount gs' orig vid - gcount gs orig vid"
  using assms
proof (induction gs arbitrary: origs origs' gs')
  case (Cons g gs)
  obtain h o1 where h: "f (g, origs) = (h, o1)" by fastforce
  obtain rs o2 where rs: "global_walk f gs o1 = (rs, o2)" by fastforce
  have 1: "all_ok o1" "vcount (o1 orig) vid - vcount (origs orig) vid =
      (case h of None \<Rightarrow> 0 | Some g' \<Rightarrow> one (serves g' orig vid)) - one (serves g orig vid)"
    using Cons.prems h by (auto simp: walk_balanced_def)
  have 2: "all_ok o2" "vcount (o2 orig) vid - vcount (o1 orig) vid = gcount rs orig vid - gcount gs orig vid"
    using Cons.IH [OF Cons.prems(1) _ 1(1) rs] Cons.prems(2) by simp_all
  have "origs' = o2" "gs' = (case h of None \<Rightarrow> rs | Some g' \<Rightarrow> g' # rs)"
    using Cons.prems(4) h rs by simp_all
  then show ?case using 1 2 by (cases h) (simp_all add: gcount_Cons)
qed (simp add: gcount_def)

lemma walk_counted:
  assumes "counted tt" "walk_balanced f" "walk_ok f" "global_walk f (tt_global_hash tt) (tt_orig tt) = (gs, origs)"
  shows "counted (tt\<lparr>tt_global_hash := gs, tt_orig := origs\<rparr>)"
proof -
  have gs: "\<forall>g\<in>set (tt_global_hash tt). orig_list_ok g" and ok: "tt_ok tt" "orig_counted tt"
    using assms(1) by (simp_all add: counted_def tt_ok_def)
  have "all_ok origs" "vcount (origs orig) vid = gcount gs orig vid" for orig vid
    using walk_counts [OF assms(2) gs orig_counted_all_ok [OF ok(2)] assms(4), of orig vid] ok(2)
    by (simp_all add: orig_counted_def)
  then have "orig_counted (tt\<lparr>tt_global_hash := gs, tt_orig := origs\<rparr>)"
    by (simp add: orig_counted_def all_ok_def)
  moreover have "tt_ok (tt\<lparr>tt_global_hash := gs, tt_orig := origs\<rparr>)"
    using walk_tt_ok [OF ok(1) assms(3), where origs = "tt_orig tt" and x = origs] assms(4) by (simp del: tt_ok_orig)
  ultimately show ?thesis by (simp add: counted_def)
qed

lemma upd_tt_orig_counted:
  assumes "counted tt" "\<And>on. map (\<lambda>v. (ov_vid v, ov_num_entries v)) (to_vlan_list (f on)) = map (\<lambda>v. (ov_vid v, ov_num_entries v)) (to_vlan_list on)"
  shows "counted (upd_tt_orig orig f tt)"
proof -
  have find: "map_option ov_num_entries (List.find (\<lambda>v. ov_vid v = vid) vs) = map_of (map (\<lambda>v. (ov_vid v, ov_num_entries v)) vs) vid" for vs vid
    by (induction vs) auto
  have vc: "vcount on vid = (case map_of (map (\<lambda>v. (ov_vid v, ov_num_entries v)) (to_vlan_list on)) vid of None \<Rightarrow> 0 | Some n \<Rightarrow> n)" for on vid
    by (auto simp: vcount_def batadv_orig_node_vlan_get_def find [symmetric] split: option.splits)
  have vo: "vlans_ok on \<longleftrightarrow> distinct (map fst (map (\<lambda>v. (ov_vid v, ov_num_entries v)) (to_vlan_list on)))
      \<and> (\<forall>p\<in>set (map (\<lambda>v. (ov_vid v, ov_num_entries v)) (to_vlan_list on)). snd p = 0 \<longrightarrow> fst p = 0)" for on
    by (simp add: vlans_ok_def comp_def)
  show ?thesis
    using assms(1) unfolding counted_def orig_counted_def upd_tt_orig_def vc vo by (simp add: assms(2) del: set_map map_map)
qed

lemma counted_cong: "tt_global_hash tt' = tt_global_hash tt \<Longrightarrow> tt_orig tt' = tt_orig tt \<Longrightarrow> tt_ok tt' \<Longrightarrow> counted tt \<Longrightarrow> counted tt'"
  by (simp add: counted_def orig_counted_def)

lemma global_del_orig_counted:
  assumes "counted tt" "vlan_memory env"
  shows "counted (batadv_tt_global_del_orig env orig match_vid tt)"
proof -
  define f where "f = (\<lambda>(g, origs).
      if match_vid \<ge> 0 \<and> uint (tt_vid g) \<noteq> match_vid then (Some g, origs)
      else (case batadv_tt_global_del_orig_node env orig (g, origs) of (g, origs) \<Rightarrow>
        (if tg_orig_list g = [] then None else Some g, origs)))"
  have wo: "walk_ok f"
    using orig_list_ok_del_orig_node
    by (auto simp: walk_ok_def f_def case_prod_unfold del_orig_node_fst orig_list_ok_def same_client_def
        length_filter_orig distinct_map_filter split: if_splits)
  have wb: "walk_balanced f"
    unfolding walk_balanced_def
  proof (intro allI impI)
    fix g origs h origs'
    assume g: "orig_list_ok g" "all_ok origs" and f: "f (g, origs) = (h, origs')"
    obtain g1 o1 where n: "batadv_tt_global_del_orig_node env orig (g, origs) = (g1, o1)" by fastforce
    have b: "balanced (g, origs) (g1, o1)"
      using del_orig_node_balanced [OF assms(2), of "(g, origs)" orig] g(1) n by simp
    show "all_ok origs' \<and> (\<forall>orig vid. vcount (origs' orig) vid - vcount (origs orig) vid =
        (case h of None \<Rightarrow> 0 | Some g' \<Rightarrow> one (serves g' orig vid)) - one (serves g orig vid))"
    proof (cases "match_vid \<ge> 0 \<and> uint (tt_vid g) \<noteq> match_vid")
      case True
      then show ?thesis using g f by (auto simp: f_def)
    next
      case False
      then have "origs' = o1" "h = (if tg_orig_list g1 = [] then None else Some g1)" using f n by (auto simp: f_def)
      then show ?thesis using b g(2) by (auto simp: balanced_def serves_def one_def)
    qed
  qed
  obtain gs origs where w: "global_walk f (tt_global_hash tt) (tt_orig tt) = (gs, origs)" by fastforce
  define mid where "mid = tt\<lparr>tt_global_hash := gs, tt_orig := origs\<rparr>"
  have "counted (upd_tt_orig orig (\<lambda>on. on\<lparr>to_has_tt := False\<rparr>) mid)"
    unfolding mid_def by (rule upd_tt_orig_counted [OF walk_counted [OF assms(1) wb wo w]]) simp
  moreover have "batadv_tt_global_del_orig env orig match_vid tt = upd_tt_orig orig (\<lambda>on. on\<lparr>to_has_tt := False\<rparr>) mid"
    unfolding batadv_tt_global_del_orig_def f_def [symmetric] w by (simp add: upd_tt_orig_def mid_def)
  ultimately show ?thesis by simp
qed

lemma global_purge_counted:
  assumes "counted tt" "vlan_memory env"
  shows "counted (batadv_tt_global_purge env tt)"
proof -
  define f where "f = (\<lambda>(g, origs). if batadv_tt_global_to_purge env g
      then (None, snd (batadv_tt_global_del_orig_list env (g, origs))) else (Some g, origs))"
  have wo: "walk_ok f" by (auto simp: walk_ok_def f_def same_client_def split: if_splits)
  have wb: "walk_balanced f"
    unfolding walk_balanced_def
  proof (intro allI impI)
    fix g origs h origs'
    assume g: "orig_list_ok g" "all_ok origs" and f: "f (g, origs) = (h, origs')"
    have b: "balanced (g, origs) (batadv_tt_global_del_orig_list env (g, origs))"
      using del_orig_list_balanced [OF assms(2), of "(g, origs)"] g(1) by simp
    have e: "tg_orig_list (fst (batadv_tt_global_del_orig_list env (g, origs))) = []"
      by (simp add: del_orig_list_fst)
    show "all_ok origs' \<and> (\<forall>orig vid. vcount (origs' orig) vid - vcount (origs orig) vid =
        (case h of None \<Rightarrow> 0 | Some g' \<Rightarrow> one (serves g' orig vid)) - one (serves g orig vid))"
    proof (cases "batadv_tt_global_to_purge env g")
      case True
      then show ?thesis using b e g(2) f by (auto simp: f_def balanced_def serves_def one_def)
    next
      case False
      then show ?thesis using g(2) f by (auto simp: f_def)
    qed
  qed
  obtain gs origs where w: "global_walk f (tt_global_hash tt) (tt_orig tt) = (gs, origs)" by fastforce
  have "batadv_tt_global_purge env tt = tt\<lparr>tt_global_hash := gs, tt_orig := origs\<rparr>"
    unfolding batadv_tt_global_purge_def f_def [symmetric] w by simp
  then show ?thesis using walk_counted [OF assms(1) wb wo w] by simp
qed

lemma update_changes1_counted: "counted tt \<Longrightarrow> vlan_memory env \<Longrightarrow> counted (tt_update_changes1 env orig ttvn cs tt)"
proof (induction cs arbitrary: tt)
  case (Cons c cs)
  then show ?case
    using global_add_counted [OF Cons.prems, of orig "ch_addr c" "ch_vid c" "ucast (ch_flags c)" ttvn]
    by (auto simp: global_del_counted split: prod.split bool.split)
qed (simp add: upd_tt_orig_counted)

lemma update_changes_counted: "counted tt \<Longrightarrow> vlan_memory env \<Longrightarrow> counted (batadv_tt_update_changes env orig n ttvn data tt)"
  by (simp add: batadv_tt_update_changes_def batadv_tt_save_orig_buffer_def Let_def update_changes1_counted upd_tt_orig_counted)

lemma fill_gtable_counted: "counted tt \<Longrightarrow> vlan_memory env \<Longrightarrow> counted (batadv_tt_fill_gtable env cs ttvn src tt)"
  by (simp add: batadv_tt_fill_gtable_def Let_def update_changes1_counted global_del_orig_counted upd_tt_orig_counted)

lemma update_crc_counted: "counted tt \<Longrightarrow> counted (batadv_tt_global_update_crc env orig tt)"
  unfolding batadv_tt_global_update_crc_def by (rule upd_tt_orig_counted) (simp_all add: comp_def if_distrib cong: if_cong)

lemma request_counted: "counted tt \<Longrightarrow> counted (fst (batadv_send_tt_request env orig ttvn vlans full tt))"
  using request_same [of tt env orig ttvn vlans full] request_ok [of tt env orig ttvn vlans full]
  by - (rule counted_cong [of _ tt], simp_all add: same_tables_def counted_def)

lemma handle_response_counted: "counted tt \<Longrightarrow> vlan_memory env \<Longrightarrow> counted (batadv_handle_tt_response env data src n tt)"
proof -
  have "counted (tt\<lparr>tt_req_list := x\<rparr>) = counted tt" for x tt by (simp add: counted_def orig_counted_def)
  then show "counted tt \<Longrightarrow> vlan_memory env \<Longrightarrow> counted (batadv_handle_tt_response env data src n tt)"
    by (simp add: batadv_handle_tt_response_def Let_def fill_gtable_counted update_changes_counted update_crc_counted)
qed

lemma ogm_handler_counted: "counted tt \<Longrightarrow> vlan_memory env \<Longrightarrow> counted (batadv_tt_tvlv_ogm_handler_v1 env orig data tt)"
  by (simp add: batadv_tt_tvlv_ogm_handler_v1_def batadv_tt_update_orig_def Let_def request_counted update_changes_counted
      update_crc_counted)

lemma unicast_handler_counted:
  assumes "counted tt" "vlan_memory env"
  shows "counted (fst (batadv_tt_tvlv_unicast_handler_v1 env src dst data tt))"
proof -
  have "counted (fst (batadv_send_tt_response env data src dst tt))"
    using response_same [of tt env data src dst] same_tables_ok [OF response_same [of tt env data src dst]] assms(1)
    by - (rule counted_cong [of _ tt], simp_all add: same_tables_def counted_def)
  then show ?thesis
    using assms by (auto simp: batadv_tt_tvlv_unicast_handler_v1_def Let_def handle_response_counted split: prod.split bool.split)
qed

lemma roam_handler_counted: "counted tt \<Longrightarrow> vlan_memory env \<Longrightarrow> counted (fst (batadv_roam_tvlv_unicast_handler_v1 env src dst data tt))"
  by (simp add: batadv_roam_tvlv_unicast_handler_v1_def global_add_counted)

lemma local_remove_counted: "counted tt \<Longrightarrow> counted (fst (batadv_tt_local_remove env addr vid roaming tt))"
  using local_remove_facts [OF _ refl, where tt = tt and env = env and addr = addr and vid = vid and roaming = roaming]
    local_remove_ok [of tt env addr vid roaming]
  by - (rule counted_cong [of _ tt], simp_all add: counted_def tt_ok_split local_remove_orig)

lemma local_purge_frame: "tt_global_hash (batadv_tt_local_purge env timeout tt) = tt_global_hash tt
    \<and> tt_orig (batadv_tt_local_purge env timeout tt) = tt_orig tt
    \<and> tt_softif_vlan_list (batadv_tt_local_purge env timeout tt) = tt_softif_vlan_list tt"
  unfolding batadv_tt_local_purge_def
  by (rule tt_fold_keeps) (simp_all add: batadv_tt_local_set_pending_def)

lemma set_flags_frame: "tt_global_hash (batadv_tt_local_set_flags flags enable inc tt) = tt_global_hash tt
    \<and> tt_orig (batadv_tt_local_set_flags flags enable inc tt) = tt_orig tt"
  unfolding batadv_tt_local_set_flags_def
  by (rule tt_fold_keeps) (simp_all add: batadv_tt_local_size_mod_def Let_def)

lemma purge_pending_frame: "tt_global_hash (batadv_tt_local_purge_pending_clients tt) = tt_global_hash tt
    \<and> tt_orig (batadv_tt_local_purge_pending_clients tt) = tt_orig tt"
  unfolding batadv_tt_local_purge_pending_clients_def
  by (rule tt_fold_keeps) (simp_all add: batadv_tt_local_size_mod_def Let_def)

lemma container_update_frame: "tt_global_hash (batadv_tt_tvlv_container_update env tt) = tt_global_hash tt
    \<and> tt_orig (batadv_tt_tvlv_container_update env tt) = tt_orig tt"
  by (simp add: batadv_tt_tvlv_container_update_def Let_def tt_event_def split: prod.split option.split)

lemma commit_counted: "counted tt \<Longrightarrow> counted (batadv_tt_local_commit_changes_nolock id env tt)"
proof -
  assume c: "counted tt"
  have "tt_ok (batadv_tt_local_commit_changes_nolock id env tt)"
    using commit_ok [of tt id env] c by (simp add: counted_def)
  moreover have "tt_global_hash (batadv_tt_local_commit_changes_nolock id env tt) = tt_global_hash tt"
    "tt_orig (batadv_tt_local_commit_changes_nolock id env tt) = tt_orig tt"
    by (simp_all add: batadv_tt_local_commit_changes_nolock_def Let_def container_update_frame set_flags_frame
        purge_pending_frame batadv_tt_local_update_crc_def)
  ultimately show ?thesis using counted_cong c by blast
qed

lemma tt_purge_counted:
  assumes "counted tt" "vlan_memory env"
  shows "counted (batadv_tt_purge env tt)"
proof -
  have "counted (batadv_tt_local_purge env 600000 tt)"
    using counted_cong [OF _ _ _ assms(1)] local_purge_frame local_purge_facts assms(1) by (simp add: counted_def)
  then have "counted (batadv_tt_global_purge env (batadv_tt_local_purge env 600000 tt))"
    by (rule global_purge_counted [OF _ assms(2)])
  then show ?thesis
    by (simp add: batadv_tt_purge_def batadv_tt_roam_purge_def batadv_tt_req_purge_def counted_def orig_counted_def)
qed

end
