(* ===== verification/Tt_Local.thy ===== *)
theory Tt_Local
  imports Tt_Count
begin

text \<open>
  The counters of our own VLANs: they count the clients that are committed, which are the ones a
  full table response contains. What a commit does to the table of our clients.
\<close>

section \<open>Counters of our VLANs\<close>

definition committed :: "u16 \<Rightarrow> batadv_tt_local_entry \<Rightarrow> bool" where
  "committed vid l \<longleftrightarrow> tt_vid l = vid \<and> \<not> bit (tt_flags l) 9"

definition vlans_counted :: "batadv_priv_tt \<Rightarrow> bool" where
  "vlans_counted tt \<longleftrightarrow> distinct (map sv_vid (tt_softif_vlan_list tt))
     \<and> (\<forall>v\<in>set (tt_softif_vlan_list tt). sv_num_entries v = tcount (committed (sv_vid v)) (tt_local_hash tt))"

text \<open>Every client is in a VLAN of this node.\<close>

definition covered :: "batadv_priv_tt \<Rightarrow> bool" where
  "covered tt \<longleftrightarrow> (\<forall>l\<in>set (tt_local_hash tt). tt_vid l \<in> sv_vid ` set (tt_softif_vlan_list tt))"

text \<open>Operations that keep the committed clients and the VLANs.\<close>

definition lsame :: "batadv_priv_tt \<Rightarrow> batadv_priv_tt \<Rightarrow> bool" where
  "lsame tt tt' \<longleftrightarrow> tt_softif_vlan_list tt' = tt_softif_vlan_list tt
     \<and> (\<forall>vid. tcount (committed vid) (tt_local_hash tt') = tcount (committed vid) (tt_local_hash tt))
     \<and> (covered tt \<longrightarrow> covered tt')"

lemma lsame_refl [simp]: "lsame tt tt"
  by (simp add: lsame_def)

lemma lsame_trans: "lsame tt tt' \<Longrightarrow> lsame tt' tt'' \<Longrightarrow> lsame tt tt''"
  by (simp add: lsame_def)

lemma lsame_covered: "lsame tt tt' \<Longrightarrow> covered tt \<Longrightarrow> covered tt'"
  by (simp add: lsame_def)

lemma lsame_counted: "lsame tt tt' \<Longrightarrow> vlans_counted tt' = vlans_counted tt"
  by (simp add: lsame_def vlans_counted_def)

lemma lsame_frame: "tt_softif_vlan_list tt' = tt_softif_vlan_list tt \<Longrightarrow> tt_local_hash tt' = tt_local_hash tt \<Longrightarrow> lsame tt tt'"
  by (simp add: lsame_def covered_def)

lemma lsame_then: "lsame tt t \<Longrightarrow> tt_softif_vlan_list t' = tt_softif_vlan_list t \<Longrightarrow> tt_local_hash t' = tt_local_hash t \<Longrightarrow> lsame tt t'"
  using lsame_trans lsame_frame by blast

lemma same_tables_lsame: "same_tables tt tt' \<Longrightarrow> lsame tt tt'"
  by (simp add: same_tables_def lsame_def covered_def)

text \<open>A write to the entry of a client that keeps its state of being committed.\<close>

lemma local_write_lsame:
  assumes "tt_table_ok (tt_local_hash tt)"
    and "\<And>l. batadv_tt_local_hash_find tt a v = Some l \<Longrightarrow> tt_vid (f l) = tt_vid l \<and> bit (tt_flags (f l)) 9 = bit (tt_flags l) 9"
  shows "lsame tt (local_write a v f tt)"
proof (cases "batadv_tt_local_hash_find tt a v")
  case None
  then show ?thesis by (simp add: lsame_def covered_def batadv_tt_local_hash_find_def tt_find_None write_absent)
next
  case (Some l)
  have "committed vid (f l) = committed vid l" for vid
    using assms(2) [OF Some] by (simp add: committed_def)
  moreover have "covered tt \<longrightarrow> covered (local_write a v f tt)"
    using assms(2) tt_find_in [OF assms(1)] by (auto simp: covered_def set_tt_hash_write batadv_tt_local_hash_find_def)
  ultimately show ?thesis
    using tcount_write [OF assms(1), of a v l] Some by (simp add: lsame_def batadv_tt_local_hash_find_def)
qed

lemma event_lsame [simp]: "lsame tt (batadv_tt_local_event env l f tt)"
  by (rule lsame_frame) simp_all

lemma set_pending_lsame:
  assumes "tt_table_ok (tt_local_hash tt)"
  shows "lsame tt (batadv_tt_local_set_pending env l flags tt)"
  unfolding batadv_tt_local_set_pending_def
  by (rule lsame_trans [OF event_lsame local_write_lsame]) (simp_all add: assms bit_simps)

lemma set_pending_table_ok: "tt_table_ok (tt_local_hash tt) \<Longrightarrow> tt_table_ok (tt_local_hash (batadv_tt_local_set_pending env l flags tt))"
  by (simp add: batadv_tt_local_set_pending_def tt_keys_write keeps_key_def)

lemma local_remove_lsame:
  assumes ok: "tt_table_ok (tt_local_hash tt)"
  shows "lsame tt (fst (batadv_tt_local_remove env addr vid roaming tt))"
proof (cases "batadv_tt_local_hash_find tt addr vid")
  case None
  then show ?thesis by (simp add: batadv_tt_local_remove_def)
next
  case (Some l0)
  define l where "l = (if roaming then l0\<lparr>tt_flags := tt_flags l0 OR 2\<rparr> else l0)"
  define t where "t = local_write addr vid (\<lambda>_. l) tt"
  have l: "tt_addr l = addr" "tt_vid l = vid" "bit (tt_flags l) 9 = bit (tt_flags l0) 9" "tt_vid l0 = vid"
    using Some by (auto simp: l_def batadv_tt_local_hash_find_def bit_simps dest: tt_find_SomeD)
  have t: "lsame tt t"
    unfolding t_def by (rule local_write_lsame [OF ok]) (use Some l in simp)
  have key: "keeps_key addr vid (\<lambda>_. l)" using l by (simp add: keeps_key_def)
  have tok: "tt_table_ok (tt_local_hash t)" using ok key by (simp add: t_def tt_keys_write)
  show ?thesis
  proof (cases "bit (tt_flags l) 9")
    case False
    then have "fst (batadv_tt_local_remove env addr vid roaming tt) = batadv_tt_local_set_pending env l (1 OR (if roaming then 2 else 0)) t"
      using Some by (simp add: batadv_tt_local_remove_def Let_def t_def flip: l_def)
    then show ?thesis using lsame_trans [OF t set_pending_lsame [OF tok]] by simp
  next
    case True
    define u where "u = batadv_tt_local_event env l 1 t"
    have eq: "fst (batadv_tt_local_remove env addr vid roaming tt) = u\<lparr>tt_local_hash := tt_hash_remove addr vid (tt_local_hash u)\<rparr>"
      using True Some by (simp add: batadv_tt_local_remove_def Let_def t_def u_def flip: l_def)
    have "batadv_tt_hash_find (tt_local_hash u) addr vid = Some l"
      using Some key by (simp add: u_def t_def batadv_tt_local_hash_find_def tt_find_write)
    then have "lsame u (u\<lparr>tt_local_hash := tt_hash_remove addr vid (tt_local_hash u)\<rparr>)"
      using tcount_remove [of "tt_local_hash u" addr vid l] tok True
      by (auto simp: lsame_def covered_def u_def committed_def one_def set_tt_hash_remove)
    moreover have "lsame t u" by (simp add: u_def)
    ultimately show ?thesis using eq lsame_trans t by metis
  qed
qed

lemma local_purge_lsame:
  assumes "tt_table_ok (tt_local_hash tt)"
  shows "lsame tt (batadv_tt_local_purge env timeout tt)"
proof -
  have "lsame tt t \<and> tt_table_ok (tt_local_hash t)"
    if "t = batadv_tt_local_purge env timeout tt" for t
    unfolding that batadv_tt_local_purge_def
    by (rule tt_fold_keeps) (use assms set_pending_lsame set_pending_table_ok lsame_trans in \<open>auto\<close>)
  then show ?thesis by blast
qed

section \<open>Adding a local client\<close>

lemma flags_updated_lsame:
  assumes "tt_table_ok (tt_local_hash tt)" "batadv_tt_local_hash_find tt (tt_addr l) (tt_vid l) = Some l"
  shows "lsame tt (local_flags_updated env l wifi mark tt)"
proof -
  define l' where "l' = l\<lparr>tt_flags := set_flag_if (te_isolation_mark_mask env \<noteq> 0 \<and> mark AND te_isolation_mark_mask env = te_isolation_mark env) 0x20
                  (set_flag_if wifi 0x10 (tt_flags l))\<rparr>"
  have "lsame tt (local_write (tt_addr l) (tt_vid l) (\<lambda>_. l') tt)"
    by (rule local_write_lsame [OF assms(1)]) (use assms(2) in \<open>simp add: l'_def set_flag_if_bits\<close>)
  then show ?thesis
    unfolding local_flags_updated_def Let_def l'_def [symmetric] using lsame_trans event_lsame by auto
qed

lemma roaming_handled_lsame:
  assumes "tables_ok tt"
  shows "lsame tt (roaming_handled env addr vid rb tt)"
proof -
  note f = roam_advs_same [where env = env and client = addr and vid = vid, unfolded same_tables_def]
  show ?thesis
    unfolding roaming_handled_def Let_def by (simp add: lsame_def covered_def f split: option.split)
qed

lemma local_add_lsame:
  assumes ok: "tables_ok tt"
  shows "lsame tt (fst (batadv_tt_local_add env addr vid wifi mark tt))"
proof (cases "fst (batadv_tt_local_add env addr vid wifi mark tt) = tt")
  case False
  obtain l rb t where eq: "fst (batadv_tt_local_add env addr vid wifi mark tt) =
      local_flags_updated env l wifi mark (roaming_handled env addr vid rb t)"
    and l: "tt_addr l = addr" "tt_vid l = vid" and t: "tables_ok t" "tt_softif_vlan_list t = tt_softif_vlan_list tt"
      "batadv_tt_local_hash_find t addr vid = Some l"
    and ways: "batadv_tt_local_hash_find tt addr vid = None \<and> tt_local_hash t = tt_hash_add env l (tt_local_hash tt) \<and> bit (tt_flags l) 9
        \<and> batadv_softif_vlan_get tt vid \<noteq> None
      \<or> (\<exists>l0. batadv_tt_local_hash_find tt addr vid = Some l0 \<and> bit (tt_flags l) 9 = bit (tt_flags l0) 9
          \<and> tt_local_hash t = tt_hash_write addr vid (\<lambda>_. l) (tt_local_hash tt))"
    by (rule local_add_form [OF ok refl False], rule that)
  have "lsame tt t"
    using ways
  proof
    assume a: "batadv_tt_local_hash_find tt addr vid = None \<and> tt_local_hash t = tt_hash_add env l (tt_local_hash tt) \<and> bit (tt_flags l) 9
        \<and> batadv_softif_vlan_get tt vid \<noteq> None"
    then have "vid \<in> sv_vid ` set (tt_softif_vlan_list tt)"
      by (auto simp: batadv_softif_vlan_get_def dest: find_SomeD)
    then show ?thesis using a t(2) l by (simp add: lsame_def covered_def tcount_add committed_def one_def)
  next
    assume "\<exists>l0. batadv_tt_local_hash_find tt addr vid = Some l0 \<and> bit (tt_flags l) 9 = bit (tt_flags l0) 9
        \<and> tt_local_hash t = tt_hash_write addr vid (\<lambda>_. l) (tt_local_hash tt)"
    then obtain l0 where l0: "batadv_tt_local_hash_find tt addr vid = Some l0" "bit (tt_flags l) 9 = bit (tt_flags l0) 9"
      "tt_local_hash t = tt_hash_write addr vid (\<lambda>_. l) (tt_local_hash tt)" by blast
    have "lsame tt (local_write addr vid (\<lambda>_. l) tt)"
      by (rule local_write_lsame) (use ok l l0 in \<open>auto simp: tables_ok_def batadv_tt_local_hash_find_def dest: tt_find_SomeD\<close>)
    then show ?thesis using l0(3) t(2) by (simp add: lsame_def covered_def)
  qed
  moreover have h: "lsame t (roaming_handled env addr vid rb t)"
    by (rule roaming_handled_lsame [OF t(1)])
  moreover have "lsame (roaming_handled env addr vid rb t) (local_flags_updated env l wifi mark (roaming_handled env addr vid rb t))"
    using roaming_handled_facts [OF t(1) refl, of addr vid env rb] t(3) l
    by (intro flags_updated_lsame) (use t(1) in \<open>simp_all add: tables_ok_def batadv_tt_local_hash_find_def\<close>)
  ultimately show ?thesis using eq lsame_trans by metis
qed simp

section \<open>Global operations\<close>

lemma out_remove_lsame: "tt_table_ok (tt_local_hash tt) \<Longrightarrow> lsame tt (global_out_remove env addr vid flags tt)"
proof -
  assume ok: "tt_table_ok (tt_local_hash tt)"
  have "lsame tt (global_write addr vid f (fst (batadv_tt_local_remove env addr vid r tt)))" for f r
    using local_remove_lsame [OF ok, of env addr vid r] by (rule lsame_then) simp_all
  then show ?thesis by (simp add: global_out_remove_def case_prod_unfold)
qed

lemma on_global_frame: "tt_local_hash (on_global a v f tt) = tt_local_hash tt"
  "tt_softif_vlan_list (on_global a v f tt) = tt_softif_vlan_list tt"
  by (simp_all add: on_global_def split: option.split prod.split)

lemma global_add_lsame:
  assumes "tables_ok tt"
  shows "lsame tt (fst (batadv_tt_global_add env orig addr vid flags ttvn tt))"
proof -
  have ok: "tt_table_ok (tt_local_hash tt)" using assms by (simp add: tables_ok_def)
  have fin: "lsame tt (global_out_remove env addr vid flags t)"
    if "tt_local_hash t = tt_local_hash tt" "tt_softif_vlan_list t = tt_softif_vlan_list tt" for t
    using lsame_trans [OF lsame_frame out_remove_lsame] that ok by simp
  show ?thesis
    by (auto simp: batadv_tt_global_add_def Let_def fin on_global_frame split: option.split tt_global_how.split)
qed

lemma global_del_lsame: "lsame tt (batadv_tt_global_del env orig addr vid roaming tt)"
  by (rule lsame_frame) (auto simp: batadv_tt_global_del_def Let_def on_global_frame split: option.split)

lemma upd_tt_orig_lsame [simp]: "lsame tt (upd_tt_orig orig f t) = lsame tt t"
  by (simp add: lsame_def covered_def upd_tt_orig_def)

lemma global_del_orig_lsame: "lsame tt (batadv_tt_global_del_orig env orig match_vid tt)"
  by (simp add: lsame_def covered_def batadv_tt_global_del_orig_def split: prod.split)

lemma global_purge_lsame: "lsame tt (batadv_tt_global_purge env tt)"
  by (simp add: lsame_def covered_def batadv_tt_global_purge_def split: prod.split)

lemma update_changes1_lsame: "tt_ok tt \<Longrightarrow> lsame tt (tt_update_changes1 env orig ttvn cs tt)"
proof (induction cs arbitrary: tt)
  case (Cons c cs)
  obtain t b where t: "batadv_tt_global_add env orig (ch_addr c) (ch_vid c) (ucast (ch_flags c)) ttvn tt = (t, b)" by fastforce
  have "lsame tt t" "tt_ok t"
    using global_add_lsame [of tt env orig "ch_addr c" "ch_vid c" "ucast (ch_flags c)" ttvn]
      global_add_ok [OF Cons.prems, of env orig "ch_addr c" "ch_vid c" "ucast (ch_flags c)" ttvn] t Cons.prems
    by (simp_all add: tt_ok_split)
  then have "lsame tt (tt_update_changes1 env orig ttvn cs t)" "lsame tt t"
    using Cons.IH lsame_trans by blast+
  moreover have "lsame tt (tt_update_changes1 env orig ttvn cs (batadv_tt_global_del env orig (ch_addr c) (ch_vid c) r tt))" for r
    using Cons.IH [OF global_del_ok [OF Cons.prems]] lsame_trans [OF global_del_lsame] by blast
  ultimately show ?case using t by (simp split: bool.split)
qed simp

lemma update_changes_lsame: "tt_ok tt \<Longrightarrow> lsame tt (batadv_tt_update_changes env orig n ttvn data tt)"
  unfolding batadv_tt_update_changes_def batadv_tt_save_orig_buffer_def Let_def
  by (simp add: update_changes1_lsame)

lemma fill_gtable_lsame: "tt_ok tt \<Longrightarrow> lsame tt (batadv_tt_fill_gtable env cs ttvn src tt)"
  unfolding batadv_tt_fill_gtable_def Let_def
  using lsame_trans [OF global_del_orig_lsame update_changes1_lsame [OF global_del_orig_ok]] by simp

lemma update_crc_lsame: "lsame tt (batadv_tt_global_update_crc env orig tt)"
  by (simp add: batadv_tt_global_update_crc_def)

lemma request_lsame: "lsame tt (fst (batadv_send_tt_request env orig ttvn vlans full tt))"
  by (rule same_tables_lsame [OF request_same])

lemma handle_response_lsame: "tt_ok tt \<Longrightarrow> lsame tt (batadv_handle_tt_response env data src n tt)"
proof -
  assume ok: "tt_ok tt"
  have req: "lsame tt (t\<lparr>tt_req_list := x\<rparr>)" if "lsame tt t" for t x using that by (rule lsame_then) simp_all
  show ?thesis
    unfolding batadv_handle_tt_response_def Let_def
    using req lsame_trans [OF fill_gtable_lsame [OF ok] update_crc_lsame]
      lsame_trans [OF update_changes_lsame [OF ok] update_crc_lsame] by simp
qed

lemma ogm_handler_lsame: "tt_ok tt \<Longrightarrow> lsame tt (batadv_tt_tvlv_ogm_handler_v1 env orig data tt)"
  unfolding batadv_tt_tvlv_ogm_handler_v1_def batadv_tt_update_orig_def Let_def
  using lsame_trans [OF lsame_trans [OF update_changes_lsame update_crc_lsame] request_lsame]
    lsame_trans [OF update_changes_lsame update_crc_lsame] request_lsame by simp

lemma unicast_handler_lsame: "tt_ok tt \<Longrightarrow> lsame tt (fst (batadv_tt_tvlv_unicast_handler_v1 env src dst data tt))"
  using same_tables_lsame [OF response_same [of tt env data src dst]]
  by (auto simp: batadv_tt_tvlv_unicast_handler_v1_def Let_def handle_response_lsame split: prod.split bool.split)

lemma roam_handler_lsame: "tt_ok tt \<Longrightarrow> lsame tt (fst (batadv_roam_tvlv_unicast_handler_v1 env src dst data tt))"
  by (simp add: batadv_roam_tvlv_unicast_handler_v1_def global_add_lsame tt_ok_split)

lemma tt_purge_lsame: "tt_ok tt \<Longrightarrow> lsame tt (batadv_tt_purge env tt)"
proof -
  assume ok: "tt_ok tt"
  have "lsame tt (batadv_tt_global_purge env (batadv_tt_local_purge env 600000 tt))"
    by (rule lsame_trans [OF local_purge_lsame global_purge_lsame]) (use ok in \<open>simp add: tt_ok_def\<close>)
  then show ?thesis
    by (rule lsame_then) (simp_all add: batadv_tt_purge_def batadv_tt_roam_purge_def batadv_tt_req_purge_def)
qed

end
