(* ===== verification/Tt_Commit.thy ===== *)
theory Tt_Commit
  imports Tt_Local
begin

text \<open>
  A commit: the new clients become committed, the pending ones disappear, the counters and
  checksums are brought up to date, the version goes up by one. And the answer to a request for
  the whole table, which is exactly the committed clients.
\<close>

section \<open>The two loops of a commit\<close>

definition not_new :: "batadv_tt_local_entry \<Rightarrow> batadv_tt_local_entry" where
  "not_new l = l\<lparr>tt_flags := tt_flags l AND NOT BATADV_TT_CLIENT_NEW\<rparr>"

lemma not_new_fields [simp]: "tt_addr (not_new l) = tt_addr l" "tt_vid (not_new l) = tt_vid l"
  "\<not> bit (tt_flags (not_new l)) 9" "bit (tt_flags (not_new l)) 10 = bit (tt_flags l) 10"
  by (simp_all add: not_new_def bit_simps)

lemma clear_absent:
  fixes w :: u16
  assumes "w AND m = 0"
  shows "w AND NOT m = w"
proof -
  have "w AND NOT m = (w AND NOT m) OR (w AND m)" using assms by simp
  also have "\<dots> = w AND (NOT m OR m)" by (simp only: bit.conj_disj_distrib)
  also have "\<dots> = w" by (simp only: bit.disj_cancel_left bit.conj_one_right)
  finally show ?thesis .
qed

lemma not_new_committed: "\<not> bit (tt_flags l) 9 \<Longrightarrow> not_new l = l"
  unfolding not_new_def by (subst clear_absent) simp_all

lemma size_mod_counted:
  assumes "distinct (map sv_vid vlans)"
    and "\<forall>v\<in>set vlans. sv_num_entries v = c (sv_vid v)"
    and "\<And>vid. d vid = c vid + (if vid = w then n else 0)"
  shows "\<forall>v\<in>set (upd_first (\<lambda>s. sv_vid s = w) (\<lambda>s. s\<lparr>sv_num_entries := sv_num_entries s + n\<rparr>) vlans). sv_num_entries v = d (sv_vid v)"
  using assms(1,2) by (induction vlans) (auto simp: assms(3) image_iff split: if_splits)

lemma size_mod_vids: "map sv_vid (upd_first P (\<lambda>s. s\<lparr>sv_num_entries := f s\<rparr>) vlans) = map sv_vid vlans"
  by (induction vlans) auto

lemma local_size_mod_frame [simp]: "tt_local_hash (batadv_tt_local_size_mod w n tt) = tt_local_hash tt"
  "map sv_vid (tt_softif_vlan_list (batadv_tt_local_size_mod w n tt)) = map sv_vid (tt_softif_vlan_list tt)"
  by (simp_all add: batadv_tt_local_size_mod_def size_mod_vids)

lemma write_split: "tt_table_ok (pre @ l # ls) \<Longrightarrow>
    tt_hash_write (tt_addr l) (tt_vid l) f (pre @ l # ls) = pre @ f l # ls"
proof -
  assume ok: "tt_table_ok (pre @ l # ls)"
  have "tt_hash_write (tt_addr l) (tt_vid l) f pre = pre" "tt_hash_write (tt_addr l) (tt_vid l) f ls = ls"
    using ok by (auto intro!: write_absent)
  moreover have "tt_hash_write a v f (xs @ ys) = tt_hash_write a v f xs @ tt_hash_write a v f ys" for a v and xs ys :: "'a batadv_tt_common_entry_scheme list"
    by (simp add: tt_hash_write_def)
  ultimately show ?thesis by (simp add: tt_hash_write_Cons)
qed

lemma remove_split: "tt_table_ok (pre @ l # ls) \<Longrightarrow> tt_hash_remove (tt_addr l) (tt_vid l) (pre @ l # ls) = pre @ ls"
proof -
  assume ok: "tt_table_ok (pre @ l # ls)"
  have "tt_hash_remove (tt_addr l) (tt_vid l) pre = pre" "tt_hash_remove (tt_addr l) (tt_vid l) ls = ls"
    using ok by (auto intro!: remove_absent)
  moreover have "tt_hash_remove a v (xs @ ys) = tt_hash_remove a v xs @ tt_hash_remove a v ys" for a v and xs ys :: "'a batadv_tt_common_entry_scheme list"
    by (simp add: tt_hash_remove_def)
  ultimately show ?thesis by (simp add: tt_hash_remove_Cons)
qed

lemma tcount_append: "tcount P (xs @ ys) = tcount P xs + tcount P ys"
  by (simp add: tcount_def)

lemma set_new_loop:
  fixes step
  defines "step \<equiv> \<lambda>l tt. if tt_flags l AND BATADV_TT_CLIENT_NEW = 0 then tt
      else batadv_tt_local_size_mod (tt_vid l) 1 (local_write (tt_addr l) (tt_vid l) not_new tt)"
  assumes "tt_local_hash tt = pre @ ls" "tt_table_ok (pre @ ls)" "vlans_counted tt"
  shows "tt_local_hash (fold step ls tt) = pre @ map not_new ls \<and> vlans_counted (fold step ls tt)
    \<and> map sv_vid (tt_softif_vlan_list (fold step ls tt)) = map sv_vid (tt_softif_vlan_list tt)"
  using assms(2-)
proof (induction ls arbitrary: pre tt)
  case (Cons l ls)
  define t where "t = step l tt"
  have t: "tt_local_hash t = pre @ not_new l # ls \<and> vlans_counted t
      \<and> map sv_vid (tt_softif_vlan_list t) = map sv_vid (tt_softif_vlan_list tt)"
  proof (cases "bit (tt_flags l) 9")
    case False
    then have "not_new l = l" by (rule not_new_committed)
    then show ?thesis using False Cons.prems by (simp add: t_def step_def)
  next
    case True
    have h: "tt_local_hash t = pre @ not_new l # ls"
      using True Cons.prems write_split [of pre l ls not_new] by (simp add: t_def step_def)
    have "vlans_counted t"
      unfolding vlans_counted_def
    proof
      show "distinct (map sv_vid (tt_softif_vlan_list t))"
        using Cons.prems(3) True by (simp add: t_def step_def vlans_counted_def)
      have "tcount (committed vid) (tt_local_hash t) = tcount (committed vid) (tt_local_hash tt) + (if vid = tt_vid l then 1 else 0)" for vid
        using True Cons.prems(1) h by (simp add: tcount_append tcount_Cons committed_def one_def)
      then show "\<forall>v\<in>set (tt_softif_vlan_list t). sv_num_entries v = tcount (committed (sv_vid v)) (tt_local_hash t)"
        using Cons.prems(3) True size_mod_counted [of "tt_softif_vlan_list tt" "\<lambda>vid. tcount (committed vid) (tt_local_hash tt)"
            "\<lambda>vid. tcount (committed vid) (tt_local_hash t)" "tt_vid l" 1]
        by (simp add: t_def step_def vlans_counted_def batadv_tt_local_size_mod_def)
    qed
    then show ?thesis using h True by (simp add: t_def step_def)
  qed
  have "tt_table_ok ((pre @ [not_new l]) @ ls)" using Cons.prems(2) by (simp add: tt_keys_def)
  then show ?case
    using Cons.IH [of t "pre @ [not_new l]"] t by (simp add: t_def)
qed simp

lemma set_new:
  assumes "tt_table_ok (tt_local_hash tt)" "vlans_counted tt"
  shows "tt_local_hash (batadv_tt_local_set_flags BATADV_TT_CLIENT_NEW False True tt) = map not_new (tt_local_hash tt)"
    and "vlans_counted (batadv_tt_local_set_flags BATADV_TT_CLIENT_NEW False True tt)"
    and "map sv_vid (tt_softif_vlan_list (batadv_tt_local_set_flags BATADV_TT_CLIENT_NEW False True tt)) = map sv_vid (tt_softif_vlan_list tt)"
  using set_new_loop [of tt "[]" "tt_local_hash tt"] assms
  by (simp_all add: batadv_tt_local_set_flags_def Let_def if_distrib [of "\<lambda>x. x = 0"] not_new_def [abs_def] cong: if_cong)

definition not_pending :: "batadv_tt_local_entry \<Rightarrow> bool" where
  "not_pending l \<longleftrightarrow> \<not> bit (tt_flags l) 10"

lemma purge_pending_loop:
  fixes step
  defines "step \<equiv> \<lambda>l tt. if tt_flags l AND BATADV_TT_CLIENT_PENDING = 0 then tt
      else (let tt = batadv_tt_local_size_mod (tt_vid l) (-1) tt
            in tt\<lparr>tt_local_hash := tt_hash_remove (tt_addr l) (tt_vid l) (tt_local_hash tt)\<rparr>)"
  assumes "tt_local_hash tt = pre @ ls" "tt_table_ok (pre @ ls)" "vlans_counted tt" "\<forall>l\<in>set ls. \<not> bit (tt_flags l) 9"
  shows "tt_local_hash (fold step ls tt) = pre @ filter not_pending ls \<and> vlans_counted (fold step ls tt)
    \<and> map sv_vid (tt_softif_vlan_list (fold step ls tt)) = map sv_vid (tt_softif_vlan_list tt)"
  using assms(2-)
proof (induction ls arbitrary: pre tt)
  case (Cons l ls)
  show ?case
  proof (cases "bit (tt_flags l) 10")
    case False
    then show ?thesis
      using Cons.IH [of tt "pre @ [l]"] Cons.prems by (simp add: step_def not_pending_def)
  next
    case True
    define t where "t = step l tt"
    have h: "tt_local_hash t = pre @ ls"
      using True Cons.prems remove_split [of pre l ls] by (simp add: t_def step_def Let_def)
    have "vlans_counted t"
      unfolding vlans_counted_def
    proof
      show "distinct (map sv_vid (tt_softif_vlan_list t))"
        using Cons.prems(3) True by (simp add: t_def step_def Let_def vlans_counted_def)
      have "tcount (committed vid) (tt_local_hash t) = tcount (committed vid) (tt_local_hash tt) + (if vid = tt_vid l then -1 else 0)" for vid
        using Cons.prems(1,4) h by (simp add: tcount_append tcount_Cons committed_def one_def)
      then show "\<forall>v\<in>set (tt_softif_vlan_list t). sv_num_entries v = tcount (committed (sv_vid v)) (tt_local_hash t)"
        using Cons.prems(3) True size_mod_counted [of "tt_softif_vlan_list tt" "\<lambda>vid. tcount (committed vid) (tt_local_hash tt)"
            "\<lambda>vid. tcount (committed vid) (tt_local_hash t)" "tt_vid l" "-1"]
        by (simp add: t_def step_def Let_def vlans_counted_def batadv_tt_local_size_mod_def)
    qed
    moreover have "map sv_vid (tt_softif_vlan_list t) = map sv_vid (tt_softif_vlan_list tt)"
      using True by (simp add: t_def step_def Let_def)
    moreover have "tt_table_ok (pre @ ls)" using Cons.prems(2) by (auto simp: tt_keys_def)
    ultimately show ?thesis
      using Cons.IH [of t pre] h True Cons.prems(4) by (simp add: t_def not_pending_def)
  qed
qed simp

lemma purge_pending:
  assumes "tt_table_ok (tt_local_hash tt)" "vlans_counted tt" "\<forall>l\<in>set (tt_local_hash tt). \<not> bit (tt_flags l) 9"
  shows "tt_local_hash (batadv_tt_local_purge_pending_clients tt) = filter not_pending (tt_local_hash tt)"
    and "vlans_counted (batadv_tt_local_purge_pending_clients tt)"
    and "map sv_vid (tt_softif_vlan_list (batadv_tt_local_purge_pending_clients tt)) = map sv_vid (tt_softif_vlan_list tt)"
  using purge_pending_loop [of tt "[]" "tt_local_hash tt"] assms
  by (simp_all add: batadv_tt_local_purge_pending_clients_def)

section \<open>The commit\<close>

definition committed_clients :: "batadv_priv_tt \<Rightarrow> batadv_tt_local_entry list" where
  "committed_clients tt = filter not_pending (map not_new (tt_local_hash tt))"

lemma container_update_fields [simp]:
  "tt_local_hash (batadv_tt_tvlv_container_update env tt) = tt_local_hash tt"
  "tt_softif_vlan_list (batadv_tt_tvlv_container_update env tt) = tt_softif_vlan_list tt"
  "tt_vn (batadv_tt_tvlv_container_update env tt) = tt_vn tt"
  "tt_ogm_append_cnt (batadv_tt_tvlv_container_update env tt) = tt_ogm_append_cnt tt"
  by (simp_all add: batadv_tt_tvlv_container_update_def Let_def tt_event_def split: prod.split option.split)

lemma local_crc_only_hash: "tt_local_hash t = tt_local_hash tt \<Longrightarrow> batadv_tt_local_crc env vid t = batadv_tt_local_crc env vid tt"
  by (simp add: batadv_tt_local_crc_def)

lemma set_flags_vn: "tt_vn (batadv_tt_local_set_flags flags enable inc tt) = tt_vn tt"
  unfolding batadv_tt_local_set_flags_def
  by (rule tt_fold_keeps) (simp_all add: batadv_tt_local_size_mod_def local_write_def Let_def)

lemma purge_pending_vn: "tt_vn (batadv_tt_local_purge_pending_clients tt) = tt_vn tt"
  unfolding batadv_tt_local_purge_pending_clients_def
  by (rule tt_fold_keeps) (simp_all add: batadv_tt_local_size_mod_def local_write_def Let_def)

lemma commit_shape:
  fixes tt env
  defines "t \<equiv> batadv_tt_local_commit_changes_nolock id env tt"
  assumes ok: "tt_table_ok (tt_local_hash tt)" and counted: "vlans_counted tt" and changes: "1 \<le> tt_local_changes tt"
  shows "tt_local_hash t = committed_clients tt"
    and "vlans_counted t"
    and "map sv_vid (tt_softif_vlan_list t) = map sv_vid (tt_softif_vlan_list tt)"
    and "\<forall>v\<in>set (tt_softif_vlan_list t). sv_crc v = batadv_tt_local_crc env (sv_vid v) t"
    and "tt_vn t = tt_vn tt + 1" and "tt_ogm_append_cnt t = 3"
proof -
  define a where "a = batadv_tt_local_set_flags BATADV_TT_CLIENT_NEW False True tt"
  define b where "b = batadv_tt_local_purge_pending_clients a"
  note new = set_new [OF ok counted, folded a_def]
  have pend: "tt_local_hash b = committed_clients tt" "vlans_counted b"
      "map sv_vid (tt_softif_vlan_list b) = map sv_vid (tt_softif_vlan_list tt)"
    using purge_pending [of a] new ok by (simp_all add: b_def committed_clients_def tt_keys_def o_def)
  have vn: "tt_vn b = tt_vn tt" by (simp add: a_def b_def set_flags_vn purge_pending_vn)
  define c where "c = (batadv_tt_local_update_crc env b)\<lparr>tt_vn := tt_vn b + 1, tt_ogm_append_cnt := 3\<rparr>"
  have t: "t = batadv_tt_tvlv_container_update env c"
    using changes by (simp add: t_def batadv_tt_local_commit_changes_nolock_def a_def b_def c_def Let_def batadv_tt_local_update_crc_def)
  show "tt_local_hash t = committed_clients tt"
    by (simp add: t c_def batadv_tt_local_update_crc_def pend)
  show "vlans_counted t"
    using pend(2) by (simp add: t c_def batadv_tt_local_update_crc_def vlans_counted_def o_def)
  show "map sv_vid (tt_softif_vlan_list t) = map sv_vid (tt_softif_vlan_list tt)"
    using pend(3) by (simp add: t c_def batadv_tt_local_update_crc_def o_def)
  show "\<forall>v\<in>set (tt_softif_vlan_list t). sv_crc v = batadv_tt_local_crc env (sv_vid v) t"
    by (auto simp: t c_def batadv_tt_local_update_crc_def batadv_tt_local_crc_def)
  show "tt_vn t = tt_vn tt + 1" by (simp add: t c_def vn)
  show "tt_ogm_append_cnt t = 3" by (simp add: t c_def)
qed

lemma commit_idle:
  "tt_local_changes tt < 1 \<Longrightarrow> tt_local_hash (batadv_tt_local_commit_changes_nolock id env tt) = tt_local_hash tt
     \<and> tt_softif_vlan_list (batadv_tt_local_commit_changes_nolock id env tt) = tt_softif_vlan_list tt"
  by (simp add: batadv_tt_local_commit_changes_nolock_def)

text \<open>A commit keeps the counters of our VLANs, and every client in one of them.\<close>

lemma commit_counts:
  assumes "tt_table_ok (tt_local_hash tt)" "vlans_counted tt" "covered tt"
  shows "vlans_counted (batadv_tt_local_commit_changes_nolock id env tt)"
    and "covered (batadv_tt_local_commit_changes_nolock id env tt)"
proof -
  let ?t = "batadv_tt_local_commit_changes_nolock id env tt"
  have "vlans_counted ?t \<and> covered ?t"
  proof (cases "1 \<le> tt_local_changes tt")
    case True
    have "set (map sv_vid (tt_softif_vlan_list ?t)) = set (map sv_vid (tt_softif_vlan_list tt))"
      using commit_shape(3) [OF assms(1,2) True] by metis
    then have "sv_vid ` set (tt_softif_vlan_list ?t) = sv_vid ` set (tt_softif_vlan_list tt)" by simp
    then show ?thesis
      using commit_shape(1,2) [OF assms(1,2) True, of env] assms(3) by (auto simp: covered_def committed_clients_def)
  next
    case False
    then show ?thesis using commit_idle [of tt env] assms(2,3) by (simp add: vlans_counted_def covered_def)
  qed
  then show "vlans_counted ?t" "covered ?t" by blast+
qed

section \<open>The counters in operation\<close>

definition tt_numbers :: "batadv_priv_tt \<Rightarrow> bool" where
  "tt_numbers tt \<longleftrightarrow> counted tt \<and> vlans_counted tt \<and> covered tt"

lemma counted_tables: "counted tt \<Longrightarrow> tt_ok tt" "counted tt \<Longrightarrow> tables_ok tt" "counted tt \<Longrightarrow> tt_table_ok (tt_local_hash tt)"
  by (simp_all add: counted_def tt_ok_split tables_ok_def)

lemma tt_step_counted: "tt_step E r tt tt' \<Longrightarrow> E = vlan_memory \<Longrightarrow> \<not> r \<Longrightarrow> counted tt \<Longrightarrow> counted tt'"
proof (induction rule: tt_step.induct)
  case (add env tt addr vid wifi mark)
  then show ?case unfolding counted_def using local_add_counted local_add_ok counted_tables(1) counted_def by blast
qed (simp_all add: local_remove_counted tt_purge_counted commit_counted global_add_counted batadv_tt_add_temporary_global_entry_def
      global_del_orig_counted ogm_handler_counted unicast_handler_counted roam_handler_counted)

lemma tt_step_lsame: "tt_step E r tt tt' \<Longrightarrow> \<not> r \<Longrightarrow> counted tt \<Longrightarrow>
    lsame tt tt' \<or> (\<exists>env. tt' = batadv_tt_local_commit_changes_nolock id env tt)"
proof (induction rule: tt_step.induct)
  case (remove env tt addr vid)
  then show ?case using local_remove_lsame counted_tables(3) by blast
next
  case (temporary env tt orig addr vid)
  then show ?case unfolding batadv_tt_add_temporary_global_entry_def using global_add_lsame counted_tables(2) by blast
next
  case (commit env tt)
  then show ?case by blast
qed (simp_all add: counted_tables local_add_lsame tt_purge_lsame global_del_orig_lsame
        ogm_handler_lsame unicast_handler_lsame roam_handler_lsame)

lemma tt_step_numbers: "tt_step vlan_memory False tt tt' \<Longrightarrow> tt_numbers tt \<Longrightarrow> tt_numbers tt'"
proof -
  assume s: "tt_step vlan_memory False tt tt'" and n: "tt_numbers tt"
  then have c: "counted tt" "vlans_counted tt" "covered tt" by (simp_all add: tt_numbers_def)
  have "counted tt'" using tt_step_counted [OF s] c(1) by simp
  moreover have "lsame tt tt' \<or> (\<exists>env. tt' = batadv_tt_local_commit_changes_nolock id env tt)"
    using tt_step_lsame [OF s _ c(1)] by simp
  then have "vlans_counted tt' \<and> covered tt'"
  proof (elim disjE exE)
    assume "lsame tt tt'"
    then show ?thesis using c lsame_counted lsame_covered by blast
  next
    fix env
    assume "tt' = batadv_tt_local_commit_changes_nolock id env tt"
    then show ?thesis using commit_counts [OF counted_tables(3) [OF c(1)] c(2,3)] by blast
  qed
  ultimately show ?thesis by (simp add: tt_numbers_def)
qed

definition tt_fresh :: "batadv_priv_tt \<Rightarrow> bool" where
  "tt_fresh tt \<longleftrightarrow> (\<exists>vlans. tt = tt_priv_init\<lparr>tt_softif_vlan_list := vlans\<rparr>
     \<and> distinct (map sv_vid vlans) \<and> (\<forall>v\<in>set vlans. sv_num_entries v = 0))"

lemma tt_fresh_numbers: "tt_fresh tt \<Longrightarrow> tt_numbers tt"
  using tt_init_ok by (auto simp: tt_fresh_def tt_numbers_def counted_def orig_counted_def vlans_counted_def covered_def
      tcount_def gcount_def vcount_def vlans_ok_def tt_priv_init_def tt_orig_init_def batadv_orig_node_vlan_get_def)

interpretation tt_memory: transition_system tt_fresh "tt_step vlan_memory False" tt_numbers
  by unfold_locales (auto simp: tt_fresh_numbers intro: tt_step_numbers)

lemma has_orig_iff: "batadv_tt_global_entry_has_orig g orig \<longleftrightarrow> orig \<in> fst ` set (tg_orig_list g)"
  by (simp add: batadv_tt_global_entry_has_orig_def batadv_tt_global_orig_entry_find_def map_of_eq_None_iff)


text \<open>Client 17 appears behind originator 5, client 18 here, and is announced.\<close>

definition count_run :: batadv_priv_tt where
  "count_run = batadv_tt_local_commit_changes_nolock id own_env (fst (batadv_tt_local_add own_env 18 0 False 0 own_there))"

lemma own_memory: "vlan_memory own_env"
  by (simp add: vlan_memory_def own_env_def)

lemma count_run_reached: "(tt_step vlan_memory False)\<^sup>*\<^sup>* own_init count_run"
  unfolding count_run_def own_there_def
  by (rule rtranclp.rtrancl_into_rtrancl [OF rtranclp.rtrancl_into_rtrancl [OF rtranclp.rtrancl_into_rtrancl [OF rtranclp.rtrancl_refl]]])
    (rule tt_step.temporary tt_step.add tt_step.commit; rule own_memory)+


end
