(* ===== verification/Tt_Sync.thy ===== *)
theory Tt_Sync
  imports Tt_Commit
begin

text \<open>
  How a node copies the whole table of another one: what the answer to a request contains, what
  the receiver makes of it, and that the receiver then finds the checksums of the next
  announcement to be right.
\<close>

section \<open>The answer of the owner of a table\<close>

lemma unat_u16: "n < 65536 \<Longrightarrow> unat (of_nat n :: u16) = n"
  by (simp add: unat_of_nat)

abbreviation announced_clients :: "batadv_priv_tt \<Rightarrow> batadv_tt_local_entry list" where
  "announced_clients tt \<equiv> filter batadv_tt_local_valid (tt_local_hash tt)"

definition vlan_records :: "batadv_priv_tt \<Rightarrow> batadv_tvlv_tt_vlan_data list" where
  "vlan_records tt = map (\<lambda>v. \<lparr>vd_crc = sv_crc v, vd_vid = sv_vid v\<rparr>) (tt_softif_vlan_list tt)"

definition table_bytes_of :: "tt_env \<Rightarrow> u8 \<Rightarrow> batadv_priv_tt \<Rightarrow> u8 list" where
  "table_bytes_of env flags tt =
     tt_data_bytes flags (tt_vn tt) (of_nat (length (tt_softif_vlan_list tt)))
     @ concat (map (vlan_data_bytes [te_junk env 0, te_junk env 1]) (vlan_records tt))"

lemma vlan_indicator_sum:
  "distinct (map sv_vid vs) \<Longrightarrow> x \<in> sv_vid ` set vs \<Longrightarrow> sum_list (map (\<lambda>v. if sv_vid v = x then 1 else 0 :: int) vs) = 1"
proof (induction vs)
  case (Cons v vs)
  have "x \<notin> sv_vid ` set vs \<Longrightarrow> sum_list (map (\<lambda>v. if sv_vid v = x then 1 else 0 :: int) vs) = 0"
    by (induction vs) auto
  then show ?case using Cons by (cases "sv_vid v = x") auto
qed simp

lemma committed_sum:
  assumes "distinct (map sv_vid vs)" "\<forall>l\<in>set ls. tt_vid l \<in> sv_vid ` set vs"
  shows "sum_list (map (\<lambda>v. tcount (committed (sv_vid v)) ls) vs) = int (length (filter batadv_tt_local_valid ls))"
  using assms(2)
proof (induction ls)
  case (Cons l ls)
  have "sum_list (map (\<lambda>v. tcount (committed (sv_vid v)) (l # ls)) vs)
      = sum_list (map (\<lambda>v. tcount (committed (sv_vid v)) ls) vs)
        + (if batadv_tt_local_valid l then sum_list (map (\<lambda>v. if sv_vid v = tt_vid l then 1 else 0) vs) else 0)"
    by (induction vs) (auto simp: tcount_def committed_def batadv_tt_local_valid_def)
  then show ?case using Cons vlan_indicator_sum [OF assms(1), of "tt_vid l"] by simp
qed (simp add: tcount_def sum_list_triv)

lemma num_entries_announced:
  assumes "vlans_counted tt" "covered tt"
  shows "softif_num_entries tt = of_nat (length (announced_clients tt))"
proof -
  have "map sv_num_entries (tt_softif_vlan_list tt) = map (\<lambda>v. tcount (committed (sv_vid v)) (tt_local_hash tt)) (tt_softif_vlan_list tt)"
    using assms(1) by (simp add: vlans_counted_def)
  then have "sum_list (map sv_num_entries (tt_softif_vlan_list tt)) = int (length (announced_clients tt))"
    using committed_sum [of "tt_softif_vlan_list tt" "tt_local_hash tt"] assms by (simp only: vlans_counted_def covered_def)
  then show ?thesis by (simp add: softif_num_entries_def)
qed

lemma length_change_bytes [simp]: "length (change_bytes c) = 12"
  by (simp add: change_bytes_def)

lemma length_vlan_data_bytes [simp]: "length (vlan_data_bytes r v) = 6 + length r"
  by (simp add: vlan_data_bytes_def)

lemma length_concat_same: "(\<And>x. length (f x) = n) \<Longrightarrow> length (concat (map f xs)) = n * length xs"
  by (induction xs) simp_all

lemma length_table_bytes [simp]: "length (table_bytes_of env flags tt) = 4 + 8 * length (tt_softif_vlan_list tt)"
  by (simp add: table_bytes_of_def tt_data_bytes_def length_concat_same [where n = 8] vlan_records_def)

text \<open>Every announced client, each written in full: no byte of the answer is left unwritten.\<close>

definition full_table_bytes :: "tt_env \<Rightarrow> batadv_priv_tt \<Rightarrow> u8 list" where
  "full_table_bytes env tt =
     table_bytes_of env (BATADV_TT_RESPONSE OR BATADV_TT_FULL_TABLE) tt
     @ concat (map (change_bytes \<circ> entry_change) (announced_clients tt))"

lemma local_data_full:
  assumes counted: "vlans_counted tt" "covered tt" and alloc: "te_alloc env Site_Tt_Data"
    and size: "4 + 8 * length (tt_softif_vlan_list tt) + 12 * length (announced_clients tt) < 65536"
  shows "batadv_tt_prepare_tvlv_local_data env (-1) tt =
      (Some (table_bytes_of env 0 tt), 12 * int (length (announced_clients tt)),
       of_nat (4 + 8 * length (tt_softif_vlan_list tt) + 12 * length (announced_clients tt)))"
proof -
  have e: "uint (softif_num_entries tt) = int (length (announced_clients tt))"
    using size num_entries_announced [OF counted] by (simp add: uint_nat unat_u16)
  have v: "uint (softif_num_vlan tt) = int (length (tt_softif_vlan_list tt))"
    using size by (simp add: softif_num_vlan_def uint_nat unat_u16)
  show ?thesis
    using alloc by (simp add: batadv_tt_prepare_tvlv_local_data_def Let_def e v batadv_tt_len_def table_bytes_of_def
        softif_num_vlan_def vlan_records_def comp_def algebra_simps)
qed

lemma generate_all:
  assumes "12 * length (filter P es) < 65536"
  shows "batadv_tt_tvlv_generate env (12 * int (length (filter P es))) P es
    = concat (map (change_bytes \<circ> entry_change) (filter P es))"
proof -
  have "unat (batadv_tt_entries (of_int (12 * int (length (filter P es))))) = length (filter P es)"
  proof -
    have "unat (of_nat (12 * length (filter P es)) div (12 :: u16)) = length (filter P es)"
      using assms by (simp add: unat_div unat_u16 del: of_nat_mult)
    then show ?thesis by (simp add: batadv_tt_entries_def)
  qed
  moreover have "length (concat (map (change_bytes \<circ> entry_change) (filter P es))) = 12 * length (filter P es)"
    by (rule length_concat_same) simp
  ultimately show ?thesis
    by (simp add: batadv_tt_tvlv_generate_def change_area_def Let_def nat_mult_distrib)
qed

lemma my_full_response:
  assumes counted: "vlans_counted tt" "covered tt" and alloc: "te_alloc env Site_Tt_Data"
    and size: "4 + 8 * length (tt_softif_vlan_list tt) + 12 * length (announced_clients tt) < 65536"
    and some: "announced_clients tt \<noteq> []"
    and req: "batadv_orig_hash_find (te_priv env) req_src \<noteq> None" "primary_addr (te_priv env) = Some addr"
    and full: "req ! 0 AND BATADV_TT_FULL_TABLE \<noteq> 0 \<or> tt_vn tt \<noteq> req ! 1 \<or> tt_last_changeset tt = None"
  shows "batadv_send_my_tt_response env req req_src tt
    = tt_event (Tt_Unicast addr req_src BATADV_TVLV_TT (full_table_bytes env tt)) tt"
proof -
  have g: "batadv_tt_tvlv_generate env (12 * int (length (announced_clients tt))) batadv_tt_local_valid (tt_local_hash tt)
      = concat (map (change_bytes \<circ> entry_change) (announced_clients tt))"
    using size by (intro generate_all) simp
  have h: "set_tt_data 20 (tt_vn tt) (table_bytes_of env 0 tt @ r) = table_bytes_of env 20 tt @ r" for r
    by (simp add: set_tt_data_def table_bytes_of_def tt_data_bytes_def)
  have l: "length (full_table_bytes env tt) = 4 + 8 * length (tt_softif_vlan_list tt) + 12 * length (announced_clients tt)"
    by (simp add: full_table_bytes_def length_concat_same [where n = 12])
  then have u: "unat (of_nat (4 + 8 * length (tt_softif_vlan_list tt) + 12 * length (announced_clients tt)) :: u16)
      = length (full_table_bytes env tt)"
    using unat_u16 [OF size] by simp
  show ?thesis
    using req some full
    by (simp only: batadv_send_my_tt_response_def Let_def if_True simp_thms option.case local_data_full [OF counted alloc size]
        prod.case if_False g response_flags_def h u flip: full_table_bytes_def) (simp add: full_table_bytes_def h)
qed

section \<open>Reading the answer\<close>

lemma change_at_bytes: "change_at (change_bytes c @ r) = c"
  by (simp add: change_at_def change_bytes_def)

lemma drop_concat_same:
  "(\<And>x. length (f x) = n) \<Longrightarrow> i \<le> length xs \<Longrightarrow> drop (n * i) (concat (map f xs) @ r) = concat (map f (drop i xs)) @ r"
proof (induction xs arbitrary: i)
  case (Cons x xs)
  then show ?case by (cases i) (simp_all add: drop_append)
qed simp

lemma tt_changes_at_bytes: "tt_changes_at (length cs) (concat (map change_bytes cs) @ r) = cs"
proof (rule nth_equalityI)
  show "length (tt_changes_at (length cs) (concat (map change_bytes cs) @ r)) = length cs"
    by (simp add: tt_changes_at_def)
  fix i assume "i < length (tt_changes_at (length cs) (concat (map change_bytes cs) @ r))"
  then have i: "i < length cs" by (simp add: tt_changes_at_def)
  have "drop (12 * i) (concat (map change_bytes cs) @ r) = change_bytes (cs ! i) @ concat (map change_bytes (drop (Suc i) cs)) @ r"
    using i drop_concat_same [of change_bytes 12 i cs r] by (simp flip: Cons_nth_drop_Suc)
  then show "tt_changes_at (length cs) (concat (map change_bytes cs) @ r) ! i = cs ! i"
    using i by (simp add: tt_changes_at_def change_at_bytes)
qed

lemma vlan_data_at_bytes:
  "length pre = 4 + 8 * i \<Longrightarrow> length res = 2 \<Longrightarrow> vlan_data_at past (pre @ vlan_data_bytes res v @ r) (4 + 8 * i) = v"
  by (simp add: vlan_data_at_def rd_bytes_inside vlan_data_bytes_def)

lemma tt_vlans_at_bytes:
  assumes "length hdr = 4" "length res = 2"
  shows "tt_vlans_at past (hdr @ concat (map (vlan_data_bytes res) vs) @ r) (length vs) = vs"
proof (rule nth_equalityI)
  let ?d = "hdr @ concat (map (vlan_data_bytes res) vs) @ r"
  show "length (tt_vlans_at past ?d (length vs)) = length vs" by (simp add: tt_vlans_at_def)
  fix i assume "i < length (tt_vlans_at past ?d (length vs))"
  then have i: "i < length vs" by (simp add: tt_vlans_at_def)
  have "concat (map (vlan_data_bytes res) vs) = concat (map (vlan_data_bytes res) (take i vs)) @ vlan_data_bytes res (vs ! i)
      @ concat (map (vlan_data_bytes res) (drop (Suc i) vs))"
    using arg_cong [OF id_take_nth_drop [OF i], of "\<lambda>vs. concat (map (vlan_data_bytes res) vs)"] by simp
  moreover have "length (hdr @ concat (map (vlan_data_bytes res) (take i vs))) = 4 + 8 * i"
    using i assms by (simp add: length_concat_same [where n = 8])
  ultimately show "tt_vlans_at past ?d (length vs) ! i = vs ! i"
    using i vlan_data_at_bytes [OF _ assms(2), of "hdr @ concat (map (vlan_data_bytes res) (take i vs))" i past "vs ! i"]
    by (simp add: tt_vlans_at_def)
qed

end
