(* ===== verification/Tt_Copy.thy ===== *)
theory Tt_Copy
  imports Tt_Sync
begin

text \<open>
  The receiver of a whole table: what it has of the sender afterwards is what was sent, and its
  checksums are those of the sender.
\<close>

section \<open>The clients of an originator\<close>

definition clients_of :: "mac \<Rightarrow> batadv_priv_tt \<Rightarrow> (mac \<times> u16 \<times> u16) set" where
  "clients_of orig tt = {(tt_addr g, tt_vid g, tt_flags g) | g. g \<in> set (tt_global_hash tt) \<and> orig \<in> fst ` set (tg_orig_list g)}"

definition only_behind :: "mac \<Rightarrow> batadv_priv_tt \<Rightarrow> mac \<Rightarrow> u16 \<Rightarrow> bool" where
  "only_behind orig tt addr vid \<longleftrightarrow>
     (case batadv_tt_global_hash_find tt addr vid of None \<Rightarrow> True | Some g \<Rightarrow> fst ` set (tg_orig_list g) \<subseteq> {orig})"

lemma clients_of_cong: "tt_global_hash tt' = tt_global_hash tt \<Longrightarrow> clients_of orig tt' = clients_of orig tt"
  by (simp add: clients_of_def)

lemma clients_of_insert: "set (tt_global_hash t) = insert g (set (tt_global_hash tt)) \<Longrightarrow> orig \<in> fst ` set (tg_orig_list g) \<Longrightarrow>
    clients_of orig t = insert (tt_addr g, tt_vid g, tt_flags g) (clients_of orig tt)"
  by (auto simp: clients_of_def)

text \<open>Taking an originator out of all entries.\<close>

definition clear_orig :: "tt_env \<Rightarrow> mac \<Rightarrow> global_st \<Rightarrow> batadv_tt_global_entry option \<times> (mac \<Rightarrow> tt_orig)" where
  "clear_orig env orig s = (case batadv_tt_global_del_orig_node env orig s of
      (g, origs) \<Rightarrow> (if tg_orig_list g = [] then None else Some g, origs))"

lemma clear_orig_kept:
  assumes "orig_list_ok g" "clear_orig env orig (g, origs) = (Some g', origs')"
  shows "same_client g g' \<and> orig \<notin> fst ` set (tg_orig_list g') \<and> tg_orig_list g' \<noteq> []
    \<and> fst ` set (tg_orig_list g') \<subseteq> fst ` set (tg_orig_list g)"
proof -
  have ok: "distinct (map fst (tg_orig_list g))" using assms(1) by (simp add: orig_list_ok_def)
  have "g' = g\<lparr>tg_orig_list := filter (\<lambda>(w, _). w \<noteq> orig) (tg_orig_list g),
      tg_orig_list_count := tg_orig_list_count g - (if orig \<in> fst ` set (tg_orig_list g) then 1 else 0)\<rparr>" "tg_orig_list g' \<noteq> []"
    using del_orig_node_fst [OF ok, of env orig origs] assms(2) by (auto simp: clear_orig_def split: prod.splits if_splits)
  then show ?thesis by (auto simp: same_client_def)
qed

lemma walk_clears:
  assumes "\<forall>g\<in>set gs. orig_list_ok g" and "global_walk (clear_orig env orig) gs origs = (gs', origs')" and "g' \<in> set gs'"
  shows "\<exists>g\<in>set gs. same_client g g' \<and> orig \<notin> fst ` set (tg_orig_list g') \<and> tg_orig_list g' \<noteq> []
    \<and> fst ` set (tg_orig_list g') \<subseteq> fst ` set (tg_orig_list g)"
  using assms
proof (induction gs arbitrary: origs gs' origs')
  case (Cons g gs)
  obtain h o1 where h: "clear_orig env orig (g, origs) = (h, o1)" by fastforce
  obtain rs o2 where rs: "global_walk (clear_orig env orig) gs o1 = (rs, o2)" by fastforce
  have "g' \<in> set rs \<or> h = Some g'"
    using Cons.prems(2,3) h rs by (auto split: option.splits)
  then show ?case
  proof
    assume "g' \<in> set rs"
    then show ?thesis using Cons.IH [OF _ rs] Cons.prems(1) by auto
  next
    assume "h = Some g'"
    then show ?thesis using clear_orig_kept [of g env orig origs g' o1] h Cons.prems(1) by auto
  qed
qed simp

lemma empty_of: "x \<notin> A \<Longrightarrow> A \<subseteq> B \<Longrightarrow> B \<subseteq> {x} \<Longrightarrow> A = {}"
  by blast

lemma del_orig_clears:
  fixes env orig
  assumes ok: "tables_ok tt"
  defines "t \<equiv> batadv_tt_global_del_orig env orig (-1) tt"
  shows "clients_of orig t = {}"
    and "only_behind orig tt addr vid \<Longrightarrow> batadv_tt_global_hash_find t addr vid = None"
    and "tt_local_hash t = tt_local_hash tt"
proof -
  obtain gs origs where w: "global_walk (clear_orig env orig) (tt_global_hash tt) (tt_orig tt) = (gs, origs)" by fastforce
  have c: "(\<lambda>(g, origs). case batadv_tt_global_del_orig_node env orig (g, origs) of
      (g, origs) \<Rightarrow> (if tg_orig_list g = [] then None else Some g, origs)) = clear_orig env orig"
    by (auto simp: clear_orig_def fun_eq_iff)
  have t: "tt_global_hash t = gs" "tt_local_hash t = tt_local_hash tt"
    using w by (simp_all add: t_def batadv_tt_global_del_orig_def c)
  have lists: "\<forall>g\<in>set (tt_global_hash tt). orig_list_ok g" using ok by (simp add: tables_ok_def)
  note kept = walk_clears [OF lists w]
  show "clients_of orig t = {}" using kept t by (fastforce simp: clients_of_def)
  show "tt_local_hash t = tt_local_hash tt" by (rule t)
  assume only: "only_behind orig tt addr vid"
  show "batadv_tt_global_hash_find t addr vid = None"
  proof (rule ccontr)
    assume "batadv_tt_global_hash_find t addr vid \<noteq> None"
    then obtain g' where g': "g' \<in> set gs" "tt_addr g' = addr" "tt_vid g' = vid"
      by (auto simp: batadv_tt_global_hash_find_def t dest: tt_find_SomeD)
    obtain g where g: "g \<in> set (tt_global_hash tt)" "same_client g g'" "orig \<notin> fst ` set (tg_orig_list g')"
        "tg_orig_list g' \<noteq> []" "fst ` set (tg_orig_list g') \<subseteq> fst ` set (tg_orig_list g)"
      using kept [OF g'(1)] by blast
    then have "batadv_tt_global_hash_find tt addr vid = Some g"
      using ok g' tt_find_in [of "tt_global_hash tt" g] by (simp add: batadv_tt_global_hash_find_def tables_ok_def same_client_def)
    then have "fst ` set (tg_orig_list g) \<subseteq> {orig}" using only by (simp add: only_behind_def)
    then have "fst ` set (tg_orig_list g') = {}" by (rule empty_of [OF g(3,5)])
    then show False using g(4) by simp
  qed
qed

section \<open>Adding the clients\<close>

lemma add_unknown:
  assumes ok: "tables_ok tt" and env: "te_backbone_gw env orig vid = False" "te_alloc env (Site_Global addr vid)"
      "te_alloc env (Site_Orig_Entry addr vid orig)"
    and new: "batadv_tt_local_hash_find tt addr vid = None" "batadv_tt_global_hash_find tt addr vid = None"
    and flags: "\<not> bit flags 11" "\<not> bit flags 1"
    and t: "batadv_tt_global_add env orig addr vid flags ttvn tt = (t, b)"
  shows "b" and "clients_of orig t = insert (addr, vid, flags) (clients_of orig tt)"
    and "tt_local_hash t = tt_local_hash tt"
    and "batadv_tt_global_hash_find t addr' vid' = None \<longleftrightarrow>
      batadv_tt_global_hash_find tt addr' vid' = None \<and> (addr', vid') \<noteq> (addr, vid)"
proof -
  define g where "g = (global_new env addr vid flags)\<lparr>tg_orig_list := [(orig, ttvn)], tg_orig_list_count := 1\<rparr>"
  have absent: "\<forall>e\<in>set (tt_global_hash tt). \<not> (tt_addr e = addr \<and> tt_vid e = vid)"
    using new(2) by (auto simp: batadv_tt_global_hash_find_def tt_find_None tt_keys_def)
  have fl: "flags AND NOT 2 = flags" using clear_absent [of flags 2] flags(2) by simp
  have "b \<and> tt_local_hash t = tt_local_hash tt \<and> set (tt_global_hash t) = insert g (set (tt_global_hash tt))"
  proof -
    define t1 where "t1 = tt\<lparr>tt_global_hash := tt_hash_add env (global_new env addr vid flags) (tt_global_hash tt)\<rparr>"
    have f1: "batadv_tt_global_hash_find t1 addr vid = Some (global_new env addr vid flags)"
      using new(2) by (simp add: batadv_tt_global_hash_find_def t1_def tt_find_add tt_find_None global_new_def)
    obtain origs where e: "batadv_tt_global_orig_entry_add env orig ttvn (global_new env addr vid flags, tt_orig t1) = (g, origs)"
      using env by (simp add: batadv_tt_global_orig_entry_add_def batadv_tt_global_entry_has_orig_def
          batadv_tt_global_orig_entry_find_def global_new_def g_def)
    define t2 where "t2 = on_global addr vid (batadv_tt_global_orig_entry_add env orig ttvn) t1"
    have t2: "t2 = (global_write addr vid (\<lambda>_. g) t1)\<lparr>tt_orig := origs\<rparr>"
      using f1 e by (simp add: t2_def on_global_def)
    have tb: "b" "t = global_out_remove env addr vid flags t2"
      using t env new flags by (simp_all add: batadv_tt_global_add_def t2_def t1_def)
    have l2: "tt_local_hash t2 = tt_local_hash tt" by (simp add: t2 t1_def)
    have s2: "set (tt_global_hash t2) = insert g (set (tt_global_hash tt))"
      using absent by (auto simp: t2 t1_def set_tt_hash_write global_new_def image_iff)
    have "batadv_tt_local_remove env addr vid r t2 = (t2, 0)" for r
      using new(1) l2 by (simp add: batadv_tt_local_remove_def batadv_tt_local_hash_find_def)
    then have "t = t2 \<or> t = global_write addr vid (\<lambda>g. g\<lparr>tt_flags := tt_flags g AND NOT 2\<rparr>) t2"
      using tb(2) flags(2) by (auto simp: global_out_remove_def Let_def)
    then show ?thesis
    proof
      assume "t = t2"
      then show ?thesis using tb l2 s2 by simp
    next
      assume w: "t = global_write addr vid (\<lambda>g. g\<lparr>tt_flags := tt_flags g AND NOT 2\<rparr>) t2"
      have "g\<lparr>tt_flags := tt_flags g AND NOT 2\<rparr> = g" "tt_addr g = addr" "tt_vid g = vid"
        using fl by (simp_all add: g_def global_new_def)
      then have "set (tt_global_hash t) = insert g (set (tt_global_hash tt))"
        using absent s2 by (auto simp: w set_tt_hash_write image_iff)
      moreover have "tt_local_hash t = tt_local_hash tt" using l2 by (simp add: w)
      ultimately show ?thesis using tb(1) by blast
    qed
  qed
  then have r: "b" "tt_local_hash t = tt_local_hash tt" "set (tt_global_hash t) = insert g (set (tt_global_hash tt))" by blast+
  show b by (rule r)
  show "tt_local_hash t = tt_local_hash tt" by (rule r)
  show "clients_of orig t = insert (addr, vid, flags) (clients_of orig tt)"
    using clients_of_insert [OF r(3), of orig] by (simp add: g_def global_new_def)
  show "batadv_tt_global_hash_find t addr' vid' = None \<longleftrightarrow>
      batadv_tt_global_hash_find tt addr' vid' = None \<and> (addr', vid') \<noteq> (addr, vid)"
    by (auto simp: batadv_tt_global_hash_find_def tt_find_None tt_keys_def r(3) g_def global_new_def)
qed

definition copy_env :: "tt_env \<Rightarrow> mac \<Rightarrow> bool" where
  "copy_env env orig \<longleftrightarrow> (\<forall>site. te_alloc env site) \<and> (\<forall>vid. \<not> te_backbone_gw env orig vid)"

definition triple :: "batadv_tvlv_tt_change \<Rightarrow> mac \<times> u16 \<times> u16" where
  "triple c = (ch_addr c, ch_vid c, ucast (ch_flags c))"

definition unknown :: "batadv_priv_tt \<Rightarrow> batadv_tvlv_tt_change \<Rightarrow> bool" where
  "unknown tt c \<longleftrightarrow> batadv_tt_local_hash_find tt (ch_addr c) (ch_vid c) = None
     \<and> batadv_tt_global_hash_find tt (ch_addr c) (ch_vid c) = None"

lemma add_all:
  assumes "tt_ok tt" "copy_env env orig" "\<forall>c\<in>set cs. unknown tt c" "distinct (map (\<lambda>c. (ch_addr c, ch_vid c)) cs)"
    and "\<forall>c\<in>set cs. ch_flags c AND 3 = 0"
  shows "clients_of orig (tt_update_changes1 env orig ttvn cs tt) = triple ` set cs \<union> clients_of orig tt
    \<and> to_has_tt (tt_orig (tt_update_changes1 env orig ttvn cs tt) orig)"
  using assms
proof (induction cs arbitrary: tt)
  case Nil
  then show ?case by (simp add: upd_tt_orig_def clients_of_def)
next
  case (Cons c cs)
  have "ch_flags c AND 3 = 0" using Cons.prems(5) by simp
  then have "bit (ch_flags c AND 3) n = False" for n by simp
  from this [of 0] this [of 1] have f: "\<not> bit (ch_flags c) 0" "\<not> bit (ch_flags c) 1"
    by (simp_all add: bit_and_iff)
  have d: "ch_flags c AND 1 = 0" using and_exp_eq_0_iff_not_bit [of "ch_flags c" 0] f by simp
  have u: "\<not> bit (ucast (ch_flags c) :: u16) 11" "\<not> bit (ucast (ch_flags c) :: u16) 1"
    using f by (auto simp: bit_simps dest: bit_imp_le_length)
  obtain t b where t: "batadv_tt_global_add env orig (ch_addr c) (ch_vid c) (ucast (ch_flags c)) ttvn tt = (t, b)" by fastforce
  have a: "tables_ok tt" "\<not> te_backbone_gw env orig (ch_vid c)" "te_alloc env (Site_Global (ch_addr c) (ch_vid c))"
    "te_alloc env (Site_Orig_Entry (ch_addr c) (ch_vid c) orig)"
    "batadv_tt_local_hash_find tt (ch_addr c) (ch_vid c) = None" "batadv_tt_global_hash_find tt (ch_addr c) (ch_vid c) = None"
    using Cons.prems(1-3) by (simp_all add: copy_env_def unknown_def tt_ok_split)
  note added = add_unknown [OF a(1) _ a(3-6) u t]
  have b: b using added(1) a(2) by simp
  have ok: "tt_ok t" using global_add_ok [OF Cons.prems(1), of env orig "ch_addr c" "ch_vid c" "ucast (ch_flags c)" ttvn] t by simp
  have "\<forall>c'\<in>set cs. unknown t c'"
  proof
    fix c' assume c': "c' \<in> set cs"
    then have "(ch_addr c', ch_vid c') \<noteq> (ch_addr c, ch_vid c)" using Cons.prems(4) by (simp add: image_iff) metis
    then show "unknown t c'"
      using Cons.prems(3) c' added(3,4) a(2) by (simp add: unknown_def batadv_tt_local_hash_find_def)
  qed
  then have "clients_of orig (tt_update_changes1 env orig ttvn cs t) = triple ` set cs \<union> clients_of orig t
      \<and> to_has_tt (tt_orig (tt_update_changes1 env orig ttvn cs t) orig)"
    using Cons.IH [OF ok] Cons.prems(2,4,5) by simp
  moreover have "clients_of orig t = insert (triple c) (clients_of orig tt)" using added(2) a(2) by (simp add: triple_def)
  ultimately show ?case using t b d by auto
qed

section \<open>Checksums\<close>

text \<open>The checksum depends on the clients of the originator only, not on the order of the table.\<close>

definition triple_crc :: "tt_env \<Rightarrow> mac \<times> u16 \<times> u16 \<Rightarrow> u32" where
  "triple_crc env t = (case t of (addr, vid, flags) \<Rightarrow>
     entry_crc env \<lparr>tt_addr = addr, tt_vid = vid, tt_flags = flags, tt_added_at = 0\<rparr>)"

lemma entry_crc_triple: "entry_crc env e = triple_crc env (tt_addr e, tt_vid e, tt_flags e)"
  by (simp add: entry_crc_def triple_crc_def)

definition xor_of :: "tt_env \<Rightarrow> (mac \<times> u16 \<times> u16) list \<Rightarrow> u32" where
  "xor_of env ts = fold (\<lambda>t crc. crc XOR triple_crc env t) ts 0"

lemma xor_of_mset: "mset ts = mset ts' \<Longrightarrow> xor_of env ts = xor_of env ts'"
  unfolding xor_of_def
  by (rule fun_cong [OF fold_multiset_equiv]) (simp_all add: fun_eq_iff ac_simps)

lemma fold_if: "fold (\<lambda>x a. if P x then f x a else a) xs a = fold f (filter P xs) a"
  by (induction xs arbitrary: a) simp_all

definition key_of :: "'a batadv_tt_common_entry_scheme \<Rightarrow> mac \<times> u16 \<times> u16" where
  "key_of e = (tt_addr e, tt_vid e, tt_flags e)"

lemma local_crc_xor: "batadv_tt_local_crc env vid tt =
    xor_of env (map key_of (filter (\<lambda>l. tt_vid l = vid \<and> batadv_tt_local_valid l) (tt_local_hash tt)))"
proof -
  have "batadv_tt_local_crc env vid tt = fold (\<lambda>l crc. if tt_vid l = vid \<and> batadv_tt_local_valid l
      then crc XOR triple_crc env (key_of l) else crc) (tt_local_hash tt) 0"
    unfolding batadv_tt_local_crc_def
    by (rule arg_cong2 [where f = "\<lambda>f x. fold f x 0"]) (auto simp: fun_eq_iff batadv_tt_local_valid_def entry_crc_triple key_of_def)
  then show ?thesis by (simp add: fold_if xor_of_def fold_map comp_def)
qed

lemma global_crc_xor: "batadv_tt_global_crc env orig vid tt =
    xor_of env (map key_of (filter (\<lambda>g. tt_vid g = vid \<and> batadv_tt_global_valid orig g) (tt_global_hash tt)))"
proof -
  have "batadv_tt_global_crc env orig vid tt = fold (\<lambda>g crc. if tt_vid g = vid \<and> batadv_tt_global_valid orig g
      then crc XOR triple_crc env (key_of g) else crc) (tt_global_hash tt) 0"
    unfolding batadv_tt_global_crc_def
    by (rule arg_cong2 [where f = "\<lambda>f x. fold f x 0"]) (auto simp: fun_eq_iff batadv_tt_global_valid_def entry_crc_triple key_of_def)
  then show ?thesis by (simp add: fold_if xor_of_def fold_map comp_def)
qed

lemma distinct_keys: "tt_table_ok es \<Longrightarrow> distinct (map key_of (filter P es))"
  by (induction es) (auto simp: key_of_def tt_keys_def)

text \<open>Checksums only look at the flags that are kept in sync.\<close>

lemma entry_crc_flags: "f AND BATADV_TT_SYNC_MASK = f' AND BATADV_TT_SYNC_MASK \<Longrightarrow> triple_crc env (a, v, f) = triple_crc env (a, v, f')"
  by (simp add: triple_crc_def entry_crc_def)

lemma triple_crc_env: "te_crc32c env = te_crc32c env' \<Longrightarrow> triple_crc env = triple_crc env'"
  by (simp add: triple_crc_def entry_crc_def fun_eq_iff)

lemma ucast_ucast_and: "ucast (ucast (f :: u16) :: u8) = f AND 0xFF"
  by (rule bit_word_eqI) (auto simp: bit_simps bit_and_iff, auto simp: word_bw_assocs bit_simps less_Suc_eq numeral_eq_Suc)

abbreviation sent :: "batadv_priv_tt \<Rightarrow> batadv_tvlv_tt_change list" where
  "sent tt \<equiv> map entry_change (announced_clients tt)"

lemma triple_entry_change: "triple (entry_change l) = (tt_addr l, tt_vid l, ucast (ucast (tt_flags l) :: u8))"
  by (simp add: triple_def entry_change_def)

lemma sent_keys: "tt_table_ok (tt_local_hash tt) \<Longrightarrow> distinct (map (\<lambda>c. (ch_addr c, ch_vid c)) (sent tt))"
  using distinct_filter [of "tt_keys (tt_local_hash tt)"]
  by (simp add: tt_keys_def entry_change_def comp_def distinct_map inj_on_def)

lemma received_crc:
  assumes a: "tt_table_ok (tt_local_hash A)" and b: "tt_table_ok (tt_global_hash B)"
    and same: "clients_of orig B = triple ` set (sent A)"
    and flags: "\<forall>l\<in>set (announced_clients A). tt_flags l AND 3 = 0"
    and crc: "te_crc32c envA = te_crc32c envB"
  shows "batadv_tt_global_crc envB orig vid B = batadv_tt_local_crc envA vid A"
proof -
  let ?la = "filter (\<lambda>l. tt_vid l = vid \<and> batadv_tt_local_valid l) (tt_local_hash A)"
  let ?gb = "filter (\<lambda>g. tt_vid g = vid \<and> batadv_tt_global_valid orig g) (tt_global_hash B)"
  have key: "triple (entry_change l) = (tt_addr l, tt_vid l, ucast (ucast (tt_flags l) :: u8))" for l :: batadv_tt_local_entry
    by (rule triple_entry_change)
  have valid: "batadv_tt_global_valid orig g \<longleftrightarrow> orig \<in> fst ` set (tg_orig_list g)"
    if g: "g \<in> set (tt_global_hash B)" for g
  proof (cases "orig \<in> fst ` set (tg_orig_list g)")
    case True
    then have "key_of g \<in> clients_of orig B" using g by (auto simp: clients_of_def key_of_def)
    then obtain l where l: "l \<in> set (announced_clients A)" "tt_flags g = ucast (ucast (tt_flags l) :: u8)"
      using same by (auto simp: key_of_def triple_entry_change)
    have "\<not> bit (tt_flags l AND 3) 1" using flags l(1) by simp
    then have "\<not> bit (tt_flags l) 1" by (simp add: bit_and_iff)
    then have "\<not> bit (tt_flags g) 1" "\<not> bit (tt_flags g) 11"
      using l(2) by (auto simp: bit_simps)
    then show ?thesis using True by (simp add: batadv_tt_global_valid_def has_orig_iff)
  qed (simp add: batadv_tt_global_valid_def has_orig_iff)
  have "?gb = filter (\<lambda>g. tt_vid g = vid \<and> orig \<in> fst ` set (tg_orig_list g)) (tt_global_hash B)"
    by (rule filter_cong) (simp_all add: valid)
  then have "set (map key_of ?gb) = {t \<in> clients_of orig B. fst (snd t) = vid}"
    by (simp only: set_map set_filter clients_of_def) (fastforce simp: key_of_def)
  also have "\<dots> = set (map (triple \<circ> entry_change) ?la)"
  proof -
    have "triple ` set (sent A) = (\<lambda>l. (tt_addr l, tt_vid l, ucast (ucast (tt_flags l) :: u8))) ` {l \<in> set (tt_local_hash A). batadv_tt_local_valid l}"
      by (simp add: image_image key)
    then show ?thesis by (auto simp: same key)
  qed
  finally have eq: "set (map key_of ?gb) = set (map (triple \<circ> entry_change) ?la)" .
  have "distinct (map (triple \<circ> entry_change) ?la)"
  proof -
    have "distinct (map (\<lambda>l. (tt_addr l, tt_vid l)) ?la)"
      using a by (simp add: tt_keys_def distinct_map inj_on_def)
    then show ?thesis by (simp add: distinct_map inj_on_def key)
  qed
  then have "mset (map key_of ?gb) = mset (map (triple \<circ> entry_change) ?la)"
    using eq distinct_keys [OF b] set_eq_iff_mset_eq_distinct by blast
  then have "batadv_tt_global_crc envB orig vid B = xor_of envB (map (triple \<circ> entry_change) ?la)"
    unfolding global_crc_xor by (rule xor_of_mset)
  also have "\<dots> = xor_of envA (map key_of ?la)"
  proof -
    have "triple_crc envB (triple (entry_change l)) = triple_crc envA (key_of l)" for l :: batadv_tt_local_entry
      unfolding key key_of_def triple_crc_env [OF crc]
      by (rule entry_crc_flags) (simp add: ucast_ucast_and ac_simps and.assoc)
    then show ?thesis by (simp add: xor_of_def fold_map comp_def)
  qed
  finally show ?thesis by (simp add: local_crc_xor)
qed

section \<open>The whole table received\<close>

lemma full_table_fields:
  shows "full_table_bytes env tt ! 0 = 20" and "full_table_bytes env tt ! 1 = tt_vn tt"
    and "tt_num_vlan (full_table_bytes env tt) = of_nat (length (tt_softif_vlan_list tt))"
    and "length (full_table_bytes env tt) = 4 + 8 * length (tt_softif_vlan_list tt) + 12 * length (announced_clients tt)"
  by (simp_all add: full_table_bytes_def table_bytes_of_def tt_data_bytes_def tt_num_vlan_def comp_def
      length_concat_same [where n = 12] length_concat_same [where n = 8] vlan_records_def)

lemma full_table_changes:
  "drop (4 + 8 * length (tt_softif_vlan_list tt)) (full_table_bytes env tt) = concat (map change_bytes (sent tt))"
  by (simp add: full_table_bytes_def comp_def)

lemma response_full:
  fixes envA envB A B orig
  defines "B' \<equiv> batadv_handle_tt_response envB (full_table_bytes envA A) orig (length (announced_clients A)) B"
  assumes okA: "tt_table_ok (tt_local_hash A)" and ok: "counted B" and env: "copy_env envB orig"
    and known: "batadv_orig_hash_find (te_priv envB) orig \<noteq> None"
    and size: "4 + 8 * length (tt_softif_vlan_list A) + 12 * length (announced_clients A) < 65536"
    and flags: "\<forall>l\<in>set (announced_clients A). tt_flags l AND 3 = 0"
    and fresh: "\<forall>l\<in>set (announced_clients A). batadv_tt_local_hash_find B (tt_addr l) (tt_vid l) = None
        \<and> only_behind orig B (tt_addr l) (tt_vid l)"
  shows "clients_of orig B' = triple ` set (sent A)" and "counted B'"
    and "to_has_tt (tt_orig B' orig)" and "to_last_ttvn (tt_orig B' orig) = tt_vn A"
    and "\<forall>v\<in>set (to_vlan_list (tt_orig B' orig)). ov_crc v = batadv_tt_global_crc envB orig (ov_vid v) B'"
proof -
  obtain on where known': "batadv_orig_hash_find (te_priv envB) orig = Some on" using known by auto
  define B1 where "B1 = batadv_tt_global_del_orig envB orig (-1) B"
  define B2 where "B2 = tt_update_changes1 envB orig (tt_vn A) (sent A) B1"
  define B3 where "B3 = upd_tt_orig orig (\<lambda>on. on\<lparr>to_tt_buff := None, to_last_ttvn := tt_vn A\<rparr>) B2"
  have tok: "tables_ok B" "tt_ok B" using counted_tables ok by blast+
  note clear = del_orig_clears [OF tok(1), where env = envB and orig = orig, folded B1_def]
  have ok1: "tt_ok B1" unfolding B1_def by (rule global_del_orig_ok [OF tok(2)])
  have "\<forall>c\<in>set (sent A). unknown B1 c"
    using fresh clear(2,3) by (auto simp: unknown_def entry_change_def batadv_tt_local_hash_find_def)
  moreover have "\<forall>c\<in>set (sent A). ch_flags c AND 3 = 0"
  proof
    fix c assume "c \<in> set (sent A)"
    then obtain l where l: "l \<in> set (announced_clients A)" "c = entry_change l" by auto
    have "ucast (tt_flags l AND 3) = (0 :: u8)" using flags l(1) by simp
    then show "ch_flags c AND 3 = 0" using l(2) by (simp add: entry_change_def unsigned_and_eq)
  qed
  ultimately have two: "clients_of orig B2 = triple ` set (sent A)" "to_has_tt (tt_orig B2 orig)"
    using add_all [OF ok1 env _ sent_keys [OF okA]] clear(1) unfolding B2_def by auto
  have data: "tt_changes_at (length (announced_clients A)) (drop (unat (of_nat 8 * tt_num_vlan (full_table_bytes envA A) + of_nat 4 :: u16))
      (full_table_bytes envA A)) = sent A"
  proof -
    have "unat (of_nat 8 * of_nat (length (tt_softif_vlan_list A)) + of_nat 4 :: u16) = 4 + 8 * length (tt_softif_vlan_list A)"
      using unat_u16 [of "4 + 8 * length (tt_softif_vlan_list A)"] size by (simp add: algebra_simps)
    then show ?thesis
      using full_table_fields(3) [of envA A] full_table_changes [of A envA] tt_changes_at_bytes [of "sent A" "[]"] by simp
  qed
  have fill: "batadv_tt_fill_gtable envB (sent A) (tt_vn A) orig B = B3"
    using known by (auto simp: batadv_tt_fill_gtable_def Let_def B1_def B2_def B3_def)
  have B': "B' = (batadv_tt_global_update_crc envB orig B3)\<lparr>tt_req_list := filter (\<lambda>node. rq_addr node \<noteq> orig) (tt_req_list (batadv_tt_global_update_crc envB orig B3))\<rparr>"
    using known' full_table_fields(1,2) [of envA A] data fill
    by (simp add: B'_def batadv_handle_tt_response_def Let_def)
  have mem: "vlan_memory envB" using env by (simp add: copy_env_def vlan_memory_def)
  show "counted B'" unfolding B'_def by (rule handle_response_counted [OF ok mem])
  have same: "tt_global_hash B' = tt_global_hash B2"
    by (simp add: B' B3_def batadv_tt_global_update_crc_def upd_tt_orig_def)
  then show "clients_of orig B' = triple ` set (sent A)" using two(1) clients_of_cong by metis
  show "to_has_tt (tt_orig B' orig)" "to_last_ttvn (tt_orig B' orig) = tt_vn A"
    using two(2) by (simp_all add: B' B3_def batadv_tt_global_update_crc_def upd_tt_orig_def)
  have crc: "batadv_tt_global_crc envB orig vid B' = batadv_tt_global_crc envB orig vid B3" for vid
    by (simp add: batadv_tt_global_crc_def same B3_def upd_tt_orig_def)
  show "\<forall>v\<in>set (to_vlan_list (tt_orig B' orig)). ov_crc v = batadv_tt_global_crc envB orig (ov_vid v) B'"
    using env by (auto simp: crc) (auto simp: B' batadv_tt_global_update_crc_def upd_tt_orig_def copy_env_def)
qed

end
