(* ===== verification/Tt_Agree.thy ===== *)
theory Tt_Agree
  imports Tt_Copy Routing_Props
begin

text \<open>
  Two nodes: one asks the other for its whole table, and from then on agrees with it.
\<close>

section \<open>The next announcement\<close>

lemma find_distinct: "distinct (map ov_vid vs) \<Longrightarrow> w \<in> set vs \<Longrightarrow> List.find (\<lambda>v. ov_vid v = ov_vid w) vs = Some w"
  by (induction vs) force+

lemma counted_vlans:
  assumes "counted tt"
  shows "vlans_ok (tt_orig tt orig)"
    and "gcount (tt_global_hash tt) orig vid \<noteq> 0 \<Longrightarrow>
      \<exists>w. batadv_orig_node_vlan_get (tt_orig tt orig) vid = Some w \<and> w \<in> set (to_vlan_list (tt_orig tt orig)) \<and> ov_vid w = vid"
    and "w \<in> set (to_vlan_list (tt_orig tt orig)) \<Longrightarrow> ov_vid w = 0 \<or> gcount (tt_global_hash tt) orig (ov_vid w) \<noteq> 0"
proof -
  have c: "vlans_ok (tt_orig tt orig)" "vcount (tt_orig tt orig) vid = gcount (tt_global_hash tt) orig vid" for vid
    using assms by (simp_all add: counted_def orig_counted_def)
  show "vlans_ok (tt_orig tt orig)" by (rule c)
  show "gcount (tt_global_hash tt) orig vid \<noteq> 0 \<Longrightarrow>
      \<exists>w. batadv_orig_node_vlan_get (tt_orig tt orig) vid = Some w \<and> w \<in> set (to_vlan_list (tt_orig tt orig)) \<and> ov_vid w = vid"
    using c(2) [of vid] by (auto simp: vcount_def batadv_orig_node_vlan_get_def split: option.splits dest: find_SomeD)
  assume w: "w \<in> set (to_vlan_list (tt_orig tt orig))"
  then have "batadv_orig_node_vlan_get (tt_orig tt orig) (ov_vid w) = Some w"
    using c(1) find_distinct [of "to_vlan_list (tt_orig tt orig)" w] by (simp add: vlans_ok_def batadv_orig_node_vlan_get_def)
  then have "vcount (tt_orig tt orig) (ov_vid w) = ov_num_entries w" by (simp add: vcount_def)
  then show "ov_vid w = 0 \<or> gcount (tt_global_hash tt) orig (ov_vid w) \<noteq> 0"
    using c w by (auto simp: vlans_ok_def)
qed

lemma gcount_iff: "gcount (tt_global_hash tt) orig vid \<noteq> 0 \<longleftrightarrow> (\<exists>t\<in>clients_of orig tt. fst (snd t) = vid)"
  by (fastforce simp: gcount_def tcount_def serves_def clients_of_def filter_empty_conv)

lemma crc_accepted:
  assumes B: "counted B" "clients_of orig B = triple ` set (sent A)"
      "\<forall>v\<in>set (to_vlan_list (tt_orig B orig)). ov_crc v = batadv_tt_global_crc envB orig (ov_vid v) B"
    and A: "tt_table_ok (tt_local_hash A)" "vlans_counted A" "covered A"
      "\<forall>v\<in>set (tt_softif_vlan_list A). sv_crc v = batadv_tt_local_crc envA (sv_vid v) A"
      "\<forall>v\<in>set (tt_softif_vlan_list A). \<exists>l\<in>set (announced_clients A). tt_vid l = sv_vid v"
      "0 \<in> sv_vid ` set (tt_softif_vlan_list A)"
      "\<forall>l\<in>set (announced_clients A). tt_flags l AND 3 = 0"
    and crc: "te_crc32c envA = te_crc32c envB"
  shows "batadv_tt_global_check_crc env orig (vlan_records A) B"
proof -
  have ok: "tt_table_ok (tt_global_hash B)" using counted_tables(2) [OF B(1)] by (simp add: tables_ok_def)
  have some: "gcount (tt_global_hash B) orig vid \<noteq> 0 \<longleftrightarrow> (\<exists>l\<in>set (announced_clients A). tt_vid l = vid)" for vid
    unfolding gcount_iff B(2) by (auto simp: triple_entry_change)
  have "case batadv_orig_node_vlan_get (tt_orig B orig) (sv_vid v) of None \<Rightarrow> False | Some w \<Rightarrow> ov_crc w = sv_crc v"
    if v: "v \<in> set (tt_softif_vlan_list A)" for v
  proof -
    have "gcount (tt_global_hash B) orig (sv_vid v) \<noteq> 0" using A(5) v some by blast
    then obtain w where w: "batadv_orig_node_vlan_get (tt_orig B orig) (sv_vid v) = Some w"
        "w \<in> set (to_vlan_list (tt_orig B orig))" "ov_vid w = sv_vid v"
      using counted_vlans(2) [OF B(1)] by blast
    then show ?thesis using B(3) A(4) v received_crc [OF A(1) ok B(2) A(7) crc] by simp
  qed
  moreover have "length (to_vlan_list (tt_orig B orig)) \<le> length (tt_softif_vlan_list A)"
  proof -
    have "ov_vid w \<in> sv_vid ` set (tt_softif_vlan_list A)" if w: "w \<in> set (to_vlan_list (tt_orig B orig))" for w
      using counted_vlans(3) [OF B(1) w]
    proof
      assume "gcount (tt_global_hash B) orig (ov_vid w) \<noteq> 0"
      then obtain l where "l \<in> set (announced_clients A)" "tt_vid l = ov_vid w" using some by blast
      then show ?thesis using A(3) unfolding covered_def by (metis filter_is_subset subsetD)
    qed (use A(6) in simp)
    then have "set (map ov_vid (to_vlan_list (tt_orig B orig))) \<subseteq> set (map sv_vid (tt_softif_vlan_list A))" by auto
    then have "card (set (map ov_vid (to_vlan_list (tt_orig B orig)))) \<le> card (set (map sv_vid (tt_softif_vlan_list A)))"
      by (rule card_mono [OF finite_set])
    moreover have "distinct (map ov_vid (to_vlan_list (tt_orig B orig)))" "distinct (map sv_vid (tt_softif_vlan_list A))"
      using counted_vlans(1) [OF B(1)] A(2) by (simp_all add: vlans_ok_def vlans_counted_def)
    ultimately show ?thesis by (simp only: distinct_card length_map)
  qed
  ultimately show ?thesis
    by (auto simp: batadv_tt_global_check_crc_def vlan_records_def list_all_iff cong: option.case_cong)
qed

lemma announcement_silent:
  assumes "to_has_tt (tt_orig B orig)" "to_last_ttvn (tt_orig B orig) = tt_vn A"
    and "batadv_tt_global_check_crc env orig (vlan_records A) B" and "8 * length (tt_softif_vlan_list A) < 65536"
  shows "batadv_tt_tvlv_ogm_handler_v1 env orig (table_bytes_of envA flags A @ changes) B = B"
proof -
  let ?d = "table_bytes_of envA flags A @ changes"
  have l: "length ?d = 4 + 8 * length (tt_softif_vlan_list A) + length changes" by simp
  have n: "unat (tt_num_vlan ?d) = length (tt_softif_vlan_list A)"
    using assms(4) by (simp add: tt_num_vlan_def table_bytes_of_def tt_data_bytes_def unat_u16)
  have v: "?d ! 1 = tt_vn A" by (simp add: table_bytes_of_def tt_data_bytes_def)
  have r: "tt_vlans_at past ?d (length (tt_softif_vlan_list A)) = vlan_records A" for past
    using tt_vlans_at_bytes [of "tt_data_bytes flags (tt_vn A) (of_nat (length (tt_softif_vlan_list A)))"
        "[te_junk envA 0, te_junk envA 1]" past "vlan_records A" changes]
    by (simp add: table_bytes_of_def vlan_records_def tt_data_bytes_def)
  show ?thesis
    using assms(1-3) l n v r by (simp add: batadv_tt_tvlv_ogm_handler_v1_def batadv_tt_update_orig_def Let_def)
qed

section \<open>A request for the whole table and its effect\<close>

lemma request_answered:
  assumes own: "batadv_is_my_mac (te_priv env) a" and vs: "length vlans < 8192"
  shows "batadv_tt_tvlv_unicast_handler_v1 env b a (tt_request_bytes ttvn vlans True) tt
    = (batadv_send_my_tt_response env (tt_request_bytes ttvn vlans True) b tt, NET_RX_SUCCESS)"
    and "tt_request_bytes ttvn vlans True ! 0 AND BATADV_TT_FULL_TABLE \<noteq> 0"
proof -
  let ?r = "tt_request_bytes ttvn vlans True"
  have f: "?r ! 0 = 18" "length ?r = 4 + 8 * length vlans" "tt_num_vlan ?r = of_nat (length vlans)"
    by (simp_all add: tt_request_bytes_def tt_data_bytes_def tt_num_vlan_def length_concat_same [where n = 8])
  have n: "unat (of_nat 8 * of_nat (length vlans) :: u16) = 8 * length vlans"
    using unat_u16 [of "8 * length vlans"] vs by simp
  show "batadv_tt_tvlv_unicast_handler_v1 env b a ?r tt = (batadv_send_my_tt_response env ?r b tt, NET_RX_SUCCESS)"
    using own f n by (simp add: batadv_tt_tvlv_unicast_handler_v1_def Let_def batadv_send_tt_response_def)
  show "?r ! 0 AND BATADV_TT_FULL_TABLE \<noteq> 0" using f(1) by simp
qed

lemma response_handled:
  assumes own: "batadv_is_my_mac (te_priv env) b"
    and size: "4 + 8 * length (tt_softif_vlan_list A) + 12 * length (announced_clients A) < 65536"
  shows "batadv_tt_tvlv_unicast_handler_v1 env a b (full_table_bytes envA A) B
    = (batadv_handle_tt_response env (full_table_bytes envA A) a (length (announced_clients A)) B, NET_RX_SUCCESS)"
proof -
  note f = full_table_fields [of envA A]
  have n: "unat (of_nat 8 * of_nat (length (tt_softif_vlan_list A)) :: u16) = 8 * length (tt_softif_vlan_list A)"
    using unat_u16 [of "8 * length (tt_softif_vlan_list A)"] size by simp
  have "unat (of_nat (12 * length (announced_clients A)) div (12 :: u16)) = length (announced_clients A)"
    using size by (simp add: unat_div unat_u16 del: of_nat_mult)
  then have e: "unat (batadv_tt_entries (of_nat (12 * length (announced_clients A)))) = length (announced_clients A)"
    by (simp add: batadv_tt_entries_def)
  show ?thesis
    using own f n e by (simp add: batadv_tt_tvlv_unicast_handler_v1_def Let_def)
qed


text \<open>
  Node 5 has two clients, one of them on a wireless interface; node 6 has already seen one of
  them in a message that went through node 5.
\<close>

definition sync_env :: "mac \<Rightarrow> mac \<Rightarrow> tt_env" where
  "sync_env me other = own_env\<lparr>te_priv :=
     (priv_init 7 (\<lambda>_. (hardif_init me False 1500)\<lparr>hi_if_status := BATADV_IF_ACTIVE, hi_soft_iface := Some 7\<rparr>) [0])
       \<lparr>bp_orig_hash := [(other, demo_target)], bp_primary_if := Some 0\<rparr>\<rparr>"

definition sync_a0 :: batadv_priv_tt where
  "sync_a0 = fst (batadv_tt_local_add (sync_env 5 6) 19 0 True 0 (fst (batadv_tt_local_add (sync_env 5 6) 18 0 False 0 own_init)))"

definition sync_a :: batadv_priv_tt where
  "sync_a = batadv_tt_local_commit_changes_nolock id (sync_env 5 6) sync_a0"

definition sync_b :: batadv_priv_tt where
  "sync_b = fst (batadv_tt_add_temporary_global_entry (sync_env 6 5) 5 18 0 own_init)"

lemma sync_memory: "vlan_memory (sync_env x y)"
  by (simp add: vlan_memory_def sync_env_def own_env_def)

lemma sync_a0_reached: "(tt_step vlan_memory False)\<^sup>*\<^sup>* own_init sync_a0"
  unfolding sync_a0_def
  by (rule rtranclp.rtrancl_into_rtrancl [OF rtranclp.rtrancl_into_rtrancl [OF rtranclp.rtrancl_refl]])
    (rule tt_step.add; rule sync_memory)+

lemma sync_b_reached: "(tt_step vlan_memory False)\<^sup>*\<^sup>* own_init sync_b"
  unfolding sync_b_def
  by (rule r_into_rtranclp) (rule tt_step.temporary, rule sync_memory)

lemma sync_vlans: "distinct (map sv_vid (tt_softif_vlan_list own_init))" "\<forall>v\<in>set (tt_softif_vlan_list own_init). sv_num_entries v = 0"
  "tt_priv_init\<lparr>tt_softif_vlan_list := tt_softif_vlan_list own_init\<rparr> = own_init"
  by (simp_all add: own_init_def tt_priv_init_def)

lemma sync_node: "batadv_is_my_mac (te_priv (sync_env x y)) x" "primary_addr (te_priv (sync_env x y)) = Some x"
  "batadv_orig_hash_find (te_priv (sync_env x y)) y \<noteq> None" "te_alloc (sync_env x y) site" "copy_env (sync_env x y) z"
  "te_crc32c (sync_env x y) = te_crc32c (sync_env x' y')"
  by (simp_all add: sync_env_def own_env_def priv_init_def hardif_init_def batadv_is_my_mac_def primary_addr_def
      batadv_orig_hash_find_def copy_env_def)

lemma sync_a_local: "map (\<lambda>l. (tt_addr l, tt_vid l, tt_flags l)) (tt_local_hash sync_a) = [(19, 0, 0x10), (18, 0, 0)]"
  "map sv_vid (tt_softif_vlan_list sync_a) = [0]"
  by code_simp+

lemma sync_b_tables: "tt_local_hash sync_b = []"
  "map (\<lambda>g. (tt_addr g, tt_vid g, map fst (tg_orig_list g))) (tt_global_hash sync_b) = [(18, 0, [5])]"
  by code_simp+
lemma sync_changes: "1 \<le> tt_local_changes sync_a0"
  by code_simp

lemma sync_announced:
  obtains l1 l2 where "tt_local_hash sync_a = [l1, l2]" "announced_clients sync_a = [l1, l2]"
    "tt_addr l1 = 19" "tt_vid l1 = 0" "tt_flags l1 = 0x10" "tt_addr l2 = 18" "tt_vid l2 = 0" "tt_flags l2 = 0"
proof -
  obtain l1 l2 where l: "tt_local_hash sync_a = [l1, l2]" "tt_addr l1 = 19" "tt_vid l1 = 0" "tt_flags l1 = 0x10"
      "tt_addr l2 = 18" "tt_vid l2 = 0" "tt_flags l2 = 0"
    using sync_a_local(1) by auto
  then show thesis by (intro that [of l1 l2]) (simp_all add: batadv_tt_local_valid_def)
qed

lemma sync_b_find: "batadv_tt_local_hash_find sync_b x v = None" "only_behind 5 sync_b x v"
  using sync_b_tables by (auto simp: batadv_tt_local_hash_find_def batadv_tt_global_hash_find_def only_behind_def
      map_eq_Cons_conv)

lemma sync_tables: "4 + 8 * length (tt_softif_vlan_list sync_a) + 12 * length (tt_local_hash sync_a) < 65536"
  "0 \<in> sv_vid ` set (tt_softif_vlan_list sync_a)"
  "\<forall>v\<in>set (tt_softif_vlan_list sync_a). \<exists>l\<in>set (announced_clients sync_a). tt_vid l = sv_vid v"
  "\<forall>l\<in>set (announced_clients sync_a). tt_flags l AND 3 = 0"
  "{(tt_addr l, tt_vid l, tt_flags l AND 0xFF) | l. l \<in> set (announced_clients sync_a)} = {(19, 0, 0x10), (18, 0, 0)}"
proof -
  obtain l1 l2 where l: "tt_local_hash sync_a = [l1, l2]" "announced_clients sync_a = [l1, l2]"
      "tt_addr l1 = 19" "tt_vid l1 = 0" "tt_flags l1 = 0x10" "tt_addr l2 = 18" "tt_vid l2 = 0" "tt_flags l2 = 0"
    by (rule sync_announced)
  have v: "length (tt_softif_vlan_list sync_a) = 1" "sv_vid ` set (tt_softif_vlan_list sync_a) = {0}"
    using arg_cong [OF sync_a_local(2), of length] arg_cong [OF sync_a_local(2), of set] by simp_all
  show "4 + 8 * length (tt_softif_vlan_list sync_a) + 12 * length (tt_local_hash sync_a) < 65536"
    using v(1) l(1) by simp
  show "0 \<in> sv_vid ` set (tt_softif_vlan_list sync_a)" using v(2) by simp
  show "\<forall>v\<in>set (tt_softif_vlan_list sync_a). \<exists>l\<in>set (announced_clients sync_a). tt_vid l = sv_vid v"
    using v(2) l(2,4) by auto
  show "\<forall>l\<in>set (announced_clients sync_a). tt_flags l AND 3 = 0" using l(2,5,8) by simp
  show "{(tt_addr l, tt_vid l, tt_flags l AND 0xFF) | l. l \<in> set (announced_clients sync_a)} = {(19, 0, 0x10), (18, 0, 0)}"
    using l(2-) by auto
qed


end
