(* ===== verification/Tt_Resize.thy ===== *)
theory Tt_Resize
  imports Tt_Sync Routing_Props
begin

text \<open>
  The loop that makes the local table fit a smaller packet: it ends when all clients may be
  purged, and does not end when too many may not. The search for the best originator of a client.
\<close>

section \<open>One round of the loop\<close>

definition purge_mark :: "tt_env \<Rightarrow> nat \<Rightarrow> batadv_tt_local_entry \<Rightarrow> batadv_tt_local_entry" where
  "purge_mark env timeout l =
     (if local_to_purge env timeout l then l\<lparr>tt_flags := tt_flags l OR BATADV_TT_CLIENT_PENDING\<rparr> else l)"

lemma purge_mark_key [simp]: "tt_addr (purge_mark env timeout l) = tt_addr l" "tt_vid (purge_mark env timeout l) = tt_vid l"
  "bit (tt_flags (purge_mark env timeout l)) 9 = bit (tt_flags l) 9" "bit (tt_flags (purge_mark env timeout l)) 8 = bit (tt_flags l) 8"
  "tl_last_seen (purge_mark env timeout l) = tl_last_seen l"
  by (simp_all add: purge_mark_def bit_simps)

lemma local_purge_loop:
  assumes "tt_local_hash tt = pre @ ls" "tt_table_ok (pre @ ls)"
  shows "tt_local_hash (fold (\<lambda>l tt. if local_to_purge env timeout l
      then batadv_tt_local_set_pending env l 1 tt else tt) ls tt) = pre @ map (purge_mark env timeout) ls"
  using assms
proof (induction ls arbitrary: pre tt)
  case (Cons l ls)
  define t where "t = (if local_to_purge env timeout l then batadv_tt_local_set_pending env l 1 tt else tt)"
  have "tt_local_hash t = (pre @ [purge_mark env timeout l]) @ ls"
    using Cons.prems write_split [of pre l ls] by (simp add: t_def batadv_tt_local_set_pending_def purge_mark_def)
  moreover have "tt_table_ok ((pre @ [purge_mark env timeout l]) @ ls)" using Cons.prems(2) by simp
  ultimately show ?case using Cons.IH [of t "pre @ [purge_mark env timeout l]"] by (simp add: t_def)
qed simp

lemma local_purge_hash: "tt_table_ok (tt_local_hash tt) \<Longrightarrow>
    tt_local_hash (batadv_tt_local_purge env timeout tt) = map (purge_mark env timeout) (tt_local_hash tt)"
  using local_purge_loop [of tt "[]" "tt_local_hash tt" env timeout] by (simp add: batadv_tt_local_purge_def)

definition resize_ready :: "batadv_priv_tt \<Rightarrow> bool" where
  "resize_ready tt \<longleftrightarrow> tt_table_ok (tt_local_hash tt) \<and> vlans_counted tt \<and> covered tt
     \<and> (\<forall>l\<in>set (tt_local_hash tt). \<not> bit (tt_flags l) 9)"

lemma resize_step_facts:
  fixes env timeout r
  assumes "resize_ready tt"
  defines "t \<equiv> snd (snd (resize_step env (timeout, r, tt)))"
  shows "tt_local_hash t = filter not_pending (map (purge_mark env timeout) (tt_local_hash tt))" and "resize_ready t"
    and "map sv_vid (tt_softif_vlan_list t) = map sv_vid (tt_softif_vlan_list tt)"
proof -
  define p where "p = batadv_tt_local_purge env timeout tt"
  have ok: "tt_table_ok (tt_local_hash tt)" using assms(1) by (simp add: resize_ready_def)
  have h: "tt_local_hash p = map (purge_mark env timeout) (tt_local_hash tt)" unfolding p_def by (rule local_purge_hash [OF ok])
  have same: "lsame tt p" unfolding p_def by (rule local_purge_lsame [OF ok])
  have p: "tt_table_ok (tt_local_hash p)" "vlans_counted p" "\<forall>l\<in>set (tt_local_hash p). \<not> bit (tt_flags l) 9" "covered p"
    using assms(1) lsame_counted [OF same] lsame_covered [OF same] h by (auto simp: resize_ready_def tt_keys_def comp_def)
  have t: "t = batadv_tt_local_purge_pending_clients p" by (simp add: t_def p_def resize_step_def)
  note q = purge_pending [OF p(1-3), folded t]
  show "tt_local_hash t = filter not_pending (map (purge_mark env timeout) (tt_local_hash tt))" using q(1) h by simp
  show v: "map sv_vid (tt_softif_vlan_list t) = map sv_vid (tt_softif_vlan_list tt)"
    using q(3) same by (simp add: lsame_def)
  have "sv_vid ` set (tt_softif_vlan_list t) = sv_vid ` set (tt_softif_vlan_list p)"
    using arg_cong [OF q(3), of set] by simp
  then show "resize_ready t"
    using q(1,2) p by (auto simp: resize_ready_def covered_def tt_keys_def distinct_map_filter)
qed

section \<open>The loop ends\<close>

lemma transmit_size:
  assumes "vlans_counted tt" "covered tt"
  shows "batadv_tt_local_table_transmit_size tt =
    28 + 8 * uint (of_nat (length (tt_softif_vlan_list tt)) :: u16) + 12 * uint (of_nat (length (announced_clients tt)) :: u16)"
  by (simp add: batadv_tt_local_table_transmit_size_def num_entries_announced [OF assms] softif_num_vlan_def batadv_tt_len_def)

definition resize_measure :: "nat \<times> bool \<times> batadv_priv_tt \<Rightarrow> nat" where
  "resize_measure s = (case s of (timeout, _, tt) \<Rightarrow> timeout + length (tt_local_hash tt))"

definition all_old :: "tt_env \<Rightarrow> batadv_priv_tt \<Rightarrow> bool" where
  "all_old env tt \<longleftrightarrow> (\<forall>l\<in>set (tt_local_hash tt). \<not> bit (tt_flags l) 8 \<and> batadv_has_timed_out (te_m2j env) (te_now env) (tl_last_seen l) 0)"

lemma resize_round:
  assumes ready: "resize_ready tt" and old: "all_old env tt"
    and room: "28 + 8 * uint (of_nat (length (tt_softif_vlan_list tt)) :: u16) \<le> bp_packet_size_max (te_priv env)"
    and again: "resize_again env (timeout, r, tt)" and step: "resize_step env (timeout, r, tt) = (timeout', r', t)"
  shows "resize_ready t \<and> all_old env t \<and> length (tt_softif_vlan_list t) = length (tt_softif_vlan_list tt)
    \<and> r' \<and> timeout' + length (tt_local_hash t) < timeout + length (tt_local_hash tt)
    \<and> length (tt_local_hash t) \<le> length (tt_local_hash tt)"
proof -
  have t: "t = snd (snd (resize_step env (timeout, r, tt)))" "timeout' = timeout div 2" r'
    using step by (auto simp: resize_step_def)
  note f = resize_step_facts [OF ready, of env timeout r, folded t(1)]
  have some: "tt_local_hash tt \<noteq> []"
  proof
    assume none: "tt_local_hash tt = []"
    have "vlans_counted tt" "covered tt" using ready by (simp_all add: resize_ready_def)
    then show False using transmit_size [of tt] again room none by (simp add: resize_again_def)
  qed
  have fewer: "length (tt_local_hash t) \<le> length (tt_local_hash tt)" unfolding f(1) by (metis length_filter_le length_map)
  have "timeout' + length (tt_local_hash t) < timeout + length (tt_local_hash tt)"
  proof (cases "timeout = 0")
    case True
    have "\<not> not_pending (purge_mark env timeout l)" if "l \<in> set (tt_local_hash tt)" for l
      using old that True by (auto simp: not_pending_def purge_mark_def local_to_purge_def all_old_def bit_simps)
    then have "tt_local_hash t = []" using f(1) by (simp add: filter_empty_conv)
    then show ?thesis using some t(2) True by simp
  next
    case False
    then show ?thesis using t(2) fewer by simp
  qed
  moreover have "all_old env t" using old f(1) by (auto simp: all_old_def)
  ultimately show ?thesis using f(2) t(3) fewer arg_cong [OF f(3), of length] by simp
qed

lemma resize_loop:
  assumes "resize_ready tt" "all_old env tt"
    and "28 + 8 * uint (of_nat (length (tt_softif_vlan_list tt)) :: u16) \<le> bp_packet_size_max (te_priv env)"
  shows "\<exists>timeout' r' t. while_option (resize_again env) (resize_step env) (timeout, r, tt) = Some (timeout', r', t)
    \<and> resize_ready t \<and> length (tt_local_hash t) \<le> length (tt_local_hash tt) \<and> batadv_tt_local_table_transmit_size t \<le> bp_packet_size_max (te_priv env)"
proof -
  define P where "P = (\<lambda>s :: nat \<times> bool \<times> batadv_priv_tt. resize_ready (snd (snd s)) \<and> all_old env (snd (snd s))
      \<and> length (tt_softif_vlan_list (snd (snd s))) = length (tt_softif_vlan_list tt)
      \<and> length (tt_local_hash (snd (snd s))) \<le> length (tt_local_hash tt))"
  have "P (resize_step env s) \<and> resize_measure (resize_step env s) < resize_measure s" if "P s" "resize_again env s" for s
  proof -
    obtain to r u to' r' u' where s: "s = (to, r, u)" "resize_step env s = (to', r', u')"
      using prod_cases3 by metis
    then show ?thesis
      using resize_round [of u env to r to' r' u'] that assms(3) by (auto simp: P_def resize_measure_def)
  qed
  note round = this
  have start: "P (timeout, r, tt)" using assms by (simp add: P_def)
  obtain s' where w: "while_option (resize_again env) (resize_step env) (timeout, r, tt) = Some s'"
    using measure_while_option_Some [of P "resize_again env" "resize_step env" resize_measure, OF round start] by blast
  have "P s'" by (rule while_option_rule [OF _ w, of P]) (use round start in blast)+
  with w while_option_stop [OF w] have s': "while_option (resize_again env) (resize_step env) (timeout, r, tt) = Some s'"
      "P s'" "\<not> resize_again env s'" by blast+
  then show ?thesis by (cases s') (auto simp: P_def resize_again_def)
qed

lemma announced_all: "\<forall>l\<in>set (tt_local_hash tt). \<not> bit (tt_flags l) 9 \<Longrightarrow> announced_clients tt = tt_local_hash tt"
  by (simp add: batadv_tt_local_valid_def)

lemma commit_keeps_size:
  assumes "resize_ready tt"
  shows "batadv_tt_local_table_transmit_size (batadv_tt_local_commit_changes_nolock id env tt) \<le> batadv_tt_local_table_transmit_size tt
    \<or> length (tt_local_hash tt) \<ge> 65536"
proof (cases "length (tt_local_hash tt) < 65536")
  case True
  let ?t = "batadv_tt_local_commit_changes_nolock id env tt"
  have r: "tt_table_ok (tt_local_hash tt)" "vlans_counted tt" "covered tt" "\<forall>l\<in>set (tt_local_hash tt). \<not> bit (tt_flags l) 9"
    using assms by (simp_all add: resize_ready_def)
  note c = commit_counts [OF r(1-3), of env]
  have "length (tt_softif_vlan_list ?t) = length (tt_softif_vlan_list tt) \<and> length (announced_clients ?t) \<le> length (tt_local_hash tt)"
  proof (cases "1 \<le> tt_local_changes tt")
    case True
    note s = commit_shape [OF r(1,2) True, of env]
    have "length (committed_clients tt) \<le> length (tt_local_hash tt)"
      unfolding committed_clients_def by (metis length_filter_le length_map)
    then show ?thesis
      using arg_cong [OF s(3), of length] s(1) le_trans [OF length_filter_le [of batadv_tt_local_valid "committed_clients tt"]] by simp
  next
    case False
    then show ?thesis using commit_idle [of tt env] length_filter_le [of batadv_tt_local_valid "tt_local_hash tt"] by simp
  qed
  moreover have "uint (of_nat (length (announced_clients ?t)) :: u16) \<le> uint (of_nat (length (tt_local_hash tt)) :: u16)"
    using calculation True by (simp add: uint_nat unat_u16)
  ultimately show ?thesis
    using transmit_size [OF c] transmit_size [OF r(2,3)] announced_all [OF r(4)] by simp
qed simp


definition shrink_env :: tt_env where
  "shrink_env = own_env\<lparr>te_now := 2000, te_priv := (te_priv own_env)\<lparr>bp_packet_size_max := 40\<rparr>\<rparr>"

lemma count_run_old: "\<forall>l\<in>set (tt_local_hash count_run). tt_flags l AND (BATADV_TT_CLIENT_NOPURGE OR BATADV_TT_CLIENT_NEW) = 0
    \<and> batadv_has_timed_out (te_m2j shrink_env) (te_now shrink_env) (tl_last_seen l) 0"
  and count_run_size: "length (tt_softif_vlan_list count_run) = 1" "length (tt_local_hash count_run) = 1"
  by code_simp+


section \<open>The loop need not end\<close>

text \<open>
  C16. When the clients that must not be purged (the address of the soft interface, multicast
  groups) do not fit the new packet size, the loop never ends: it runs with the commit lock
  held, whatever the timeout has shrunk to.
\<close>

theorem tt_resize_hangs:
  assumes keep: "\<forall>l\<in>set (tt_local_hash tt). tt_flags l AND BATADV_TT_CLIENT_NOPURGE \<noteq> 0 \<and> tt_flags l AND BATADV_TT_CLIENT_PENDING = 0"
    and big: "bp_packet_size_max (te_priv env) < batadv_tt_local_table_transmit_size tt"
  shows "batadv_tt_local_resize_to_mtu mla_update env tt = None"
proof -
  have p: "fold (\<lambda>l tt. if local_to_purge env timeout l then f l tt else tt) ls t = t"
    if "set ls \<subseteq> set (tt_local_hash tt)" for timeout f ls and t :: batadv_priv_tt
    using that keep by (induction ls arbitrary: t) (auto simp: local_to_purge_def)
  have q: "fold (\<lambda>l tt. if tt_flags l AND 0x400 = 0 then tt else f l tt) ls t = t"
    if "set ls \<subseteq> set (tt_local_hash tt)" for f ls and t :: batadv_priv_tt
    using that keep by (induction ls arbitrary: t) auto
  have step: "snd (snd (resize_step env (timeout, r, tt))) = tt" for timeout r
    using p [of "tt_local_hash tt"] q [of "tt_local_hash tt"]
    by (simp add: resize_step_def batadv_tt_local_purge_def batadv_tt_local_purge_pending_clients_def)
  show ?thesis
  proof (cases "while_option (resize_again env) (resize_step env) (300000, False, tt)")
    case (Some s)
    have "snd (snd s) = tt"
      by (rule while_option_rule [OF _ Some, of "\<lambda>s. snd (snd s) = tt"]) (use step in \<open>force+\<close>)
    moreover have "\<not> resize_again env s" by (rule while_option_stop [OF Some])
    ultimately show ?thesis using big by (cases s) (simp add: resize_again_def)
  qed (simp add: batadv_tt_local_resize_to_mtu_def)
qed

text \<open>The address of the soft interface itself is a client that is never purged.\<close>

definition stuck_run :: batadv_priv_tt where
  "stuck_run = batadv_tt_local_commit_changes_nolock id own_env (fst (batadv_tt_local_add own_env 2 0 False 0 own_init))"

theorem tt_resize_hangs_witness:
  "batadv_tt_local_resize_to_mtu id shrink_env stuck_run = None"
proof (rule tt_resize_hangs)
  show "\<forall>l\<in>set (tt_local_hash stuck_run). tt_flags l AND BATADV_TT_CLIENT_NOPURGE \<noteq> 0 \<and> tt_flags l AND BATADV_TT_CLIENT_PENDING = 0"
    by code_simp
  show "bp_packet_size_max (te_priv shrink_env) < batadv_tt_local_table_transmit_size stuck_run"
    by code_simp
qed

section \<open>The best originator of a client\<close>

definition route_quality :: "batadv_priv \<Rightarrow> mac \<Rightarrow> u8 option" where
  "route_quality st og = (case batadv_orig_router_get (orig_at st og) BATADV_IF_DEFAULT of None \<Rightarrow> None
     | Some r \<Rightarrow> map_option ni_tq_avg (batadv_neigh_ifinfo_get (on_neigh (orig_at st og) r) BATADV_IF_DEFAULT))"

definition rated :: "batadv_priv \<Rightarrow> mac \<Rightarrow> bool" where
  "rated st og \<longleftrightarrow> (batadv_orig_router_get (orig_at st og) BATADV_IF_DEFAULT \<noteq> None \<longrightarrow> route_quality st og \<noteq> None)"

lemma best_orig_max:
  assumes "\<forall>og\<in>fst ` set ogs. rated st og"
    and "\<forall>og r. best = Some (og, r) \<longrightarrow> route_quality st og \<noteq> None \<and>
      map_option ni_tq_avg (batadv_neigh_ifinfo_get r BATADV_IF_DEFAULT) = route_quality st og"
  shows "case best_orig st ogs best of
      None \<Rightarrow> best = None \<and> (\<forall>og\<in>fst ` set ogs. batadv_orig_router_get (orig_at st og) BATADV_IF_DEFAULT = None)
    | Some (b, _) \<Rightarrow> b \<in> fst ` set ogs \<union> fst ` set_option best \<and> route_quality st b \<noteq> None
        \<and> (\<forall>og\<in>fst ` set ogs \<union> fst ` set_option best. \<forall>q. route_quality st og = Some q \<longrightarrow> q \<le> the (route_quality st b))"
  using assms
proof (induction ogs arbitrary: best)
  case Nil
  then show ?case by (cases best) auto
next
  case (Cons p ogs)
  obtain og n where p: "p = (og, n)" by fastforce
  show ?case
  proof (cases "batadv_orig_router_get (orig_at st og) BATADV_IF_DEFAULT")
    case None
    then have "route_quality st og = None" by (simp add: route_quality_def)
    then show ?thesis using Cons.IH [of best] Cons.prems p None by (auto split: option.splits)
  next
    case (Some r)
    let ?r = "on_neigh (orig_at st og) r"
    obtain i where i: "batadv_neigh_ifinfo_get ?r BATADV_IF_DEFAULT = Some i" "route_quality st og = Some (ni_tq_avg i)"
      using Cons.prems(1) p Some by (auto simp: rated_def route_quality_def)
    define best' where "best' = (case best of Some (b, br) \<Rightarrow>
        if batadv_iv_ogm_neigh_cmp ?r BATADV_IF_DEFAULT br BATADV_IF_DEFAULT \<le> 0 then best else Some (og, ?r)
      | None \<Rightarrow> Some (og, ?r))"
    have e: "best_orig st (p # ogs) best = best_orig st ogs best'"
      using Some p by (auto simp: best'_def Let_def split: option.split)
    have "\<forall>og r. best' = Some (og, r) \<longrightarrow> route_quality st og \<noteq> None \<and>
        map_option ni_tq_avg (batadv_neigh_ifinfo_get r BATADV_IF_DEFAULT) = route_quality st og"
      using Cons.prems(2) i by (auto simp: best'_def split: option.splits if_splits prod.splits)
    then have IH: "case best_orig st ogs best' of
        None \<Rightarrow> best' = None \<and> (\<forall>og\<in>fst ` set ogs. batadv_orig_router_get (orig_at st og) BATADV_IF_DEFAULT = None)
      | Some (b, _) \<Rightarrow> b \<in> fst ` set ogs \<union> fst ` set_option best' \<and> route_quality st b \<noteq> None
          \<and> (\<forall>og\<in>fst ` set ogs \<union> fst ` set_option best'. \<forall>q. route_quality st og = Some q \<longrightarrow> q \<le> the (route_quality st b))"
      using Cons.IH [of best'] Cons.prems(1) p by auto
    have "best' \<noteq> None" by (simp add: best'_def split: option.split prod.split)
    then obtain b' br' where b': "best' = Some (b', br')" by auto
    have sub: "b' \<in> insert og (fst ` set_option best)" using b' by (auto simp: best'_def split: option.splits prod.splits if_splits)
    have le: "\<forall>o'\<in>insert og (fst ` set_option best). \<forall>q. route_quality st o' = Some q \<longrightarrow> q \<le> the (route_quality st b')"
    proof (cases best)
      case None
      then show ?thesis using b' by (auto simp: best'_def)
    next
      case (Some bb)
      obtain b br where bb: "bb = (b, br)" by fastforce
      obtain j where j: "batadv_neigh_ifinfo_get br BATADV_IF_DEFAULT = Some j" "route_quality st b = Some (ni_tq_avg j)"
        using Cons.prems(2) Some bb by fastforce
      then show ?thesis using b' Some bb i
        by (auto simp: best'_def batadv_iv_ogm_neigh_cmp_def word_le_def split: if_splits)
    qed
    obtain c cr where c: "best_orig st ogs best' = Some (c, cr)" using IH b' by (auto split: option.splits)
    have "route_quality st b' \<noteq> None" using i Cons.prems(2) b' by (auto simp: best'_def split: option.splits prod.splits if_splits)
    then have "the (route_quality st b') \<le> the (route_quality st c)" using IH c b' by auto
    then have up: "q \<le> the (route_quality st c)" if "o' \<in> insert og (fst ` set_option best)" "route_quality st o' = Some q" for o' q
      using le that order_trans by blast
    have IH': "c \<in> insert b' (fst ` set ogs)" "route_quality st c \<noteq> None"
        "\<forall>o'\<in>fst ` set ogs. \<forall>q. route_quality st o' = Some q \<longrightarrow> q \<le> the (route_quality st c)"
      using IH c b' by auto
    have "\<forall>o'\<in>fst ` set (p # ogs) \<union> fst ` set_option best. \<forall>q. route_quality st o' = Some q \<longrightarrow> q \<le> the (route_quality st c)"
      using up IH'(3) p by auto
    moreover have "c \<in> fst ` set (p # ogs) \<union> fst ` set_option best" using IH'(1) sub p by auto
    ultimately show ?thesis using e c IH'(2) by simp
  qed
qed



end
