(* ===== verification/Bla.thy ===== *)
theory Bla
  imports Tt_Msg
begin

text \<open>
  Bridge loop avoidance (\<open>bridge_loop_avoidance.c\<close>): several nodes of the mesh may be bridged into
  the same LAN. They tell each other over the LAN, by ARP frames of a special form, which of
  them serves which client (claims), and compare checksums of their claims.

  A claim points to the gateway that made it; a gateway is named by a number that is never used
  again (\<open>bg_ref\<close>), as the code compares the pointers. The bucket a gateway was put into is part of it
  (\<open>bg_bucket\<close>), since the code changes the address of a gateway in its place. Each table may
  be missing. Frames for the LAN are handed to the network stack; \<open>Bla_Bad_Access\<close> is an access
  through a pointer that is null.
\<close>

section \<open>State\<close>

record batadv_bla_backbone_gw =
  bg_ref :: nat
  bg_bucket :: nat
  bg_orig :: mac
  bg_vid :: u16
  bg_lasttime :: jiffies
  bg_wait_periods :: int
  bg_request_sent :: int
  bg_crc :: u16

record batadv_bla_claim =
  cl_addr :: mac
  cl_vid :: u16
  cl_backbone_gw :: nat
  cl_lasttime :: jiffies

record batadv_bcast_duplist_entry =
  de_orig :: mac
  de_crc :: u32
  de_entrytime :: jiffies

datatype bla_event = Bla_Frame "u8 list" | Bla_Bad_Access

record batadv_priv_bla =
  bla_num_requests :: int
  bla_has_claim_hash :: bool
  bla_has_backbone_hash :: bool
  bla_claim_hash :: "batadv_bla_claim list"
  bla_backbone_hash :: "batadv_bla_backbone_gw list"
  bla_next_ref :: nat
  bla_bcast_duplist :: "batadv_bcast_duplist_entry list"
  bla_bcast_duplist_curr :: nat
  bla_group :: u16
  bla_tt :: batadv_priv_tt
  bla_out :: "bla_event list"

text \<open>
  The environment: the outcome of allocations, the buckets and the checksum of the kernel, the
  two functions of the network stack that make an ARP frame and put a VLAN tag into it, the
  setting of the administrator, and the parts of the node this component asks.
\<close>

record bla_env =
  ble_on :: bool
  ble_alloc_gw :: "mac \<Rightarrow> u16 \<Rightarrow> bool"
  ble_alloc_claim :: "mac \<Rightarrow> u16 \<Rightarrow> bool"
  ble_alloc_claim_hash :: bool
  ble_alloc_backbone_hash :: bool
  ble_choose_gw :: "mac \<Rightarrow> u16 \<Rightarrow> nat"
  ble_choose_claim :: "mac \<Rightarrow> u16 \<Rightarrow> nat"
  ble_crc16 :: "u16 \<Rightarrow> u8 list \<Rightarrow> u16"
  ble_arp_reply :: "mac \<Rightarrow> mac \<Rightarrow> u8 list option"
  ble_insert_tag :: "u8 list \<Rightarrow> u16 \<Rightarrow> u8 list option"
  ble_tt :: tt_env
  ble_rt :: rt_env

abbreviation (input) BATADV_CLAIM_TYPE_CLAIM :: u8 where "BATADV_CLAIM_TYPE_CLAIM \<equiv> 0"
abbreviation (input) BATADV_CLAIM_TYPE_UNCLAIM :: u8 where "BATADV_CLAIM_TYPE_UNCLAIM \<equiv> 1"
abbreviation (input) BATADV_CLAIM_TYPE_ANNOUNCE :: u8 where "BATADV_CLAIM_TYPE_ANNOUNCE \<equiv> 2"
abbreviation (input) BATADV_CLAIM_TYPE_REQUEST :: u8 where "BATADV_CLAIM_TYPE_REQUEST \<equiv> 3"
abbreviation (input) BATADV_BLA_CRC_INIT :: u16 where "BATADV_BLA_CRC_INIT \<equiv> 0"
abbreviation (input) BATADV_BLA_BACKBONE_TIMEOUT :: nat where "BATADV_BLA_BACKBONE_TIMEOUT \<equiv> 60000"
abbreviation (input) BATADV_BLA_CLAIM_TIMEOUT :: nat where "BATADV_BLA_CLAIM_TIMEOUT \<equiv> 100000"
abbreviation (input) BATADV_BLA_WAIT_PERIODS :: int where "BATADV_BLA_WAIT_PERIODS \<equiv> 3"
abbreviation (input) BATADV_DUPLIST_SIZE :: nat where "BATADV_DUPLIST_SIZE \<equiv> 16"
abbreviation (input) BATADV_DUPLIST_TIMEOUT :: nat where "BATADV_DUPLIST_TIMEOUT \<equiv> 500"

definition bla_primary :: "bla_env \<Rightarrow> mac option" where
  "bla_primary env = primary_addr (te_priv (ble_tt env))"

abbreviation bla_now :: "bla_env \<Rightarrow> jiffies" where
  "bla_now env \<equiv> te_now (ble_tt env)"

abbreviation bla_timed_out :: "bla_env \<Rightarrow> jiffies \<Rightarrow> nat \<Rightarrow> bool" where
  "bla_timed_out env \<equiv> batadv_has_timed_out (te_m2j (ble_tt env)) (bla_now env)"

definition bla_event :: "bla_event \<Rightarrow> batadv_priv_bla \<Rightarrow> batadv_priv_bla" where
  "bla_event ev st = st\<lparr>bla_out := bla_out st @ [ev]\<rparr>"

section \<open>The tables\<close>

definition batadv_claim_hash_find :: "batadv_priv_bla \<Rightarrow> mac \<Rightarrow> u16 \<Rightarrow> batadv_bla_claim option" where
  "batadv_claim_hash_find st addr vid =
     (if bla_has_claim_hash st then List.find (\<lambda>c. cl_addr c = addr \<and> cl_vid c = vid) (bla_claim_hash st) else None)"

definition batadv_backbone_hash_find :: "bla_env \<Rightarrow> batadv_priv_bla \<Rightarrow> mac \<Rightarrow> u16 \<Rightarrow> batadv_bla_backbone_gw option" where
  "batadv_backbone_hash_find env st addr vid =
     (if bla_has_backbone_hash st
      then List.find (\<lambda>g. bg_bucket g = ble_choose_gw env addr vid \<and> bg_orig g = addr \<and> bg_vid g = vid) (bla_backbone_hash st)
      else None)"

text \<open>What a pointer to a gateway reads, and a write through it.\<close>

definition gw_at :: "batadv_priv_bla \<Rightarrow> nat \<Rightarrow> batadv_bla_backbone_gw option" where
  "gw_at st r = List.find (\<lambda>g. bg_ref g = r) (bla_backbone_hash st)"

definition upd_gw :: "nat \<Rightarrow> (batadv_bla_backbone_gw \<Rightarrow> batadv_bla_backbone_gw) \<Rightarrow> batadv_priv_bla \<Rightarrow> batadv_priv_bla" where
  "upd_gw r f st = st\<lparr>bla_backbone_hash := map (\<lambda>g. if bg_ref g = r then f g else g) (bla_backbone_hash st)\<rparr>"

definition upd_claim :: "mac \<Rightarrow> u16 \<Rightarrow> (batadv_bla_claim \<Rightarrow> batadv_bla_claim) \<Rightarrow> batadv_priv_bla \<Rightarrow> batadv_priv_bla" where
  "upd_claim addr vid f st =
     st\<lparr>bla_claim_hash := map (\<lambda>c. if cl_addr c = addr \<and> cl_vid c = vid then f c else c) (bla_claim_hash st)\<rparr>"

text \<open>An element goes to the head of its bucket.\<close>

definition bucket_insert :: "('a \<Rightarrow> nat) \<Rightarrow> 'a \<Rightarrow> 'a list \<Rightarrow> 'a list" where
  "bucket_insert bucket e es = (let earlier = (\<lambda>x. bucket x < bucket e) in takeWhile earlier es @ e # dropWhile earlier es)"

definition batadv_bla_del_backbone_claims :: "nat \<Rightarrow> batadv_priv_bla \<Rightarrow> batadv_priv_bla" where
  "batadv_bla_del_backbone_claims r st =
     (if \<not> bla_has_claim_hash st then st
      else upd_gw r (\<lambda>g. g\<lparr>bg_crc := BATADV_BLA_CRC_INIT\<rparr>)
             (st\<lparr>bla_claim_hash := filter (\<lambda>c. cl_backbone_gw c \<noteq> r) (bla_claim_hash st)\<rparr>))"

section \<open>Frames\<close>

definition claim_dst :: "u8 \<Rightarrow> u16 \<Rightarrow> mac" where
  "claim_dst claimtype grp = be_word ([0xFF, 0x43, 0x05, claimtype] @ be_bytes 2 grp)"

definition batadv_bla_send_claim :: "bla_env \<Rightarrow> mac \<Rightarrow> u16 \<Rightarrow> u8 \<Rightarrow> batadv_priv_bla \<Rightarrow> batadv_priv_bla" where
  "batadv_bla_send_claim env addr vid claimtype st =
     (case bla_primary env of
        None \<Rightarrow> st
      | Some me \<Rightarrow>
          (case ble_arp_reply env me (claim_dst claimtype (bla_group st)) of
             None \<Rightarrow> st
           | Some skb \<Rightarrow>
               let hw_src = 22;
                   skb = (if claimtype = BATADV_CLAIM_TYPE_CLAIM then set_mac 6 addr skb
                          else if claimtype = BATADV_CLAIM_TYPE_UNCLAIM then set_mac hw_src addr skb
                          else if claimtype = BATADV_CLAIM_TYPE_ANNOUNCE then set_mac hw_src addr skb
                          else if claimtype = BATADV_CLAIM_TYPE_REQUEST then set_mac 0 addr (set_mac hw_src addr skb)
                          else skb)
               in if vid AND BATADV_VLAN_HAS_TAG = 0 then bla_event (Bla_Frame skb) st
                  else (case ble_insert_tag env skb (vid AND 0x0FFF) of
                          None \<Rightarrow> bla_event Bla_Bad_Access st
                        | Some skb \<Rightarrow> bla_event (Bla_Frame skb) st)))"

definition batadv_bla_send_announce :: "bla_env \<Rightarrow> nat \<Rightarrow> batadv_priv_bla \<Rightarrow> batadv_priv_bla" where
  "batadv_bla_send_announce env r st =
     (case gw_at st r of
        None \<Rightarrow> bla_event Bla_Bad_Access st
      | Some g \<Rightarrow> batadv_bla_send_claim env (be_word ([0x43, 0x05, 0x43, 0x05] @ be_bytes 2 (bg_crc g))) (bg_vid g)
          BATADV_CLAIM_TYPE_ANNOUNCE st)"

section \<open>Gateways\<close>

definition batadv_bla_get_backbone_gw ::
    "bla_env \<Rightarrow> mac \<Rightarrow> u16 \<Rightarrow> bool \<Rightarrow> batadv_priv_bla \<Rightarrow> batadv_priv_bla \<times> nat option" where
  "batadv_bla_get_backbone_gw env orig vid own_backbone st =
     (case batadv_backbone_hash_find env st orig vid of
        Some g \<Rightarrow> (st, Some (bg_ref g))
      | None \<Rightarrow>
          if \<not> ble_alloc_gw env orig vid then (st, None)
          else if \<not> bla_has_backbone_hash st then (st, None)
          else
            let r = bla_next_ref st;
                entry = \<lparr>bg_ref = r, bg_bucket = ble_choose_gw env orig vid, bg_orig = orig, bg_vid = vid,
                  bg_lasttime = bla_now env, bg_wait_periods = 0, bg_request_sent = 0, bg_crc = BATADV_BLA_CRC_INIT\<rparr>;
                st = st\<lparr>bla_backbone_hash := bucket_insert bg_bucket entry (bla_backbone_hash st), bla_next_ref := r + 1\<rparr>;
                st = (if batadv_orig_hash_find (te_priv (ble_tt env)) orig = None then st
                      else st\<lparr>bla_tt := batadv_tt_global_del_orig (ble_tt env) orig (uint vid) (bla_tt st)\<rparr>);
                st = (if own_backbone then
                        let st = batadv_bla_send_announce env r st;
                            st = upd_gw r (\<lambda>g. g\<lparr>bg_request_sent := bg_request_sent g + 1,
                                     bg_wait_periods := BATADV_BLA_WAIT_PERIODS\<rparr>) st
                        in st\<lparr>bla_num_requests := bla_num_requests st + 1\<rparr>
                      else st)
            in (st, Some r))"

definition batadv_bla_update_own_backbone_gw :: "bla_env \<Rightarrow> mac \<Rightarrow> u16 \<Rightarrow> batadv_priv_bla \<Rightarrow> batadv_priv_bla" where
  "batadv_bla_update_own_backbone_gw env me vid st =
     (case batadv_bla_get_backbone_gw env me vid True st of
        (st, None) \<Rightarrow> st
      | (st, Some r) \<Rightarrow> upd_gw r (\<lambda>g. g\<lparr>bg_lasttime := bla_now env\<rparr>) st)"

definition batadv_bla_answer_request :: "bla_env \<Rightarrow> mac \<Rightarrow> u16 \<Rightarrow> batadv_priv_bla \<Rightarrow> batadv_priv_bla" where
  "batadv_bla_answer_request env me vid st =
     (case batadv_backbone_hash_find env st me vid of
        None \<Rightarrow> st
      | Some g \<Rightarrow>
          if \<not> bla_has_claim_hash st then bla_event Bla_Bad_Access st
          else batadv_bla_send_announce env (bg_ref g)
            (fold (\<lambda>c st. if cl_backbone_gw c \<noteq> bg_ref g then st
                     else batadv_bla_send_claim env (cl_addr c) (cl_vid c) BATADV_CLAIM_TYPE_CLAIM st)
               (bla_claim_hash st) st))"

definition batadv_bla_send_request :: "bla_env \<Rightarrow> nat \<Rightarrow> batadv_priv_bla \<Rightarrow> batadv_priv_bla" where
  "batadv_bla_send_request env r st =
     (let st = batadv_bla_del_backbone_claims r st in
      case gw_at st r of
        None \<Rightarrow> bla_event Bla_Bad_Access st
      | Some g \<Rightarrow>
          let st = batadv_bla_send_claim env (bg_orig g) (bg_vid g) BATADV_CLAIM_TYPE_REQUEST st in
          if bg_request_sent g = 0
          then upd_gw r (\<lambda>g. g\<lparr>bg_request_sent := 1\<rparr>) (st\<lparr>bla_num_requests := bla_num_requests st + 1\<rparr>)
          else st)"

section \<open>Claims\<close>

definition crc_toggle :: "bla_env \<Rightarrow> mac \<Rightarrow> batadv_bla_backbone_gw \<Rightarrow> batadv_bla_backbone_gw" where
  "crc_toggle env addr g = g\<lparr>bg_crc := bg_crc g XOR ble_crc16 env 0 (be_bytes 6 addr)\<rparr>"

definition batadv_bla_add_claim :: "bla_env \<Rightarrow> mac \<Rightarrow> u16 \<Rightarrow> nat \<Rightarrow> batadv_priv_bla \<Rightarrow> batadv_priv_bla" where
  "batadv_bla_add_claim env addr vid r st =
     (let set_new = (\<lambda>st. upd_gw r (\<lambda>g. (crc_toggle env addr g)\<lparr>bg_lasttime := bla_now env\<rparr>)
            (upd_claim addr vid (\<lambda>c. c\<lparr>cl_backbone_gw := r\<rparr>) st)) in
      case batadv_claim_hash_find st addr vid of
        None \<Rightarrow>
          if \<not> ble_alloc_claim env addr vid then st
          else if \<not> bla_has_claim_hash st then st
          else
            let claim = \<lparr>cl_addr = addr, cl_vid = vid, cl_backbone_gw = r, cl_lasttime = bla_now env\<rparr>
            in set_new (st\<lparr>bla_claim_hash :=
                 bucket_insert (\<lambda>c. ble_choose_claim env (cl_addr c) (cl_vid c)) claim (bla_claim_hash st)\<rparr>)
      | Some claim \<Rightarrow>
          let st = upd_claim addr vid (\<lambda>c. c\<lparr>cl_lasttime := bla_now env\<rparr>) st in
          if cl_backbone_gw claim = r then st
          else set_new (upd_gw (cl_backbone_gw claim) (crc_toggle env addr) st))"

definition batadv_bla_del_claim :: "bla_env \<Rightarrow> mac \<Rightarrow> u16 \<Rightarrow> batadv_priv_bla \<Rightarrow> batadv_priv_bla" where
  "batadv_bla_del_claim env addr vid st =
     (case batadv_claim_hash_find st addr vid of
        None \<Rightarrow> st
      | Some claim \<Rightarrow>
          upd_gw (cl_backbone_gw claim) (crc_toggle env addr)
            (st\<lparr>bla_claim_hash := filter (\<lambda>c. \<not> (cl_addr c = addr \<and> cl_vid c = vid)) (bla_claim_hash st)\<rparr>))"


section \<open>Claim frames from the LAN\<close>

definition batadv_handle_announce :: "bla_env \<Rightarrow> mac \<Rightarrow> mac \<Rightarrow> u16 \<Rightarrow> batadv_priv_bla \<Rightarrow> batadv_priv_bla \<times> bool" where
  "batadv_handle_announce env an_addr backbone_addr vid st =
     (if take 4 (be_bytes 6 an_addr) \<noteq> [0x43, 0x05, 0x43, 0x05] then (st, False)
      else
        (case batadv_bla_get_backbone_gw env backbone_addr vid False st of
           (st, None) \<Rightarrow> (st, True)
         | (st, Some r) \<Rightarrow>
             let st = upd_gw r (\<lambda>g. g\<lparr>bg_lasttime := bla_now env\<rparr>) st;
                 crc = be_word (drop 4 (be_bytes 6 an_addr)) :: u16
             in (case gw_at st r of
                   None \<Rightarrow> (bla_event Bla_Bad_Access st, True)
                 | Some g \<Rightarrow>
                     if bg_crc g \<noteq> crc then (batadv_bla_send_request env r st, True)
                     else if bg_request_sent g \<noteq> 0
                     then (upd_gw r (\<lambda>g. g\<lparr>bg_request_sent := 0\<rparr>) (st\<lparr>bla_num_requests := bla_num_requests st - 1\<rparr>), True)
                     else (st, True))))"

definition batadv_handle_request :: "bla_env \<Rightarrow> mac \<Rightarrow> mac \<Rightarrow> mac \<Rightarrow> u16 \<Rightarrow> batadv_priv_bla \<Rightarrow> batadv_priv_bla \<times> bool" where
  "batadv_handle_request env me backbone_addr h_dest vid st =
     (if backbone_addr \<noteq> h_dest then (st, False)
      else if h_dest \<noteq> me then (st, True)
      else (batadv_bla_answer_request env me vid st, True))"

definition batadv_handle_unclaim ::
    "bla_env \<Rightarrow> mac option \<Rightarrow> mac \<Rightarrow> mac \<Rightarrow> u16 \<Rightarrow> batadv_priv_bla \<Rightarrow> batadv_priv_bla \<times> bool" where
  "batadv_handle_unclaim env me backbone_addr claim_addr vid st =
     (let st = (if me = Some backbone_addr
                then batadv_bla_send_claim env claim_addr vid BATADV_CLAIM_TYPE_UNCLAIM st else st)
      in if batadv_backbone_hash_find env st backbone_addr vid = None then (st, True)
         else (batadv_bla_del_claim env claim_addr vid st, True))"

definition batadv_handle_claim ::
    "bla_env \<Rightarrow> mac \<Rightarrow> mac \<Rightarrow> mac \<Rightarrow> u16 \<Rightarrow> batadv_priv_bla \<Rightarrow> batadv_priv_bla \<times> bool" where
  "batadv_handle_claim env me backbone_addr claim_addr vid st =
     (case batadv_bla_get_backbone_gw env backbone_addr vid False st of
        (st, None) \<Rightarrow> (st, True)
      | (st, Some r) \<Rightarrow>
          let st = batadv_bla_add_claim env claim_addr vid r st;
              st = (if backbone_addr = me
                    then batadv_bla_send_claim env claim_addr vid BATADV_CLAIM_TYPE_CLAIM st else st)
          in (st, True))"

text \<open>The outcome of the group check: no claim frame, one of another group, one of this group.\<close>

datatype claim_group = Not_A_Claim | Other_Group | Same_Group

definition batadv_check_claim_group ::
    "bla_env \<Rightarrow> mac \<Rightarrow> mac \<Rightarrow> u8 \<Rightarrow> u16 \<Rightarrow> mac \<Rightarrow> batadv_priv_bla \<Rightarrow> batadv_priv_bla \<times> claim_group" where
  "batadv_check_claim_group env me hw_src dst_type dst_group h_source st =
     (case if dst_type = BATADV_CLAIM_TYPE_CLAIM then Some hw_src
           else if dst_type = BATADV_CLAIM_TYPE_REQUEST \<or> dst_type = BATADV_CLAIM_TYPE_ANNOUNCE
             \<or> dst_type = BATADV_CLAIM_TYPE_UNCLAIM then Some h_source
           else None of
        None \<Rightarrow> (st, Not_A_Claim)
      | Some backbone_addr \<Rightarrow>
          if backbone_addr = me then (st, Not_A_Claim)
          else if dst_group = bla_group st then (st, Same_Group)
          else if batadv_orig_hash_find (te_priv (ble_tt env)) backbone_addr = None then (st, Other_Group)
          else (if bla_group st < dst_group then st\<lparr>bla_group := dst_group\<rparr> else st, Same_Group))"

text \<open>
  The protocol after the VLAN headers that start with the given bytes, and their number; None when
  the frame ends in a header.
\<close>

fun vlan_headers :: "u8 list \<Rightarrow> (u16 \<times> nat) option" where
  "vlan_headers (_ # _ # p1 # p2 # rest) =
     (if be_word [p1, p2] = ETH_P_8021Q then map_option (\<lambda>(proto, n). (proto, Suc n)) (vlan_headers rest)
      else Some (be_word [p1, p2], 1))"
| "vlan_headers _ = None"

definition batadv_bla_process_claim :: "bla_env \<Rightarrow> mac \<Rightarrow> u8 list \<Rightarrow> batadv_priv_bla \<Rightarrow> batadv_priv_bla \<times> bool" where
  "batadv_bla_process_claim env me skb st =
     (let vid = batadv_get_vid (ble_rt env) skb 0;
          u16_at = (\<lambda>pos. be_word (take 2 (drop pos skb)) :: u16)
      in case if vid AND BATADV_VLAN_HAS_TAG = 0 then Some (u16_at 12, 0) else vlan_headers (drop 14 skb) of
           None \<Rightarrow> (st, False)
         | Some (proto, vlan_depth) \<Rightarrow>
             let headlen = 14 + 4 * vlan_depth;
                 hw_src = mac_at skb (headlen + 8);
                 hw_dst = headlen + 18;
                 h_dest = mac_at skb 0;
                 h_source = mac_at skb 6
             in if proto \<noteq> 0x0806 then (st, False)
                else if \<not> pull (ble_rt env) skb (headlen + 28) then (st, False)
                else if u16_at headlen \<noteq> 1 then (st, False)
                else if u16_at (headlen + 2) \<noteq> 0x0800 then (st, False)
                else if skb ! (headlen + 4) \<noteq> 6 then (st, False)
                else if skb ! (headlen + 5) \<noteq> 4 then (st, False)
                else if take 3 (drop hw_dst skb) \<noteq> [0xFF, 0x43, 0x05] then (st, False)
                else if 1 < vlan_depth then (st, True)
                else
                  (case batadv_check_claim_group env me hw_src (skb ! (hw_dst + 3)) (u16_at (hw_dst + 4)) h_source st of
                     (st, Not_A_Claim) \<Rightarrow> (st, False)
                   | (st, Other_Group) \<Rightarrow> (st, True)
                   | (st, Same_Group) \<Rightarrow>
                       let st = batadv_bla_update_own_backbone_gw env me vid st;
                           claimtype = skb ! (hw_dst + 3)
                       in (if claimtype = BATADV_CLAIM_TYPE_CLAIM then fst (batadv_handle_claim env me hw_src h_source vid st)
                           else if claimtype = BATADV_CLAIM_TYPE_UNCLAIM
                           then fst (batadv_handle_unclaim env (Some me) h_source hw_src vid st)
                           else if claimtype = BATADV_CLAIM_TYPE_ANNOUNCE then fst (batadv_handle_announce env hw_src h_source vid st)
                           else if claimtype = BATADV_CLAIM_TYPE_REQUEST
                           then fst (batadv_handle_request env me hw_src h_dest vid st)
                           else st, True)))"

section \<open>Timeouts\<close>

definition batadv_bla_purge_backbone_gw :: "bla_env \<Rightarrow> bool \<Rightarrow> batadv_priv_bla \<Rightarrow> batadv_priv_bla" where
  "batadv_bla_purge_backbone_gw env now st =
     (if \<not> bla_has_backbone_hash st then st
      else fold (\<lambda>g st.
          if \<not> now \<and> \<not> bla_timed_out env (bg_lasttime g) BATADV_BLA_BACKBONE_TIMEOUT then st
          else
            let st = (if bg_request_sent g \<noteq> 0 then st\<lparr>bla_num_requests := bla_num_requests st - 1\<rparr> else st);
                st = batadv_bla_del_backbone_claims (bg_ref g) st
            in st\<lparr>bla_backbone_hash := filter (\<lambda>g'. bg_ref g' \<noteq> bg_ref g) (bla_backbone_hash st)\<rparr>)
        (bla_backbone_hash st) st)"

definition batadv_bla_purge_claims :: "bla_env \<Rightarrow> mac option \<Rightarrow> bool \<Rightarrow> batadv_priv_bla \<Rightarrow> batadv_priv_bla" where
  "batadv_bla_purge_claims env me now st =
     (if \<not> bla_has_claim_hash st then st
      else fold (\<lambda>c st.
          case gw_at st (cl_backbone_gw c) of
            None \<Rightarrow> bla_event Bla_Bad_Access st
          | Some g \<Rightarrow>
              if \<not> now \<and> me = None then bla_event Bla_Bad_Access st
              else if \<not> now \<and> me \<noteq> Some (bg_orig g) then st
              else if \<not> now \<and> \<not> bla_timed_out env (cl_lasttime c) BATADV_BLA_CLAIM_TIMEOUT then st
              else fst (batadv_handle_unclaim env me (bg_orig g) (cl_addr c) (cl_vid c) st))
        (bla_claim_hash st) st)"

definition batadv_bla_update_orig_address :: "bla_env \<Rightarrow> mac \<Rightarrow> mac option \<Rightarrow> batadv_priv_bla \<Rightarrow> batadv_priv_bla" where
  "batadv_bla_update_orig_address env new_addr oldif st =
     (let st = st\<lparr>bla_group := ble_crc16 env 0 (be_bytes 6 new_addr)\<rparr>;
          oldif = (if ble_on env then oldif else None)
      in case oldif of
           None \<Rightarrow> batadv_bla_purge_backbone_gw env True (batadv_bla_purge_claims env None True st)
         | Some old_addr \<Rightarrow>
             if \<not> bla_has_backbone_hash st then st
             else fold (\<lambda>g st.
                 if bg_orig g \<noteq> old_addr then st
                 else batadv_bla_send_announce env (bg_ref g) (upd_gw (bg_ref g) (\<lambda>g. g\<lparr>bg_orig := new_addr\<rparr>) st))
               (bla_backbone_hash st) st)"

definition batadv_bla_status_update :: "bla_env \<Rightarrow> batadv_priv_bla \<Rightarrow> batadv_priv_bla" where
  "batadv_bla_status_update env st =
     (case bla_primary env of
        None \<Rightarrow> st
      | Some me \<Rightarrow> batadv_bla_update_orig_address env me (Some me) st)"

text \<open>
  One own gateway in the worker. The reads come after the announcement, which changes no gateway.
\<close>

definition announce_own :: "bla_env \<Rightarrow> mac \<Rightarrow> batadv_bla_backbone_gw \<Rightarrow> batadv_priv_bla \<Rightarrow> batadv_priv_bla" where
  "announce_own env me g st =
     (if bg_orig g \<noteq> me then st
      else
        let st = upd_gw (bg_ref g) (\<lambda>g. g\<lparr>bg_lasttime := bla_now env\<rparr>) st;
            st = batadv_bla_send_announce env (bg_ref g) st
        in if bg_request_sent g = 0 then st
           else
             let st = upd_gw (bg_ref g) (\<lambda>g. g\<lparr>bg_wait_periods := bg_wait_periods g - 1\<rparr>) st
             in if bg_wait_periods g - 1 \<noteq> 0 then st
                else upd_gw (bg_ref g) (\<lambda>g. g\<lparr>bg_request_sent := 0\<rparr>) (st\<lparr>bla_num_requests := bla_num_requests st - 1\<rparr>))"

definition batadv_bla_periodic_work :: "bla_env \<Rightarrow> batadv_priv_bla \<Rightarrow> batadv_priv_bla" where
  "batadv_bla_periodic_work env st =
     (case bla_primary env of
        None \<Rightarrow> st
      | Some me \<Rightarrow>
          let st = batadv_bla_purge_claims env (Some me) False st;
              st = batadv_bla_purge_backbone_gw env False st
          in if \<not> ble_on env then st
             else if \<not> bla_has_backbone_hash st then st
             else fold (announce_own env me) (bla_backbone_hash st) st)"

section \<open>Start and end\<close>

datatype bla_error = Bla_ENOMEM

definition batadv_bla_init :: "bla_env \<Rightarrow> batadv_priv_bla \<Rightarrow> batadv_priv_bla \<times> bla_error option" where
  "batadv_bla_init env st =
     (let entrytime = bla_now env - te_m2j (ble_tt env) BATADV_DUPLIST_TIMEOUT;
          st = st\<lparr>bla_group := (case bla_primary env of Some me \<Rightarrow> ble_crc16 env 0 (be_bytes 6 me) | None \<Rightarrow> 0),
                 bla_bcast_duplist := map (\<lambda>e. e\<lparr>de_entrytime := entrytime\<rparr>) (bla_bcast_duplist st),
                 bla_bcast_duplist_curr := 0\<rparr>
      in if bla_has_claim_hash st then (st, None)
         else
           let st = st\<lparr>bla_has_claim_hash := ble_alloc_claim_hash env, bla_claim_hash := [],
                       bla_has_backbone_hash := ble_alloc_backbone_hash env, bla_backbone_hash := []\<rparr>
           in if \<not> bla_has_claim_hash st \<or> \<not> bla_has_backbone_hash st then (st, Some Bla_ENOMEM)
              else (st, None))"

definition batadv_bla_free :: "bla_env \<Rightarrow> batadv_priv_bla \<Rightarrow> batadv_priv_bla" where
  "batadv_bla_free env st =
     (let st = (if bla_has_claim_hash st
                then (batadv_bla_purge_claims env (bla_primary env) True st)\<lparr>bla_has_claim_hash := False, bla_claim_hash := []\<rparr>
                else st)
      in if bla_has_backbone_hash st
         then (batadv_bla_purge_backbone_gw env True st)\<lparr>bla_has_backbone_hash := False, bla_backbone_hash := []\<rparr>
         else st)"

section \<open>Duplicate broadcasts and the questions of other parts\<close>

text \<open>The frame may lie in pieces; the checksum of the pieces in turn is that of the whole.\<close>

definition batadv_skb_crc32 :: "tt_env \<Rightarrow> u8 list \<Rightarrow> nat \<Rightarrow> u32" where
  "batadv_skb_crc32 env skb payload_pos = te_crc32c env 0 (drop payload_pos skb)"

fun duplist_scan :: "bla_env \<Rightarrow> u32 \<Rightarrow> mac \<Rightarrow> batadv_bcast_duplist_entry list \<Rightarrow> bool" where
  "duplist_scan env crc orig [] = False"
| "duplist_scan env crc orig (e # es) =
     (if bla_timed_out env (de_entrytime e) BATADV_DUPLIST_TIMEOUT then False
      else if de_crc e \<noteq> crc then duplist_scan env crc orig es
      else if de_orig e = orig then duplist_scan env crc orig es
      else True)"

definition batadv_bla_check_bcast_duplist :: "bla_env \<Rightarrow> u8 list \<Rightarrow> batadv_priv_bla \<Rightarrow> batadv_priv_bla \<times> bool" where
  "batadv_bla_check_bcast_duplist env skb st =
     (let orig = mac_at skb 8;
          crc = batadv_skb_crc32 (ble_tt env) skb BCAST_HLEN;
          entries = map (\<lambda>i. bla_bcast_duplist st ! ((bla_bcast_duplist_curr st + i) mod BATADV_DUPLIST_SIZE)) [0..<BATADV_DUPLIST_SIZE]
      in if duplist_scan env crc orig entries then (st, True)
         else
           let curr = (bla_bcast_duplist_curr st + BATADV_DUPLIST_SIZE - 1) mod BATADV_DUPLIST_SIZE
           in (st\<lparr>bla_bcast_duplist := (bla_bcast_duplist st)[curr := \<lparr>de_orig = orig, de_crc = crc, de_entrytime = bla_now env\<rparr>],
                  bla_bcast_duplist_curr := curr\<rparr>, False))"

definition batadv_bla_is_backbone_gw_orig :: "bla_env \<Rightarrow> mac \<Rightarrow> u16 \<Rightarrow> batadv_priv_bla \<Rightarrow> bool" where
  "batadv_bla_is_backbone_gw_orig env orig vid st \<longleftrightarrow>
     ble_on env \<and> bla_has_backbone_hash st \<and> list_ex (\<lambda>g. bg_orig g = orig \<and> bg_vid g = vid) (bla_backbone_hash st)"

definition batadv_bla_is_backbone_gw :: "bla_env \<Rightarrow> u8 list \<Rightarrow> mac \<Rightarrow> nat \<Rightarrow> batadv_priv_bla \<Rightarrow> bool" where
  "batadv_bla_is_backbone_gw env skb orig hdr_size st \<longleftrightarrow>
     ble_on env \<and> pull (ble_rt env) skb (hdr_size + ETH_HLEN)
     \<and> batadv_backbone_hash_find env st orig (batadv_get_vid (ble_rt env) skb hdr_size) \<noteq> None"

section \<open>Frames between the mesh and the LAN\<close>

text \<open>
  The frame starts with its Ethernet header. The result says whether the frame ends here; \<open>batadv_bla_rx\<close> frees
  it then, \<open>batadv_bla_tx\<close> leaves that to its caller.
\<close>

definition batadv_bla_rx :: "bla_env \<Rightarrow> u8 list \<Rightarrow> u16 \<Rightarrow> bool \<Rightarrow> batadv_priv_bla \<Rightarrow> batadv_priv_bla \<times> bool" where
  "batadv_bla_rx env skb vid is_bcast st =
     (let h_dest = mac_at skb 0; h_source = mac_at skb 6 in
      case bla_primary env of
        None \<Rightarrow> (st, True)
      | Some me \<Rightarrow>
          let allow = (\<lambda>st. (batadv_bla_update_own_backbone_gw env me vid st, False));
              claim_it = (\<lambda>st. allow (fst (batadv_handle_claim env me me h_source vid st)))
          in if \<not> ble_on env then allow st
             else if bla_num_requests st \<noteq> 0 \<and> is_multicast_ether_addr h_dest \<and> is_bcast then (st, True)
             else
               (case batadv_claim_hash_find st h_source vid of
                  None \<Rightarrow> claim_it st
                | Some claim \<Rightarrow>
                    (case gw_at st (cl_backbone_gw claim) of
                       None \<Rightarrow> (bla_event Bla_Bad_Access st, True)
                     | Some g \<Rightarrow>
                         if bg_orig g = me then allow (upd_claim h_source vid (\<lambda>c. c\<lparr>cl_lasttime := bla_now env\<rparr>) st)
                         else if is_multicast_ether_addr h_dest \<and> is_bcast then (st, True)
                         else claim_it st)))"

definition batadv_bla_tx :: "bla_env \<Rightarrow> u8 list \<Rightarrow> u16 \<Rightarrow> batadv_priv_bla \<Rightarrow> batadv_priv_bla \<times> bool" where
  "batadv_bla_tx env skb vid st =
     (let h_dest = mac_at skb 0; h_source = mac_at skb 6 in
      case bla_primary env of
        None \<Rightarrow> (st, False)
      | Some me \<Rightarrow>
          let allow = (\<lambda>st. (batadv_bla_update_own_backbone_gw env me vid st, False)) in
          if \<not> ble_on env then allow st
          else
            (case batadv_bla_process_claim env me skb st of
               (st, True) \<Rightarrow> (st, True)
             | (st, False) \<Rightarrow>
                 if bla_num_requests st \<noteq> 0 \<and> is_multicast_ether_addr h_dest then (st, True)
                 else
                   (case batadv_claim_hash_find st h_source vid of
                      None \<Rightarrow> allow st
                    | Some claim \<Rightarrow>
                        (case gw_at st (cl_backbone_gw claim) of
                           None \<Rightarrow> (bla_event Bla_Bad_Access st, True)
                         | Some g \<Rightarrow>
                             if bg_orig g = me then allow (fst (batadv_handle_unclaim env (Some me) me h_source vid st))
                             else if is_multicast_ether_addr h_dest then (st, True)
                             else allow st))))"

end
