(* ===== verification/Bla_Inv.thy ===== *)
theory Bla_Inv
  imports Bla
begin

text \<open>
  What holds of the tables of bridge loop avoidance at all times: every client is claimed once, every
  claim points to a gateway of the table on the same VLAN, the checksum of a gateway is the sum of
  its claims, and the number of open requests is that of the gateways that wait for an answer.
\<close>

section \<open>Lists with a key\<close>

lemma find_split:
  "List.find P xs = Some x \<Longrightarrow> \<exists>us vs. xs = us @ x # vs \<and> P x \<and> (\<forall>u \<in> set us. \<not> P u)"
proof (induction xs)
  case Nil
  then show ?case by simp
next
  case (Cons y ys)
  show ?case
  proof (cases "P y")
    case True
    then show ?thesis using Cons.prems by (intro exI [of _ "[]"] exI [of _ ys]) simp
  next
    case False
    then obtain us vs where "ys = us @ x # vs" "P x" "\<forall>u \<in> set us. \<not> P u" using Cons by auto
    then show ?thesis using False by (intro exI [of _ "y # us"] exI [of _ vs]) simp
  qed
qed

lemma list_find_append: "List.find P (xs @ ys) = (case List.find P xs of None \<Rightarrow> List.find P ys | Some x \<Rightarrow> Some x)"
  by (induction xs) simp_all

lemma distinct_split: "distinct (map k (us @ x # vs)) \<Longrightarrow> u \<in> set us \<union> set vs \<Longrightarrow> k u \<noteq> k x"
  by (auto simp: image_iff)

lemma upd_split:
  assumes "\<forall>u \<in> set us \<union> set vs. \<not> P u" "P x"
  shows "map (\<lambda>x. if P x then f x else x) (us @ x # vs) = us @ f x # vs"
    and "filter (\<lambda>x. \<not> P x) (us @ x # vs) = us @ vs"
  using assms by (auto intro!: map_idI filter_True)


lemma bucket_insert_split: "\<exists>us vs. es = us @ vs \<and> bucket_insert b e es = us @ e # vs"
  by (intro exI [of _ "takeWhile (\<lambda>x. b x < b e) es"] exI [of _ "dropWhile (\<lambda>x. b x < b e) es"])
    (simp add: bucket_insert_def Let_def)

lemma set_bucket_insert [simp]: "set (bucket_insert b e es) = insert e (set es)"
  using bucket_insert_split [of es b e] by auto

section \<open>The invariant\<close>

definition claim_key :: "batadv_bla_claim \<Rightarrow> mac \<times> u16" where
  "claim_key c = (cl_addr c, cl_vid c)"

text \<open>The sum of the checksums of the clients claimed by a gateway.\<close>

definition claim_sum :: "(u16 \<Rightarrow> u8 list \<Rightarrow> u16) \<Rightarrow> nat \<Rightarrow> batadv_bla_claim list \<Rightarrow> u16" where
  "claim_sum crc r cs = foldr (\<lambda>c x. if cl_backbone_gw c = r then crc 0 (be_bytes 6 (cl_addr c)) XOR x else x) cs 0"

definition gws_ok :: "(u16 \<Rightarrow> u8 list \<Rightarrow> u16) \<Rightarrow> nat \<Rightarrow> batadv_bla_claim list \<Rightarrow> batadv_bla_backbone_gw list \<Rightarrow> bool" where
  "gws_ok crc next cs gs \<longleftrightarrow> distinct (map bg_ref gs)
     \<and> (\<forall>g \<in> set gs. bg_ref g < next \<and> bg_crc g = claim_sum crc (bg_ref g) cs \<and> (bg_request_sent g = 0 \<or> bg_request_sent g = 1))"

definition claims_ok :: "batadv_bla_backbone_gw list \<Rightarrow> batadv_bla_claim list \<Rightarrow> bool" where
  "claims_ok gs cs \<longleftrightarrow> distinct (map claim_key cs)
     \<and> (\<forall>c \<in> set cs. (cl_backbone_gw c, cl_vid c) \<in> (\<lambda>g. (bg_ref g, bg_vid g)) ` set gs)"

definition open_requests :: "batadv_bla_backbone_gw list \<Rightarrow> int" where
  "open_requests gs = sum_list (map bg_request_sent gs)"

definition bla_ok :: "(u16 \<Rightarrow> u8 list \<Rightarrow> u16) \<Rightarrow> batadv_priv_bla \<Rightarrow> bool" where
  "bla_ok crc st \<longleftrightarrow> bla_has_claim_hash st \<and> bla_has_backbone_hash st
     \<and> gws_ok crc (bla_next_ref st) (bla_claim_hash st) (bla_backbone_hash st)
     \<and> claims_ok (bla_backbone_hash st) (bla_claim_hash st)
     \<and> bla_num_requests st = open_requests (bla_backbone_hash st)
     \<and> Bla_Bad_Access \<notin> set (bla_out st)"

text \<open>The checksum is the same all the time, and a tag can be put into a frame.\<close>

definition bla_env_ok :: "(u16 \<Rightarrow> u8 list \<Rightarrow> u16) \<Rightarrow> bla_env \<Rightarrow> bool" where
  "bla_env_ok crc env \<longleftrightarrow> ble_crc16 env = crc \<and> (\<forall>skb tag. ble_insert_tag env skb tag \<noteq> None)"

lemma claim_sum_simps [simp]: "claim_sum crc r [] = 0"
  "claim_sum crc r (c # cs) = (if cl_backbone_gw c = r then crc 0 (be_bytes 6 (cl_addr c)) XOR claim_sum crc r cs else claim_sum crc r cs)"
  by (simp_all add: claim_sum_def)

lemma claim_sum_append [simp]: "claim_sum crc r (xs @ ys) = claim_sum crc r xs XOR claim_sum crc r ys"
  by (induction xs) (simp_all add: xor.assoc)

lemma claim_sum_none: "\<forall>c \<in> set cs. cl_backbone_gw c \<noteq> r \<Longrightarrow> claim_sum crc r cs = 0"
  by (induction cs) simp_all

lemma claim_sum_others: "claim_sum crc r (filter (\<lambda>c. cl_backbone_gw c \<noteq> r') cs) = (if r = r' then 0 else claim_sum crc r cs)"
  by (induction cs) auto

lemma xor_swap: "a XOR (b XOR c) = b XOR (a XOR (c :: u16))" "a XOR (a XOR c) = c"
  by (simp_all add: xor.left_commute)

section \<open>Frames sent\<close>

text \<open>Two states that differ in the frames that were handed out, in nothing else.\<close>

definition bla_sent :: "batadv_priv_bla \<Rightarrow> batadv_priv_bla \<Rightarrow> bool" where
  "bla_sent st st' \<longleftrightarrow> (\<exists>evs. st' = st\<lparr>bla_out := bla_out st @ evs\<rparr> \<and> Bla_Bad_Access \<notin> set evs)"

lemma bla_sent_refl [simp, intro]: "bla_sent st st"
  unfolding bla_sent_def by (rule exI [of _ "[]"]) simp

lemma bla_sent_trans: assumes "bla_sent a b" "bla_sent b c" shows "bla_sent a c"
proof -
  from assms obtain e f where "b = a\<lparr>bla_out := bla_out a @ e\<rparr>" "c = b\<lparr>bla_out := bla_out b @ f\<rparr>"
    "Bla_Bad_Access \<notin> set e" "Bla_Bad_Access \<notin> set f" by (auto simp only: bla_sent_def)
  then show ?thesis unfolding bla_sent_def by (intro exI [of _ "e @ f"]) simp
qed

lemma bla_sent_frame:
  "bla_sent st st' \<Longrightarrow> bla_claim_hash st' = bla_claim_hash st" "bla_sent st st' \<Longrightarrow> bla_backbone_hash st' = bla_backbone_hash st"
  "bla_sent st st' \<Longrightarrow> bla_num_requests st' = bla_num_requests st" "bla_sent st st' \<Longrightarrow> bla_next_ref st' = bla_next_ref st"
  "bla_sent st st' \<Longrightarrow> bla_has_claim_hash st' = bla_has_claim_hash st"
  "bla_sent st st' \<Longrightarrow> bla_has_backbone_hash st' = bla_has_backbone_hash st"
  "bla_sent st st' \<Longrightarrow> bla_group st' = bla_group st"
  by (auto simp: bla_sent_def)

lemma bla_sent_ok: "bla_sent st st' \<Longrightarrow> bla_ok crc st \<Longrightarrow> bla_ok crc st'"
  by (auto simp: bla_sent_def bla_ok_def)

lemma bla_sent_gw: "bla_sent st st' \<Longrightarrow> gw_at st' r = gw_at st r"
  by (simp add: gw_at_def bla_sent_frame)

lemma bla_sent_frame_event: "bla_sent st (bla_event (Bla_Frame f) st)"
  unfolding bla_sent_def bla_event_def by (rule exI [of _ "[Bla_Frame f]"]) simp

lemma hand_out_sent:
  assumes "bla_env_ok crc env"
  shows "bla_sent st (if untagged then bla_event (Bla_Frame skb) st
    else (case ble_insert_tag env skb tag of None \<Rightarrow> bla_event Bla_Bad_Access st | Some skb \<Rightarrow> bla_event (Bla_Frame skb) st))"
proof -
  obtain skb' where "ble_insert_tag env skb tag = Some skb'" using assms by (auto simp: bla_env_ok_def)
  then show ?thesis by (simp add: bla_sent_frame_event)
qed

lemma send_claim_sent [intro]:
  assumes "bla_env_ok crc env"
  shows "bla_sent st (batadv_bla_send_claim env addr vid ty st)"
proof (cases "bla_primary env")
  case None
  then show ?thesis by (simp add: batadv_bla_send_claim_def)
next
  case (Some me)
  show ?thesis
  proof (cases "ble_arp_reply env me (claim_dst ty (bla_group st))")
    case None
    with Some show ?thesis by (simp add: batadv_bla_send_claim_def)
  next
    case skb: (Some skb)
    show ?thesis unfolding batadv_bla_send_claim_def Let_def Some skb option.case by (rule hand_out_sent [OF assms])
  qed
qed

lemma send_announce_sent [intro]:
  assumes "bla_env_ok crc env" "gw_at st r = Some g"
  shows "bla_sent st (batadv_bla_send_announce env r st)"
  unfolding batadv_bla_send_announce_def assms(2) option.case by (rule send_claim_sent [OF assms(1)])

lemma answer_request_sent:
  assumes "bla_env_ok crc env" "bla_ok crc st"
  shows "bla_sent st (batadv_bla_answer_request env me vid st)"
proof (cases "batadv_backbone_hash_find env st me vid")
  case None
  then show ?thesis by (simp add: batadv_bla_answer_request_def)
next
  case (Some g)
  let ?f = "\<lambda>c st. if cl_backbone_gw c \<noteq> bg_ref g then st
                     else batadv_bla_send_claim env (cl_addr c) (cl_vid c) BATADV_CLAIM_TYPE_CLAIM st"
  have f: "bla_sent st (fold ?f cs s)" if "bla_sent st s" for cs s
    using that
  proof (induction cs arbitrary: s)
    case (Cons c cs)
    show ?case using Cons.IH [of "?f c s"] Cons.prems by (simp add: bla_sent_trans [OF Cons.prems send_claim_sent [OF assms(1)]])
  qed simp
  have "g \<in> set (bla_backbone_hash st)"
    using Some by (auto simp: batadv_backbone_hash_find_def find_Some_iff split: if_splits)
  then obtain g' where g': "gw_at st (bg_ref g) = Some g'" by (cases "gw_at st (bg_ref g)") (auto simp: gw_at_def find_None_iff)
  let ?t = "fold ?f (bla_claim_hash st) st"
  have "bla_sent ?t (batadv_bla_send_announce env (bg_ref g) ?t)"
    by (rule send_announce_sent [OF assms(1) trans [OF bla_sent_gw [OF f [OF bla_sent_refl]] g']])
  then have "bla_sent st (batadv_bla_send_announce env (bg_ref g) ?t)"
    by (rule bla_sent_trans [OF f [OF bla_sent_refl]])
  with Some assms(2) show ?thesis by (simp add: batadv_bla_answer_request_def bla_ok_def)
qed

section \<open>Single changes\<close>

lemma gw_split:
  assumes "bla_ok crc st" "gw_at st r = Some g"
  obtains us vs where "bla_backbone_hash st = us @ g # vs" "bg_ref g = r" "\<forall>u \<in> set us \<union> set vs. bg_ref u \<noteq> r"
proof -
  obtain us vs where s: "bla_backbone_hash st = us @ g # vs" "bg_ref g = r"
    using find_split [of "\<lambda>g. bg_ref g = r"] assms(2) unfolding gw_at_def by blast
  have "distinct (map bg_ref (bla_backbone_hash st))" using assms(1) by (simp add: bla_ok_def gws_ok_def)
  then have "bg_ref u \<noteq> bg_ref g" if "u \<in> set us \<union> set vs" for u
    unfolding s(1) by (rule distinct_split) (rule that)
  then have "\<forall>u \<in> set us \<union> set vs. bg_ref u \<noteq> r" using s(2) by simp
  then show ?thesis by (rule that [OF s])
qed

lemma claim_split:
  assumes "bla_ok crc st" "batadv_claim_hash_find st a v = Some c"
  obtains us vs where "bla_claim_hash st = us @ c # vs" "cl_addr c = a" "cl_vid c = v"
    "\<forall>u \<in> set us \<union> set vs. \<not> (cl_addr u = a \<and> cl_vid u = v)"
proof -
  have "List.find (\<lambda>c. cl_addr c = a \<and> cl_vid c = v) (bla_claim_hash st) = Some c"
    using assms by (simp add: batadv_claim_hash_find_def bla_ok_def)
  from find_split [OF this] obtain us vs where s: "bla_claim_hash st = us @ c # vs" "cl_addr c = a \<and> cl_vid c = v" by blast
  have "distinct (map claim_key (bla_claim_hash st))" using assms(1) by (simp add: bla_ok_def claims_ok_def)
  then have "claim_key u \<noteq> claim_key c" if "u \<in> set us \<union> set vs" for u
    unfolding s(1) by (rule distinct_split) (rule that)
  then have "\<forall>u \<in> set us \<union> set vs. \<not> (cl_addr u = a \<and> cl_vid u = v)" using s(2) by (auto simp: claim_key_def)
  then show ?thesis by (rule that [OF s(1) conjunct1 [OF s(2)] conjunct2 [OF s(2)]])
qed

lemma upd_gw_frame [simp]:
  "bla_claim_hash (upd_gw r f st) = bla_claim_hash st" "bla_num_requests (upd_gw r f st) = bla_num_requests st"
  "bla_next_ref (upd_gw r f st) = bla_next_ref st" "bla_has_claim_hash (upd_gw r f st) = bla_has_claim_hash st"
  "bla_has_backbone_hash (upd_gw r f st) = bla_has_backbone_hash st" "bla_out (upd_gw r f st) = bla_out st"
  "bla_group (upd_gw r f st) = bla_group st"
  by (simp_all add: upd_gw_def)

lemma upd_claim_frame [simp]:
  "bla_backbone_hash (upd_claim a v f st) = bla_backbone_hash st" "bla_num_requests (upd_claim a v f st) = bla_num_requests st"
  "bla_next_ref (upd_claim a v f st) = bla_next_ref st" "bla_has_claim_hash (upd_claim a v f st) = bla_has_claim_hash st"
  "bla_has_backbone_hash (upd_claim a v f st) = bla_has_backbone_hash st" "bla_out (upd_claim a v f st) = bla_out st"
  "bla_group (upd_claim a v f st) = bla_group st"
  by (simp_all add: upd_claim_def)

lemma bla_ok_cong:
  assumes "bla_claim_hash st' = bla_claim_hash st" "bla_backbone_hash st' = bla_backbone_hash st"
    "bla_num_requests st' = bla_num_requests st" "bla_next_ref st' = bla_next_ref st"
    "bla_has_claim_hash st' = bla_has_claim_hash st" "bla_has_backbone_hash st' = bla_has_backbone_hash st"
    "bla_out st' = bla_out st"
  shows "bla_ok crc st' = bla_ok crc st"
  by (simp add: bla_ok_def assms)

text \<open>
  A write to one gateway: its number, VLAN and checksum stay, and the requests are counted with the
  change of its flag.
\<close>

lemma upd_gw_ok:
  assumes ok: "bla_ok crc st" and g: "gw_at st r = Some g"
    and f: "bg_ref (f g) = bg_ref g" "bg_vid (f g) = bg_vid g" "bg_crc (f g) = bg_crc g"
      "bg_request_sent (f g) = 0 \<or> bg_request_sent (f g) = 1"
    and n: "n = bla_num_requests st + bg_request_sent (f g) - bg_request_sent g"
  shows "bla_ok crc ((upd_gw r f st)\<lparr>bla_num_requests := n\<rparr>)"
proof -
  from gw_split [OF ok g] obtain us vs where s: "bla_backbone_hash st = us @ g # vs" "bg_ref g = r"
    "\<forall>u \<in> set us \<union> set vs. bg_ref u \<noteq> r" by blast
  have w: "bla_backbone_hash (upd_gw r f st) = us @ f g # vs"
    unfolding upd_gw_def using upd_split(1) [of us vs "\<lambda>g. bg_ref g = r" g f] s by simp
  show ?thesis
    using ok f s(2) unfolding bla_ok_def gws_ok_def claims_ok_def
    by (auto simp: w s(1) n open_requests_def)
qed

lemma upd_gw_ok_same:
  assumes "bla_ok crc st" "gw_at st r = Some g"
    and "bg_ref (f g) = bg_ref g" "bg_vid (f g) = bg_vid g" "bg_crc (f g) = bg_crc g" "bg_request_sent (f g) = bg_request_sent g"
  shows "bla_ok crc (upd_gw r f st)"
proof -
  have "bg_request_sent g = 0 \<or> bg_request_sent g = 1"
    using assms(1,2) by (auto simp: bla_ok_def gws_ok_def gw_at_def find_Some_iff)
  then have "bla_ok crc ((upd_gw r f st)\<lparr>bla_num_requests := bla_num_requests st\<rparr>)"
    by (intro upd_gw_ok [OF assms(1,2)]) (simp_all add: assms)
  then show ?thesis by (simp add: bla_ok_def)
qed

lemma upd_gw_absent: "gw_at st r = None \<Longrightarrow> upd_gw r f st = st"
  unfolding upd_gw_def gw_at_def find_None_iff
  by (rule batadv_priv_bla.equality) (auto intro!: map_idI)

lemma gw_upd:
  assumes "\<And>g. bg_ref (f g) = bg_ref g"
  shows "gw_at (upd_gw r f st) r' = (if r = r' then map_option f (gw_at st r) else gw_at st r')"
proof -
  have "List.find (\<lambda>g. bg_ref g = r') (map (\<lambda>g. if bg_ref g = r then f g else g) gs)
      = (if r = r' then map_option f (List.find (\<lambda>g. bg_ref g = r) gs) else List.find (\<lambda>g. bg_ref g = r') gs)" for gs
    by (induction gs) (auto simp: assms)
  then show ?thesis by (simp add: gw_at_def upd_gw_def)
qed

lemma gw_at_frame: "bla_backbone_hash st' = bla_backbone_hash st \<Longrightarrow> gw_at st' r = gw_at st r"
  by (simp add: gw_at_def)

section \<open>Gateways\<close>

lemma del_backbone_claims_fields:
  assumes "bla_ok crc st"
  shows "bla_claim_hash (batadv_bla_del_backbone_claims r st) = filter (\<lambda>c. cl_backbone_gw c \<noteq> r) (bla_claim_hash st)"
    "bla_backbone_hash (batadv_bla_del_backbone_claims r st)
      = map (\<lambda>g. if bg_ref g = r then g\<lparr>bg_crc := 0\<rparr> else g) (bla_backbone_hash st)"
    "bla_num_requests (batadv_bla_del_backbone_claims r st) = bla_num_requests st"
    "bla_next_ref (batadv_bla_del_backbone_claims r st) = bla_next_ref st"
    "bla_has_claim_hash (batadv_bla_del_backbone_claims r st) = bla_has_claim_hash st"
    "bla_has_backbone_hash (batadv_bla_del_backbone_claims r st) = bla_has_backbone_hash st"
    "bla_group (batadv_bla_del_backbone_claims r st) = bla_group st"
    "bla_out (batadv_bla_del_backbone_claims r st) = bla_out st"
  using assms by (simp_all add: batadv_bla_del_backbone_claims_def upd_gw_def bla_ok_def)

lemma del_backbone_claims_ok:
  assumes "bla_ok crc st"
  shows "bla_ok crc (batadv_bla_del_backbone_claims r st)"
proof -
  let ?cs = "filter (\<lambda>c. cl_backbone_gw c \<noteq> r) (bla_claim_hash st)"
  let ?f = "\<lambda>g. if bg_ref g = r then g\<lparr>bg_crc := 0\<rparr> else g"
  have ref: "map bg_ref (map ?f gs) = map bg_ref gs" and req: "open_requests (map ?f gs) = open_requests gs"
    and im: "(\<lambda>g. (bg_ref g, bg_vid g)) ` set (map ?f gs) = (\<lambda>g. (bg_ref g, bg_vid g)) ` set gs" for gs
    by (induction gs) (simp_all add: open_requests_def)
  have "gws_ok crc (bla_next_ref st) ?cs (map ?f (bla_backbone_hash st))"
    using assms unfolding bla_ok_def gws_ok_def ref by (auto simp: claim_sum_others)
  moreover have "claims_ok (map ?f (bla_backbone_hash st)) ?cs"
    using assms unfolding bla_ok_def claims_ok_def im by (auto intro: distinct_map_filter)
  ultimately show ?thesis
    using assms unfolding bla_ok_def del_backbone_claims_fields [OF assms] req by simp
qed

lemma claim_sum_unused:
  assumes "bla_ok crc st"
  shows "claim_sum crc (bla_next_ref st) (bla_claim_hash st) = 0"
proof (rule claim_sum_none, rule ballI, rule notI)
  fix c assume "c \<in> set (bla_claim_hash st)" "cl_backbone_gw c = bla_next_ref st"
  then obtain g where "g \<in> set (bla_backbone_hash st)" "bg_ref g = bla_next_ref st"
    using assms by (auto simp: bla_ok_def claims_ok_def)
  then show False using assms by (auto simp: bla_ok_def gws_ok_def)
qed

lemma insert_gw_ok:
  assumes ok: "bla_ok crc st"
    and g: "bg_ref g = bla_next_ref st" "bg_crc g = 0" "bg_request_sent g = 0"
  shows "bla_ok crc (st\<lparr>bla_backbone_hash := bucket_insert b g (bla_backbone_hash st), bla_next_ref := bla_next_ref st + 1\<rparr>)"
proof -
  from bucket_insert_split [of "bla_backbone_hash st" b g] obtain us vs
    where s: "bla_backbone_hash st = us @ vs" "bucket_insert b g (bla_backbone_hash st) = us @ g # vs" by blast
  have "bla_next_ref st \<notin> bg_ref ` set (bla_backbone_hash st)" using ok by (auto simp: bla_ok_def gws_ok_def)
  then show ?thesis
    using ok g claim_sum_unused [OF ok] unfolding bla_ok_def gws_ok_def claims_ok_def
    by (auto simp: s(1) s(2) [unfolded s(1)] open_requests_def intro: less_SucI)
qed

text \<open>What the search for a gateway, or its creation, leaves.\<close>

lemma gw_found:
  assumes "batadv_backbone_hash_find env st orig vid = Some g" "bla_ok crc st"
  shows "gw_at st (bg_ref g) = Some g" "bg_orig g = orig" "bg_vid g = vid"
proof -
  have f: "List.find (\<lambda>g. bg_bucket g = ble_choose_gw env orig vid \<and> bg_orig g = orig \<and> bg_vid g = vid) (bla_backbone_hash st) = Some g"
    using assms by (simp add: batadv_backbone_hash_find_def bla_ok_def)
  then show "bg_orig g = orig" "bg_vid g = vid" by (auto simp: find_Some_iff)
  from find_split [OF f] obtain us vs where s: "bla_backbone_hash st = us @ g # vs" by blast
  have d: "distinct (map bg_ref (bla_backbone_hash st))" using assms(2) by (simp add: bla_ok_def gws_ok_def)
  have "bg_ref u \<noteq> bg_ref g" if "u \<in> set us" for u
    by (rule distinct_split [OF d [unfolded s]]) (simp add: that)
  then have "List.find (\<lambda>x. bg_ref x = bg_ref g) us = None" by (simp add: find_None_iff)
  then show "gw_at st (bg_ref g) = Some g" unfolding gw_at_def s by (simp add: list_find_append)
qed

lemma gw_at_next: "bla_ok crc st \<Longrightarrow> gw_at st (bla_next_ref st) = None"
  by (auto simp: gw_at_def find_None_iff bla_ok_def gws_ok_def)

lemma gw_at_insert:
  assumes "bla_ok crc st" "bg_ref g = bla_next_ref st"
  shows "gw_at (st\<lparr>bla_backbone_hash := bucket_insert b g (bla_backbone_hash st), bla_next_ref := n\<rparr>) r
    = (if r = bla_next_ref st then Some g else gw_at st r)"
proof -
  from bucket_insert_split [of "bla_backbone_hash st" b g] obtain us vs
    where s: "bla_backbone_hash st = us @ vs" "bucket_insert b g (bla_backbone_hash st) = us @ g # vs" by blast
  from gw_at_next [OF assms(1)] have "List.find (\<lambda>g. bg_ref g = bla_next_ref st) us = None"
    unfolding gw_at_def s(1) find_None_iff by auto
  then show ?thesis using assms(2) by (auto simp: gw_at_def s(1) s(2) [unfolded s(1)] list_find_append split: option.split)
qed

lemma get_backbone_gw_ok:
  assumes env: "bla_env_ok crc env" and ok: "bla_ok crc st"
    and get: "batadv_bla_get_backbone_gw env orig vid own st = (st', res)"
  shows "bla_ok crc st' \<and> bla_claim_hash st' = bla_claim_hash st
    \<and> (\<forall>r. res = Some r \<longrightarrow> (\<exists>g. gw_at st' r = Some g \<and> bg_orig g = orig \<and> bg_vid g = vid))
    \<and> (\<forall>r g. gw_at st r = Some g \<longrightarrow> gw_at st' r = Some g)"
proof (cases "batadv_backbone_hash_find env st orig vid")
  case (Some g)
  with get ok show ?thesis using gw_found [OF Some ok] by (auto simp: batadv_bla_get_backbone_gw_def)
next
  case None
  show ?thesis
  proof (cases "ble_alloc_gw env orig vid")
    case False
    with get ok None show ?thesis by (auto simp: batadv_bla_get_backbone_gw_def)
  next
    case True
    define r where "r = bla_next_ref st"
    define e where "e = \<lparr>bg_ref = r, bg_bucket = ble_choose_gw env orig vid, bg_orig = orig, bg_vid = vid,
                  bg_lasttime = bla_now env, bg_wait_periods = 0, bg_request_sent = 0, bg_crc = BATADV_BLA_CRC_INIT\<rparr>"
    define s1 where "s1 = st\<lparr>bla_backbone_hash := bucket_insert bg_bucket e (bla_backbone_hash st), bla_next_ref := r + 1\<rparr>"
    define s2 where "s2 = (if batadv_orig_hash_find (te_priv (ble_tt env)) orig = None then s1
      else s1\<lparr>bla_tt := batadv_tt_global_del_orig (ble_tt env) orig (uint vid) (bla_tt s1)\<rparr>)"
    define f :: "batadv_bla_backbone_gw \<Rightarrow> batadv_bla_backbone_gw" where "f = (\<lambda>g. g\<lparr>bg_request_sent := bg_request_sent g + 1, bg_wait_periods := BATADV_BLA_WAIT_PERIODS\<rparr>)"
    define s3 where "s3 = batadv_bla_send_announce env r s2"
    have res: "res = Some r" "st' = (if own then (upd_gw r f s3)\<lparr>bla_num_requests := bla_num_requests s3 + 1\<rparr> else s2)"
      using get ok None True unfolding batadv_bla_get_backbone_gw_def Let_def bla_ok_def
      by (auto simp: r_def e_def s1_def s2_def s3_def f_def)
    have e: "bg_ref e = bla_next_ref st" "bg_crc e = 0" "bg_request_sent e = 0" "bg_orig e = orig" "bg_vid e = vid"
      by (simp_all add: e_def r_def)
    have ok1: "bla_ok crc s1" unfolding s1_def r_def by (rule insert_gw_ok [OF ok e(1-3)])
    have at1: "gw_at s1 r' = (if r' = r then Some e else gw_at st r')" for r'
      unfolding s1_def r_def by (rule gw_at_insert [OF ok e(1)])
    have hash: "bla_backbone_hash s2 = bla_backbone_hash s1" "bla_claim_hash s2 = bla_claim_hash st" by (simp_all add: s2_def s1_def)
    have ok2: "bla_ok crc s2" using ok1 by (auto simp: s2_def bla_ok_def)
    have at2: "gw_at s2 r' = (if r' = r then Some e else gw_at st r')" for r'
      using at1 gw_at_frame [OF hash(1)] by simp
    have sent: "bla_sent s2 s3" unfolding s3_def by (rule send_announce_sent [OF env trans [OF at2 if_P [OF refl]]])
    have at3: "gw_at s3 r' = (if r' = r then Some e else gw_at st r')" for r' using bla_sent_gw [OF sent] at2 by simp
    have ok3: "bla_ok crc ((upd_gw r f s3)\<lparr>bla_num_requests := bla_num_requests s3 + 1\<rparr>)"
      by (rule upd_gw_ok [OF bla_sent_ok [OF sent ok2] trans [OF at3 if_P [OF refl]]]) (simp_all add: f_def e)
    have at4: "gw_at ((upd_gw r f s3)\<lparr>bla_num_requests := n\<rparr>) r' = (if r' = r then Some (f e) else gw_at st r')" for r' n
      using gw_upd [of f r s3 r'] at3 [of r] at3 [of r'] gw_at_frame [of "(upd_gw r f s3)\<lparr>bla_num_requests := n\<rparr>" "upd_gw r f s3"]
      by (auto simp: f_def)
    have new: "gw_at st r = None" unfolding r_def by (rule gw_at_next [OF ok])
    show ?thesis
    proof (cases own)
      case True
      then show ?thesis using res ok3 at4 new hash(2) bla_sent_frame(1) [OF sent] by (auto simp: f_def e)
    next
      case False
      then show ?thesis using res ok2 at2 new hash(2) by (auto simp: e)
    qed
  qed
qed

end
