(* ===== verification/Bla_Run.thy ===== *)
theory Bla_Run
  imports Bla_Inv Tt_Run Routing_Props
begin

text \<open>
  Bridge loop avoidance in operation: every entry point keeps the invariant of its tables.
\<close>

section \<open>Claims\<close>

definition same_gw :: "(batadv_bla_backbone_gw \<Rightarrow> batadv_bla_backbone_gw) \<Rightarrow> bool" where
  "same_gw f \<longleftrightarrow> (\<forall>g. bg_ref (f g) = bg_ref g \<and> bg_vid (f g) = bg_vid g \<and> bg_request_sent (f g) = bg_request_sent g)"

lemma gws_map:
  assumes "same_gw f"
  shows "map bg_ref (map f gs) = map bg_ref gs" "open_requests (map f gs) = open_requests gs"
    "(\<lambda>g. (bg_ref g, bg_vid g)) ` set (map f gs) = (\<lambda>g. (bg_ref g, bg_vid g)) ` set gs"
    "claims_ok (map f gs) cs = claims_ok gs cs"
proof -
  show "map bg_ref (map f gs) = map bg_ref gs" "open_requests (map f gs) = open_requests gs"
    and im: "(\<lambda>g. (bg_ref g, bg_vid g)) ` set (map f gs) = (\<lambda>g. (bg_ref g, bg_vid g)) ` set gs"
    using assms by (induction gs) (simp_all add: open_requests_def same_gw_def)
  show "claims_ok (map f gs) cs = claims_ok gs cs" unfolding claims_ok_def im ..
qed

lemma gws_ok_map:
  assumes "gws_ok crc n cs gs" "same_gw f"
    and "\<And>g. g \<in> set gs \<Longrightarrow> bg_crc g = claim_sum crc (bg_ref g) cs \<Longrightarrow> bg_crc (f g) = claim_sum crc (bg_ref g) cs'"
  shows "gws_ok crc n cs' (map f gs)"
  using assms(1,3) assms(2) unfolding gws_ok_def gws_map(1) [OF assms(2)] by (auto simp: same_gw_def)

text \<open>Claims and gateways are rewritten together: the invariant of the result.\<close>

lemma reclaim_ok:
  assumes ok: "bla_ok crc st" and f: "same_gw f"
    and fields: "bla_claim_hash st' = cs'" "bla_backbone_hash st' = map f (bla_backbone_hash st)"
      "bla_num_requests st' = bla_num_requests st" "bla_next_ref st' = bla_next_ref st"
      "bla_has_claim_hash st' = bla_has_claim_hash st" "bla_has_backbone_hash st' = bla_has_backbone_hash st" "bla_out st' = bla_out st"
    and keys: "distinct (map claim_key cs')"
    and owners: "\<And>c. c \<in> set cs' \<Longrightarrow> (cl_backbone_gw c, cl_vid c) \<in> (\<lambda>g. (bg_ref g, bg_vid g)) ` set (bla_backbone_hash st)"
    and sums: "\<And>g. bg_crc g = claim_sum crc (bg_ref g) (bla_claim_hash st) \<Longrightarrow> bg_crc (f g) = claim_sum crc (bg_ref g) cs'"
  shows "bla_ok crc st'"
proof -
  have "gws_ok crc (bla_next_ref st) cs' (map f (bla_backbone_hash st))"
    by (rule gws_ok_map [OF _ f sums]) (use ok in \<open>simp_all add: bla_ok_def\<close>)
  moreover have "claims_ok (bla_backbone_hash st) cs'" using keys owners by (simp add: claims_ok_def)
  ultimately show ?thesis using ok unfolding bla_ok_def fields gws_map(2) [OF f] gws_map(4) [OF f] by simp
qed

lemma claim_keys_replace:
  "claim_key c' = claim_key c \<Longrightarrow> map claim_key (us @ c' # vs) = map claim_key (us @ c # vs)"
  by simp

lemma gw_pair: "gw_at st r = Some g \<Longrightarrow> (r, bg_vid g) \<in> (\<lambda>g. (bg_ref g, bg_vid g)) ` set (bla_backbone_hash st)"
  by (auto simp: gw_at_def find_Some_iff image_iff)

lemma claim_owner: "bla_ok crc st \<Longrightarrow> c \<in> set (bla_claim_hash st) \<Longrightarrow>
    (cl_backbone_gw c, cl_vid c) \<in> (\<lambda>g. (bg_ref g, bg_vid g)) ` set (bla_backbone_hash st)"
  by (simp add: bla_ok_def claims_ok_def)

lemma add_claim_ok:
  assumes env: "bla_env_ok crc env" and ok: "bla_ok crc st" and g: "gw_at st r = Some g" "bg_vid g = vid"
  shows "bla_ok crc (batadv_bla_add_claim env addr vid r st)"
proof -
  define f where "f = (\<lambda>g. if bg_ref g = r then (crc_toggle env addr g)\<lparr>bg_lasttime := bla_now env\<rparr> else g)"
  have f: "same_gw f" by (simp add: f_def same_gw_def crc_toggle_def)
  have c16: "ble_crc16 env = crc" using env by (simp add: bla_env_ok_def)
  note pair = gw_pair [OF g(1), unfolded g(2)]
  show ?thesis
  proof (cases "batadv_claim_hash_find st addr vid")
    case None
    define c where "c = \<lparr>cl_addr = addr, cl_vid = vid, cl_backbone_gw = r, cl_lasttime = bla_now env\<rparr>"
    let ?b = "\<lambda>c. ble_choose_claim env (cl_addr c) (cl_vid c)"
    have fresh: "\<forall>u \<in> set (bla_claim_hash st). \<not> (cl_addr u = addr \<and> cl_vid u = vid)"
      using None ok by (auto simp: batadv_claim_hash_find_def find_None_iff bla_ok_def)
    from bucket_insert_split [of "bla_claim_hash st" ?b c] obtain us vs
      where s: "bla_claim_hash st = us @ vs" "bucket_insert ?b c (bla_claim_hash st) = us @ c # vs" by blast
    have w: "map (\<lambda>c. if cl_addr c = addr \<and> cl_vid c = vid then c\<lparr>cl_backbone_gw := r\<rparr> else c) (us @ c # vs) = us @ c # vs"
      using fresh unfolding s(1) by (auto simp: c_def intro!: map_idI)
    show ?thesis
    proof (cases "ble_alloc_claim env addr vid")
      case False
      with None ok show ?thesis by (simp add: batadv_bla_add_claim_def)
    next
      case True
      let ?st' = "batadv_bla_add_claim env addr vid r st"
      have eq: "?st' = st\<lparr>bla_claim_hash := us @ c # vs, bla_backbone_hash := map f (bla_backbone_hash st)\<rparr>"
        using None True ok w s(2) unfolding batadv_bla_add_claim_def Let_def upd_gw_def upd_claim_def bla_ok_def f_def c_def
        by simp
      show ?thesis
      proof (rule reclaim_ok [OF ok f, where cs' = "us @ c # vs"])
        show "distinct (map claim_key (us @ c # vs))"
          using ok fresh unfolding bla_ok_def claims_ok_def s(1) by (auto simp: claim_key_def c_def)
        show "(cl_backbone_gw d, cl_vid d) \<in> (\<lambda>g. (bg_ref g, bg_vid g)) ` set (bla_backbone_hash st)"
          if "d \<in> set (us @ c # vs)" for d
          using that claim_owner [OF ok, of d] pair unfolding s(1) by (auto simp: c_def)
        show "bg_crc (f g) = claim_sum crc (bg_ref g) (us @ c # vs)"
          if "bg_crc g = claim_sum crc (bg_ref g) (bla_claim_hash st)" for g
          using that by (auto simp: f_def crc_toggle_def c16 s(1) c_def ac_simps)
      qed (simp_all add: eq)
    qed
  next
    case (Some c)
    from claim_split [OF ok Some] obtain us vs where s: "bla_claim_hash st = us @ c # vs" "cl_addr c = addr" "cl_vid c = vid"
      "\<forall>u \<in> set us \<union> set vs. \<not> (cl_addr u = addr \<and> cl_vid u = vid)" by blast
    define t where "t = c\<lparr>cl_lasttime := bla_now env\<rparr>"
    have w1: "map (\<lambda>c. if cl_addr c = addr \<and> cl_vid c = vid then c\<lparr>cl_lasttime := bla_now env\<rparr> else c) (us @ c # vs) = us @ t # vs"
      using s(2-4) by (auto simp: t_def intro!: map_idI)
    have w2: "map (\<lambda>c. if cl_addr c = addr \<and> cl_vid c = vid then c\<lparr>cl_backbone_gw := r\<rparr> else c) (us @ t # vs)
        = us @ t\<lparr>cl_backbone_gw := r\<rparr> # vs"
      using s(2-4) by (auto simp: t_def intro!: map_idI)
    have keys: "distinct (map claim_key (us @ t # vs))" "distinct (map claim_key (us @ t\<lparr>cl_backbone_gw := r\<rparr> # vs))"
      using ok unfolding bla_ok_def claims_ok_def s(1) by (simp_all add: t_def claim_key_def)
    show ?thesis
    proof (cases "cl_backbone_gw c = r")
      case True
      have eq: "batadv_bla_add_claim env addr vid r st = st\<lparr>bla_claim_hash := us @ t # vs\<rparr>"
        using Some True by (simp add: batadv_bla_add_claim_def Let_def upd_claim_def s(1) w1 del: map_append list.simps(9))
      show ?thesis
      proof (rule reclaim_ok [OF ok, of "\<lambda>g. g" _ "us @ t # vs", OF _ _ _ _ _ _ _ _ keys(1)])
        show "(cl_backbone_gw d, cl_vid d) \<in> (\<lambda>g. (bg_ref g, bg_vid g)) ` set (bla_backbone_hash st)"
          if "d \<in> set (us @ t # vs)" for d
          using that claim_owner [OF ok, of d] claim_owner [OF ok, of c] unfolding s(1) by (auto simp: t_def)
      qed (simp_all add: eq same_gw_def s(1) t_def)
    next
      case False
      define f0 where "f0 = (\<lambda>g. if bg_ref g = cl_backbone_gw c then crc_toggle env addr g else g)"
      have eq: "batadv_bla_add_claim env addr vid r st
          = st\<lparr>bla_claim_hash := us @ t\<lparr>cl_backbone_gw := r\<rparr> # vs, bla_backbone_hash := map (f \<circ> f0) (bla_backbone_hash st)\<rparr>"
        using Some False
        by (simp add: batadv_bla_add_claim_def Let_def upd_claim_def upd_gw_def s(1) w2 w1 f_def f0_def comp_def del: map_append list.simps(9))
      show ?thesis
      proof (rule reclaim_ok [OF ok, of "f \<circ> f0" _ "us @ t\<lparr>cl_backbone_gw := r\<rparr> # vs", OF _ _ _ _ _ _ _ _ keys(2)])
        show "(cl_backbone_gw d, cl_vid d) \<in> (\<lambda>g. (bg_ref g, bg_vid g)) ` set (bla_backbone_hash st)"
          if "d \<in> set (us @ t\<lparr>cl_backbone_gw := r\<rparr> # vs)" for d
          using that claim_owner [OF ok, of d] pair unfolding s(1) by (auto simp: t_def s(3))
        show "bg_crc ((f \<circ> f0) g) = claim_sum crc (bg_ref g) (us @ t\<lparr>cl_backbone_gw := r\<rparr> # vs)"
          if "bg_crc g = claim_sum crc (bg_ref g) (bla_claim_hash st)" for g
          using that False by (auto simp: f_def f0_def crc_toggle_def c16 s t_def ac_simps)
      qed (simp_all add: eq same_gw_def f_def f0_def crc_toggle_def)
    qed
  qed
qed

lemma del_claim_ok:
  assumes env: "bla_env_ok crc env" and ok: "bla_ok crc st"
  shows "bla_ok crc (batadv_bla_del_claim env addr vid st)"
proof (cases "batadv_claim_hash_find st addr vid")
  case None
  with ok show ?thesis by (simp add: batadv_bla_del_claim_def)
next
  case (Some c)
  from claim_split [OF ok Some] obtain us vs where s: "bla_claim_hash st = us @ c # vs" "cl_addr c = addr" "cl_vid c = vid"
    "\<forall>u \<in> set us \<union> set vs. \<not> (cl_addr u = addr \<and> cl_vid u = vid)" by blast
  define f where "f = (\<lambda>g. if bg_ref g = cl_backbone_gw c then crc_toggle env addr g else g)"
  have f: "same_gw f" by (simp add: f_def same_gw_def crc_toggle_def)
  have w: "filter (\<lambda>c. \<not> (cl_addr c = addr \<and> cl_vid c = vid)) (us @ c # vs) = us @ vs"
    using upd_split(2) [of us vs "\<lambda>c. cl_addr c = addr \<and> cl_vid c = vid" c] s(2-4) by simp
  have eq: "batadv_bla_del_claim env addr vid st
      = st\<lparr>bla_claim_hash := us @ vs, bla_backbone_hash := map f (bla_backbone_hash st)\<rparr>"
    unfolding batadv_bla_del_claim_def Some option.case s(1) w upd_gw_def f_def by simp
  show ?thesis
  proof (rule reclaim_ok [OF ok f, where cs' = "us @ vs"])
    show "distinct (map claim_key (us @ vs))" using ok unfolding bla_ok_def claims_ok_def s(1) by auto
    show "(cl_backbone_gw d, cl_vid d) \<in> (\<lambda>g. (bg_ref g, bg_vid g)) ` set (bla_backbone_hash st)" if "d \<in> set (us @ vs)" for d
      using that claim_owner [OF ok, of d] unfolding s(1) by auto
    show "bg_crc (f g) = claim_sum crc (bg_ref g) (us @ vs)"
      if "bg_crc g = claim_sum crc (bg_ref g) (bla_claim_hash st)" for g
      using that env by (auto simp: f_def crc_toggle_def bla_env_ok_def s ac_simps)
  qed (simp_all add: eq)
qed

lemma del_claim_gw: "gw_at (batadv_bla_del_claim env addr vid st) r = None \<longleftrightarrow> gw_at st r = None"
  by (auto simp: batadv_bla_del_claim_def gw_upd crc_toggle_def gw_at_frame [of "bla_claim_hash_update _ _"] split: option.split)

lemma gw_flag: "bla_ok crc st \<Longrightarrow> gw_at st r = Some g \<Longrightarrow> bg_request_sent g = 0 \<or> bg_request_sent g = 1"
  by (auto simp: bla_ok_def gws_ok_def gw_at_def find_Some_iff)

lemma upd_gw_requests: "upd_gw r f (st\<lparr>bla_num_requests := n\<rparr>) = (upd_gw r f st)\<lparr>bla_num_requests := n\<rparr>"
  by (rule batadv_priv_bla.equality) (simp_all add: upd_gw_def)

section \<open>Frames from the LAN\<close>

lemma update_own_ok:
  assumes "bla_env_ok crc env" "bla_ok crc st"
  shows "bla_ok crc (batadv_bla_update_own_backbone_gw env me vid st)"
proof -
  obtain st' res where g: "batadv_bla_get_backbone_gw env me vid True st = (st', res)" by (cases "batadv_bla_get_backbone_gw env me vid True st")
  note ok = get_backbone_gw_ok [OF assms g]
  show ?thesis
  proof (cases res)
    case None
    with ok g show ?thesis by (simp add: batadv_bla_update_own_backbone_gw_def)
  next
    case (Some r)
    with ok obtain e where "gw_at st' r = Some e" by blast
    with ok have "bla_ok crc (upd_gw r (\<lambda>g. g\<lparr>bg_lasttime := bla_now env\<rparr>) st')" by (intro upd_gw_ok_same) auto
    with g Some show ?thesis by (simp add: batadv_bla_update_own_backbone_gw_def)
  qed
qed

lemma handle_claim_ok:
  assumes "bla_env_ok crc env" "bla_ok crc st"
  shows "bla_ok crc (fst (batadv_handle_claim env me orig addr vid st))"
proof -
  obtain st' res where g: "batadv_bla_get_backbone_gw env orig vid False st = (st', res)" by (cases "batadv_bla_get_backbone_gw env orig vid False st")
  note ok = get_backbone_gw_ok [OF assms g]
  show ?thesis
  proof (cases res)
    case None
    with ok g show ?thesis by (simp add: batadv_handle_claim_def)
  next
    case (Some r)
    with ok obtain e where "gw_at st' r = Some e" "bg_vid e = vid" by blast
    with ok have "bla_ok crc (batadv_bla_add_claim env addr vid r st')" by (intro add_claim_ok [OF assms(1)]) auto
    with g Some show ?thesis
      by (simp add: batadv_handle_claim_def Let_def bla_sent_ok [OF send_claim_sent [OF assms(1)]])
  qed
qed

lemma handle_unclaim_ok:
  assumes "bla_env_ok crc env" "bla_ok crc st"
  shows "bla_ok crc (fst (batadv_handle_unclaim env me orig addr vid st))"
    and "gw_at (fst (batadv_handle_unclaim env me orig addr vid st)) r = None \<longleftrightarrow> gw_at st r = None"
proof -
  define s1 where "s1 = (if me = Some orig then batadv_bla_send_claim env addr vid BATADV_CLAIM_TYPE_UNCLAIM st else st)"
  have s: "bla_sent st s1" unfolding s1_def by (simp add: send_claim_sent [OF assms(1)])
  have eq: "fst (batadv_handle_unclaim env me orig addr vid st)
      = (if batadv_backbone_hash_find env s1 orig vid = None then s1 else batadv_bla_del_claim env addr vid s1)"
    by (simp add: batadv_handle_unclaim_def s1_def Let_def)
  show "bla_ok crc (fst (batadv_handle_unclaim env me orig addr vid st))"
    using bla_sent_ok [OF s assms(2)] del_claim_ok [OF assms(1)] by (simp add: eq)
  show "gw_at (fst (batadv_handle_unclaim env me orig addr vid st)) r = None \<longleftrightarrow> gw_at st r = None"
    by (simp add: eq del_claim_gw bla_sent_gw [OF s])
qed

lemma send_request_ok:
  assumes env: "bla_env_ok crc env" and ok: "bla_ok crc st" and g: "gw_at st r = Some g"
  shows "bla_ok crc (batadv_bla_send_request env r st)"
proof -
  define s1 where "s1 = batadv_bla_del_backbone_claims r st"
  have ok1: "bla_ok crc s1" unfolding s1_def by (rule del_backbone_claims_ok [OF ok])
  have "s1 = upd_gw r (\<lambda>g. g\<lparr>bg_crc := 0\<rparr>) (st\<lparr>bla_claim_hash := filter (\<lambda>c. cl_backbone_gw c \<noteq> r) (bla_claim_hash st)\<rparr>)"
    using ok by (simp add: s1_def batadv_bla_del_backbone_claims_def bla_ok_def)
  with g have g1: "gw_at s1 r = Some (g\<lparr>bg_crc := 0\<rparr>)"
    by (simp add: gw_upd gw_at_frame [of "bla_claim_hash_update _ _"])
  define s2 where "s2 = batadv_bla_send_claim env (bg_orig g) (bg_vid g) BATADV_CLAIM_TYPE_REQUEST s1"
  have s2: "bla_sent s1 s2" unfolding s2_def by (rule send_claim_sent [OF env])
  have ok2: "bla_ok crc s2" by (rule bla_sent_ok [OF s2 ok1])
  have g2: "gw_at s2 r = Some (g\<lparr>bg_crc := 0\<rparr>)" using bla_sent_gw [OF s2] g1 by simp
  have eq: "batadv_bla_send_request env r st = (if bg_request_sent g = 0
      then upd_gw r (\<lambda>g. g\<lparr>bg_request_sent := 1\<rparr>) (s2\<lparr>bla_num_requests := bla_num_requests s2 + 1\<rparr>) else s2)"
    unfolding batadv_bla_send_request_def Let_def s1_def [symmetric] g1 by (simp add: s2_def)
  have "bg_request_sent g = 0 \<Longrightarrow> bla_ok crc ((upd_gw r (\<lambda>g. g\<lparr>bg_request_sent := 1\<rparr>) s2)\<lparr>bla_num_requests := bla_num_requests s2 + 1\<rparr>)"
    by (rule upd_gw_ok [OF ok2 g2]) simp_all
  with ok2 show ?thesis by (simp add: eq upd_gw_requests)
qed

lemma handle_announce_ok:
  assumes env: "bla_env_ok crc env" and ok: "bla_ok crc st"
  shows "bla_ok crc (fst (batadv_handle_announce env an orig vid st))"
proof (cases "take 4 (be_bytes 6 an) = [0x43, 0x05, 0x43, 0x05]")
  case False
  with ok show ?thesis by (simp add: batadv_handle_announce_def)
next
  case True
  obtain st' res where g: "batadv_bla_get_backbone_gw env orig vid False st = (st', res)" by (cases "batadv_bla_get_backbone_gw env orig vid False st")
  note ok' = get_backbone_gw_ok [OF assms g]
  show ?thesis
  proof (cases res)
    case None
    with ok' g True show ?thesis by (simp add: batadv_handle_announce_def)
  next
    case (Some r)
    with ok' obtain e where e: "gw_at st' r = Some e" by blast
    let ?t = "upd_gw r (\<lambda>g. g\<lparr>bg_lasttime := bla_now env\<rparr>) st'" and ?e = "e\<lparr>bg_lasttime := bla_now env\<rparr>"
    have okt: "bla_ok crc ?t" by (rule upd_gw_ok_same [OF conjunct1 [OF ok'] e]) simp_all
    have et: "gw_at ?t r = Some ?e" using e by (simp add: gw_upd)
    have r1: "bg_request_sent e \<noteq> 0 \<Longrightarrow> bg_request_sent e = 1" using gw_flag [OF okt et] by simp
    have "bg_request_sent e \<noteq> 0 \<Longrightarrow> bla_ok crc ((upd_gw r (\<lambda>g. g\<lparr>bg_request_sent := 0\<rparr>) ?t)\<lparr>bla_num_requests := bla_num_requests ?t - 1\<rparr>)"
      by (rule upd_gw_ok [OF okt et]) (simp_all add: r1)
    then have rel: "bg_request_sent e \<noteq> 0 \<Longrightarrow> bla_ok crc (upd_gw r (\<lambda>g. g\<lparr>bg_request_sent := 0\<rparr>) (?t\<lparr>bla_num_requests := bla_num_requests ?t - 1\<rparr>))"
      by (simp add: upd_gw_requests)
    show ?thesis
      unfolding batadv_handle_announce_def g Some Let_def prod.case option.case et
      using True okt rel send_request_ok [OF env okt et] by simp
  qed
qed

lemma handle_request_ok:
  assumes "bla_env_ok crc env" "bla_ok crc st"
  shows "bla_ok crc (fst (batadv_handle_request env me addr dest vid st))"
  using assms(2) bla_sent_ok [OF answer_request_sent [OF assms] assms(2)] by (simp add: batadv_handle_request_def)

lemma check_group_ok:
  assumes "bla_ok crc st"
  shows "bla_ok crc (fst (batadv_check_claim_group env me hw_src ty dgrp h_source st))"
proof -
  have "bla_ok crc (st\<lparr>bla_group := g\<rparr>)" for g using assms by (simp add: bla_ok_def)
  then show ?thesis unfolding batadv_check_claim_group_def using assms by (simp split: option.split)
qed

text \<open>The branches of a handler one by one.\<close>

lemma ok_branches:
  "bla_ok crc (fst x) \<Longrightarrow> bla_ok crc (fst y) \<Longrightarrow> bla_ok crc (fst (if b then x else y))"
  "bla_ok crc s \<Longrightarrow> bla_ok crc t \<Longrightarrow> bla_ok crc (if b then s else t)"
  "bla_ok crc (fst x) \<Longrightarrow> (\<And>a n. bla_ok crc (fst (F a n))) \<Longrightarrow> bla_ok crc (fst (case res of None \<Rightarrow> x | Some (a, n) \<Rightarrow> F a n))"
  "bla_ok crc (fst w) \<Longrightarrow> (\<And>s. bla_ok crc s \<Longrightarrow> bla_ok crc (fst (G s))) \<Longrightarrow> bla_ok crc (fst (case w of
     (s, Not_A_Claim) \<Rightarrow> (s, False) | (s, Other_Group) \<Rightarrow> (s, True) | (s, Same_Group) \<Rightarrow> G s))"
  "bla_ok crc s \<Longrightarrow> bla_ok crc (fst (s, v))"
  by (auto split: option.split prod.split claim_group.split)

lemma process_claim_ok:
  assumes env: "bla_env_ok crc env" and ok: "bla_ok crc st"
  shows "bla_ok crc (fst (batadv_bla_process_claim env me skb st))"
  unfolding batadv_bla_process_claim_def Let_def
  by (intro ok_branches ok check_group_ok handle_claim_ok [OF env] handle_unclaim_ok [OF env] handle_announce_ok [OF env]
      handle_request_ok [OF env] update_own_ok [OF env]) assumption+

section \<open>The worker\<close>

lemma gw_at_member: "bla_ok crc st \<Longrightarrow> g \<in> set (bla_backbone_hash st) \<Longrightarrow> gw_at st (bg_ref g) = Some g"
proof -
  assume ok: "bla_ok crc st" and g: "g \<in> set (bla_backbone_hash st)"
  from split_list [OF g] obtain us vs where s: "bla_backbone_hash st = us @ g # vs" by blast
  have d: "distinct (map bg_ref (bla_backbone_hash st))" using ok by (simp add: bla_ok_def gws_ok_def)
  have "bg_ref u \<noteq> bg_ref g" if "u \<in> set us" for u
    by (rule distinct_split [OF d [unfolded s]]) (simp add: that)
  then have "List.find (\<lambda>x. bg_ref x = bg_ref g) us = None" by (simp add: find_None_iff)
  then show ?thesis unfolding gw_at_def s by (simp add: list_find_append)
qed

text \<open>
  A loop over the gateways whose step looks at one gateway, may change or remove it and leaves
  the other gateways alone.
\<close>

lemma gateway_loop:
  assumes step: "\<And>g st. bla_ok crc st \<Longrightarrow> gw_at st (bg_ref g) = Some g \<Longrightarrow>
      bla_ok crc (F g st) \<and> (\<forall>r. r \<noteq> bg_ref g \<longrightarrow> gw_at (F g st) r = gw_at st r)"
    and "bla_ok crc st" "distinct (map bg_ref gs)" "\<forall>g \<in> set gs. gw_at st (bg_ref g) = Some g"
  shows "bla_ok crc (fold F gs st) \<and> (\<forall>r. r \<notin> bg_ref ` set gs \<longrightarrow> gw_at (fold F gs st) r = gw_at st r)"
  using assms(2-4)
proof (induction gs arbitrary: st)
  case (Cons g gs)
  then have s: "bla_ok crc (F g st) \<and> (\<forall>r. r \<noteq> bg_ref g \<longrightarrow> gw_at (F g st) r = gw_at st r)" by (intro step) simp_all
  moreover have "\<forall>h \<in> set gs. bg_ref h \<noteq> bg_ref g" using Cons.prems(2) by (auto simp: image_iff)
  ultimately show ?case using Cons.IH [of "F g st"] Cons.prems by simp
qed simp

lemma gateway_loop_all:
  assumes "\<And>g st. bla_ok crc st \<Longrightarrow> gw_at st (bg_ref g) = Some g \<Longrightarrow>
      bla_ok crc (F g st) \<and> (\<forall>r. r \<noteq> bg_ref g \<longrightarrow> gw_at (F g st) r = gw_at st r)"
    and "bla_ok crc st"
  shows "bla_ok crc (fold F (bla_backbone_hash st) st)"
  using gateway_loop [OF assms(1) assms(2), of "bla_backbone_hash st"] gw_at_member [OF assms(2)] assms(2)
  by (simp add: bla_ok_def gws_ok_def)

lemma remove_gw_ok:
  assumes ok: "bla_ok crc st" and g: "gw_at st (bg_ref g) = Some g"
  defines "st1 \<equiv> batadv_bla_del_backbone_claims (bg_ref g) (if bg_request_sent g \<noteq> 0 then st\<lparr>bla_num_requests := bla_num_requests st - 1\<rparr> else st)"
  defines "st2 \<equiv> st1\<lparr>bla_backbone_hash := filter (\<lambda>g'. bg_ref g' \<noteq> bg_ref g) (bla_backbone_hash st1)\<rparr>"
  shows "bla_ok crc st2 \<and> (\<forall>r. r \<noteq> bg_ref g \<longrightarrow> gw_at st2 r = gw_at st r)"
proof -
  let ?r = "bg_ref g"
  let ?gs = "filter (\<lambda>g'. bg_ref g' \<noteq> ?r) (bla_backbone_hash st)"
  let ?cs = "filter (\<lambda>c. cl_backbone_gw c \<noteq> ?r) (bla_claim_hash st)"
  have gs: "filter (\<lambda>g'. bg_ref g' \<noteq> ?r) (map (\<lambda>g. if bg_ref g = ?r then g\<lparr>bg_crc := 0\<rparr> else g) hs)
      = filter (\<lambda>g'. bg_ref g' \<noteq> ?r) hs" for hs
    by (induction hs) simp_all
  have num: "bla_num_requests (if bg_request_sent g \<noteq> 0 then st\<lparr>bla_num_requests := bla_num_requests st - 1\<rparr> else st)
      = bla_num_requests st - bg_request_sent g"
    using gw_flag [OF ok g] by auto
  from gw_split [OF ok g] obtain us vs where s: "bla_backbone_hash st = us @ g # vs"
    "\<forall>u \<in> set us \<union> set vs. bg_ref u \<noteq> ?r" by metis
  have rest: "?gs = us @ vs" using upd_split(2) [of us vs "\<lambda>u. bg_ref u = ?r" g] s by simp
  have fields: "bla_claim_hash st2 = ?cs" "bla_backbone_hash st2 = ?gs" "bla_next_ref st2 = bla_next_ref st"
    "bla_num_requests st2 = bla_num_requests st - bg_request_sent g"
    "bla_has_claim_hash st2" "bla_has_backbone_hash st2" "bla_out st2 = bla_out st"
    using ok num unfolding st2_def st1_def batadv_bla_del_backbone_claims_def upd_gw_def bla_ok_def
    by (simp_all add: gs)
  have "gws_ok crc (bla_next_ref st) ?cs ?gs"
    using ok unfolding bla_ok_def gws_ok_def by (auto simp: claim_sum_others distinct_map_filter)
  moreover have "claims_ok ?gs ?cs"
    using ok unfolding bla_ok_def claims_ok_def by (auto simp: distinct_map_filter)
  moreover have "open_requests ?gs = open_requests (bla_backbone_hash st) - bg_request_sent g"
    unfolding rest unfolding s(1) by (simp add: open_requests_def)
  ultimately have "bla_ok crc st2" using ok unfolding bla_ok_def fields(1-4,7) using fields(5,6) by simp
  moreover have "gw_at st2 r = gw_at st r" if "r \<noteq> ?r" for r
  proof -
    have "List.find (\<lambda>g. bg_ref g = r) (filter (\<lambda>g'. bg_ref g' \<noteq> ?r) hs) = List.find (\<lambda>g. bg_ref g = r) hs" for hs
      using that by (induction hs) auto
    then show ?thesis by (simp add: gw_at_def fields(2))
  qed
  ultimately show ?thesis by blast
qed

lemma purge_backbone_ok:
  assumes "bla_ok crc st"
  shows "bla_ok crc (batadv_bla_purge_backbone_gw env now st)"
proof -
  define F :: "batadv_bla_backbone_gw \<Rightarrow> batadv_priv_bla \<Rightarrow> batadv_priv_bla" where "F = (\<lambda>g st. if \<not> now \<and> \<not> bla_timed_out env (bg_lasttime g) BATADV_BLA_BACKBONE_TIMEOUT then st
          else
            let st = (if bg_request_sent g \<noteq> 0 then st\<lparr>bla_num_requests := bla_num_requests st - 1\<rparr> else st);
                st = batadv_bla_del_backbone_claims (bg_ref g) st
            in st\<lparr>bla_backbone_hash := filter (\<lambda>g'. bg_ref g' \<noteq> bg_ref g) (bla_backbone_hash st)\<rparr>)"
  have "bla_ok crc (F g st) \<and> (\<forall>r. r \<noteq> bg_ref g \<longrightarrow> gw_at (F g st) r = gw_at st r)"
    if "bla_ok crc st" "gw_at st (bg_ref g) = Some g" for g st
    using remove_gw_ok [OF that] that unfolding F_def Let_def by simp
  from gateway_loop_all [of crc F, OF this assms] have "bla_ok crc (fold F (bla_backbone_hash st) st)" .
  with assms show ?thesis by (simp add: batadv_bla_purge_backbone_gw_def F_def)
qed

lemma purge_claims_ok:
  assumes env: "bla_env_ok crc env" and ok: "bla_ok crc st" and now: "now \<or> me \<noteq> None"
  shows "bla_ok crc (batadv_bla_purge_claims env me now st)"
proof -
  define F :: "batadv_bla_claim \<Rightarrow> batadv_priv_bla \<Rightarrow> batadv_priv_bla" where "F = (\<lambda>c st. case gw_at st (cl_backbone_gw c) of
            None \<Rightarrow> bla_event Bla_Bad_Access st
          | Some g \<Rightarrow>
              if \<not> now \<and> me = None then bla_event Bla_Bad_Access st
              else if \<not> now \<and> me \<noteq> Some (bg_orig g) then st
              else if \<not> now \<and> \<not> bla_timed_out env (cl_lasttime c) BATADV_BLA_CLAIM_TIMEOUT then st
              else fst (batadv_handle_unclaim env me (bg_orig g) (cl_addr c) (cl_vid c) st))"
  have step: "bla_ok crc (F c s) \<and> (\<forall>r. gw_at (F c s) r = None \<longleftrightarrow> gw_at s r = None)"
    if "bla_ok crc s" "gw_at s (cl_backbone_gw c) \<noteq> None" for c s
    using handle_unclaim_ok [OF env that(1)] that now unfolding F_def by (auto split: option.split)
  have "bla_ok crc (fold F cs s)" if "bla_ok crc s" "\<forall>c \<in> set cs. gw_at s (cl_backbone_gw c) \<noteq> None" for cs s
    using that
  proof (induction cs arbitrary: s)
    case (Cons c cs)
    from Cons.prems have c: "bla_ok crc (F c s)" "\<forall>r. gw_at (F c s) r = None \<longleftrightarrow> gw_at s r = None"
      using step [of s c] by auto
    have "bla_ok crc (fold F cs (F c s))" by (rule Cons.IH) (use c Cons.prems in simp_all)
    then show ?case by simp
  qed simp
  moreover have "gw_at st (cl_backbone_gw c) \<noteq> None" if "c \<in> set (bla_claim_hash st)" for c
    using claim_owner [OF ok that] by (auto simp: gw_at_def find_None_iff)
  ultimately have "bla_ok crc (fold F (bla_claim_hash st) st)" using ok by blast
  then show ?thesis using ok unfolding batadv_bla_purge_claims_def F_def [symmetric] by simp
qed

lemma update_orig_ok:
  assumes env: "bla_env_ok crc env" and ok: "bla_ok crc st"
  shows "bla_ok crc (batadv_bla_update_orig_address env new oldif st)"
proof -
  define s1 where "s1 = st\<lparr>bla_group := ble_crc16 env 0 (be_bytes 6 new)\<rparr>"
  have ok1: "bla_ok crc s1" using ok by (simp add: s1_def bla_ok_def)
  define F :: "mac \<Rightarrow> batadv_bla_backbone_gw \<Rightarrow> batadv_priv_bla \<Rightarrow> batadv_priv_bla" where
    "F = (\<lambda>old g st. if bg_orig g \<noteq> old then st
       else batadv_bla_send_announce env (bg_ref g) (upd_gw (bg_ref g) (\<lambda>g. g\<lparr>bg_orig := new\<rparr>) st))"
  have step: "bla_ok crc (F old g s) \<and> (\<forall>r. r \<noteq> bg_ref g \<longrightarrow> gw_at (F old g s) r = gw_at s r)"
    if "bla_ok crc s" "gw_at s (bg_ref g) = Some g" for g s old
  proof -
    let ?u = "upd_gw (bg_ref g) (\<lambda>g. g\<lparr>bg_orig := new\<rparr>) s"
    have u: "gw_at ?u r = (if r = bg_ref g then Some (g\<lparr>bg_orig := new\<rparr>) else gw_at s r)" for r
      using that(2) by (simp add: gw_upd)
    have sent: "bla_sent ?u (batadv_bla_send_announce env (bg_ref g) ?u)"
      by (rule send_announce_sent [OF env trans [OF u if_P [OF refl]]])
    have "bla_ok crc ?u" by (rule upd_gw_ok_same [OF that]) simp_all
    then show ?thesis using that(1) bla_sent_ok [OF sent] bla_sent_gw [OF sent] u by (simp add: F_def)
  qed
  have "bla_ok crc (fold (F old) (bla_backbone_hash s1) s1)" for old
    by (rule gateway_loop_all [of crc "F old", OF step ok1])
  moreover have "bla_ok crc (batadv_bla_purge_backbone_gw env True (batadv_bla_purge_claims env None True s1))"
    by (intro purge_backbone_ok purge_claims_ok env ok1) simp
  ultimately show ?thesis
    using ok1 unfolding batadv_bla_update_orig_address_def Let_def s1_def [symmetric] F_def by (simp split: option.split)
qed

lemma gw_at_requests [simp]: "gw_at (st\<lparr>bla_num_requests := n\<rparr>) r = gw_at st r"
  by (simp add: gw_at_def)

lemma announce_own_step:
  assumes env: "bla_env_ok crc env" and ok: "bla_ok crc st" and g: "gw_at st (bg_ref g) = Some g"
  shows "bla_ok crc (announce_own env me g st) \<and> (\<forall>r. r \<noteq> bg_ref g \<longrightarrow> gw_at (announce_own env me g st) r = gw_at st r)"
    and "bg_orig g = me \<Longrightarrow> gw_at (announce_own env me g st) (bg_ref g) = Some
      (if bg_request_sent g = 0 then g\<lparr>bg_lasttime := bla_now env\<rparr>
       else g\<lparr>bg_lasttime := bla_now env, bg_wait_periods := bg_wait_periods g - 1,
         bg_request_sent := (if bg_wait_periods g = 1 then 0 else bg_request_sent g)\<rparr>)"
proof -
  let ?r = "bg_ref g"
  define u where "u = upd_gw ?r (\<lambda>g. g\<lparr>bg_lasttime := bla_now env\<rparr>) st"
  define s where "s = batadv_bla_send_announce env ?r u"
  define w where "w = upd_gw ?r (\<lambda>g. g\<lparr>bg_wait_periods := bg_wait_periods g - 1\<rparr>) s"
  define z where "z = (upd_gw ?r (\<lambda>g. g\<lparr>bg_request_sent := 0\<rparr>) w)\<lparr>bla_num_requests := bla_num_requests w - 1\<rparr>"
  have u: "bla_ok crc u" "gw_at u r = (if r = ?r then Some (g\<lparr>bg_lasttime := bla_now env\<rparr>) else gw_at st r)" for r
    unfolding u_def using g by (auto simp: gw_upd intro!: upd_gw_ok_same [OF ok g])
  have sent: "bla_sent u s" unfolding s_def by (rule send_announce_sent [OF env trans [OF u(2) if_P [OF refl]]])
  have s: "bla_ok crc s" "gw_at s r = (if r = ?r then Some (g\<lparr>bg_lasttime := bla_now env\<rparr>) else gw_at st r)" for r
    using bla_sent_ok [OF sent u(1)] bla_sent_gw [OF sent] u(2) by simp_all
  have w: "bla_ok crc w" "gw_at w r = (if r = ?r then Some (g\<lparr>bg_lasttime := bla_now env, bg_wait_periods := bg_wait_periods g - 1\<rparr>)
      else gw_at st r)" for r
    unfolding w_def using s(2) by (auto simp: gw_upd intro!: upd_gw_ok_same [OF s(1) trans [OF s(2) if_P [OF refl]]])
  have z1: "gw_at z r = (if r = ?r then Some (g\<lparr>bg_lasttime := bla_now env, bg_wait_periods := bg_wait_periods g - 1, bg_request_sent := 0\<rparr>)
      else gw_at st r)" for r
    unfolding z_def gw_at_requests using w(2) by (simp add: gw_upd)
  have z2: "bg_request_sent g \<noteq> 0 \<Longrightarrow> bla_ok crc z"
    unfolding z_def using gw_flag [OF ok g] by (intro upd_gw_ok [OF w(1) trans [OF w(2) if_P [OF refl]]]) auto
  have eq: "announce_own env me g st = (if bg_orig g \<noteq> me then st else if bg_request_sent g = 0 then s
      else if bg_wait_periods g - 1 \<noteq> 0 then w else z)"
    unfolding announce_own_def Let_def u_def [symmetric] s_def [symmetric] w_def [symmetric] upd_gw_requests z_def [symmetric] ..
  show "bla_ok crc (announce_own env me g st) \<and> (\<forall>r. r \<noteq> ?r \<longrightarrow> gw_at (announce_own env me g st) r = gw_at st r)"
    using ok s w z1 z2 by (simp add: eq)
  show "bg_orig g = me \<Longrightarrow> gw_at (announce_own env me g st) ?r = Some
      (if bg_request_sent g = 0 then g\<lparr>bg_lasttime := bla_now env\<rparr>
       else g\<lparr>bg_lasttime := bla_now env, bg_wait_periods := bg_wait_periods g - 1,
         bg_request_sent := (if bg_wait_periods g = 1 then 0 else bg_request_sent g)\<rparr>)"
    using s(2) w(2) z1 by (auto simp: eq)
qed

lemma periodic_work_ok:
  assumes env: "bla_env_ok crc env" and ok: "bla_ok crc st"
  shows "bla_ok crc (batadv_bla_periodic_work env st)"
proof (cases "bla_primary env")
  case None
  with ok show ?thesis by (simp add: batadv_bla_periodic_work_def)
next
  case (Some me)
  define s where "s = batadv_bla_purge_backbone_gw env False (batadv_bla_purge_claims env (Some me) False st)"
  have s: "bla_ok crc s" unfolding s_def by (intro purge_backbone_ok purge_claims_ok env ok) simp
  have "bla_ok crc (fold (announce_own env me) (bla_backbone_hash s) s)"
    by (rule gateway_loop_all [OF announce_own_step(1) [OF env] s])
  with s Some show ?thesis by (simp add: batadv_bla_periodic_work_def s_def [symmetric])
qed

section \<open>Frames between the mesh and the LAN\<close>

lemma claim_gw: "bla_ok crc st \<Longrightarrow> batadv_claim_hash_find st a v = Some c \<Longrightarrow> \<exists>g. gw_at st (cl_backbone_gw c) = Some g \<and> bg_vid g = v"
proof -
  assume ok: "bla_ok crc st" and c: "batadv_claim_hash_find st a v = Some c"
  then have *: "c \<in> set (bla_claim_hash st)" "cl_vid c = v"
    by (auto simp: batadv_claim_hash_find_def find_Some_iff split: if_splits)
  obtain g where "g \<in> set (bla_backbone_hash st)" "bg_ref g = cl_backbone_gw c" "bg_vid g = v"
    using claim_owner [OF ok *(1)] *(2) by (auto simp: image_iff)
  with gw_at_member [OF ok] show ?thesis by metis
qed

lemma touch_claim_ok:
  assumes "bla_ok crc st"
  shows "bla_ok crc (upd_claim a v (\<lambda>c. c\<lparr>cl_lasttime := t\<rparr>) st)"
proof -
  let ?f = "\<lambda>c. if cl_addr c = a \<and> cl_vid c = v then c\<lparr>cl_lasttime := t\<rparr> else c"
  have "map claim_key (map ?f cs) = map claim_key cs" "claim_sum crc r (map ?f cs) = claim_sum crc r cs"
    "(\<forall>c \<in> set (map ?f cs). (cl_backbone_gw c, cl_vid c) \<in> G) = (\<forall>c \<in> set cs. (cl_backbone_gw c, cl_vid c) \<in> G)" for cs r G
    by (induction cs) (simp_all add: claim_key_def)
  with assms show ?thesis unfolding bla_ok_def gws_ok_def claims_ok_def by (simp add: upd_claim_def del: map_map set_map)
qed

lemma rx_ok:
  assumes env: "bla_env_ok crc env" and ok: "bla_ok crc st"
  shows "bla_ok crc (fst (batadv_bla_rx env skb vid is_bcast st))"
proof -
  note own = update_own_ok [OF env] and claim = handle_claim_ok [OF env ok]
  show ?thesis
    unfolding batadv_bla_rx_def Let_def
    using ok own [OF ok] own [OF claim] own [OF touch_claim_ok [OF ok]] claim_gw [OF ok]
    by (fastforce split: option.split)
qed

lemma tx_ok:
  assumes env: "bla_env_ok crc env" and ok: "bla_ok crc st"
  shows "bla_ok crc (fst (batadv_bla_tx env skb vid st))"
proof (cases "bla_primary env")
  case None
  with ok show ?thesis by (simp add: batadv_bla_tx_def)
next
  case (Some me)
  obtain s done' where p: "batadv_bla_process_claim env me skb st = (s, done')" by (cases "batadv_bla_process_claim env me skb st")
  with process_claim_ok [OF env ok, of me skb] have s: "bla_ok crc s" by simp
  note own = update_own_ok [OF env]
  show ?thesis
    unfolding batadv_bla_tx_def Let_def Some option.case p prod.case
    using s own [OF ok] own [OF s] own [OF handle_unclaim_ok(1) [OF env s]] claim_gw [OF s]
    by (fastforce split: option.split bool.split)
qed

lemma duplist_ok:
  "bla_ok crc (fst (batadv_bla_check_bcast_duplist env skb st)) = bla_ok crc st"
  unfolding batadv_bla_check_bcast_duplist_def Let_def by (simp add: bla_ok_def)

section \<open>Runs\<close>

inductive bla_step :: "(u16 \<Rightarrow> u8 list \<Rightarrow> u16) \<Rightarrow> batadv_priv_bla \<Rightarrow> batadv_priv_bla \<Rightarrow> bool" for crc where
  rx: "bla_env_ok crc env \<Longrightarrow> bla_step crc st (fst (batadv_bla_rx env skb vid is_bcast st))"
| tx: "bla_env_ok crc env \<Longrightarrow> bla_step crc st (fst (batadv_bla_tx env skb vid st))"
| work: "bla_env_ok crc env \<Longrightarrow> bla_step crc st (batadv_bla_periodic_work env st)"
| orig: "bla_env_ok crc env \<Longrightarrow> bla_step crc st (batadv_bla_update_orig_address env new_addr oldif st)"
| status: "bla_env_ok crc env \<Longrightarrow> bla_step crc st (batadv_bla_status_update env st)"
| duplist: "bla_env_ok crc env \<Longrightarrow> bla_step crc st (fst (batadv_bla_check_bcast_duplist env skb st))"

text \<open>The memory of a new node is zero.\<close>

definition bla_zero :: "batadv_priv_tt \<Rightarrow> batadv_priv_bla" where
  "bla_zero tt = \<lparr>bla_num_requests = 0, bla_has_claim_hash = False, bla_has_backbone_hash = False, bla_claim_hash = [],
     bla_backbone_hash = [], bla_next_ref = 0, bla_bcast_duplist = replicate 16 \<lparr>de_orig = 0, de_crc = 0, de_entrytime = 0\<rparr>,
     bla_bcast_duplist_curr = 0, bla_group = 0, bla_tt = tt, bla_out = []\<rparr>"

definition bla_initial :: "batadv_priv_bla \<Rightarrow> bool" where
  "bla_initial st \<longleftrightarrow> (\<exists>env tt. batadv_bla_init env (bla_zero tt) = (st, None))"

lemma bla_initial_ok: "bla_initial st \<Longrightarrow> bla_ok crc st"
  by (auto simp: bla_initial_def batadv_bla_init_def bla_zero_def Let_def bla_ok_def gws_ok_def claims_ok_def open_requests_def
      split: if_splits)

lemma bla_step_ok: "bla_step crc st st' \<Longrightarrow> bla_ok crc st \<Longrightarrow> bla_ok crc st'"
proof (induction rule: bla_step.induct)
  case (status env st)
  then show ?case by (simp add: batadv_bla_status_update_def update_orig_ok split: option.split)
qed (simp_all add: rx_ok tx_ok periodic_work_ok update_orig_ok duplist_ok)

interpretation bla_system: transition_system bla_initial "bla_step crc" "bla_ok crc"
  by unfold_locales (auto intro: bla_initial_ok bla_step_ok)

lemma open_requests_count:
  "(\<forall>g \<in> set gs. bg_request_sent g = 0 \<or> bg_request_sent g = 1) \<Longrightarrow>
    open_requests gs = int (length (filter (\<lambda>g. bg_request_sent g \<noteq> 0) gs))"
  by (induction gs) (auto simp: open_requests_def)


text \<open>
  A node with address 7 and the initial tables, on a clock by which every timeout takes 100 ticks. A frame of client 17 comes from the mesh, then the
  claim of gateway 5 for client 18 from the LAN.
\<close>

definition demo_arp :: "mac \<Rightarrow> mac \<Rightarrow> u8 list option" where
  "demo_arp me dst = Some (replicate 6 0xFF @ be_bytes 6 me @ [8, 6, 0, 1, 8, 0, 6, 4, 0, 2] @ be_bytes 6 me @ [0, 0, 0, 0]
     @ be_bytes 6 dst @ [0, 0, 0, 0])"

definition demo_crc16 :: "u16 \<Rightarrow> u8 list \<Rightarrow> u16" where
  "demo_crc16 c bs = c + sum_list (map ucast bs)"

definition demo_bla :: bla_env where
  "demo_bla = \<lparr>ble_on = True, ble_alloc_gw = (\<lambda>_ _. True), ble_alloc_claim = (\<lambda>_ _. True), ble_alloc_claim_hash = True,
     ble_alloc_backbone_hash = True, ble_choose_gw = (\<lambda>_ _. 0), ble_choose_claim = (\<lambda>_ _. 0), ble_crc16 = demo_crc16,
     ble_arp_reply = demo_arp, ble_insert_tag = (\<lambda>skb tag. Some (take 12 skb @ [0x81, 0] @ be_bytes 2 tag @ drop 12 skb)),
     ble_tt = own_env\<lparr>te_m2j := (\<lambda>_. 100), te_priv := (te_priv own_env)\<lparr>bp_primary_if := Some 0\<rparr>\<rparr>, ble_rt = demo_rt_env\<rparr>"

definition bla_new :: batadv_priv_bla where
  "bla_new = fst (batadv_bla_init demo_bla (bla_zero tt_priv_init))"

definition bla_mesh_frame :: "u8 list" where
  "bla_mesh_frame = replicate 6 0xFF @ be_bytes 6 (17 :: mac) @ [8, 0, 1, 2, 3, 4]"

definition bla_claim_frame :: "u8 list" where
  "bla_claim_frame = set_mac 6 18 (the (demo_arp 5 (claim_dst 0 7)))"

definition bla_two :: batadv_priv_bla where
  "bla_two = fst (batadv_bla_tx demo_bla bla_claim_frame 0 (fst (batadv_bla_rx demo_bla bla_mesh_frame 0 True bla_new)))"

lemma bla_new_initial: "bla_initial bla_new"
proof -
  have "snd (batadv_bla_init demo_bla (bla_zero tt_priv_init)) = None" by code_simp
  then show ?thesis unfolding bla_initial_def bla_new_def by (metis prod.collapse)
qed

lemma bla_demo_ok: "bla_env_ok demo_crc16 demo_bla"
  by (simp add: bla_env_ok_def demo_bla_def)

lemma bla_two_reached: "(bla_step demo_crc16)\<^sup>*\<^sup>* bla_new bla_two"
  unfolding bla_two_def
  by (rule rtranclp.rtrancl_into_rtrancl [OF rtranclp.rtrancl_into_rtrancl [OF rtranclp.rtrancl_refl]])
    (rule bla_step.rx bla_step.tx; rule bla_demo_ok)+


end
