(* ===== verification/Bla_Frames.thy ===== *)
theory Bla_Frames
  imports Bla_Run
begin

text \<open>
  The bytes of the frames by which gateways talk: what one of them sends is what another one reads.
\<close>

section \<open>Layout\<close>

text \<open>
  The ARP reply that \<^verbatim>\<open>arp_create\<close> makes for IPv4 on Ethernet, and the frame with a VLAN tag behind the
  addresses, as \<^verbatim>\<open>vlan_insert_tag\<close> makes it.
\<close>

definition arp_reply :: "mac \<Rightarrow> mac \<Rightarrow> u8 list" where
  "arp_reply me hw_dst = be_bytes 6 (-1 :: mac) @ be_bytes 6 me @ [8, 6, 0, 1, 8, 0, 6, 4, 0, 2] @ be_bytes 6 me @ [0, 0, 0, 0]
     @ be_bytes 6 hw_dst @ [0, 0, 0, 0]"

definition vlan_tagged :: "u8 list \<Rightarrow> u16 \<Rightarrow> u8 list" where
  "vlan_tagged skb tag = take 12 skb @ [0x81, 0] @ be_bytes 2 tag @ drop 12 skb"

definition bla_layout :: "bla_env \<Rightarrow> bool" where
  "bla_layout env \<longleftrightarrow> (\<forall>me dst. ble_arp_reply env me dst = Some (arp_reply me dst))
     \<and> (\<forall>skb tag. ble_insert_tag env skb tag = Some (vlan_tagged skb tag))"

text \<open>A VLAN number as \<^verbatim>\<open>batadv_get_vid\<close> makes them.\<close>

definition vid_ok :: "u16 \<Rightarrow> bool" where
  "vid_ok vid \<longleftrightarrow> vid = 0 \<or> vid = (vid AND 0x0FFF) OR 0x8000"

definition vid_tag :: "u16 \<Rightarrow> u8 list" where
  "vid_tag vid = (if vid AND 0x8000 = 0 then [] else [0x81, 0] @ be_bytes 2 (vid AND 0x0FFF))"

definition claim_frame :: "mac \<Rightarrow> mac \<Rightarrow> mac \<Rightarrow> u8 \<Rightarrow> u16 \<Rightarrow> u16 \<Rightarrow> u8 list" where
  "claim_frame dst src hw ty grp vid = be_bytes 6 dst @ be_bytes 6 src @ vid_tag vid @ [8, 6, 0, 1, 8, 0, 6, 4, 0, 2]
     @ be_bytes 6 hw @ [0, 0, 0, 0] @ [0xFF, 0x43, 0x05, ty] @ be_bytes 2 grp @ [0, 0, 0, 0]"

lemma be_bytes_2: "be_bytes 2 w = [ucast (drop_bit 8 w), ucast (w :: 'a::len word)]"
  by (simp add: numeral_2_eq_2)

lemma be_bytes_be_word: "length bs \<le> 6 \<Longrightarrow> be_bytes (length bs) (be_word bs :: mac) = bs"
proof (induction bs rule: rev_induct)
  case (snoc b bs)
  have small: "be_word bs = take_bit 40 (be_word bs :: mac)"
  proof -
    have "(be_word bs :: mac) = take_bit (8 * length bs) (be_word bs)"
      using be_word_be_bytes [of "length bs" "be_word bs :: mac"] snoc by simp
    moreover have "8 * length bs \<le> 40" using snoc.prems by simp
    ultimately show ?thesis by (metis min.absorb2 take_bit_take_bit)
  qed
  have hi: "drop_bit 8 (push_bit 8 (be_word bs) OR ucast b) = (be_word bs :: mac)"
  proof (rule bit_word_eqI)
    fix n :: nat
    have "bit (be_word bs :: mac) n \<Longrightarrow> n < 40" by (subst (asm) small) (simp add: bit_take_bit_iff)
    moreover have "\<not> bit b (8 + n)" using bit_imp_le_length [of b "8 + n"] by auto
    ultimately show "bit (drop_bit 8 (push_bit 8 (be_word bs :: mac) OR ucast b)) n = bit (be_word bs :: mac) n"
      by (auto simp: bit_simps)
  qed
  have lo: "(ucast (push_bit 8 (be_word bs :: mac) OR ucast b) :: u8) = b"
    by (rule bit_word_eqI) (auto simp: bit_simps)
  have "be_bytes (length bs) (be_word bs :: mac) = bs" using snoc by simp
  then show ?case unfolding be_word_snoc length_append list.size add_0_right add_Suc_right be_bytes.simps hi lo by simp
qed simp

lemma be_bytes_claim_dst: "be_bytes 6 (claim_dst ty grp) = [0xFF, 0x43, 0x05, ty] @ be_bytes 2 grp"
  using be_bytes_be_word [of "[0xFF, 0x43, 0x05, ty] @ be_bytes 2 grp"] by (simp add: claim_dst_def)

definition announce_mac :: "u16 \<Rightarrow> mac" where
  "announce_mac crc = be_word ([0x43, 0x05, 0x43, 0x05] @ be_bytes 2 crc)"

lemma announce_mac_bytes: "be_bytes 6 (announce_mac crc) = [0x43, 0x05, 0x43, 0x05] @ be_bytes 2 crc"
  using be_bytes_be_word [of "[0x43, 0x05, 0x43, 0x05] @ be_bytes 2 crc"] by (simp add: announce_mac_def)

lemma length_vid_tag: "length (vid_tag vid) = (if vid AND 0x8000 = 0 then 0 else 4)"
  by (simp add: vid_tag_def)

lemma arp_reply_mac:
  "set_mac 6 addr (arp_reply me (claim_dst ty grp)) = claim_frame (-1) addr me ty grp 0"
  "set_mac 22 addr (arp_reply me (claim_dst ty grp)) = claim_frame (-1) me addr ty grp 0"
  "set_mac 0 dst (claim_frame (-1) me addr ty grp 0) = claim_frame dst me addr ty grp 0"
  by (simp_all add: set_mac_def wr_bytes_def arp_reply_def claim_frame_def be_bytes_claim_dst vid_tag_def)

lemma claim_frame_tagged:
  "vid AND 0x8000 \<noteq> 0 \<Longrightarrow> vlan_tagged (claim_frame dst src hw ty grp 0) (vid AND 0x0FFF) = claim_frame dst src hw ty grp vid"
  by (simp add: vlan_tagged_def claim_frame_def vid_tag_def)

section \<open>Sending\<close>

definition sent_frame :: "mac \<Rightarrow> mac \<Rightarrow> u8 \<Rightarrow> u16 \<Rightarrow> u16 \<Rightarrow> u8 list" where
  "sent_frame me addr ty grp vid =
     (if ty = 0 then claim_frame (-1) addr me ty grp vid
      else if ty = 3 then claim_frame addr me addr ty grp vid
      else claim_frame (-1) me addr ty grp vid)"

lemma send_claim_frame:
  assumes "bla_layout env" "bla_primary env = Some me" "ty \<in> {0, 1, 2, 3}" "vid_ok vid"
  shows "batadv_bla_send_claim env addr vid ty st = bla_event (Bla_Frame (sent_frame me addr ty (bla_group st) vid)) st"
proof -
  have untagged: "vid = 0" if "vid AND 0x8000 = 0"
  proof (rule ccontr)
    assume "vid \<noteq> 0"
    then have "vid = (vid AND 0x0FFF) OR 0x8000" using assms(4) by (simp add: vid_ok_def)
    then have "bit vid 15 = bit ((vid AND 0x0FFF) OR 0x8000) 15" by simp
    moreover have "\<not> bit (vid AND 0x8000) 15" unfolding that by simp
    ultimately show False by (simp add: bit_simps)
  qed
  consider "ty = 0" | "ty = 1" | "ty = 2" | "ty = 3" using assms(3) by auto
  then show ?thesis
    using assms(1,2) untagged
    by cases (auto simp: batadv_bla_send_claim_def Let_def bla_layout_def arp_reply_mac sent_frame_def claim_frame_tagged)
qed

section \<open>Receiving\<close>

lemma frame_macs:
  "mac_at (claim_frame dst src hw ty grp vid) 0 = dst" "mac_at (claim_frame dst src hw ty grp vid) 6 = src"
  by (simp_all add: mac_at_def claim_frame_def)

lemma frame_vid:
  assumes "vid_ok vid" "\<forall>n. re_ok env (Site_pull n)"
  shows "batadv_get_vid env (claim_frame dst src hw ty grp vid) 0 = vid"
proof (cases "vid = 0")
  case True
  then show ?thesis by (simp add: batadv_get_vid_def claim_frame_def vid_tag_def be_word_def)
next
  case False
  then have v: "vid = (vid AND 0x0FFF) OR 0x8000" using assms(1) by (simp add: vid_ok_def)
  have tagged: "vid AND 0x8000 \<noteq> 0"
  proof
    assume none: "vid AND 0x8000 = 0"
    have "bit vid 15 = bit ((vid AND 0x0FFF) OR 0x8000) 15" by (simp only: v [symmetric])
    moreover have "\<not> bit (vid AND 0x8000) 15" unfolding none by simp
    ultimately show False by (simp add: bit_simps)
  qed
  show ?thesis
    using tagged assms(2) v by (simp add: batadv_get_vid_def claim_frame_def vid_tag_def be_word_def [of "[129, 0]"] pull_def)
qed

text \<open>What is left of \<^verbatim>\<open>batadv_bla_process_claim\<close> once the frame has been taken apart.\<close>

definition claim_received :: "bla_env \<Rightarrow> mac \<Rightarrow> mac \<Rightarrow> mac \<Rightarrow> mac \<Rightarrow> u8 \<Rightarrow> u16 \<Rightarrow> batadv_priv_bla \<Rightarrow> batadv_priv_bla" where
  "claim_received env me dst src hw ty vid st =
     (let st = batadv_bla_update_own_backbone_gw env me vid st in
      if ty = 0 then fst (batadv_handle_claim env me hw src vid st)
      else if ty = 1 then fst (batadv_handle_unclaim env (Some me) src hw vid st)
      else if ty = 2 then fst (batadv_handle_announce env hw src vid st)
      else fst (batadv_handle_request env me hw dst vid st))"

lemma process_claim_frame:
  assumes "vid_ok vid" "\<forall>n. re_ok (ble_rt env) (Site_pull n)" "ty \<in> {0, 1, 2, 3}"
    and other: "(if ty = 0 then hw else src) \<noteq> me" and grp: "bla_group st = grp"
  shows "batadv_bla_process_claim env me (claim_frame dst src hw ty grp vid) st
      = (claim_received env me dst src hw ty vid st, True)"
proof -
  let ?f = "claim_frame dst src hw ty grp vid"
  let ?d = "if vid AND 0x8000 = 0 then 0 else 1 :: nat"
  have bytes: "drop (14 + 4 * ?d) ?f = [0, 1, 8, 0, 6, 4, 0, 2] @ be_bytes 6 hw @ [0, 0, 0, 0] @ [0xFF, 0x43, 0x05, ty]
      @ be_bytes 2 grp @ [0, 0, 0, 0]"
    by (simp add: claim_frame_def vid_tag_def)
  have len: "length ?f = 42 + 4 * ?d" by (simp add: claim_frame_def vid_tag_def)
  have at: "drop (14 + 4 * ?d + k) ?f = drop k ([0, 1, 8, 0, 6, 4, 0, 2] @ be_bytes 6 hw @ [0, 0, 0, 0] @ [0xFF, 0x43, 0x05, ty]
      @ be_bytes 2 grp @ [0, 0, 0, 0])" for k
    unfolding bytes [symmetric] drop_drop by (simp add: add.commute)
  have nth: "?f ! (14 + 4 * ?d + k) = ([0, 1, 8, 0, 6, 4, 0, 2] @ be_bytes 6 hw @ [0, 0, 0, 0] @ [0xFF, 0x43, 0x05, ty]
      @ be_bytes 2 grp @ [0, 0, 0, 0]) ! k" if "k < 28" for k
    using that unfolding bytes [symmetric] by (simp add: len)
  have headers: "(if batadv_get_vid (ble_rt env) ?f 0 AND 0x8000 = 0 then Some (be_word (take 2 (drop 12 ?f)), 0)
      else vlan_headers (drop 14 ?f)) = Some (0x0806, ?d)"
    unfolding frame_vid [OF assms(1,2)]
    by (simp add: claim_frame_def vid_tag_def be_bytes_2 be_word_def)
  have f1: "mac_at ?f (14 + 4 * ?d + 8) = hw" unfolding mac_at_def at by simp
  have f2: "be_word (take 2 (drop (14 + 4 * ?d) ?f)) = (1 :: u16)" unfolding bytes by (simp add: be_word_def)
  have f3: "be_word (take 2 (drop (14 + 4 * ?d + 2) ?f)) = (0x0800 :: u16)" unfolding at by (simp add: be_word_def)
  have f4: "?f ! (14 + 4 * ?d + 4) = 6" and f5: "?f ! (14 + 4 * ?d + 5) = 4" by (subst nth; simp)+
  have f6: "take 3 (drop (14 + 4 * ?d + 18) ?f) = [0xFF, 0x43, 0x05]" unfolding at by simp
  have pos: "14 + 4 * ?d + 18 + 3 = 14 + 4 * ?d + 21" "14 + 4 * ?d + 18 + 4 = 14 + 4 * ?d + 22" by simp_all
  have f7: "?f ! (14 + 4 * ?d + 18 + 3) = ty" unfolding pos by (subst nth) (simp_all add: nth_append)
  have f8: "be_word (take 2 (drop (14 + 4 * ?d + 18 + 4) ?f)) = grp" unfolding pos at by simp
  note fields = f1 f2 f3 f4 f5 f6 f7 f8
  have pulled: "pull (ble_rt env) ?f (14 + 4 * ?d + 28)" using assms(2) by (simp add: pull_def len)
  have depth: "\<not> 1 < ?d" by simp
  have check: "batadv_check_claim_group env me hw ty grp src st = (st, Same_Group)"
    using assms(3) other grp by (auto simp: batadv_check_claim_group_def)
  show ?thesis
    unfolding batadv_bla_process_claim_def Let_def
    unfolding headers option.case prod.case
    unfolding frame_vid [OF assms(1,2)] fields frame_macs check
    using pulled depth assms(3) by (auto simp: claim_received_def Let_def)
qed

end
