(* ===== verification/Bla_Sync.thy ===== *)
theory Bla_Sync
  imports Bla_Frames
begin

text \<open>
  Two gateways in one LAN: after the answer to a request the one knows all claims of the other.
\<close>

section \<open>Gateways under their key\<close>

text \<open>A write that leaves the key of a gateway, and the flag of its request, as they are.\<close>

definition keeps_gw :: "(batadv_bla_backbone_gw \<Rightarrow> batadv_bla_backbone_gw) \<Rightarrow> bool" where
  "keeps_gw f \<longleftrightarrow> (\<forall>g. bg_ref (f g) = bg_ref g \<and> bg_bucket (f g) = bg_bucket g \<and> bg_orig (f g) = bg_orig g \<and> bg_vid (f g) = bg_vid g)"

lemma hash_find_map:
  assumes "keeps_gw f" "bla_backbone_hash st' = map f (bla_backbone_hash st)" "bla_has_backbone_hash st' = bla_has_backbone_hash st"
  shows "batadv_backbone_hash_find env st' a v = map_option f (batadv_backbone_hash_find env st a v)"
proof -
  have "List.find (\<lambda>g. bg_bucket g = k \<and> bg_orig g = a \<and> bg_vid g = v) (map f gs)
      = map_option f (List.find (\<lambda>g. bg_bucket g = k \<and> bg_orig g = a \<and> bg_vid g = v) gs)" for gs k
    using assms(1) by (induction gs) (simp_all add: keeps_gw_def)
  with assms(2,3) show ?thesis by (simp add: batadv_backbone_hash_find_def)
qed

lemma hash_find_cong:
  "bla_backbone_hash st' = bla_backbone_hash st \<Longrightarrow> bla_has_backbone_hash st' = bla_has_backbone_hash st \<Longrightarrow>
    batadv_backbone_hash_find env st' a v = batadv_backbone_hash_find env st a v"
  by (simp add: batadv_backbone_hash_find_def)

lemma hash_find_upd:
  assumes "\<And>g. bg_ref (f g) = bg_ref g \<and> bg_bucket (f g) = bg_bucket g \<and> bg_orig (f g) = bg_orig g \<and> bg_vid (f g) = bg_vid g"
  shows "batadv_backbone_hash_find env (upd_gw r f st) a v
    = map_option (\<lambda>g. if bg_ref g = r then f g else g) (batadv_backbone_hash_find env st a v)"
  by (rule hash_find_map) (use assms in \<open>simp_all add: keeps_gw_def upd_gw_def\<close>)

text \<open>\<open>st'\<close> differs from \<open>st\<close> in its gateways by a write of that kind, and maybe in its claims.\<close>

definition gws_written :: "batadv_priv_bla \<Rightarrow> batadv_priv_bla \<Rightarrow> bool" where
  "gws_written st st' \<longleftrightarrow> (\<exists>f. keeps_gw f \<and> (\<forall>g. bg_request_sent (f g) = bg_request_sent g)
     \<and> bla_backbone_hash st' = map f (bla_backbone_hash st))
     \<and> bla_has_backbone_hash st' = bla_has_backbone_hash st \<and> bla_num_requests st' = bla_num_requests st
     \<and> bla_group st' = bla_group st \<and> bla_out st' = bla_out st"

lemma gws_written_refl [simp]: "gws_written st st"
  unfolding gws_written_def by (auto simp: keeps_gw_def intro: exI [of _ "\<lambda>g. g"])

lemma gws_written_trans:
  assumes "gws_written a b" "gws_written b c"
  shows "gws_written a c"
proof -
  from assms obtain f g where fg: "keeps_gw f" "\<forall>x. bg_request_sent (f x) = bg_request_sent x" "bla_backbone_hash b = map f (bla_backbone_hash a)"
    "keeps_gw g" "\<forall>x. bg_request_sent (g x) = bg_request_sent x" "bla_backbone_hash c = map g (bla_backbone_hash b)"
    unfolding gws_written_def by blast
  then have "keeps_gw (g \<circ> f) \<and> (\<forall>x. bg_request_sent ((g \<circ> f) x) = bg_request_sent x) \<and> bla_backbone_hash c = map (g \<circ> f) (bla_backbone_hash a)"
    by (simp add: keeps_gw_def)
  with assms show ?thesis unfolding gws_written_def by (intro conjI) (blast | simp)+
qed

lemma upd_gw_written:
  assumes "\<And>g. bg_ref (f g) = bg_ref g \<and> bg_bucket (f g) = bg_bucket g \<and> bg_orig (f g) = bg_orig g \<and> bg_vid (f g) = bg_vid g
    \<and> bg_request_sent (f g) = bg_request_sent g"
  shows "gws_written st (upd_gw r f st)"
  unfolding gws_written_def
  by (intro conjI exI [of _ "\<lambda>g. if bg_ref g = r then f g else g"]) (use assms in \<open>simp_all add: keeps_gw_def upd_gw_def\<close>)

lemma claims_written:
  "gws_written st (st\<lparr>bla_claim_hash := cs\<rparr>)" "gws_written st (upd_claim a v h st)"
  unfolding gws_written_def upd_claim_def by (auto simp: keeps_gw_def intro: exI [of _ "\<lambda>g. g"])

lemma gws_written_find:
  assumes "gws_written st st'" "batadv_backbone_hash_find env st a v = Some g"
  obtains g' where "batadv_backbone_hash_find env st' a v = Some g'" "bg_ref g' = bg_ref g" "bg_request_sent g' = bg_request_sent g"
proof -
  from assms(1) obtain f where f: "keeps_gw f" "\<forall>g. bg_request_sent (f g) = bg_request_sent g"
    "bla_backbone_hash st' = map f (bla_backbone_hash st)" "bla_has_backbone_hash st' = bla_has_backbone_hash st"
    unfolding gws_written_def by blast
  from hash_find_map [OF f(1,3,4)] assms(2) have "batadv_backbone_hash_find env st' a v = Some (f g)" by simp
  then show ?thesis by (rule that) (use f(1,2) in \<open>simp_all add: keeps_gw_def\<close>)
qed

section \<open>The claims of a gateway\<close>

definition claimed_by :: "nat \<Rightarrow> batadv_priv_bla \<Rightarrow> mac set" where
  "claimed_by r st = set (map cl_addr (filter (\<lambda>c. cl_backbone_gw c = r) (bla_claim_hash st)))"

lemma claimed_by_upd_gw [simp]: "claimed_by r (upd_gw r' f st) = claimed_by r st"
  by (simp add: claimed_by_def)

lemma claimed_by_touch [simp]: "claimed_by r (upd_claim a v (\<lambda>c. c\<lparr>cl_lasttime := t\<rparr>) st) = claimed_by r st"
proof -
  have "set (map cl_addr (filter (\<lambda>c. cl_backbone_gw c = r)
      (map (\<lambda>c. if cl_addr c = a \<and> cl_vid c = v then c\<lparr>cl_lasttime := t\<rparr> else c) cs)))
    = set (map cl_addr (filter (\<lambda>c. cl_backbone_gw c = r) cs))" for cs
    by (induction cs) simp_all
  then show ?thesis unfolding claimed_by_def upd_claim_def by simp
qed

lemma claimed_by_reown:
  assumes "c \<in> set (bla_claim_hash st)" "cl_addr c = a" "cl_vid c = v"
  shows "claimed_by r (upd_claim a v (\<lambda>c. c\<lparr>cl_backbone_gw := r\<rparr>) st) = insert a (claimed_by r st)"
proof -
  have m: "set (map cl_addr (filter (\<lambda>c. cl_backbone_gw c = r)
      (map (\<lambda>c. if cl_addr c = a \<and> cl_vid c = v then c\<lparr>cl_backbone_gw := r\<rparr> else c) cs)))
    = (if \<exists>c \<in> set cs. cl_addr c = a \<and> cl_vid c = v then insert a (set (map cl_addr (filter (\<lambda>c. cl_backbone_gw c = r) cs)))
       else set (map cl_addr (filter (\<lambda>c. cl_backbone_gw c = r) cs)))" for cs
    by (induction cs) (auto simp del: set_map)
  have ex: "\<exists>c \<in> set (bla_claim_hash st). cl_addr c = a \<and> cl_vid c = v" using assms by blast
  show ?thesis unfolding claimed_by_def upd_claim_def using trans [OF m if_P [OF ex]] by (simp del: set_map set_filter)
qed

lemma owned_vid:
  assumes "bla_ok crc st" "c \<in> set (bla_claim_hash st)" "gw_at st (cl_backbone_gw c) = Some g"
  shows "cl_vid c = bg_vid g"
proof -
  from claim_owner [OF assms(1,2)] obtain h where h: "h \<in> set (bla_backbone_hash st)" "bg_ref h = cl_backbone_gw c" "bg_vid h = cl_vid c"
    by (auto simp: image_iff)
  with gw_at_member [OF assms(1) h(1)] assms(3) show ?thesis by simp
qed

text \<open>The sum of the checksums only depends on the clients.\<close>

lemma claim_sum_clients:
  assumes "distinct (map claim_key cs)" "distinct (map claim_key cs')"
    and "\<forall>c \<in> set cs. cl_backbone_gw c = r \<longrightarrow> cl_vid c = v" "\<forall>c \<in> set cs'. cl_backbone_gw c = r' \<longrightarrow> cl_vid c = v'"
    and "set (map cl_addr (filter (\<lambda>c. cl_backbone_gw c = r) cs)) = set (map cl_addr (filter (\<lambda>c. cl_backbone_gw c = r') cs'))"
  shows "claim_sum crc r cs = claim_sum crc r' cs'"
proof -
  let ?h = "\<lambda>a x. crc 0 (be_bytes 6 a) XOR x"
  let ?as = "\<lambda>r cs. map cl_addr (filter (\<lambda>c. cl_backbone_gw c = r) cs)"
  have sum: "claim_sum crc r cs = foldr ?h (?as r cs) 0" for r cs
    by (induction cs) simp_all
  have dist: "distinct (?as r cs)" if "distinct (map claim_key cs)" "\<forall>c \<in> set cs. cl_backbone_gw c = r \<longrightarrow> cl_vid c = v" for r cs v
    using that by (induction cs) (auto simp: claim_key_def)
  have "mset (?as r cs) = mset (?as r' cs')"
    using set_eq_iff_mset_eq_distinct [OF dist [OF assms(1,3)] dist [OF assms(2,4)]] assms(5) by blast
  then have "fold ?h (?as r cs) = fold ?h (?as r' cs')"
    by (rule fold_multiset_equiv [rotated]) (simp add: fun_eq_iff xor.left_commute)
  moreover have fr: "foldr ?h as = fold ?h as" for as by (rule foldr_fold) (simp add: fun_eq_iff xor.left_commute)
  ultimately show ?thesis unfolding sum fr by simp
qed

lemma add_claim_written: "gws_written st (batadv_bla_add_claim env addr vid r st)"
proof -
  have set_new: "gws_written s (upd_gw r (\<lambda>g. (crc_toggle env addr g)\<lparr>bg_lasttime := bla_now env\<rparr>)
      (upd_claim addr vid (\<lambda>c. c\<lparr>cl_backbone_gw := r\<rparr>) s))" for s
    by (rule gws_written_trans [OF claims_written(2) upd_gw_written]) (simp add: crc_toggle_def)
  have toggled: "gws_written s (upd_gw o' (crc_toggle env addr) s)" for s o'
    by (rule upd_gw_written) (simp add: crc_toggle_def)
  show ?thesis
    unfolding batadv_bla_add_claim_def Let_def
    by (auto split: option.split intro: gws_written_trans [OF claims_written(1) set_new] claims_written(2)
        gws_written_trans [OF claims_written(2) gws_written_trans [OF toggled set_new]])
qed

lemma add_claim_clients:
  assumes ok: "bla_ok crc st" and g: "gw_at st r = Some g" "bg_vid g = vid" and alloc: "ble_alloc_claim env addr vid"
  shows "claimed_by r (batadv_bla_add_claim env addr vid r st) = insert addr (claimed_by r st)"
proof -
  have vid: "cl_vid c = vid" if "c \<in> set (bla_claim_hash st)" "cl_backbone_gw c = r" for c
    using owned_vid [OF ok that(1)] that(2) g by simp
  show ?thesis
  proof (cases "batadv_claim_hash_find st addr vid")
    case None
    define c where "c = \<lparr>cl_addr = addr, cl_vid = vid, cl_backbone_gw = r, cl_lasttime = bla_now env\<rparr>"
    define s where "s = st\<lparr>bla_claim_hash := bucket_insert (\<lambda>c. ble_choose_claim env (cl_addr c) (cl_vid c)) c (bla_claim_hash st)\<rparr>"
    have "batadv_bla_add_claim env addr vid r st = upd_gw r (\<lambda>g. (crc_toggle env addr g)\<lparr>bg_lasttime := bla_now env\<rparr>)
      (upd_claim addr vid (\<lambda>c. c\<lparr>cl_backbone_gw := r\<rparr>) s)"
      using None ok alloc by (simp add: batadv_bla_add_claim_def Let_def bla_ok_def s_def c_def)
    moreover have "c \<in> set (bla_claim_hash s)" "cl_addr c = addr" "cl_vid c = vid" by (simp_all add: s_def c_def)
    moreover have "claimed_by r s = insert addr (claimed_by r st)"
    proof -
      from bucket_insert_split [of "bla_claim_hash st" "\<lambda>c. ble_choose_claim env (cl_addr c) (cl_vid c)" c] obtain us vs
        where u: "bla_claim_hash st = us @ vs" "bla_claim_hash s = us @ c # vs" by (auto simp: s_def)
      show ?thesis unfolding claimed_by_def u by (simp add: c_def)
    qed
    ultimately show ?thesis by (simp add: claimed_by_reown)
  next
    case (Some c)
    then have c: "c \<in> set (bla_claim_hash st)" "cl_addr c = addr" "cl_vid c = vid"
      by (auto simp: batadv_claim_hash_find_def find_Some_iff split: if_splits)
    show ?thesis
    proof (cases "cl_backbone_gw c = r")
      case True
      then have "addr \<in> claimed_by r st" using c by (auto simp: claimed_by_def)
      moreover have "batadv_bla_add_claim env addr vid r st = upd_claim addr vid (\<lambda>c. c\<lparr>cl_lasttime := bla_now env\<rparr>) st"
        using Some True by (simp add: batadv_bla_add_claim_def Let_def)
      ultimately show ?thesis by auto
    next
      case False
      let ?s = "upd_gw (cl_backbone_gw c) (crc_toggle env addr) (upd_claim addr vid (\<lambda>c. c\<lparr>cl_lasttime := bla_now env\<rparr>) st)"
      have "batadv_bla_add_claim env addr vid r st = upd_gw r (\<lambda>g. (crc_toggle env addr g)\<lparr>bg_lasttime := bla_now env\<rparr>)
        (upd_claim addr vid (\<lambda>c. c\<lparr>cl_backbone_gw := r\<rparr>) ?s)"
        using Some False by (simp add: batadv_bla_add_claim_def Let_def)
      moreover have "c\<lparr>cl_lasttime := bla_now env\<rparr> \<in> set (bla_claim_hash ?s)"
        using c by (auto simp: upd_claim_def image_iff intro!: bexI [of _ c])
      ultimately show ?thesis using c by (simp add: claimed_by_reown [of "c\<lparr>cl_lasttime := bla_now env\<rparr>"])
    qed
  qed
qed

section \<open>Messages\<close>

text \<open>A gateway in operation: its address, and the network stack below it.\<close>

definition bla_node :: "(u16 \<Rightarrow> u8 list \<Rightarrow> u16) \<Rightarrow> bla_env \<Rightarrow> mac \<Rightarrow> bool" where
  "bla_node crc env me \<longleftrightarrow> bla_env_ok crc env \<and> bla_layout env \<and> ble_on env \<and> bla_primary env = Some me
     \<and> (\<forall>n. re_ok (ble_rt env) (Site_pull n))"

text \<open>The states between messages: the invariant, the own gateway on the VLAN, the group.\<close>

definition gw_ready :: "(u16 \<Rightarrow> u8 list \<Rightarrow> u16) \<Rightarrow> bla_env \<Rightarrow> mac \<Rightarrow> u16 \<Rightarrow> u16 \<Rightarrow> batadv_priv_bla \<Rightarrow> bool" where
  "gw_ready crc env me vid grp st \<longleftrightarrow> bla_ok crc st \<and> bla_group st = grp \<and> batadv_backbone_hash_find env st me vid \<noteq> None"

lemma gw_ready_written:
  assumes "gw_ready crc env me vid grp st" "gws_written st st'" "bla_ok crc st'"
  shows "gw_ready crc env me vid grp st'"
proof -
  from assms(1) obtain g where "batadv_backbone_hash_find env st me vid = Some g" by (auto simp: gw_ready_def)
  with gws_written_find [OF assms(2)] obtain g' where "batadv_backbone_hash_find env st' me vid = Some g'" by metis
  with assms show ?thesis by (auto simp: gw_ready_def gws_written_def)
qed

lemma get_known: "batadv_backbone_hash_find env st a v = Some g \<Longrightarrow> batadv_bla_get_backbone_gw env a v own st = (st, Some (bg_ref g))"
  by (simp add: batadv_bla_get_backbone_gw_def)

lemma update_own_known:
  assumes "batadv_backbone_hash_find env st me vid = Some g"
  shows "batadv_bla_update_own_backbone_gw env me vid st = upd_gw (bg_ref g) (\<lambda>g. g\<lparr>bg_lasttime := bla_now env\<rparr>) st"
  using assms by (simp add: batadv_bla_update_own_backbone_gw_def get_known)

text \<open>A frame of another gateway of the same group is taken apart before anything else.\<close>

lemma tx_claim_frame:
  assumes n: "bla_node crc env me" and st: "gw_ready crc env me vid grp st"
    and "vid_ok vid" "ty \<in> {0, 1, 2, 3}" "(if ty = 0 then hw else src) \<noteq> me"
  shows "fst (batadv_bla_tx env (claim_frame dst src hw ty grp vid) v st) = claim_received env me dst src hw ty vid st"
proof -
  have "batadv_bla_process_claim env me (claim_frame dst src hw ty grp vid) st = (claim_received env me dst src hw ty vid st, True)"
    using n st assms(3-5) by (intro process_claim_frame) (simp_all add: bla_node_def gw_ready_def)
  with n show ?thesis by (simp add: batadv_bla_tx_def Let_def bla_node_def)
qed

text \<open>A claim of the other gateway is learnt.\<close>

lemma claim_learnt:
  assumes n: "bla_node crc env me" and st: "gw_ready crc env me vid grp st" and v: "vid_ok vid" and other: "a \<noteq> me"
    and alloc: "ble_alloc_claim env c vid" and e: "batadv_backbone_hash_find env st a vid = Some e"
  shows "\<exists>st' e'. fst (batadv_bla_tx env (sent_frame a c 0 grp vid) v st) = st' \<and> gws_written st st' \<and> gw_ready crc env me vid grp st'
    \<and> batadv_backbone_hash_find env st' a vid = Some e' \<and> bg_ref e' = bg_ref e \<and> bg_request_sent e' = bg_request_sent e
    \<and> claimed_by (bg_ref e) st' = insert c (claimed_by (bg_ref e) st)"
proof -
  from st obtain g where g: "batadv_backbone_hash_find env st me vid = Some g" by (auto simp: gw_ready_def)
  have ok: "bla_ok crc st" and env: "bla_env_ok crc env" using st n by (simp_all add: gw_ready_def bla_node_def)
  define s1 where "s1 = batadv_bla_update_own_backbone_gw env me vid st"
  have s1: "s1 = upd_gw (bg_ref g) (\<lambda>g. g\<lparr>bg_lasttime := bla_now env\<rparr>) st" unfolding s1_def by (rule update_own_known [OF g])
  have ok1: "bla_ok crc s1" unfolding s1_def by (rule update_own_ok [OF env ok])
  have w1: "gws_written st s1" unfolding s1 by (rule upd_gw_written) simp
  from gws_written_find [OF w1 e] obtain e1 where e1: "batadv_backbone_hash_find env s1 a vid = Some e1" "bg_ref e1 = bg_ref e"
    "bg_request_sent e1 = bg_request_sent e" by blast
  define s2 where "s2 = batadv_bla_add_claim env c vid (bg_ref e) s1"
  have "fst (batadv_bla_tx env (sent_frame a c 0 grp vid) v st) = claim_received env me (-1) c a 0 vid st"
    unfolding sent_frame_def using tx_claim_frame [OF n st v] other by simp
  also have "\<dots> = s2" using other e1 by (simp add: claim_received_def s1_def [symmetric] batadv_handle_claim_def get_known s2_def)
  finally have eq: "fst (batadv_bla_tx env (sent_frame a c 0 grp vid) v st) = s2" .
  note at = gw_found [OF e1(1) ok1]
  have ok2: "bla_ok crc s2" unfolding s2_def by (rule add_claim_ok [OF env ok1]) (use at e1(2) in auto)
  have w2: "gws_written st s2" unfolding s2_def by (rule gws_written_trans [OF w1 add_claim_written])
  from gws_written_find [OF w2 e] obtain e2 where e2: "batadv_backbone_hash_find env s2 a vid = Some e2" "bg_ref e2 = bg_ref e"
    "bg_request_sent e2 = bg_request_sent e" by blast
  have "claimed_by (bg_ref e) s2 = insert c (claimed_by (bg_ref e) s1)"
    unfolding s2_def by (rule add_claim_clients [OF ok1 _ _ alloc]) (use at e1(2) in auto)
  then show ?thesis using eq w2 gw_ready_written [OF st w2 ok2] e2 by (auto simp: s1)
qed

lemma claims_learnt:
  assumes n: "bla_node crc env me" and st: "gw_ready crc env me vid grp st" and v: "vid_ok vid" and other: "a \<noteq> me"
    and alloc: "\<forall>c. ble_alloc_claim env c vid" and e: "batadv_backbone_hash_find env st a vid = Some e"
  shows "\<exists>st' e'. fold (\<lambda>f st. fst (batadv_bla_tx env f v st)) (map (\<lambda>c. sent_frame a c 0 grp vid) cs) st = st'
    \<and> gws_written st st' \<and> gw_ready crc env me vid grp st'
    \<and> batadv_backbone_hash_find env st' a vid = Some e' \<and> bg_ref e' = bg_ref e \<and> bg_request_sent e' = bg_request_sent e
    \<and> claimed_by (bg_ref e) st' = set cs \<union> claimed_by (bg_ref e) st"
  using st e
proof (induction cs arbitrary: st e)
  case Nil
  then show ?case by simp
next
  case (Cons c cs)
  from claim_learnt [OF n Cons.prems(1) v other _ Cons.prems(2), of c v] alloc obtain s1 e1
    where s1: "fst (batadv_bla_tx env (sent_frame a c 0 grp vid) v st) = s1" "gws_written st s1" "gw_ready crc env me vid grp s1"
      "batadv_backbone_hash_find env s1 a vid = Some e1" "bg_ref e1 = bg_ref e" "bg_request_sent e1 = bg_request_sent e"
      "claimed_by (bg_ref e) s1 = insert c (claimed_by (bg_ref e) st)" by metis
  from Cons.IH [OF s1(3,4)] obtain s2 e2
    where s2: "fold (\<lambda>f st. fst (batadv_bla_tx env f v st)) (map (\<lambda>c. sent_frame a c 0 grp vid) cs) s1 = s2"
      "gws_written s1 s2" "gw_ready crc env me vid grp s2" "batadv_backbone_hash_find env s2 a vid = Some e2" "bg_ref e2 = bg_ref e1"
      "bg_request_sent e2 = bg_request_sent e1" "claimed_by (bg_ref e1) s2 = set cs \<union> claimed_by (bg_ref e1) s1" by metis
  show ?case
    using s1 s2 gws_written_trans [OF s1(2) s2(2)] by (intro exI [of _ s2] exI [of _ e2]) auto
qed

end
