(* ===== verification/Bla_Resync.thy ===== *)
theory Bla_Resync
  imports Bla_Sync
begin

text \<open>
  The three messages of a resynchronisation: an announcement whose checksum is not the recorded one,
  the request that it causes, the claims and the announcement in answer.
\<close>

section \<open>A new gateway in the table\<close>

lemma get_new:
  assumes ok: "bla_ok crc st" and new: "batadv_backbone_hash_find env st a vid = None" and alloc: "ble_alloc_gw env a vid"
  shows "\<exists>st' e. batadv_bla_get_backbone_gw env a vid False st = (st', Some (bg_ref e))
    \<and> batadv_backbone_hash_find env st' a vid = Some e \<and> bg_crc e = 0 \<and> bg_request_sent e = 0 \<and> bg_orig e = a \<and> bg_vid e = vid
    \<and> bla_out st' = bla_out st \<and> bla_num_requests st' = bla_num_requests st \<and> bla_group st' = bla_group st
    \<and> (\<forall>b. b \<noteq> a \<longrightarrow> batadv_backbone_hash_find env st' b vid = batadv_backbone_hash_find env st b vid)"
proof -
  let ?r = "bla_next_ref st"
  define e where "e = \<lparr>bg_ref = ?r, bg_bucket = ble_choose_gw env a vid, bg_orig = a, bg_vid = vid,
                  bg_lasttime = bla_now env, bg_wait_periods = 0, bg_request_sent = 0, bg_crc = BATADV_BLA_CRC_INIT\<rparr>"
  define s1 where "s1 = st\<lparr>bla_backbone_hash := bucket_insert bg_bucket e (bla_backbone_hash st), bla_next_ref := ?r + 1\<rparr>"
  define s2 where "s2 = (if batadv_orig_hash_find (te_priv (ble_tt env)) a = None then s1
      else s1\<lparr>bla_tt := batadv_tt_global_del_orig (ble_tt env) a (uint vid) (bla_tt s1)\<rparr>)"
  have has: "bla_has_backbone_hash st" using ok by (simp add: bla_ok_def)
  have get: "batadv_bla_get_backbone_gw env a vid False st = (s2, Some (bg_ref e))"
    using new alloc has unfolding batadv_bla_get_backbone_gw_def Let_def by (simp add: e_def s1_def s2_def)
  have fields: "bla_backbone_hash s2 = bucket_insert bg_bucket e (bla_backbone_hash st)" "bla_has_backbone_hash s2"
    "bla_out s2 = bla_out st" "bla_num_requests s2 = bla_num_requests st" "bla_group s2 = bla_group st"
    using has by (simp_all add: s2_def s1_def)
  from bucket_insert_split [of "bla_backbone_hash st" bg_bucket e] obtain us vs
    where s: "bla_backbone_hash st = us @ vs" "bla_backbone_hash s2 = us @ e # vs" unfolding fields(1) by blast
  let ?P = "\<lambda>b g. bg_bucket g = ble_choose_gw env b vid \<and> bg_orig g = b \<and> bg_vid g = vid"
  have "List.find (?P a) us = None"
    using new has by (auto simp: batadv_backbone_hash_find_def s(1) find_None_iff)
  then have "batadv_backbone_hash_find env s2 a vid = Some e"
    using fields(2) by (simp add: batadv_backbone_hash_find_def s(2) list_find_append e_def)
  moreover have "batadv_backbone_hash_find env s2 b vid = batadv_backbone_hash_find env st b vid" if "b \<noteq> a" for b
  proof -
    have "List.find (?P b) (e # vs) = List.find (?P b) vs" using that by (simp add: e_def)
    then show ?thesis using fields(2) has unfolding batadv_backbone_hash_find_def s list_find_append by (simp only: if_True)
  qed
  ultimately show ?thesis using get fields by (intro exI [of _ s2] exI [of _ e]) (simp add: e_def)
qed

section \<open>The request\<close>

text \<open>What a node has on record for a gateway.\<close>

definition recorded_crc :: "bla_env \<Rightarrow> batadv_priv_bla \<Rightarrow> mac \<Rightarrow> u16 \<Rightarrow> u16" where
  "recorded_crc env st a vid = (case batadv_backbone_hash_find env st a vid of None \<Rightarrow> 0 | Some g \<Rightarrow> bg_crc g)"

definition recorded_wait :: "bla_env \<Rightarrow> batadv_priv_bla \<Rightarrow> mac \<Rightarrow> u16 \<Rightarrow> int" where
  "recorded_wait env st a vid = (case batadv_backbone_hash_find env st a vid of None \<Rightarrow> 0 | Some g \<Rightarrow> bg_request_sent g)"

lemma send_request_effect:
  assumes n: "bla_node crc env me" and st: "gw_ready crc env me vid grp st" and v: "vid_ok vid" and other: "a \<noteq> me"
    and e: "batadv_backbone_hash_find env st a vid = Some e"
  shows "\<exists>st' e'. batadv_bla_send_request env (bg_ref e) st = st' \<and> gw_ready crc env me vid grp st'
    \<and> batadv_backbone_hash_find env st' a vid = Some e' \<and> bg_ref e' = bg_ref e \<and> bg_request_sent e' = 1 \<and> claimed_by (bg_ref e) st' = {}
    \<and> bla_out st' = bla_out st @ [Bla_Frame (sent_frame me a 3 grp vid)]
    \<and> bla_num_requests st' = bla_num_requests st + 1 - bg_request_sent e"
proof -
  let ?r = "bg_ref e"
  have ok: "bla_ok crc st" and env: "bla_env_ok crc env" using st n by (simp_all add: gw_ready_def bla_node_def)
  note at = gw_found [OF e ok]
  define s1 where "s1 = batadv_bla_del_backbone_claims ?r st"
  note s1 = del_backbone_claims_fields [OF ok, of ?r, folded s1_def]
  let ?z = "\<lambda>g. if bg_ref g = ?r then g\<lparr>bg_crc := 0\<rparr> else g"
  have z: "keeps_gw ?z" by (simp add: keeps_gw_def)
  have find1: "batadv_backbone_hash_find env s1 b vid = map_option ?z (batadv_backbone_hash_find env st b vid)" for b
    by (rule hash_find_map [OF z s1(2,6)])
  have g1: "gw_at s1 ?r = Some (e\<lparr>bg_crc := 0\<rparr>)"
  proof -
    have "gw_at s1 ?r = gw_at (upd_gw ?r (\<lambda>g. g\<lparr>bg_crc := 0\<rparr>) st) ?r" by (rule gw_at_frame) (simp add: s1(2) upd_gw_def)
    then show ?thesis using at(1) by (simp add: gw_upd)
  qed
  define s2 where "s2 = batadv_bla_send_claim env (bg_orig e) (bg_vid e) BATADV_CLAIM_TYPE_REQUEST s1"
  have s2: "s2 = bla_event (Bla_Frame (sent_frame me a 3 grp vid)) s1"
    unfolding s2_def at(2,3) using n st v
    by (subst send_claim_frame) (simp_all add: bla_node_def gw_ready_def s1(7))
  define s3 where "s3 = (if bg_request_sent e = 0
    then upd_gw ?r (\<lambda>g. g\<lparr>bg_request_sent := 1\<rparr>) (s2\<lparr>bla_num_requests := bla_num_requests s2 + 1\<rparr>) else s2)"
  have eq: "batadv_bla_send_request env ?r st = s3"
    unfolding batadv_bla_send_request_def Let_def s1_def [symmetric] g1 by (simp add: s2_def s3_def)
  have ok3: "bla_ok crc s3" using send_request_ok [OF env ok at(1)] by (simp add: eq)
  have find2: "batadv_backbone_hash_find env s2 b vid = map_option ?z (batadv_backbone_hash_find env st b vid)" for b
    unfolding find1 [symmetric] by (rule hash_find_cong) (simp_all add: s2 bla_event_def)
  let ?u = "\<lambda>g. if bg_ref g = ?r then g\<lparr>bg_request_sent := 1\<rparr> else g"
  have find3: "batadv_backbone_hash_find env s3 b vid = (if bg_request_sent e = 0
      then map_option ?u (batadv_backbone_hash_find env s2 b vid) else batadv_backbone_hash_find env s2 b vid)" for b
  proof -
    have "batadv_backbone_hash_find env (upd_gw ?r (\<lambda>g. g\<lparr>bg_request_sent := 1\<rparr>) (s2\<lparr>bla_num_requests := k\<rparr>)) b vid
        = map_option ?u (batadv_backbone_hash_find env s2 b vid)" for k
      by (rule hash_find_map) (simp_all add: keeps_gw_def upd_gw_def)
    then show ?thesis by (simp add: s3_def)
  qed
  have req: "bg_request_sent e \<noteq> 0 \<Longrightarrow> bg_request_sent e = 1" using gw_flag [OF ok at(1)] by simp
  have "gw_ready crc env me vid grp s3"
    using ok3 st find3 [of me] find2 [of me] by (auto simp: gw_ready_def s3_def s2 bla_event_def s1(7))
  moreover have "batadv_backbone_hash_find env s3 a vid = Some (e\<lparr>bg_crc := 0, bg_request_sent := 1\<rparr>)"
    using find3 [of a] find2 [of a] e req by auto
  moreover have "claimed_by ?r s3 = {}"
    by (auto simp: s3_def s2 bla_event_def claimed_by_def s1(1))
  moreover have "bla_out s3 = bla_out st @ [Bla_Frame (sent_frame me a 3 grp vid)]"
    by (simp add: s3_def s2 bla_event_def s1(8))
  moreover have "bla_num_requests s3 = bla_num_requests st + 1 - bg_request_sent e"
    using req by (auto simp: s3_def s2 bla_event_def s1(3))
  ultimately show ?thesis using eq by (intro exI [of _ s3] exI [of _ "e\<lparr>bg_crc := 0, bg_request_sent := 1\<rparr>"]) simp
qed

lemma announce_refused:
  assumes n: "bla_node crc env me" and st: "gw_ready crc env me vid grp st" and v: "vid_ok vid" and other: "a \<noteq> me"
    and alloc: "ble_alloc_gw env a vid" and differ: "recorded_crc env st a vid \<noteq> cs16"
  shows "\<exists>st' e'. fst (batadv_bla_tx env (sent_frame a (announce_mac cs16) 2 grp vid) w st) = st' \<and> gw_ready crc env me vid grp st'
    \<and> batadv_backbone_hash_find env st' a vid = Some e' \<and> bg_request_sent e' = 1 \<and> claimed_by (bg_ref e') st' = {}
    \<and> bla_out st' = bla_out st @ [Bla_Frame (sent_frame me a 3 grp vid)]
    \<and> bla_num_requests st' = bla_num_requests st + 1 - recorded_wait env st a vid"
proof -
  have ok: "bla_ok crc st" and env: "bla_env_ok crc env" using st n by (simp_all add: gw_ready_def bla_node_def)
  from st obtain g where g: "batadv_backbone_hash_find env st me vid = Some g" by (auto simp: gw_ready_def)
  define s1 where "s1 = batadv_bla_update_own_backbone_gw env me vid st"
  have s1: "s1 = upd_gw (bg_ref g) (\<lambda>g. g\<lparr>bg_lasttime := bla_now env\<rparr>) st" unfolding s1_def by (rule update_own_known [OF g])
  have ok1: "bla_ok crc s1" unfolding s1_def by (rule update_own_ok [OF env ok])
  have w1: "gws_written st s1" unfolding s1 by (rule upd_gw_written) simp
  have ready1: "gw_ready crc env me vid grp s1" by (rule gw_ready_written [OF st w1 ok1])
  have a1: "batadv_backbone_hash_find env s1 a vid = batadv_backbone_hash_find env st a vid"
  proof (cases "batadv_backbone_hash_find env st a vid")
    case (Some e)
    have "bg_ref e \<noteq> bg_ref g"
    proof
      assume eq: "bg_ref e = bg_ref g"
      have "Some e = Some g"
        by (rule trans [OF gw_found(1) [OF Some ok, symmetric] trans [OF arg_cong [where f = "gw_at st", OF eq] gw_found(1) [OF g ok]]])
      then have "bg_orig e = bg_orig g" by simp
      then show False unfolding gw_found(2) [OF Some ok] gw_found(2) [OF g ok] using other by simp
    qed
    with Some show ?thesis unfolding s1 by (simp add: hash_find_upd)
  qed (simp add: s1 hash_find_upd)
  obtain s2 e where s2: "batadv_bla_get_backbone_gw env a vid False s1 = (s2, Some (bg_ref e))"
    "batadv_backbone_hash_find env s2 a vid = Some e" "bg_crc e = recorded_crc env st a vid" "bg_request_sent e = recorded_wait env st a vid"
    "bla_out s2 = bla_out s1" "bla_num_requests s2 = bla_num_requests s1" "gw_ready crc env me vid grp s2"
  proof (cases "batadv_backbone_hash_find env st a vid")
    case (Some e)
    show ?thesis by (rule that [of s1 e]) (use Some ready1 a1 in \<open>simp_all add: recorded_crc_def recorded_wait_def get_known\<close>)
  next
    case None
    from get_new [OF ok1 a1 [unfolded None] alloc] obtain s2 e where s2: "batadv_bla_get_backbone_gw env a vid False s1 = (s2, Some (bg_ref e))"
      "batadv_backbone_hash_find env s2 a vid = Some e" "bg_crc e = 0" "bg_request_sent e = 0"
      "bla_out s2 = bla_out s1" "bla_num_requests s2 = bla_num_requests s1" "bla_group s2 = bla_group s1"
      "batadv_backbone_hash_find env s2 me vid = batadv_backbone_hash_find env s1 me vid" using other by metis
    have "gw_ready crc env me vid grp s2"
      using get_backbone_gw_ok [OF env ok1 s2(1)] ready1 s2(7,8) by (simp add: gw_ready_def)
    with s2 None show ?thesis by (intro that [of s2 e]) (simp_all add: recorded_crc_def recorded_wait_def)
  qed
  let ?r = "bg_ref e"
  have ok2: "bla_ok crc s2" using s2(7) by (simp add: gw_ready_def)
  define s3 where "s3 = upd_gw ?r (\<lambda>g. g\<lparr>bg_lasttime := bla_now env\<rparr>) s2"
  let ?e = "e\<lparr>bg_lasttime := bla_now env\<rparr>"
  have ok3: "bla_ok crc s3" unfolding s3_def by (rule upd_gw_ok_same [OF ok2 gw_found(1) [OF s2(2) ok2]]) simp_all
  have w3: "gws_written s2 s3" unfolding s3_def by (rule upd_gw_written) simp
  have ready3: "gw_ready crc env me vid grp s3" by (rule gw_ready_written [OF s2(7) w3 ok3])
  have e3: "batadv_backbone_hash_find env s3 a vid = Some ?e" using s2(2) by (simp add: s3_def hash_find_upd)
  have at3: "gw_at s3 ?r = Some ?e" using gw_found(1) [OF e3 ok3] by simp
  from send_request_effect [OF n ready3 v other e3] obtain s4 e4 where s4: "batadv_bla_send_request env ?r s3 = s4"
    "gw_ready crc env me vid grp s4" "batadv_backbone_hash_find env s4 a vid = Some e4" "bg_ref e4 = ?r" "bg_request_sent e4 = 1"
    "claimed_by ?r s4 = {}" "bla_out s4 = bla_out s3 @ [Bla_Frame (sent_frame me a 3 grp vid)]"
    "bla_num_requests s4 = bla_num_requests s3 + 1 - bg_request_sent e" by auto
  have "fst (batadv_bla_tx env (sent_frame a (announce_mac cs16) 2 grp vid) w st) = claim_received env me (-1) a (announce_mac cs16) 2 vid st"
    unfolding sent_frame_def using tx_claim_frame [OF n st v, of 2] other by simp
  also have "\<dots> = s4"
    using s2(1,3) differ at3 s4(1)
    by (simp add: claim_received_def s1_def [symmetric] batadv_handle_announce_def announce_mac_bytes Let_def s3_def [symmetric])
  finally show ?thesis
    using s4 s2(4-6) by (intro exI [of _ s4] exI [of _ e4]) (simp add: s3_def s1)
qed

section \<open>The answer\<close>

lemma bla_request_answered:
  assumes n: "bla_node crc env me" and st: "gw_ready crc env me vid grp st" and v: "vid_ok vid" and other: "b \<noteq> me"
    and g: "batadv_backbone_hash_find env st me vid = Some g"
  shows "\<exists>cs. set cs = claimed_by (bg_ref g) st
    \<and> bla_out (fst (batadv_bla_tx env (sent_frame b me 3 grp vid) w st))
      = bla_out st @ map Bla_Frame (map (\<lambda>c. sent_frame me c 0 grp vid) cs @ [sent_frame me (announce_mac (bg_crc g)) 2 grp vid])"
proof -
  have ok: "bla_ok crc st" and env: "bla_env_ok crc env" using st n by (simp_all add: gw_ready_def bla_node_def)
  let ?r = "bg_ref g"
  define s1 where "s1 = batadv_bla_update_own_backbone_gw env me vid st"
  have s1: "s1 = upd_gw ?r (\<lambda>g. g\<lparr>bg_lasttime := bla_now env\<rparr>) st" unfolding s1_def by (rule update_own_known [OF g])
  have ok1: "bla_ok crc s1" unfolding s1_def by (rule update_own_ok [OF env ok])
  let ?g = "g\<lparr>bg_lasttime := bla_now env\<rparr>"
  have g1: "batadv_backbone_hash_find env s1 me vid = Some ?g" using g by (simp add: s1 hash_find_upd)
  have at1: "gw_at s1 ?r = Some ?g" using gw_found(1) [OF g1 ok1] by simp
  have vid1: "bg_vid g = vid" using gw_found(3) [OF g ok] .
  have grp1: "bla_group s1 = grp" using st by (simp add: s1 gw_ready_def)
  let ?f = "\<lambda>c st. if cl_backbone_gw c \<noteq> ?r then st
                     else batadv_bla_send_claim env (cl_addr c) (cl_vid c) BATADV_CLAIM_TYPE_CLAIM st"
  have send: "batadv_bla_send_claim env addr vid ty s = bla_event (Bla_Frame (sent_frame me addr ty grp vid)) s"
    if "ty \<in> {0, 1, 2, 3}" "bla_group s = grp" for addr ty s
    using send_claim_frame [of env me ty vid addr s] n v that by (simp add: bla_node_def)
  have loop: "fold ?f cs s = s\<lparr>bla_out := bla_out s @ map (\<lambda>c. Bla_Frame (sent_frame me (cl_addr c) 0 grp vid)) (filter (\<lambda>c. cl_backbone_gw c = ?r) cs)\<rparr>"
    if "bla_group s = grp" "\<forall>c \<in> set cs. cl_backbone_gw c = ?r \<longrightarrow> cl_vid c = vid" for cs s
    using that
  proof (induction cs arbitrary: s)
    case (Cons c cs)
    show ?case
    proof (cases "cl_backbone_gw c = ?r")
      case True
      with Cons.prems have "?f c s = bla_event (Bla_Frame (sent_frame me (cl_addr c) 0 grp vid)) s" by (simp add: send)
      with True Cons show ?thesis by (simp add: bla_event_def)
    qed (use Cons in simp)
  qed simp
  have vids: "\<forall>c \<in> set (bla_claim_hash s1). cl_backbone_gw c = ?r \<longrightarrow> cl_vid c = vid"
    using owned_vid [OF ok1] at1 vid1 by auto
  define cs where "cs = map cl_addr (filter (\<lambda>c. cl_backbone_gw c = ?r) (bla_claim_hash s1))"
  define s2 where "s2 = s1\<lparr>bla_out := bla_out s1 @ map (\<lambda>c. Bla_Frame (sent_frame me c 0 grp vid)) cs\<rparr>"
  have s2: "fold ?f (bla_claim_hash s1) s1 = s2"
    unfolding loop [OF grp1 vids] s2_def cs_def by (simp add: comp_def)
  have at2: "gw_at s2 ?r = Some ?g" using at1 by (simp add: s2_def gw_at_def)
  have ann: "batadv_bla_send_announce env ?r s2 = bla_event (Bla_Frame (sent_frame me (announce_mac (bg_crc g)) 2 grp vid)) s2"
    unfolding batadv_bla_send_announce_def at2 by (simp add: vid1 send grp1 s2_def announce_mac_def)
  have "fst (batadv_bla_tx env (sent_frame b me 3 grp vid) w st) = claim_received env me me b me 3 vid st"
    unfolding sent_frame_def using tx_claim_frame [OF n st v, of 3] other by simp
  also have "\<dots> = batadv_bla_answer_request env me vid s1"
    by (simp add: claim_received_def s1_def [symmetric] batadv_handle_request_def)
  also have "\<dots> = batadv_bla_send_announce env ?r s2"
    using ok1 unfolding batadv_bla_answer_request_def g1 by (simp add: s2 bla_ok_def)
  finally have "bla_out (fst (batadv_bla_tx env (sent_frame b me 3 grp vid) w st))
      = bla_out st @ map Bla_Frame (map (\<lambda>c. sent_frame me c 0 grp vid) cs @ [sent_frame me (announce_mac (bg_crc g)) 2 grp vid])"
    unfolding ann by (simp add: bla_event_def s2_def s1)
  moreover have "set cs = claimed_by ?r st" by (simp add: cs_def claimed_by_def s1)
  ultimately show ?thesis by blast
qed

section \<open>The announcement that ends it\<close>

lemma announce_accepted:
  assumes n: "bla_node crc env me" and st: "gw_ready crc env me vid grp st" and v: "vid_ok vid" and other: "a \<noteq> me"
    and e: "batadv_backbone_hash_find env st a vid = Some e" "bg_crc e = cs16" "bg_request_sent e = 1"
  shows "\<exists>st' e'. fst (batadv_bla_tx env (sent_frame a (announce_mac cs16) 2 grp vid) w st) = st'
    \<and> batadv_backbone_hash_find env st' a vid = Some e' \<and> bg_ref e' = bg_ref e \<and> bg_request_sent e' = 0 \<and> bg_crc e' = cs16
    \<and> claimed_by (bg_ref e) st' = claimed_by (bg_ref e) st \<and> bla_num_requests st' = bla_num_requests st - 1"
proof -
  have ok: "bla_ok crc st" and env: "bla_env_ok crc env" using st n by (simp_all add: gw_ready_def bla_node_def)
  from st obtain g where g: "batadv_backbone_hash_find env st me vid = Some g" by (auto simp: gw_ready_def)
  let ?r = "bg_ref e"
  define s1 where "s1 = batadv_bla_update_own_backbone_gw env me vid st"
  have s1: "s1 = upd_gw (bg_ref g) (\<lambda>g. g\<lparr>bg_lasttime := bla_now env\<rparr>) st" unfolding s1_def by (rule update_own_known [OF g])
  have ok1: "bla_ok crc s1" unfolding s1_def by (rule update_own_ok [OF env ok])
  obtain e1 where e1: "batadv_backbone_hash_find env s1 a vid = Some e1" "bg_ref e1 = ?r" "bg_crc e1 = cs16" "bg_request_sent e1 = 1"
    using e by (simp add: s1 hash_find_upd)
  define s2 where "s2 = upd_gw ?r (\<lambda>g. g\<lparr>bg_lasttime := bla_now env\<rparr>) s1"
  let ?e = "e1\<lparr>bg_lasttime := bla_now env\<rparr>"
  have e2: "batadv_backbone_hash_find env s2 a vid = Some ?e" using e1 by (simp add: s2_def hash_find_upd)
  have ok2: "bla_ok crc s2" unfolding s2_def
    by (rule upd_gw_ok_same [OF ok1 gw_found(1) [OF e1(1) ok1, unfolded e1(2)]]) simp_all
  have at2: "gw_at s2 ?r = Some ?e" using gw_found(1) [OF e2 ok2] e1(2) by simp
  define s3 where "s3 = upd_gw ?r (\<lambda>g. g\<lparr>bg_request_sent := 0\<rparr>) (s2\<lparr>bla_num_requests := bla_num_requests s2 - 1\<rparr>)"
  have "fst (batadv_bla_tx env (sent_frame a (announce_mac cs16) 2 grp vid) w st) = claim_received env me (-1) a (announce_mac cs16) 2 vid st"
    unfolding sent_frame_def using tx_claim_frame [OF n st v, of 2] other by simp
  also have "\<dots> = s3"
    using get_known [OF e1(1)] e1 at2
    by (simp add: claim_received_def s1_def [symmetric] batadv_handle_announce_def announce_mac_bytes Let_def s2_def [symmetric] s3_def)
  finally have eq: "fst (batadv_bla_tx env (sent_frame a (announce_mac cs16) 2 grp vid) w st) = s3" .
  have "batadv_backbone_hash_find env s3 a vid = Some (?e\<lparr>bg_request_sent := 0\<rparr>)"
  proof -
    have "batadv_backbone_hash_find env s3 a vid
        = map_option (\<lambda>g. if bg_ref g = ?r then g\<lparr>bg_request_sent := 0\<rparr> else g) (batadv_backbone_hash_find env s2 a vid)"
      by (rule hash_find_map) (simp_all add: s3_def keeps_gw_def upd_gw_def)
    with e2 e1(2) show ?thesis by simp
  qed
  moreover have "claimed_by ?r s3 = claimed_by ?r st" by (simp add: s3_def s2_def s1 claimed_by_def)
  moreover have "bla_num_requests s3 = bla_num_requests st - 1" by (simp add: s3_def s2_def s1)
  ultimately show ?thesis using eq e1 by (intro exI [of _ s3] exI [of _ "?e\<lparr>bg_request_sent := 0\<rparr>"]) simp
qed

lemma recorded_sum:
  assumes "bla_ok crc st" "batadv_backbone_hash_find env st a vid = Some e"
  shows "bg_crc e = claim_sum crc (bg_ref e) (bla_claim_hash st)"
    "\<forall>c \<in> set (bla_claim_hash st). cl_backbone_gw c = bg_ref e \<longrightarrow> cl_vid c = vid"
    "distinct (map claim_key (bla_claim_hash st))"
proof -
  note at = gw_found [OF assms(2,1)]
  then have "e \<in> set (bla_backbone_hash st)" by (auto simp: gw_at_def find_Some_iff)
  then show "bg_crc e = claim_sum crc (bg_ref e) (bla_claim_hash st)" using assms(1) by (simp add: bla_ok_def gws_ok_def)
  show "\<forall>c \<in> set (bla_claim_hash st). cl_backbone_gw c = bg_ref e \<longrightarrow> cl_vid c = vid"
    using owned_vid [OF assms(1)] at by auto
  show "distinct (map claim_key (bla_claim_hash st))" using assms(1) by (simp add: bla_ok_def claims_ok_def)
qed

text \<open>
  C19. A gateway that hears an announcement whose checksum differs from what it has on record drops
  its record and asks for the claims; the other gateway answers. When the frames of the answer
  have arrived, both have the same clients on record as claims of the sender, the checksums
  agree, and the one that asked waits no longer: its counter of open requests is what it was
  before, without the request to this gateway if there was one. \<open>w\<close> is the VLAN number the caller passes.
\<close>

theorem bla_resync:
  assumes runs: "bla_initial A0" "(bla_step crc)\<^sup>*\<^sup>* A0 A" "bla_initial B0" "(bla_step crc)\<^sup>*\<^sup>* B0 B"
    and nodes: "bla_node crc envA a" "bla_node crc envB b" "a \<noteq> b" and vid: "vid_ok vid"
    and grp: "bla_group A = grp" "bla_group B = grp"
    and own: "batadv_backbone_hash_find envA A a vid = Some g" "batadv_backbone_hash_find envB B b vid \<noteq> None"
    and memory: "ble_alloc_gw envB a vid" "\<forall>c. ble_alloc_claim envB c vid"
    and announced: "batadv_bla_send_announce envA (bg_ref g) A = bla_event (Bla_Frame announcement) A"
    and differ: "recorded_crc envB B a vid \<noteq> bg_crc g"
  shows "\<exists>request answers.
      (let B1 = fst (batadv_bla_tx envB announcement w B);
           A1 = fst (batadv_bla_tx envA request w A);
           B2 = fold (\<lambda>f st. fst (batadv_bla_tx envB f w st)) answers B1
       in bla_out B1 = bla_out B @ [Bla_Frame request] \<and> bla_out A1 = bla_out A @ map Bla_Frame answers
        \<and> (\<exists>e. batadv_backbone_hash_find envB B2 a vid = Some e \<and> bg_crc e = bg_crc g \<and> bg_request_sent e = 0
             \<and> claimed_by (bg_ref e) B2 = claimed_by (bg_ref g) A)
        \<and> bla_num_requests B2 = bla_num_requests B - recorded_wait envB B a vid)"
proof -
  have okA: "bla_ok crc A" and okB: "bla_ok crc B"
    using bla_system.reachable_invariant runs by blast+
  have readyA: "gw_ready crc envA a vid grp A" and readyB: "gw_ready crc envB b vid grp B"
    using okA okB grp own by (simp_all add: gw_ready_def)
  have "batadv_bla_send_announce envA (bg_ref g) A = bla_event (Bla_Frame (sent_frame a (announce_mac (bg_crc g)) 2 grp vid)) A"
    unfolding batadv_bla_send_announce_def gw_found(1) [OF own(1) okA] using gw_found(3) [OF own(1) okA] nodes(1) vid grp(1)
    by (simp add: send_claim_frame bla_node_def announce_mac_def)
  then have "bla_event (Bla_Frame (sent_frame a (announce_mac (bg_crc g)) 2 grp vid)) A = bla_event (Bla_Frame announcement) A"
    using announced by simp
  from arg_cong [where f = bla_out, OF this] have ann: "announcement = sent_frame a (announce_mac (bg_crc g)) 2 grp vid"
    by (simp add: bla_event_def)
  from announce_refused [OF nodes(2) readyB vid nodes(3) memory(1) differ, of w] obtain B1 e1 where B1: "fst (batadv_bla_tx envB announcement w B) = B1"
    "gw_ready crc envB b vid grp B1" "batadv_backbone_hash_find envB B1 a vid = Some e1" "bg_request_sent e1 = 1" "claimed_by (bg_ref e1) B1 = {}"
    "bla_out B1 = bla_out B @ [Bla_Frame (sent_frame b a 3 grp vid)]"
    "bla_num_requests B1 = bla_num_requests B + 1 - recorded_wait envB B a vid" unfolding ann by blast
  from bla_request_answered [OF nodes(1) readyA vid nodes(3) [symmetric] own(1), of w] obtain cs where cs: "set cs = claimed_by (bg_ref g) A"
    "bla_out (fst (batadv_bla_tx envA (sent_frame b a 3 grp vid) w A))
      = bla_out A @ map Bla_Frame (map (\<lambda>c. sent_frame a c 0 grp vid) cs @ [sent_frame a (announce_mac (bg_crc g)) 2 grp vid])" by blast
  from claims_learnt [OF nodes(2) B1(2) vid nodes(3) memory(2) B1(3), of w cs] obtain B2 e2
    where B2: "fold (\<lambda>f st. fst (batadv_bla_tx envB f w st)) (map (\<lambda>c. sent_frame a c 0 grp vid) cs) B1 = B2" "gws_written B1 B2"
      "gw_ready crc envB b vid grp B2" "batadv_backbone_hash_find envB B2 a vid = Some e2" "bg_ref e2 = bg_ref e1"
      "bg_request_sent e2 = bg_request_sent e1" "claimed_by (bg_ref e1) B2 = set cs \<union> claimed_by (bg_ref e1) B1" by blast
  have okB2: "bla_ok crc B2" using B2(3) by (simp add: gw_ready_def)
  have same: "claimed_by (bg_ref e2) B2 = claimed_by (bg_ref g) A" using B2(5,7) B1(5) cs(1) by simp
  have "bg_crc e2 = bg_crc g"
    unfolding recorded_sum(1) [OF okB2 B2(4)] recorded_sum(1) [OF okA own(1)]
    by (rule claim_sum_clients [OF recorded_sum(3) [OF okB2 B2(4)] recorded_sum(3) [OF okA own(1)]
          recorded_sum(2) [OF okB2 B2(4)] recorded_sum(2) [OF okA own(1)] same [unfolded claimed_by_def]])
  moreover have "bg_request_sent e2 = 1" using B2(6) B1(4) by simp
  ultimately obtain B3 e3 where B3: "fst (batadv_bla_tx envB (sent_frame a (announce_mac (bg_crc g)) 2 grp vid) w B2) = B3"
    "batadv_backbone_hash_find envB B3 a vid = Some e3" "bg_ref e3 = bg_ref e2" "bg_request_sent e3 = 0" "bg_crc e3 = bg_crc g"
    "claimed_by (bg_ref e2) B3 = claimed_by (bg_ref e2) B2" "bla_num_requests B3 = bla_num_requests B2 - 1"
    using announce_accepted [OF nodes(2) B2(3) vid nodes(3) B2(4), of "bg_crc g" w] by blast
  have "bla_num_requests B2 = bla_num_requests B1" using B2(2) by (simp add: gws_written_def)
  then show ?thesis
    using B1 B2(1) B3 cs(2) same
    by (intro exI [of _ "sent_frame b a 3 grp vid"]
        exI [of _ "map (\<lambda>c. sent_frame a c 0 grp vid) cs @ [sent_frame a (announce_mac (bg_crc g)) 2 grp vid]"])
      (simp add: Let_def)
qed

text \<open>
  Gateways 7 and 5 on the untagged LAN, with a checksum that puts them into one group. Each has seen one
  client; the second one has not heard of the first.
\<close>

definition sync_crc :: "u16 \<Rightarrow> u8 list \<Rightarrow> u16" where
  "sync_crc c bs = (if bs ! 5 < 10 then 1 else ucast (bs ! 5))"

definition sync_env :: "mac \<Rightarrow> bla_env" where
  "sync_env me = demo_bla\<lparr>ble_crc16 := sync_crc, ble_arp_reply := (\<lambda>me dst. Some (arp_reply me dst)),
     ble_insert_tag := (\<lambda>skb tag. Some (vlan_tagged skb tag)),
     ble_tt := own_env\<lparr>te_priv := (priv_init 0 (\<lambda>_. hardif_init me False 1500) [0])\<lparr>bp_primary_if := Some 0\<rparr>\<rparr>\<rparr>"

definition sync_start :: "mac \<Rightarrow> batadv_priv_bla" where
  "sync_start me = fst (batadv_bla_init (sync_env me) (bla_zero tt_priv_init))"

definition sync_gw :: "mac \<Rightarrow> mac \<Rightarrow> batadv_priv_bla" where
  "sync_gw me client = fst (batadv_bla_rx (sync_env me)
     (replicate 6 0xFF @ be_bytes 6 client @ [8, 0, 1, 2, 3, 4]) 0 True (sync_start me))"

lemma sync_initial: "bla_initial (sync_start me)"
proof -
  have "snd (batadv_bla_init (sync_env me) (bla_zero tt_priv_init)) = None"
    by (simp add: batadv_bla_init_def sync_env_def demo_bla_def bla_zero_def Let_def)
  then show ?thesis unfolding bla_initial_def sync_start_def by (metis prod.collapse)
qed

lemma sync_env_ok: "bla_env_ok sync_crc (sync_env me)"
  by (simp add: bla_env_ok_def sync_env_def)

lemma bla_sync_node: "bla_node sync_crc (sync_env me) me"
  unfolding bla_node_def
  by (simp add: sync_env_ok bla_layout_def) (simp add: sync_env_def demo_bla_def bla_primary_def primary_addr_def priv_init_def
      hardif_init_def demo_rt_env_def own_env_def)

lemma sync_reached: "(bla_step sync_crc)\<^sup>*\<^sup>* (sync_start me) (sync_gw me client)"
  unfolding sync_gw_def by (rule r_into_rtranclp, rule bla_step.rx, rule sync_env_ok)

lemma sync_states: "bla_group (sync_gw 7 17) = 1" "bla_group (sync_gw 5 18) = 1"
  "map_option bg_crc (batadv_backbone_hash_find (sync_env 7) (sync_gw 7 17) 7 0) = Some 17"
  "map_option bg_crc (batadv_backbone_hash_find (sync_env 5) (sync_gw 5 18) 5 0) = Some 18"
  "map_option bg_crc (batadv_backbone_hash_find (sync_env 5) (sync_gw 5 18) 7 0) = None"
  "claimed_by (bg_ref (the (batadv_backbone_hash_find (sync_env 7) (sync_gw 7 17) 7 0))) (sync_gw 7 17) = {17}"
  by code_simp+

theorem bla_resync_witness:
  "\<exists>frames. \<exists>e. batadv_backbone_hash_find (sync_env 5)
       (fold (\<lambda>f st. fst (batadv_bla_tx (sync_env 5) f 0 st)) frames (sync_gw 5 18)) 7 0 = Some e
     \<and> claimed_by (bg_ref e) (fold (\<lambda>f st. fst (batadv_bla_tx (sync_env 5) f 0 st)) frames (sync_gw 5 18)) = {17}"
proof -
  obtain g where g: "batadv_backbone_hash_find (sync_env 7) (sync_gw 7 17) 7 0 = Some g" "bg_crc g = 17"
    using sync_states(3) by auto
  have ok: "bla_ok sync_crc (sync_gw 7 17)" by (rule bla_system.reachable_invariant [OF sync_initial sync_reached])
  let ?ann = "sent_frame 7 (announce_mac 17) 2 1 0"
  have ann: "batadv_bla_send_announce (sync_env 7) (bg_ref g) (sync_gw 7 17) = bla_event (Bla_Frame ?ann) (sync_gw 7 17)"
    unfolding batadv_bla_send_announce_def gw_found(1) [OF g(1) ok] using gw_found(3) [OF g(1) ok] g(2) bla_sync_node [of 7]
    by (simp add: send_claim_frame bla_node_def vid_ok_def announce_mac_def sync_states(1))
  have "\<exists>request answers.
      (let B1 = fst (batadv_bla_tx (sync_env 5) ?ann 0 (sync_gw 5 18));
           A1 = fst (batadv_bla_tx (sync_env 7) request 0 (sync_gw 7 17));
           B2 = fold (\<lambda>f st. fst (batadv_bla_tx (sync_env 5) f 0 st)) answers B1
       in bla_out B1 = bla_out (sync_gw 5 18) @ [Bla_Frame request] \<and> bla_out A1 = bla_out (sync_gw 7 17) @ map Bla_Frame answers
        \<and> (\<exists>e. batadv_backbone_hash_find (sync_env 5) B2 7 0 = Some e \<and> bg_crc e = bg_crc g \<and> bg_request_sent e = 0
             \<and> claimed_by (bg_ref e) B2 = claimed_by (bg_ref g) (sync_gw 7 17))
        \<and> bla_num_requests B2 = bla_num_requests (sync_gw 5 18) - recorded_wait (sync_env 5) (sync_gw 5 18) 7 0)"
    by (rule bla_resync [OF sync_initial sync_reached sync_initial sync_reached bla_sync_node bla_sync_node _ _ sync_states(1,2) g(1) _ _ _ ann])
      (use sync_states g in \<open>auto simp: vid_ok_def recorded_crc_def sync_env_def demo_bla_def\<close>)
  then obtain answers e where
    "batadv_backbone_hash_find (sync_env 5) (fold (\<lambda>f st. fst (batadv_bla_tx (sync_env 5) f 0 st)) (?ann # answers) (sync_gw 5 18)) 7 0 = Some e"
    "claimed_by (bg_ref e) (fold (\<lambda>f st. fst (batadv_bla_tx (sync_env 5) f 0 st)) (?ann # answers) (sync_gw 5 18)) = claimed_by (bg_ref g) (sync_gw 7 17)"
    unfolding Let_def fold_simps by blast
  moreover have "claimed_by (bg_ref g) (sync_gw 7 17) = {17}" using sync_states(6) unfolding g(1) by simp
  ultimately show ?thesis by metis
qed

end
