(* ===== verification/Bla_Props.thy ===== *)
theory Bla_Props
  imports Bla_Run
begin

text \<open>
  What bridge loop avoidance is for: broadcasts pass one gateway only, the stop of broadcasts ends,
  a broadcast that another gateway has sent already is recognised.
\<close>

section \<open>Broadcasts of a claimed client\<close>

lemma process_not_claim:
  "\<not> snd (batadv_bla_process_claim env me skb st) \<Longrightarrow> fst (batadv_bla_process_claim env me skb st) = st"
proof -
  let ?ok = "\<lambda>x :: batadv_priv_bla \<times> bool. snd x \<or> fst x = st"
  have b: "\<And>b x y. ?ok x \<Longrightarrow> ?ok y \<Longrightarrow> ?ok (if b then x else y)" "?ok (st, v)" "?ok (s, True)"
    "\<And>x res F. ?ok x \<Longrightarrow> (\<And>a n. ?ok (F a n)) \<Longrightarrow> ?ok (case res of None \<Rightarrow> x | Some (a, n) \<Rightarrow> F a n)" for s v
    by (auto split: option.split)
  have check: "fst (batadv_check_claim_group env me a ty g h st) = st \<or> snd (batadv_check_claim_group env me a ty g h st) \<noteq> Not_A_Claim"
    for a ty g h
    by (auto simp: batadv_check_claim_group_def split: option.split)
  have c: "?ok (case w of (s, Not_A_Claim) \<Rightarrow> (s, False) | (s, Other_Group) \<Rightarrow> (s, True) | (s, Same_Group) \<Rightarrow> (G s, True))"
    if "fst w = st \<or> snd w \<noteq> Not_A_Claim" for w G
    using that by (auto split: prod.split claim_group.split)
  have "?ok (batadv_bla_process_claim env me skb st)"
    unfolding batadv_bla_process_claim_def Let_def by (intro b c check)
  then show "\<not> snd (batadv_bla_process_claim env me skb st) \<Longrightarrow> fst (batadv_bla_process_claim env me skb st) = st" by blast
qed

text \<open>
  C20. A broadcast of a client that is claimed leaves the mesh through one gateway: a node hands it to its
  LAN if the claim it has on record is its own and no request is open, and drops it otherwise. What
  another gateway has handed to the LAN does not enter the mesh again: a node that has the claim
  of another gateway on record drops the broadcast when it comes from the LAN.
\<close>

theorem bla_claimed_broadcast:
  assumes "ble_on env" "bla_primary env = Some me" "is_multicast_ether_addr (mac_at skb 0)"
    and "batadv_claim_hash_find st (mac_at skb 6) vid = Some claim" "gw_at st (cl_backbone_gw claim) = Some g"
  shows "(snd (batadv_bla_rx env skb vid True st) \<longleftrightarrow> bg_orig g \<noteq> me \<or> bla_num_requests st \<noteq> 0)
    \<and> (bg_orig g \<noteq> me \<longrightarrow> snd (batadv_bla_tx env skb vid st))"
proof -
  have "snd (batadv_bla_tx env skb vid st)" if "bg_orig g \<noteq> me"
  proof (cases "snd (batadv_bla_process_claim env me skb st)")
    case True
    then obtain s where "batadv_bla_process_claim env me skb st = (s, True)"
      by (cases "batadv_bla_process_claim env me skb st") auto
    then show ?thesis using assms(1,2) by (simp add: batadv_bla_tx_def Let_def)
  next
    case False
    then have "batadv_bla_process_claim env me skb st = (st, False)" using process_not_claim [OF False] by (metis prod.collapse)
    then show ?thesis using assms that by (simp add: batadv_bla_tx_def Let_def)
  qed
  moreover have "snd (batadv_bla_rx env skb vid True st) \<longleftrightarrow> bg_orig g \<noteq> me \<or> bla_num_requests st \<noteq> 0"
    using assms by (simp add: batadv_bla_rx_def Let_def)
  ultimately show ?thesis by blast
qed

lemma bla_two_state:
  "(map_option cl_backbone_gw (batadv_claim_hash_find bla_two 17 0), map_option bg_orig (gw_at bla_two 0),
    map_option cl_backbone_gw (batadv_claim_hash_find bla_two 18 0), map_option bg_orig (gw_at bla_two 1), bla_num_requests bla_two)
   = (Some 0, Some 7, Some 1, Some 5, 0)"
  by code_simp

lemma bla_mesh_frame_fields: "mac_at bla_mesh_frame 6 = 17" "is_multicast_ether_addr (mac_at bla_mesh_frame 0)"
  "mac_at (set_mac 6 18 bla_mesh_frame) 6 = 18" "is_multicast_ether_addr (mac_at (set_mac 6 18 bla_mesh_frame) 0)"
  "ble_on demo_bla" "bla_primary demo_bla = Some 7"
  by code_simp+

lemma bla_two_claims:
  "map_option cl_backbone_gw (batadv_claim_hash_find bla_two 17 0) = Some 0" "map_option bg_orig (gw_at bla_two 0) = Some 7"
  "map_option cl_backbone_gw (batadv_claim_hash_find bla_two 18 0) = Some 1" "map_option bg_orig (gw_at bla_two 1) = Some 5"
  "mac_at bla_mesh_frame 6 = 17" "is_multicast_ether_addr (mac_at bla_mesh_frame 0)" "bla_num_requests bla_two = 0"
  "ble_on demo_bla" "bla_primary demo_bla = Some 7" "mac_at (set_mac 6 18 bla_mesh_frame) 6 = 18"
  "is_multicast_ether_addr (mac_at (set_mac 6 18 bla_mesh_frame) 0)"
  using bla_two_state bla_mesh_frame_fields unfolding prod.inject by blast+

theorem bla_claimed_broadcast_witness:
  "\<not> snd (batadv_bla_rx demo_bla bla_mesh_frame 0 True bla_two)
    \<and> snd (batadv_bla_rx demo_bla (set_mac 6 18 bla_mesh_frame) 0 True bla_two)
    \<and> snd (batadv_bla_tx demo_bla (set_mac 6 18 bla_mesh_frame) 0 bla_two)"
proof -
  note w = bla_two_claims
  obtain c g where c: "batadv_claim_hash_find bla_two 17 0 = Some c" "gw_at bla_two (cl_backbone_gw c) = Some g" "bg_orig g = 7"
    using w(1,2) by auto
  obtain c' g' where c': "batadv_claim_hash_find bla_two 18 0 = Some c'" "gw_at bla_two (cl_backbone_gw c') = Some g'" "bg_orig g' = 5"
    using w(3,4) by auto
  have find: "batadv_claim_hash_find bla_two (mac_at bla_mesh_frame 6) 0 = Some c" unfolding w(5) by (rule c(1))
  have find': "batadv_claim_hash_find bla_two (mac_at (set_mac 6 18 bla_mesh_frame) 6) 0 = Some c'" unfolding w(10) by (rule c'(1))
  have "snd (batadv_bla_rx demo_bla bla_mesh_frame 0 True bla_two) \<longleftrightarrow> bg_orig g \<noteq> 7 \<or> bla_num_requests bla_two \<noteq> 0"
    using bla_claimed_broadcast [OF w(8,9,6) find c(2)] by (rule conjunct1)
  moreover have "(snd (batadv_bla_rx demo_bla (set_mac 6 18 bla_mesh_frame) 0 True bla_two) \<longleftrightarrow> bg_orig g' \<noteq> 7 \<or> bla_num_requests bla_two \<noteq> 0)
    \<and> (bg_orig g' \<noteq> 7 \<longrightarrow> snd (batadv_bla_tx demo_bla (set_mac 6 18 bla_mesh_frame) 0 bla_two))"
    by (rule bla_claimed_broadcast [OF w(8,9,11) find' c'(2)])
  ultimately show ?thesis using c(3) c'(3) w(7) by simp
qed

section \<open>The stop of broadcasts ends\<close>

text \<open>The gateways of \<open>st'\<close> are gateways of \<open>st\<close>, and wait as they did there.\<close>

definition waits_as :: "batadv_bla_backbone_gw \<Rightarrow> batadv_bla_backbone_gw \<Rightarrow> bool" where
  "waits_as g g' \<longleftrightarrow> bg_orig g' = bg_orig g \<and> bg_request_sent g' = bg_request_sent g \<and> bg_wait_periods g' = bg_wait_periods g"

definition wait_kept :: "batadv_priv_bla \<Rightarrow> batadv_priv_bla \<Rightarrow> bool" where
  "wait_kept st st' \<longleftrightarrow> (\<forall>r g'. gw_at st' r = Some g' \<longrightarrow> (\<exists>g. gw_at st r = Some g \<and> waits_as g g'))"

lemma wait_kept_refl [simp]: "wait_kept st st"
  by (simp add: wait_kept_def waits_as_def)

lemma wait_kept_trans: "wait_kept a b \<Longrightarrow> wait_kept b c \<Longrightarrow> wait_kept a c"
  unfolding wait_kept_def waits_as_def by metis

lemma wait_kept_frame: "bla_backbone_hash st' = bla_backbone_hash st \<Longrightarrow> wait_kept st st'"
  by (simp add: wait_kept_def waits_as_def gw_at_def)

lemma wait_kept_upd: "(\<And>g. bg_ref (f g) = bg_ref g \<and> waits_as g (f g)) \<Longrightarrow> wait_kept st (upd_gw r f st)"
  unfolding wait_kept_def by (auto simp: gw_upd waits_as_def)

lemma wait_kept_fold: "(\<And>x s. wait_kept s (F x s)) \<Longrightarrow> wait_kept st (fold F xs st)"
  by (induction xs arbitrary: st) (auto intro: wait_kept_trans)

lemma wait_kept_unclaim:
  assumes "bla_env_ok crc env"
  shows "wait_kept st (fst (batadv_handle_unclaim env me orig addr vid st))"
proof -
  define s1 where "s1 = (if me = Some orig then batadv_bla_send_claim env addr vid BATADV_CLAIM_TYPE_UNCLAIM st else st)"
  have "bla_sent st s1" unfolding s1_def by (simp add: send_claim_sent [OF assms])
  then have 1: "wait_kept st s1" by (intro wait_kept_frame) (simp add: bla_sent_frame)
  have 2: "wait_kept s1 (batadv_bla_del_claim env addr vid s1)"
    unfolding batadv_bla_del_claim_def
    by (auto split: option.split intro!: wait_kept_trans [OF wait_kept_frame wait_kept_upd] simp: crc_toggle_def waits_as_def)
  show ?thesis using 1 wait_kept_trans [OF 1 2] by (simp add: batadv_handle_unclaim_def s1_def [symmetric] Let_def)
qed

lemma wait_kept_event: "wait_kept st (bla_event ev st)"
  by (rule wait_kept_frame) (simp add: bla_event_def)

lemma wait_kept_purge_claims:
  assumes "bla_env_ok crc env"
  shows "wait_kept st (batadv_bla_purge_claims env me now st)"
  unfolding batadv_bla_purge_claims_def
  by (auto intro!: wait_kept_fold split: option.split simp: wait_kept_event wait_kept_unclaim [OF assms])

lemma wait_kept_purge_backbone: "wait_kept st (batadv_bla_purge_backbone_gw env now st)"
proof -
  have del: "wait_kept s (batadv_bla_del_backbone_claims r s)" for r s
    unfolding batadv_bla_del_backbone_claims_def
    by (auto intro!: wait_kept_trans [OF wait_kept_frame wait_kept_upd] simp: waits_as_def)
  have num: "wait_kept s (s\<lparr>bla_num_requests := n\<rparr>)" for s n by (simp add: wait_kept_frame)
  have out: "wait_kept s (s\<lparr>bla_backbone_hash := filter (\<lambda>g. bg_ref g \<noteq> r) (bla_backbone_hash s)\<rparr>)" for r s
  proof -
    have "List.find (\<lambda>g. bg_ref g = x) (filter (\<lambda>g. bg_ref g \<noteq> r) gs) = (if x = r then None else List.find (\<lambda>g. bg_ref g = x) gs)"
      for x and gs :: "batadv_bla_backbone_gw list"
      by (induction gs) auto
    then show ?thesis by (auto simp: wait_kept_def waits_as_def gw_at_def split: if_splits)
  qed
  have removed: "wait_kept s (batadv_bla_del_backbone_claims r t\<lparr>bla_backbone_hash :=
      filter (\<lambda>g. bg_ref g \<noteq> r) (bla_backbone_hash (batadv_bla_del_backbone_claims r t))\<rparr>)" if "wait_kept s t" for r s t
    by (rule wait_kept_trans [OF that wait_kept_trans [OF del out]])
  show ?thesis
    unfolding batadv_bla_purge_backbone_gw_def Let_def by (auto intro!: wait_kept_fold removed num)
qed

text \<open>One run of the worker, seen by an own gateway.\<close>

lemma worker_wait:
  assumes env: "bla_env_ok crc env" and ok: "bla_ok crc st" and on: "ble_on env" "bla_primary env = Some me"
    and g': "gw_at (batadv_bla_periodic_work env st) r = Some g'"
  shows "\<exists>g. gw_at st r = Some g \<and> (bg_orig g = me \<longrightarrow> bg_orig g' = me \<and>
    (if bg_request_sent g = 0 then bg_request_sent g' = 0
     else bg_wait_periods g' = bg_wait_periods g - 1 \<and> (bg_wait_periods g = 1 \<longrightarrow> bg_request_sent g' = 0)))"
proof -
  define s where "s = batadv_bla_purge_backbone_gw env False (batadv_bla_purge_claims env (Some me) False st)"
  have ok_s: "bla_ok crc s" unfolding s_def by (intro purge_backbone_ok purge_claims_ok env ok) simp
  have kept: "wait_kept st s"
    unfolding s_def by (rule wait_kept_trans [OF wait_kept_purge_claims [OF env] wait_kept_purge_backbone])
  have eq: "batadv_bla_periodic_work env st = fold (announce_own env me) (bla_backbone_hash s) s"
    using on ok_s unfolding batadv_bla_periodic_work_def by (simp add: s_def [symmetric] bla_ok_def)
  have loop: "bla_ok crc (fold (announce_own env me) gs t) \<and> (\<forall>x. x \<notin> bg_ref ` set gs \<longrightarrow> gw_at (fold (announce_own env me) gs t) x = gw_at t x)"
    if "bla_ok crc t" "distinct (map bg_ref gs)" "\<forall>g \<in> set gs. gw_at t (bg_ref g) = Some g" for gs t
    using gateway_loop [of crc "announce_own env me", OF announce_own_step(1) [OF env] that] .
  have all: "distinct (map bg_ref (bla_backbone_hash s))" using ok_s by (simp add: bla_ok_def gws_ok_def)
  have members: "\<forall>h \<in> set (bla_backbone_hash s). gw_at s (bg_ref h) = Some h" using gw_at_member [OF ok_s] by blast
  have "r \<in> bg_ref ` set (bla_backbone_hash s)"
  proof (rule ccontr)
    assume no: "r \<notin> bg_ref ` set (bla_backbone_hash s)"
    then have "gw_at s r = None" by (auto simp: gw_at_def find_None_iff)
    with loop [OF ok_s all members] no g' eq show False by auto
  qed
  then obtain h where h: "h \<in> set (bla_backbone_hash s)" "bg_ref h = r" by auto
  from split_list [OF h(1)] obtain us vs where sp: "bla_backbone_hash s = us @ h # vs" by blast
  have du: "distinct (map bg_ref us)" "r \<notin> bg_ref ` set us" "r \<notin> bg_ref ` set vs" "distinct (map bg_ref vs)"
    "bg_ref ` set us \<inter> bg_ref ` set vs = {}"
    using all h(2) unfolding sp by auto
  define s1 where "s1 = fold (announce_own env me) us s"
  have s1: "bla_ok crc s1" "\<forall>x. x \<notin> bg_ref ` set us \<longrightarrow> gw_at s1 x = gw_at s x"
    using loop [OF ok_s du(1)] members unfolding sp s1_def by auto
  have h1: "gw_at s1 (bg_ref h) = Some h" using s1(2) du(2) members h by auto
  define s2 where "s2 = announce_own env me h s1"
  note step = announce_own_step [OF env s1(1) h1, of me, folded s2_def]
  have vs: "\<forall>x \<in> set vs. gw_at s2 (bg_ref x) = Some x"
  proof
    fix x assume x: "x \<in> set vs"
    then have "bg_ref x \<in> bg_ref ` set vs" by simp
    then have "bg_ref x \<notin> bg_ref ` set us" "bg_ref x \<noteq> bg_ref h" using du(3,5) h(2) by (blast, metis)
    then show "gw_at s2 (bg_ref x) = Some x" using step(1) s1(2) members x unfolding sp by auto
  qed
  have last: "gw_at (fold (announce_own env me) vs s2) r = gw_at s2 r"
    using loop [OF conjunct1 [OF step(1)] du(4) vs] du(3) by blast
  then have fin: "gw_at s2 (bg_ref h) = Some g'" using g' eq h(2) unfolding sp by (simp add: s1_def [symmetric] s2_def)
  from kept members h obtain g where g: "gw_at st r = Some g" "waits_as g h" unfolding wait_kept_def by metis
  show ?thesis
  proof (intro exI conjI impI)
    show "gw_at st r = Some g" by (rule g(1))
  qed (use step(2) fin g(2) in \<open>auto simp: waits_as_def split: if_splits\<close>)
qed

text \<open>
  The request a gateway makes of itself when it is created does not stop broadcasts for ever:
  after as many runs of the worker as it has periods to wait the gateway waits no longer, or it
  is gone, whatever has timed out in between.
\<close>

theorem bla_wait_ends:
  assumes "bla_initial st0" "(bla_step crc)\<^sup>*\<^sup>* st0 st"
    and "\<forall>env \<in> set envs. bla_env_ok crc env \<and> ble_on env \<and> bla_primary env = Some me"
    and "gw_at st r = Some g" "bg_orig g = me" "0 < bg_wait_periods g" "bg_wait_periods g \<le> int (length envs)"
  shows "\<forall>g'. gw_at (fold batadv_bla_periodic_work envs st) r = Some g' \<longrightarrow> bg_request_sent g' = 0"
proof -
  have waits: "\<forall>g'. gw_at (fold batadv_bla_periodic_work envs st) r = Some g' \<longrightarrow> bg_request_sent g' = 0"
    if "bla_ok crc st" "\<forall>env \<in> set envs. bla_env_ok crc env \<and> ble_on env \<and> bla_primary env = Some me"
      "\<forall>g. gw_at st r = Some g \<longrightarrow> bg_orig g = me \<and> (bg_request_sent g = 0 \<or> 0 < bg_wait_periods g \<and> bg_wait_periods g \<le> int (length envs))"
    for envs st
    using that
  proof (induction envs arbitrary: st)
    case (Cons env envs)
    let ?st = "batadv_bla_periodic_work env st"
    have env: "bla_env_ok crc env" "ble_on env" "bla_primary env = Some me" using Cons.prems(2) by simp_all
    have later: "\<forall>g'. gw_at ?st r = Some g' \<longrightarrow> bg_orig g' = me \<and> (bg_request_sent g' = 0
        \<or> 0 < bg_wait_periods g' \<and> bg_wait_periods g' \<le> int (length envs))"
    proof (intro allI impI)
      fix g' assume "gw_at ?st r = Some g'"
      from worker_wait [OF env(1) Cons.prems(1) env(2,3) this] obtain g where g: "gw_at st r = Some g"
        "bg_orig g = me \<longrightarrow> bg_orig g' = me \<and> (if bg_request_sent g = 0 then bg_request_sent g' = 0
          else bg_wait_periods g' = bg_wait_periods g - 1 \<and> (bg_wait_periods g = 1 \<longrightarrow> bg_request_sent g' = 0))" by blast
      have "bg_orig g = me" "bg_request_sent g = 0 \<or> 0 < bg_wait_periods g \<and> bg_wait_periods g \<le> int (length envs) + 1"
        using Cons.prems(3) g(1) by auto
      with g(2) show "bg_orig g' = me \<and> (bg_request_sent g' = 0
          \<or> 0 < bg_wait_periods g' \<and> bg_wait_periods g' \<le> int (length envs))"
        by (cases "bg_request_sent g = 0"; cases "bg_wait_periods g = 1") auto
    qed
    have "\<forall>g'. gw_at (fold batadv_bla_periodic_work envs ?st) r = Some g' \<longrightarrow> bg_request_sent g' = 0"
      by (rule Cons.IH [OF periodic_work_ok [OF env(1) Cons.prems(1)] _ later]) (use Cons.prems(2) in simp)
    then show ?case by simp
  qed auto
  show ?thesis
    by (rule waits [OF bla_system.reachable_invariant [OF assms(1,2)] assms(3)]) (use assms(4-7) in auto)
qed

text \<open>A frame from the LAN makes the node a gateway; three runs of the worker later it is released.\<close>

definition bla_waiting :: batadv_priv_bla where
  "bla_waiting = fst (batadv_bla_tx demo_bla bla_mesh_frame 0 bla_new)"

lemma bla_waiting_reached: "(bla_step demo_crc16)\<^sup>*\<^sup>* bla_new bla_waiting"
  unfolding bla_waiting_def by (rule r_into_rtranclp, rule bla_step.tx, rule bla_demo_ok)

lemma worker_single:
  assumes env: "bla_env_ok crc env" and on: "ble_on env" "bla_primary env = Some (bg_orig g)"
    and st: "bla_has_claim_hash st" "bla_has_backbone_hash st" "bla_claim_hash st = []" "bla_backbone_hash st = [g]"
    and g: "\<not> bla_timed_out env (bg_lasttime g) BATADV_BLA_BACKBONE_TIMEOUT" "bg_request_sent g \<noteq> 0"
  shows "bla_claim_hash (batadv_bla_periodic_work env st) = [] \<and> bla_has_claim_hash (batadv_bla_periodic_work env st)
    \<and> bla_has_backbone_hash (batadv_bla_periodic_work env st) \<and> bla_backbone_hash (batadv_bla_periodic_work env st)
      = [g\<lparr>bg_lasttime := bla_now env, bg_wait_periods := bg_wait_periods g - 1,
           bg_request_sent := (if bg_wait_periods g = 1 then 0 else bg_request_sent g)\<rparr>]"
proof -
  have work: "batadv_bla_periodic_work env st = announce_own env (bg_orig g) g st"
    using on st g(1) by (simp add: batadv_bla_periodic_work_def batadv_bla_purge_claims_def batadv_bla_purge_backbone_gw_def)
  define u where "u = upd_gw (bg_ref g) (\<lambda>g. g\<lparr>bg_lasttime := bla_now env\<rparr>) st"
  have u: "bla_backbone_hash u = [g\<lparr>bg_lasttime := bla_now env\<rparr>]" "bla_claim_hash u = []" "bla_has_claim_hash u" "bla_has_backbone_hash u"
    using st by (simp_all add: u_def upd_gw_def)
  have "gw_at u (bg_ref g) = Some (g\<lparr>bg_lasttime := bla_now env\<rparr>)" by (simp add: gw_at_def u(1))
  moreover define s where "s = batadv_bla_send_announce env (bg_ref g) u"
  ultimately have "bla_sent u s" using send_announce_sent [OF env] by simp
  note s = bla_sent_frame [OF this]
  have hash: "bla_backbone_hash (upd_gw r f t) = map (\<lambda>g. if bg_ref g = r then f g else g) (bla_backbone_hash t)" for r f t
    by (simp add: upd_gw_def)
  have "announce_own env (bg_orig g) g st = (let w = upd_gw (bg_ref g) (\<lambda>g. g\<lparr>bg_wait_periods := bg_wait_periods g - 1\<rparr>) s in
      if bg_wait_periods g - 1 \<noteq> 0 then w
      else upd_gw (bg_ref g) (\<lambda>g. g\<lparr>bg_request_sent := 0\<rparr>) (w\<lparr>bla_num_requests := bla_num_requests w - 1\<rparr>))"
    using g(2) unfolding announce_own_def Let_def u_def [symmetric] s_def [symmetric] by simp
  with work u s show ?thesis by (simp add: hash Let_def)
qed

lemma bla_waiting_state:
  "(map (\<lambda>g. (bg_orig g, bg_request_sent g, bg_wait_periods g, bg_ref g, bg_lasttime g)) (bla_backbone_hash bla_waiting),
    map cl_addr (bla_claim_hash bla_waiting), bla_has_claim_hash bla_waiting, bla_has_backbone_hash bla_waiting)
   = ([(7, 1, 3, 0, 1000)], [], True, True)"
  by code_simp

lemma bla_demo_clock: "bla_timed_out demo_bla 1000 60000 = False" "bla_now demo_bla = 1000"
  by code_simp+

theorem bla_wait_ends_witness:
  "\<exists>g g'. gw_at bla_waiting 0 = Some g \<and> bg_request_sent g = 1
    \<and> gw_at (fold batadv_bla_periodic_work [demo_bla, demo_bla, demo_bla] bla_waiting) 0 = Some g' \<and> bg_request_sent g' = 0"
proof -
  have t: "map (\<lambda>g. (bg_orig g, bg_request_sent g, bg_wait_periods g, bg_ref g, bg_lasttime g)) (bla_backbone_hash bla_waiting) = [(7, 1, 3, 0, 1000)]"
    "map cl_addr (bla_claim_hash bla_waiting) = []" "bla_has_claim_hash bla_waiting" "bla_has_backbone_hash bla_waiting"
    "bla_timed_out demo_bla 1000 60000 = False" "bla_now demo_bla = 1000"
    using bla_waiting_state bla_demo_clock unfolding prod.inject by blast+
  note single = worker_single [OF bla_demo_ok bla_two_claims(8)]
  obtain g where g: "bla_backbone_hash bla_waiting = [g]" "bg_orig g = 7" "bg_request_sent g = 1" "bg_wait_periods g = 3" "bg_ref g = 0"
    "bg_lasttime g = 1000"
    using t(1) by (cases "bla_backbone_hash bla_waiting") auto
  let ?w = batadv_bla_periodic_work and ?e = demo_bla
  have w1: "bla_claim_hash (?w ?e bla_waiting) = [] \<and> bla_has_claim_hash (?w ?e bla_waiting) \<and> bla_has_backbone_hash (?w ?e bla_waiting)
    \<and> bla_backbone_hash (?w ?e bla_waiting) = [g\<lparr>bg_wait_periods := 2\<rparr>]"
    using single [of g bla_waiting] bla_two_claims(9) t g by simp
  have w2: "bla_claim_hash (?w ?e (?w ?e bla_waiting)) = [] \<and> bla_has_claim_hash (?w ?e (?w ?e bla_waiting))
    \<and> bla_has_backbone_hash (?w ?e (?w ?e bla_waiting)) \<and> bla_backbone_hash (?w ?e (?w ?e bla_waiting)) = [g\<lparr>bg_wait_periods := 1\<rparr>]"
    using single [of "g\<lparr>bg_wait_periods := 2\<rparr>" "?w ?e bla_waiting"] w1 bla_two_claims(9) t(5,6) g(2,3,6) by simp
  have w3: "bla_backbone_hash (?w ?e (?w ?e (?w ?e bla_waiting))) = [g\<lparr>bg_wait_periods := 0, bg_request_sent := 0\<rparr>]"
    using single [of "g\<lparr>bg_wait_periods := 1\<rparr>" "?w ?e (?w ?e bla_waiting)"] w2 bla_two_claims(9) t(5,6) g(2,3,6) by simp
  then obtain g' where g': "gw_at (fold ?w [?e, ?e, ?e] bla_waiting) 0 = Some g'" using g(5) by (simp add: gw_at_def)
  have at: "gw_at bla_waiting 0 = Some g" using g(1,5) by (simp add: gw_at_def)
  have "\<forall>g'. gw_at (fold ?w [?e, ?e, ?e] bla_waiting) 0 = Some g' \<longrightarrow> bg_request_sent g' = 0"
    by (rule bla_wait_ends [OF bla_new_initial bla_waiting_reached _ at g(2)]) (use g(4) bla_demo_ok bla_two_claims(8,9) in simp_all)
  with at g(3) g' show ?thesis by blast
qed

text \<open>
  The first frame decides how a node becomes a gateway. After a frame from the LAN it has announced itself and
  waits; after a frame from the mesh it has claimed the client at once and waits for nothing, since
  \<^verbatim>\<open>batadv_handle_claim\<close> has created the gateway before \<^verbatim>\<open>batadv_bla_update_own_backbone_gw\<close> looks for it.
\<close>

lemma bla_first_frame:
  "(let st = fst (batadv_bla_tx demo_bla bla_mesh_frame 0 bla_new) in (map bg_request_sent (bla_backbone_hash st), length (bla_out st)),
    let st = fst (batadv_bla_rx demo_bla bla_mesh_frame 0 True bla_new) in
      (map bg_request_sent (bla_backbone_hash st), bla_out st = [Bla_Frame (set_mac 6 17 (the (demo_arp 7 (claim_dst 0 7))))]))
   = (([1], 1), ([0], True))"
  by code_simp

end
