(* ===== verification/Bla_Dup.thy ===== *)
theory Bla_Dup
  imports Bla_Run
begin

text \<open>The list of the last broadcasts: what another gateway has sent is not accepted again.\<close>

definition duplist_entries :: "batadv_priv_bla \<Rightarrow> batadv_bcast_duplist_entry list" where
  "duplist_entries st = map (\<lambda>i. bla_bcast_duplist st ! ((bla_bcast_duplist_curr st + i) mod 16)) [0..<16]"

definition duplist_shape :: "batadv_priv_bla \<Rightarrow> bool" where
  "duplist_shape st \<longleftrightarrow> length (bla_bcast_duplist st) = 16 \<and> bla_bcast_duplist_curr st < 16"

definition duplist_entry :: "bla_env \<Rightarrow> u8 list \<Rightarrow> batadv_bcast_duplist_entry" where
  "duplist_entry env skb = \<lparr>de_orig = mac_at skb 8, de_crc = batadv_skb_crc32 (ble_tt env) skb BCAST_HLEN, de_entrytime = bla_now env\<rparr>"

lemma check_duplist_cases:
  assumes "duplist_shape st"
  shows "batadv_bla_check_bcast_duplist env skb st = (st, True) \<and>
      duplist_scan env (batadv_skb_crc32 (ble_tt env) skb BCAST_HLEN) (mac_at skb 8) (duplist_entries st)
    \<or> (\<exists>st'. batadv_bla_check_bcast_duplist env skb st = (st', False) \<and> duplist_shape st'
        \<and> duplist_entries st' = duplist_entry env skb # take 15 (duplist_entries st))"
proof (cases "duplist_scan env (batadv_skb_crc32 (ble_tt env) skb BCAST_HLEN) (mac_at skb 8) (duplist_entries st)")
  case True
  then show ?thesis by (simp add: batadv_bla_check_bcast_duplist_def duplist_entries_def Let_def)
next
  case False
  let ?c = "bla_bcast_duplist_curr st" and ?l = "bla_bcast_duplist st"
  let ?c' = "(?c + 15) mod 16"
  let ?st' = "st\<lparr>bla_bcast_duplist := ?l[?c' := duplist_entry env skb], bla_bcast_duplist_curr := ?c'\<rparr>"
  have eq: "batadv_bla_check_bcast_duplist env skb st = (?st', False)"
    using False by (simp add: batadv_bla_check_bcast_duplist_def duplist_entries_def Let_def duplist_entry_def add.commute)
  have len: "length ?l = 16" "?c < 16" using assms by (simp_all add: duplist_shape_def)
  have "duplist_entries ?st' = duplist_entry env skb # take 15 (duplist_entries st)"
  proof (rule nth_equalityI)
    fix i assume "i < length (duplist_entries ?st')"
    then have i: "i < 16" by (simp add: duplist_entries_def)
    show "duplist_entries ?st' ! i = (duplist_entry env skb # take 15 (duplist_entries st)) ! i"
    proof (cases i)
      case 0
      then show ?thesis using len by (simp add: duplist_entries_def)
    next
      case (Suc j)
      then have j: "j < 15" using i by simp
      have pos: "(?c' + Suc j) mod 16 = (?c + j) mod 16"
      proof -
        have "(?c' + Suc j) mod 16 = (?c + 15 + Suc j) mod 16" by (simp only: mod_add_left_eq)
        also have "\<dots> = (?c + j + 16) mod 16" by (simp add: ac_simps)
        finally show ?thesis by simp
      qed
      have "(?c + j) mod 16 \<noteq> ?c'"
      proof (cases "?c = 0")
        case True
        with j show ?thesis by simp
      next
        case False
        then have "?c' = ?c - 1" using len(2) by (simp add: mod_if)
        moreover have "(?c + j) mod 16 \<noteq> ?c - 1"
          using False j len(2) mod_if [of "?c + j" 16] by (cases "?c + j < 16") (auto simp: le_mod_geq)
        ultimately show ?thesis by simp
      qed
      with pos Suc i j show ?thesis by (simp add: duplist_entries_def nth_list_update_neq)
    qed
  qed (simp add: duplist_entries_def)
  then show ?thesis using eq len by (auto simp: duplist_shape_def)
qed

lemma duplist_scan_hit:
  assumes "n < length es" "\<forall>i \<le> n. \<not> bla_timed_out env (de_entrytime (es ! i)) BATADV_DUPLIST_TIMEOUT"
    "de_crc (es ! n) = sum16" "de_orig (es ! n) \<noteq> orig"
  shows "duplist_scan env sum16 orig es"
  using assms
proof (induction es arbitrary: n)
  case (Cons e es)
  have fresh: "\<not> bla_timed_out env (de_entrytime e) BATADV_DUPLIST_TIMEOUT" using Cons.prems(2) by auto
  show ?case
  proof (cases n)
    case 0
    with Cons.prems fresh show ?thesis by simp
  next
    case (Suc m)
    have "duplist_scan env sum16 orig es"
    proof (rule Cons.IH)
      show "\<forall>i \<le> m. \<not> bla_timed_out env (de_entrytime (es ! i)) BATADV_DUPLIST_TIMEOUT"
        using Cons.prems(2) Suc by (auto dest: spec [of _ "Suc _"])
    qed (use Cons.prems Suc in simp_all)
    with fresh show ?thesis by simp
  qed
qed simp

definition check_all :: "(bla_env \<times> u8 list) list \<Rightarrow> batadv_priv_bla \<Rightarrow> batadv_priv_bla" where
  "check_all = fold (\<lambda>(env, skb) st. fst (batadv_bla_check_bcast_duplist env skb st))"

text \<open>An entry moves back by one with every new broadcast.\<close>

lemma check_all_entry:
  assumes "duplist_shape st" "n + length later < 16" "duplist_entries st ! n = e"
    and "\<forall>i \<le> n. \<not> bla_timed_out env (de_entrytime (duplist_entries st ! i)) BATADV_DUPLIST_TIMEOUT"
    and "\<forall>(env', skb) \<in> set later. \<not> bla_timed_out env (bla_now env') BATADV_DUPLIST_TIMEOUT"
  shows "duplist_shape (check_all later st) \<and> (\<exists>m < 16. duplist_entries (check_all later st) ! m = e
    \<and> (\<forall>i \<le> m. \<not> bla_timed_out env (de_entrytime (duplist_entries (check_all later st) ! i)) BATADV_DUPLIST_TIMEOUT))"
  using assms
proof (induction later arbitrary: st n)
  case Nil
  then show ?case by (auto simp: check_all_def)
next
  case (Cons x later)
  obtain env' skb where x: "x = (env', skb)" by (cases x)
  from check_duplist_cases [OF Cons.prems(1), of env' skb] show ?case
  proof (elim disjE exE conjE)
    assume "batadv_bla_check_bcast_duplist env' skb st = (st, True)"
    then have "check_all (x # later) st = check_all later st" by (simp add: check_all_def x)
    with Cons.IH [OF Cons.prems(1) _ Cons.prems(3,4)] Cons.prems(2,5) show ?thesis by simp
  next
    fix st' assume st': "batadv_bla_check_bcast_duplist env' skb st = (st', False)" "duplist_shape st'"
      "duplist_entries st' = duplist_entry env' skb # take 15 (duplist_entries st)"
    have n: "n < 15" using Cons.prems(2) by simp
    have nth: "duplist_entries st' ! Suc i = duplist_entries st ! i" if "i \<le> n" for i
      using that n by (simp add: st'(3))
    have "check_all (x # later) st = check_all later st'" by (simp add: check_all_def x st'(1))
    moreover have "\<not> bla_timed_out env (de_entrytime (duplist_entries st' ! i)) BATADV_DUPLIST_TIMEOUT" if "i \<le> Suc n" for i
    proof (cases i)
      case 0
      then show ?thesis using Cons.prems(5) by (simp add: st'(3) duplist_entry_def x)
    next
      case (Suc j)
      with that show ?thesis using nth [of j] Cons.prems(4) by simp
    qed
    ultimately show ?thesis
      using Cons.IH [OF st'(2), of "Suc n"] nth [of n] Cons.prems(2,3,5) by simp
  qed
qed

text \<open>
  C21. A broadcast that one gateway has brought into the mesh is not accepted from another one: if a
  broadcast has passed the list, then the same payload from another originator is refused for as
  long as the entry is young and at most 15 other broadcasts have been looked at in between.
\<close>

theorem bla_duplicate_refused:
  assumes "duplist_shape st" "\<not> snd (batadv_bla_check_bcast_duplist env0 skb0 st)" "length later < 16"
    and "\<forall>(env', _) \<in> set ((env0, skb0) # later). \<not> bla_timed_out env (bla_now env') BATADV_DUPLIST_TIMEOUT"
    and "te_crc32c (ble_tt env) = te_crc32c (ble_tt env0)" "drop BCAST_HLEN skb = drop BCAST_HLEN skb0" "mac_at skb 8 \<noteq> mac_at skb0 8"
  shows "snd (batadv_bla_check_bcast_duplist env skb (check_all ((env0, skb0) # later) st))"
proof -
  let ?e = "duplist_entry env0 skb0"
  obtain st' where st': "batadv_bla_check_bcast_duplist env0 skb0 st = (st', False)" "duplist_shape st'"
    "duplist_entries st' = ?e # take 15 (duplist_entries st)"
    using check_duplist_cases [OF assms(1), of env0 skb0] assms(2) by auto
  let ?s = "check_all later st'"
  have "duplist_shape ?s \<and> (\<exists>m < 16. duplist_entries ?s ! m = ?e
    \<and> (\<forall>i \<le> m. \<not> bla_timed_out env (de_entrytime (duplist_entries ?s ! i)) BATADV_DUPLIST_TIMEOUT))"
    by (rule check_all_entry [OF st'(2), of 0]) (use assms(3,4) st'(3) in \<open>auto simp: duplist_entry_def\<close>)
  then obtain m where m: "duplist_shape ?s" "m < 16" "duplist_entries ?s ! m = ?e"
    "\<forall>i \<le> m. \<not> bla_timed_out env (de_entrytime (duplist_entries ?s ! i)) BATADV_DUPLIST_TIMEOUT" by blast
  have "duplist_scan env (batadv_skb_crc32 (ble_tt env) skb BCAST_HLEN) (mac_at skb 8) (duplist_entries ?s)"
  proof (rule duplist_scan_hit [OF _ m(4)])
    show "m < length (duplist_entries ?s)" using m(2) by (simp add: duplist_entries_def)
    show "de_crc (duplist_entries ?s ! m) = batadv_skb_crc32 (ble_tt env) skb BCAST_HLEN"
      unfolding m(3) using assms(5,6) by (simp add: duplist_entry_def batadv_skb_crc32_def)
    show "de_orig (duplist_entries ?s ! m) \<noteq> mac_at skb 8" unfolding m(3) using assms(7) by (simp add: duplist_entry_def)
  qed
  then have "snd (batadv_bla_check_bcast_duplist env skb ?s)"
    by (simp add: batadv_bla_check_bcast_duplist_def duplist_entries_def Let_def)
  then show ?thesis by (simp add: check_all_def st'(1))
qed

definition dup_frame :: "mac \<Rightarrow> u8 \<Rightarrow> u8 list" where
  "dup_frame orig payload = replicate 8 0 @ be_bytes 6 orig @ [payload]"

theorem bla_duplicate_refused_witness:
  "snd (batadv_bla_check_bcast_duplist demo_bla (dup_frame 9 5)
     (check_all [(demo_bla, dup_frame 8 5), (demo_bla, dup_frame 8 6)] (bla_zero tt_priv_init)))"
proof (rule bla_duplicate_refused)
  show "duplist_shape (bla_zero tt_priv_init)" by (simp add: duplist_shape_def bla_zero_def)
  have "\<not> bla_timed_out demo_bla (bla_now demo_bla) 500" by (simp add: batadv_has_timed_out_def demo_bla_def own_env_def time_before_def)
  then show "\<forall>(env', _) \<in> set ((demo_bla, dup_frame 8 5) # [(demo_bla, dup_frame 8 6)]). \<not> bla_timed_out demo_bla (bla_now env') 500" by simp
  show "\<not> snd (batadv_bla_check_bcast_duplist demo_bla (dup_frame 8 5) (bla_zero tt_priv_init))" by code_simp
qed (simp_all add: dup_frame_def mac_at_def)

end
