(* ===== verification/Dat.thy ===== *)
theory Dat
  imports Routing_Recv Tt_Msg Hash
begin

text \<open>
  The distributed ARP table (\<^verbatim>\<open>distributed-arp-table.c\<close>, \<^verbatim>\<open>distributed-arp-table.h\<close>): every node keeps
  a cache of the addresses it has seen in ARP frames. An address is also stored by up to three
  other nodes, the candidates, which are found by hashing the IP address and the VLAN onto a ring
  on which the originators have addresses; requests go to the same candidates.

  The cache is the kernel hash table with the hash function of the code. The originators are
  those of the node's originator table; the capability bit \<^verbatim>\<open>BATADV_ORIG_CAPA_HAS_DAT\<close> of each is the
  state of the tvlv handler. IP addresses are numbers, read from the packet in network order.
  What is handed to the network stack of the node is recorded in \<open>dat_out\<close>, as is an access
  through a null pointer; packets for the mesh are recorded in the node.
\<close>

section \<open>State\<close>

record batadv_dat_entry =
  da_ip :: u32
  da_mac_addr :: mac
  da_vid :: u16
  da_last_update :: jiffies

record batadv_dat_candidate =
  dc_type :: int
  dc_orig_node :: mac

abbreviation (input) BATADV_DAT_CANDIDATE_NOT_FOUND :: int where "BATADV_DAT_CANDIDATE_NOT_FOUND \<equiv> 0"
abbreviation (input) BATADV_DAT_CANDIDATE_ORIG :: int where "BATADV_DAT_CANDIDATE_ORIG \<equiv> 1"
abbreviation (input) BATADV_DAT_CANDIDATES_NUM :: nat where "BATADV_DAT_CANDIDATES_NUM \<equiv> 3"
abbreviation (input) BATADV_DAT_ADDR_MAX :: "'a::len word" where "BATADV_DAT_ADDR_MAX \<equiv> 0xFFFF"
abbreviation (input) BATADV_DAT_ENTRY_TIMEOUT :: nat where "BATADV_DAT_ENTRY_TIMEOUT \<equiv> 300000"
abbreviation (input) BATADV_P_DAT_DHT_GET :: u8 where "BATADV_P_DAT_DHT_GET \<equiv> 2"
abbreviation (input) BATADV_P_DAT_DHT_PUT :: u8 where "BATADV_P_DAT_DHT_PUT \<equiv> 3"
abbreviation (input) BATADV_P_DAT_CACHE_REPLY :: u8 where "BATADV_P_DAT_CACHE_REPLY \<equiv> 4"
abbreviation (input) BATADV_TVLV_DAT :: u8 where "BATADV_TVLV_DAT \<equiv> 2"
abbreviation (input) ETH_P_ARP :: u16 where "ETH_P_ARP \<equiv> 0x0806"
abbreviation (input) ETH_P_IP :: u16 where "ETH_P_IP \<equiv> 0x0800"
abbreviation (input) ARPHRD_ETHER :: u16 where "ARPHRD_ETHER \<equiv> 1"
abbreviation (input) ARPOP_REQUEST :: u16 where "ARPOP_REQUEST \<equiv> 1"
abbreviation (input) ARPOP_REPLY :: u16 where "ARPOP_REPLY \<equiv> 2"
abbreviation (input) ARP_HLEN :: nat where "ARP_HLEN \<equiv> 28"
abbreviation (input) ENOMEM :: int where "ENOMEM \<equiv> 12"

datatype dat_event = Dat_Netif_Rx "u8 list" | Dat_Bad_Access

record batadv_priv_dat =
  dat_addr :: u16
  dat_hash :: "batadv_dat_entry batadv_hashtable option"
  dat_distributed_arp_table :: int
  dat_node :: "(mac \<Rightarrow> bool) batadv_node"
  dat_out :: "dat_event list"

text \<open>
  The environment: the byte order of the machine, the hash function of the kernel, the outcome of
  allocations and what allocated memory held, the functions of the network stack that make an
  ARP frame (its arguments are the target IP, the source IP, the destination, source and target
  hardware address) and put a VLAN tag into one, and the environment of the receive path.
\<close>

datatype dat_site = Dat_Entry | Dat_Candidates | Dat_Copy mac | Dat_Tvlv | Dat_Hash nat

record dat_env =
  dae_big_endian :: bool
  dae_jhash :: "u8 list \<Rightarrow> u32"
  dae_alloc :: "dat_site \<Rightarrow> bool"
  dae_junk_cand :: "nat \<Rightarrow> batadv_dat_candidate"
  dae_junk :: "nat \<Rightarrow> u8"
  dae_arp_reply :: "u32 \<Rightarrow> u32 \<Rightarrow> mac \<Rightarrow> mac \<Rightarrow> mac \<Rightarrow> u8 list option"
  dae_insert_tag :: "u8 list \<Rightarrow> u16 \<Rightarrow> u8 list option"
  dae_rt :: rt_env

definition dat_event :: "dat_event \<Rightarrow> batadv_priv_dat \<Rightarrow> batadv_priv_dat" where
  "dat_event ev st = st\<lparr>dat_out := dat_out st @ [ev]\<rparr>"

definition dat_origs :: "batadv_priv_dat \<Rightarrow> mac list" where
  "dat_origs st = map fst (bp_orig_hash (nd_priv (dat_node st)))"

definition has_dat :: "batadv_priv_dat \<Rightarrow> mac \<Rightarrow> bool" where
  "has_dat st orig = tv_clients (nd_tvlv (dat_node st)) orig"

section \<open>The cache\<close>

text \<open>One byte of the key is mixed into the hash; the final mixing.\<close>

definition hash_byte :: "u32 \<Rightarrow> u8 \<Rightarrow> u32" where
  "hash_byte h b = (let h = h + ucast b; h = h + push_bit 10 h in h XOR drop_bit 6 h)"

definition hash_end :: "u32 \<Rightarrow> u32" where
  "hash_end h = (let h = h + push_bit 3 h; h = h XOR drop_bit 11 h in h + push_bit 15 h)"

text \<open>The IP address is in network order in memory, the VLAN identifier in the order of the machine.\<close>

definition batadv_hash_dat :: "bool \<Rightarrow> u32 \<times> u16 \<Rightarrow> u32 \<Rightarrow> u32" where
  "batadv_hash_dat big_endian key sz =
     (case key of (ip, vid) \<Rightarrow>
        hash_end (fold (\<lambda>b h. hash_byte h b)
          (be_bytes 4 ip @ (if big_endian then be_bytes 2 vid else rev (be_bytes 2 vid))) 0) mod sz)"

definition batadv_dat_to_purge :: "dat_env \<Rightarrow> batadv_dat_entry \<Rightarrow> bool" where
  "batadv_dat_to_purge env e =
     batadv_has_timed_out (re_m2j (dae_rt env)) (re_now (dae_rt env)) (da_last_update e) BATADV_DAT_ENTRY_TIMEOUT"

text \<open>\<^verbatim>\<open>__batadv_dat_purge\<close>\<close>

definition dat_purge_entries :: "(batadv_dat_entry \<Rightarrow> bool) option \<Rightarrow> batadv_priv_dat \<Rightarrow> batadv_priv_dat" where
  "dat_purge_entries to_purge st =
     (case dat_hash st of
        None \<Rightarrow> st
      | Some hash \<Rightarrow>
          let purge = (case to_purge of None \<Rightarrow> (\<lambda>_. True) | Some p \<Rightarrow> p)
          in st\<lparr>dat_hash := Some (hash\<lparr>bh_table := map (filter (\<lambda>e. \<not> purge e)) (bh_table hash)\<rparr>)\<rparr>)"

definition batadv_dat_purge :: "dat_env \<Rightarrow> batadv_priv_dat \<Rightarrow> batadv_priv_dat" where
  "batadv_dat_purge env st = dat_purge_entries (Some (batadv_dat_to_purge env)) st"

text \<open>Two entries are compared by the IP address alone.\<close>

definition batadv_compare_dat :: "batadv_dat_entry \<Rightarrow> u32 \<times> u16 \<Rightarrow> bool" where
  "batadv_compare_dat e key \<longleftrightarrow> da_ip e = fst key"

definition batadv_dat_entry_hash_find :: "dat_env \<Rightarrow> batadv_priv_dat \<Rightarrow> u32 \<Rightarrow> u16 \<Rightarrow> batadv_dat_entry option" where
  "batadv_dat_entry_hash_find env st ip vid =
     (case dat_hash st of
        None \<Rightarrow> None
      | Some hash \<Rightarrow> batadv_hash_find hash batadv_compare_dat (batadv_hash_dat (dae_big_endian env)) (ip, vid))"

text \<open>A write through the pointer the search has found.\<close>

definition dat_entry_touch :: "dat_env \<Rightarrow> u32 \<Rightarrow> mac \<Rightarrow> u16 \<Rightarrow> batadv_dat_entry batadv_hashtable \<Rightarrow> batadv_dat_entry batadv_hashtable" where
  "dat_entry_touch env ip mac_addr vid hash =
     (let index = unat (batadv_hash_dat (dae_big_endian env) (ip, vid) (bh_size hash))
      in hash\<lparr>bh_table := (bh_table hash)[index := upd_first (\<lambda>e. batadv_compare_dat e (ip, vid))
           (\<lambda>e. e\<lparr>da_mac_addr := mac_addr, da_last_update := re_now (dae_rt env)\<rparr>) (bh_table hash ! index)]\<rparr>)"

definition batadv_dat_entry_add :: "dat_env \<Rightarrow> u32 \<Rightarrow> mac \<Rightarrow> u16 \<Rightarrow> batadv_priv_dat \<Rightarrow> batadv_priv_dat" where
  "batadv_dat_entry_add env ip mac_addr vid st =
     (case batadv_dat_entry_hash_find env st ip vid of
        Some _ \<Rightarrow> st\<lparr>dat_hash := map_option (dat_entry_touch env ip mac_addr vid) (dat_hash st)\<rparr>
      | None \<Rightarrow>
          if \<not> dae_alloc env Dat_Entry then st
          else
            let dat_entry = \<lparr>da_ip = ip, da_mac_addr = mac_addr, da_vid = vid, da_last_update = re_now (dae_rt env)\<rparr>
            in st\<lparr>dat_hash := fst (batadv_hash_add (dat_hash st) batadv_compare_dat
                   (batadv_hash_dat (dae_big_endian env)) (ip, vid) dat_entry)\<rparr>)"

section \<open>Candidates\<close>

definition batadv_choose_orig :: "dat_env \<Rightarrow> mac \<Rightarrow> u32 \<Rightarrow> u32" where
  "batadv_choose_orig env orig sz = dae_jhash env (be_bytes 6 orig) mod sz"

text \<open>The address of an originator on the ring, and that of the node itself.\<close>

definition batadv_dat_init_orig_node_addr :: "dat_env \<Rightarrow> mac \<Rightarrow> u16" where
  "batadv_dat_init_orig_node_addr env orig = ucast (batadv_choose_orig env orig BATADV_DAT_ADDR_MAX)"

definition batadv_dat_init_own_addr :: "dat_env \<Rightarrow> iface \<Rightarrow> batadv_priv_dat \<Rightarrow> batadv_priv_dat" where
  "batadv_dat_init_own_addr env primary_if st =
     st\<lparr>dat_addr := ucast (batadv_choose_orig env (hi_dev_addr (bp_iface (nd_priv (dat_node st)) primary_if)) BATADV_DAT_ADDR_MAX)\<rparr>"

text \<open>
  \<open>res\<close> are the candidates of the rounds before. The comparison of two addresses
  (\<^verbatim>\<open>batadv_compare_eth\<close>) is a truth value, so that "greater than zero" says that they are equal.
\<close>

definition batadv_is_orig_node_eligible ::
    "batadv_priv_dat \<Rightarrow> batadv_dat_candidate list \<Rightarrow> u16 \<Rightarrow> u16 \<Rightarrow> u16 \<Rightarrow> mac \<Rightarrow> mac option \<Rightarrow> bool" where
  "batadv_is_orig_node_eligible st res tmp_max maxi last_max candidate max_orig_node \<longleftrightarrow>
     has_dat st candidate
     \<and> \<not> list_ex (\<lambda>c. dc_orig_node c = candidate) res
     \<and> \<not> tmp_max > last_max
     \<and> \<not> tmp_max < maxi
     \<and> \<not> (tmp_max = maxi \<and> (case max_orig_node of None \<Rightarrow> False | Some m \<Rightarrow> candidate = m))"

text \<open>The loop over the originators.\<close>

fun choose_scan ::
    "dat_env \<Rightarrow> batadv_priv_dat \<Rightarrow> batadv_dat_candidate list \<Rightarrow> u16 \<Rightarrow> u16 \<Rightarrow> mac list \<Rightarrow> u16 \<Rightarrow> mac option \<Rightarrow> u16 \<times> mac option" where
  "choose_scan env st res ip_key last_max [] maxi max_orig_node = (maxi, max_orig_node)"
| "choose_scan env st res ip_key last_max (orig_node # origs) maxi max_orig_node =
     (let tmp_max = BATADV_DAT_ADDR_MAX - batadv_dat_init_orig_node_addr env orig_node + ip_key
      in if batadv_is_orig_node_eligible st res tmp_max maxi last_max orig_node max_orig_node
         then choose_scan env st res ip_key last_max origs tmp_max (Some orig_node)
         else choose_scan env st res ip_key last_max origs maxi max_orig_node)"

definition batadv_choose_next_candidate ::
    "dat_env \<Rightarrow> batadv_priv_dat \<Rightarrow> u16 \<Rightarrow> nat \<Rightarrow> batadv_dat_candidate list \<times> u16 \<Rightarrow> batadv_dat_candidate list \<times> u16" where
  "batadv_choose_next_candidate env st ip_key select cands_last_max =
     (let (cands, last_max) = cands_last_max;
          cands = cands[select := (cands ! select)\<lparr>dc_type := BATADV_DAT_CANDIDATE_NOT_FOUND\<rparr>];
          (maxi, max_orig_node) = choose_scan env st (take select cands) ip_key last_max (dat_origs st) 0 None
      in (case max_orig_node of
            None \<Rightarrow> cands
          | Some m \<Rightarrow> cands[select := \<lparr>dc_type = BATADV_DAT_CANDIDATE_ORIG, dc_orig_node = m\<rparr>], maxi))"

text \<open>The array comes from \<^verbatim>\<open>kmalloc\<close> and holds whatever the memory held.\<close>

definition batadv_dat_select_candidates ::
    "dat_env \<Rightarrow> batadv_priv_dat \<Rightarrow> u32 \<Rightarrow> u16 \<Rightarrow> batadv_dat_candidate list option" where
  "batadv_dat_select_candidates env st ip_dst vid =
     (if \<not> dae_alloc env Dat_Candidates then None
      else
        let res = map (dae_junk_cand env) [0..<BATADV_DAT_CANDIDATES_NUM];
            ip_key = ucast (batadv_hash_dat (dae_big_endian env) (ip_dst, vid) BATADV_DAT_ADDR_MAX)
        in Some (fst (fold (batadv_choose_next_candidate env st ip_key) [0..<BATADV_DAT_CANDIDATES_NUM]
                   (res, BATADV_DAT_ADDR_MAX))))"

text \<open>
  One candidate gets its copy; \<open>True\<close> if it was sent. A copy that could not be made is a null pointer, which
  is used when there is a primary interface.
\<close>

definition dat_send_to ::
    "dat_env \<Rightarrow> u8 list \<Rightarrow> u8 \<Rightarrow> mac \<Rightarrow> batadv_priv_dat \<Rightarrow> batadv_priv_dat \<times> bool" where
  "dat_send_to env skb packet_subtype orig_node st =
     (let priv = nd_priv (dat_node st) in
      case batadv_orig_router_get (orig_at priv orig_node) BATADV_IF_DEFAULT of
        None \<Rightarrow> (st, False)
      | Some n \<Rightarrow>
          if \<not> dae_alloc env (Dat_Copy orig_node)
          then (if primary_addr priv = None then (st, False) else (dat_event Dat_Bad_Access st, False))
          else (case batadv_send_skb_prepare_unicast_4addr (dae_rt env) (dae_junk env) priv skb orig_node packet_subtype of
                  None \<Rightarrow> (st, False)
                | Some tmp_skb \<Rightarrow>
                    (case batadv_send_unicast_skb (dae_rt env) tmp_skb (on_neigh (orig_at priv orig_node) n) (dat_node st) of
                       (nd, send_status) \<Rightarrow> (st\<lparr>dat_node := nd\<rparr>, send_status = NET_XMIT_SUCCESS))))"

definition batadv_dat_send_data ::
    "dat_env \<Rightarrow> u8 list \<Rightarrow> u32 \<Rightarrow> u16 \<Rightarrow> u8 \<Rightarrow> batadv_priv_dat \<Rightarrow> batadv_priv_dat \<times> bool" where
  "batadv_dat_send_data env skb ip vid packet_subtype st =
     (case batadv_dat_select_candidates env st ip vid of
        None \<Rightarrow> (st, False)
      | Some cand \<Rightarrow>
          fold (\<lambda>c (st, ret). if dc_type c = BATADV_DAT_CANDIDATE_NOT_FOUND then (st, ret)
                               else (case dat_send_to env skb packet_subtype (dc_orig_node c) st of (st, r) \<Rightarrow> (st, ret \<or> r)))
            cand (st, False))"

section \<open>Settings, start and end\<close>

definition upd_tvlv :: "((mac \<Rightarrow> bool) batadv_priv_tvlv \<Rightarrow> (mac \<Rightarrow> bool) batadv_priv_tvlv) \<Rightarrow> batadv_priv_dat \<Rightarrow> batadv_priv_dat" where
  "upd_tvlv f st = st\<lparr>dat_node := (dat_node st)\<lparr>nd_tvlv := f (nd_tvlv (dat_node st))\<rparr>\<rparr>"

definition batadv_dat_tvlv_container_update :: "dat_env \<Rightarrow> batadv_priv_dat \<Rightarrow> batadv_priv_dat" where
  "batadv_dat_tvlv_container_update env st =
     (let dat_mode = word_of_int (dat_distributed_arp_table st) :: u8 in
      if dat_mode = 0 then upd_tvlv (batadv_tvlv_container_unregister BATADV_TVLV_DAT 1) st
      else if dat_mode = 1 then upd_tvlv (batadv_tvlv_container_register (dae_alloc env Dat_Tvlv) BATADV_TVLV_DAT 1 None 0) st
      else st)"

definition batadv_dat_status_update :: "dat_env \<Rightarrow> batadv_priv_dat \<Rightarrow> batadv_priv_dat" where
  "batadv_dat_status_update env st = batadv_dat_tvlv_container_update env st"

text \<open>The handler of a message of an originator; it is called without one for a message of the node itself.\<close>

definition batadv_dat_tvlv_ogm_handler_v1 :: "(mac \<Rightarrow> bool) \<Rightarrow> mac option \<Rightarrow> u8 \<Rightarrow> u8 list \<Rightarrow> (mac \<Rightarrow> bool)" where
  "batadv_dat_tvlv_ogm_handler_v1 capa orig flags tvlv_value =
     (case orig of
        None \<Rightarrow> capa
      | Some orig \<Rightarrow> capa(orig := (flags AND BATADV_TVLV_HANDLER_OGM_CIFNOTFND = 0)))"

definition batadv_dat_hash_free :: "batadv_priv_dat \<Rightarrow> batadv_priv_dat" where
  "batadv_dat_hash_free st =
     (if dat_hash st = None then st else (dat_purge_entries None st)\<lparr>dat_hash := None\<rparr>)"

definition batadv_dat_init :: "dat_env \<Rightarrow> batadv_priv_dat \<Rightarrow> batadv_priv_dat \<times> int" where
  "batadv_dat_init env st =
     (if dat_hash st \<noteq> None then (st, 0)
      else
        let st = st\<lparr>dat_hash := batadv_hash_new (dae_alloc env (Dat_Hash 0)) (dae_alloc env (Dat_Hash 1))
                     (dae_alloc env (Dat_Hash 2)) 1024\<rparr>
        in if dat_hash st = None then (st, - ENOMEM)
           else (batadv_dat_tvlv_container_update env
                   (upd_tvlv (batadv_tvlv_handler_register (dae_alloc env Dat_Tvlv) (Some batadv_dat_tvlv_ogm_handler_v1) None
                      BATADV_TVLV_DAT 1 BATADV_TVLV_HANDLER_OGM_CIFNOTFND) st), 0))"

definition batadv_dat_free :: "batadv_priv_dat \<Rightarrow> batadv_priv_dat" where
  "batadv_dat_free st =
     batadv_dat_hash_free (upd_tvlv (\<lambda>tv. batadv_tvlv_handler_unregister BATADV_TVLV_DAT 1
       (batadv_tvlv_container_unregister BATADV_TVLV_DAT 1 tv)) st)"

section \<open>ARP frames\<close>

text \<open>\<open>hdr_size\<close> is the number of bytes in front of the Ethernet header. The fields of an ARP frame:\<close>

definition batadv_arp_hw_src :: "u8 list \<Rightarrow> nat \<Rightarrow> mac" where
  "batadv_arp_hw_src skb hdr_size = mac_at skb (hdr_size + ETH_HLEN + 8)"

definition batadv_arp_ip_src :: "u8 list \<Rightarrow> nat \<Rightarrow> u32" where
  "batadv_arp_ip_src skb hdr_size = be_word (take 4 (drop (hdr_size + ETH_HLEN + 14) skb))"

definition batadv_arp_hw_dst :: "u8 list \<Rightarrow> nat \<Rightarrow> mac" where
  "batadv_arp_hw_dst skb hdr_size = mac_at skb (hdr_size + ETH_HLEN + 18)"

definition batadv_arp_ip_dst :: "u8 list \<Rightarrow> nat \<Rightarrow> u32" where
  "batadv_arp_ip_dst skb hdr_size = be_word (take 4 (drop (hdr_size + ETH_HLEN + 24) skb))"

text \<open>
  An IP address of loopback (127/8), multicast (224/4), zero (0/8) or broadcast, and a hardware address that
  is zero or a multicast address are not those of a client.
\<close>

definition dat_ip_bad :: "u32 \<Rightarrow> bool" where
  "dat_ip_bad ip \<longleftrightarrow> ip AND 0xFF000000 = 0x7F000000 \<or> ip AND 0xF0000000 = 0xE0000000
     \<or> ip AND 0xFF000000 = 0 \<or> ip = 0xFFFFFFFF"

definition dat_hw_bad :: "mac \<Rightarrow> bool" where
  "dat_hw_bad addr \<longleftrightarrow> addr = 0 \<or> is_multicast_ether_addr addr"

definition batadv_arp_get_type :: "dat_env \<Rightarrow> u8 list \<Rightarrow> nat \<Rightarrow> u16" where
  "batadv_arp_get_type env skb hdr_size =
     (let u16_at = (\<lambda>pos. be_word (take 2 (drop pos skb)) :: u16);
          arphdr = hdr_size + ETH_HLEN
      in if \<not> pull (dae_rt env) skb (hdr_size + ETH_HLEN) then 0
         else if u16_at (hdr_size + 12) \<noteq> ETH_P_ARP then 0
         else if \<not> pull (dae_rt env) skb (hdr_size + ETH_HLEN + ARP_HLEN) then 0
         else if u16_at arphdr \<noteq> ARPHRD_ETHER then 0
         else if u16_at (arphdr + 2) \<noteq> ETH_P_IP then 0
         else if skb ! (arphdr + 4) \<noteq> 6 then 0
         else if skb ! (arphdr + 5) \<noteq> 4 then 0
         else if dat_ip_bad (batadv_arp_ip_src skb hdr_size) \<or> dat_ip_bad (batadv_arp_ip_dst skb hdr_size) then 0
         else if dat_hw_bad (batadv_arp_hw_src skb hdr_size) then 0
         else if u16_at (arphdr + 6) \<noteq> ARPOP_REQUEST \<and> dat_hw_bad (batadv_arp_hw_dst skb hdr_size) then 0
         else u16_at (arphdr + 6))"

text \<open>The VLAN identifier, and the header size with which the ARP frame is found behind a tag.\<close>

definition batadv_dat_get_vid :: "dat_env \<Rightarrow> u8 list \<Rightarrow> nat \<Rightarrow> u16 \<times> nat" where
  "batadv_dat_get_vid env skb hdr_size =
     (let vid = batadv_get_vid (dae_rt env) skb hdr_size
      in (vid, if vid AND BATADV_VLAN_HAS_TAG \<noteq> 0 then hdr_size + 4 else hdr_size))"

section \<open>Snooping\<close>

text \<open>The frame with a tag, if the VLAN has one; \<open>None\<close> is the null pointer of a tag that could not be put in.\<close>

definition dat_tagged :: "dat_env \<Rightarrow> u16 \<Rightarrow> u8 list \<Rightarrow> u8 list option" where
  "dat_tagged env vid skb = (if vid AND BATADV_VLAN_HAS_TAG \<noteq> 0 then dae_insert_tag env skb (vid AND 0x0FFF) else Some skb)"

definition batadv_dat_snoop_outgoing_arp_request ::
    "dat_env \<Rightarrow> u8 list \<Rightarrow> batadv_priv_dat \<Rightarrow> batadv_priv_dat \<times> bool" where
  "batadv_dat_snoop_outgoing_arp_request env skb st =
     (if dat_distributed_arp_table st = 0 then (st, False)
      else
        let (vid, hdr_size) = batadv_dat_get_vid env skb 0 in
        if batadv_arp_get_type env skb hdr_size \<noteq> ARPOP_REQUEST then (st, False)
        else
          let ip_src = batadv_arp_ip_src skb hdr_size;
              hw_src = batadv_arp_hw_src skb hdr_size;
              ip_dst = batadv_arp_ip_dst skb hdr_size;
              st = batadv_dat_entry_add env ip_src hw_src vid st
          in (case batadv_dat_entry_hash_find env st ip_dst vid of
                Some dat_entry \<Rightarrow>
                  if re_is_my_client (dae_rt env) (da_mac_addr dat_entry) vid then (st, True)
                  else (case dae_arp_reply env ip_src ip_dst hw_src (da_mac_addr dat_entry) hw_src of
                          None \<Rightarrow> (st, False)
                        | Some skb_new \<Rightarrow>
                            (case dat_tagged env vid skb_new of
                               None \<Rightarrow> (dat_event Dat_Bad_Access st, True)
                             | Some skb_new \<Rightarrow> (dat_event (Dat_Netif_Rx skb_new) st, True)))
              | None \<Rightarrow> batadv_dat_send_data env skb ip_dst vid BATADV_P_DAT_DHT_GET st))"

text \<open>The result of sending the answer over the mesh is compared with \<^verbatim>\<open>NET_XMIT_DROP\<close>.\<close>

definition batadv_dat_snoop_incoming_arp_request ::
    "dat_env \<Rightarrow> u8 list \<Rightarrow> nat \<Rightarrow> batadv_priv_dat \<Rightarrow> batadv_priv_dat \<times> bool" where
  "batadv_dat_snoop_incoming_arp_request env skb hdr_size st =
     (if dat_distributed_arp_table st = 0 then (st, False)
      else
        let (vid, hdr_size) = batadv_dat_get_vid env skb hdr_size in
        if batadv_arp_get_type env skb hdr_size \<noteq> ARPOP_REQUEST then (st, False)
        else
          let hw_src = batadv_arp_hw_src skb hdr_size;
              ip_src = batadv_arp_ip_src skb hdr_size;
              ip_dst = batadv_arp_ip_dst skb hdr_size;
              st = batadv_dat_entry_add env ip_src hw_src vid st
          in (case batadv_dat_entry_hash_find env st ip_dst vid of
                None \<Rightarrow> (st, False)
              | Some dat_entry \<Rightarrow>
                  (case dae_arp_reply env ip_src ip_dst hw_src (da_mac_addr dat_entry) hw_src of
                     None \<Rightarrow> (st, False)
                   | Some skb_new \<Rightarrow>
                       (case dat_tagged env vid skb_new of
                          None \<Rightarrow> (dat_event Dat_Bad_Access st, True)
                        | Some skb_new \<Rightarrow>
                            (case (if hdr_size = UNICAST_4ADDR_HLEN
                                   then batadv_send_skb_via_tt_generic (dae_rt env) (dae_junk env) skb_new BATADV_UNICAST_4ADDR
                                          BATADV_P_DAT_CACHE_REPLY None vid (dat_node st)
                                   else batadv_send_skb_via_tt_generic (dae_rt env) (dae_junk env) skb_new BATADV_UNICAST
                                          0 None vid (dat_node st)) of
                               (nd, err) \<Rightarrow> (st\<lparr>dat_node := nd\<rparr>, err \<noteq> NET_XMIT_DROP))))))"

text \<open>Both addresses of a reply are learned.\<close>

definition dat_learn_reply :: "dat_env \<Rightarrow> u8 list \<Rightarrow> nat \<Rightarrow> u16 \<Rightarrow> batadv_priv_dat \<Rightarrow> batadv_priv_dat" where
  "dat_learn_reply env skb hdr_size vid st =
     batadv_dat_entry_add env (batadv_arp_ip_dst skb hdr_size) (batadv_arp_hw_dst skb hdr_size) vid
       (batadv_dat_entry_add env (batadv_arp_ip_src skb hdr_size) (batadv_arp_hw_src skb hdr_size) vid st)"

definition batadv_dat_snoop_outgoing_arp_reply :: "dat_env \<Rightarrow> u8 list \<Rightarrow> batadv_priv_dat \<Rightarrow> batadv_priv_dat" where
  "batadv_dat_snoop_outgoing_arp_reply env skb st =
     (if dat_distributed_arp_table st = 0 then st
      else
        let (vid, hdr_size) = batadv_dat_get_vid env skb 0 in
        if batadv_arp_get_type env skb hdr_size \<noteq> ARPOP_REPLY then st
        else
          let st = dat_learn_reply env skb hdr_size vid st;
              st = fst (batadv_dat_send_data env skb (batadv_arp_ip_src skb hdr_size) vid BATADV_P_DAT_DHT_PUT st)
          in fst (batadv_dat_send_data env skb (batadv_arp_ip_dst skb hdr_size) vid BATADV_P_DAT_DHT_PUT st))"

definition batadv_dat_snoop_incoming_arp_reply ::
    "dat_env \<Rightarrow> u8 list \<Rightarrow> nat \<Rightarrow> batadv_priv_dat \<Rightarrow> batadv_priv_dat \<times> bool" where
  "batadv_dat_snoop_incoming_arp_reply env skb hdr_size st =
     (if dat_distributed_arp_table st = 0 then (st, False)
      else
        let (vid, hdr_size) = batadv_dat_get_vid env skb hdr_size in
        if batadv_arp_get_type env skb hdr_size \<noteq> ARPOP_REPLY then (st, False)
        else (dat_learn_reply env skb hdr_size vid st,
              \<not> re_is_my_client (dae_rt env) (batadv_arp_hw_dst skb hdr_size) vid
              \<or> re_is_my_client (dae_rt env) (batadv_arp_hw_src skb hdr_size) vid))"

definition batadv_dat_drop_broadcast_packet :: "dat_env \<Rightarrow> batadv_priv_dat \<Rightarrow> batadv_forw_packet \<Rightarrow> bool" where
  "batadv_dat_drop_broadcast_packet env st forw_packet =
     (if dat_distributed_arp_table st = 0 then False
      else if fw_num_packets forw_packet \<noteq> 0 then False
      else
        let (vid, hdr_size) = batadv_dat_get_vid env (fw_skb forw_packet) BCAST_HLEN in
        if batadv_arp_get_type env (fw_skb forw_packet) hdr_size \<noteq> ARPOP_REQUEST then False
        else batadv_dat_entry_hash_find env st (batadv_arp_ip_dst (fw_skb forw_packet) hdr_size) vid \<noteq> None)"

text \<open>The two steps of \<^verbatim>\<open>batadv_recv_unicast_packet\<close> and \<^verbatim>\<open>batadv_recv_bcast_packet\<close> in front of the delivery of a frame; \<open>True\<close> if it is not delivered.\<close>

definition dat_snoop_incoming :: "dat_env \<Rightarrow> u8 list \<Rightarrow> nat \<Rightarrow> batadv_priv_dat \<Rightarrow> batadv_priv_dat \<times> bool" where
  "dat_snoop_incoming env skb hdr_size st =
     (case batadv_dat_snoop_incoming_arp_request env skb hdr_size st of
        (st, True) \<Rightarrow> (st, True)
      | (st, False) \<Rightarrow> batadv_dat_snoop_incoming_arp_reply env skb hdr_size st)"

end
