(* ===== verification/Dat_Ring.thy ===== *)
theory Dat_Ring
  imports Dat
begin

text \<open>
  The choice of the candidates: three passes over the table of originators, each of which looks for
  the nearest one not chosen yet, choose the first three of the sorted list.
\<close>

section \<open>One pass\<close>

text \<open>The way from the key up to the address of an originator on the ring.\<close>

definition ring_distance :: "dat_env \<Rightarrow> u16 \<Rightarrow> mac \<Rightarrow> nat" where
  "ring_distance env ip_key orig = unat (batadv_dat_init_orig_node_addr env orig - ip_key)"

definition dat_key :: "dat_env \<Rightarrow> u32 \<Rightarrow> u16 \<Rightarrow> u16" where
  "dat_key env ip vid = ucast (batadv_hash_dat (dae_big_endian env) (ip, vid) BATADV_DAT_ADDR_MAX)"

abbreviation closeness :: "dat_env \<Rightarrow> u16 \<Rightarrow> mac \<Rightarrow> u16" where
  "closeness env ip_key orig \<equiv> BATADV_DAT_ADDR_MAX - batadv_dat_init_orig_node_addr env orig + ip_key"

lemma u16_bound: "unat (x :: u16) \<le> 65535"
proof -
  have "unat x < 2 ^ LENGTH(16)" by (rule unsigned_less)
  then show ?thesis by simp
qed

lemma u16_max [simp]: "(x :: u16) \<le> 0xFFFF"
  using u16_bound [of x] by (simp add: word_le_nat_alt)

lemma max_minus_le_iff: "0xFFFF - a \<le> (0xFFFF - b :: u16) \<longleftrightarrow> b \<le> a"
proof -
  have "unat (0xFFFF - x :: u16) = 65535 - unat x" for x :: u16
    by (subst unat_sub [OF u16_max]) simp
  then show ?thesis using u16_bound [of a] u16_bound [of b] by (simp add: word_le_nat_alt) linarith
qed

lemma closer_iff: "closeness env ip_key a \<le> closeness env ip_key b \<longleftrightarrow> ring_distance env ip_key b \<le> ring_distance env ip_key a"
proof -
  have e: "closeness env ip_key x = 0xFFFF - (batadv_dat_init_orig_node_addr env x - ip_key)" for x by simp
  show ?thesis unfolding e max_minus_le_iff by (simp add: ring_distance_def word_le_nat_alt)
qed

definition choose_step :: "(mac \<Rightarrow> bool) \<Rightarrow> (mac \<Rightarrow> u16) \<Rightarrow> mac \<Rightarrow> u16 \<times> mac option \<Rightarrow> u16 \<times> mac option" where
  "choose_step elig d orig best = (if elig orig \<and> fst best \<le> d orig then (d orig, Some orig) else best)"

lemma choose_scan_fold:
  assumes "distinct origs" "\<forall>m. max_orig_node = Some m \<longrightarrow> m \<notin> set origs"
  shows "choose_scan env st res ip_key last_max origs maxi max_orig_node
    = fold (choose_step (\<lambda>x. has_dat st x \<and> \<not> list_ex (\<lambda>c. dc_orig_node c = x) res \<and> closeness env ip_key x \<le> last_max)
        (closeness env ip_key)) origs (maxi, max_orig_node)"
  using assms
proof (induction origs arbitrary: maxi max_orig_node)
  case (Cons x xs)
  have "batadv_is_orig_node_eligible st res (closeness env ip_key x) maxi last_max x max_orig_node
    \<longleftrightarrow> has_dat st x \<and> \<not> list_ex (\<lambda>c. dc_orig_node c = x) res \<and> closeness env ip_key x \<le> last_max \<and> maxi \<le> closeness env ip_key x"
    using Cons.prems(2) by (auto simp: batadv_is_orig_node_eligible_def split: option.splits)
  then show ?case using Cons by (auto simp: choose_step_def Let_def)
qed simp

definition best_of :: "(mac \<Rightarrow> u16) \<Rightarrow> mac list \<Rightarrow> u16 \<times> mac option" where
  "best_of d xs = (case xs of [] \<Rightarrow> (0, None) | x # _ \<Rightarrow> (d x, Some x))"

lemma choose_fold_sorted:
  assumes "\<And>a b. d a \<le> d b \<longleftrightarrow> f b \<le> (f a :: nat)"
  shows "fold (choose_step elig d) origs (0, None) = best_of d (sort_key f (filter elig (rev origs)))"
proof (induction origs rule: rev_induct)
  case (snoc x xs)
  show ?case
  proof (cases "sort_key f (filter elig (rev xs))")
    case Nil
    then show ?thesis using snoc by (simp add: choose_step_def best_of_def)
  next
    case (Cons y ys)
    then show ?thesis using snoc assms [of y x] by (simp add: choose_step_def best_of_def)
  qed
qed (simp add: best_of_def)

section \<open>Three passes\<close>

definition ring_order :: "dat_env \<Rightarrow> batadv_priv_dat \<Rightarrow> u16 \<Rightarrow> mac list" where
  "ring_order env st ip_key = sort_key (ring_distance env ip_key) (filter (has_dat st) (rev (dat_origs st)))"

lemma ring_order_set [simp]: "set (ring_order env st ip_key) = {x \<in> set (dat_origs st). has_dat st x}"
  by (auto simp: ring_order_def)

lemma ring_order_distinct: "distinct (dat_origs st) \<Longrightarrow> distinct (ring_order env st ip_key)"
  by (simp add: ring_order_def)

lemma ring_order_sorted: "sorted (map (ring_distance env ip_key) (ring_order env st ip_key))"
  by (simp add: ring_order_def)

lemma choose_scan_order:
  assumes "distinct (dat_origs st)"
  shows "choose_scan env st res ip_key last_max (dat_origs st) 0 None
    = best_of (closeness env ip_key)
        (filter (\<lambda>x. \<not> list_ex (\<lambda>c. dc_orig_node c = x) res \<and> closeness env ip_key x \<le> last_max) (ring_order env st ip_key))"
proof -
  let ?q = "\<lambda>x. \<not> list_ex (\<lambda>c. dc_orig_node c = x) res \<and> closeness env ip_key x \<le> last_max"
  have s: "sort_key (ring_distance env ip_key) (filter (\<lambda>x. has_dat st x \<and> ?q x) (rev (dat_origs st)))
    = filter ?q (ring_order env st ip_key)"
    by (simp add: ring_order_def filter_sort conj_commute)
  show ?thesis
    unfolding choose_scan_fold [OF assms, of None, simplified]
      choose_fold_sorted [OF closer_iff] using s by (simp only: conj_assoc)
qed

text \<open>What the first \<open>i\<close> passes have written.\<close>

definition passes :: "dat_env \<Rightarrow> u16 \<Rightarrow> mac list \<Rightarrow> nat \<Rightarrow> batadv_dat_candidate list \<Rightarrow> u16 \<Rightarrow> bool" where
  "passes env ip_key L i cands last_max \<longleftrightarrow> length cands = 3
     \<and> (\<forall>j < i. if j < length L then cands ! j = \<lparr>dc_type = BATADV_DAT_CANDIDATE_ORIG, dc_orig_node = L ! j\<rparr>
                else dc_type (cands ! j) = BATADV_DAT_CANDIDATE_NOT_FOUND)
     \<and> (i \<le> length L \<longrightarrow> last_max = (if i = 0 then BATADV_DAT_ADDR_MAX else closeness env ip_key (L ! (i - 1))))"

lemma pass_left:
  assumes d: "distinct L" and s: "sorted (map (ring_distance env ip_key) L)" and p: "passes env ip_key L i cands last_max" and i: "i < 3"
  shows "filter (\<lambda>x. \<not> list_ex (\<lambda>c. dc_orig_node c = x) (take i cands) \<and> closeness env ip_key x \<le> last_max) L = drop i L"
proof -
  have len: "length cands = 3" using p by (simp add: passes_def)
  have chosen: "list_ex (\<lambda>c. dc_orig_node c = x) (take i cands)" if "x \<in> set (take i L)" for x
  proof -
    obtain j where j: "j < i" "j < length L" "x = L ! j" using \<open>x \<in> set (take i L)\<close> by (auto simp: in_set_conv_nth)
    then have "cands ! j = \<lparr>dc_type = BATADV_DAT_CANDIDATE_ORIG, dc_orig_node = x\<rparr>" using p by (simp add: passes_def)
    then show ?thesis using j(1) i len by (auto simp: list_ex_length intro!: exI [of _ j])
  qed
  have left: "\<not> list_ex (\<lambda>c. dc_orig_node c = x) (take i cands) \<and> closeness env ip_key x \<le> last_max" if x: "x \<in> set (drop i L)" for x
  proof -
    have iL: "i < length L" using x by (cases "i < length L") auto
    have "dc_orig_node (cands ! j) \<noteq> x" if "j < i" for j
    proof -
      have "cands ! j = \<lparr>dc_type = BATADV_DAT_CANDIDATE_ORIG, dc_orig_node = L ! j\<rparr>" using p \<open>j < i\<close> iL by (simp add: passes_def)
      moreover have "L ! j \<in> set (take i L)" using \<open>j < i\<close> iL by (auto simp: in_set_conv_nth)
      moreover have "set (take i L) \<inter> set (drop i L) = {}" using d by (rule set_take_disj_set_drop_if_distinct) simp
      ultimately show ?thesis using x by auto
    qed
    moreover have "closeness env ip_key x \<le> last_max"
    proof (cases "i = 0")
      case True
      then have "last_max = 0xFFFF" using p by (simp add: passes_def)
      then show ?thesis by (simp only: u16_max)
    next
      case False
      obtain k where k: "x = L ! k" "i \<le> k" "k < length L"
      proof -
        obtain m where "x = drop i L ! m" "m < length (drop i L)" using x unfolding in_set_conv_nth by auto
        then show thesis using that [of "i + m"] by simp
      qed
      have "last_max = closeness env ip_key (L ! (i - 1))" using p iL False by (simp add: passes_def)
      moreover have "ring_distance env ip_key (L ! (i - 1)) \<le> ring_distance env ip_key x"
        using sorted_nth_mono [OF s, of "i - 1" k] k False by simp
      ultimately show ?thesis by (simp add: closer_iff del: diff_add_eq add_diff_eq)
    qed
    ultimately show ?thesis using i len by (auto simp: list_ex_length)
  qed
  have "filter P L = filter P (take i L) @ filter P (drop i L)" for P by (metis append_take_drop_id filter_append)
  then show ?thesis using chosen left by (simp add: filter_False filter_True cong: filter_cong)
qed

lemma pass_step:
  assumes o: "distinct (dat_origs st)" and p: "passes env ip_key (ring_order env st ip_key) i cands last_max" and i: "i < 3"
  shows "(case batadv_choose_next_candidate env st ip_key i (cands, last_max) of
      (cands', last') \<Rightarrow> passes env ip_key (ring_order env st ip_key) (Suc i) cands' last')"
proof -
  let ?L = "ring_order env st ip_key"
  have len: "length cands = 3" using p by (simp add: passes_def)
  have scan: "choose_scan env st (take i cands) ip_key last_max (dat_origs st) 0 None
    = best_of (closeness env ip_key) (drop i ?L)"
    using pass_left [OF ring_order_distinct [OF o] ring_order_sorted p i] by (simp add: choose_scan_order [OF o])
  have chosen: "batadv_choose_next_candidate env st ip_key i (cands, last_max)
    = (case drop i ?L of [] \<Rightarrow> (cands[i := (cands ! i)\<lparr>dc_type := BATADV_DAT_CANDIDATE_NOT_FOUND\<rparr>], 0)
       | x # _ \<Rightarrow> (cands[i := \<lparr>dc_type = BATADV_DAT_CANDIDATE_ORIG, dc_orig_node = x\<rparr>], closeness env ip_key x))"
    by (simp add: batadv_choose_next_candidate_def Let_def scan best_of_def split: list.split)
  show ?thesis
  proof (cases "drop i ?L")
    case Nil
    then have "length ?L \<le> i" by simp
    then show ?thesis using p i len by (auto simp: chosen Nil passes_def nth_list_update less_Suc_eq)
  next
    case (Cons x xs)
    then have x: "i < length ?L" by (cases "i < length ?L") auto
    then have "x = ?L ! i" using Cons Cons_nth_drop_Suc [OF x] by simp
    then have "passes env ip_key ?L (Suc i) (cands[i := \<lparr>dc_type = BATADV_DAT_CANDIDATE_ORIG, dc_orig_node = x\<rparr>]) (closeness env ip_key x)"
      using p i x len by (auto simp: passes_def nth_list_update less_Suc_eq)
    then show ?thesis unfolding chosen Cons by simp
  qed
qed

lemma select_passes:
  assumes o: "distinct (dat_origs st)" and sel: "batadv_dat_select_candidates env st ip vid = Some res"
  shows "\<exists>last_max. passes env (dat_key env ip vid) (ring_order env st (dat_key env ip vid)) 3 res last_max"
proof -
  let ?k = "dat_key env ip vid" and ?L = "ring_order env st (dat_key env ip vid)"
  have 0: "passes env ?k ?L 0 (map (dae_junk_cand env) [0..<3]) BATADV_DAT_ADDR_MAX" by (simp add: passes_def)
  have steps: "case fold (batadv_choose_next_candidate env st ?k) [0..<n] (map (dae_junk_cand env) [0..<3], BATADV_DAT_ADDR_MAX) of
      (cands, lm) \<Rightarrow> passes env ?k ?L n cands lm" if "n \<le> 3" for n
    using that
  proof (induction n)
    case (Suc n)
    obtain cands lm where f: "fold (batadv_choose_next_candidate env st ?k) [0..<n] (map (dae_junk_cand env) [0..<3], BATADV_DAT_ADDR_MAX) = (cands, lm)"
      by (rule prod.exhaust)
    then have "passes env ?k ?L n cands lm" using Suc by simp
    from pass_step [OF o this] f Suc.prems show ?case by simp
  qed (use 0 in simp)
  show ?thesis using steps [of 3] sel
    by (auto simp: batadv_dat_select_candidates_def dat_key_def Let_def split: if_splits prod.splits)
qed

lemma passes_found:
  assumes "passes env k L 3 res last_max"
  shows "map dc_orig_node (filter (\<lambda>c. dc_type c \<noteq> BATADV_DAT_CANDIDATE_NOT_FOUND) res) = take 3 L"
    and "length res = 3"
proof -
  show len: "length res = 3" using assms by (simp add: passes_def)
  then obtain a b c where r: "res = [a, b, c]" by (auto simp: numeral_3_eq_3 length_Suc_conv)
  have all: "if 0 < length L then a = \<lparr>dc_type = 1, dc_orig_node = L ! 0\<rparr> else dc_type a = 0"
    "if 1 < length L then b = \<lparr>dc_type = 1, dc_orig_node = L ! 1\<rparr> else dc_type b = 0"
    "if 2 < length L then c = \<lparr>dc_type = 1, dc_orig_node = L ! 2\<rparr> else dc_type c = 0"
    using assms unfolding passes_def r by (auto dest: spec [of _ 0] spec [of _ 1] spec [of _ 2])
  show "map dc_orig_node (filter (\<lambda>c. dc_type c \<noteq> BATADV_DAT_CANDIDATE_NOT_FOUND) res) = take 3 L"
  proof (cases L)
    case (Cons x xs)
    then show ?thesis using all unfolding r by (cases xs; cases "tl xs") auto
  qed (use all r in simp)
qed


end
