(* ===== verification/Dat_Cache.thy ===== *)
theory Dat_Cache
  imports Dat_Ring
begin

text \<open>
  The cache: what a search finds after an address was learned, the invariant of the table, and
  that the node only holds addresses it has read from well-formed ARP frames.
\<close>

section \<open>Searching after learning\<close>

definition cache_index :: "bool \<Rightarrow> batadv_dat_entry batadv_hashtable \<Rightarrow> u32 \<Rightarrow> u16 \<Rightarrow> nat" where
  "cache_index be h ip vid = unat (batadv_hash_dat be (ip, vid) (bh_size h))"

lemma cache_index_table [simp]: "cache_index be (h\<lparr>bh_table := t\<rparr>) ip vid = cache_index be h ip vid"
  by (simp add: cache_index_def)

lemma find_bucket:
  "batadv_dat_entry_hash_find env st ip vid = (case dat_hash st of None \<Rightarrow> None
     | Some h \<Rightarrow> List.find (\<lambda>e. da_ip e = ip) (bh_table h ! cache_index (dae_big_endian env) h ip vid))"
  by (simp add: batadv_dat_entry_hash_find_def batadv_hash_find_def batadv_compare_dat_def cache_index_def split: option.split)

lemma touch_table:
  "dat_entry_touch env ip mac_addr vid h = (let i = cache_index (dae_big_endian env) h ip vid in
     h\<lparr>bh_table := (bh_table h)[i := upd_first (\<lambda>e. da_ip e = ip)
        (\<lambda>e. e\<lparr>da_mac_addr := mac_addr, da_last_update := re_now (dae_rt env)\<rparr>) (bh_table h ! i)]\<rparr>)"
  by (simp add: dat_entry_touch_def batadv_compare_dat_def cache_index_def)

definition new_entry :: "dat_env \<Rightarrow> u32 \<Rightarrow> mac \<Rightarrow> u16 \<Rightarrow> batadv_dat_entry" where
  "new_entry env ip mac_addr vid = \<lparr>da_ip = ip, da_mac_addr = mac_addr, da_vid = vid, da_last_update = re_now (dae_rt env)\<rparr>"

text \<open>The three outcomes of \<^verbatim>\<open>batadv_dat_entry_add\<close>.\<close>

lemma entry_add_cases:
  obtains (same) "batadv_dat_entry_add env ip mac_addr vid st = st" "dat_hash st = None \<or> \<not> dae_alloc env Dat_Entry"
  | (touch) h e where "dat_hash st = Some h" "List.find (\<lambda>e. da_ip e = ip) (bh_table h ! cache_index (dae_big_endian env) h ip vid) = Some e"
      "batadv_dat_entry_add env ip mac_addr vid st = st\<lparr>dat_hash := Some (dat_entry_touch env ip mac_addr vid h)\<rparr>"
  | (insert) h where "dat_hash st = Some h" "List.find (\<lambda>e. da_ip e = ip) (bh_table h ! cache_index (dae_big_endian env) h ip vid) = None"
      "batadv_dat_entry_add env ip mac_addr vid st = st\<lparr>dat_hash := Some (h\<lparr>bh_table := (bh_table h)[cache_index (dae_big_endian env) h ip vid :=
         new_entry env ip mac_addr vid # bh_table h ! cache_index (dae_big_endian env) h ip vid]\<rparr>)\<rparr>"
proof (cases "dat_hash st")
  case None
  then have "batadv_dat_entry_add env ip mac_addr vid st = st"
    by (simp add: batadv_dat_entry_add_def find_bucket batadv_hash_add_def)
  then show thesis using None same by blast
next
  case (Some h)
  let ?i = "cache_index (dae_big_endian env) h ip vid"
  show thesis
  proof (cases "List.find (\<lambda>e. da_ip e = ip) (bh_table h ! ?i)")
    case None
    then have no: "\<not> list_ex (\<lambda>e. da_ip e = ip) (bh_table h ! ?i)" by (simp add: list_ex_find)
    show thesis
    proof (cases "dae_alloc env Dat_Entry")
      case True
      with Some None no show thesis
        by (intro insert [OF Some None]) (simp add: batadv_dat_entry_add_def find_bucket batadv_hash_add_def batadv_compare_dat_def
            cache_index_def new_entry_def Let_def)
    next
      case False
      with Some None show thesis by (intro same) (simp_all add: batadv_dat_entry_add_def find_bucket)
    qed
  next
    case found: (Some e)
    show thesis by (rule touch [OF Some found]) (simp add: batadv_dat_entry_add_def find_bucket Some found)
  qed
qed

lemma entry_add_frame [simp]:
  "dat_distributed_arp_table (batadv_dat_entry_add env ip m vid st) = dat_distributed_arp_table st"
  "dat_node (batadv_dat_entry_add env ip m vid st) = dat_node st"
  "dat_out (batadv_dat_entry_add env ip m vid st) = dat_out st"
  by (rule entry_add_cases [of env ip m vid st]; simp)+

lemma entry_add_hash [simp]: "dat_hash (batadv_dat_entry_add env ip m vid st) = None \<longleftrightarrow> dat_hash st = None"
  by (rule entry_add_cases [of env ip m vid st]) simp_all

lemma find_upd_match_other:
  assumes "\<And>e. p e \<Longrightarrow> \<not> q e \<and> \<not> q (f e)"
  shows "List.find q (upd_first p f xs) = List.find q xs"
  using assms by (induction xs) auto

lemma find_upd_match_same: "(\<And>e. p e \<Longrightarrow> p (f e)) \<Longrightarrow> List.find p (upd_first p f xs) = map_option f (List.find p xs)"
  by (induction xs) auto

lemma set_upd_match: "set (upd_first p f xs) \<subseteq> set xs \<union> f ` {x \<in> set xs. p x}"
  by (induction xs) auto

lemma map_upd_match: "(\<And>x. k (f x) = k x) \<Longrightarrow> map k (upd_first p f xs) = map k xs"
  by (induction xs) auto

text \<open>Other addresses are found as before.\<close>

lemma find_after_add_other:
  assumes "ip' \<noteq> ip"
  shows "batadv_dat_entry_hash_find env' (batadv_dat_entry_add env ip m vid st) ip' vid' = batadv_dat_entry_hash_find env' st ip' vid'"
proof -
  have upd: "List.find (\<lambda>e. da_ip e = ip') ((t[i := b]) ! j) = List.find (\<lambda>e. da_ip e = ip') (t ! j)"
    if "List.find (\<lambda>e. da_ip e = ip') b = List.find (\<lambda>e. da_ip e = ip') (t ! i)" for t i b j
    using that by (cases "i = j"; cases "i < length t") (auto simp: list_update_beyond)
  show ?thesis
  proof (cases rule: entry_add_cases [of env ip m vid st])
    case (touch h e)
    have "List.find (\<lambda>e. da_ip e = ip') (upd_first (\<lambda>e. da_ip e = ip) (\<lambda>e. e\<lparr>da_mac_addr := m, da_last_update := re_now (dae_rt env)\<rparr>) xs)
      = List.find (\<lambda>e. da_ip e = ip') xs" for xs
      using assms by (intro find_upd_match_other) auto
    note keep = upd [OF this]
    show ?thesis unfolding touch(3) by (simp add: find_bucket touch(1) touch_table Let_def keep)
  next
    case (insert h)
    let ?b = "\<lambda>xs. new_entry env ip m vid # xs"
    have "List.find (\<lambda>e. da_ip e = ip') (?b xs) = List.find (\<lambda>e. da_ip e = ip') xs" for xs
      using assms by (simp add: new_entry_def)
    note keep = upd [OF this]
    show ?thesis unfolding insert(3) by (simp add: find_bucket insert(1) keep)
  qed simp
qed

section \<open>The invariant\<close>

definition bucket_ok :: "bool \<Rightarrow> nat \<Rightarrow> batadv_dat_entry list \<Rightarrow> bool" where
  "bucket_ok be i es \<longleftrightarrow> distinct (map da_ip es) \<and> (\<forall>e \<in> set es. unat (batadv_hash_dat be (da_ip e, da_vid e) 1024) = i)"

definition cache_ok :: "bool \<Rightarrow> batadv_priv_dat \<Rightarrow> bool" where
  "cache_ok be st \<longleftrightarrow> (\<forall>h. dat_hash st = Some h \<longrightarrow> bh_size h = 1024 \<and> length (bh_table h) = 1024
     \<and> (\<forall>i < 1024. bucket_ok be i (bh_table h ! i)))"

definition cache_entries :: "batadv_priv_dat \<Rightarrow> batadv_dat_entry set" where
  "cache_entries st = (case dat_hash st of None \<Rightarrow> {} | Some h \<Rightarrow> set (concat (bh_table h)))"

definition cache_pairs :: "batadv_priv_dat \<Rightarrow> (u32 \<times> mac) set" where
  "cache_pairs st = (\<lambda>e. (da_ip e, da_mac_addr e)) ` cache_entries st"

lemma hash_dat_less: "unat (batadv_hash_dat be key 1024) < 1024"
proof -
  have "batadv_hash_dat be key 1024 < 1024"
    by (auto simp: batadv_hash_dat_def split: prod.split intro!: word_mod_less_divisor)
  then show ?thesis by (simp add: word_less_nat_alt)
qed

lemma cache_index_less: "bh_size h = 1024 \<Longrightarrow> cache_index be h ip vid < 1024"
  by (simp add: cache_index_def hash_dat_less)

lemma find_entry:
  assumes "cache_ok (dae_big_endian env) st" "batadv_dat_entry_hash_find env st ip vid = Some e"
  shows "e \<in> cache_entries st \<and> da_ip e = ip"
proof -
  obtain h where h: "dat_hash st = Some h" "List.find (\<lambda>e. da_ip e = ip) (bh_table h ! cache_index (dae_big_endian env) h ip vid) = Some e"
    using assms(2) by (auto simp: find_bucket split: option.splits)
  have len: "length (bh_table h) = 1024" "bh_size h = 1024" using assms(1) h(1) by (simp_all add: cache_ok_def)
  have "bh_table h ! cache_index (dae_big_endian env) h ip vid \<in> set (bh_table h)" using len cache_index_less by (intro nth_mem) simp
  then show ?thesis using find_SomeD [OF h(2)] h(1) by (auto simp: cache_entries_def)
qed

text \<open>What was just learned is found.\<close>

lemma find_after_add:
  assumes ok: "cache_ok (dae_big_endian env) st" and h: "dat_hash st \<noteq> None" and a: "dae_alloc env Dat_Entry"
  shows "\<exists>e. batadv_dat_entry_hash_find env (batadv_dat_entry_add env ip m vid st) ip vid = Some e
    \<and> da_mac_addr e = m \<and> da_last_update e = re_now (dae_rt env)"
proof (cases rule: entry_add_cases [of env ip m vid st])
  case same
  then show ?thesis using h a by simp
next
  case (touch h e)
  then have "cache_index (dae_big_endian env) h ip vid < length (bh_table h)" using ok by (simp add: cache_ok_def cache_index_less)
  then show ?thesis using touch
    by (simp add: find_bucket touch_table Let_def find_upd_match_same cache_index_def)
next
  case (insert h)
  then have "cache_index (dae_big_endian env) h ip vid < length (bh_table h)" using ok by (simp add: cache_ok_def cache_index_less)
  then show ?thesis using insert by (simp add: find_bucket cache_index_def new_entry_def)
qed

lemma table_update_ok:
  assumes "cache_ok be st" "dat_hash st = Some h" "i < 1024" "bucket_ok be i b"
  shows "cache_ok be (st\<lparr>dat_hash := Some (h\<lparr>bh_table := (bh_table h)[i := b]\<rparr>)\<rparr>)"
  using assms by (auto simp: cache_ok_def nth_list_update)

lemma entry_add_ok:
  assumes ok: "cache_ok (dae_big_endian env) st"
  shows "cache_ok (dae_big_endian env) (batadv_dat_entry_add env ip m vid st)"
proof (cases rule: entry_add_cases [of env ip m vid st])
  case same
  then show ?thesis using ok by simp
next
  case (touch h e)
  let ?i = "cache_index (dae_big_endian env) h ip vid" and ?f = "\<lambda>e. e\<lparr>da_mac_addr := m, da_last_update := re_now (dae_rt env)\<rparr>"
  have i: "?i < 1024" and b: "bucket_ok (dae_big_endian env) ?i (bh_table h ! ?i)"
    using ok touch(1) cache_index_less by (auto simp: cache_ok_def)
  have "map da_ip (upd_first (\<lambda>e. da_ip e = ip) ?f (bh_table h ! ?i)) = map da_ip (bh_table h ! ?i)" by (rule map_upd_match) simp
  then have "bucket_ok (dae_big_endian env) ?i (upd_first (\<lambda>e. da_ip e = ip) ?f (bh_table h ! ?i))"
    using b set_upd_match [of "\<lambda>e. da_ip e = ip" ?f "bh_table h ! ?i"] by (auto simp: bucket_ok_def)
  then show ?thesis using table_update_ok [OF ok touch(1) i] touch(3) by (simp add: touch_table Let_def)
next
  case (insert h)
  let ?i = "cache_index (dae_big_endian env) h ip vid"
  have sz: "bh_size h = 1024" using ok insert(1) by (simp add: cache_ok_def)
  have i: "?i < 1024" and b: "bucket_ok (dae_big_endian env) ?i (bh_table h ! ?i)"
    using ok insert(1) cache_index_less by (auto simp: cache_ok_def)
  have "bucket_ok (dae_big_endian env) ?i (new_entry env ip m vid # bh_table h ! ?i)"
    using b insert(2) sz by (auto simp: bucket_ok_def new_entry_def cache_index_def find_None_iff)
  then show ?thesis using table_update_ok [OF ok insert(1) i] insert(3) by simp
qed

lemma set_concat_update: "set (concat (t[i := b])) \<subseteq> set (concat t) \<union> set b"
  using set_update_subset_insert [of t i b] by auto

lemma entry_add_pairs:
  assumes ok: "cache_ok (dae_big_endian env) st"
  shows "cache_pairs (batadv_dat_entry_add env ip m vid st) \<subseteq> insert (ip, m) (cache_pairs st)"
proof (cases rule: entry_add_cases [of env ip m vid st])
  case same
  then show ?thesis by auto
next
  case (touch h e)
  let ?i = "cache_index (dae_big_endian env) h ip vid" and ?f = "\<lambda>e. e\<lparr>da_mac_addr := m, da_last_update := re_now (dae_rt env)\<rparr>"
  have "bh_table h ! ?i \<in> set (bh_table h)" using ok touch(1) cache_index_less by (intro nth_mem) (auto simp: cache_ok_def)
  then have "set (upd_first (\<lambda>e. da_ip e = ip) ?f (bh_table h ! ?i)) \<subseteq> set (concat (bh_table h)) \<union> {?f x | x. da_ip x = ip}"
    using set_upd_match [of "\<lambda>e. da_ip e = ip" ?f "bh_table h ! ?i"] by auto
  then show ?thesis using touch(1,3) set_concat_update [of "bh_table h" ?i]
    by (fastforce simp: cache_pairs_def cache_entries_def touch_table Let_def)
next
  case (insert h)
  let ?i = "cache_index (dae_big_endian env) h ip vid"
  have "bh_table h ! ?i \<in> set (bh_table h)" using ok insert(1) cache_index_less by (intro nth_mem) (auto simp: cache_ok_def)
  then have "set (new_entry env ip m vid # bh_table h ! ?i) \<subseteq> Set.insert (new_entry env ip m vid) (set (concat (bh_table h)))" by auto
  then have "set (concat ((bh_table h)[?i := new_entry env ip m vid # bh_table h ! ?i]))
      \<subseteq> Set.insert (new_entry env ip m vid) (set (concat (bh_table h)))"
    using set_concat_update [of "bh_table h" ?i "new_entry env ip m vid # bh_table h ! ?i"] by blast
  then have "cache_entries (batadv_dat_entry_add env ip m vid st) \<subseteq> Set.insert (new_entry env ip m vid) (cache_entries st)"
    unfolding cache_entries_def insert(1,3) by simp
  then have "cache_pairs (batadv_dat_entry_add env ip m vid st)
      \<subseteq> (\<lambda>e. (da_ip e, da_mac_addr e)) ` Set.insert (new_entry env ip m vid) (cache_entries st)"
    unfolding cache_pairs_def by (rule image_mono)
  then show ?thesis by (simp add: cache_pairs_def new_entry_def)
qed

lemma purge_ok: "cache_ok be st \<Longrightarrow> cache_ok be (dat_purge_entries p st)"
  by (auto simp: cache_ok_def dat_purge_entries_def Let_def bucket_ok_def distinct_map_filter split: option.splits)

lemma purge_entries:
  "cache_entries (dat_purge_entries p st) = {e \<in> cache_entries st. case p of None \<Rightarrow> False | Some q \<Rightarrow> \<not> q e}"
  by (auto simp: cache_entries_def dat_purge_entries_def Let_def split: option.splits)


section \<open>Where the addresses come from\<close>

text \<open>The pairs of addresses a node reads from a frame.\<close>

definition arp_pairs :: "dat_env \<Rightarrow> u8 list \<Rightarrow> nat \<Rightarrow> (u32 \<times> mac) set" where
  "arp_pairs env skb hdr_size =
     (let (vid, hdr_size) = batadv_dat_get_vid env skb hdr_size;
          type = batadv_arp_get_type env skb hdr_size;
          source = (batadv_arp_ip_src skb hdr_size, batadv_arp_hw_src skb hdr_size);
          target = (batadv_arp_ip_dst skb hdr_size, batadv_arp_hw_dst skb hdr_size)
      in if type = ARPOP_REQUEST then {source} else if type = ARPOP_REPLY then {source, target} else {})"

text \<open>An address of a client: neither the IP address nor the hardware address is a special one.\<close>

definition client_pair :: "u32 \<times> mac \<Rightarrow> bool" where
  "client_pair p \<longleftrightarrow> \<not> dat_ip_bad (fst p) \<and> \<not> dat_hw_bad (snd p)"

lemma arp_type_pairs:
  assumes "batadv_arp_get_type env skb hdr_size = t" "t = ARPOP_REQUEST \<or> t = ARPOP_REPLY"
  shows "client_pair (batadv_arp_ip_src skb hdr_size, batadv_arp_hw_src skb hdr_size)"
    and "\<not> dat_ip_bad (batadv_arp_ip_dst skb hdr_size)"
    and "t = ARPOP_REPLY \<Longrightarrow> client_pair (batadv_arp_ip_dst skb hdr_size, batadv_arp_hw_dst skb hdr_size)"
  using assms by (auto simp: batadv_arp_get_type_def Let_def client_pair_def split: if_splits)

lemma arp_pairs_client: "p \<in> arp_pairs env skb hdr_size \<Longrightarrow> client_pair p"
  by (auto simp: arp_pairs_def Let_def split: prod.splits if_splits intro: arp_type_pairs)

text \<open>
  The node at work: \<open>seen\<close> collects the pairs of the frames it has looked at. The rest of the node
  changes in any way between two operations.
\<close>

inductive dat_step :: "bool \<Rightarrow> batadv_priv_dat \<times> (u32 \<times> mac) set \<Rightarrow> batadv_priv_dat \<times> (u32 \<times> mac) set \<Rightarrow> bool"
  for be where
  init: "dae_big_endian env = be \<Longrightarrow> dat_step be (st, seen) (fst (batadv_dat_init env st), seen)"
| free: "dat_step be (st, seen) (batadv_dat_free st, seen)"
| purge: "dae_big_endian env = be \<Longrightarrow> dat_step be (st, seen) (batadv_dat_purge env st, seen)"
| setting: "dae_big_endian env = be \<Longrightarrow>
    dat_step be (st, seen) (batadv_dat_status_update env (st\<lparr>dat_distributed_arp_table := v\<rparr>), seen)"
| outgoing_request: "dae_big_endian env = be \<Longrightarrow>
    dat_step be (st, seen) (fst (batadv_dat_snoop_outgoing_arp_request env skb st), seen \<union> arp_pairs env skb 0)"
| incoming_request: "dae_big_endian env = be \<Longrightarrow>
    dat_step be (st, seen) (fst (batadv_dat_snoop_incoming_arp_request env skb hdr_size st), seen \<union> arp_pairs env skb hdr_size)"
| outgoing_reply: "dae_big_endian env = be \<Longrightarrow>
    dat_step be (st, seen) (batadv_dat_snoop_outgoing_arp_reply env skb st, seen \<union> arp_pairs env skb 0)"
| incoming_reply: "dae_big_endian env = be \<Longrightarrow>
    dat_step be (st, seen) (fst (batadv_dat_snoop_incoming_arp_reply env skb hdr_size st), seen \<union> arp_pairs env skb hdr_size)"
| node: "dat_step be (st, seen) (st\<lparr>dat_node := nd\<rparr>, seen)"

definition dat_initial :: "batadv_priv_dat \<times> (u32 \<times> mac) set \<Rightarrow> bool" where
  "dat_initial s \<longleftrightarrow> dat_hash (fst s) = None \<and> snd s = {}"

definition dat_ok :: "bool \<Rightarrow> batadv_priv_dat \<times> (u32 \<times> mac) set \<Rightarrow> bool" where
  "dat_ok be s \<longleftrightarrow> cache_ok be (fst s) \<and> cache_pairs (fst s) \<subseteq> snd s \<and> Ball (snd s) client_pair"

lemma send_to_frame [simp]:
  "dat_hash (fst (dat_send_to env skb sub c st)) = dat_hash st"
  "dat_distributed_arp_table (fst (dat_send_to env skb sub c st)) = dat_distributed_arp_table st"
  by (simp_all add: dat_send_to_def dat_event_def Let_def split: option.split prod.split)

lemma send_data_frame [simp]:
  "dat_hash (fst (batadv_dat_send_data env skb ip vid sub st)) = dat_hash st"
proof -
  have "dat_hash (fst (fold (\<lambda>c (st, ret). if dc_type c = BATADV_DAT_CANDIDATE_NOT_FOUND then (st, ret)
      else (case dat_send_to env skb sub (dc_orig_node c) st of (st, r) \<Rightarrow> (st, ret \<or> r))) cs (st, b))) = dat_hash st" for cs b
  proof (induction cs arbitrary: st b)
    case (Cons c cs)
    obtain st' r where s: "dat_send_to env skb sub (dc_orig_node c) st = (st', r)" by (rule prod.exhaust)
    have "dat_hash st' = dat_hash st" using send_to_frame(1) [of env skb sub "dc_orig_node c" st] unfolding s by simp
    then show ?case using Cons s by simp
  qed simp
  note all = this
  show ?thesis
  proof (cases "batadv_dat_select_candidates env st ip vid")
    case (Some cs)
    show ?thesis unfolding batadv_dat_send_data_def Some option.case by (rule all)
  qed (simp add: batadv_dat_send_data_def)
qed

text \<open>The cache depends on the table alone.\<close>

lemma same_hash:
  assumes "dat_hash st' = dat_hash st"
  shows "cache_ok be st' = cache_ok be st" and "cache_pairs st' = cache_pairs st"
  using assms by (simp_all add: cache_ok_def cache_pairs_def cache_entries_def)

lemma learn_ok:
  assumes "dat_ok be (st, seen)" "be = dae_big_endian env" "(ip, m) \<in> seen"
  shows "dat_ok be (batadv_dat_entry_add env ip m vid st, seen)"
  using assms entry_add_ok [of env st ip m vid] entry_add_pairs [of env st ip m vid] by (auto simp: dat_ok_def)

lemma learn_reply_ok:
  assumes "dat_ok be (st, seen)" "be = dae_big_endian env"
    "(batadv_arp_ip_src skb n, batadv_arp_hw_src skb n) \<in> seen" "(batadv_arp_ip_dst skb n, batadv_arp_hw_dst skb n) \<in> seen"
  shows "dat_ok be (dat_learn_reply env skb n vid st, seen)"
  unfolding dat_learn_reply_def using assms by (blast intro: learn_ok)

lemma more_seen: "dat_ok be (st, seen) \<Longrightarrow> dat_ok be (st, seen \<union> arp_pairs env skb n)"
  using arp_pairs_client by (auto simp: dat_ok_def)


lemma dat_ok_hash: "dat_hash st' = dat_hash st \<Longrightarrow> dat_ok be (st', seen) = dat_ok be (st, seen)"
  using same_hash [of st' st] by (simp add: dat_ok_def)

text \<open>What the operations do to the cache.\<close>

lemma outgoing_request_hash:
  assumes "batadv_dat_get_vid env skb 0 = (vid, n)"
  shows "dat_hash (fst (batadv_dat_snoop_outgoing_arp_request env skb st))
    = dat_hash (if dat_distributed_arp_table st \<noteq> 0 \<and> batadv_arp_get_type env skb n = ARPOP_REQUEST
        then batadv_dat_entry_add env (batadv_arp_ip_src skb n) (batadv_arp_hw_src skb n) vid st else st)"
  using assms by (simp add: batadv_dat_snoop_outgoing_arp_request_def Let_def dat_event_def split: option.split)

lemma incoming_request_hash:
  assumes "batadv_dat_get_vid env skb hdr_size = (vid, n)"
  shows "dat_hash (fst (batadv_dat_snoop_incoming_arp_request env skb hdr_size st))
    = dat_hash (if dat_distributed_arp_table st \<noteq> 0 \<and> batadv_arp_get_type env skb n = ARPOP_REQUEST
        then batadv_dat_entry_add env (batadv_arp_ip_src skb n) (batadv_arp_hw_src skb n) vid st else st)"
  using assms by (simp add: batadv_dat_snoop_incoming_arp_request_def Let_def dat_event_def split: option.split prod.split)

lemma outgoing_reply_hash:
  assumes "batadv_dat_get_vid env skb 0 = (vid, n)"
  shows "dat_hash (batadv_dat_snoop_outgoing_arp_reply env skb st)
    = dat_hash (if dat_distributed_arp_table st \<noteq> 0 \<and> batadv_arp_get_type env skb n = ARPOP_REPLY
        then dat_learn_reply env skb n vid st else st)"
  using assms by (simp add: batadv_dat_snoop_outgoing_arp_reply_def Let_def)

lemma incoming_reply_hash:
  assumes "batadv_dat_get_vid env skb hdr_size = (vid, n)"
  shows "fst (batadv_dat_snoop_incoming_arp_reply env skb hdr_size st)
    = (if dat_distributed_arp_table st \<noteq> 0 \<and> batadv_arp_get_type env skb n = ARPOP_REPLY
        then dat_learn_reply env skb n vid st else st)"
  using assms by (simp add: batadv_dat_snoop_incoming_arp_reply_def Let_def)

lemma arp_pairs_read:
  assumes "batadv_dat_get_vid env skb hdr_size = (vid, n)"
  shows "batadv_arp_get_type env skb n = ARPOP_REQUEST \<Longrightarrow> (batadv_arp_ip_src skb n, batadv_arp_hw_src skb n) \<in> arp_pairs env skb hdr_size"
    and "batadv_arp_get_type env skb n = ARPOP_REPLY \<Longrightarrow> (batadv_arp_ip_src skb n, batadv_arp_hw_src skb n) \<in> arp_pairs env skb hdr_size
      \<and> (batadv_arp_ip_dst skb n, batadv_arp_hw_dst skb n) \<in> arp_pairs env skb hdr_size"
  using assms by (simp_all add: arp_pairs_def)

lemma cache_ok_empty: "cache_ok be (st\<lparr>dat_hash := Some \<lparr>bh_table = batadv_hash_init 1024, bh_size = 1024\<rparr>\<rparr>)"
  by (auto simp: cache_ok_def batadv_hash_init_def bucket_ok_def)

lemma upd_tvlv_hash [simp]: "dat_hash (upd_tvlv f st) = dat_hash st"
  by (simp add: upd_tvlv_def)

lemma container_update_hash [simp]: "dat_hash (batadv_dat_tvlv_container_update env st) = dat_hash st"
  by (simp add: batadv_dat_tvlv_container_update_def Let_def)

lemma init_ok:
  assumes "dat_ok be (st, seen)"
  shows "dat_ok be (fst (batadv_dat_init env st), seen)"
proof (cases "dat_hash st")
  case None
  let ?st = "st\<lparr>dat_hash := batadv_hash_new (dae_alloc env (Dat_Hash 0)) (dae_alloc env (Dat_Hash 1)) (dae_alloc env (Dat_Hash 2)) 1024\<rparr>"
  have "dat_hash (fst (batadv_dat_init env st)) = dat_hash ?st"
    using None by (simp add: batadv_dat_init_def Let_def)
  moreover have "dat_ok be (?st, seen)"
    using assms cache_ok_empty [of be st]
    by (auto simp: dat_ok_def batadv_hash_new_def cache_ok_def cache_pairs_def cache_entries_def batadv_hash_init_def)
  ultimately show ?thesis by (metis dat_ok_hash)
qed (use assms in \<open>simp add: batadv_dat_init_def\<close>)

lemma dat_step_ok: "dat_step be s s' \<Longrightarrow> dat_ok be s \<Longrightarrow> dat_ok be s'"
proof (induction rule: dat_step.induct)
  case (init env st seen)
  then show ?case by (auto intro: init_ok)
next
  case (free st seen)
  have "dat_hash (batadv_dat_free st) = None"
    by (simp add: batadv_dat_free_def batadv_dat_hash_free_def)
  then show ?case using free by (simp add: dat_ok_def cache_ok_def cache_pairs_def cache_entries_def)
next
  case (purge env st seen)
  then show ?case using purge_entries [of "Some (batadv_dat_to_purge env)" st]
    by (auto simp: dat_ok_def batadv_dat_purge_def purge_ok cache_pairs_def)
next
  case (setting env st seen v)
  have "dat_hash (batadv_dat_status_update env (st\<lparr>dat_distributed_arp_table := v\<rparr>)) = dat_hash st"
    by (simp add: batadv_dat_status_update_def)
  then show ?case using setting by (metis dat_ok_hash)
next
  case (outgoing_request env st seen skb)
  obtain vid n where v: "batadv_dat_get_vid env skb 0 = (vid, n)" by (rule prod.exhaust)
  have ok: "dat_ok be (st, seen \<union> arp_pairs env skb 0)" by (rule more_seen) fact
  show ?case unfolding dat_ok_hash [OF outgoing_request_hash [OF v]]
    using learn_ok [OF ok outgoing_request.hyps [symmetric]] arp_pairs_read(1) [OF v] ok by simp
next
  case (incoming_request env st seen skb hdr_size)
  obtain vid n where v: "batadv_dat_get_vid env skb hdr_size = (vid, n)" by (rule prod.exhaust)
  have ok: "dat_ok be (st, seen \<union> arp_pairs env skb hdr_size)" by (rule more_seen) fact
  show ?case unfolding dat_ok_hash [OF incoming_request_hash [OF v]]
    using learn_ok [OF ok incoming_request.hyps [symmetric]] arp_pairs_read(1) [OF v] ok by simp
next
  case (outgoing_reply env st seen skb)
  obtain vid n where v: "batadv_dat_get_vid env skb 0 = (vid, n)" by (rule prod.exhaust)
  have ok: "dat_ok be (st, seen \<union> arp_pairs env skb 0)" by (rule more_seen) fact
  show ?case unfolding dat_ok_hash [OF outgoing_reply_hash [OF v]]
    using learn_reply_ok [OF ok outgoing_reply.hyps [symmetric]] arp_pairs_read(2) [OF v] ok by simp
next
  case (incoming_reply env st seen skb hdr_size)
  obtain vid n where v: "batadv_dat_get_vid env skb hdr_size = (vid, n)" by (rule prod.exhaust)
  have ok: "dat_ok be (st, seen \<union> arp_pairs env skb hdr_size)" by (rule more_seen) fact
  show ?case unfolding incoming_reply_hash [OF v]
    using learn_reply_ok [OF ok incoming_reply.hyps [symmetric]] arp_pairs_read(2) [OF v] ok by simp
next
  case (node st seen nd)
  then show ?case by (simp add: dat_ok_def cache_ok_def cache_pairs_def cache_entries_def)
qed

lemma dat_initial_ok: "dat_initial s \<Longrightarrow> dat_ok be s"
  by (simp add: dat_initial_def dat_ok_def cache_ok_def cache_pairs_def cache_entries_def)

interpretation dat_system: transition_system dat_initial "dat_step be" "dat_ok be"
  by unfold_locales (auto intro: dat_initial_ok dat_step_ok)

end
