(* ===== verification/Dat_Props.thy ===== *)
theory Dat_Props
  imports Dat_Cache Routing_Props
begin

text \<open>
  The distributed table between nodes: who the candidates are for two nodes that know the same others,
  and the way of an address from the node that has seen it over a candidate to the node that asks.
\<close>

section \<open>Packets for the candidates\<close>

text \<open>No operation fails for want of memory.\<close>

definition dat_env_ok :: "dat_env \<Rightarrow> bool" where
  "dat_env_ok env \<longleftrightarrow> (\<forall>s. dae_alloc env s) \<and> (\<forall>s. re_ok (dae_rt env) s)"

definition dat_cands :: "dat_env \<Rightarrow> batadv_priv_dat \<Rightarrow> u32 \<Rightarrow> u16 \<Rightarrow> mac set" where
  "dat_cands env st ip vid = (case batadv_dat_select_candidates env st ip vid of None \<Rightarrow> {}
     | Some cs \<Rightarrow> {dc_orig_node c | c. c \<in> set cs \<and> dc_type c \<noteq> BATADV_DAT_CANDIDATE_NOT_FOUND})"

text \<open>The node can send: it has a primary interface and an interface that is up towards the originator.\<close>

definition dat_link :: "dat_env \<Rightarrow> batadv_priv \<Rightarrow> mac \<Rightarrow> bool" where
  "dat_link env priv c \<longleftrightarrow> primary_addr priv \<noteq> None
     \<and> (case batadv_orig_router_get (orig_at priv c) BATADV_IF_DEFAULT of
          None \<Rightarrow> False
        | Some n \<Rightarrow> let i = nn_if_incoming (on_neigh (orig_at priv c) n)
                     in hi_if_status (bp_iface priv i) = BATADV_IF_ACTIVE \<and> re_up (dae_rt env) i)"

lemma prepare_4addr:
  assumes "primary_addr st = Some addr" "re_ok env Site_push"
  shows "batadv_send_skb_prepare_unicast_4addr env junk st skb orig sub =
    Some ([BATADV_UNICAST_4ADDR, BATADV_COMPAT_VERSION, of_nat BATADV_TTL, re_last_ttvn env orig] @ be_bytes 6 orig
      @ be_bytes 6 addr @ [sub, 0] @ skb)"
  using assms by (simp add: batadv_send_skb_prepare_unicast_4addr_def batadv_send_skb_push_fill_unicast_def wr_bytes_def del: be_bytes.simps)

definition sent_to :: "mac \<Rightarrow> u8 \<Rightarrow> u8 list \<Rightarrow> u8 list \<Rightarrow> bool" where
  "sent_to c sub skb p \<longleftrightarrow> mac_at p 4 = c \<and> p ! 0 = BATADV_UNICAST_4ADDR \<and> p ! 16 = sub \<and> drop UNICAST_4ADDR_HLEN p = skb \<and> 18 \<le> length p"

lemma sent_to_header:
  "sent_to c sub skb ([BATADV_UNICAST_4ADDR, v, t, n] @ be_bytes 6 c @ be_bytes 6 addr @ [sub, 0] @ skb)"
  by (simp add: sent_to_def mac_at_def nth_append del: be_bytes.simps)

lemma send_to_priv:
  "nd_priv (dat_node (fst (dat_send_to env skb sub c st))) = nd_priv (dat_node st)
    \<and> set (nd_out (dat_node st)) \<subseteq> set (nd_out (dat_node (fst (dat_send_to env skb sub c st))))"
  by (auto simp: dat_send_to_def dat_event_def Let_def batadv_send_unicast_skb_def batadv_send_skb_packet_def nd_event_def
      split: option.split prod.split)

lemma send_to_reaches:
  assumes ok: "dat_env_ok env" and link: "dat_link env (nd_priv (dat_node st)) c"
  shows "\<exists>i a p. Ev_Xmit i a p \<in> set (nd_out (dat_node (fst (dat_send_to env skb sub c st)))) \<and> sent_to c sub skb p"
proof -
  let ?priv = "nd_priv (dat_node st)"
  obtain addr where addr: "primary_addr ?priv = Some addr" using link by (auto simp: dat_link_def)
  obtain n where n: "batadv_orig_router_get (orig_at ?priv c) None = Some n" using link by (auto simp: dat_link_def split: option.splits)
  let ?nb = "on_neigh (orig_at ?priv c) n"
  have up: "hi_if_status (bp_iface ?priv (nn_if_incoming ?nb)) = BATADV_IF_ACTIVE" "re_up (dae_rt env) (nn_if_incoming ?nb)"
    using link n by (auto simp: dat_link_def Let_def)
  have re: "re_ok (dae_rt env) s" "dae_alloc env t" for s t using ok by (simp_all add: dat_env_ok_def)
  show ?thesis
    using sent_to_header [of c sub skb] re up
    by (fastforce simp: dat_send_to_def n addr prepare_4addr [OF addr re(1)] Let_def batadv_send_unicast_skb_def batadv_send_skb_packet_def nd_event_def)
qed

definition send_all :: "dat_env \<Rightarrow> u8 list \<Rightarrow> u8 \<Rightarrow> batadv_dat_candidate list \<Rightarrow> batadv_priv_dat \<times> bool \<Rightarrow> batadv_priv_dat \<times> bool" where
  "send_all env skb sub = fold (\<lambda>c (st, ret). if dc_type c = BATADV_DAT_CANDIDATE_NOT_FOUND then (st, ret)
     else (case dat_send_to env skb sub (dc_orig_node c) st of (st, r) \<Rightarrow> (st, ret \<or> r)))"

lemma send_all_Nil: "send_all env skb sub [] s = s"
  by (simp add: send_all_def)

lemma send_all_Cons: "send_all env skb sub (c # cs) (st, b) = send_all env skb sub cs
   (if dc_type c = BATADV_DAT_CANDIDATE_NOT_FOUND then (st, b)
    else (fst (dat_send_to env skb sub (dc_orig_node c) st), b \<or> snd (dat_send_to env skb sub (dc_orig_node c) st)))"
  by (simp add: send_all_def split: prod.split)

lemma send_all_keeps:
  "nd_priv (dat_node (fst (send_all env skb sub cs (st, b)))) = nd_priv (dat_node st)
    \<and> set (nd_out (dat_node st)) \<subseteq> set (nd_out (dat_node (fst (send_all env skb sub cs (st, b)))))"
proof (induction cs arbitrary: st b)
  case (Cons c cs)
  show ?case
    using Cons [of st b] Cons [of "fst (dat_send_to env skb sub (dc_orig_node c) st)" "b \<or> snd (dat_send_to env skb sub (dc_orig_node c) st)"]
      send_to_priv [of env skb sub "dc_orig_node c" st]
    by (auto simp: send_all_Cons)
qed (simp add: send_all_Nil)

lemma send_all_reaches:
  assumes ok: "dat_env_ok env" and c: "c \<in> set cs" "dc_type c \<noteq> BATADV_DAT_CANDIDATE_NOT_FOUND"
    and link: "dat_link env (nd_priv (dat_node st)) (dc_orig_node c)"
  shows "\<exists>i a p. Ev_Xmit i a p \<in> set (nd_out (dat_node (fst (send_all env skb sub cs (st, b))))) \<and> sent_to (dc_orig_node c) sub skb p"
  using c(1) link
proof (induction cs arbitrary: st b)
  case (Cons x xs)
  let ?st = "fst (dat_send_to env skb sub (dc_orig_node x) st)" and ?b = "b \<or> snd (dat_send_to env skb sub (dc_orig_node x) st)"
  show ?case
  proof (cases "x = c")
    case True
    have "send_all env skb sub (x # xs) (st, b) = send_all env skb sub xs (?st, ?b)" using True c(2) by (simp add: send_all_Cons)
    moreover obtain i a p where "Ev_Xmit i a p \<in> set (nd_out (dat_node ?st))" "sent_to (dc_orig_node c) sub skb p"
      using send_to_reaches [OF ok Cons.prems(2)] True by blast
    ultimately show ?thesis using send_all_keeps [of env skb sub xs ?st ?b] by auto
  next
    case False
    then have c: "c \<in> set xs" using Cons.prems by simp
    have "dat_link env (nd_priv (dat_node ?st)) (dc_orig_node c)" using Cons.prems(2) send_to_priv by simp
    then show ?thesis using Cons.IH [OF c Cons.prems(2), of b] Cons.IH [OF c, of ?st ?b] by (simp add: send_all_Cons)
  qed
qed simp

lemma send_data_all:
  "batadv_dat_send_data env skb ip vid sub st = (case batadv_dat_select_candidates env st ip vid of None \<Rightarrow> (st, False)
     | Some cs \<Rightarrow> send_all env skb sub cs (st, False))"
  unfolding batadv_dat_send_data_def send_all_def ..

lemma send_data_keeps:
  "nd_priv (dat_node (fst (batadv_dat_send_data env skb ip vid sub st))) = nd_priv (dat_node st)
    \<and> set (nd_out (dat_node st)) \<subseteq> set (nd_out (dat_node (fst (batadv_dat_send_data env skb ip vid sub st))))"
  using send_all_keeps by (simp add: send_data_all split: option.split)

lemma send_data_reaches:
  assumes "dat_env_ok env" "c \<in> dat_cands env st ip vid" "dat_link env (nd_priv (dat_node st)) c"
  shows "\<exists>i a p. Ev_Xmit i a p \<in> set (nd_out (dat_node (fst (batadv_dat_send_data env skb ip vid sub st)))) \<and> sent_to c sub skb p"
  using assms by (auto simp: send_data_all dat_cands_def split: option.splits intro: send_all_reaches)

text \<open>The candidates depend on the originators only.\<close>

lemma dat_cands_node: "dat_node st' = dat_node st \<Longrightarrow> dat_cands env st' ip vid = dat_cands env st ip vid"
proof -
  assume n: "dat_node st' = dat_node st"
  have e: "has_dat st' = has_dat st" "dat_origs st' = dat_origs st" using n by (simp_all add: has_dat_def dat_origs_def fun_eq_iff)
  then have "batadv_is_orig_node_eligible st' = batadv_is_orig_node_eligible st" by (simp add: batadv_is_orig_node_eligible_def fun_eq_iff)
  then have "choose_scan env st' res k l os m b = choose_scan env st res k l os m b" for res k l os m b
    by (induction os arbitrary: m b) (simp_all add: Let_def)
  then have "batadv_choose_next_candidate env st' = batadv_choose_next_candidate env st"
    using e by (simp add: batadv_choose_next_candidate_def fun_eq_iff)
  then show ?thesis by (simp add: dat_cands_def batadv_dat_select_candidates_def)
qed

section \<open>Frames behind a header\<close>

lemma behind_header:
  assumes ok: "\<And>s. re_ok (dae_rt env) s" "\<And>s. re_ok (dae_rt env') s" and f: "drop n p = f" and n: "n \<le> length p"
  shows "batadv_dat_get_vid env' f 0 = (vid, k) \<Longrightarrow> batadv_dat_get_vid env p n = (vid, n + k)"
    and "batadv_arp_get_type env p (n + k) = batadv_arp_get_type env' f k"
    and "batadv_arp_ip_src p (n + k) = batadv_arp_ip_src f k" "batadv_arp_hw_src p (n + k) = batadv_arp_hw_src f k"
    and "batadv_arp_ip_dst p (n + k) = batadv_arp_ip_dst f k" "batadv_arp_hw_dst p (n + k) = batadv_arp_hw_dst f k"
proof -
  have d: "drop (n + m) p = drop m f" for m using f by (metis drop_drop add.commute)
  have d2: "drop (m + (n + j)) p = drop (m + j) f" for m j using d [of "m + j"] by (simp add: ac_simps)
  have x: "p ! (n + m) = f ! m" for m using f n by (metis nth_drop)
  have x2: "p ! (m + (n + j)) = f ! (m + j)" for m j using x [of "m + j"] by (simp add: ac_simps)
  have l: "n + m \<le> length p \<longleftrightarrow> m \<le> length f" for m using f n by auto
  have pl: "pull (dae_rt env) p (n + m) \<longleftrightarrow> pull (dae_rt env') f m" for m using ok l by (simp add: pull_def)
  show "batadv_arp_ip_src p (n + k) = batadv_arp_ip_src f k" and "batadv_arp_hw_src p (n + k) = batadv_arp_hw_src f k"
    and "batadv_arp_ip_dst p (n + k) = batadv_arp_ip_dst f k" and "batadv_arp_hw_dst p (n + k) = batadv_arp_hw_dst f k"
    by (simp_all add: batadv_arp_ip_src_def batadv_arp_hw_src_def batadv_arp_ip_dst_def batadv_arp_hw_dst_def mac_at_def add.assoc d)
  then show "batadv_arp_get_type env p (n + k) = batadv_arp_get_type env' f k"
    by (simp add: batadv_arp_get_type_def Let_def add.assoc d d2 x x2 pl)
  have "batadv_get_vid (dae_rt env) p n = batadv_get_vid (dae_rt env') f 0"
    by (simp add: batadv_get_vid_def d pl)
  then show "batadv_dat_get_vid env' f 0 = (vid, k) \<Longrightarrow> batadv_dat_get_vid env p n = (vid, n + k)"
    by (auto simp: batadv_dat_get_vid_def Let_def split: if_splits)
qed


section \<open>Two nodes meet\<close>

lemma cands_order:
  assumes "distinct (dat_origs st)" "dae_alloc env Dat_Candidates"
  shows "dat_cands env st ip vid = set (take 3 (ring_order env st (dat_key env ip vid)))"
proof -
  obtain res where res: "batadv_dat_select_candidates env st ip vid = Some res"
    using assms(2) by (simp add: batadv_dat_select_candidates_def Let_def)
  then have "set (take 3 (ring_order env st (dat_key env ip vid)))
      = set (map dc_orig_node (filter (\<lambda>c. dc_type c \<noteq> BATADV_DAT_CANDIDATE_NOT_FOUND) res))"
    using select_passes [OF assms(1) res] passes_found(1) by metis
  then show ?thesis by (auto simp: dat_cands_def res)
qed

lemma take_closest:
  assumes s: "sorted (map f L)" and d: "distinct L" and inj: "inj_on f (set L)" and c: "c \<in> set L"
    and few: "card {x \<in> set L. f x < (f c :: nat)} < n"
  shows "c \<in> set (take n L)"
proof -
  obtain k where k: "k < length L" "c = L ! k" using c by (auto simp: in_set_conv_nth)
  have "f x < f c" if x: "x \<in> set (take k L)" for x
  proof -
    obtain j where "j < length (take k L)" "x = take k L ! j" using x unfolding in_set_conv_nth by auto
    then have j: "j < k" "x = L ! j" by simp_all
    have "f x \<le> f c" using sorted_nth_mono [OF s, of j k] j k by simp
    moreover have "x \<noteq> c" using j k d by (simp add: nth_eq_iff_index_eq)
    moreover have "x \<in> set L" using j k by simp
    ultimately show ?thesis using inj c by (metis inj_onD le_neq_implies_less)
  qed
  then have "set (take k L) \<subseteq> {x \<in> set L. f x < f c}" by (auto dest: in_set_takeD)
  then have "card (set (take k L)) \<le> card {x \<in> set L. f x < f c}" by (rule card_mono [rotated]) simp
  moreover have "card (set (take k L)) = k" using d k(1) by (simp add: distinct_card)
  ultimately have "k < n" using few by simp
  then show ?thesis using k by (auto simp: in_set_conv_nth intro!: exI [of _ k])
qed

lemma closest_is_candidate:
  assumes "distinct (dat_origs st)" "dae_alloc env Dat_Candidates"
    and "{x \<in> set (dat_origs st). has_dat st x} = S" "inj_on (batadv_dat_init_orig_node_addr env) S" "c \<in> S"
    and "card {x \<in> S. ring_distance env (dat_key env ip vid) x < ring_distance env (dat_key env ip vid) c} < 3"
  shows "c \<in> dat_cands env st ip vid"
proof -
  have "inj_on (ring_distance env k) S" for k
    using assms(4) by (auto simp: inj_on_def ring_distance_def dest: unsigned_word_eqI)
  then show ?thesis unfolding cands_order [OF assms(1,2)]
    using assms by (intro take_closest [where f = "ring_distance env (dat_key env ip vid)"]) (simp_all add: ring_order_sorted ring_order_distinct)
qed


end
