(* ===== verification/Dat_Deliver.thy ===== *)
theory Dat_Deliver
  imports Dat_Props
begin

text \<open>
  The guarantees of the distributed ARP table: what the cache of a node holds and what the node answers, and that an
  address stored by one node is delivered to another by a candidate of both.
\<close>

section \<open>A single node\<close>

text \<open>
  C22. The cache of a node holds addresses of clients only, each of which the node has read from a well-formed
  ARP frame; no bucket has two entries for an IP address, and every entry is in the bucket of its key.
\<close>

theorem dat_cache_sound:
  assumes "dat_initial s0" and "(dat_step be)\<^sup>*\<^sup>* s0 (st, seen)" and "dat_hash st = Some h"
  shows "list_all (list_all (\<lambda>e. \<not> dat_ip_bad (da_ip e) \<and> \<not> dat_hw_bad (da_mac_addr e) \<and> (da_ip e, da_mac_addr e) \<in> seen)) (bh_table h)
    \<and> list_all (\<lambda>b. distinct (map da_ip b)) (bh_table h)
    \<and> (\<forall>i e. i < length (bh_table h) \<and> e \<in> set (bh_table h ! i) \<longrightarrow> unat (batadv_hash_dat be (da_ip e, da_vid e) (bh_size h)) = i)"
proof -
  have ok: "dat_ok be (st, seen)" by (rule dat_system.reachable_invariant [OF assms(1,2)])
  then have b: "length (bh_table h) = 1024" "bh_size h = 1024" "\<And>i. i < 1024 \<Longrightarrow> bucket_ok be i (bh_table h ! i)"
    using assms(3) by (simp_all add: dat_ok_def cache_ok_def)
  have "(da_ip e, da_mac_addr e) \<in> seen \<and> client_pair (da_ip e, da_mac_addr e)" if "e \<in> set c" "c \<in> set (bh_table h)" for e c
    using ok that assms(3) by (auto simp: dat_ok_def cache_pairs_def cache_entries_def)
  moreover have "distinct (map da_ip c)" if "c \<in> set (bh_table h)" for c
    using that b by (auto simp: in_set_conv_nth bucket_ok_def)
  moreover have "unat (batadv_hash_dat be (da_ip e, da_vid e) (bh_size h)) = i"
    if "i < length (bh_table h)" "e \<in> set (bh_table h ! i)" for i e
    using that b by (simp add: bucket_ok_def)
  ultimately show ?thesis by (simp add: list_all_iff client_pair_def)
qed

lemma send_data_out:
  "dat_env_ok env \<Longrightarrow> dat_out (fst (batadv_dat_send_data env skb ip vid sub st)) = dat_out st"
proof -
  assume "dat_env_ok env"
  then have one: "dat_out (fst (dat_send_to env skb sub c st)) = dat_out st" for c st
    by (simp add: dat_env_ok_def dat_send_to_def Let_def split: option.split prod.split)
  have "dat_out (fst (send_all env skb sub cs (st, b))) = dat_out st" for cs b
    by (induction cs arbitrary: st b) (simp_all add: send_all_Nil send_all_Cons one)
  then show ?thesis by (simp add: send_data_all split: option.split)
qed

text \<open>
  C23. When a node answers the ARP request of a local client, the answer names a hardware address that was read from
  a frame for this IP address and is an address of a client, but not of a client of the node itself.
\<close>

theorem dat_answers:
  assumes "dat_initial s0" and "(dat_step (dae_big_endian env))\<^sup>*\<^sup>* s0 (st, seen)" and "dat_env_ok env"
    and "dat_out (fst (batadv_dat_snoop_outgoing_arp_request env skb st)) = dat_out st @ [Dat_Netif_Rx reply]"
    and "batadv_dat_get_vid env skb 0 = (vid, n)"
  shows "\<exists>mac r. (batadv_arp_ip_dst skb n, mac) \<in> seen \<union> arp_pairs env skb 0
    \<and> \<not> dat_hw_bad mac \<and> \<not> re_is_my_client (dae_rt env) mac vid
    \<and> dae_arp_reply env (batadv_arp_ip_src skb n) (batadv_arp_ip_dst skb n) (batadv_arp_hw_src skb n) mac (batadv_arp_hw_src skb n) = Some r
    \<and> dat_tagged env vid r = Some reply"
proof -
  let ?st = "batadv_dat_entry_add env (batadv_arp_ip_src skb n) (batadv_arp_hw_src skb n) vid st"
  have req: "batadv_arp_get_type env skb n = ARPOP_REQUEST"
    using assms(4,5) by (auto simp: batadv_dat_snoop_outgoing_arp_request_def Let_def split: if_splits)
  have ok: "dat_ok (dae_big_endian env) (?st, seen \<union> arp_pairs env skb 0)"
    by (rule learn_ok [OF more_seen [OF dat_system.reachable_invariant [OF assms(1,2)]] refl UnI2 [OF arp_pairs_read(1) [OF assms(5) req]]])
  obtain e where e: "batadv_dat_entry_hash_find env ?st (batadv_arp_ip_dst skb n) vid = Some e"
    using assms(4,5) send_data_out [OF assms(3)] req
    by (auto simp: batadv_dat_snoop_outgoing_arp_request_def Let_def split: if_splits option.splits)
  have "e \<in> cache_entries ?st \<and> da_ip e = batadv_arp_ip_dst skb n"
    using ok by (intro find_entry [OF _ e]) (simp add: dat_ok_def)
  then have p: "(batadv_arp_ip_dst skb n, da_mac_addr e) \<in> cache_pairs ?st" by (auto simp: cache_pairs_def intro: rev_image_eqI)
  then have seen: "(batadv_arp_ip_dst skb n, da_mac_addr e) \<in> seen \<union> arp_pairs env skb 0" using ok by (auto simp: dat_ok_def)
  moreover have "Ball (seen \<union> arp_pairs env skb 0) client_pair" using ok by (simp add: dat_ok_def)
  ultimately have "\<not> dat_hw_bad (da_mac_addr e)" by (metis bspec client_pair_def snd_conv)
  with seen show ?thesis using assms(4,5) e req
    by (auto simp: batadv_dat_snoop_outgoing_arp_request_def Let_def dat_event_def split: if_splits option.splits)
qed

section \<open>The candidate\<close>

lemma hash_find_endian: "dae_big_endian env' = dae_big_endian env \<Longrightarrow> batadv_dat_entry_hash_find env' = batadv_dat_entry_hash_find env"
  by (simp add: fun_eq_iff find_bucket split: option.split)

lemma candidate_learns:
  assumes on: "dat_distributed_arp_table st \<noteq> 0" and ok: "cache_ok (dae_big_endian env) st" "dat_hash st \<noteq> None" "dae_alloc env Dat_Entry"
    and p: "batadv_dat_get_vid env p 18 = (vid, n)" "batadv_arp_get_type env p n = ARPOP_REPLY" "batadv_arp_ip_dst p n \<noteq> batadv_arp_ip_src p n"
  shows "fst (dat_snoop_incoming env p 18 st) = dat_learn_reply env p n vid st"
    and "\<exists>e. batadv_dat_entry_hash_find env (dat_learn_reply env p n vid st) (batadv_arp_ip_src p n) vid = Some e
      \<and> da_mac_addr e = batadv_arp_hw_src p n"
proof -
  have "batadv_dat_snoop_incoming_arp_request env p 18 st = (st, False)"
    using p(1,2) by (simp add: batadv_dat_snoop_incoming_arp_request_def)
  then show "fst (dat_snoop_incoming env p 18 st) = dat_learn_reply env p n vid st"
    using on p(1,2) by (simp add: dat_snoop_incoming_def batadv_dat_snoop_incoming_arp_reply_def)
  show "\<exists>e. batadv_dat_entry_hash_find env (dat_learn_reply env p n vid st) (batadv_arp_ip_src p n) vid = Some e
      \<and> da_mac_addr e = batadv_arp_hw_src p n"
    unfolding dat_learn_reply_def find_after_add_other [OF p(3) [symmetric]] using find_after_add [OF ok] by blast
qed

lemma candidate_answers:
  assumes on: "dat_distributed_arp_table st \<noteq> 0"
    and q: "batadv_dat_get_vid env q 18 = (vid, n)" "batadv_arp_get_type env q n = ARPOP_REQUEST" "batadv_arp_ip_dst q n = ip" "batadv_arp_ip_src q n \<noteq> ip"
    and e: "batadv_dat_entry_hash_find env st ip vid = Some e"
    and r: "dae_arp_reply env (batadv_arp_ip_src q n) ip (batadv_arp_hw_src q n) (da_mac_addr e) (batadv_arp_hw_src q n) = Some r"
      "dat_tagged env vid r = Some r'"
  shows "dat_node (fst (dat_snoop_incoming env q 18 st))
    = fst (batadv_send_skb_via_tt_generic (dae_rt env) (dae_junk env) r' (if n = 18 then BATADV_UNICAST_4ADDR else BATADV_UNICAST)
        (if n = 18 then BATADV_P_DAT_CACHE_REPLY else 0) None vid (dat_node st))"
proof -
  let ?add = "batadv_dat_entry_add env (batadv_arp_ip_src q n) (batadv_arp_hw_src q n) vid st"
  have e': "batadv_dat_entry_hash_find env ?add ip vid = Some e"
    unfolding find_after_add_other [OF q(4) [symmetric]] by (rule e)
  obtain st' b where s: "batadv_dat_snoop_incoming_arp_request env q 18 st = (st', b)" by (rule prod.exhaust)
  have "dat_node (fst (batadv_dat_snoop_incoming_arp_request env q 18 st))
    = fst (batadv_send_skb_via_tt_generic (dae_rt env) (dae_junk env) r' (if n = 18 then BATADV_UNICAST_4ADDR else BATADV_UNICAST)
        (if n = 18 then BATADV_P_DAT_CACHE_REPLY else 0) None vid (dat_node st))"
    using on q r e' by (cases "n = 18") (simp_all add: batadv_dat_snoop_incoming_arp_request_def split: prod.split)
  moreover have "fst (dat_snoop_incoming env q 18 st) = st'"
    using q(1,2) by (simp add: dat_snoop_incoming_def s batadv_dat_snoop_incoming_arp_reply_def split: bool.split)
  ultimately show ?thesis using s by simp
qed

section \<open>From node to node\<close>

lemma put_sent:
  assumes ok: "dat_env_ok env" and on: "dat_distributed_arp_table st \<noteq> 0"
    and f: "batadv_dat_get_vid env f 0 = (vid, k)" "batadv_arp_get_type env f k = ARPOP_REPLY"
    and c: "c \<in> dat_cands env st (batadv_arp_ip_src f k) vid" "dat_link env (nd_priv (dat_node st)) c"
  shows "\<exists>i n p. Ev_Xmit i n p \<in> set (nd_out (dat_node (batadv_dat_snoop_outgoing_arp_reply env f st))) \<and> sent_to c BATADV_P_DAT_DHT_PUT f p"
proof -
  let ?st = "dat_learn_reply env f k vid st"
  let ?st1 = "fst (batadv_dat_send_data env f (batadv_arp_ip_src f k) vid BATADV_P_DAT_DHT_PUT ?st)"
  have n: "dat_node ?st = dat_node st" by (simp add: dat_learn_reply_def)
  obtain i a p where p: "Ev_Xmit i a p \<in> set (nd_out (dat_node ?st1))" "sent_to c BATADV_P_DAT_DHT_PUT f p"
    using send_data_reaches [OF ok, of c ?st] c n dat_cands_node [OF n] by metis
  have "batadv_dat_snoop_outgoing_arp_reply env f st = fst (batadv_dat_send_data env f (batadv_arp_ip_dst f k) vid BATADV_P_DAT_DHT_PUT ?st1)"
    using on f by (simp add: batadv_dat_snoop_outgoing_arp_reply_def)
  then show ?thesis using p send_data_keeps [of env f "batadv_arp_ip_dst f k" vid BATADV_P_DAT_DHT_PUT ?st1] by auto
qed

lemma get_sent:
  assumes ok: "dat_env_ok env" and on: "dat_distributed_arp_table st \<noteq> 0"
    and q: "batadv_dat_get_vid env q 0 = (vid, l)" "batadv_arp_get_type env q l = ARPOP_REQUEST" "batadv_arp_ip_src q l \<noteq> batadv_arp_ip_dst q l"
      "batadv_dat_entry_hash_find env st (batadv_arp_ip_dst q l) vid = None"
    and c: "c \<in> dat_cands env st (batadv_arp_ip_dst q l) vid" "dat_link env (nd_priv (dat_node st)) c"
  shows "\<exists>i n p. Ev_Xmit i n p \<in> set (nd_out (dat_node (fst (batadv_dat_snoop_outgoing_arp_request env q st)))) \<and> sent_to c BATADV_P_DAT_DHT_GET q p"
proof -
  let ?st = "batadv_dat_entry_add env (batadv_arp_ip_src q l) (batadv_arp_hw_src q l) vid st"
  have n: "dat_node ?st = dat_node st" by simp
  have none: "batadv_dat_entry_hash_find env ?st (batadv_arp_ip_dst q l) vid = None"
    unfolding find_after_add_other [OF q(3) [symmetric]] by (rule q(4))
  have "batadv_dat_snoop_outgoing_arp_request env q st = batadv_dat_send_data env q (batadv_arp_ip_dst q l) vid BATADV_P_DAT_DHT_GET ?st"
    using on q(1,2) none by (simp add: batadv_dat_snoop_outgoing_arp_request_def)
  then show ?thesis using send_data_reaches [OF ok, of c ?st] c n dat_cands_node [OF n] by metis
qed

text \<open>
  C26. What one node has seen, another one learns: when node A forwards an ARP reply and node B the request of a client for
  the same address on the same VLAN, which B does not know, both send the frame to the candidate they share; whatever the
  time to live is on arrival, the candidate answers the request with the hardware address of the reply.
\<close>

theorem dat_put_get:
  assumes ok: "dat_env_ok enva" "dat_env_ok envb" "dat_env_ok envc" "dat_env_ok envd"
    and on: "dat_distributed_arp_table sta \<noteq> 0" "dat_distributed_arp_table stb \<noteq> 0" "dat_distributed_arp_table stc \<noteq> 0"
    and f: "batadv_dat_get_vid enva f 0 = (vid, k)" "batadv_arp_get_type enva f k = ARPOP_REPLY"
      "batadv_arp_ip_src f k = ip" "batadv_arp_hw_src f k = m" "batadv_arp_ip_dst f k \<noteq> ip"
    and q: "batadv_dat_get_vid envb q 0 = (vid, l)" "batadv_arp_get_type envb q l = ARPOP_REQUEST"
      "batadv_arp_ip_dst q l = ip" "batadv_arp_ip_src q l \<noteq> ip" "batadv_dat_entry_hash_find envb stb ip vid = None"
    and a: "c \<in> dat_cands enva sta ip vid" "dat_link enva (nd_priv (dat_node sta)) c"
    and b: "c \<in> dat_cands envb stb ip vid" "dat_link envb (nd_priv (dat_node stb)) c"
    and c: "dat_initial s0" "(dat_step (dae_big_endian envc))\<^sup>*\<^sup>* s0 (stc, seen)" "dat_hash stc \<noteq> None" "dae_big_endian envd = dae_big_endian envc"
    and r: "dae_arp_reply envd (batadv_arp_ip_src q l) ip (batadv_arp_hw_src q l) m (batadv_arp_hw_src q l) = Some r"
      "dat_tagged envd vid r = Some r'"
  shows "\<exists>p p' i i' n n'. Ev_Xmit i n p \<in> set (nd_out (dat_node (batadv_dat_snoop_outgoing_arp_reply enva f sta)))
    \<and> Ev_Xmit i' n' p' \<in> set (nd_out (dat_node (fst (batadv_dat_snoop_outgoing_arp_request envb q stb))))
    \<and> sent_to c BATADV_P_DAT_DHT_PUT f p \<and> sent_to c BATADV_P_DAT_DHT_GET q p'
    \<and> (\<forall>t t'. dat_node (fst (dat_snoop_incoming envd (p'[2 := t']) 18 (fst (dat_snoop_incoming envc (p[2 := t]) 18 stc))))
          = fst (batadv_send_skb_via_tt_generic (dae_rt envd) (dae_junk envd) r' (if l = 0 then BATADV_UNICAST_4ADDR else BATADV_UNICAST)
              (if l = 0 then BATADV_P_DAT_CACHE_REPLY else 0) None vid (dat_node stc)))"
proof -
  obtain i n p where p: "Ev_Xmit i n p \<in> set (nd_out (dat_node (batadv_dat_snoop_outgoing_arp_reply enva f sta)))" "sent_to c BATADV_P_DAT_DHT_PUT f p"
    using put_sent [OF ok(1) on(1) f(1,2)] a f(3) by blast
  obtain i' n' p' where p': "Ev_Xmit i' n' p' \<in> set (nd_out (dat_node (fst (batadv_dat_snoop_outgoing_arp_request envb q stb))))"
      "sent_to c BATADV_P_DAT_DHT_GET q p'"
    using get_sent [OF ok(2) on(2) q(1,2)] b q(3,4,5) by blast
  have re: "re_ok (dae_rt enva) s" "re_ok (dae_rt envb) s" "re_ok (dae_rt envc) s" "re_ok (dae_rt envd) s" "dae_alloc envc t" for s t
    using ok by (simp_all add: dat_env_ok_def)
  have "dat_node (fst (dat_snoop_incoming envd (p'[2 := t']) 18 (fst (dat_snoop_incoming envc (p[2 := t]) 18 stc))))
      = fst (batadv_send_skb_via_tt_generic (dae_rt envd) (dae_junk envd) r' (if l = 0 then BATADV_UNICAST_4ADDR else BATADV_UNICAST)
          (if l = 0 then BATADV_P_DAT_CACHE_REPLY else 0) None vid (dat_node stc))" for t t'
  proof -
    have h: "drop 18 (p[2 := t]) = f" "18 \<le> length (p[2 := t])" "drop 18 (p'[2 := t']) = q" "18 \<le> length (p'[2 := t'])"
      using p(2) p'(2) by (simp_all add: sent_to_def)
    note F = behind_header [OF re(3) re(1) h(1,2)] and Q = behind_header [OF re(4) re(2) h(3,4)]
    let ?stc = "dat_learn_reply envc (p[2 := t]) (18 + k) vid stc"
    have cok: "cache_ok (dae_big_endian envc) stc" using dat_system.reachable_invariant [OF c(1,2)] by (simp add: dat_ok_def)
    note learns = candidate_learns [OF on(3) cok c(3) re(5) F(1) [OF f(1)]]
    have st: "fst (dat_snoop_incoming envc (p[2 := t]) 18 stc) = ?stc" by (rule learns(1)) (simp_all add: F f)
    obtain e where e: "batadv_dat_entry_hash_find envc ?stc ip vid = Some e" "da_mac_addr e = m"
      using learns(2) by (auto simp: F f)
    have "dat_distributed_arp_table ?stc \<noteq> 0" "dat_node ?stc = dat_node stc" using on(3) by (simp_all add: dat_learn_reply_def)
    then show ?thesis
      unfolding st using candidate_answers [of ?stc envd "p'[2 := t']" vid "18 + l" ip e r r'] Q(1) [OF q(1)] q r e
      by (simp add: Q hash_find_endian [OF c(4)])
  qed
  then show ?thesis using p p' by blast
qed


section \<open>Examples\<close>

text \<open>
  Nodes with the addresses 1 to 4. The ring address of each is its own; the frames made by the network stack are ARP
  replies. A client with the address 10.0.0.2 answers 10.0.0.1, and a client with the address 10.0.0.3 asks for it.
\<close>

definition demo_dat_env :: dat_env where
  "demo_dat_env = \<lparr>dae_big_endian = False, dae_jhash = (\<lambda>bs. be_word (drop 2 bs)), dae_alloc = (\<lambda>_. True),
     dae_junk_cand = (\<lambda>_. \<lparr>dc_type = 7, dc_orig_node = 3\<rparr>), dae_junk = (\<lambda>_. 0),
     dae_arp_reply = (\<lambda>ip_dst ip_src hw_dst hw_src hw_target. Some (be_bytes 6 hw_dst @ be_bytes 6 hw_src @ [8, 6, 0, 1, 8, 0, 6, 4, 0, 2]
        @ be_bytes 6 hw_src @ be_bytes 4 ip_src @ be_bytes 6 hw_target @ be_bytes 4 ip_dst)),
     dae_insert_tag = (\<lambda>skb tag. Some (take 12 skb @ [0x81, 0] @ be_bytes 2 tag @ drop 12 skb)), dae_rt = demo_rt_env\<rparr>"

definition demo_dat :: "mac list \<Rightarrow> batadv_priv_dat" where
  "demo_dat origs = \<lparr>dat_addr = 0, dat_hash = None, dat_distributed_arp_table = 1,
     dat_node = \<lparr>nd_priv = demo_priv\<lparr>bp_orig_hash := map (\<lambda>a. (a, demo_target\<lparr>on_orig := a\<rparr>)) origs\<rparr>, nd_bonding = False,
       nd_last_bonding = (\<lambda>_. None), nd_bcast = (\<lambda>_. \<lparr>bcast_bits = 0, last_bcast_seqno = 0, bcast_seqno_reset = 0\<rparr>),
       nd_fragments = (\<lambda>_. frag_table_init), nd_frag_seqno = 0, nd_tvlv = tvlv_init (\<lambda>_. True),
       nd_rx_handler = batadv_recv_handler_init, nd_out = []\<rparr>,
     dat_out = []\<rparr>"

definition demo_arp_frame :: "u8 \<Rightarrow> u8 \<Rightarrow> u8 \<Rightarrow> u8 list" where
  "demo_arp_frame op source target = replicate 6 0xFF @ [0, 0, 0, 0, 0, source, 8, 6, 0, 1, 8, 0, 6, 4, 0, op]
     @ [0, 0, 0, 0, 0, source, 10, 0, 0, source] @ [0, 0, 0, 0, 0, target, 10, 0, 0, target]"

abbreviation demo_ip :: u32 where "demo_ip \<equiv> 0x0A000002"

lemma demo_dat_env_ok [simp]: "dat_env_ok demo_dat_env"
  by (simp add: dat_env_ok_def demo_dat_env_def demo_rt_env_def)

lemma demo_dat_origs [simp]: "dat_origs (demo_dat origs) = origs" "has_dat (demo_dat origs) a"
  by (simp_all add: dat_origs_def demo_dat_def has_dat_def tvlv_init_def comp_def)

lemma demo_frames:
  "batadv_dat_get_vid demo_dat_env (demo_arp_frame 2 2 1) 0 = (0, 0)" "batadv_arp_get_type demo_dat_env (demo_arp_frame 2 2 1) 0 = ARPOP_REPLY"
  "batadv_arp_ip_src (demo_arp_frame 2 2 1) 0 = demo_ip" "batadv_arp_hw_src (demo_arp_frame 2 2 1) 0 = 2"
  "batadv_arp_ip_dst (demo_arp_frame 2 2 1) 0 = 0x0A000001"
  "batadv_dat_get_vid demo_dat_env (demo_arp_frame 1 3 2) 0 = (0, 0)" "batadv_arp_get_type demo_dat_env (demo_arp_frame 1 3 2) 0 = ARPOP_REQUEST"
  "batadv_arp_ip_src (demo_arp_frame 1 3 2) 0 = 0x0A000003" "batadv_arp_ip_dst (demo_arp_frame 1 3 2) 0 = demo_ip"
  by code_simp+

lemma demo_candidates:
  "map_option (map (\<lambda>c. (dc_type c, dc_orig_node c))) (batadv_dat_select_candidates demo_dat_env (demo_dat [2, 3, 4]) demo_ip 0)
    = Some [(1, 2), (1, 3), (1, 4)]"
  "map_option (map (\<lambda>c. (dc_type c, dc_orig_node c))) (batadv_dat_select_candidates demo_dat_env (demo_dat [1, 3]) demo_ip 0)
    = Some [(1, 1), (1, 3), (0, 3)]"
  by code_simp+



lemma demo_init: "dat_hash (fst (batadv_dat_init demo_dat_env (demo_dat origs))) \<noteq> None"
  "dat_distributed_arp_table (fst (batadv_dat_init demo_dat_env (demo_dat origs))) = 1"
  "dat_out (fst (batadv_dat_init demo_dat_env (demo_dat origs))) = []"
  by (simp_all add: batadv_dat_init_def demo_dat_def demo_dat_env_def batadv_hash_new_def batadv_dat_tvlv_container_update_def upd_tvlv_def Let_def)

lemma demo_started:
  "dat_initial (demo_dat origs, {})"
  "(dat_step False)\<^sup>*\<^sup>* (demo_dat origs, {}) (fst (batadv_dat_init demo_dat_env (demo_dat origs)), {})"
proof -
  show "dat_initial (demo_dat origs, {})" by (simp add: dat_initial_def demo_dat_def)
  have "dae_big_endian demo_dat_env = False" by (simp add: demo_dat_env_def)
  from dat_step.init [OF this, of "demo_dat origs" "{}"]
  show "(dat_step False)\<^sup>*\<^sup>* (demo_dat origs, {}) (fst (batadv_dat_init demo_dat_env (demo_dat origs)), {})" by (rule r_into_rtranclp)
qed

text \<open>The started node has received the reply.\<close>

definition demo_learned :: batadv_priv_dat where
  "demo_learned = fst (batadv_dat_snoop_incoming_arp_reply demo_dat_env (demo_arp_frame 2 2 1) 0 (fst (batadv_dat_init demo_dat_env (demo_dat [2, 3]))))"

lemma demo_learned_reached:
  "(dat_step False)\<^sup>*\<^sup>* (demo_dat [2, 3], {}) (demo_learned, arp_pairs demo_dat_env (demo_arp_frame 2 2 1) 0)"
proof -
  have e: "dae_big_endian demo_dat_env = False" by (simp add: demo_dat_env_def)
  show ?thesis
    using demo_started(2) [of "[2, 3]"] dat_step.incoming_reply [OF e, of "fst (batadv_dat_init demo_dat_env (demo_dat [2, 3]))" "{}" "demo_arp_frame 2 2 1" 0]
    unfolding demo_learned_def by (simp add: rtranclp.rtrancl_into_rtrancl)
qed

lemma demo_learned_entry:
  "\<exists>e. batadv_dat_entry_hash_find demo_dat_env demo_learned demo_ip 0 = Some e \<and> da_mac_addr e = 2"
  "demo_learned = dat_learn_reply demo_dat_env (demo_arp_frame 2 2 1) 0 0 (fst (batadv_dat_init demo_dat_env (demo_dat [2, 3])))"
proof -
  let ?st = "fst (batadv_dat_init demo_dat_env (demo_dat [2, 3]))"
  show l: "demo_learned = dat_learn_reply demo_dat_env (demo_arp_frame 2 2 1) 0 0 ?st"
    by (simp add: demo_learned_def batadv_dat_snoop_incoming_arp_reply_def demo_frames demo_init)
  have ok: "cache_ok (dae_big_endian demo_dat_env) ?st"
    using dat_system.reachable_invariant [OF demo_started [of "[2, 3]"]] by (simp add: dat_ok_def demo_dat_env_def)
  have a: "dae_alloc demo_dat_env Dat_Entry" by (simp add: demo_dat_env_def)
  have ne: "demo_ip \<noteq> (0x0A000001 :: u32)" by simp
  show "\<exists>e. batadv_dat_entry_hash_find demo_dat_env demo_learned demo_ip 0 = Some e \<and> da_mac_addr e = 2"
    unfolding l dat_learn_reply_def demo_frames find_after_add_other [OF ne]
    using find_after_add [OF ok demo_init(1) a] by blast
qed

theorem dat_cache_sound_witness:
  "\<exists>h. dat_hash demo_learned = Some h \<and> list_all (\<lambda>b. distinct (map da_ip b)) (bh_table h)"
proof -
  have "dat_hash demo_learned \<noteq> None" unfolding demo_learned_entry(2) by (simp add: dat_learn_reply_def demo_init)
  then obtain h where h: "dat_hash demo_learned = Some h" by blast
  from dat_cache_sound [OF demo_started(1) demo_learned_reached this] show ?thesis using h by blast
qed

theorem dat_answers_witness:
  "\<exists>mac. (demo_ip, mac) \<in> {(0x0A000002, 2), (0x0A000001, 1), (0x0A000003, 3)} \<and> \<not> dat_hw_bad mac"
proof -
  let ?q = "demo_arp_frame 1 3 2"
  have e: "dae_big_endian demo_dat_env = False" by (simp add: demo_dat_env_def)
  obtain entry where entry: "batadv_dat_entry_hash_find demo_dat_env demo_learned demo_ip 0 = Some entry" "da_mac_addr entry = 2"
    using demo_learned_entry(1) by blast
  have ne: "demo_ip \<noteq> (0x0A000003 :: u32)" by simp
  have out: "dat_out demo_learned = []" "dat_distributed_arp_table demo_learned = 1"
    unfolding demo_learned_entry(2) by (simp_all add: dat_learn_reply_def demo_init)
  have mine: "re_is_my_client (dae_rt demo_dat_env) a v = False" for a v by (simp add: demo_dat_env_def demo_rt_env_def)
  obtain r where r: "dae_arp_reply demo_dat_env 0x0A000003 demo_ip (batadv_arp_hw_src ?q 0) 2 (batadv_arp_hw_src ?q 0) = Some r"
    by (simp add: demo_dat_env_def)
  have "dat_out (fst (batadv_dat_snoop_outgoing_arp_request demo_dat_env ?q demo_learned)) = dat_out demo_learned @ [Dat_Netif_Rx r]"
    by (simp add: batadv_dat_snoop_outgoing_arp_request_def demo_frames out find_after_add_other [OF ne] entry mine r dat_tagged_def dat_event_def)
  from dat_answers [of _ demo_dat_env, unfolded e, OF demo_started(1) demo_learned_reached demo_dat_env_ok this demo_frames(6)]
  obtain mac where m: "(demo_ip, mac) \<in> arp_pairs demo_dat_env (demo_arp_frame 2 2 1) 0 \<union> arp_pairs demo_dat_env ?q 0" "\<not> dat_hw_bad mac"
    unfolding demo_frames by blast
  have "batadv_arp_hw_dst (demo_arp_frame 2 2 1) 0 = 1" "batadv_arp_hw_src ?q 0 = 3" by code_simp+
  then have "arp_pairs demo_dat_env (demo_arp_frame 2 2 1) 0 \<union> arp_pairs demo_dat_env ?q 0
      = {(0x0A000002, 2), (0x0A000001, 1), (0x0A000003, 3)}"
    by (auto simp: arp_pairs_def demo_frames)
  then show ?thesis using m by blast
qed

lemma demo_addr: "batadv_dat_init_orig_node_addr demo_dat_env 1 = 1" "batadv_dat_init_orig_node_addr demo_dat_env 2 = 2"
  "batadv_dat_init_orig_node_addr demo_dat_env 3 = 3" "batadv_dat_init_orig_node_addr demo_dat_env 4 = 4"
  by code_simp+


lemma demo_link:
  assumes "a \<in> set origs"
  shows "dat_link demo_dat_env (nd_priv (dat_node (demo_dat origs))) a"
proof -
  have "map_of (map (\<lambda>a. (a, demo_target\<lparr>on_orig := a\<rparr>)) origs) a = Some (demo_target\<lparr>on_orig := a\<rparr>)"
    using assms by (induction origs) auto
  then have o: "orig_at (nd_priv (dat_node (demo_dat origs))) a = demo_target\<lparr>on_orig := a\<rparr>"
    by (simp add: orig_at_def demo_dat_def)
  have r: "batadv_orig_router_get (demo_target\<lparr>on_orig := a\<rparr>) None = Some 0"
    by (simp add: batadv_orig_router_get_def demo_target_def demo_route_def)
  have up: "primary_addr (nd_priv (dat_node (demo_dat origs))) \<noteq> None"
    "hi_if_status (bp_iface (nd_priv (dat_node (demo_dat origs))) i) = BATADV_IF_ACTIVE" "re_up (dae_rt demo_dat_env) i" for i
    by (simp_all add: demo_dat_def primary_addr_def demo_priv_def priv_init_def hardif_init_def demo_dat_env_def demo_rt_env_def)
  show ?thesis unfolding dat_link_def o r by (simp add: Let_def up)
qed

theorem dat_put_get_witness:
  "\<exists>p i n. Ev_Xmit i n p \<in> set (nd_out (dat_node (fst (batadv_dat_snoop_outgoing_arp_request demo_dat_env (demo_arp_frame 1 3 2) (demo_dat [1, 3])))))
     \<and> sent_to 3 BATADV_P_DAT_DHT_GET (demo_arp_frame 1 3 2) p"
proof -
  let ?st = "fst (batadv_dat_init demo_dat_env (demo_dat [1, 2]))"
  have e: "dae_big_endian demo_dat_env = False" by (simp add: demo_dat_env_def)
  have c: "3 \<in> dat_cands demo_dat_env (demo_dat [2, 3, 4]) demo_ip 0" "3 \<in> dat_cands demo_dat_env (demo_dat [1, 3]) demo_ip 0"
    using demo_candidates by (auto simp: dat_cands_def map_eq_Cons_conv split: option.splits)
  have on: "dat_distributed_arp_table (demo_dat origs) \<noteq> 0" for origs by (simp add: demo_dat_def)
  have none: "batadv_dat_entry_hash_find demo_dat_env (demo_dat [1, 3]) demo_ip 0 = None" by (simp add: find_bucket demo_dat_def)
  have started: "dat_hash ?st \<noteq> None" "dat_distributed_arp_table ?st \<noteq> 0" using demo_init [of "[1, 2]"] by simp_all
  have reply: "\<exists>r. dae_arp_reply demo_dat_env x y z u v = Some r" for x y z u v by (simp add: demo_dat_env_def)
  obtain r where r: "dae_arp_reply demo_dat_env (batadv_arp_ip_src (demo_arp_frame 1 3 2) 0) demo_ip
      (batadv_arp_hw_src (demo_arp_frame 1 3 2) 0) 2 (batadv_arp_hw_src (demo_arp_frame 1 3 2) 0) = Some r" using reply by blast
  have ne: "batadv_arp_ip_dst (demo_arp_frame 2 2 1) 0 \<noteq> demo_ip" "batadv_arp_ip_src (demo_arp_frame 1 3 2) 0 \<noteq> demo_ip"
    by (simp_all add: demo_frames)
  have tag: "dat_tagged demo_dat_env 0 r = Some r" by (simp add: dat_tagged_def)
  note step = demo_started(2) [of "[1, 2]", folded e]
  show ?thesis
    using dat_put_get [OF demo_dat_env_ok demo_dat_env_ok demo_dat_env_ok demo_dat_env_ok on [of "[2, 3, 4]"] on [of "[1, 3]"] started(2)
        demo_frames(1,2,3,4) ne(1) demo_frames(6,7,9) ne(2) none c(1) demo_link c(2) demo_link demo_started(1) step started(1) refl r tag]
    by (auto simp del: be_bytes.simps)
qed


section \<open>Where the contract ends\<close>

text \<open>
  Two nodes at the same place on the ring: which of them is asked first depends on the order of the table, since the
  comparison of their addresses in \<^verbatim>\<open>batadv_is_orig_node_eligible\<close> is never greater than zero.
\<close>

lemma dat_collision_order:
  "\<exists>env st st' ip vid. set (dat_origs st) = set (dat_origs st') \<and> has_dat st = has_dat st'
    \<and> map_option (map dc_orig_node) (batadv_dat_select_candidates env st ip vid)
      \<noteq> map_option (map dc_orig_node) (batadv_dat_select_candidates env st' ip vid)"
proof -
  let ?env = "demo_dat_env\<lparr>dae_jhash := (\<lambda>_. 5)\<rparr>"
  have d: "map_option (map dc_orig_node) (batadv_dat_select_candidates ?env (demo_dat [2, 3, 4]) demo_ip 0) = Some [4, 3, 2]"
    "map_option (map dc_orig_node) (batadv_dat_select_candidates ?env (demo_dat [4, 3, 2]) demo_ip 0) = Some [2, 3, 4]"
    by code_simp+
  have "set (dat_origs (demo_dat [2, 3, 4])) = set (dat_origs (demo_dat [4, 3, 2]))" by auto
  moreover have "has_dat (demo_dat [2, 3, 4]) = has_dat (demo_dat [4, 3, 2])" by (simp add: fun_eq_iff)
  moreover have "Some [4, 3, 2] \<noteq> Some [2, 3, 4 :: mac]" by simp
  ultimately show ?thesis using d by metis
qed

text \<open>Machines of different byte order have different keys for an address of a tagged VLAN, and so different candidates.\<close>

lemma dat_key_endian:
  "dat_key (demo_dat_env\<lparr>dae_big_endian := True\<rparr>) demo_ip 0x8001 \<noteq> dat_key demo_dat_env demo_ip 0x8001"
  by code_simp


text \<open>
  The search compares the IP address only: an address learned on VLAN 411 is found for untagged traffic when
  both keys fall into the same bucket.
\<close>

lemma same_bucket: "batadv_hash_dat False (demo_ip, 0x819B) 1024 = batadv_hash_dat False (demo_ip, 0) 1024"
  by code_simp

lemma dat_wrong_vlan:
  "\<exists>e. batadv_dat_entry_hash_find demo_dat_env
      (batadv_dat_entry_add demo_dat_env demo_ip 2 0x819B (fst (batadv_dat_init demo_dat_env (demo_dat [])))) demo_ip 0 = Some e \<and> da_mac_addr e = 2"
proof -
  let ?st = "fst (batadv_dat_init demo_dat_env (demo_dat []))"
  have e: "dae_big_endian demo_dat_env = False" by (simp add: demo_dat_env_def)
  have ok: "cache_ok (dae_big_endian demo_dat_env) ?st"
    using dat_system.reachable_invariant [OF demo_started [of "[]"]] by (simp add: dat_ok_def e)
  have a: "dae_alloc demo_dat_env Dat_Entry" by (simp add: demo_dat_env_def)
  let ?add = "batadv_dat_entry_add demo_dat_env demo_ip 2 0x819B ?st"
  have aok: "cache_ok False ?add" using entry_add_ok [OF ok, of demo_ip 2 "0x819B"] unfolding e .
  have "dat_hash ?add \<noteq> None" unfolding entry_add_hash by (rule demo_init(1))
  then obtain h where h: "dat_hash ?add = Some h" by blast
  then have "bh_size h = 1024" using aok by (simp add: cache_ok_def)
  then have "batadv_dat_entry_hash_find demo_dat_env ?add demo_ip 0 = batadv_dat_entry_hash_find demo_dat_env ?add demo_ip 0x819B"
    by (simp add: find_bucket h cache_index_def e same_bucket)
  then show ?thesis using find_after_add [OF ok demo_init(1) a, of demo_ip 2 "0x819B"] by metis
qed

end
