(* ===== verification/Gw.thy ===== *)
theory Gw
  imports Routing
begin

text \<open>
  Gateways (\<^verbatim>\<open>gateway_client.c\<close>, \<^verbatim>\<open>gateway_common.c\<close>, the settings in \<^verbatim>\<open>sysfs.c\<close>): nodes with a connection to
  the Internet announce their bandwidth in a tvlv container; a node in client mode selects one of them, tells
  user space about it, and sends the DHCP requests of its clients there.

  An entry of the list of gateways is named by a number that is never used again, as the code compares
  pointers. An originator is a pointer too, since a selected gateway can point to an originator that has left
  the table; the environment says what the pointers lead to. Strings are those of the settings files.
\<close>

section \<open>State\<close>

record batadv_gw_node =
  gn_ref :: nat
  gn_orig_node :: nat
  gn_bandwidth_down :: u32
  gn_bandwidth_up :: u32

datatype batadv_gw_modes = BATADV_GW_MODE_OFF | BATADV_GW_MODE_CLIENT | BATADV_GW_MODE_SERVER

datatype gw_uevent = Uev_Add mac | Uev_Change mac | Uev_Del

text \<open>The selected gateway is the entry and the originator it points to.\<close>

record batadv_priv_gw =
  gw_list :: "batadv_gw_node list"
  gw_curr_gw :: "(nat \<times> nat) option"
  gw_bandwidth_down :: u32
  gw_bandwidth_up :: u32
  gw_reselect :: int
  gw_mode :: batadv_gw_modes
  gw_sel_class :: int
  gw_next_ref :: nat
  gw_tvlv :: "unit batadv_priv_tvlv"
  gw_uevents :: "gw_uevent list"

record gw_env =
  ge_alloc :: bool
  ge_alloc_tvlv :: bool
  ge_orig_node :: "nat \<Rightarrow> batadv_orig_node"
  ge_find_router :: "nat \<Rightarrow> batadv_neigh_node option"
  ge_transtable_search :: "mac \<Rightarrow> mac \<Rightarrow> u16 \<Rightarrow> nat option"
  ge_rt :: rt_env
  ge_junk :: "nat \<Rightarrow> u8"

abbreviation (input) BATADV_GW_THRESHOLD :: int where "BATADV_GW_THRESHOLD \<equiv> 50"
abbreviation (input) BATADV_TVLV_GW :: u8 where "BATADV_TVLV_GW \<equiv> 1"
abbreviation (input) EINVAL :: int where "EINVAL \<equiv> 22"

text \<open>The quality of the way to an originator, if it has a router with an entry for the default interface.\<close>

definition gw_tq :: "gw_env \<Rightarrow> nat \<Rightarrow> u8 option" where
  "gw_tq env p =
     (let orig_node = ge_orig_node env p in
      case batadv_orig_router_get orig_node BATADV_IF_DEFAULT of
        None \<Rightarrow> None
      | Some router \<Rightarrow> map_option ni_tq_avg (batadv_neigh_ifinfo_get (on_neigh orig_node router) BATADV_IF_DEFAULT))"

definition gw_uevent :: "gw_uevent \<Rightarrow> batadv_priv_gw \<Rightarrow> batadv_priv_gw" where
  "gw_uevent ev st = st\<lparr>gw_uevents := gw_uevents st @ [ev]\<rparr>"

section \<open>Selection\<close>

definition batadv_gw_get_selected_orig :: "batadv_priv_gw \<Rightarrow> nat option" where
  "batadv_gw_get_selected_orig st = map_option snd (gw_curr_gw st)"

definition batadv_gw_select :: "(nat \<times> nat) option \<Rightarrow> batadv_priv_gw \<Rightarrow> batadv_priv_gw" where
  "batadv_gw_select new_gw_node st = st\<lparr>gw_curr_gw := new_gw_node\<rparr>"

definition batadv_gw_reselect :: "batadv_priv_gw \<Rightarrow> batadv_priv_gw" where
  "batadv_gw_reselect st = st\<lparr>gw_reselect := 1\<rparr>"

text \<open>The product of 64 bits that rates a gateway for a fast connection.\<close>

definition gw_factor :: "u8 \<Rightarrow> u32 \<Rightarrow> 64 word" where
  "gw_factor tq_avg bandwidth_down = drop_bit 18 (ucast tq_avg * ucast tq_avg * ucast bandwidth_down * 10000)"

text \<open>The loop over the gateways with the largest factor and quality so far.\<close>

fun best_scan :: "gw_env \<Rightarrow> int \<Rightarrow> batadv_gw_node list \<Rightarrow> 64 word \<Rightarrow> u8 \<Rightarrow> batadv_gw_node option \<Rightarrow> batadv_gw_node option" where
  "best_scan env sel_class [] max_gw_factor max_tq curr_gw = curr_gw"
| "best_scan env sel_class (gw_node # gws) max_gw_factor max_tq curr_gw =
     (case gw_tq env (gn_orig_node gw_node) of
        None \<Rightarrow> best_scan env sel_class gws max_gw_factor max_tq curr_gw
      | Some tq_avg \<Rightarrow>
          let tmp_gw_factor = (if sel_class = 1 then gw_factor tq_avg (gn_bandwidth_down gw_node) else 0);
              better = (if sel_class = 1
                        then tmp_gw_factor > max_gw_factor \<or> (tmp_gw_factor = max_gw_factor \<and> tq_avg > max_tq)
                        else tq_avg > max_tq)
          in best_scan env sel_class gws (if tmp_gw_factor > max_gw_factor then tmp_gw_factor else max_gw_factor)
               (if tq_avg > max_tq then tq_avg else max_tq) (if better then Some gw_node else curr_gw))"

definition batadv_gw_get_best_gw_node :: "gw_env \<Rightarrow> batadv_priv_gw \<Rightarrow> batadv_gw_node option" where
  "batadv_gw_get_best_gw_node env st = best_scan env (gw_sel_class st) (gw_list st) 0 0 None"

definition batadv_gw_check_client_stop :: "batadv_priv_gw \<Rightarrow> batadv_priv_gw" where
  "batadv_gw_check_client_stop st =
     (if gw_mode st \<noteq> BATADV_GW_MODE_CLIENT then st
      else if gw_curr_gw st = None then st
      else gw_uevent Uev_Del (batadv_gw_select None st))"

definition batadv_gw_election :: "gw_env \<Rightarrow> batadv_priv_gw \<Rightarrow> batadv_priv_gw" where
  "batadv_gw_election env st =
     (if gw_mode st \<noteq> BATADV_GW_MODE_CLIENT then st
      else
        let curr_gw = gw_curr_gw st;
            dec = (gw_reselect st \<noteq> 0);
            st = (if dec then st\<lparr>gw_reselect := gw_reselect st - 1\<rparr> else st)
        in if \<not> dec \<and> curr_gw \<noteq> None then st
           else
             (case batadv_gw_get_best_gw_node env st of
                None \<Rightarrow> if curr_gw = None then st else batadv_gw_select None (gw_uevent Uev_Del st)
              | Some next_gw \<Rightarrow>
                  let addr = on_orig (ge_orig_node env (gn_orig_node next_gw));
                      sel = batadv_gw_select (Some (gn_ref next_gw, gn_orig_node next_gw))
                  in if map_option fst curr_gw = Some (gn_ref next_gw) then st
                     else if gw_tq env (gn_orig_node next_gw) = None then batadv_gw_reselect st
                     else if curr_gw = None then sel (gw_uevent (Uev_Add addr) st)
                     else sel (gw_uevent (Uev_Change addr) st)))"

definition batadv_gw_check_election :: "gw_env \<Rightarrow> nat \<Rightarrow> batadv_priv_gw \<Rightarrow> batadv_priv_gw" where
  "batadv_gw_check_election env orig_node st =
     (case batadv_gw_get_selected_orig st of
        None \<Rightarrow> batadv_gw_reselect st
      | Some curr_gw_orig \<Rightarrow>
          (case gw_tq env curr_gw_orig of
             None \<Rightarrow> batadv_gw_reselect st
           | Some gw_tq_avg \<Rightarrow>
               if curr_gw_orig = orig_node then st
               else (case gw_tq env orig_node of
                       None \<Rightarrow> st
                     | Some orig_tq_avg \<Rightarrow>
                         if orig_tq_avg < gw_tq_avg then st
                         else if gw_sel_class st > 3 \<and> int (unat orig_tq_avg) - int (unat gw_tq_avg) < gw_sel_class st then st
                         else batadv_gw_reselect st)))"

section \<open>The list of gateways\<close>

definition batadv_gw_node_add :: "gw_env \<Rightarrow> nat \<Rightarrow> u32 \<Rightarrow> u32 \<Rightarrow> batadv_priv_gw \<Rightarrow> batadv_priv_gw" where
  "batadv_gw_node_add env orig_node down up st =
     (if down = 0 then st
      else if \<not> ge_alloc env then st
      else st\<lparr>gw_list := \<lparr>gn_ref = gw_next_ref st, gn_orig_node = orig_node, gn_bandwidth_down = down, gn_bandwidth_up = up\<rparr> # gw_list st,
              gw_next_ref := gw_next_ref st + 1\<rparr>)"

definition batadv_gw_node_get :: "nat \<Rightarrow> batadv_priv_gw \<Rightarrow> batadv_gw_node option" where
  "batadv_gw_node_get orig_node st = List.find (\<lambda>g. gn_orig_node g = orig_node) (gw_list st)"

definition batadv_gw_node_update :: "gw_env \<Rightarrow> nat \<Rightarrow> u32 \<Rightarrow> u32 \<Rightarrow> batadv_priv_gw \<Rightarrow> batadv_priv_gw" where
  "batadv_gw_node_update env orig_node down up st =
     (case batadv_gw_node_get orig_node st of
        None \<Rightarrow> batadv_gw_node_add env orig_node down up st
      | Some gw_node \<Rightarrow>
          if gn_bandwidth_down gw_node = down \<and> gn_bandwidth_up gw_node = up then st
          else if down \<noteq> 0
          then st\<lparr>gw_list := map (\<lambda>g. if gn_ref g = gn_ref gw_node then g\<lparr>gn_bandwidth_down := down, gn_bandwidth_up := up\<rparr> else g) (gw_list st)\<rparr>
          else
            let st = st\<lparr>gw_list := filter (\<lambda>g. gn_ref g \<noteq> gn_ref gw_node) (gw_list st)\<rparr>
            in if map_option fst (gw_curr_gw st) = Some (gn_ref gw_node) then batadv_gw_reselect st else st)"

definition batadv_gw_node_delete :: "gw_env \<Rightarrow> nat \<Rightarrow> batadv_priv_gw \<Rightarrow> batadv_priv_gw" where
  "batadv_gw_node_delete env orig_node st = batadv_gw_node_update env orig_node 0 0 st"

definition batadv_gw_node_free :: "batadv_priv_gw \<Rightarrow> batadv_priv_gw" where
  "batadv_gw_node_free st = st\<lparr>gw_list := []\<rparr>"

section \<open>Announcements\<close>

definition batadv_gw_tvlv_container_update :: "gw_env \<Rightarrow> batadv_priv_gw \<Rightarrow> batadv_priv_gw" where
  "batadv_gw_tvlv_container_update env st =
     (case gw_mode st of
        BATADV_GW_MODE_SERVER \<Rightarrow>
          st\<lparr>gw_tvlv := batadv_tvlv_container_register (ge_alloc_tvlv env) BATADV_TVLV_GW 1
               (Some (be_bytes 4 (gw_bandwidth_down st) @ be_bytes 4 (gw_bandwidth_up st))) 8 (gw_tvlv st)\<rparr>
      | _ \<Rightarrow> st\<lparr>gw_tvlv := batadv_tvlv_container_unregister BATADV_TVLV_GW 1 (gw_tvlv st)\<rparr>)"

text \<open>The bandwidths in a container; an announcement with one that is zero counts as none.\<close>

definition gw_announced :: "u8 \<Rightarrow> u8 list \<Rightarrow> u32 \<times> u32" where
  "gw_announced flags tvlv_value =
     (if flags AND BATADV_TVLV_HANDLER_OGM_CIFNOTFND \<noteq> 0 \<or> length tvlv_value < 8 then (0, 0)
      else
        let down = be_word (take 4 tvlv_value); up = be_word (take 4 (drop 4 tvlv_value))
        in if down = 0 \<or> up = 0 then (0, 0) else (down, up))"

definition batadv_gw_tvlv_ogm_handler_v1 :: "gw_env \<Rightarrow> nat \<Rightarrow> u8 \<Rightarrow> u8 list \<Rightarrow> batadv_priv_gw \<Rightarrow> batadv_priv_gw" where
  "batadv_gw_tvlv_ogm_handler_v1 env orig flags tvlv_value st =
     (let (down, up) = gw_announced flags tvlv_value;
          st = batadv_gw_node_update env orig down up st
      in if down \<noteq> 0 \<and> gw_mode st = BATADV_GW_MODE_CLIENT \<and> gw_sel_class st > 2
         then batadv_gw_check_election env orig st else st)"

text \<open>
  Registration: the state of the handlers is the component together with its present environment and the pointers of
  the originators by address. A message without an originator does not reach the handler.
\<close>

definition gw_handler :: "(gw_env \<times> (mac \<Rightarrow> nat)) \<times> batadv_priv_gw \<Rightarrow> mac option \<Rightarrow> u8 \<Rightarrow> u8 list \<Rightarrow> (gw_env \<times> (mac \<Rightarrow> nat)) \<times> batadv_priv_gw" where
  "gw_handler s orig flags tvlv_value =
     (case (s, orig) of
        (_, None) \<Rightarrow> s
      | (((env, ptr), st), Some a) \<Rightarrow> ((env, ptr), batadv_gw_tvlv_ogm_handler_v1 env (ptr a) flags tvlv_value st))"

definition batadv_gw_init ::
    "bool \<Rightarrow> ((gw_env \<times> (mac \<Rightarrow> nat)) \<times> batadv_priv_gw) batadv_priv_tvlv \<Rightarrow> ((gw_env \<times> (mac \<Rightarrow> nat)) \<times> batadv_priv_gw) batadv_priv_tvlv" where
  "batadv_gw_init alloc tv =
     batadv_tvlv_handler_register alloc (Some gw_handler) None BATADV_TVLV_GW 1 BATADV_TVLV_HANDLER_OGM_CIFNOTFND tv"

definition batadv_gw_free :: "'st batadv_priv_tvlv \<Rightarrow> 'st batadv_priv_tvlv" where
  "batadv_gw_free tv =
     batadv_tvlv_handler_unregister BATADV_TVLV_GW 1 (batadv_tvlv_container_unregister BATADV_TVLV_GW 1 tv)"

end
