(* ===== verification/Gw_Config.thy ===== *)
theory Gw_Config
  imports Gw
begin

text \<open>
  Gateways, continued: the settings an administrator writes into the files of \<^verbatim>\<open>sysfs.c\<close>, the
  recognition of DHCP messages, and the check whether a DHCP request still goes to a good gateway.
\<close>

section \<open>Settings\<close>

text \<open>The functions of the C and kernel libraries on strings that the code uses.\<close>

definition to_lower :: "char \<Rightarrow> char" where
  "to_lower c = (let n = of_char c :: nat in if 65 \<le> n \<and> n \<le> 90 then char_of (n + 32) else c)"

definition is_digit :: "char \<Rightarrow> bool" where
  "is_digit c \<longleftrightarrow> 48 \<le> (of_char c :: nat) \<and> (of_char c :: nat) \<le> 57"

definition digits_value :: "string \<Rightarrow> nat" where
  "digits_value ds = foldl (\<lambda>n c. 10 * n + (of_char c - 48)) 0 ds"

text \<open>
  \<^verbatim>\<open>kstrtou64\<close> with base 10: an optional plus sign, digits, an optional newline; no value when there is no digit, when the value
  has more than 64 bits or when something else follows.
\<close>

definition kstrtou64 :: "string \<Rightarrow> 64 word option" where
  "kstrtou64 s =
     (let s = (if take 1 s = ''+'' then drop 1 s else s);
          ds = takeWhile is_digit s;
          rest = dropWhile is_digit s;
          rest = (if take 1 rest = [CHR 10] then drop 1 rest else rest)
      in if ds = [] \<or> digits_value ds \<ge> 2 ^ 64 \<or> rest \<noteq> [] then None else Some (of_nat (digits_value ds)))"

definition batadv_parse_throughput :: "string \<Rightarrow> u32 option" where
  "batadv_parse_throughput buff =
     (let unit = (if length buff > 4 then map to_lower (drop (length buff - 4) buff) else []);
          mbit = (unit = ''mbit'');
          buff = (if unit = ''kbit'' \<or> mbit then take (length buff - 4) buff else buff)
      in case kstrtou64 buff of
           None \<Rightarrow> None
         | Some lthroughput \<Rightarrow>
             if mbit \<and> (-1) div 10 < lthroughput then None
             else
               let lthroughput = (if mbit then lthroughput * 10 else lthroughput div 100)
               in if lthroughput > 0xFFFFFFFF then None else Some (ucast lthroughput))"

text \<open>The text up to the first slash is the download bandwidth, the text behind it the upload bandwidth. The values of \<^verbatim>\<open>down\<close> and \<^verbatim>\<open>up\<close> before the call are 0.\<close>

definition batadv_parse_gw_bandwidth :: "string \<Rightarrow> (u32 \<times> u32) option" where
  "batadv_parse_gw_bandwidth buff =
     (case batadv_parse_throughput (takeWhile (\<lambda>c. c \<noteq> CHR ''/'') buff) of
        None \<Rightarrow> None
      | Some down \<Rightarrow>
          (case dropWhile (\<lambda>c. c \<noteq> CHR ''/'') buff of
             [] \<Rightarrow> Some (down, 0)
           | _ # rest \<Rightarrow> map_option (Pair down) (batadv_parse_throughput rest)))"

definition batadv_gw_bandwidth_set :: "gw_env \<Rightarrow> string \<Rightarrow> int \<Rightarrow> batadv_priv_gw \<Rightarrow> batadv_priv_gw \<times> int" where
  "batadv_gw_bandwidth_set env buff cnt st =
     (case batadv_parse_gw_bandwidth buff of
        None \<Rightarrow> (st, - EINVAL)
      | Some (down_new, up_new) \<Rightarrow>
          let down_new = (if down_new = 0 then 1 else down_new);
              up_new = (if up_new = 0 then down_new div 5 else up_new);
              up_new = (if up_new = 0 then 1 else up_new)
          in if gw_bandwidth_down st = down_new \<and> gw_bandwidth_up st = up_new then (st, cnt)
             else (batadv_gw_tvlv_container_update env
                     ((batadv_gw_reselect st)\<lparr>gw_bandwidth_down := down_new, gw_bandwidth_up := up_new\<rparr>), cnt))"

text \<open>A mode is recognised by its beginning; the last of the three that matches counts.\<close>

definition gw_mode_of :: "string \<Rightarrow> batadv_gw_modes option" where
  "gw_mode_of buff =
     (if take 6 buff = ''server'' then Some BATADV_GW_MODE_SERVER
      else if take 6 buff = ''client'' then Some BATADV_GW_MODE_CLIENT
      else if take 3 buff = ''off'' then Some BATADV_GW_MODE_OFF
      else None)"

definition batadv_store_gw_mode :: "gw_env \<Rightarrow> string \<Rightarrow> int \<Rightarrow> batadv_priv_gw \<Rightarrow> batadv_priv_gw \<times> int" where
  "batadv_store_gw_mode env buff cnt st =
     (case gw_mode_of buff of
        None \<Rightarrow> (st, - EINVAL)
      | Some gw_mode_tmp \<Rightarrow>
          if gw_mode st = gw_mode_tmp then (st, cnt)
          else (batadv_gw_tvlv_container_update env
                  ((batadv_gw_check_client_stop (batadv_gw_reselect st))\<lparr>gw_mode := gw_mode_tmp\<rparr>), cnt))"

definition batadv_post_gw_reselect :: "batadv_priv_gw \<Rightarrow> batadv_priv_gw" where
  "batadv_post_gw_reselect st = batadv_gw_reselect st"

section \<open>DHCP\<close>

datatype batadv_dhcp_recipient = BATADV_DHCP_NO | BATADV_DHCP_TO_SERVER | BATADV_DHCP_TO_CLIENT

text \<open>
  \<open>mac_header\<close> is the position of the Ethernet header. The result is the kind of message, the length of the headers, and the
  hardware address of the client when one was stored.
\<close>

definition batadv_gw_dhcp_recipient_get ::
    "gw_env \<Rightarrow> u8 list \<Rightarrow> nat \<Rightarrow> nat \<Rightarrow> batadv_dhcp_recipient \<times> nat \<times> mac option" where
  "batadv_gw_dhcp_recipient_get env skb mac_header header_len =
     (let pull = pull (ge_rt env) skb;
          u16_at = (\<lambda>pos. be_word (take 2 (drop pos skb)) :: u16);
          no = (\<lambda>n. (BATADV_DHCP_NO, n, None))
      in if \<not> pull (header_len + ETH_HLEN) then no header_len
         else
           let proto = u16_at (mac_header + 12); header_len = header_len + ETH_HLEN in
           if proto = ETH_P_8021Q \<and> \<not> pull (header_len + 4) then no header_len
           else
             let (proto, header_len) = (if proto = ETH_P_8021Q then (u16_at (mac_header + 16), header_len + 4) else (proto, header_len)) in
             if proto \<noteq> 0x0800 \<and> proto \<noteq> 0x86DD then no header_len
             else if \<not> pull (header_len + (if proto = 0x0800 then 20 else 40)) then no header_len
             else
               let next_proto = skb ! (header_len + (if proto = 0x0800 then 9 else 6));
                   header_len = header_len + (if proto = 0x0800 then 4 * unat (skb ! header_len AND 0x0F) else 40)
               in if next_proto \<noteq> 17 then no header_len
                  else if \<not> pull (header_len + 8) then no header_len
                  else
                    let source = u16_at header_len; dest = u16_at (header_len + 2); header_len = header_len + 8;
                        server_port = (if proto = 0x0800 then 67 else 547);
                        ret = (if dest = server_port then BATADV_DHCP_TO_SERVER
                               else if source = server_port then BATADV_DHCP_TO_CLIENT else BATADV_DHCP_NO);
                        chaddr_offset = header_len + 28
                    in if ret = BATADV_DHCP_TO_CLIENT \<and> pull (chaddr_offset + 6)
                       then (if skb ! (header_len + 1) \<noteq> 1 then no header_len
                             else if skb ! (header_len + 2) \<noteq> 6 then no header_len
                             else (ret, header_len, Some (mac_at skb chaddr_offset)))
                       else (ret, header_len, None))"

definition batadv_gw_out_of_range :: "gw_env \<Rightarrow> u8 list \<Rightarrow> batadv_priv_gw \<Rightarrow> bool" where
  "batadv_gw_out_of_range env skb st =
     (let tq = (\<lambda>orig. case ge_find_router env orig of
                  None \<Rightarrow> None
                | Some neigh \<Rightarrow> map_option ni_tq_avg (batadv_neigh_ifinfo_get neigh BATADV_IF_DEFAULT));
          vid = batadv_get_vid (ge_rt env) skb 0
      in case ge_transtable_search env (mac_at skb 6) (mac_at skb 0) vid of
           None \<Rightarrow> False
         | Some orig_dst_node \<Rightarrow>
             if batadv_gw_node_get orig_dst_node st = None then False
             else
               let curr_tq_avg = (case gw_mode st of
                     BATADV_GW_MODE_SERVER \<Rightarrow> Some 255
                   | BATADV_GW_MODE_CLIENT \<Rightarrow>
                       (case batadv_gw_get_selected_orig st of
                          None \<Rightarrow> None
                        | Some curr_orig \<Rightarrow> if curr_orig = orig_dst_node then None else tq curr_orig)
                   | BATADV_GW_MODE_OFF \<Rightarrow> None)
               in (case (curr_tq_avg, tq orig_dst_node) of
                     (Some c, Some old) \<Rightarrow> int (unat c) - int (unat old) > BATADV_GW_THRESHOLD
                   | _ \<Rightarrow> False))"

definition batadv_send_skb_via_gw ::
    "gw_env \<Rightarrow> u8 list \<Rightarrow> u16 \<Rightarrow> batadv_priv_gw \<Rightarrow> 'st batadv_node \<Rightarrow> 'st batadv_node \<times> int" where
  "batadv_send_skb_via_gw env skb vid st nd =
     batadv_send_skb_unicast (ge_rt env) (ge_junk env) skb BATADV_UNICAST 0
       (map_option (\<lambda>p. on_orig (ge_orig_node env p)) (batadv_gw_get_selected_orig st)) vid nd"

end
