(* ===== verification/Gw_Props.thy ===== *)
theory Gw_Props
  imports Gw_Config Interfaces
begin

text \<open>
  Properties of the gateways: which one is elected, what user space is told, and how a bandwidth gets from the
  settings of a server into the list of a client.
\<close>

section \<open>The best gateway\<close>

definition gw_usable :: "gw_env \<Rightarrow> batadv_gw_node \<Rightarrow> bool" where
  "gw_usable env g \<longleftrightarrow> (case gw_tq env (gn_orig_node g) of None \<Rightarrow> False | Some tq \<Rightarrow> tq \<noteq> 0)"

text \<open>What a gateway is worth: the product of quality and bandwidth, or the quality alone.\<close>

definition gw_rating :: "gw_env \<Rightarrow> int \<Rightarrow> batadv_gw_node \<Rightarrow> nat" where
  "gw_rating env sel_class g =
     (case gw_tq env (gn_orig_node g) of
        None \<Rightarrow> 0
      | Some tq \<Rightarrow> if sel_class = 1 then unat tq * unat tq * unat (gn_bandwidth_down g) * 10000 div 2 ^ 18 else unat tq)"

text \<open>The product in 64 bits does not overflow.\<close>

lemma len64: "LENGTH(64) = 64"
  by simp

lemma gw_factor_exact: "unat (gw_factor tq down) = unat tq * unat tq * unat down * 10000 div 2 ^ 18"
proof -
  have t: "unat tq < 2 ^ LENGTH(8)" and d: "unat down < 2 ^ LENGTH(32)" by (rule unsigned_less)+
  have t: "unat tq \<le> 255" and d: "unat down \<le> 2 ^ 32" using t d by simp_all
  have "unat tq * unat tq * unat down * 10000 \<le> 255 * 255 * 2 ^ 32 * 10000"
    by (rule mult_le_mono1 [OF mult_le_mono [OF mult_le_mono [OF t t] d]])
  moreover have "255 * 255 * 2 ^ 32 * 10000 < (2 ^ 64 :: nat)" by simp
  ultimately have "unat tq * unat tq * unat down * 10000 < 2 ^ 64" by (rule le_less_trans)
  then have b: "unat tq * unat tq * unat down * 10000 < 2 ^ LENGTH(64)" by (simp only: len64)
  let ?n = "unat tq * unat tq * unat down * 10000"
  have "(ucast tq * ucast tq * ucast down * 10000 :: 64 word) = of_nat ?n"
    by simp
  moreover have "unat (of_nat ?n :: 64 word) = ?n" unfolding unsigned_of_nat of_nat_id by (rule take_bit_nat_eq_self [OF b])
  ultimately have "unat (ucast tq * ucast tq * ucast down * 10000 :: 64 word) = ?n" by (simp only:)
  then show ?thesis unfolding gw_factor_def drop_bit_eq_div unat_div by simp
qed


definition gw_tq_nat :: "gw_env \<Rightarrow> batadv_gw_node \<Rightarrow> nat" where
  "gw_tq_nat env g = (case gw_tq env (gn_orig_node g) of None \<Rightarrow> 0 | Some tq \<Rightarrow> unat tq)"

lemma usable_tq: "gw_usable env g \<longleftrightarrow> gw_tq_nat env g \<noteq> 0"
  by (simp add: gw_usable_def gw_tq_nat_def word_neq_0_conv word_less_nat_alt split: option.split)

lemma best_scan_spec:
  "(best_scan env cls gws mf mt cur = cur
      \<and> (\<forall>g \<in> set gws. gw_rating env cls g \<le> (if cls = 1 then unat mf else unat mt)))
   \<or> (\<exists>g \<in> set gws. best_scan env cls gws mf mt cur = Some g \<and> gw_usable env g \<and> (if cls = 1 then unat mf else unat mt) \<le> gw_rating env cls g
        \<and> (\<forall>g' \<in> set gws. gw_rating env cls g' \<le> gw_rating env cls g))"
proof (induction gws arbitrary: mf mt cur)
  case (Cons g gws)
  show ?case
  proof (cases "gw_tq env (gn_orig_node g)")
    case None
    then have "gw_rating env cls g = 0" "gw_tq_nat env g = 0" by (simp_all add: gw_rating_def gw_tq_nat_def)
    then show ?thesis using Cons [of mf mt cur] None by auto
  next
    case (Some tq)
    let ?f = "if cls = 1 then gw_factor tq (gn_bandwidth_down g) else 0"
    let ?mf = "if ?f > mf then ?f else mf" and ?mt = "if tq > mt then tq else mt"
    let ?b = "if cls = 1 then ?f > mf \<or> (?f = mf \<and> tq > mt) else tq > mt"
    have step: "best_scan env cls (g # gws) mf mt cur = best_scan env cls gws ?mf ?mt (if ?b then Some g else cur)"
      using Some by (simp add: Let_def)
    have rg: "gw_rating env cls g = (if cls = 1 then unat ?f else unat tq)" "gw_tq_nat env g = unat tq"
      using Some by (simp_all add: gw_rating_def gw_tq_nat_def gw_factor_exact)
    show ?thesis
    proof (cases "cls = 1")
      case True
      have u: "?b \<Longrightarrow> gw_usable env g"
        using True rg by (auto simp: usable_tq word_less_nat_alt gw_factor_exact intro!: gr0I)
      show ?thesis unfolding step using Cons [of ?mf ?mt "if ?b then Some g else cur"] u rg True
        by (cases ?b) (auto simp: word_less_nat_alt not_less le_less_trans intro: less_imp_le split: if_splits)
    next
      case False
      have u: "?b \<Longrightarrow> gw_usable env g" using False rg by (auto simp: usable_tq word_less_nat_alt)
      show ?thesis unfolding step using Cons [of ?mf ?mt "if ?b then Some g else cur"] u rg False
        by (cases ?b) (auto simp: word_less_nat_alt not_less intro: less_imp_le)
    qed
  qed
qed simp

lemma best_scan_keeps: "best_scan env cls gws mf mt (Some g) \<noteq> None"
  by (induction gws arbitrary: mf mt g) (auto simp: Let_def split: option.split)

lemma best_scan_none: "best_scan env cls gws 0 0 None = None \<Longrightarrow> g \<in> set gws \<Longrightarrow> \<not> gw_usable env g"
proof (induction gws)
  case (Cons x gws)
  show ?case
  proof (cases "gw_usable env x")
    case True
    then obtain tq where tq: "gw_tq env (gn_orig_node x) = Some tq" "tq > 0"
      by (auto simp: gw_usable_def word_neq_0_conv split: option.splits)
    then have "best_scan env cls (x # gws) 0 0 None \<noteq> None"
      using best_scan_keeps by (auto simp: Let_def word_neq_0_conv)
    then show ?thesis using Cons.prems by simp
  next
    case False
    then have "best_scan env cls (x # gws) 0 0 None = best_scan env cls gws 0 0 None"
      by (auto simp: gw_usable_def gw_factor_def split: option.splits)
    then show ?thesis using Cons False by auto
  qed
qed simp

lemma best_gw_node:
  "(case batadv_gw_get_best_gw_node env st of
      None \<Rightarrow> \<forall>g \<in> set (gw_list st). \<not> gw_usable env g
    | Some g \<Rightarrow> g \<in> set (gw_list st) \<and> gw_usable env g \<and> (\<forall>g' \<in> set (gw_list st). gw_rating env (gw_sel_class st) g' \<le> gw_rating env (gw_sel_class st) g))"
  using best_scan_spec [of env "gw_sel_class st" "gw_list st" 0 0 None] best_scan_none [of env "gw_sel_class st" "gw_list st"]
  by (auto simp: batadv_gw_get_best_gw_node_def split: option.split)


section \<open>User space\<close>

text \<open>What a listener to the events believes; an event that does not fit has no outcome.\<close>

fun user_view :: "mac option \<Rightarrow> gw_uevent list \<Rightarrow> mac option option" where
  "user_view v [] = Some v"
| "user_view v (Uev_Add a # es) = (if v = None then user_view (Some a) es else None)"
| "user_view v (Uev_Change a # es) = (if v = None then None else user_view (Some a) es)"
| "user_view v (Uev_Del # es) = (if v = None then None else user_view None es)"

lemma user_view_append: "user_view v (es @ fs) = (case user_view v es of None \<Rightarrow> None | Some w \<Rightarrow> user_view w fs)"
  by (induction v es rule: user_view.induct) auto

text \<open>The address behind a pointer is always the same.\<close>

definition gw_env_ok :: "(nat \<Rightarrow> mac) \<Rightarrow> gw_env \<Rightarrow> bool" where
  "gw_env_ok addr env \<longleftrightarrow> (\<forall>p. on_orig (ge_orig_node env p) = addr p)"

inductive gw_step :: "(nat \<Rightarrow> mac) \<Rightarrow> batadv_priv_gw \<Rightarrow> batadv_priv_gw \<Rightarrow> bool" for addr where
  election: "gw_env_ok addr env \<Longrightarrow> gw_step addr st (batadv_gw_election env st)"
| announcement: "gw_env_ok addr env \<Longrightarrow> gw_step addr st (batadv_gw_tvlv_ogm_handler_v1 env orig flags tvlv_value st)"
| purged: "gw_env_ok addr env \<Longrightarrow> gw_step addr st (batadv_gw_node_delete env orig st)"
| client_stop: "gw_step addr st (batadv_gw_check_client_stop st)"
| bandwidth: "gw_step addr st (fst (batadv_gw_bandwidth_set env buff cnt st))"
| mode: "gw_step addr st (fst (batadv_store_gw_mode env buff cnt st))"
| sel_class: "gw_step addr st (batadv_post_gw_reselect (st\<lparr>gw_sel_class := v\<rparr>))"
| node_free: "gw_step addr st (batadv_gw_node_free st)"

text \<open>The values of \<^verbatim>\<open>batadv_softif_init_late\<close>.\<close>

definition gw_initial :: "batadv_priv_gw \<Rightarrow> bool" where
  "gw_initial st \<longleftrightarrow> st = \<lparr>gw_list = [], gw_curr_gw = None, gw_bandwidth_down = 100, gw_bandwidth_up = 20, gw_reselect = 0,
     gw_mode = BATADV_GW_MODE_OFF, gw_sel_class = 20, gw_next_ref = 0, gw_tvlv = tvlv_init (), gw_uevents = []\<rparr>"

definition list_ok :: "nat \<Rightarrow> (nat \<times> nat) option \<Rightarrow> batadv_gw_node list \<Rightarrow> bool" where
  "list_ok nref cur gs \<longleftrightarrow> distinct (map gn_ref gs) \<and> distinct (map gn_orig_node gs)
     \<and> (\<forall>g \<in> set gs. gn_ref g < nref \<and> gn_bandwidth_down g \<noteq> 0 \<and> gn_bandwidth_up g \<noteq> 0
          \<and> (\<forall>r p. cur = Some (r, p) \<longrightarrow> gn_ref g = r \<longrightarrow> gn_orig_node g = p))
     \<and> (\<forall>r p. cur = Some (r, p) \<longrightarrow> r < nref)"

definition gw_ok :: "(nat \<Rightarrow> mac) \<Rightarrow> batadv_priv_gw \<Rightarrow> bool" where
  "gw_ok addr st \<longleftrightarrow> list_ok (gw_next_ref st) (gw_curr_gw st) (gw_list st)
     \<and> user_view None (gw_uevents st) = Some (map_option (\<lambda>c. addr (snd c)) (gw_curr_gw st))
     \<and> (gw_mode st \<noteq> BATADV_GW_MODE_CLIENT \<longrightarrow> gw_curr_gw st = None)"

lemma list_ok_unselect: "list_ok n cur gs \<Longrightarrow> list_ok n None gs"
  by (auto simp: list_ok_def)

lemma list_ok_select: "list_ok n cur gs \<Longrightarrow> g \<in> set gs \<Longrightarrow> list_ok n (Some (gn_ref g, gn_orig_node g)) gs"
  by (auto simp: list_ok_def distinct_map inj_on_def)

lemma election_ok:
  assumes ok: "gw_ok addr st" and env: "gw_env_ok addr env"
  shows "gw_ok addr (batadv_gw_election env st)"
proof (cases "gw_mode st = BATADV_GW_MODE_CLIENT \<and> (gw_reselect st \<noteq> 0 \<or> gw_curr_gw st = None)")
  case False
  then show ?thesis using ok by (auto simp: batadv_gw_election_def Let_def gw_ok_def)
next
  case True
  let ?st = "if gw_reselect st \<noteq> 0 then st\<lparr>gw_reselect := gw_reselect st - 1\<rparr> else st"
  have keep: "gw_list ?st = gw_list st" "gw_next_ref ?st = gw_next_ref st" "gw_curr_gw ?st = gw_curr_gw st" "gw_uevents ?st = gw_uevents st"
    "gw_mode ?st = gw_mode st" "gw_sel_class ?st = gw_sel_class st" by simp_all
  have l: "list_ok (gw_next_ref st) (gw_curr_gw st) (gw_list st)"
    and v: "user_view None (gw_uevents st) = Some (map_option (\<lambda>c. addr (snd c)) (gw_curr_gw st))" using ok by (simp_all add: gw_ok_def)
  have a: "on_orig (ge_orig_node env p) = addr p" for p using env by (simp add: gw_env_ok_def)
  have stok: "gw_ok addr ?st" using ok by (simp add: gw_ok_def)
  note best = best_gw_node [of ?st env, unfolded keep]
  note el = batadv_gw_election_def [of env st] True
  show ?thesis
  proof (cases "batadv_gw_get_best_gw_node env ?st")
    case None
    then have "batadv_gw_election env st = (if gw_curr_gw st = None then ?st else batadv_gw_select None (gw_uevent Uev_Del ?st))"
      using el by (auto simp: Let_def)
    then show ?thesis using stok v list_ok_unselect [OF l]
      by (auto simp: gw_ok_def batadv_gw_select_def gw_uevent_def user_view_append split: if_splits)
  next
    case (Some g)
    then have g: "g \<in> set (gw_list st)" "gw_usable env g" using best by simp_all
    then have "gw_tq env (gn_orig_node g) \<noteq> None" by (auto simp: gw_usable_def split: option.splits)
    then have e: "batadv_gw_election env st = (if map_option fst (gw_curr_gw st) = Some (gn_ref g) then ?st
        else batadv_gw_select (Some (gn_ref g, gn_orig_node g))
          (gw_uevent (if gw_curr_gw st = None then Uev_Add (addr (gn_orig_node g)) else Uev_Change (addr (gn_orig_node g))) ?st))"
      using el Some by (auto simp: Let_def a)
    show ?thesis unfolding e using stok v list_ok_select [OF l g(1)] True
      by (auto simp: gw_ok_def batadv_gw_select_def gw_uevent_def user_view_append split: if_splits option.splits)
  qed
qed

lemma announced_both: "gw_announced flags v = (down, up) \<Longrightarrow> down = 0 \<longleftrightarrow> up = 0"
  by (auto simp: gw_announced_def Let_def split: if_splits)

lemma node_get_SomeD: "batadv_gw_node_get orig st = Some g \<Longrightarrow> g \<in> set (gw_list st) \<and> gn_orig_node g = orig"
  unfolding batadv_gw_node_get_def by (drule find_SomeD) simp

lemma node_get_None: "batadv_gw_node_get orig st = None \<longleftrightarrow> orig \<notin> gn_orig_node ` set (gw_list st)"
  by (auto simp: batadv_gw_node_get_def find_None_iff)

lemma map_upd_keys:
  "map gn_ref (map (\<lambda>g. if gn_ref g = r then g\<lparr>gn_bandwidth_down := d, gn_bandwidth_up := u\<rparr> else g) gs) = map gn_ref gs"
  "map gn_orig_node (map (\<lambda>g. if gn_ref g = r then g\<lparr>gn_bandwidth_down := d, gn_bandwidth_up := u\<rparr> else g) gs) = map gn_orig_node gs"
  by simp_all

lemma node_update_ok:
  assumes ok: "gw_ok addr st" and zero: "down = 0 \<longleftrightarrow> up = 0"
  shows "gw_ok addr (batadv_gw_node_update env orig down up st)"
proof -
  have l: "list_ok (gw_next_ref st) (gw_curr_gw st) (gw_list st)" using ok by (simp add: gw_ok_def)
  show ?thesis
  proof (cases "batadv_gw_node_get orig st")
    case None
    have "list_ok (Suc (gw_next_ref st)) (gw_curr_gw st)
        (\<lparr>gn_ref = gw_next_ref st, gn_orig_node = orig, gn_bandwidth_down = down, gn_bandwidth_up = up\<rparr> # gw_list st)" if "down \<noteq> 0"
      using l that zero None [unfolded node_get_None] by (auto simp: list_ok_def)
    then show ?thesis using ok None by (simp add: batadv_gw_node_update_def batadv_gw_node_add_def gw_ok_def)
  next
    case (Some g)
    have "list_ok (gw_next_ref st) (gw_curr_gw st)
        (map (\<lambda>x. if gn_ref x = gn_ref g then x\<lparr>gn_bandwidth_down := down, gn_bandwidth_up := up\<rparr> else x) (gw_list st))" if "down \<noteq> 0"
      using l that zero unfolding list_ok_def map_upd_keys by auto
    moreover have "list_ok (gw_next_ref st) (gw_curr_gw st) (filter (\<lambda>x. gn_ref x \<noteq> gn_ref g) (gw_list st))"
      using l by (auto simp: list_ok_def distinct_map_filter)
    ultimately show ?thesis using ok Some by (simp add: batadv_gw_node_update_def gw_ok_def batadv_gw_reselect_def Let_def)
  qed
qed

lemma reselect_ok: "gw_ok addr st \<Longrightarrow> gw_ok addr (batadv_gw_reselect st)"
  by (simp add: gw_ok_def batadv_gw_reselect_def)

lemma check_election_ok: "gw_ok addr st \<Longrightarrow> gw_ok addr (batadv_gw_check_election env orig st)"
  by (simp add: batadv_gw_check_election_def reselect_ok split: option.split)

lemma gw_container_update_ok: "gw_ok addr (batadv_gw_tvlv_container_update env st) = gw_ok addr st"
  by (simp add: batadv_gw_tvlv_container_update_def gw_ok_def split: batadv_gw_modes.split)

lemma client_stop_ok: "gw_ok addr st \<Longrightarrow> gw_ok addr (batadv_gw_check_client_stop st) \<and> gw_curr_gw (batadv_gw_check_client_stop st) = None
    \<or> batadv_gw_check_client_stop st = st \<and> gw_curr_gw st = None"
  using list_ok_unselect
  by (auto simp: batadv_gw_check_client_stop_def gw_ok_def batadv_gw_select_def gw_uevent_def user_view_append)

lemma mode_ok: "gw_ok addr st \<Longrightarrow> gw_curr_gw st = None \<Longrightarrow> gw_ok addr (st\<lparr>gw_mode := m\<rparr>)"
  by (simp add: gw_ok_def)

lemma gw_step_ok: "gw_step addr st st' \<Longrightarrow> gw_ok addr st \<Longrightarrow> gw_ok addr st'"
proof (induction rule: gw_step.induct)
  case (election env st)
  then show ?case by (blast intro: election_ok)
next
  case (announcement env st orig flags v)
  obtain down up where d: "gw_announced flags v = (down, up)" by (rule prod.exhaust)
  show ?case using node_update_ok [OF announcement.prems announced_both [OF d]] check_election_ok
    by (simp add: batadv_gw_tvlv_ogm_handler_v1_def d Let_def)
next
  case (purged env st orig)
  then show ?case unfolding batadv_gw_node_delete_def by (intro node_update_ok) simp_all
next
  case (client_stop st)
  then show ?case using client_stop_ok by metis
next
  case (bandwidth st env buff cnt)
  have "gw_ok addr ((batadv_gw_reselect st)\<lparr>gw_bandwidth_down := d, gw_bandwidth_up := u\<rparr>)" for d u
    using reselect_ok [OF bandwidth] by (simp add: gw_ok_def)
  then show ?case using bandwidth by (simp add: batadv_gw_bandwidth_set_def gw_container_update_ok Let_def split: option.split prod.split)
next
  case (mode st env buff cnt)
  let ?s = "batadv_gw_check_client_stop (batadv_gw_reselect st)"
  have "gw_ok addr ?s \<and> gw_curr_gw ?s = None" using client_stop_ok [OF reselect_ok [OF mode]] reselect_ok [OF mode] by auto
  then have "gw_ok addr (?s\<lparr>gw_mode := m\<rparr>)" for m by (simp add: mode_ok)
  then show ?case using mode by (simp add: batadv_store_gw_mode_def gw_container_update_ok split: option.split)
next
  case (sel_class st v)
  then show ?case by (simp add: batadv_post_gw_reselect_def batadv_gw_reselect_def gw_ok_def)
next
  case (node_free st)
  then show ?case by (auto simp: batadv_gw_node_free_def gw_ok_def list_ok_def)
qed

interpretation gw_system: transition_system gw_initial "gw_step addr" "gw_ok addr"
proof unfold_locales
  show "gw_initial s \<Longrightarrow> gw_ok addr s" for s by (simp add: gw_initial_def gw_ok_def list_ok_def)
  show "gw_step addr s s' \<Longrightarrow> gw_ok addr s \<Longrightarrow> gw_ok addr s'" for s s' by (rule gw_step_ok)
qed

text \<open>
  C27. User space is told the truth: the events thrown so far are in a sensible order (a gateway is added only when
  none was, changed and removed only when one was), and what they say last is the gateway that is selected.
  Only a node in client mode has one; the list of gateways has every originator once, with bandwidths
  that are not zero.
\<close>

theorem gw_uevents_consistent:
  assumes "gw_initial st0" and "(gw_step addr)\<^sup>*\<^sup>* st0 st"
  shows "user_view None (gw_uevents st) = Some (map_option addr (batadv_gw_get_selected_orig st))
    \<and> (batadv_gw_get_selected_orig st = None \<or> gw_mode st = BATADV_GW_MODE_CLIENT)
    \<and> distinct (map gn_orig_node (gw_list st))
    \<and> list_all (\<lambda>g. gn_bandwidth_down g \<noteq> 0 \<and> gn_bandwidth_up g \<noteq> 0) (gw_list st)"
  using gw_system.reachable_invariant [OF assms]
  by (auto simp: gw_ok_def list_ok_def batadv_gw_get_selected_orig_def list_all_iff option.map_comp comp_def)

end
