(* ===== verification/Gw_Elect.thy ===== *)
theory Gw_Elect
  imports Gw_Props Tvlv_Props Routing_Props
begin

text \<open>
  What an election decides, when a node changes its gateway, and how the bandwidth a server is given arrives at the clients.
\<close>

section \<open>Elections\<close>

lemma election_runs:
  assumes ok: "gw_ok addr st" and env: "gw_env_ok addr env" and mode: "gw_mode st = BATADV_GW_MODE_CLIENT"
    and due: "gw_reselect st \<noteq> 0 \<or> gw_curr_gw st = None"
  shows "gw_curr_gw (batadv_gw_election env st) = map_option (\<lambda>g. (gn_ref g, gn_orig_node g)) (batadv_gw_get_best_gw_node env st)"
proof -
  let ?st = "if gw_reselect st \<noteq> 0 then st\<lparr>gw_reselect := gw_reselect st - 1\<rparr> else st"
  have b: "batadv_gw_get_best_gw_node env ?st = batadv_gw_get_best_gw_node env st" by (simp add: batadv_gw_get_best_gw_node_def)
  have l: "list_ok (gw_next_ref st) (gw_curr_gw st) (gw_list st)" using ok by (simp add: gw_ok_def)
  show ?thesis
  proof (cases "batadv_gw_get_best_gw_node env st")
    case None
    then show ?thesis using mode due b
      by (auto simp: batadv_gw_election_def Let_def batadv_gw_select_def gw_uevent_def)
  next
    case (Some g)
    then have g: "g \<in> set (gw_list st)" "gw_usable env g" using best_gw_node [of st env] by simp_all
    then have "gw_tq env (gn_orig_node g) \<noteq> None" by (auto simp: gw_usable_def split: option.splits)
    moreover have "gw_curr_gw st = Some (gn_ref g, gn_orig_node g)" if "map_option fst (gw_curr_gw st) = Some (gn_ref g)"
      using that l g(1) by (auto simp: list_ok_def)
    ultimately show ?thesis using mode due b Some
      by (auto simp: batadv_gw_election_def Let_def batadv_gw_select_def gw_uevent_def)
  qed
qed

text \<open>
  C28. An election that is due selects a gateway of the list than which none is better, by the product of quality
  and bandwidth for a fast connection (exactly, without overflow) and by the quality otherwise; without a gateway whose quality is
  positive none is selected.
\<close>

theorem gw_election_best:
  assumes "gw_initial st0" and "(gw_step addr)\<^sup>*\<^sup>* st0 st" and "gw_env_ok addr env" and "gw_mode st = BATADV_GW_MODE_CLIENT"
    and "gw_reselect st \<noteq> 0 \<or> gw_curr_gw st = None"
  shows "case gw_curr_gw (batadv_gw_election env st) of
      None \<Rightarrow> \<forall>g \<in> set (gw_list st). \<not> gw_usable env g
    | Some (r, p) \<Rightarrow> \<exists>g \<in> set (gw_list st). gn_ref g = r \<and> gn_orig_node g = p \<and> gw_usable env g
        \<and> (\<forall>g' \<in> set (gw_list st). gw_rating env (gw_sel_class st) g' \<le> gw_rating env (gw_sel_class st) g)"
  unfolding election_runs [OF gw_system.reachable_invariant [OF assms(1,2)] assms(3,4,5)]
  using best_gw_node [of st env] by (auto split: option.splits)

text \<open>The gateway of an originator after an announcement.\<close>

lemma node_update_listed:
  assumes "gw_ok addr st" "down \<noteq> 0" "ge_alloc env"
  shows "\<exists>g \<in> set (gw_list (batadv_gw_node_update env orig down up st)). gn_orig_node g = orig \<and> gn_bandwidth_down g = down \<and> gn_bandwidth_up g = up"
proof (cases "batadv_gw_node_get orig st")
  case None
  then show ?thesis using assms by (simp add: batadv_gw_node_update_def batadv_gw_node_add_def)
next
  case (Some g)
  then have g: "g \<in> set (gw_list st)" "gn_orig_node g = orig" using node_get_SomeD by auto
  let ?upd = "\<lambda>h. if gn_ref h = gn_ref g then h\<lparr>gn_bandwidth_down := down, gn_bandwidth_up := up\<rparr> else h"
  show ?thesis
  proof (cases "gn_bandwidth_down g = down \<and> gn_bandwidth_up g = up")
    case True
    then have "batadv_gw_node_update env orig down up st = st" using Some by (simp add: batadv_gw_node_update_def)
    then show ?thesis using g True by auto
  next
    case False
    then have l: "gw_list (batadv_gw_node_update env orig down up st) = map ?upd (gw_list st)"
      using Some assms(2) by (simp add: batadv_gw_node_update_def if_not_P [OF False])
    have "?upd g \<in> set (map ?upd (gw_list st))" using g(1) by simp
    then show ?thesis unfolding l using g(2) by (intro bexI [of _ "?upd g"]) simp_all
  qed
qed

text \<open>
  C29. A client with fast or late switching changes to a better gateway: after the announcement of an originator whose
  quality exceeds that of the selected gateway by as many points as the class demands, the next election selects a
  gateway of at least that quality.
\<close>

theorem gw_switches:
  assumes run: "gw_initial st0" "(gw_step addr)\<^sup>*\<^sup>* st0 st" and env: "gw_env_ok addr env" "ge_alloc env"
    and mode: "gw_mode st = BATADV_GW_MODE_CLIENT" "gw_sel_class st > 2"
    and ann: "gw_announced 0 v = (down, up)" "down \<noteq> 0"
    and cur: "batadv_gw_get_selected_orig st = Some c" "c \<noteq> orig" "gw_tq env c = Some tc"
    and new: "gw_tq env orig = Some tn" "tc < tn" "gw_sel_class st > 3 \<longrightarrow> gw_sel_class st \<le> int (unat tn) - int (unat tc)"
  shows "\<exists>p t. batadv_gw_get_selected_orig (batadv_gw_election env (batadv_gw_tvlv_ogm_handler_v1 env orig 0 v st)) = Some p
    \<and> gw_tq env p = Some t \<and> tn \<le> t"
proof -
  let ?u = "batadv_gw_node_update env orig down up st"
  let ?h = "batadv_gw_tvlv_ogm_handler_v1 env orig 0 v st"
  have ok: "gw_ok addr st" by (rule gw_system.reachable_invariant [OF run])
  have u: "gw_mode ?u = gw_mode st" "gw_sel_class ?u = gw_sel_class st" "gw_curr_gw ?u = gw_curr_gw st"
    using ann(2) by (simp_all add: batadv_gw_node_update_def batadv_gw_node_add_def split: option.split)
  have less: "\<not> tn < tc" using new(2) by (rule less_not_sym)
  have "?h = batadv_gw_check_election env orig ?u"
    using ann mode u by (simp add: batadv_gw_tvlv_ogm_handler_v1_def Let_def)
  also have "\<dots> = batadv_gw_reselect ?u"
    using cur new(1,3) less u by (auto simp: batadv_gw_check_election_def batadv_gw_get_selected_orig_def)
  finally have h: "?h = batadv_gw_reselect ?u" .
  have hok: "gw_ok addr ?h" by (rule gw_step_ok [OF gw_step.announcement [OF env(1)] ok])
  have mode': "gw_mode ?h = BATADV_GW_MODE_CLIENT" "gw_reselect ?h \<noteq> 0 \<or> gw_curr_gw ?h = None"
    unfolding h using mode u by (simp_all add: batadv_gw_reselect_def)
  have cls: "gw_sel_class ?h = gw_sel_class st" "gw_list ?h = gw_list ?u" unfolding h using u by (simp_all add: batadv_gw_reselect_def)
  obtain g where g: "g \<in> set (gw_list ?h)" "gn_orig_node g = orig" using node_update_listed [OF ok ann(2) env(2), of orig up] cls by auto
  have "tn \<noteq> 0" using new(2) by auto
  then have usable: "gw_usable env g" using g new(1) by (simp add: gw_usable_def)
  have best: "case batadv_gw_get_best_gw_node env ?h of None \<Rightarrow> \<forall>g \<in> set (gw_list ?h). \<not> gw_usable env g
    | Some g \<Rightarrow> g \<in> set (gw_list ?h) \<and> gw_usable env g \<and> (\<forall>g' \<in> set (gw_list ?h). gw_rating env (gw_sel_class ?h) g' \<le> gw_rating env (gw_sel_class ?h) g)"
    by (rule best_gw_node)
  obtain b where b: "batadv_gw_get_best_gw_node env ?h = Some b" "gw_usable env b" "gw_rating env (gw_sel_class ?h) g \<le> gw_rating env (gw_sel_class ?h) b"
    using best g(1) usable by (auto split: option.splits)
  obtain t where t: "gw_tq env (gn_orig_node b) = Some t" using b(2) by (auto simp: gw_usable_def split: option.splits)
  have "tn \<le> t" using b(3) t g(2) new(1) mode(2) cls(1) by (simp add: gw_rating_def word_le_nat_alt)
  moreover have "batadv_gw_get_selected_orig (batadv_gw_election env ?h) = Some (gn_orig_node b)"
    unfolding batadv_gw_get_selected_orig_def election_runs [OF hok env(1) mode'] b(1) by simp
  ultimately show ?thesis using t by blast
qed

section \<open>Announcements\<close>

lemma container_update_keeps:
  "gw_bandwidth_down (batadv_gw_tvlv_container_update env x) = gw_bandwidth_down x"
  "gw_bandwidth_up (batadv_gw_tvlv_container_update env x) = gw_bandwidth_up x"
  "gw_mode (batadv_gw_tvlv_container_update env x) = gw_mode x"
  by (simp_all add: batadv_gw_tvlv_container_update_def split: batadv_gw_modes.split)

lemma bandwidth_set_cases:
  assumes "batadv_parse_gw_bandwidth buff \<noteq> None"
  obtains d u where "d \<noteq> 0" "u \<noteq> 0" "gw_bandwidth_down st = d \<and> gw_bandwidth_up st = u"
      "batadv_gw_bandwidth_set env buff cnt st = (st, cnt)"
  | d u where "d \<noteq> 0" "u \<noteq> 0" "batadv_gw_bandwidth_set env buff cnt st =
      (batadv_gw_tvlv_container_update env ((batadv_gw_reselect st)\<lparr>gw_bandwidth_down := d, gw_bandwidth_up := u\<rparr>), cnt)"
proof -
  obtain d0 u0 where p: "batadv_parse_gw_bandwidth buff = Some (d0, u0)" using assms by auto
  define d where "d = (if d0 = 0 then 1 else d0)"
  define u1 where "u1 = (if u0 = 0 then d div 5 else u0)"
  define u where "u = (if u1 = 0 then 1 else u1)"
  have nz: "d \<noteq> 0" "u \<noteq> 0" by (simp_all add: d_def u_def)
  have "batadv_gw_bandwidth_set env buff cnt st = (if gw_bandwidth_down st = d \<and> gw_bandwidth_up st = u then (st, cnt)
      else (batadv_gw_tvlv_container_update env ((batadv_gw_reselect st)\<lparr>gw_bandwidth_down := d, gw_bandwidth_up := u\<rparr>), cnt))"
    unfolding batadv_gw_bandwidth_set_def p option.case prod.case Let_def d_def [symmetric] u1_def [symmetric] u_def [symmetric] by (rule refl)
  then show thesis using that nz by (cases "gw_bandwidth_down st = d \<and> gw_bandwidth_up st = u") simp_all
qed

lemma bandwidth_set_server:
  assumes "batadv_gw_bandwidth_set env buff cnt st = (st', r)" "batadv_parse_gw_bandwidth buff \<noteq> None"
    and "gw_mode st = BATADV_GW_MODE_SERVER" "ge_alloc_tvlv env" "st' \<noteq> st"
  shows "gw_bandwidth_down st' \<noteq> 0 \<and> gw_bandwidth_up st' \<noteq> 0
    \<and> gw_tvlv st' = batadv_tvlv_container_register True BATADV_TVLV_GW 1
        (Some (be_bytes 4 (gw_bandwidth_down st') @ be_bytes 4 (gw_bandwidth_up st'))) 8 (gw_tvlv st)"
proof (cases rule: bandwidth_set_cases [OF assms(2), of st env cnt])
  case (2 d u)
  let ?t = "(batadv_gw_reselect st)\<lparr>gw_bandwidth_down := d, gw_bandwidth_up := u\<rparr>"
  have s: "st' = batadv_gw_tvlv_container_update env ?t" using 2(3) assms(1) by simp
  have v: "gw_bandwidth_down st' = d" "gw_bandwidth_up st' = u" unfolding s container_update_keeps by simp_all
  have "gw_tvlv st' = batadv_tvlv_container_register True BATADV_TVLV_GW 1 (Some (be_bytes 4 d @ be_bytes 4 u)) 8 (gw_tvlv st)"
    unfolding s using assms(3,4) by (simp add: batadv_gw_tvlv_container_update_def batadv_gw_reselect_def del: be_bytes.simps)
  then show ?thesis unfolding v using 2(1,2) by blast
qed (use assms in simp)

lemma announced_bytes:
  assumes "down \<noteq> 0" "up \<noteq> 0"
  shows "gw_announced 0 (be_bytes 4 down @ be_bytes 4 up) = (down, up)"
  using assms by (simp add: gw_announced_def del: be_bytes.simps)

lemma check_election_list: "gw_list (batadv_gw_check_election env orig st) = gw_list st"
  by (simp add: batadv_gw_check_election_def batadv_gw_reselect_def split: option.split)

text \<open>
  C30. The bandwidth an administrator gives a server arrives at the clients: when the setting is changed, the
  container that is sent with every message holds both values, none of them zero, and a node that
  receives the container has the originator in its list with exactly these values.
\<close>

theorem gw_bandwidth_announced:
  assumes set: "batadv_gw_bandwidth_set env buff cnt st = (st', r)" "batadv_parse_gw_bandwidth buff \<noteq> None"
    and server: "gw_mode st = BATADV_GW_MODE_SERVER" "ge_alloc_tvlv env" "st' \<noteq> st"
    and client: "gw_initial s0" "(gw_step addr)\<^sup>*\<^sup>* s0 s" "ge_alloc env'"
  shows "\<exists>c. batadv_tvlv_container_get (gw_tvlv st') BATADV_TVLV_GW 1 = Some c
    \<and> (\<exists>g \<in> set (gw_list (batadv_gw_tvlv_ogm_handler_v1 env' orig 0 (tc_value c) s)). gn_orig_node g = orig
         \<and> gn_bandwidth_down g = gw_bandwidth_down st' \<and> gn_bandwidth_up g = gw_bandwidth_up st'
         \<and> gn_bandwidth_down g \<noteq> 0 \<and> gn_bandwidth_up g \<noteq> 0)"
proof -
  have nz: "gw_bandwidth_down st' \<noteq> 0" "gw_bandwidth_up st' \<noteq> 0"
    and reg: "gw_tvlv st' = batadv_tvlv_container_register True BATADV_TVLV_GW 1
        (Some (be_bytes 4 (gw_bandwidth_down st') @ be_bytes 4 (gw_bandwidth_up st'))) 8 (gw_tvlv st)"
    using bandwidth_set_server [OF set server] by blast+
  let ?v = "be_bytes 4 (gw_bandwidth_down st') @ be_bytes 4 (gw_bandwidth_up st') :: u8 list"
  let ?c = "\<lparr>tc_type = BATADV_TVLV_GW, tc_version = 1, tc_len = 8, tc_value = ?v\<rparr>"
  have c: "batadv_tvlv_container_get (gw_tvlv st') BATADV_TVLV_GW 1 = Some ?c"
    unfolding reg
    by (simp add: batadv_tvlv_container_register_def batadv_tvlv_container_get_def Let_def del: be_bytes.simps)
  have ok: "gw_ok addr s" by (rule gw_system.reachable_invariant [OF client(1,2)])
  have l: "gw_list (batadv_gw_tvlv_ogm_handler_v1 env' orig 0 ?v s) = gw_list (batadv_gw_node_update env' orig (gw_bandwidth_down st') (gw_bandwidth_up st') s)"
    unfolding batadv_gw_tvlv_ogm_handler_v1_def announced_bytes [OF nz] prod.case Let_def
    by (simp only: check_election_list split: if_split) simp
  obtain g where g: "g \<in> set (gw_list (batadv_gw_node_update env' orig (gw_bandwidth_down st') (gw_bandwidth_up st') s))"
      "gn_orig_node g = orig" "gn_bandwidth_down g = gw_bandwidth_down st'" "gn_bandwidth_up g = gw_bandwidth_up st'"
    using node_update_listed [OF ok nz(1) client(3), of orig "gw_bandwidth_up st'"] by blast
  have v: "tc_value ?c = ?v" by simp
  show ?thesis
  proof (rule exI [of _ ?c], rule conjI [OF c], unfold v, unfold l, rule bexI [OF _ g(1)])
    show "gn_orig_node g = orig \<and> gn_bandwidth_down g = gw_bandwidth_down st' \<and> gn_bandwidth_up g = gw_bandwidth_up st'
      \<and> gn_bandwidth_down g \<noteq> 0 \<and> gn_bandwidth_up g \<noteq> 0" using g nz by simp
  qed
qed

end
