(* ===== verification/Gw_Parse.thy ===== *)
theory Gw_Parse
  imports Gw_Config
begin

text \<open>
  The settings of a gateway as an administrator writes them: the bandwidth is read exactly, or refused when it does not
  fit into 32 bits.
\<close>

section \<open>Decimal numbers\<close>

fun decimal :: "nat \<Rightarrow> string" where
  "decimal n = (if n < 10 then [char_of (48 + n)] else decimal (n div 10) @ [char_of (48 + n mod 10)])"

declare decimal.simps [simp del]

lemma of_char_digit: "(d :: nat) < 10 \<Longrightarrow> (of_char (char_of (48 + d) :: char) :: nat) = 48 + d"
  by simp

lemma digit_char: "(d :: nat) < 10 \<Longrightarrow> is_digit (char_of (48 + d))"
  unfolding is_digit_def by (subst (1 2) of_char_digit) simp_all

lemma decimal_digits: "list_all is_digit (decimal n)"
proof (induction n rule: decimal.induct)
  case (1 n)
  then show ?case using digit_char [of n] digit_char [of "n mod 10"] by (subst decimal.simps) (simp del: char_of_nat)
qed

lemma decimal_nonempty: "decimal n \<noteq> []"
  by (subst decimal.simps) simp

lemma digits_value_snoc: "digits_value (ds @ [c]) = 10 * digits_value ds + (of_char c - 48)"
  by (simp add: digits_value_def)

lemma digits_value_decimal: "digits_value (decimal n) = n"
proof (induction n rule: decimal.induct)
  case (1 n)
  show ?case
  proof (cases "n < 10")
    case True
    then show ?thesis by (subst decimal.simps) (simp add: digits_value_def)
  next
    case False
    then have "digits_value (decimal n) = 10 * (n div 10) + n mod 10"
      using 1 by (subst decimal.simps) (simp add: digits_value_snoc)
    then show ?thesis by simp
  qed
qed

lemma not_digit: "\<not> is_digit (CHR ''m'')" "\<not> is_digit (CHR ''k'')" "\<not> is_digit (CHR ''/'')" "\<not> is_digit (CHR ''+'')" "\<not> is_digit (CHR ''t'')"
  by (simp_all add: is_digit_def)

lemma decimal_not: "c \<in> set (decimal n) \<Longrightarrow> is_digit c"
  using decimal_digits [of n] by (simp add: list_all_iff)

lemma decimal_plus: "take 1 (decimal n) \<noteq> ''+''"
  using decimal_not [of "hd (decimal n)" n] decimal_nonempty [of n] not_digit(4) by (cases "decimal n") auto

lemma kstrtou64_decimal: "kstrtou64 (decimal n) = (if n < 2 ^ 64 then Some (of_nat n) else None)"
proof -
  have t: "takeWhile is_digit (decimal n) = decimal n" "dropWhile is_digit (decimal n) = []"
    using decimal_not by (auto simp: takeWhile_eq_all_conv dropWhile_eq_Nil_conv)
  show ?thesis unfolding kstrtou64_def if_not_P [OF decimal_plus] Let_def t digits_value_decimal
    using decimal_nonempty by simp
qed

section \<open>Bandwidths\<close>

lemma unit_of_decimal: "map to_lower (drop (length (decimal n) - 4) (decimal n)) \<noteq> [a, b, c, CHR ''t'']"
proof
  assume u: "map to_lower (drop (length (decimal n) - 4) (decimal n)) = [a, b, c, CHR ''t'']"
  let ?d = "drop (length (decimal n) - 4) (decimal n)"
  have ne: "?d \<noteq> []" using u by auto
  then have "last ?d \<in> set (decimal n)" using in_set_dropD [OF last_in_set [OF ne]] by simp
  then have dig: "is_digit (last ?d)" by (rule decimal_not)
  have "to_lower (last ?d) = CHR ''t''" using u ne by (metis last.simps last_map list.distinct(1))
  moreover have "to_lower (last ?d) = last ?d" using dig by (simp add: to_lower_def is_digit_def)
  ultimately show False using dig not_digit(5) by simp
qed

lemma ucast_of_nat_64: "n < 2 ^ 64 \<Longrightarrow> unat (of_nat n :: 64 word) = n"
  by (simp add: take_bit_nat_eq_self unsigned_of_nat)

lemma ucast_unat: "unat w = n \<Longrightarrow> ucast w = (of_nat n :: u32)"
  by (auto simp: of_nat_unat)

lemma above_u32: "unat w = n \<Longrightarrow> (0xFFFFFFFF :: 64 word) < w \<longleftrightarrow> \<not> n < 2 ^ 32"
  by (auto simp: word_less_nat_alt)

lemma parse_mbit: "batadv_parse_throughput (decimal n @ ''mbit'') = (if n * 10 < 2 ^ 32 then Some (of_nat (n * 10)) else None)"
proof (cases "n < 2 ^ 64")
  case False
  then show ?thesis using decimal_nonempty [of n] by (simp add: batadv_parse_throughput_def Let_def kstrtou64_decimal to_lower_def)
next
  case True
  let ?w = "of_nat n :: 64 word"
  have w: "unat ?w = n" by (rule ucast_of_nat_64 [OF True])
  have big: "(- 1) div 10 < ?w \<longleftrightarrow> 1844674407370955161 < n" by (simp add: word_less_nat_alt unat_div w)
  have p: "batadv_parse_throughput (decimal n @ ''mbit'') = (if (- 1) div 10 < ?w then None
      else if ?w * 10 > 0xFFFFFFFF then None else Some (ucast (?w * 10)))"
    using decimal_nonempty [of n] True by (simp add: batadv_parse_throughput_def Let_def kstrtou64_decimal to_lower_def)
  show ?thesis
  proof (cases "1844674407370955161 < n")
    case b: True
    then show ?thesis unfolding p big by simp
  next
    case b: False
    then have "n * 10 < 2 ^ 64" by simp
    then have m: "unat (?w * 10) = n * 10" using ucast_of_nat_64 [of "n * 10"] by simp
    have gt: "?w * 10 > 0xFFFFFFFF \<longleftrightarrow> \<not> n * 10 < 2 ^ 32" by (rule above_u32 [OF m])
    have "ucast (?w * 10) = (of_nat (n * 10) :: u32)" by (rule ucast_unat [OF m])
    then show ?thesis unfolding p big gt using b by (simp del: of_nat_mult)
  qed
qed

lemma parse_kbits:
  assumes "\<And>r. kstrtou64 (decimal n) = r \<Longrightarrow> batadv_parse_throughput s = (case r of None \<Rightarrow> None
     | Some w \<Rightarrow> if w div 100 > 0xFFFFFFFF then None else Some (ucast (w div 100)))"
  shows "batadv_parse_throughput s = (if n div 100 < 2 ^ 32 then Some (of_nat (n div 100)) else None)"
proof (cases "n < 2 ^ 64")
  case False
  then have "\<not> n div 100 < 2 ^ 32" by simp
  then show ?thesis using False assms [OF refl] by (simp add: kstrtou64_decimal)
next
  case True
  let ?w = "of_nat n :: 64 word"
  have m: "unat (?w div 100) = n div 100" by (simp add: unat_div ucast_of_nat_64 [OF True])
  have gt: "?w div 100 > 0xFFFFFFFF \<longleftrightarrow> \<not> n div 100 < 2 ^ 32" by (rule above_u32 [OF m])
  have "ucast (?w div 100) = (of_nat (n div 100) :: u32)" by (rule ucast_unat [OF m])
  moreover have "kstrtou64 (decimal n) = Some ?w" using True by (simp add: kstrtou64_decimal)
  ultimately show ?thesis unfolding assms [OF refl] by (simp only: gt option.case if_not_P not_not)
    (cases "n div 100 < 2 ^ 32"; simp only: not_True_eq_False not_False_eq_True if_True if_False)
qed

lemma parse_kbit: "batadv_parse_throughput (decimal n @ ''kbit'') = (if n div 100 < 2 ^ 32 then Some (of_nat (n div 100)) else None)"
  by (rule parse_kbits) (use decimal_nonempty [of n] in \<open>simp add: batadv_parse_throughput_def Let_def to_lower_def cong: option.case_cong\<close>)

lemma parse_plain: "batadv_parse_throughput (decimal n) = (if n div 100 < 2 ^ 32 then Some (of_nat (n div 100)) else None)"
proof (rule parse_kbits)
  fix r
  assume "kstrtou64 (decimal n) = r"
  moreover define unit where "unit = (if length (decimal n) > 4 then map to_lower (drop (length (decimal n) - 4) (decimal n)) else [])"
  moreover have "unit \<noteq> ''mbit''" "unit \<noteq> ''kbit''" using unit_of_decimal [of n] by (auto simp: unit_def)
  ultimately show "batadv_parse_throughput (decimal n) = (case r of None \<Rightarrow> None
     | Some w \<Rightarrow> if w div 100 > 0xFFFFFFFF then None else Some (ucast (w div 100)))"
    unfolding batadv_parse_throughput_def Let_def unit_def [symmetric] by (simp split: option.split)
qed

lemma parse_two_values:
  "batadv_parse_gw_bandwidth (decimal n @ ''mbit/'' @ decimal m @ ''mbit'')
     = (if n * 10 < 2 ^ 32 \<and> m * 10 < 2 ^ 32 then Some (of_nat (n * 10), of_nat (m * 10)) else None)"
proof -
  have d: "c \<noteq> CHR ''/''" if "c \<in> set (decimal n)" for c using decimal_not [OF that] not_digit(3) by auto
  then have t: "takeWhile (\<lambda>c. c \<noteq> CHR ''/'') (decimal n @ ''mbit/'' @ decimal m @ ''mbit'') = decimal n @ ''mbit''"
    "dropWhile (\<lambda>c. c \<noteq> CHR ''/'') (decimal n @ ''mbit/'' @ decimal m @ ''mbit'') = CHR ''/'' # decimal m @ ''mbit''"
    by (simp_all add: takeWhile_append2 dropWhile_append2)
  show ?thesis unfolding batadv_parse_gw_bandwidth_def t by (simp add: parse_mbit del: of_nat_mult)
qed

text \<open>
  C31. A bandwidth is read exactly: a decimal number of megabits counts ten units of 100 kbit/s each, a number of kilobits is
  rounded down, without a unit kilobits are meant; a value that does not fit into 32 bits is refused, however many
  digits it has, and a setting with two values gives both of them.
\<close>

theorem gw_parse_exact:
  "batadv_parse_throughput (decimal n @ ''mbit'') = (if n * 10 < 2 ^ 32 then Some (of_nat (n * 10)) else None)
   \<and> batadv_parse_throughput (decimal n @ ''kbit'') = (if n div 100 < 2 ^ 32 then Some (of_nat (n div 100)) else None)
   \<and> batadv_parse_throughput (decimal n) = (if n div 100 < 2 ^ 32 then Some (of_nat (n div 100)) else None)
   \<and> batadv_parse_gw_bandwidth (decimal n @ ''mbit/'' @ decimal m @ ''mbit'')
       = (if n * 10 < 2 ^ 32 \<and> m * 10 < 2 ^ 32 then Some (of_nat (n * 10), of_nat (m * 10)) else None)"
  by (intro conjI parse_mbit parse_kbit parse_plain parse_two_values)

end
