(* ===== verification/Gw_Demo.thy ===== *)
theory Gw_Demo
  imports Gw_Elect Gw_Parse
begin

text \<open>
  The guarantees of the gateways at a concrete input: a client that knows two gateways, of quality 100 and 200, and
  a server whose bandwidth is set to 10 and 2 megabits.
\<close>

section \<open>A client\<close>

definition demo_gw_orig :: "nat \<Rightarrow> batadv_orig_node" where
  "demo_gw_orig p =
     demo_target\<lparr>on_orig := of_nat p,
       on_neigh := (\<lambda>k. (on_neigh demo_target k)\<lparr>nn_ifinfo := [(None, \<lparr>ni_tq_recv = [], ni_tq_index = 0,
         ni_tq_avg = of_nat (100 * p), ni_real_bits = 0, ni_real_packet_count = 0, ni_last_ttl = 50\<rparr>)]\<rparr>)\<rparr>"

definition demo_gw_env :: gw_env where
  "demo_gw_env = \<lparr>ge_alloc = True, ge_alloc_tvlv = True, ge_orig_node = demo_gw_orig,
     ge_find_router = (\<lambda>_. None), ge_transtable_search = (\<lambda>_ _ _. None), ge_rt = demo_rt_env, ge_junk = (\<lambda>_. 0)\<rparr>"

definition demo_gw_start :: batadv_priv_gw where
  "demo_gw_start = \<lparr>gw_list = [], gw_curr_gw = None, gw_bandwidth_down = 100, gw_bandwidth_up = 20, gw_reselect = 0,
     gw_mode = BATADV_GW_MODE_OFF, gw_sel_class = 20, gw_next_ref = 0, gw_tvlv = tvlv_init (), gw_uevents = []\<rparr>"

definition demo_gw_value :: "u8 list" where
  "demo_gw_value = [0, 0, 0, 100, 0, 0, 0, 20]"

definition demo_gw_client :: batadv_priv_gw where
  "demo_gw_client =
     batadv_gw_election demo_gw_env
       (batadv_gw_tvlv_ogm_handler_v1 demo_gw_env 1 0 demo_gw_value
         (fst (batadv_store_gw_mode demo_gw_env ''client'' 6 demo_gw_start)))"

lemma demo_gw_initial: "gw_initial demo_gw_start"
  by (simp add: gw_initial_def demo_gw_start_def)

lemma demo_gw_env_ok: "gw_env_ok of_nat demo_gw_env"
  by (simp add: gw_env_ok_def demo_gw_env_def demo_gw_orig_def)

lemma demo_gw_tq: "gw_tq demo_gw_env p = Some (of_nat (100 * p))"
proof -
  have "batadv_orig_router_get (demo_gw_orig p) None = Some 0"
    by (simp add: batadv_orig_router_get_def demo_gw_orig_def demo_target_def demo_route_def)
  then show ?thesis by (simp add: gw_tq_def demo_gw_env_def batadv_neigh_ifinfo_get_def demo_gw_orig_def)
qed

lemma demo_gw_announced: "gw_announced 0 demo_gw_value = (100, 20)"
  by code_simp

lemma demo_gw_alloc: "ge_alloc demo_gw_env"
  by (simp add: demo_gw_env_def)

lemma demo_gw_client_value:
  "gw_curr_gw demo_gw_client = Some (0, 1)" "gw_mode demo_gw_client = BATADV_GW_MODE_CLIENT" "gw_sel_class demo_gw_client = 20"
  "gw_reselect demo_gw_client = 0"
  "gw_list demo_gw_client = [\<lparr>gn_ref = 0, gn_orig_node = 1, gn_bandwidth_down = 100, gn_bandwidth_up = 20\<rparr>]"
  "gw_uevents demo_gw_client = [Uev_Add 1]"
proof -
  define s where "s = fst (batadv_store_gw_mode demo_gw_env ''client'' 6 demo_gw_start)"
  have s: "gw_list s = []" "gw_curr_gw s = None" "gw_mode s = BATADV_GW_MODE_CLIENT" "gw_sel_class s = 20" "gw_reselect s = 1" "gw_uevents s = []"
    "gw_next_ref s = 0"
    by (simp_all add: s_def batadv_store_gw_mode_def gw_mode_of_def demo_gw_start_def batadv_gw_check_client_stop_def batadv_gw_reselect_def
        batadv_gw_tvlv_container_update_def)
  define h where "h = batadv_gw_tvlv_ogm_handler_v1 demo_gw_env 1 0 demo_gw_value s"
  have h: "gw_list h = [\<lparr>gn_ref = 0, gn_orig_node = 1, gn_bandwidth_down = 100, gn_bandwidth_up = 20\<rparr>]" "gw_curr_gw h = None"
    "gw_mode h = BATADV_GW_MODE_CLIENT" "gw_sel_class h = 20" "gw_reselect h = 1" "gw_uevents h = []"
    by (simp_all add: h_def batadv_gw_tvlv_ogm_handler_v1_def demo_gw_announced batadv_gw_node_update_def batadv_gw_node_get_def s
        batadv_gw_node_add_def demo_gw_alloc batadv_gw_check_election_def batadv_gw_get_selected_orig_def batadv_gw_reselect_def)
  have a: "on_orig (ge_orig_node demo_gw_env (Suc 0)) = 1" using demo_gw_env_ok by (simp add: gw_env_ok_def)
  have e: "demo_gw_client = batadv_gw_election demo_gw_env h" by (simp add: demo_gw_client_def h_def s_def)
  have best: "batadv_gw_get_best_gw_node demo_gw_env (h\<lparr>gw_reselect := 0\<rparr>) = Some \<lparr>gn_ref = 0, gn_orig_node = 1, gn_bandwidth_down = 100, gn_bandwidth_up = 20\<rparr>"
    by (simp add: batadv_gw_get_best_gw_node_def h demo_gw_tq)
  have c: "demo_gw_client = batadv_gw_select (Some (0, 1)) (gw_uevent (Uev_Add 1) (h\<lparr>gw_reselect := 0\<rparr>))"
    unfolding e batadv_gw_election_def by (simp add: h best a demo_gw_tq)
  show "gw_curr_gw demo_gw_client = Some (0, 1)" "gw_mode demo_gw_client = BATADV_GW_MODE_CLIENT" "gw_sel_class demo_gw_client = 20"
    "gw_reselect demo_gw_client = 0"
    "gw_list demo_gw_client = [\<lparr>gn_ref = 0, gn_orig_node = 1, gn_bandwidth_down = 100, gn_bandwidth_up = 20\<rparr>]"
    "gw_uevents demo_gw_client = [Uev_Add 1]"
    unfolding c by (simp_all add: batadv_gw_select_def gw_uevent_def h)
qed

lemma demo_gw_reached: "(gw_step of_nat)\<^sup>*\<^sup>* demo_gw_start demo_gw_client"
  unfolding demo_gw_client_def
proof -
  let ?s = "fst (batadv_store_gw_mode demo_gw_env ''client'' 6 demo_gw_start)"
  let ?h = "batadv_gw_tvlv_ogm_handler_v1 demo_gw_env 1 0 demo_gw_value ?s"
  have "gw_step of_nat demo_gw_start ?s" "gw_step of_nat ?s ?h" "gw_step of_nat ?h (batadv_gw_election demo_gw_env ?h)"
    by (rule gw_step.mode gw_step.announcement [OF demo_gw_env_ok] gw_step.election [OF demo_gw_env_ok])+
  then show "(gw_step of_nat)\<^sup>*\<^sup>* demo_gw_start (batadv_gw_election demo_gw_env ?h)"
    by (meson converse_rtranclp_into_rtranclp rtranclp.rtrancl_refl)
qed

theorem gw_uevents_consistent_witness:
  "user_view None [Uev_Add 1] = Some (Some 1) \<and> batadv_gw_get_selected_orig demo_gw_client \<noteq> None"
  using gw_uevents_consistent [OF demo_gw_initial demo_gw_reached]
  by (simp add: demo_gw_client_value batadv_gw_get_selected_orig_def)

lemma demo_gw_usable: "gw_usable demo_gw_env \<lparr>gn_ref = 0, gn_orig_node = 1, gn_bandwidth_down = 100, gn_bandwidth_up = 20\<rparr>"
  by (simp add: gw_usable_def demo_gw_tq)

lemma demo_gw_due: "gw_step of_nat demo_gw_client (batadv_post_gw_reselect (demo_gw_client\<lparr>gw_sel_class := 1\<rparr>))"
  by (rule gw_step.sel_class)

theorem gw_election_best_witness:
  "gw_curr_gw (batadv_gw_election demo_gw_env (batadv_post_gw_reselect (demo_gw_client\<lparr>gw_sel_class := 1\<rparr>))) = Some (0, 1)"
  using gw_election_best [OF demo_gw_initial rtranclp.rtrancl_into_rtrancl [OF demo_gw_reached demo_gw_due] demo_gw_env_ok] demo_gw_usable
  by (auto simp: batadv_post_gw_reselect_def batadv_gw_reselect_def demo_gw_client_value split: option.splits)

theorem gw_switches_witness:
  "\<exists>p t. batadv_gw_get_selected_orig (batadv_gw_election demo_gw_env (batadv_gw_tvlv_ogm_handler_v1 demo_gw_env 2 0 demo_gw_value demo_gw_client)) = Some p
    \<and> gw_tq demo_gw_env p = Some t \<and> 200 \<le> t"
  by (rule gw_switches [OF demo_gw_initial demo_gw_reached demo_gw_env_ok demo_gw_alloc _ _ demo_gw_announced, where c = 1 and tc = 100])
    (simp_all add: demo_gw_client_value batadv_gw_get_selected_orig_def demo_gw_tq)

section \<open>A server\<close>

definition demo_gw_server :: batadv_priv_gw where
  "demo_gw_server = demo_gw_start\<lparr>gw_mode := BATADV_GW_MODE_SERVER\<rparr>"

lemma demo_bandwidth: "batadv_parse_gw_bandwidth ''10mbit/2mbit'' = Some (100, 20)"
proof -
  have "decimal 10 = ''10''" "decimal 2 = ''2''" by code_simp+
  then show ?thesis using parse_two_values [of 10 2] by simp
qed

lemma demo_bandwidth_more: "batadv_parse_gw_bandwidth ''20mbit/2mbit'' = Some (200, 20)"
proof -
  have "decimal 20 = ''20''" "decimal 2 = ''2''" by code_simp+
  then show ?thesis using parse_two_values [of 20 2] by simp
qed

lemma demo_set: "batadv_gw_bandwidth_set demo_gw_env ''20mbit/2mbit'' 12 demo_gw_server
  = (batadv_gw_tvlv_container_update demo_gw_env ((batadv_gw_reselect demo_gw_server)\<lparr>gw_bandwidth_down := 200, gw_bandwidth_up := 20\<rparr>), 12)"
  by (simp add: batadv_gw_bandwidth_set_def demo_bandwidth_more demo_gw_server_def demo_gw_start_def)

theorem gw_bandwidth_announced_witness:
  "\<exists>c. batadv_tvlv_container_get (gw_tvlv (fst (batadv_gw_bandwidth_set demo_gw_env ''20mbit/2mbit'' 12 demo_gw_server))) BATADV_TVLV_GW 1 = Some c
    \<and> (\<exists>g \<in> set (gw_list (batadv_gw_tvlv_ogm_handler_v1 demo_gw_env 2 0 (tc_value c) demo_gw_client)). gn_orig_node g = 2
         \<and> gn_bandwidth_down g = 200 \<and> gn_bandwidth_up g = 20)"
proof -
  let ?t = "(batadv_gw_reselect demo_gw_server)\<lparr>gw_bandwidth_down := 200, gw_bandwidth_up := 20\<rparr>"
  let ?s = "batadv_gw_tvlv_container_update demo_gw_env ?t"
  have v: "gw_bandwidth_down ?s = 200" "gw_bandwidth_up ?s = 20" unfolding container_update_keeps by simp_all
  have m: "gw_mode demo_gw_server = BATADV_GW_MODE_SERVER" "ge_alloc_tvlv demo_gw_env" by (simp_all add: demo_gw_server_def demo_gw_env_def)
  have p: "batadv_parse_gw_bandwidth ''20mbit/2mbit'' \<noteq> None" unfolding demo_bandwidth_more by simp
  have "gw_bandwidth_down demo_gw_server = 100" by (simp add: demo_gw_server_def demo_gw_start_def)
  then have n: "?s \<noteq> demo_gw_server" using v(1) by auto
  show ?thesis unfolding demo_set fst_conv
    using gw_bandwidth_announced [OF demo_set p m n demo_gw_initial demo_gw_reached demo_gw_alloc, of 2, unfolded v] by blast
qed

end
