(* ===== verification/Spec2Isabelle.thy ===== *)
theory Spec2Isabelle
  imports SeqWindow Fragmentation Hash Iv_Rate Send_Props Mesh_Run Routing_Deliver Tt_Agree Tt_Resize
    Bla_Resync Bla_Props Bla_Dup Dat_Deliver Gw_Demo
begin

text \<open>
  A verification library for the mesh network tools of this repository: the B.A.T.M.A.N.
  kernel module (\<open>tools/batman-adv-2016.1/net/batman-adv\<close>, below \<open>net/\<close>) and the
  user space tools beside it (\<open>tools/alfred-2016.1\<close>, \<open>tools/batctl-2016.1\<close>).

  \<^bold>\<open>The program.\<close> A mesh node owns some network interfaces (\<open>hard-interface.c\<close>). Over
  each it broadcasts originator messages; the messages of other nodes build the originator
  table, which names for each destination the neighbors it is reachable over and the best
  of them, its router (\<open>bat_iv_ogm.c\<close>, \<open>originator.c\<close>). Messages carry typed containers
  of other components (tvlv, in \<open>main.c\<close>). Received packets are dispatched by type
  (\<open>main.c\<close>) to handlers that deliver, answer, forward, merge or drop them
  (\<open>routing.c\<close>, \<open>fragmentation.c\<close>); \<open>send.c\<close> keeps the queues of packets that wait for
  their time. \<open>bitarray.c\<close> and \<open>hash.c\<close> are the two data structures all of this uses.

  \<^bold>\<open>Theories and sources.\<close>
  \<^item> \<open>Prelude\<close>, \<open>Bytes\<close>: words, lists and fixed-width fields in big-endian byte order.
  \<^item> \<open>Interfaces\<close>: the contracts between components as locales: a filter for duplicates
    (interpreted in \<open>SeqWindow\<close>), a table with keys (interpreted in \<open>Hash\<close> twice and in
    \<open>Tvlv_Props\<close>), and a transition system with an invariant (interpreted in \<open>Mesh_Run\<close>).
  \<^item> \<open>SeqWindow\<close>: \<open>bitarray.c\<close>, the restart protection of \<open>routing.c\<close> and the check of
    broadcast numbers. A window is a 64 bit word.
  \<^item> \<open>Fragmentation\<close>: \<open>fragmentation.c\<close>. A chain of fragments is a list sorted as the
    code keeps it; a socket buffer is its bytes with its head and tail room.
  \<^item> \<open>Hash\<close>: \<open>hash.c\<close> of the kernel module and of alfred (batctl has a copy). A table is
    its array of buckets; the iterator of alfred is explicit state.
  \<^item> \<open>Originator\<close>: the records of \<open>types.h\<close> and \<open>originator.c\<close>. Pointers between
    originators, neighbors and interfaces are keys (addresses, device indices) into the
    tables of \<open>batadv_priv\<close>, so that a dangling pointer is a key without an entry.
  \<^item> \<open>Iv_Queue\<close>, \<open>Iv_Ogm\<close>: \<open>bat_iv_ogm.c\<close>, sending and receiving. \<open>Iv_Rate\<close>,
    \<open>Iv_Unpack\<close>, \<open>Iv_Invariant\<close>, \<open>Iv_Purge\<close> are its properties.
  \<^item> \<open>Send\<close>, \<open>Hardif\<close>: the queues of \<open>send.c\<close> and the life cycle of interfaces in
    \<open>hard-interface.c\<close>; \<open>Send_Props\<close> are the properties of the queues.
  \<^item> \<open>Mesh\<close>: the step relation \<open>mesh_step\<close> of a node: devices appear, are enabled, go up
    and down, are removed, packets arrive, timers run. \<open>Mesh_Join\<close>, \<open>Mesh_Leave\<close>,
    \<open>Mesh_Run\<close> prove its invariant.
  \<^item> \<open>Tvlv\<close>, \<open>Tvlv_Props\<close>: the containers of \<open>main.c\<close>. A handler is a function on the
    state of the component that registered it.
  \<^item> \<open>Routing\<close>, \<open>Routing_Recv\<close>: the choice of the next hop, the sending of unicast
    packets, all receive handlers and the dispatcher. \<open>Routing_Props\<close>,
    \<open>Routing_Deliver\<close> are the properties.
  \<^item> \<open>Tt\<close>, \<open>Tt_Msg\<close>: \<open>translation-table.c\<close>. The hash tables of clients are lists in the
    order in which the code walks the buckets; a global entry lists its originators by
    address; everything sent is recorded. \<open>Tt_Tables\<close> has the lemmas on the lists,
    \<open>Tt_Owner\<close> the invariant that no client is owned twice, \<open>Tt_Run\<close> the step relation
    with one step per entry point, \<open>Tt_Count\<close> and \<open>Tt_Local\<close> the counters per VLAN,
    \<open>Tt_Commit\<close> what a commit does, \<open>Tt_Sync\<close>, \<open>Tt_Copy\<close>, \<open>Tt_Agree\<close> how one node copies the
    table of another, \<open>Tt_Resize\<close> how the table is shrunk and how a destination is found.
  \<^item> \<open>Bla\<close>: \<open>bridge_loop_avoidance.c\<close>. A gateway has a number that is never used again,
    where the code compares pointers; frames for the LAN are recorded as bytes. \<open>Bla_Inv\<close>
    and \<open>Bla_Run\<close> have the invariant of the tables and the step relation, \<open>Bla_Frames\<close>
    the bytes of the claim frames, \<open>Bla_Sync\<close> and \<open>Bla_Resync\<close> the exchange between two
    gateways, \<open>Bla_Props\<close> and \<open>Bla_Dup\<close> the other properties.
  \<^item> \<open>Dat\<close>: \<open>distributed-arp-table.c\<close>. The cache is the table of \<open>Hash\<close> with the hash
    function of the code; the place of an originator on the ring is a function of its address.
    \<open>Dat_Ring\<close> is the choice of candidates, \<open>Dat_Cache\<close> the invariant of the cache,
    \<open>Dat_Props\<close> and \<open>Dat_Deliver\<close> the messages between nodes.

  \<^item> \<open>Gw\<close>, \<open>Gw_Config\<close>: \<open>gateway_client.c\<close>, \<open>gateway_common.c\<close> and the settings in
    \<open>sysfs.c\<close>. Originators are pointers here, since a selected gateway can point to one that
    has left the table. \<open>Gw_Props\<close> has the step relation and what user space is told,
    \<open>Gw_Elect\<close> the elections, \<open>Gw_Parse\<close> the reading of bandwidths, \<open>Gw_Demo\<close> the examples.

  \<^bold>\<open>What is shown.\<close>
  \<^item> In every reachable state of a node no router or neighbor dangles, the interface
    numbers index the windows of each originator, the recorded weights are the weights of
    the windows, and no place of a queue is lost (\<open>Mesh_Run\<close>, from one preservation lemma
    per operation).
  \<^item> Receiving a packet of aggregated messages processes exactly these messages, and does
    not depend on what lies behind the packet although the loop looks there.
  \<^item> The rating of links in 8 and 32 bit integers is the exact arithmetic.
  \<^item> A purge removes exactly what is obsolete and leaves the best neighbor as router.
  \<^item> Round trips: fragments in any order give the packet back; containers appended to a
    message, or sent to one node, reach the handlers of their types with their contents.
  \<^item> The dispatcher ends for every packet. Merged packets are dispatched again, so the
    model has fuel; the fuel is the number of bytes received and waiting, which each
    nesting decreases, and the theorem says that this always suffices.
  \<^item> Unicast packets leave with a time to live reduced by one and never with 0, and with a
    table version that is current at their destination; broadcasts are handled once.
  \<^item> The hash tables, the containers and the handlers refine maps; the windows refine sets
    of sequence numbers.
  \<^item> In every state the translation table reaches, no client is announced by this node and
    taken for a client of another node at once; the counters per VLAN are the numbers of
    entries (when the records of VLANs can be allocated and the packet size stays).
  \<^item> A node that asks another for its whole table has, after the answer, exactly the clients the
    other announces, and accepts all its announcements of this version silently.
  \<^item> The loop that shrinks the table ends when all clients may be purged, and hangs when too
    many may not; a client is reached through the best of the nodes that announce it.
  \<^item> The tables of bridge loop avoidance fit together in every state; a broadcast of a claimed
    client passes one gateway only; after a request two gateways agree; broadcasts are
    stopped for a bounded number of periods only.
  \<^item> The candidates for an address are the nearest nodes on the ring; two nodes that know the
    same others share one, and through it an address gets from one to the other. A node
    answers ARP requests only with addresses it has learned.
  \<^item> A client elects a gateway than which none is better, changes to a better one as its class
    demands, and tells user space the truth about it; a bandwidth is read exactly and arrives
    at the clients.
  \<^item> Defects of the code are theorems of kind error, with the lines they come from.

  \<^bold>\<open>Parameters.\<close> Outcomes of allocations, random delays, clocks, the checks on devices by
  the kernel, the checksum and hash functions of the kernel, bytes of memory the code does not write,
  and the answers of other components (to the receive path: translation table, bridge loop
  avoidance, ARP table) are arguments of the operations.

  \<^bold>\<open>Not modelled.\<close> Reference counts, RCU and locks: an operation is one step. Text output
  to debugfs, the log and sysfs. Network coding and B.A.T.M.A.N. V: the configuration
  in \<open>compat-autoconf.h\<close> does not build them. The socket and device layer of the kernel is
  not part of the repository. The manifest lists every part with its status.

  \<^bold>\<open>What is left.\<close> The soft interface, the multicast
  optimisation and the servers of alfred.
\<close>

end
